(* ===== verification/Gunyah_Prelude.thy ===== *)
theory Gunyah_Prelude
  imports Main "HOL-Library.Word"
begin

unbundle bit_operations_syntax

text \<open>
  Shared vocabulary of the development: the machine integer types and the errno values of
  the Gunyah drivers, outcomes of kernel functions that may block or touch freed memory,
  the sleeping primitive \<^verbatim>\<open>wait_event_interruptible\<close>, little-endian byte views of words,
  bounded \<^verbatim>\<open>memcpy\<close>, and the contracts (locales) that several drivers share.
\<close>

named_theorems gh_inv \<open>preservation of a component's invariant by its operations\<close>
named_theorems gh_run \<open>equations that evaluate a driver operation on one branch\<close>

section \<open>Machine integers and error numbers\<close>

type_synonym u8 = "8 word"
type_synonym u16 = "16 word"
type_synonym u32 = "32 word"
type_synonym u64 = "64 word"

type_synonym gh_vmid_t = u16
type_synonym gh_label_t = u32
type_synonym gh_capid_t = u64
type_synonym gh_virq_handle_t = u32

type_synonym ptr = nat

abbreviation (input) EPERM :: int where "EPERM \<equiv> 1"
abbreviation (input) EIO :: int where "EIO \<equiv> 5"
abbreviation (input) ENXIO :: int where "ENXIO \<equiv> 6"
abbreviation (input) E2BIG :: int where "E2BIG \<equiv> 7"
abbreviation (input) EAGAIN :: int where "EAGAIN \<equiv> 11"
abbreviation (input) ENOMEM :: int where "ENOMEM \<equiv> 12"
abbreviation (input) EACCES :: int where "EACCES \<equiv> 13"
abbreviation (input) EFAULT :: int where "EFAULT \<equiv> 14"
abbreviation (input) EBUSY :: int where "EBUSY \<equiv> 16"
abbreviation (input) EEXIST :: int where "EEXIST \<equiv> 17"
abbreviation (input) ENODEV :: int where "ENODEV \<equiv> 19"
abbreviation (input) EINVAL :: int where "EINVAL \<equiv> 22"
abbreviation (input) ERESTARTSYS :: int where "ERESTARTSYS \<equiv> 512"
abbreviation (input) EPROBE_DEFER :: int where "EPROBE_DEFER \<equiv> 517"

abbreviation (input) GH_CAPID_INVAL :: gh_capid_t where "GH_CAPID_INVAL \<equiv> 0xFFFFFFFFFFFFFFFF"
abbreviation (input) GH_VMID_INVAL :: gh_vmid_t where "GH_VMID_INVAL \<equiv> 0xFFFF"
abbreviation (input) U32_MAX :: u32 where "U32_MAX \<equiv> 0xFFFFFFFF"

lemma unat_u8_less: "unat (w :: u8) < 256"
  and unat_u16_less: "unat (v :: u16) < 65536"
proof -
  have "(unsigned w :: nat) < 2 ^ LENGTH(8)" "(unsigned v :: nat) < 2 ^ LENGTH(16)"
    by (rule unsigned_less)+
  then show "unat w < 256" "unat v < 65536" by simp_all
qed

text \<open>A C \<^verbatim>\<open>BIT(n)\<close> test on a flag word.\<close>

definition has_flag :: "u64 \<Rightarrow> u64 \<Rightarrow> bool" where
  "has_flag w m \<longleftrightarrow> w AND m \<noteq> 0"

section \<open>Outcomes of kernel functions\<close>

text \<open>
  A driver function either finishes with a value and a state, is still asleep in a wait
  queue when the modelled history ends, or dereferences memory that is not allocated
  (a freed object, an error pointer, NULL). The last one is an explicit outcome so that
  memory safety is a theorem and not a modelling assumption.
\<close>

datatype ('a, 's) outcome = Done 'a 's | Blocked 's | Fault

fun obind :: "('a, 's) outcome \<Rightarrow> ('a \<Rightarrow> 's \<Rightarrow> ('b, 's) outcome) \<Rightarrow> ('b, 's) outcome" where
  "obind (Done a s) f = f a s"
| "obind (Blocked s) f = Blocked s"
| "obind Fault f = Fault"

lemma obind_Done_iff:
  "obind m f = Done b t \<longleftrightarrow> (\<exists>a s. m = Done a s \<and> f a s = Done b t)"
  by (cases m) auto

lemma obind_Fault_iff:
  "obind m f = Fault \<longleftrightarrow> m = Fault \<or> (\<exists>a s. m = Done a s \<and> f a s = Fault)"
  by (cases m) auto

lemma obind_Blocked_iff:
  "obind m f = Blocked t \<longleftrightarrow> m = Blocked t \<or> (\<exists>a s. m = Done a s \<and> f a s = Blocked t)"
  by (cases m) auto

lemmas obind_iffs = obind_Done_iff obind_Fault_iff obind_Blocked_iff

text \<open>The state another context leaves behind, and total-correctness judgements on outcomes:
  \<open>Q\<close> of the result and the state on return, \<open>P\<close> of the state while asleep, never a fault.\<close>

definition outcome_state :: "'s \<Rightarrow> ('a, 's) outcome \<Rightarrow> 's" where
  "outcome_state s m = (case m of Done _ t \<Rightarrow> t | Blocked t \<Rightarrow> t | Fault \<Rightarrow> s)"

fun outcome_spec :: "('a \<Rightarrow> 's \<Rightarrow> bool) \<Rightarrow> ('s \<Rightarrow> bool) \<Rightarrow> ('a, 's) outcome \<Rightarrow> bool" where
  "outcome_spec Q P (Done a s) = Q a s"
| "outcome_spec Q P (Blocked s) = P s"
| "outcome_spec Q P Fault = False"

lemma outcome_spec_obind:
  assumes "outcome_spec Q P m" and "\<And>a s. Q a s \<Longrightarrow> outcome_spec R P (f a s)"
  shows "outcome_spec R P (obind m f)"
  using assms by (cases m) auto

text \<open>The partial version: \<open>P\<close> of every state the function leaves behind.\<close>

fun outcome_inv :: "('s \<Rightarrow> bool) \<Rightarrow> ('a, 's) outcome \<Rightarrow> bool" where
  "outcome_inv P (Done a s) = P s"
| "outcome_inv P (Blocked s) = P s"
| "outcome_inv P Fault = True"

lemma outcome_inv_obind:
  assumes "outcome_inv P m" and "\<And>a s. P s \<Longrightarrow> outcome_inv P (f a s)"
  shows "outcome_inv P (obind m f)"
  using assms by (cases m) auto

section \<open>Sleeping on a wait queue\<close>

text \<open>
  \<^verbatim>\<open>wait_event_interruptible(wq, cond)\<close> tests the condition, and only when it is false
  looks for a pending signal or sleeps. What happens to the sleeping task is a list of
  events: a signal, or a step of another context (an interrupt handler, another task, the
  hypervisor) that changes the state. The result carries the events not yet consumed.
\<close>

datatype 'e task_event = Signal | Env 'e

datatype ('s, 'e) wait_result =
    Woken 's "'e task_event list"
  | Interrupted 's "'e task_event list"
  | Asleep 's

fun wait_event_interruptible ::
  "('e \<Rightarrow> 's \<Rightarrow> 's) \<Rightarrow> ('s \<Rightarrow> bool) \<Rightarrow> 's \<Rightarrow> 'e task_event list \<Rightarrow> ('s, 'e) wait_result" where
  "wait_event_interruptible step cond s [] = (if cond s then Woken s [] else Asleep s)"
| "wait_event_interruptible step cond s (e # es) =
     (if cond s then Woken s (e # es)
      else case e of
             Signal \<Rightarrow> Interrupted s es
           | Env x \<Rightarrow> wait_event_interruptible step cond (step x s) es)"

text \<open>\<^verbatim>\<open>wait_event\<close> cannot be interrupted; the steps of other contexts are state changes.\<close>

fun wait_event :: "('s \<Rightarrow> bool) \<Rightarrow> ('s \<Rightarrow> 's) list \<Rightarrow> 's \<Rightarrow> (unit, 's) outcome" where
  "wait_event cond [] s = (if cond s then Done () s else Blocked s)"
| "wait_event cond (f # fs) s = (if cond s then Done () s else wait_event cond fs (f s))"

lemma wait_now [simp]:
  "cond s \<Longrightarrow> wait_event_interruptible step cond s es = Woken s es"
  by (cases es) auto

lemma wait_Woken_cond:
  "wait_event_interruptible step cond s es = Woken t es' \<Longrightarrow> cond t"
  by (induction step cond s es rule: wait_event_interruptible.induct)
     (auto split: if_splits task_event.splits)

lemma wait_Asleep_cond:
  "wait_event_interruptible step cond s es = Asleep t \<Longrightarrow> \<not> cond t"
  by (induction step cond s es rule: wait_event_interruptible.induct)
     (auto split: if_splits task_event.splits)

lemma wait_Woken_length:
  "wait_event_interruptible step cond s es = Woken t es' \<Longrightarrow>
   length es' \<le> length es \<and> (\<not> cond s \<longrightarrow> length es' < length es)"
  by (induction step cond s es rule: wait_event_interruptible.induct)
     (fastforce split: if_splits task_event.splits)+

text \<open>A property kept by every environment step is kept by waiting.\<close>

lemma wait_keeps:
  assumes "\<And>x s. Env x \<in> set es \<Longrightarrow> P s \<Longrightarrow> P (step x s)" and "P s"
  shows "case wait_event_interruptible step cond s es of
           Woken t es' \<Rightarrow> P t \<and> set es' \<subseteq> set es
         | Interrupted t es' \<Rightarrow> P t \<and> set es' \<subseteq> set es
         | Asleep t \<Rightarrow> P t"
  using assms
proof (induction step cond s es rule: wait_event_interruptible.induct)
  case (1 step cond s)
  then show ?case by simp
next
  case (2 step cond s e es)
  show ?case
  proof (cases "cond s \<or> e = Signal")
    case True
    with 2 show ?thesis by (cases e) auto
  next
    case False
    then obtain x where [simp]: "e = Env x" by (cases e) auto
    have "P (step x s)" using 2 by simp
    then have "case wait_event_interruptible step cond (step x s) es of
           Woken t es' \<Rightarrow> P t \<and> set es' \<subseteq> set es
         | Interrupted t es' \<Rightarrow> P t \<and> set es' \<subseteq> set es
         | Asleep t \<Rightarrow> P t"
      using 2 False by simp
    with False show ?thesis
      by (simp split: wait_result.splits) blast+
  qed
qed

section \<open>Memory: bounded copies\<close>

text \<open>\<^verbatim>\<open>memcpy(buf + off, data, len)\<close> into an allocation of \<open>length buf\<close> bytes.\<close>

definition mem_write :: "u8 list \<Rightarrow> nat \<Rightarrow> u8 list \<Rightarrow> u8 list option" where
  "mem_write buf off d =
     (if off + length d \<le> length buf
      then Some (take off buf @ d @ drop (off + length d) buf) else None)"

lemma mem_write_length: "mem_write buf off d = Some b \<Longrightarrow> length b = length buf"
  by (auto simp: mem_write_def split: if_splits)

lemma mem_write_prefix:
  "mem_write buf off d = Some b \<Longrightarrow> take (off + length d) b = take off buf @ d"
  by (auto simp: mem_write_def split: if_splits)

lemma mem_write_fits: "off + length d \<le> length buf \<Longrightarrow> \<exists>b. mem_write buf off d = Some b"
  by (simp add: mem_write_def)

section \<open>Searching an index range\<close>

lemma find_index_unique:
  assumes "n < m" "P n" "\<And>i. i < m \<Longrightarrow> P i \<Longrightarrow> i = n" "k \<le> n"
  shows "List.find P [k..<m] = Some n"
proof -
  have "\<not> P x" if "x < n" for x
    using assms(1) assms(3) [of x] that by auto
  then show ?thesis
    unfolding find_Some_iff using assms(1,2,4) by (intro exI [of _ "n - k"]) simp
qed

lemma find_upt_Some: "List.find P [0..<n] = Some i \<Longrightarrow> i < n \<and> P i"
  by (auto simp: find_Some_iff)

section \<open>Little-endian views\<close>

definition le16 :: "u16 \<Rightarrow> u8 list" where
  "le16 w = [ucast w, ucast (drop_bit 8 w)]"

definition le32 :: "u32 \<Rightarrow> u8 list" where
  "le32 w = [ucast w, ucast (drop_bit 8 w), ucast (drop_bit 16 w), ucast (drop_bit 24 w)]"

fun of_le16 :: "u8 list \<Rightarrow> u16" where
  "of_le16 (a # b # _) = ucast a OR push_bit 8 (ucast b)"
| "of_le16 _ = 0"

fun of_le32 :: "u8 list \<Rightarrow> u32" where
  "of_le32 (a # b # c # d # _) =
     ucast a OR push_bit 8 (ucast b) OR push_bit 16 (ucast c) OR push_bit 24 (ucast d)"
| "of_le32 _ = 0"

lemma length_le16 [simp]: "length (le16 w) = 2"
  by (simp add: le16_def)

lemma length_le32 [simp]: "length (le32 w) = 4"
  by (simp add: le32_def)

lemma of_le16_le16 [simp]: "of_le16 (le16 w @ r) = w"
  unfolding le16_def by simp (rule bit_word_eqI, auto simp: bit_simps)

lemma of_le32_le32 [simp]: "of_le32 (le32 w @ r) = w"
proof -
  have "bit (of_le32 (le32 w @ r)) n = bit w n" if "n < 32" for n
  proof -
    have "n < 8 \<or> 8 \<le> n \<and> n < 16 \<or> 16 \<le> n \<and> n < 24 \<or> 24 \<le> n" by arith
    with that show ?thesis
      by (elim disjE) (auto simp: le32_def bit_simps)
  qed
  then show ?thesis by (auto intro: bit_word_eqI)
qed

lemma le16_of_le16:
  assumes "length bs = 2"
  shows "le16 (of_le16 bs) = bs"
proof -
  obtain a b where bs: "bs = [a, b]"
    using assms by (auto simp: length_Suc_conv numeral_2_eq_2)
  have "ucast (of_le16 bs) = a" "ucast (drop_bit 8 (of_le16 bs)) = b"
    unfolding bs
    by (simp_all, (rule bit_word_eqI, auto simp: bit_simps dest: bit_imp_le_length)+)
  with bs show ?thesis by (simp add: le16_def)
qed

section \<open>Contract: exclusive registration of a client for a label\<close>

text \<open>
  The message queue driver and both directions of the doorbell driver hand a descriptor to
  at most one client per label. The contract is stated over the partial map from labels to
  the descriptor that owns them.
\<close>

locale exclusive_registration =
  fixes wf :: "'s \<Rightarrow> bool"
    and valid :: "int \<Rightarrow> bool"
    and owner :: "'s \<Rightarrow> int \<Rightarrow> ptr option"
    and reg :: "int \<Rightarrow> 's \<Rightarrow> (int + ptr, 's) outcome"
    and unreg :: "ptr option \<Rightarrow> 's \<Rightarrow> (int, 's) outcome"
  assumes reg_total: "wf s \<Longrightarrow> \<exists>r t. reg l s = Done r t \<and> wf t"
    and reg_ok: "wf s \<Longrightarrow> reg l s = Done (Inr d) t \<Longrightarrow>
        valid l \<and> owner s l = None \<and> owner t = (owner s)(l \<mapsto> d)"
    and reg_err: "wf s \<Longrightarrow> reg l s = Done (Inl e) t \<Longrightarrow> e < 0 \<and> owner t = owner s"
    and reg_busy: "wf s \<Longrightarrow> owner s l \<noteq> None \<Longrightarrow> reg l s = Done (Inl (- EBUSY)) s"
    and unreg_owner: "wf s \<Longrightarrow> owner s l = Some d \<Longrightarrow>
        \<exists>t. unreg (Some d) s = Done 0 t \<and> wf t \<and> owner t = (owner s)(l := None)"
begin

lemma reg_keeps_owner:
  assumes "wf s" and "owner s l = Some d" and "reg l' s = Done r t"
  shows "owner t l = Some d"
proof (cases r)
  case (Inl e)
  with assms show ?thesis using reg_err by fastforce
next
  case (Inr d')
  with assms reg_ok [of s l' d' t] have "l' \<noteq> l" "owner t = (owner s)(l' \<mapsto> d')" by auto
  with assms(2) show ?thesis by simp
qed

lemma reg_twice_busy:
  assumes "wf s" and "reg l s = Done (Inr d) t"
  shows "reg l t = Done (Inl (- EBUSY)) t"
proof -
  have "wf t" using reg_total [OF assms(1), of l] assms(2) by auto
  moreover have "owner t l \<noteq> None" using reg_ok [OF assms] by simp
  ultimately show ?thesis by (rule reg_busy)
qed

lemma reg_unreg_roundtrip:
  assumes "wf s" and "reg l s = Done (Inr d) t"
  shows "\<exists>u. unreg (Some d) t = Done 0 u \<and> wf u \<and> owner u = owner s"
proof -
  have t: "wf t" using reg_total [OF assms(1), of l] assms(2) by auto
  have o: "owner s l = None" "owner t = (owner s)(l \<mapsto> d)" using reg_ok [OF assms] by auto
  then obtain u where "unreg (Some d) t = Done 0 u" "wf u" "owner u = (owner t)(l := None)"
    using unreg_owner [OF t, of l d] by auto
  moreover have "(owner t)(l := None) = owner s" using o by (auto simp: fun_eq_iff)
  ultimately show ?thesis by auto
qed

end

end
