(* ===== verification/Gh_Errno.thy ===== *)
theory Gh_Errno
  imports Gunyah_Prelude
begin

text \<open>
  The error codes of Gunyah hypercalls and of the Resource Manager
  (\<^verbatim>\<open>include/linux/gunyah/gh_errno.h\<close>) and their translation to Linux error numbers.
\<close>

abbreviation (input) GH_ERROR_OK :: int where "GH_ERROR_OK \<equiv> 0"
abbreviation (input) GH_ERROR_UNIMPLEMENTED :: int where "GH_ERROR_UNIMPLEMENTED \<equiv> -1"
abbreviation (input) GH_ERROR_RETRY :: int where "GH_ERROR_RETRY \<equiv> -2"
abbreviation (input) GH_ERROR_ARG_INVAL :: int where "GH_ERROR_ARG_INVAL \<equiv> 1"
abbreviation (input) GH_ERROR_ARG_SIZE :: int where "GH_ERROR_ARG_SIZE \<equiv> 2"
abbreviation (input) GH_ERROR_ARG_ALIGN :: int where "GH_ERROR_ARG_ALIGN \<equiv> 3"
abbreviation (input) GH_ERROR_NOMEM :: int where "GH_ERROR_NOMEM \<equiv> 10"
abbreviation (input) GH_ERROR_ADDR_OVFL :: int where "GH_ERROR_ADDR_OVFL \<equiv> 20"
abbreviation (input) GH_ERROR_ADDR_UNFL :: int where "GH_ERROR_ADDR_UNFL \<equiv> 21"
abbreviation (input) GH_ERROR_ADDR_INVAL :: int where "GH_ERROR_ADDR_INVAL \<equiv> 22"
abbreviation (input) GH_ERROR_DENIED :: int where "GH_ERROR_DENIED \<equiv> 30"
abbreviation (input) GH_ERROR_BUSY :: int where "GH_ERROR_BUSY \<equiv> 31"
abbreviation (input) GH_ERROR_IDLE :: int where "GH_ERROR_IDLE \<equiv> 32"
abbreviation (input) GH_ERROR_IRQ_BOUND :: int where "GH_ERROR_IRQ_BOUND \<equiv> 40"
abbreviation (input) GH_ERROR_IRQ_UNBOUND :: int where "GH_ERROR_IRQ_UNBOUND \<equiv> 41"
abbreviation (input) GH_ERROR_CSPACE_CAP_NULL :: int where "GH_ERROR_CSPACE_CAP_NULL \<equiv> 50"
abbreviation (input) GH_ERROR_CSPACE_CAP_REVOKED :: int where "GH_ERROR_CSPACE_CAP_REVOKED \<equiv> 51"
abbreviation (input) GH_ERROR_CSPACE_WRONG_OBJ_TYPE :: int where "GH_ERROR_CSPACE_WRONG_OBJ_TYPE \<equiv> 52"
abbreviation (input) GH_ERROR_CSPACE_INSUF_RIGHTS :: int where "GH_ERROR_CSPACE_INSUF_RIGHTS \<equiv> 53"
abbreviation (input) GH_ERROR_CSPACE_FULL :: int where "GH_ERROR_CSPACE_FULL \<equiv> 54"
abbreviation (input) GH_ERROR_MSGQUEUE_EMPTY :: int where "GH_ERROR_MSGQUEUE_EMPTY \<equiv> 60"
abbreviation (input) GH_ERROR_MSGQUEUE_FULL :: int where "GH_ERROR_MSGQUEUE_FULL \<equiv> 61"

definition gh_remap_error :: "int \<Rightarrow> int" where
  "gh_remap_error gh_error =
     (if gh_error = GH_ERROR_OK then 0
      else if gh_error = GH_ERROR_NOMEM then - ENOMEM
      else if gh_error \<in> {GH_ERROR_DENIED, GH_ERROR_CSPACE_CAP_NULL, GH_ERROR_CSPACE_CAP_REVOKED,
                GH_ERROR_CSPACE_WRONG_OBJ_TYPE, GH_ERROR_CSPACE_INSUF_RIGHTS, GH_ERROR_CSPACE_FULL}
        then - EACCES
      else if gh_error \<in> {GH_ERROR_BUSY, GH_ERROR_IDLE} then - EBUSY
      else if gh_error \<in> {GH_ERROR_IRQ_BOUND, GH_ERROR_IRQ_UNBOUND,
                GH_ERROR_MSGQUEUE_FULL, GH_ERROR_MSGQUEUE_EMPTY} then - EPERM
      else - EINVAL)"

lemma gh_remap_error_0_iff [simp]: "gh_remap_error e = 0 \<longleftrightarrow> e = GH_ERROR_OK"
  by (simp add: gh_remap_error_def)

lemma gh_remap_error_range:
  "gh_remap_error e \<in> {0, - ENOMEM, - EACCES, - EBUSY, - EPERM, - EINVAL}"
  by (simp add: gh_remap_error_def)

lemma gh_remap_error_neg: "e \<noteq> GH_ERROR_OK \<Longrightarrow> gh_remap_error e < 0"
  by (simp add: gh_remap_error_def)

lemma gh_remap_error_not [simp]:
  "gh_remap_error e \<noteq> - EAGAIN" "gh_remap_error e \<noteq> - ERESTARTSYS" "gh_remap_error e \<noteq> - E2BIG"
  by (simp_all add: gh_remap_error_def)

lemma gh_remap_error_EPERM_iff:
  "gh_remap_error e = - EPERM \<longleftrightarrow>
   e \<in> {GH_ERROR_IRQ_BOUND, GH_ERROR_IRQ_UNBOUND, GH_ERROR_MSGQUEUE_FULL, GH_ERROR_MSGQUEUE_EMPTY}"
  by (auto simp: gh_remap_error_def)

end
