(* ===== verification/Msgq.thy ===== *)
theory Msgq
  imports Gh_Errno
begin

text \<open>
  The message queue driver (\<^verbatim>\<open>drivers/virt/gunyah/gh_msgq.c\<close>). Capability table entries
  and client descriptors live in explicit heaps, so a freed object is an absent one and
  dereferencing it is the outcome \<^term>\<open>Fault\<close>. Results of calls that leave the driver
  are parameters: \<open>kz i\<close> tells whether the \<open>i\<close>-th allocation of a call succeeds,
  \<open>rq irq\<close> is what \<^verbatim>\<open>request_irq\<close> returns, and the two message queue hypercalls are
  the fields of a record over an abstract hypervisor state.
\<close>

section \<open>State\<close>

abbreviation (input) GH_MSGQ_MAX_MSG_SIZE_BYTES :: nat where "GH_MSGQ_MAX_MSG_SIZE_BYTES \<equiv> 240"
abbreviation (input) GH_MSGQ_DIRECTION_TX :: int where "GH_MSGQ_DIRECTION_TX \<equiv> 0"
abbreviation (input) GH_MSGQ_DIRECTION_RX :: int where "GH_MSGQ_DIRECTION_RX \<equiv> 1"
abbreviation (input) GH_MSGQ_TX_PUSH :: u64 where "GH_MSGQ_TX_PUSH \<equiv> 1"
abbreviation (input) GH_MSGQ_NONBLOCK :: u64 where "GH_MSGQ_NONBLOCK \<equiv> 0x100000000"
abbreviation (input) GH_MSGQ_HVC_FLAGS_MASK :: u64 where "GH_MSGQ_HVC_FLAGS_MASK \<equiv> 0xFFFFFFFF"

record gh_msgq_desc =
  mqd_label :: int
  mqd_cap_table :: "ptr option"

record gh_msgq_cap_table =
  mq_client_desc :: "ptr option"
  mq_tx_cap_id :: gh_capid_t
  mq_rx_cap_id :: gh_capid_t
  mq_tx_irq :: int
  mq_rx_irq :: int
  mq_tx_full :: bool
  mq_rx_empty :: bool
  mq_label :: int

record 'h msgq_state =
  mq_caps :: "ptr \<Rightarrow> gh_msgq_cap_table option"
  mq_descs :: "ptr \<Rightarrow> gh_msgq_desc option"
  mq_cap_list :: "ptr list"
  mq_next :: ptr
  mq_irqs :: "(int \<times> ptr) list"
  mq_hyp :: 'h

record 'h msgq_hcall =
  hc_msgq_send :: "gh_capid_t \<Rightarrow> u8 list \<Rightarrow> u64 \<Rightarrow> 'h \<Rightarrow> (int \<times> bool) \<times> 'h"
  hc_msgq_recv :: "gh_capid_t \<Rightarrow> nat \<Rightarrow> 'h \<Rightarrow> (int \<times> u8 list \<times> bool) \<times> 'h"

definition msgq_init :: "'h \<Rightarrow> 'h msgq_state" where
  "msgq_init h = \<lparr>mq_caps = Map.empty, mq_descs = Map.empty, mq_cap_list = [],
     mq_next = 1, mq_irqs = [], mq_hyp = h\<rparr>"

section \<open>Capability table entries\<close>

definition gh_msgq_alloc_entry ::
  "(nat \<Rightarrow> bool) \<Rightarrow> int \<Rightarrow> 'h msgq_state \<Rightarrow> (int + ptr) \<times> 'h msgq_state" where
  "gh_msgq_alloc_entry kz label s =
     (if \<not> kz 0 then (Inl (- ENOMEM), s)
      else if \<not> kz 1 then (Inl (- ENOMEM), s)
      else if \<not> kz 2 then (Inl (- ENOMEM), s)
      else let p = mq_next s;
               e = \<lparr>mq_client_desc = None, mq_tx_cap_id = GH_CAPID_INVAL,
                    mq_rx_cap_id = GH_CAPID_INVAL, mq_tx_irq = 0, mq_rx_irq = 0,
                    mq_tx_full = False, mq_rx_empty = True, mq_label = label\<rparr>
           in (Inr p, s\<lparr>mq_caps := (mq_caps s)(p \<mapsto> e),
                        mq_cap_list := p # mq_cap_list s, mq_next := p + 1\<rparr>))"

text \<open>\<^verbatim>\<open>list_for_each_entry\<close> over the capability list; \<open>None\<close> is a walk over freed memory.\<close>

fun msgq_find :: "(ptr \<Rightarrow> gh_msgq_cap_table option) \<Rightarrow> int \<Rightarrow> ptr list \<Rightarrow> ptr option option" where
  "msgq_find caps label [] = Some None"
| "msgq_find caps label (p # ps) =
     (case caps p of
        None \<Rightarrow> None
      | Some e \<Rightarrow> if label = mq_label e then Some (Some p) else msgq_find caps label ps)"

definition msgq_get_entry ::
  "(nat \<Rightarrow> bool) \<Rightarrow> int \<Rightarrow> 'h msgq_state \<Rightarrow> (int + ptr, 'h msgq_state) outcome" where
  "msgq_get_entry kz label s =
     (case msgq_find (mq_caps s) label (mq_cap_list s) of
        None \<Rightarrow> Fault
      | Some (Some p) \<Rightarrow> Done (Inr p) s
      | Some None \<Rightarrow> (case gh_msgq_alloc_entry kz label s of (r, t) \<Rightarrow> Done r t))"

section \<open>Interrupt handlers\<close>

definition gh_msgq_rx_isr :: "ptr \<Rightarrow> 'h msgq_state \<Rightarrow> (unit, 'h msgq_state) outcome" where
  "gh_msgq_rx_isr dev s =
     (case mq_caps s dev of
        None \<Rightarrow> Fault
      | Some e \<Rightarrow> Done () (s\<lparr>mq_caps := (mq_caps s)(dev \<mapsto> e\<lparr>mq_rx_empty := False\<rparr>)\<rparr>))"

definition gh_msgq_tx_isr :: "ptr \<Rightarrow> 'h msgq_state \<Rightarrow> (unit, 'h msgq_state) outcome" where
  "gh_msgq_tx_isr dev s =
     (case mq_caps s dev of
        None \<Rightarrow> Fault
      | Some e \<Rightarrow> Done () (s\<lparr>mq_caps := (mq_caps s)(dev \<mapsto> e\<lparr>mq_tx_full := False\<rparr>)\<rparr>))"

section \<open>Registration\<close>

definition gh_msgq_register ::
  "(nat \<Rightarrow> bool) \<Rightarrow> int \<Rightarrow> 'h msgq_state \<Rightarrow> (int + ptr, 'h msgq_state) outcome" where
  "gh_msgq_register kz label s =
     (if label < 0 then Done (Inl (- EINVAL)) s
      else obind (msgq_get_entry kz label s) (\<lambda>r s.
        case r of
          Inl err \<Rightarrow> Done (Inl err) s
        | Inr p \<Rightarrow>
            (case mq_caps s p of
               None \<Rightarrow> Fault
             | Some e \<Rightarrow>
                 if mq_client_desc e \<noteq> None then Done (Inl (- EBUSY)) s
                 else if \<not> kz 3 then Done (Inl (- ENOMEM)) s
                 else let d = mq_next s in
                   Done (Inr d)
                     (s\<lparr>mq_descs := (mq_descs s)(d \<mapsto> \<lparr>mqd_label = label, mqd_cap_table = Some p\<rparr>),
                        mq_caps := (mq_caps s)(p \<mapsto> e\<lparr>mq_client_desc := Some d\<rparr>),
                        mq_next := d + 1\<rparr>))))"

definition gh_msgq_unregister ::
  "ptr option \<Rightarrow> 'h msgq_state \<Rightarrow> (int, 'h msgq_state) outcome" where
  "gh_msgq_unregister client_desc s =
     (case client_desc of
        None \<Rightarrow> Done (- EINVAL) s
      | Some d \<Rightarrow>
          (case mq_descs s d of
             None \<Rightarrow> Fault
           | Some dd \<Rightarrow>
               (case mqd_cap_table dd of
                  None \<Rightarrow> Fault
                | Some p \<Rightarrow>
                    (case mq_caps s p of
                       None \<Rightarrow> Fault
                     | Some e \<Rightarrow>
                         if mq_client_desc e \<noteq> Some d then Done (- EINVAL) s
                         else Done 0
                           (s\<lparr>mq_caps := (mq_caps s)(p \<mapsto> e\<lparr>mq_client_desc := None\<rparr>),
                              mq_descs := (mq_descs s)(d := None)\<rparr>)))))"

section \<open>Capability information from the Resource Manager\<close>

definition msgq_free_entry :: "ptr \<Rightarrow> 'h msgq_state \<Rightarrow> 'h msgq_state" where
  "msgq_free_entry p s =
     s\<lparr>mq_cap_list := remove1 p (mq_cap_list s), mq_caps := (mq_caps s)(p := None)\<rparr>"

definition gh_msgq_populate_cap_info ::
  "(nat \<Rightarrow> bool) \<Rightarrow> (int \<Rightarrow> int) \<Rightarrow> int \<Rightarrow> gh_capid_t \<Rightarrow> int \<Rightarrow> int \<Rightarrow>
   'h msgq_state \<Rightarrow> (int, 'h msgq_state) outcome" where
  "gh_msgq_populate_cap_info kz rq label cap_id direction irq s =
     (if label < 0 then Done (- EINVAL) s
      else if irq < 0 then Done (- ENXIO) s
      else obind (msgq_get_entry kz label s) (\<lambda>r s.
        case r of
          Inl err \<Rightarrow> Done err s
        | Inr p \<Rightarrow>
            (case mq_caps s p of
               None \<Rightarrow> Fault
             | Some e \<Rightarrow>
                 if direction = GH_MSGQ_DIRECTION_TX then
                   (if rq irq < 0 then Done (rq irq) (msgq_free_entry p s)
                    else Done 0 (s\<lparr>mq_caps := (mq_caps s)(p \<mapsto> e\<lparr>mq_tx_cap_id := cap_id, mq_tx_irq := irq\<rparr>),
                                   mq_irqs := (irq, p) # mq_irqs s\<rparr>))
                 else if direction = GH_MSGQ_DIRECTION_RX then
                   (if rq irq < 0 then Done (rq irq) (msgq_free_entry p s)
                    else Done 0 (s\<lparr>mq_caps := (mq_caps s)(p \<mapsto> e\<lparr>mq_rx_cap_id := cap_id, mq_rx_irq := irq\<rparr>),
                                   mq_irqs := (irq, p) # mq_irqs s\<rparr>))
                 else Done (- EINVAL) (msgq_free_entry p s))))"

text \<open>On success the second component of the result is the value stored through \<^verbatim>\<open>int *irq\<close>.\<close>

definition gh_msgq_reset_cap_info ::
  "int \<Rightarrow> int \<Rightarrow> bool \<Rightarrow> 'h msgq_state \<Rightarrow> (int \<times> int option, 'h msgq_state) outcome" where
  "gh_msgq_reset_cap_info label direction irq_ok s =
     (if label < 0 then Done (- EINVAL, None) s
      else if \<not> irq_ok then Done (- EINVAL, None) s
      else case msgq_find (mq_caps s) label (mq_cap_list s) of
        None \<Rightarrow> Fault
      | Some None \<Rightarrow> Done (- EINVAL, None) s
      | Some (Some p) \<Rightarrow>
          (case mq_caps s p of
             None \<Rightarrow> Fault
           | Some e \<Rightarrow>
               if direction = GH_MSGQ_DIRECTION_TX then
                 (if mq_tx_irq e = 0 then Done (- ENXIO, None) s
                  else Done (0, Some (mq_tx_irq e))
                    (s\<lparr>mq_caps := (mq_caps s)(p \<mapsto> e\<lparr>mq_tx_cap_id := GH_CAPID_INVAL, mq_tx_irq := 0\<rparr>),
                       mq_irqs := removeAll (mq_tx_irq e, p) (mq_irqs s)\<rparr>))
               else if direction = GH_MSGQ_DIRECTION_RX then
                 (if mq_rx_irq e = 0 then Done (- ENXIO, None) s
                  else Done (0, Some (mq_rx_irq e))
                    (s\<lparr>mq_caps := (mq_caps s)(p \<mapsto> e\<lparr>mq_rx_cap_id := GH_CAPID_INVAL, mq_rx_irq := 0\<rparr>),
                       mq_irqs := removeAll (mq_rx_irq e, p) (mq_irqs s)\<rparr>))
               else Done (- EINVAL, None) s))"

text \<open>
  Device-tree probing: \<open>gi idx\<close> is \<^verbatim>\<open>platform_get_irq\<close>, \<open>rd idx\<close> the result and the value
  of \<^verbatim>\<open>of_property_read_u64_index\<close>, and the Booleans are the node's properties.
\<close>

definition gh_msgq_probe_direction ::
  "(nat \<Rightarrow> bool) \<Rightarrow> (int \<Rightarrow> int) \<Rightarrow> (nat \<Rightarrow> int) \<Rightarrow> (nat \<Rightarrow> int \<times> u64) \<Rightarrow> int \<Rightarrow> int \<Rightarrow> nat \<Rightarrow>
   'h msgq_state \<Rightarrow> (int, 'h msgq_state) outcome" where
  "gh_msgq_probe_direction kz rq gi rd label direction idx s =
     (if gi idx < 0 then Done (gi idx) s
      else case rd idx of (ret, capid) \<Rightarrow>
        if ret \<noteq> 0 then Done ret s
        else gh_msgq_populate_cap_info kz rq label capid direction (gi idx) s)"

definition gh_msgq_probe ::
  "(nat \<Rightarrow> bool) \<Rightarrow> (int \<Rightarrow> int) \<Rightarrow> (nat \<Rightarrow> int) \<Rightarrow> (nat \<Rightarrow> int \<times> u64) \<Rightarrow>
   bool \<Rightarrow> bool \<Rightarrow> bool \<Rightarrow> int \<Rightarrow> 'h msgq_state \<Rightarrow> (int, 'h msgq_state) outcome" where
  "gh_msgq_probe kz rq gi rd duplex is_sender is_receiver label s =
     obind (if duplex \<or> is_sender
            then obind (gh_msgq_probe_direction kz rq gi rd label GH_MSGQ_DIRECTION_TX 0 s)
                   (\<lambda>ret s. Done (ret, 1) s)
            else Done (0, 0) s)
       (\<lambda>(ret, idx) s.
          if ret \<noteq> 0 then Done ret s
          else if duplex \<or> is_receiver
            then gh_msgq_probe_direction kz rq gi rd label GH_MSGQ_DIRECTION_RX idx s
            else Done 0 s)"

definition gh_msgq_cleanup :: "'h msgq_state \<Rightarrow> 'h msgq_state" where
  "gh_msgq_cleanup s = s\<lparr>mq_caps := (\<lambda>p. if p \<in> set (mq_cap_list s) then None else mq_caps s p)\<rparr>"

section \<open>What can happen while a client sleeps\<close>

datatype 'h msgq_event =
    Ev_rx_isr ptr
  | Ev_tx_isr ptr
  | Ev_populate "int \<Rightarrow> int" int gh_capid_t int int
  | Ev_hyp "'h \<Rightarrow> 'h"

fun msgq_env :: "'h msgq_event \<Rightarrow> 'h msgq_state \<Rightarrow> 'h msgq_state" where
  "msgq_env (Ev_rx_isr p) s = outcome_state s (gh_msgq_rx_isr p s)"
| "msgq_env (Ev_tx_isr p) s = outcome_state s (gh_msgq_tx_isr p s)"
| "msgq_env (Ev_populate rq label cap dir irq) s =
     outcome_state s (gh_msgq_populate_cap_info (\<lambda>_. True) rq label cap dir irq s)"
| "msgq_env (Ev_hyp f) s = s\<lparr>mq_hyp := f (mq_hyp s)\<rparr>"

section \<open>Receiving\<close>

definition gh_msgq_recv_locked ::
  "'h msgq_hcall \<Rightarrow> ptr \<Rightarrow> nat \<Rightarrow> 'h msgq_state \<Rightarrow> (int \<times> u8 list option, 'h msgq_state) outcome" where
  "gh_msgq_recv_locked hv p buff_size s =
     (case mq_caps s p of
        None \<Rightarrow> Fault
      | Some e \<Rightarrow>
          (case hc_msgq_recv hv (mq_rx_cap_id e) buff_size (mq_hyp s) of
             ((gh_ret, bytes, not_empty), h) \<Rightarrow>
               if gh_ret = GH_ERROR_OK then
                 Done (0, Some bytes)
                   (s\<lparr>mq_caps := (mq_caps s)(p \<mapsto> e\<lparr>mq_rx_empty := \<not> not_empty\<rparr>), mq_hyp := h\<rparr>)
               else if gh_ret = GH_ERROR_MSGQUEUE_EMPTY then
                 Done (- EAGAIN, None)
                   (s\<lparr>mq_caps := (mq_caps s)(p \<mapsto> e\<lparr>mq_rx_empty := True\<rparr>), mq_hyp := h\<rparr>)
               else Done (gh_remap_error gh_ret, None) (s\<lparr>mq_hyp := h\<rparr>)))"

definition rx_cap_known :: "ptr \<Rightarrow> 'h msgq_state \<Rightarrow> bool" where
  "rx_cap_known p s = (case mq_caps s p of None \<Rightarrow> True | Some e \<Rightarrow> mq_rx_cap_id e \<noteq> GH_CAPID_INVAL)"

definition rx_ready :: "ptr \<Rightarrow> 'h msgq_state \<Rightarrow> bool" where
  "rx_ready p s = (case mq_caps s p of None \<Rightarrow> True | Some e \<Rightarrow> \<not> mq_rx_empty e)"

lemma gh_msgq_recv_locked_EAGAIN:
  "gh_msgq_recv_locked hv p n s = Done (- EAGAIN, d) t \<Longrightarrow> \<not> rx_ready p t"
  by (auto simp: gh_msgq_recv_locked_def rx_ready_def split: option.splits prod.splits if_splits)

function gh_msgq_recv_loop ::
  "'h msgq_hcall \<Rightarrow> ptr \<Rightarrow> nat \<Rightarrow> u64 \<Rightarrow> 'h msgq_state \<Rightarrow> 'h msgq_event task_event list \<Rightarrow>
   (int \<times> u8 list option, 'h msgq_state) outcome" where
  "gh_msgq_recv_loop hv p buff_size flags s es =
     (case mq_caps s p of
        None \<Rightarrow> Fault
      | Some e \<Rightarrow>
          if mq_rx_empty e \<and> has_flag flags GH_MSGQ_NONBLOCK then Done (- EAGAIN, None) s
          else
            (case wait_event_interruptible msgq_env (rx_ready p) s es of
               Asleep t \<Rightarrow> Blocked t
             | Interrupted t es' \<Rightarrow> Done (- ERESTARTSYS, None) t
             | Woken t es' \<Rightarrow>
                 (case gh_msgq_recv_locked hv p buff_size t of
                    Fault \<Rightarrow> Fault
                  | Blocked u \<Rightarrow> Blocked u
                  | Done r u \<Rightarrow>
                      if fst r = - EAGAIN then gh_msgq_recv_loop hv p buff_size flags u es'
                      else Done r u)))"
  by pat_completeness auto
termination
proof (relation "measure (\<lambda>(hv, p, n, flags, s, es). 2 * length es + (if rx_ready p s then 1 else 0))", goal_cases)
  case 1
  show ?case by simp
next
  case (2 hv p n flags s es e t es' r u)
  from 2(4,5) have "\<not> rx_ready p u"
    by (cases r) (auto dest: gh_msgq_recv_locked_EAGAIN)
  moreover from 2(3) have "length es' \<le> length es \<and> (\<not> rx_ready p s \<longrightarrow> length es' < length es)"
    by (rule wait_Woken_length)
  ultimately show ?case by simp
qed

declare gh_msgq_recv_loop.simps [simp del]

definition gh_msgq_recv ::
  "'h msgq_hcall \<Rightarrow> ptr option \<Rightarrow> bool \<Rightarrow> nat \<Rightarrow> bool \<Rightarrow> u64 \<Rightarrow> 'h msgq_state \<Rightarrow>
   'h msgq_event task_event list \<Rightarrow> (int \<times> u8 list option, 'h msgq_state) outcome" where
  "gh_msgq_recv hv client_desc buff_ok buff_size recv_size_ok flags s es =
     (if client_desc = None \<or> \<not> buff_ok \<or> buff_size = 0 \<or> \<not> recv_size_ok
      then Done (- EINVAL, None) s
      else if GH_MSGQ_MAX_MSG_SIZE_BYTES < buff_size then Done (- E2BIG, None) s
      else case mq_descs s (the client_desc) of
        None \<Rightarrow> Fault
      | Some d \<Rightarrow>
          (case mqd_cap_table d of
             None \<Rightarrow> Done (- EAGAIN, None) s
           | Some p \<Rightarrow>
               (case mq_caps s p of
                  None \<Rightarrow> Fault
                | Some e \<Rightarrow>
                    if mq_client_desc e \<noteq> client_desc then Done (- EINVAL, None) s
                    else if mq_rx_cap_id e = GH_CAPID_INVAL \<and> has_flag flags GH_MSGQ_NONBLOCK
                    then Done (- EAGAIN, None) s
                    else
                      (case wait_event_interruptible msgq_env (rx_cap_known p) s es of
                         Asleep t \<Rightarrow> Blocked t
                       | Interrupted t es' \<Rightarrow> Done (- ERESTARTSYS, None) t
                       | Woken t es' \<Rightarrow>
                           (case mq_caps t p of
                              None \<Rightarrow> Fault
                            | Some e' \<Rightarrow>
                                if mq_rx_irq e' = 0 then Done (- EAGAIN, None) t
                                else gh_msgq_recv_loop hv p buff_size flags t es')))))"

section \<open>Sending\<close>

definition gh_msgq_send_locked ::
  "'h msgq_hcall \<Rightarrow> ptr \<Rightarrow> u8 list \<Rightarrow> u64 \<Rightarrow> 'h msgq_state \<Rightarrow> (int, 'h msgq_state) outcome" where
  "gh_msgq_send_locked hv p bytes tx_flags s =
     (case mq_caps s p of
        None \<Rightarrow> Fault
      | Some e \<Rightarrow>
          (case hc_msgq_send hv (mq_tx_cap_id e) bytes (tx_flags AND GH_MSGQ_HVC_FLAGS_MASK) (mq_hyp s) of
             ((gh_ret, not_full), h) \<Rightarrow>
               if gh_ret = GH_ERROR_OK then
                 Done 0 (s\<lparr>mq_caps := (mq_caps s)(p \<mapsto> e\<lparr>mq_tx_full := \<not> not_full\<rparr>), mq_hyp := h\<rparr>)
               else if gh_ret = GH_ERROR_MSGQUEUE_FULL then
                 Done (- EAGAIN) (s\<lparr>mq_caps := (mq_caps s)(p \<mapsto> e\<lparr>mq_tx_full := True\<rparr>), mq_hyp := h\<rparr>)
               else Done (gh_remap_error gh_ret) (s\<lparr>mq_hyp := h\<rparr>)))"

definition tx_cap_known :: "ptr \<Rightarrow> 'h msgq_state \<Rightarrow> bool" where
  "tx_cap_known p s = (case mq_caps s p of None \<Rightarrow> True | Some e \<Rightarrow> mq_tx_cap_id e \<noteq> GH_CAPID_INVAL)"

definition tx_ready :: "ptr \<Rightarrow> 'h msgq_state \<Rightarrow> bool" where
  "tx_ready p s = (case mq_caps s p of None \<Rightarrow> True | Some e \<Rightarrow> \<not> mq_tx_full e)"

lemma gh_msgq_send_locked_EAGAIN:
  "gh_msgq_send_locked hv p b f s = Done (- EAGAIN) t \<Longrightarrow> \<not> tx_ready p t"
  by (auto simp: gh_msgq_send_locked_def tx_ready_def split: option.splits prod.splits if_splits)

function gh_msgq_send_loop ::
  "'h msgq_hcall \<Rightarrow> ptr \<Rightarrow> u8 list \<Rightarrow> u64 \<Rightarrow> 'h msgq_state \<Rightarrow> 'h msgq_event task_event list \<Rightarrow>
   (int, 'h msgq_state) outcome" where
  "gh_msgq_send_loop hv p bytes flags s es =
     (case mq_caps s p of
        None \<Rightarrow> Fault
      | Some e \<Rightarrow>
          if mq_tx_full e \<and> has_flag flags GH_MSGQ_NONBLOCK then Done (- EAGAIN) s
          else
            (case wait_event_interruptible msgq_env (tx_ready p) s es of
               Asleep t \<Rightarrow> Blocked t
             | Interrupted t es' \<Rightarrow> Done (- ERESTARTSYS) t
             | Woken t es' \<Rightarrow>
                 (case gh_msgq_send_locked hv p bytes flags t of
                    Fault \<Rightarrow> Fault
                  | Blocked u \<Rightarrow> Blocked u
                  | Done r u \<Rightarrow>
                      if r = - EAGAIN then gh_msgq_send_loop hv p bytes flags u es'
                      else Done r u)))"
  by pat_completeness auto
termination
proof (relation "measure (\<lambda>(hv, p, b, flags, s, es). 2 * length es + (if tx_ready p s then 1 else 0))", goal_cases)
  case 1
  show ?case by simp
next
  case (2 hv p b flags s es e t es' r u)
  from 2(4,5) have "\<not> tx_ready p u"
    by (auto dest: gh_msgq_send_locked_EAGAIN)
  moreover from 2(3) have "length es' \<le> length es \<and> (\<not> tx_ready p s \<longrightarrow> length es' < length es)"
    by (rule wait_Woken_length)
  ultimately show ?case by simp
qed

declare gh_msgq_send_loop.simps [simp del]

text \<open>The buffer argument is the memory behind \<^verbatim>\<open>void *buff\<close>; \<open>None\<close> is NULL.\<close>

definition gh_msgq_send ::
  "'h msgq_hcall \<Rightarrow> ptr option \<Rightarrow> u8 list option \<Rightarrow> nat \<Rightarrow> u64 \<Rightarrow> 'h msgq_state \<Rightarrow>
   'h msgq_event task_event list \<Rightarrow> (int, 'h msgq_state) outcome" where
  "gh_msgq_send hv client_desc buff sz flags s es =
     (if client_desc = None \<or> buff = None \<or> sz = 0 then Done (- EINVAL) s
      else if GH_MSGQ_MAX_MSG_SIZE_BYTES < sz then Done (- E2BIG) s
      else case mq_descs s (the client_desc) of
        None \<Rightarrow> Fault
      | Some d \<Rightarrow>
          (case mqd_cap_table d of
             None \<Rightarrow> Done (- EAGAIN) s
           | Some p \<Rightarrow>
               (case mq_caps s p of
                  None \<Rightarrow> Fault
                | Some e \<Rightarrow>
                    if mq_client_desc e \<noteq> client_desc then Done (- EINVAL) s
                    else if mq_tx_cap_id e = GH_CAPID_INVAL \<and> has_flag flags GH_MSGQ_NONBLOCK
                    then Done (- EAGAIN) s
                    else
                      (case wait_event_interruptible msgq_env (tx_cap_known p) s es of
                         Asleep t \<Rightarrow> Blocked t
                       | Interrupted t es' \<Rightarrow> Done (- ERESTARTSYS) t
                       | Woken t es' \<Rightarrow>
                           (case mq_caps t p of
                              None \<Rightarrow> Fault
                            | Some e' \<Rightarrow>
                                if mq_tx_irq e' = 0 then Done (- EAGAIN) t
                                else gh_msgq_send_loop hv p (take sz (the buff)) flags t es')))))"

end
