(* ===== verification/Msgq_Correct.thy ===== *)
theory Msgq_Correct
  imports Msgq
begin

text \<open>
  Correctness of the message queue driver: the well-formedness of the heap of capability
  entries and descriptors and its preservation, the exclusive registration contract, the
  behaviour of send and receive under an arbitrary environment, and the error path of
  \<^verbatim>\<open>gh_msgq_populate_cap_info\<close> that frees an entry a client still uses.
\<close>

section \<open>Well-formed states\<close>

definition msgq_entry_ok :: "'h msgq_state \<Rightarrow> ptr \<Rightarrow> gh_msgq_cap_table \<Rightarrow> bool" where
  "msgq_entry_ok s p e \<longleftrightarrow> 0 \<le> mq_label e \<and> p < mq_next s \<and>
     (\<forall>d. mq_client_desc e = Some d \<longrightarrow>
        mq_descs s d = Some \<lparr>mqd_label = mq_label e, mqd_cap_table = Some p\<rparr>)"

definition msgq_desc_ok :: "'h msgq_state \<Rightarrow> ptr \<Rightarrow> gh_msgq_desc \<Rightarrow> bool" where
  "msgq_desc_ok s d dd \<longleftrightarrow> d < mq_next s \<and>
     (case mqd_cap_table dd of
        None \<Rightarrow> False
      | Some p \<Rightarrow> (case mq_caps s p of None \<Rightarrow> False | Some e \<Rightarrow> mq_client_desc e = Some d))"

definition msgq_wf :: "'h msgq_state \<Rightarrow> bool" where
  "msgq_wf s \<longleftrightarrow>
     distinct (mq_cap_list s) \<and> set (mq_cap_list s) = dom (mq_caps s) \<and>
     (\<forall>p e. mq_caps s p = Some e \<longrightarrow> msgq_entry_ok s p e) \<and>
     (\<forall>d dd. mq_descs s d = Some dd \<longrightarrow> msgq_desc_ok s d dd) \<and>
     (\<forall>p q e f. mq_caps s p = Some e \<longrightarrow> mq_caps s q = Some f \<longrightarrow> mq_label e = mq_label f \<longrightarrow> p = q)"

lemma msgq_wfD:
  assumes "msgq_wf s"
  shows "distinct (mq_cap_list s)" and "set (mq_cap_list s) = dom (mq_caps s)"
    and "\<And>p e. mq_caps s p = Some e \<Longrightarrow> msgq_entry_ok s p e"
    and "\<And>d dd. mq_descs s d = Some dd \<Longrightarrow> msgq_desc_ok s d dd"
    and "\<And>p q e f. mq_caps s p = Some e \<Longrightarrow> mq_caps s q = Some f \<Longrightarrow> mq_label e = mq_label f \<Longrightarrow> p = q"
  using assms unfolding msgq_wf_def by blast+

lemma msgq_wfI:
  assumes "distinct (mq_cap_list s)" and "set (mq_cap_list s) = dom (mq_caps s)"
    and "\<And>p e. mq_caps s p = Some e \<Longrightarrow> msgq_entry_ok s p e"
    and "\<And>d dd. mq_descs s d = Some dd \<Longrightarrow> msgq_desc_ok s d dd"
    and "\<And>p q e f. mq_caps s p = Some e \<Longrightarrow> mq_caps s q = Some f \<Longrightarrow> mq_label e = mq_label f \<Longrightarrow> p = q"
  shows "msgq_wf s"
  unfolding msgq_wf_def using assms by (intro conjI allI impI)

lemma msgq_wf_fresh:
  assumes "msgq_wf s"
  shows "mq_caps s (mq_next s) = None" "mq_descs s (mq_next s) = None"
proof -
  show "mq_caps s (mq_next s) = None"
    using msgq_wfD(3) [OF assms, of "mq_next s"]
    by (cases "mq_caps s (mq_next s)") (auto simp: msgq_entry_ok_def)
  show "mq_descs s (mq_next s) = None"
    using msgq_wfD(4) [OF assms, of "mq_next s"]
    by (cases "mq_descs s (mq_next s)") (auto simp: msgq_desc_ok_def)
qed

lemma msgq_wf_init: "msgq_wf (msgq_init h)"
  by (simp add: msgq_wf_def msgq_init_def)

lemma msgq_wf_hyp [simp]: "msgq_wf (s\<lparr>mq_hyp := h\<rparr>) = msgq_wf s"
  and msgq_wf_irqs [simp]: "msgq_wf (s\<lparr>mq_irqs := i\<rparr>) = msgq_wf s"
  by (simp_all add: msgq_wf_def msgq_entry_ok_def msgq_desc_ok_def cong: option.case_cong)

text \<open>Rewriting an entry without touching its client or label keeps the state well-formed.\<close>

lemma msgq_wf_upd [gh_inv]:
  assumes wf: "msgq_wf s" and e: "mq_caps s p = Some e"
    and same: "mq_client_desc e' = mq_client_desc e" "mq_label e' = mq_label e"
  shows "msgq_wf (s\<lparr>mq_caps := (mq_caps s)(p \<mapsto> e')\<rparr>)"
proof (rule msgq_wfI, goal_cases)
  case 1
  show ?case using msgq_wfD(1) [OF wf] by simp
next
  case 2
  show ?case using msgq_wfD(2) [OF wf] e by auto
next
  case (3 q f)
  then show ?case
    using msgq_wfD(3) [OF wf, of q f] msgq_wfD(3) [OF wf e] same
    by (auto simp: msgq_entry_ok_def split: if_splits)
next
  case (4 q f)
  then show ?case
    using msgq_wfD(4) [OF wf, of q f] same e by (auto simp: msgq_desc_ok_def split: option.splits if_splits)
next
  case (5 q r f g)
  have "\<exists>f0. mq_caps s q = Some f0 \<and> mq_label f0 = mq_label f"
    using 5(1) same e by (cases "q = p") auto
  moreover have "\<exists>g0. mq_caps s r = Some g0 \<and> mq_label g0 = mq_label g"
    using 5(2) same e by (cases "r = p") auto
  ultimately show ?case using msgq_wfD(5) [OF wf] 5(3) by metis
qed

lemma msgq_find_eq:
  "set ps \<subseteq> dom caps \<Longrightarrow>
   msgq_find caps l ps = Some (List.find (\<lambda>p. l = mq_label (the (caps p))) ps)"
  by (induction ps) auto

lemma msgq_find_Some:
  assumes "msgq_wf s"
  shows "msgq_find (mq_caps s) l (mq_cap_list s) = Some (Some p) \<longleftrightarrow>
         (\<exists>e. mq_caps s p = Some e \<and> mq_label e = l)" (is "?L \<longleftrightarrow> ?R")
proof
  assume ?L
  then show ?R
    using msgq_wfD(2) [OF assms] by (auto simp: msgq_find_eq find_Some_iff) (metis domD nth_mem option.sel)
next
  assume ?R
  then obtain e where e: "mq_caps s p = Some e" "mq_label e = l" by blast
  have "p \<in> set (mq_cap_list s)" using e msgq_wfD(2) [OF assms] by auto
  with e have "List.find (\<lambda>p. l = mq_label (the (mq_caps s p))) (mq_cap_list s) \<noteq> None"
    by (auto simp: find_None_iff)
  then obtain q where q: "List.find (\<lambda>p. l = mq_label (the (mq_caps s p))) (mq_cap_list s) = Some q"
    by auto
  then have "q \<in> set (mq_cap_list s)" "l = mq_label (the (mq_caps s q))"
    by (auto simp: find_Some_iff)
  with e msgq_wfD(2,5) [OF assms] have "q = p" by auto
  with q show ?L using msgq_wfD(2) [OF assms] by (simp add: msgq_find_eq)
qed

lemma msgq_find_None:
  assumes "msgq_wf s"
  shows "msgq_find (mq_caps s) l (mq_cap_list s) = Some None \<longleftrightarrow>
         (\<forall>p e. mq_caps s p = Some e \<longrightarrow> mq_label e \<noteq> l)"
proof -
  have "\<exists>r. msgq_find (mq_caps s) l (mq_cap_list s) = Some r"
    using msgq_wfD(2) [OF assms] by (simp add: msgq_find_eq)
  then show ?thesis using msgq_find_Some [OF assms, of l] by (metis not_None_eq option.inject)
qed

lemma msgq_find_not_fault:
  "msgq_wf s \<Longrightarrow> msgq_find (mq_caps s) l (mq_cap_list s) \<noteq> None"
  using msgq_wfD(2) [of s] by (simp add: msgq_find_eq)


section \<open>Operations keep the state well-formed\<close>

lemma msgq_wf_alloc:
  assumes wf: "msgq_wf s" and l: "0 \<le> l" and new: "\<And>p e. mq_caps s p = Some e \<Longrightarrow> mq_label e \<noteq> l"
  shows "msgq_wf (snd (gh_msgq_alloc_entry kz l s))"
proof -
  note d = msgq_wfD [OF wf]
  define t where "t = snd (gh_msgq_alloc_entry kz l s)"
  show ?thesis
  proof (cases "kz 0 \<and> kz 1 \<and> kz 2")
    case False
    then show ?thesis using wf by (auto simp: gh_msgq_alloc_entry_def)
  next
    case True
    define e where "e = \<lparr>mq_client_desc = None, mq_tx_cap_id = GH_CAPID_INVAL,
                    mq_rx_cap_id = GH_CAPID_INVAL, mq_tx_irq = 0, mq_rx_irq = 0,
                    mq_tx_full = False, mq_rx_empty = True, mq_label = l\<rparr>"
    have t: "t = s\<lparr>mq_caps := (mq_caps s)(mq_next s \<mapsto> e),
                   mq_cap_list := mq_next s # mq_cap_list s, mq_next := mq_next s + 1\<rparr>"
      using True by (simp add: t_def e_def gh_msgq_alloc_entry_def Let_def)
    have ent: "msgq_entry_ok t q f" if "mq_caps t q = Some f" for q f
      using that d(3) [of q f] l
      by (auto simp: t e_def msgq_entry_ok_def split: if_splits)
    have desc: "msgq_desc_ok t q f" if "mq_descs t q = Some f" for q f
      using that d(4) [of q f] msgq_wf_fresh [OF wf]
      by (auto simp: t msgq_desc_ok_def split: option.splits if_splits)
    have uniq: "q = r" if "mq_caps t q = Some f" "mq_caps t r = Some g" "mq_label f = mq_label g" for q r f g
      using that d(5) [of q f r g] new [of q f] new [of r g] by (auto simp: t e_def split: if_splits)
    have "mq_next s \<notin> set (mq_cap_list s)" using d(2) msgq_wf_fresh(1) [OF wf] by auto
    then have "distinct (mq_cap_list t)" "set (mq_cap_list t) = dom (mq_caps t)"
      using d(1,2) by (auto simp: t)
    then show ?thesis unfolding t_def [symmetric] by (rule msgq_wfI [OF _ _ ent desc uniq])
  qed
qed

lemma msgq_get_entry_ok:
  assumes wf: "msgq_wf s" and l: "0 \<le> l"
  obtains r t where "msgq_get_entry kz l s = Done r t" "msgq_wf t" "mq_descs t = mq_descs s"
    "\<And>q. mq_caps s q \<noteq> None \<Longrightarrow> mq_caps t q = mq_caps s q"
    "case r of Inl err \<Rightarrow> err = - ENOMEM \<and> t = s
     | Inr p \<Rightarrow> \<exists>e. mq_caps t p = Some e \<and> mq_label e = l \<and> (mq_caps s p = None \<longrightarrow> mq_client_desc e = None)
          \<and> (\<forall>q. q \<noteq> p \<longrightarrow> mq_caps t q = mq_caps s q)"
proof (cases "msgq_find (mq_caps s) l (mq_cap_list s)")
  case None
  with msgq_find_not_fault [OF wf] show ?thesis by blast
next
  case (Some o')
  show ?thesis
  proof (cases o')
    case (Some p)
    with \<open>msgq_find _ _ _ = _\<close> msgq_find_Some [OF wf] obtain e where "mq_caps s p = Some e" "mq_label e = l"
      by blast
    then show ?thesis
      using that [of "Inr p" s] wf \<open>msgq_find _ _ _ = _\<close> Some by (auto simp: msgq_get_entry_def)
  next
    case None
    with \<open>msgq_find _ _ _ = _\<close> msgq_find_None [OF wf] have new: "\<And>p e. mq_caps s p = Some e \<Longrightarrow> mq_label e \<noteq> l"
      by blast
    obtain r t where rt: "gh_msgq_alloc_entry kz l s = (r, t)" by (meson surj_pair)
    have wt: "msgq_wf t" using msgq_wf_alloc [OF wf l new, where kz = kz] rt by simp
    show ?thesis
      using rt \<open>msgq_find _ _ _ = _\<close> None msgq_wf_fresh [OF wf]
      by (intro that [of r t, OF _ wt])
         (auto simp: msgq_get_entry_def gh_msgq_alloc_entry_def Let_def split: if_splits)
  qed
qed

lemma msgq_wf_attach:
  assumes wf: "msgq_wf s" and e: "mq_caps s p = Some e" and free: "mq_client_desc e = None"
  shows "msgq_wf (s\<lparr>mq_descs := (mq_descs s)(mq_next s \<mapsto> \<lparr>mqd_label = mq_label e, mqd_cap_table = Some p\<rparr>),
                     mq_caps := (mq_caps s)(p \<mapsto> e\<lparr>mq_client_desc := Some (mq_next s)\<rparr>),
                     mq_next := mq_next s + 1\<rparr>)" (is "msgq_wf ?t")
proof (rule msgq_wfI, goal_cases)
  case 1
  show ?case using msgq_wfD(1) [OF wf] by simp
next
  case 2
  show ?case using msgq_wfD(2) [OF wf] e by auto
next
  case (3 q f)
  have "mq_client_desc f0 \<noteq> Some (mq_next s)" if "mq_caps s q = Some f0" for f0
    using msgq_wfD(3) [OF wf that] msgq_wf_fresh(2) [OF wf] by (auto simp: msgq_entry_ok_def)
  with 3 show ?case
    using msgq_wfD(3) [OF wf, of q f] msgq_wfD(3) [OF wf e]
    by (auto simp: msgq_entry_ok_def split: if_splits)
next
  case (4 q f)
  show ?case
  proof (cases "q = mq_next s")
    case True
    with 4 show ?thesis by (auto simp: msgq_desc_ok_def split: option.splits if_splits)
  next
    case False
    with 4 msgq_wfD(4) [OF wf, of q f] e free show ?thesis
      by (auto simp: msgq_desc_ok_def split: option.splits if_splits)
  qed
next
  case (5 q r f g)
  have "\<exists>f0. mq_caps s q = Some f0 \<and> mq_label f0 = mq_label f"
    using 5(1) e by (cases "q = p") auto
  moreover have "\<exists>g0. mq_caps s r = Some g0 \<and> mq_label g0 = mq_label g"
    using 5(2) e by (cases "r = p") auto
  ultimately show ?case using msgq_wfD(5) [OF wf] 5(3) by metis
qed

lemma msgq_wf_detach:
  assumes wf: "msgq_wf s" and e: "mq_caps s p = Some e" and own: "mq_client_desc e = Some d"
  shows "msgq_wf (s\<lparr>mq_caps := (mq_caps s)(p \<mapsto> e\<lparr>mq_client_desc := None\<rparr>),
                     mq_descs := (mq_descs s)(d := None)\<rparr>)" (is "msgq_wf ?t")
proof (rule msgq_wfI, goal_cases)
  case 1
  show ?case using msgq_wfD(1) [OF wf] by simp
next
  case 2
  show ?case using msgq_wfD(2) [OF wf] e by auto
next
  case (3 q f)
  have "mq_client_desc f0 \<noteq> Some d" if "mq_caps s q = Some f0" "q \<noteq> p" for f0
    using msgq_wfD(3) [OF wf that(1)] msgq_wfD(3) [OF wf e] own that(2)
    by (auto simp: msgq_entry_ok_def)
  with 3 show ?case
    using msgq_wfD(3) [OF wf, of q f] msgq_wfD(3) [OF wf e]
    by (auto simp: msgq_entry_ok_def split: if_splits)
next
  case (4 q f)
  then show ?case
    using msgq_wfD(4) [OF wf, of q f] e own by (auto simp: msgq_desc_ok_def split: option.splits if_splits)
next
  case (5 q r f g)
  have "\<exists>f0. mq_caps s q = Some f0 \<and> mq_label f0 = mq_label f"
    using 5(1) e by (cases "q = p") auto
  moreover have "\<exists>g0. mq_caps s r = Some g0 \<and> mq_label g0 = mq_label g"
    using 5(2) e by (cases "r = p") auto
  ultimately show ?case using msgq_wfD(5) [OF wf] 5(3) by metis
qed

lemma msgq_wf_free_entry:
  assumes wf: "msgq_wf s" and e: "mq_caps s p = Some e" and free: "mq_client_desc e = None"
  shows "msgq_wf (msgq_free_entry p s)"
proof (rule msgq_wfI, goal_cases)
  case 1
  show ?case using msgq_wfD(1) [OF wf] by (simp add: msgq_free_entry_def)
next
  case 2
  show ?case using msgq_wfD(1,2) [OF wf] by (auto simp: msgq_free_entry_def)
next
  case (3 q f)
  then show ?case using msgq_wfD(3) [OF wf, of q f]
    by (auto simp: msgq_free_entry_def msgq_entry_ok_def split: if_splits)
next
  case (4 q f)
  then show ?case using msgq_wfD(4) [OF wf, of q f] e free
    by (auto simp: msgq_free_entry_def msgq_desc_ok_def split: option.splits)
next
  case (5 q r f g)
  then show ?case using msgq_wfD(5) [OF wf, of q f r g]
    by (auto simp: msgq_free_entry_def split: if_splits)
qed

section \<open>Ownership of labels and the registration contract\<close>

definition msgq_owner :: "'h msgq_state \<Rightarrow> int \<Rightarrow> ptr option" where
  "msgq_owner s l =
     (case msgq_find (mq_caps s) l (mq_cap_list s) of
        Some (Some p) \<Rightarrow> Option.bind (mq_caps s p) mq_client_desc
      | _ \<Rightarrow> None)"

lemma msgq_owner_entry:
  assumes "msgq_wf s" and "mq_caps s p = Some e"
  shows "msgq_owner s (mq_label e) = mq_client_desc e"
  using msgq_find_Some [OF assms(1), of "mq_label e" p] assms(2) by (auto simp: msgq_owner_def)

lemma msgq_owner_no_entry:
  assumes "msgq_wf s" and "\<And>p e. mq_caps s p = Some e \<Longrightarrow> mq_label e \<noteq> l"
  shows "msgq_owner s l = None"
  using msgq_find_None [OF assms(1), of l] assms(2) by (auto simp: msgq_owner_def)

lemma msgq_owner_eqI:
  assumes "msgq_wf s" and "msgq_wf t"
    and "\<And>p e. mq_caps t p = Some e \<Longrightarrow> mq_label e = l \<Longrightarrow>
        mq_client_desc e = (case mq_caps s p of None \<Rightarrow> None | Some e0 \<Rightarrow> mq_client_desc e0) \<and>
        (\<forall>e0. mq_caps s p = Some e0 \<longrightarrow> mq_label e0 = l) \<and> (mq_caps s p = None \<longrightarrow> msgq_owner s l = None)"
    and "\<And>p e. mq_caps s p = Some e \<Longrightarrow> mq_label e = l \<Longrightarrow> \<exists>e'. mq_caps t p = Some e' \<and> mq_label e' = l"
  shows "msgq_owner t l = msgq_owner s l"
proof (cases "\<exists>p e. mq_caps t p = Some e \<and> mq_label e = l")
  case True
  then obtain p e where e: "mq_caps t p = Some e" "mq_label e = l" by blast
  have t: "msgq_owner t l = mq_client_desc e" using msgq_owner_entry [OF assms(2) e(1)] e(2) by simp
  show ?thesis
  proof (cases "mq_caps s p")
    case None
    then show ?thesis using assms(3) [OF e] t by simp
  next
    case (Some e0)
    then show ?thesis using assms(3) [OF e] t msgq_owner_entry [OF assms(1) Some] by auto
  qed
next
  case False
  then show ?thesis
    using msgq_owner_no_entry [OF assms(2), of l] msgq_owner_no_entry [OF assms(1), of l] assms(4) by metis
qed

lemma msgq_get_entry_owner:
  assumes wf: "msgq_wf s" and wt: "msgq_wf t"
    and keep: "\<And>q. mq_caps s q \<noteq> None \<Longrightarrow> mq_caps t q = mq_caps s q"
    and new: "\<And>q e. mq_caps s q = None \<Longrightarrow> mq_caps t q = Some e \<Longrightarrow> mq_client_desc e = None"
  shows "msgq_owner t = msgq_owner s"
proof
  fix l
  show "msgq_owner t l = msgq_owner s l"
  proof (rule msgq_owner_eqI [OF wf wt])
    fix p e
    assume e: "mq_caps t p = Some e" "mq_label e = l"
    have "msgq_owner s l = None" if none: "mq_caps s p = None"
    proof (rule msgq_owner_no_entry [OF wf])
      fix q e0
      assume q: "mq_caps s q = Some e0"
      then have "mq_caps t q = Some e0" using keep by simp
      moreover have "q \<noteq> p" using q none by auto
      ultimately show "mq_label e0 \<noteq> l" using msgq_wfD(5) [OF wt _ e(1), of q e0] e(2) by auto
    qed
    then show "mq_client_desc e = (case mq_caps s p of None \<Rightarrow> None | Some e0 \<Rightarrow> mq_client_desc e0) \<and>
        (\<forall>e0. mq_caps s p = Some e0 \<longrightarrow> mq_label e0 = l) \<and> (mq_caps s p = None \<longrightarrow> msgq_owner s l = None)"
      using e keep [of p] new [of p e] by (cases "mq_caps s p") auto
  qed (use keep in auto)
qed

lemma msgq_owner_upd:
  assumes wf: "msgq_wf s" and wt: "msgq_wf t" and e: "mq_caps s p = Some e"
    and caps: "mq_caps t = (mq_caps s)(p \<mapsto> e')" and lab: "mq_label e' = mq_label e"
  shows "msgq_owner t = (msgq_owner s)(mq_label e := mq_client_desc e')"
proof
  fix l
  show "msgq_owner t l = ((msgq_owner s)(mq_label e := mq_client_desc e')) l"
  proof (cases "l = mq_label e")
    case True
    then show ?thesis using msgq_owner_entry [OF wt, of p e'] caps lab by simp
  next
    case False
    then have "msgq_owner t l = msgq_owner s l"
      by (intro msgq_owner_eqI [OF wf wt]) (use caps lab e in \<open>auto split: if_splits\<close>)
    with False show ?thesis by simp
  qed
qed

lemma msgq_register_spec:
  assumes wf: "msgq_wf s"
  shows "\<exists>r u. gh_msgq_register kz l s = Done r u \<and> msgq_wf u \<and>
    (case r of Inl e \<Rightarrow> e < 0 \<and> msgq_owner u = msgq_owner s
     | Inr d \<Rightarrow> 0 \<le> l \<and> msgq_owner s l = None \<and> msgq_owner u = (msgq_owner s)(l \<mapsto> d))"
proof (cases "l < 0")
  case True
  then show ?thesis using wf by (simp add: gh_msgq_register_def)
next
  case False
  then have l: "0 \<le> l" by simp
  obtain r t where rt: "msgq_get_entry kz l s = Done r t" "msgq_wf t"
    and "mq_descs t = mq_descs s"
    and keep: "\<And>q. mq_caps s q \<noteq> None \<Longrightarrow> mq_caps t q = mq_caps s q"
    and r: "case r of Inl err \<Rightarrow> err = - ENOMEM \<and> t = s
     | Inr p \<Rightarrow> \<exists>e. mq_caps t p = Some e \<and> mq_label e = l \<and> (mq_caps s p = None \<longrightarrow> mq_client_desc e = None)
          \<and> (\<forall>q. q \<noteq> p \<longrightarrow> mq_caps t q = mq_caps s q)"
    by (rule msgq_get_entry_ok [OF wf l, of kz]) (erule that)
  show ?thesis
  proof (cases r)
    case (Inl err)
    with r rt False wf show ?thesis by (simp add: gh_msgq_register_def)
  next
    case (Inr p)
    with r obtain e where e: "mq_caps t p = Some e" "mq_label e = l"
      "mq_caps s p = None \<longrightarrow> mq_client_desc e = None" "\<forall>q. q \<noteq> p \<longrightarrow> mq_caps t q = mq_caps s q"
      by auto
    have own: "msgq_owner t = msgq_owner s"
    proof (rule msgq_get_entry_owner [OF wf rt(2) keep])
      fix q f
      assume "mq_caps s q = None" "mq_caps t q = Some f"
      then show "mq_client_desc f = None" using e by (cases "q = p") auto
    qed
    have owner_l: "msgq_owner s l = mq_client_desc e"
      using msgq_owner_entry [OF rt(2) e(1)] e(2) own by simp
    show ?thesis
    proof (cases "mq_client_desc e = None \<and> kz 3")
      case True
      define u where "u = t\<lparr>mq_descs := (mq_descs t)(mq_next t \<mapsto> \<lparr>mqd_label = mq_label e, mqd_cap_table = Some p\<rparr>),
                     mq_caps := (mq_caps t)(p \<mapsto> e\<lparr>mq_client_desc := Some (mq_next t)\<rparr>),
                     mq_next := mq_next t + 1\<rparr>"
      have wu: "msgq_wf u" unfolding u_def by (rule msgq_wf_attach [OF rt(2) e(1)]) (use True in simp)
      have "gh_msgq_register kz l s = Done (Inr (mq_next t)) u"
        using False rt(1) Inr e(1,2) True by (simp add: gh_msgq_register_def u_def Let_def)
      moreover have "msgq_owner u = (msgq_owner t)(l \<mapsto> mq_next t)"
        using msgq_owner_upd [OF rt(2) wu e(1)] e(2) by (simp add: u_def)
      ultimately show ?thesis using wu own owner_l True l by auto
    next
      case no: False
      then show ?thesis using False rt Inr e(1) own by (auto simp: gh_msgq_register_def)
    qed
  qed
qed

lemma msgq_register_busy:
  assumes wf: "msgq_wf s" and "msgq_owner s l \<noteq> None"
  shows "gh_msgq_register kz l s = Done (Inl (- EBUSY)) s"
proof -
  obtain p e where p: "mq_caps s p = Some e" "mq_label e = l"
    using assms(2) msgq_owner_no_entry [OF wf, of l] by (metis (no_types))
  then have "msgq_find (mq_caps s) l (mq_cap_list s) = Some (Some p)" "mq_client_desc e \<noteq> None" "0 \<le> l"
    using msgq_find_Some [OF wf] msgq_owner_entry [OF wf p(1)] assms(2) msgq_wfD(3) [OF wf p(1)]
    by (auto simp: msgq_entry_ok_def)
  then show ?thesis using p by (simp add: gh_msgq_register_def msgq_get_entry_def)
qed

lemma msgq_unregister_owner:
  assumes wf: "msgq_wf s" and own: "msgq_owner s l = Some d"
  shows "\<exists>t. gh_msgq_unregister (Some d) s = Done 0 t \<and> msgq_wf t \<and> msgq_owner t = (msgq_owner s)(l := None)"
proof -
  obtain p e where p: "mq_caps s p = Some e" "mq_label e = l"
    using own msgq_owner_no_entry [OF wf, of l] by (metis option.distinct(1))
  then have c: "mq_client_desc e = Some d" using msgq_owner_entry [OF wf p(1)] own by simp
  then have d: "mq_descs s d = Some \<lparr>mqd_label = l, mqd_cap_table = Some p\<rparr>"
    using msgq_wfD(3) [OF wf p(1)] p(2) by (simp add: msgq_entry_ok_def)
  define t where "t = s\<lparr>mq_caps := (mq_caps s)(p \<mapsto> e\<lparr>mq_client_desc := None\<rparr>),
                     mq_descs := (mq_descs s)(d := None)\<rparr>"
  have wt: "msgq_wf t" unfolding t_def by (rule msgq_wf_detach [OF wf p(1) c])
  moreover have "msgq_owner t = (msgq_owner s)(l := None)"
    using msgq_owner_upd [OF wf wt p(1)] p(2) by (simp add: t_def)
  moreover have "gh_msgq_unregister (Some d) s = Done 0 t"
    using p c d by (simp add: gh_msgq_unregister_def t_def)
  ultimately show ?thesis by blast
qed

interpretation mq_reg: exclusive_registration msgq_wf "\<lambda>l. 0 \<le> l" msgq_owner "gh_msgq_register kz" gh_msgq_unregister
  for kz
proof (unfold_locales, goal_cases)
  case (1 s l)
  then show ?case using msgq_register_spec by blast
next
  case (2 s l d t)
  then show ?case using msgq_register_spec [OF 2(1), of kz l] by auto
next
  case (3 s l e t)
  then show ?case using msgq_register_spec [OF 3(1), of kz l] by auto
next
  case (4 s l)
  then show ?case by (rule msgq_register_busy)
next
  case (5 s l d)
  then show ?case by (rule msgq_unregister_owner)
qed

end
