(* ===== verification/Msgq_IO.thy ===== *)
theory Msgq_IO
  imports Msgq_Correct
begin

text \<open>
  Sending, receiving and capability population of the message queue driver: memory safety
  under a well-behaved environment, exactly-once sending, blocking behaviour, and the
  use-after-free on the error path of \<^verbatim>\<open>gh_msgq_populate_cap_info\<close>.
\<close>

section \<open>Population\<close>

lemma msgq_populate_wf [gh_inv]:
  assumes wf: "msgq_wf s"
    and ok: "msgq_owner s l = None \<or> dir \<in> {GH_MSGQ_DIRECTION_TX, GH_MSGQ_DIRECTION_RX} \<and> 0 \<le> rq irq"
  shows "\<exists>r t. gh_msgq_populate_cap_info kz rq l cap dir irq s = Done r t \<and> msgq_wf t \<and>
           (\<forall>p e. mq_caps s p = Some e \<and> mq_client_desc e \<noteq> None \<longrightarrow>
              (\<exists>e'. mq_caps t p = Some e' \<and> mq_client_desc e' = mq_client_desc e)) \<and>
           mq_descs t = mq_descs s \<and> mq_hyp t = mq_hyp s"
proof (cases "l < 0 \<or> irq < 0")
  case True
  then show ?thesis using wf by (auto simp: gh_msgq_populate_cap_info_def)
next
  case False
  then have l: "0 \<le> l" by simp
  obtain r t where rt: "msgq_get_entry kz l s = Done r t" "msgq_wf t" and ds: "mq_descs t = mq_descs s"
    and keep: "\<And>q. mq_caps s q \<noteq> None \<Longrightarrow> mq_caps t q = mq_caps s q"
    and r: "case r of Inl err \<Rightarrow> err = - ENOMEM \<and> t = s
     | Inr p \<Rightarrow> \<exists>e. mq_caps t p = Some e \<and> mq_label e = l \<and> (mq_caps s p = None \<longrightarrow> mq_client_desc e = None)
          \<and> (\<forall>q. q \<noteq> p \<longrightarrow> mq_caps t q = mq_caps s q)"
    by (rule msgq_get_entry_ok [OF wf l, of kz]) (erule that)
  have hyp: "mq_hyp t = mq_hyp s"
    using rt(1) by (auto simp: msgq_get_entry_def gh_msgq_alloc_entry_def Let_def
        split: option.splits if_splits)
  show ?thesis
  proof (cases r)
    case (Inl err)
    with r rt False wf show ?thesis by (auto simp: gh_msgq_populate_cap_info_def)
  next
    case (Inr p)
    with r obtain e where e: "mq_caps t p = Some e" "mq_label e = l"
      "mq_caps s p = None \<longrightarrow> mq_client_desc e = None" by auto
    have free: "mq_client_desc e = None" if "msgq_owner s l = None"
    proof (cases "mq_caps s p")
      case None
      with e show ?thesis by simp
    next
      case (Some e0)
      with keep [of p] e have "e0 = e" by simp
      with Some that msgq_owner_entry [OF wf Some] e(2) show ?thesis by simp
    qed
    have upd: "msgq_wf (t\<lparr>mq_caps := (mq_caps t)(p \<mapsto> e')\<rparr>)"
      if "mq_client_desc e' = mq_client_desc e" "mq_label e' = mq_label e" for e'
      by (rule msgq_wf_upd [OF rt(2) e(1) that])
    have kp: "mq_caps t q = Some f" if "mq_caps s q = Some f" for q f using keep [of q] that by simp
    show ?thesis
    proof (cases "dir \<in> {0, 1} \<and> 0 \<le> rq irq")
      case True
      then show ?thesis using False rt(1) Inr e(1) ds hyp
        by (auto simp: gh_msgq_populate_cap_info_def upd dest!: kp)
    next
      case err: False
      with ok have none: "mq_client_desc e = None" using free by auto
      have "msgq_wf (msgq_free_entry p t)" by (rule msgq_wf_free_entry [OF rt(2) e(1) none])
      moreover have "\<exists>e'. mq_caps (msgq_free_entry p t) q = Some e' \<and> mq_client_desc e' = mq_client_desc f"
        if "mq_caps s q = Some f" "mq_client_desc f \<noteq> None" for q f
        using kp [OF that(1)] that(2) e(1) none by (auto simp: msgq_free_entry_def)
      moreover have "mq_descs (msgq_free_entry p t) = mq_descs s" "mq_hyp (msgq_free_entry p t) = mq_hyp s"
        using ds hyp by (auto simp: msgq_free_entry_def)
      ultimately show ?thesis using False rt(1) Inr e(1) err
        by (auto simp: gh_msgq_populate_cap_info_def)
    qed
  qed
qed

section \<open>A well-behaved environment\<close>

fun msgq_event_ok :: "'h msgq_event \<Rightarrow> bool" where
  "msgq_event_ok (Ev_populate rq l cap dir irq) \<longleftrightarrow>
     dir \<in> {GH_MSGQ_DIRECTION_TX, GH_MSGQ_DIRECTION_RX} \<and> 0 \<le> rq irq"
| "msgq_event_ok _ \<longleftrightarrow> True"

definition msgq_attached :: "ptr \<Rightarrow> ptr \<Rightarrow> 'h msgq_state \<Rightarrow> bool" where
  "msgq_attached d p s \<longleftrightarrow> msgq_wf s \<and> (\<exists>e. mq_caps s p = Some e \<and> mq_client_desc e = Some d)"

lemma msgq_attached_alive: "msgq_attached d p s \<Longrightarrow> mq_caps s p \<noteq> None"
  by (auto simp: msgq_attached_def)

lemma msgq_attached_upd:
  assumes "msgq_attached d p s" and "mq_caps s q = Some e"
    and "mq_client_desc e' = mq_client_desc e" "mq_label e' = mq_label e"
  shows "msgq_attached d p (s\<lparr>mq_caps := (mq_caps s)(q \<mapsto> e')\<rparr>)"
  using assms msgq_wf_upd [of s q e e'] by (auto simp: msgq_attached_def)

lemma msgq_attached_hyp [simp]: "msgq_attached d p (s\<lparr>mq_hyp := h\<rparr>) = msgq_attached d p s"
  by (simp add: msgq_attached_def)

lemma msgq_env_attached:
  assumes "msgq_event_ok x" and "msgq_attached d p s"
  shows "msgq_attached d p (msgq_env x s)"
proof (cases x)
  case (Ev_rx_isr q)
  then show ?thesis using assms(2) msgq_attached_upd [OF assms(2)]
    by (auto simp: gh_msgq_rx_isr_def outcome_state_def split: option.splits)
next
  case (Ev_tx_isr q)
  then show ?thesis using assms(2) msgq_attached_upd [OF assms(2)]
    by (auto simp: gh_msgq_tx_isr_def outcome_state_def split: option.splits)
next
  case (Ev_populate rq l cap dir irq)
  with assms(1) have "dir \<in> {GH_MSGQ_DIRECTION_TX, GH_MSGQ_DIRECTION_RX} \<and> 0 \<le> rq irq" by simp
  then obtain r t where "gh_msgq_populate_cap_info (\<lambda>_. True) rq l cap dir irq s = Done r t" "msgq_wf t"
    "\<forall>q e. mq_caps s q = Some e \<and> mq_client_desc e \<noteq> None \<longrightarrow>
       (\<exists>e'. mq_caps t q = Some e' \<and> mq_client_desc e' = mq_client_desc e)"
    using msgq_populate_wf [of s l dir rq irq "\<lambda>_. True" cap] assms(2)
    unfolding msgq_attached_def by blast
  then show ?thesis using assms(2) Ev_populate
    by (fastforce simp: msgq_attached_def outcome_state_def)
next
  case (Ev_hyp f)
  then show ?thesis using assms(2) by simp
qed

section \<open>Proof rules for the two retry loops\<close>

text \<open>
  \<open>P\<close> is kept by the environment and by attempts that fail with \<^verbatim>\<open>-EAGAIN\<close>; \<open>Q\<close> holds of
  every final result. The rules give total correctness: the loops are total functions, and
  \<^term>\<open>Fault\<close> is excluded.
\<close>

lemma gh_msgq_recv_locked_Done:
  "mq_caps s p \<noteq> None \<Longrightarrow> \<exists>r u. gh_msgq_recv_locked hv p n s = Done r u"
  by (auto simp: gh_msgq_recv_locked_def split: prod.split)

lemma gh_msgq_send_locked_Done:
  "mq_caps s p \<noteq> None \<Longrightarrow> \<exists>r u. gh_msgq_send_locked hv p b f s = Done r u"
  by (auto simp: gh_msgq_send_locked_def split: prod.split)

lemma gh_msgq_recv_loop_rule:
  assumes "P s"
    and "\<And>x s. Env x \<in> set es \<Longrightarrow> P s \<Longrightarrow> P (msgq_env x s)"
    and alive: "\<And>s. P s \<Longrightarrow> mq_caps s p \<noteq> None"
    and step: "\<And>s r u. P s \<Longrightarrow> gh_msgq_recv_locked hv p n s = Done r u \<Longrightarrow>
        if fst r = - EAGAIN then P u else Q r u"
    and early: "\<And>s. P s \<Longrightarrow> Q (- EAGAIN, None) s" "\<And>s. P s \<Longrightarrow> Q (- ERESTARTSYS, None) s"
  shows "outcome_spec Q (\<lambda>u. P u \<and> \<not> rx_ready p u) (gh_msgq_recv_loop hv p n flags s es)"
  using assms(1,2)
proof (induction "2 * length es + (if rx_ready p s then 1 else 0)" arbitrary: s es rule: less_induct)
  case less
  obtain e where e: "mq_caps s p = Some e" using alive [OF less(2)] by auto
  have w: "case wait_event_interruptible msgq_env (rx_ready p) s es of
           Woken t es' \<Rightarrow> P t \<and> set es' \<subseteq> set es
         | Interrupted t es' \<Rightarrow> P t \<and> set es' \<subseteq> set es | Asleep t \<Rightarrow> P t"
    by (rule wait_keeps) (use less in auto)
  show ?case
  proof (cases "wait_event_interruptible msgq_env (rx_ready p) s es")
    case (Woken t es')
    with w have t: "P t" "set es' \<subseteq> set es" by auto
    then obtain r u where ru: "gh_msgq_recv_locked hv p n t = Done r u"
      using gh_msgq_recv_locked_Done [OF alive] by blast
    have rec: "outcome_spec Q (\<lambda>u. P u \<and> \<not> rx_ready p u) (gh_msgq_recv_loop hv p n flags u es')"
      if again: "fst r = - EAGAIN"
    proof (rule less(1))
      have "\<not> rx_ready p u" using ru again by (cases r) (auto dest: gh_msgq_recv_locked_EAGAIN)
      then show "2 * length es' + (if rx_ready p u then 1 else 0) < 2 * length es + (if rx_ready p s then 1 else 0)"
        using wait_Woken_length [OF Woken] by auto
      show "P u" using step [OF t(1) ru] again by simp
      show "P (msgq_env x v)" if "Env x \<in> set es'" "P v" for x v using less(3) t(2) that by blast
    qed
    show ?thesis using e Woken ru rec step [OF t(1) ru] early less(2)
      by (auto simp: gh_msgq_recv_loop.simps [of hv p n flags s es])
  qed (use e w early less(2) in
      \<open>auto simp: gh_msgq_recv_loop.simps [of hv p n flags s es] dest: wait_Asleep_cond\<close>)
qed

lemma gh_msgq_send_loop_rule:
  assumes "P s"
    and "\<And>x s. Env x \<in> set es \<Longrightarrow> P s \<Longrightarrow> P (msgq_env x s)"
    and alive: "\<And>s. P s \<Longrightarrow> mq_caps s p \<noteq> None"
    and step: "\<And>s r u. P s \<Longrightarrow> gh_msgq_send_locked hv p b flags s = Done r u \<Longrightarrow>
        if r = - EAGAIN then P u else Q r u"
    and early: "\<And>s. P s \<Longrightarrow> Q (- EAGAIN) s" "\<And>s. P s \<Longrightarrow> Q (- ERESTARTSYS) s"
  shows "outcome_spec Q (\<lambda>u. P u \<and> \<not> tx_ready p u) (gh_msgq_send_loop hv p b flags s es)"
  using assms(1,2)
proof (induction "2 * length es + (if tx_ready p s then 1 else 0)" arbitrary: s es rule: less_induct)
  case less
  obtain e where e: "mq_caps s p = Some e" using alive [OF less(2)] by auto
  have w: "case wait_event_interruptible msgq_env (tx_ready p) s es of
           Woken t es' \<Rightarrow> P t \<and> set es' \<subseteq> set es
         | Interrupted t es' \<Rightarrow> P t \<and> set es' \<subseteq> set es | Asleep t \<Rightarrow> P t"
    by (rule wait_keeps) (use less in auto)
  show ?case
  proof (cases "wait_event_interruptible msgq_env (tx_ready p) s es")
    case (Woken t es')
    with w have t: "P t" "set es' \<subseteq> set es" by auto
    then obtain r u where ru: "gh_msgq_send_locked hv p b flags t = Done r u"
      using gh_msgq_send_locked_Done [OF alive] by blast
    have rec: "outcome_spec Q (\<lambda>u. P u \<and> \<not> tx_ready p u) (gh_msgq_send_loop hv p b flags u es')"
      if again: "r = - EAGAIN"
    proof (rule less(1))
      have "\<not> tx_ready p u" using ru again by (auto dest: gh_msgq_send_locked_EAGAIN)
      then show "2 * length es' + (if tx_ready p u then 1 else 0) < 2 * length es + (if tx_ready p s then 1 else 0)"
        using wait_Woken_length [OF Woken] by auto
      show "P u" using step [OF t(1) ru] again by simp
      show "P (msgq_env x v)" if "Env x \<in> set es'" "P v" for x v using less(3) t(2) that by blast
    qed
    show ?thesis using e Woken ru rec step [OF t(1) ru] early less(2)
      by (auto simp: gh_msgq_send_loop.simps [of hv p b flags s es])
  qed (use e w early less(2) in
      \<open>auto simp: gh_msgq_send_loop.simps [of hv p b flags s es] dest: wait_Asleep_cond\<close>)
qed

text \<open>The rules for the exported operations, started on a registered descriptor.\<close>

lemma gh_msgq_recv_rule:
  assumes d: "mq_descs s d = Some dd" "mqd_cap_table dd = Some p" and P: "P s"
    and env: "\<And>x s. Env x \<in> set es \<Longrightarrow> P s \<Longrightarrow> P (msgq_env x s)"
    and alive: "\<And>s. P s \<Longrightarrow> mq_caps s p \<noteq> None"
    and step: "\<And>s r u. P s \<Longrightarrow> gh_msgq_recv_locked hv p n s = Done r u \<Longrightarrow>
        if fst r = - EAGAIN then P u else Q r u"
    and early: "\<And>s r. P s \<Longrightarrow> r \<in> {- EINVAL, - E2BIG, - EAGAIN, - ERESTARTSYS} \<Longrightarrow> Q (r, None) s"
  shows "outcome_spec Q P (gh_msgq_recv hv (Some d) bo n ro flags s es)"
proof -
  obtain e where e: "mq_caps s p = Some e" using alive [OF P] by auto
  have w: "case wait_event_interruptible msgq_env (rx_cap_known p) s es of
           Woken t es' \<Rightarrow> P t \<and> set es' \<subseteq> set es
         | Interrupted t es' \<Rightarrow> P t \<and> set es' \<subseteq> set es | Asleep t \<Rightarrow> P t"
    by (rule wait_keeps) (use P env in auto)
  have loop: "outcome_spec Q P (gh_msgq_recv_loop hv p n flags t es')"
    if "P t" "set es' \<subseteq> set es" for t es'
  proof -
    have "outcome_spec Q (\<lambda>u. P u \<and> \<not> rx_ready p u) (gh_msgq_recv_loop hv p n flags t es')"
      by (rule gh_msgq_recv_loop_rule [where P = P and Q = Q]) (use that env alive step early in auto)
    then show ?thesis by (cases "gh_msgq_recv_loop hv p n flags t es'") auto
  qed
  have al: "mq_caps t p \<noteq> None" if "P t" for t using alive that by blast
  show ?thesis using d e P early w loop
    by (auto simp: gh_msgq_recv_def split: wait_result.splits option.splits dest: al)
qed

lemma gh_msgq_send_rule:
  assumes d: "mq_descs s d = Some dd" "mqd_cap_table dd = Some p" and P: "P s"
    and env: "\<And>x s. Env x \<in> set es \<Longrightarrow> P s \<Longrightarrow> P (msgq_env x s)"
    and alive: "\<And>s. P s \<Longrightarrow> mq_caps s p \<noteq> None"
    and step: "\<And>s r u. P s \<Longrightarrow> gh_msgq_send_locked hv p (take n (the b)) flags s = Done r u \<Longrightarrow>
        if r = - EAGAIN then P u else Q r u"
    and early: "\<And>s r. P s \<Longrightarrow> r \<in> {- EINVAL, - E2BIG, - EAGAIN, - ERESTARTSYS} \<Longrightarrow> Q r s"
  shows "outcome_spec Q P (gh_msgq_send hv (Some d) b n flags s es)"
proof -
  obtain e where e: "mq_caps s p = Some e" using alive [OF P] by auto
  have w: "case wait_event_interruptible msgq_env (tx_cap_known p) s es of
           Woken t es' \<Rightarrow> P t \<and> set es' \<subseteq> set es
         | Interrupted t es' \<Rightarrow> P t \<and> set es' \<subseteq> set es | Asleep t \<Rightarrow> P t"
    by (rule wait_keeps) (use P env in auto)
  have loop: "outcome_spec Q P (gh_msgq_send_loop hv p (take n (the b)) flags t es')"
    if "P t" "set es' \<subseteq> set es" for t es'
  proof -
    have "outcome_spec Q (\<lambda>u. P u \<and> \<not> tx_ready p u) (gh_msgq_send_loop hv p (take n (the b)) flags t es')"
      by (rule gh_msgq_send_loop_rule [where P = P and Q = Q]) (use that env alive step early in auto)
    then show ?thesis by (cases "gh_msgq_send_loop hv p (take n (the b)) flags t es'") auto
  qed
  have al: "mq_caps t p \<noteq> None" if "P t" for t using alive that by blast
  show ?thesis using d e P early w loop
    by (auto simp: gh_msgq_send_def split: wait_result.splits option.splits dest: al)
qed

section \<open>Properties\<close>

text \<open>The results a client of the driver can see.\<close>

definition msgq_code :: "int \<Rightarrow> bool" where
  "msgq_code r \<longleftrightarrow>
     r \<in> {0, - EINVAL, - E2BIG, - EAGAIN, - ERESTARTSYS, - ENOMEM, - EACCES, - EBUSY, - EPERM}"

lemma msgq_code_simps [simp]:
  "msgq_code 0" "msgq_code (- EINVAL)" "msgq_code (- E2BIG)" "msgq_code (- EAGAIN)"
  "msgq_code (- ERESTARTSYS)" "msgq_code (gh_remap_error e)"
  using gh_remap_error_range [of e] by (auto simp: msgq_code_def)

lemma msgq_wf_desc:
  assumes "msgq_wf s" and "mq_descs s d = Some dd"
  obtains p where "mqd_cap_table dd = Some p" "msgq_attached d p s"
  using msgq_wfD(4) [OF assms] assms(1)
  by (auto simp: msgq_desc_ok_def msgq_attached_def split: option.splits)

text \<open>C34: On a well-formed driver state a client that registers for a label gets it exclusively:
  a second registration fails with \<^verbatim>\<open>-EBUSY\<close> and changes nothing, and unregistering with the
  descriptor succeeds and gives back the ownership map from before.\<close>

theorem msgq_register_exclusive:
  assumes "msgq_wf s" and "gh_msgq_register kz l s = Done (Inr d) t"
  shows "0 \<le> l \<and> msgq_owner s l = None \<and> msgq_owner t l = Some d \<and>
         gh_msgq_register kz' l t = Done (Inl (- EBUSY)) t \<and>
         (\<exists>u. gh_msgq_unregister (Some d) t = Done 0 u \<and> msgq_wf u \<and> msgq_owner u = msgq_owner s)"
proof -
  have "msgq_wf t" using mq_reg.reg_total [OF assms(1), of kz l] assms(2) by auto
  moreover have "msgq_owner t l = Some d" using mq_reg.reg_ok [OF assms] by simp
  ultimately have "gh_msgq_register kz' l t = Done (Inl (- EBUSY)) t"
    using mq_reg.reg_busy [of t l kz'] by simp
  then show ?thesis
    using mq_reg.reg_ok [OF assms] mq_reg.reg_unreg_roundtrip [OF assms] by simp
qed

lemma msgq_register_init:
  "gh_msgq_register (\<lambda>_. True) 3 (msgq_init h) =
   Done (Inr 2) (msgq_init h\<lparr>mq_caps := [1 \<mapsto> \<lparr>mq_client_desc = Some 2, mq_tx_cap_id = GH_CAPID_INVAL,
       mq_rx_cap_id = GH_CAPID_INVAL, mq_tx_irq = 0, mq_rx_irq = 0, mq_tx_full = False,
       mq_rx_empty = True, mq_label = 3\<rparr>],
     mq_descs := [2 \<mapsto> \<lparr>mqd_label = 3, mqd_cap_table = Some 1\<rparr>],
     mq_cap_list := [1], mq_next := 3\<rparr>)"
  by (simp add: gh_msgq_register_def msgq_get_entry_def gh_msgq_alloc_entry_def msgq_init_def Let_def
      numeral_2_eq_2 numeral_3_eq_3)

theorem msgq_register_exclusive_witness:
  "\<exists>t::unit msgq_state. gh_msgq_register (\<lambda>_. True) 3 (msgq_init ()) = Done (Inr 2) t \<and>
     gh_msgq_register (\<lambda>_. True) 3 t = Done (Inl (- EBUSY)) t"
  by (rule exI, rule conjI [OF msgq_register_init],
      rule msgq_register_exclusive [OF msgq_wf_init msgq_register_init,
        THEN conjunct2, THEN conjunct2, THEN conjunct2, THEN conjunct1])


definition msgq_demo_state :: "unit msgq_state" where
  "msgq_demo_state = msgq_init ()\<lparr>mq_caps := [1 \<mapsto> \<lparr>mq_client_desc = Some 2, mq_tx_cap_id = 7,
       mq_rx_cap_id = 8, mq_tx_irq = 40, mq_rx_irq = 41, mq_tx_full = False,
       mq_rx_empty = True, mq_label = 3\<rparr>],
     mq_descs := [2 \<mapsto> \<lparr>mqd_label = 3, mqd_cap_table = Some 1\<rparr>],
     mq_cap_list := [1], mq_next := 3, mq_irqs := [(40, 1), (41, 1)]\<rparr>"

lemma msgq_demo_wf: "msgq_wf msgq_demo_state"
  by (rule msgq_wfI)
     (auto simp: msgq_demo_state_def msgq_init_def msgq_entry_ok_def msgq_desc_ok_def split: if_splits)


text \<open>The hypercall's log of accepted messages, and environments that leave it alone.\<close>

definition hv_send_logs :: "'h msgq_hcall \<Rightarrow> ('h \<Rightarrow> (gh_capid_t \<times> u8 list \<times> u64) list) \<Rightarrow> bool" where
  "hv_send_logs hv sent \<longleftrightarrow>
     (\<forall>c b f h. length b \<le> GH_MSGQ_MAX_MSG_SIZE_BYTES \<longrightarrow> (case hc_msgq_send hv c b f h of
        ((ret, nf), h') \<Rightarrow> sent h' = (if ret = GH_ERROR_OK then sent h @ [(c, b, f)] else sent h)))"

fun msgq_event_quiet :: "('h \<Rightarrow> 'l) \<Rightarrow> 'h msgq_event \<Rightarrow> bool" where
  "msgq_event_quiet sent (Ev_hyp f) \<longleftrightarrow> (\<forall>h. sent (f h) = sent h)"
| "msgq_event_quiet sent x \<longleftrightarrow> msgq_event_ok x"

lemma msgq_event_quiet_ok: "msgq_event_quiet sent x \<Longrightarrow> msgq_event_ok x"
  by (cases x) auto

lemma msgq_env_quiet:
  assumes "msgq_event_quiet sent x" and "msgq_attached d p s"
  shows "sent (mq_hyp (msgq_env x s)) = sent (mq_hyp s)"
proof (cases x)
  case (Ev_populate rq l cap dir irq)
  with assms have "\<exists>r t. gh_msgq_populate_cap_info (\<lambda>_. True) rq l cap dir irq s = Done r t \<and> mq_hyp t = mq_hyp s"
    using msgq_populate_wf [of s l dir rq irq "\<lambda>_. True" cap] by (auto simp: msgq_attached_def)
  with Ev_populate show ?thesis by (auto simp: outcome_state_def)
qed (use assms in \<open>auto simp: outcome_state_def gh_msgq_rx_isr_def gh_msgq_tx_isr_def split: option.splits\<close>)

lemma gh_msgq_send_locked_log:
  assumes "hv_send_logs hv sent" and "msgq_attached d p s"
    and "gh_msgq_send_locked hv p b f s = Done r u" and "length b \<le> GH_MSGQ_MAX_MSG_SIZE_BYTES"
  shows "msgq_attached d p u \<and> msgq_code r \<and>
    sent (mq_hyp u) = sent (mq_hyp s) @
      (if r = 0 then [(mq_tx_cap_id (the (mq_caps u p)), b, f AND GH_MSGQ_HVC_FLAGS_MASK)] else [])"
proof -
  obtain e where e: "mq_caps s p = Some e" using msgq_attached_alive [OF assms(2)] by auto
  obtain ret nf h where h: "hc_msgq_send hv (mq_tx_cap_id e) b (f AND GH_MSGQ_HVC_FLAGS_MASK) (mq_hyp s) = ((ret, nf), h)"
    by (metis surj_pair)
  have log: "sent h = (if ret = GH_ERROR_OK then sent (mq_hyp s) @ [(mq_tx_cap_id e, b, f AND GH_MSGQ_HVC_FLAGS_MASK)]
     else sent (mq_hyp s))"
    using assms(1) [unfolded hv_send_logs_def, THEN spec [of _ "mq_tx_cap_id e"], THEN spec [of _ b], THEN spec [of _ "f AND GH_MSGQ_HVC_FLAGS_MASK"],
        THEN spec [of _ "mq_hyp s"], THEN mp, OF assms(4)] h by simp
  have upd: "msgq_attached d p (s\<lparr>mq_caps := (mq_caps s)(p \<mapsto> e\<lparr>mq_tx_full := x\<rparr>), mq_hyp := h\<rparr>)" for x
    using msgq_attached_upd [OF assms(2) e, of "e\<lparr>mq_tx_full := x\<rparr>"]
    by (simp add: msgq_attached_def)
  show ?thesis
    using assms(2,3) e h log upd gh_remap_error_0_iff [of ret]
    by (auto simp: gh_msgq_send_locked_def split: if_splits)
qed

lemma gh_msgq_send_log:
  assumes "msgq_attached d p s" "mq_descs s d = Some dd" "mqd_cap_table dd = Some p"
    and "hv_send_logs hv sent" and "\<forall>x. Env x \<in> set es \<longrightarrow> msgq_event_quiet sent x"
  shows "outcome_spec
    (\<lambda>r t. msgq_attached d p t \<and> msgq_code r \<and> sent (mq_hyp t) = sent (mq_hyp s) @
       (if r = 0 then [(mq_tx_cap_id (the (mq_caps t p)), take n (the buff), flags AND GH_MSGQ_HVC_FLAGS_MASK)] else []))
    (\<lambda>t. msgq_attached d p t \<and> sent (mq_hyp t) = sent (mq_hyp s))
    (gh_msgq_send hv (Some d) buff n flags s es)"
proof (cases "GH_MSGQ_MAX_MSG_SIZE_BYTES < n")
  case True
  then show ?thesis using assms(1) by (auto simp: gh_msgq_send_def)
next
  case False
  then have n: "length (take n (the buff)) \<le> GH_MSGQ_MAX_MSG_SIZE_BYTES" by simp
  show ?thesis
  proof (rule gh_msgq_send_rule [where P = "\<lambda>t. msgq_attached d p t \<and> sent (mq_hyp t) = sent (mq_hyp s)" and p = p, OF assms(2,3)])
    fix v r u
    assume v: "msgq_attached d p v \<and> sent (mq_hyp v) = sent (mq_hyp s)"
      and r: "gh_msgq_send_locked hv p (take n (the buff)) flags v = Done r u"
    show "if r = - EAGAIN then msgq_attached d p u \<and> sent (mq_hyp u) = sent (mq_hyp s)
      else msgq_attached d p u \<and> msgq_code r \<and> sent (mq_hyp u) = sent (mq_hyp s) @
         (if r = 0 then [(mq_tx_cap_id (the (mq_caps u p)), take n (the buff), flags AND GH_MSGQ_HVC_FLAGS_MASK)] else [])"
      using gh_msgq_send_locked_log [OF assms(4) _ r n] v by auto
  next
    fix x v
    assume "Env x \<in> set es" "msgq_attached d p v \<and> sent (mq_hyp v) = sent (mq_hyp s)"
    then show "msgq_attached d p (msgq_env x v) \<and> sent (mq_hyp (msgq_env x v)) = sent (mq_hyp s)"
      using assms(5) msgq_env_quiet msgq_env_attached msgq_event_quiet_ok by fastforce
  qed (use assms(1) in \<open>auto dest: msgq_attached_alive\<close>)
qed


definition msgq_log_hcall :: "(gh_capid_t \<times> u8 list \<times> u64) list msgq_hcall" where
  "msgq_log_hcall = \<lparr>hc_msgq_send = \<lambda>c b f h. if length h < 2 then ((0, True), h @ [(c, b, f)]) else ((61, False), h),
                     hc_msgq_recv = \<lambda>c m h. ((60, [], False), h)\<rparr>"


lemma recv_loop_nonblock:
  assumes "has_flag flags GH_MSGQ_NONBLOCK"
  shows "gh_msgq_recv_loop hv p n flags s es \<noteq> Blocked t"
    and "gh_msgq_recv_loop hv p n flags s es = gh_msgq_recv_loop hv p n flags s []"
proof -
  have idle: "gh_msgq_recv_loop hv p n flags u es' = Done (- EAGAIN, None) u"
    if "gh_msgq_recv_locked hv p n s = Done r u" "fst r = - EAGAIN" for r u es'
  proof -
    have "\<not> rx_ready p u" using that by (cases r) (auto dest: gh_msgq_recv_locked_EAGAIN)
    then show ?thesis using assms
      by (auto simp: gh_msgq_recv_loop.simps [of hv p n flags u es'] rx_ready_def split: option.splits)
  qed
  have nb: "gh_msgq_recv_locked hv p n s \<noteq> Blocked u" for u
    by (auto simp: gh_msgq_recv_locked_def split: option.splits prod.splits if_splits)
  have eq: "gh_msgq_recv_loop hv p n flags s es' =
     (case mq_caps s p of None \<Rightarrow> Fault
      | Some e \<Rightarrow> if mq_rx_empty e then Done (- EAGAIN, None) s
          else case gh_msgq_recv_locked hv p n s of
                 Done r u \<Rightarrow> if fst r = - EAGAIN then Done (- EAGAIN, None) u else Done r u
               | Blocked u \<Rightarrow> Blocked u | Fault \<Rightarrow> Fault)" for es'
    using assms idle
    by (auto simp: gh_msgq_recv_loop.simps [of hv p n flags s es'] rx_ready_def
        split: option.splits outcome.splits)
  show "gh_msgq_recv_loop hv p n flags s es \<noteq> Blocked t"
    using nb by (auto simp: eq split: option.splits outcome.splits)
  show "gh_msgq_recv_loop hv p n flags s es = gh_msgq_recv_loop hv p n flags s []"
    by (simp add: eq)
qed

lemma send_loop_nonblock:
  assumes "has_flag flags GH_MSGQ_NONBLOCK"
  shows "gh_msgq_send_loop hv p b flags s es \<noteq> Blocked t"
    and "gh_msgq_send_loop hv p b flags s es = gh_msgq_send_loop hv p b flags s []"
proof -
  have idle: "gh_msgq_send_loop hv p b flags u es' = Done (- EAGAIN) u"
    if "gh_msgq_send_locked hv p b flags s = Done r u" "r = - EAGAIN" for r u es'
  proof -
    have "\<not> tx_ready p u" using that by (auto dest: gh_msgq_send_locked_EAGAIN)
    then show ?thesis using assms
      by (auto simp: gh_msgq_send_loop.simps [of hv p b flags u es'] tx_ready_def split: option.splits)
  qed
  have nb: "gh_msgq_send_locked hv p b flags s \<noteq> Blocked u" for u
    by (auto simp: gh_msgq_send_locked_def split: option.splits prod.splits if_splits)
  have eq: "gh_msgq_send_loop hv p b flags s es' =
     (case mq_caps s p of None \<Rightarrow> Fault
      | Some e \<Rightarrow> if mq_tx_full e then Done (- EAGAIN) s
          else case gh_msgq_send_locked hv p b flags s of
                 Done r u \<Rightarrow> if r = - EAGAIN then Done (- EAGAIN) u else Done r u
               | Blocked u \<Rightarrow> Blocked u | Fault \<Rightarrow> Fault)" for es'
    using assms idle
    by (auto simp: gh_msgq_send_loop.simps [of hv p b flags s es'] tx_ready_def
        split: option.splits outcome.splits)
  show "gh_msgq_send_loop hv p b flags s es \<noteq> Blocked t"
    using nb by (auto simp: eq split: option.splits outcome.splits)
  show "gh_msgq_send_loop hv p b flags s es = gh_msgq_send_loop hv p b flags s []"
    by (simp add: eq)
qed

text \<open>A call with the non-blocking flag never sleeps: neither \<^verbatim>\<open>gh_msgq_recv\<close> nor
  \<^verbatim>\<open>gh_msgq_send\<close> is ever left waiting, in any state and on any descriptor, and what they return
  does not depend on what the environment would do.\<close>

theorem gh_msgq_nonblock:
  assumes "has_flag flags GH_MSGQ_NONBLOCK"
  shows "gh_msgq_recv hv d buff_ok n recv_size_ok flags s es \<noteq> Blocked t \<and>
         gh_msgq_recv hv d buff_ok n recv_size_ok flags s es =
         gh_msgq_recv hv d buff_ok n recv_size_ok flags s [] \<and>
         gh_msgq_send hv d buff n flags s es \<noteq> Blocked t \<and>
         gh_msgq_send hv d buff n flags s es = gh_msgq_send hv d buff n flags s []"
proof (intro conjI)
  note loops = recv_loop_nonblock(1) [OF assms, of hv] send_loop_nonblock(1) [OF assms, of hv]
  show "gh_msgq_recv hv d buff_ok n recv_size_ok flags s es \<noteq> Blocked t"
    "gh_msgq_send hv d buff n flags s es \<noteq> Blocked t"
    using assms loops by (auto simp: gh_msgq_recv_def gh_msgq_send_def rx_cap_known_def tx_cap_known_def
        split: option.splits wait_result.splits)
  show "gh_msgq_recv hv d buff_ok n recv_size_ok flags s es =
         gh_msgq_recv hv d buff_ok n recv_size_ok flags s []"
    using assms recv_loop_nonblock(2) [OF assms, of hv _ n s es]
    by (auto simp: gh_msgq_recv_def rx_cap_known_def split: option.splits)
  show "gh_msgq_send hv d buff n flags s es = gh_msgq_send hv d buff n flags s []"
    using assms send_loop_nonblock(2) [OF assms, of hv _ _ s es]
    by (auto simp: gh_msgq_send_def tx_cap_known_def split: option.splits)
qed

theorem gh_msgq_nonblock_witness:
  "gh_msgq_recv msgq_log_hcall (Some 2) True 240 True GH_MSGQ_NONBLOCK
     (msgq_init [] :: (gh_capid_t \<times> u8 list \<times> u64) list msgq_state) [Signal] \<noteq> Blocked (msgq_init [])"
  by (rule gh_msgq_nonblock [THEN conjunct1]) (simp add: has_flag_def)

text \<open>When the Resource Manager's capability information for a label arrives with a bad direction
  or an IRQ that cannot be requested, \<^verbatim>\<open>gh_msgq_populate_cap_info\<close> frees the label's
  entry even though a client is registered on it: the descriptor the client still holds points
  to freed memory, and every later send, receive or unregister through it is a use after free.\<close>

theorem gh_msgq_populate_failure_use_after_free:
  assumes "msgq_wf s" and "msgq_owner s l = Some d" and "0 \<le> irq"
    and "dir \<notin> {GH_MSGQ_DIRECTION_TX, GH_MSGQ_DIRECTION_RX} \<or> rq irq < 0"
    and "0 < n" "n \<le> GH_MSGQ_MAX_MSG_SIZE_BYTES"
  shows "\<exists>r t. gh_msgq_populate_cap_info kz rq l cap dir irq s = Done r t \<and> r < 0 \<and>
           gh_msgq_send hv (Some d) (Some b) n flags t es = Fault \<and>
           gh_msgq_recv hv (Some d) True n True flags t es = Fault \<and>
           gh_msgq_unregister (Some d) t = Fault"
proof -
  obtain p e where p: "mq_caps s p = Some e" "mq_label e = l"
    using assms(2) msgq_owner_no_entry [OF assms(1), of l] by (metis option.distinct(1))
  then have c: "mq_client_desc e = Some d" using msgq_owner_entry [OF assms(1) p(1)] assms(2) by simp
  have l: "0 \<le> l" and d: "mq_descs s d = Some \<lparr>mqd_label = l, mqd_cap_table = Some p\<rparr>"
    using msgq_wfD(3) [OF assms(1) p(1)] p(2) c by (auto simp: msgq_entry_ok_def)
  have f: "msgq_find (mq_caps s) l (mq_cap_list s) = Some (Some p)"
    using msgq_find_Some [OF assms(1)] p by blast
  have "gh_msgq_populate_cap_info kz rq l cap dir irq s =
      Done (if dir \<in> {GH_MSGQ_DIRECTION_TX, GH_MSGQ_DIRECTION_RX} then rq irq else - EINVAL) (msgq_free_entry p s)"
    using assms(3,4) l f p(1) by (auto simp: gh_msgq_populate_cap_info_def msgq_get_entry_def)
  then obtain r where r: "r < 0" "gh_msgq_populate_cap_info kz rq l cap dir irq s = Done r (msgq_free_entry p s)"
    using assms(4) by (auto split: if_splits)
  moreover have "mq_caps (msgq_free_entry p s) p = None" "mq_descs (msgq_free_entry p s) d = mq_descs s d"
    by (simp_all add: msgq_free_entry_def)
  ultimately show ?thesis using d assms(5,6)
    by (auto simp: gh_msgq_send_def gh_msgq_recv_def gh_msgq_unregister_def)
qed

theorem gh_msgq_populate_failure_use_after_free_witness:
  "\<forall>hv. \<exists>r t. gh_msgq_populate_cap_info (\<lambda>_. True) (\<lambda>_. - EBUSY) 3 99 GH_MSGQ_DIRECTION_RX 50 msgq_demo_state = Done r t \<and>
     r < 0 \<and> gh_msgq_send hv (Some 2) (Some [1]) 1 0 t [] = Fault \<and>
     gh_msgq_recv hv (Some 2) True 1 True 0 t [] = Fault \<and> gh_msgq_unregister (Some 2) t = Fault"
  by (rule allI, rule gh_msgq_populate_failure_use_after_free [OF msgq_demo_wf])
     (simp_all add: msgq_demo_state_def msgq_owner_def)

text \<open>Populating a direction and resetting it again is a round trip: the reset reports exactly the
  IRQ that was given, leaves that direction without a capability and an IRQ, and the handler
  installed for the entry is gone.\<close>

theorem gh_msgq_populate_reset_roundtrip:
  assumes "msgq_wf s" and "gh_msgq_populate_cap_info kz rq l cap GH_MSGQ_DIRECTION_RX irq s = Done 0 t" and "irq \<noteq> 0"
  shows "\<exists>u p e. gh_msgq_reset_cap_info l GH_MSGQ_DIRECTION_RX True t = Done (0, Some irq) u \<and> msgq_wf u \<and>
           msgq_owner u = msgq_owner s \<and> mq_caps u p = Some e \<and> mq_label e = l \<and>
           mq_rx_cap_id e = GH_CAPID_INVAL \<and> mq_rx_irq e = 0 \<and> (irq, p) \<notin> set (mq_irqs u)"
proof -
  from assms(2) have l: "0 \<le> l" "0 \<le> irq" by (auto simp: gh_msgq_populate_cap_info_def split: if_splits)
  obtain r v where rv: "msgq_get_entry kz l s = Done r v" "msgq_wf v"
    and ds: "mq_descs v = mq_descs s"
    and keep: "\<And>q. mq_caps s q \<noteq> None \<Longrightarrow> mq_caps v q = mq_caps s q"
    and r: "case r of Inl err \<Rightarrow> err = - ENOMEM \<and> v = s
     | Inr p \<Rightarrow> \<exists>e. mq_caps v p = Some e \<and> mq_label e = l \<and> (mq_caps s p = None \<longrightarrow> mq_client_desc e = None)
          \<and> (\<forall>q. q \<noteq> p \<longrightarrow> mq_caps v q = mq_caps s q)"
    by (rule msgq_get_entry_ok [OF assms(1) l(1), of kz]) (erule that)
  obtain p e where r': "r = Inr p" and e: "mq_caps v p = Some e" "mq_label e = l"
    and new: "mq_caps s p = None \<longrightarrow> mq_client_desc e = None" "\<forall>q. q \<noteq> p \<longrightarrow> mq_caps v q = mq_caps s q"
    using r rv(1) assms(2) l by (auto simp: gh_msgq_populate_cap_info_def split: sum.splits)
  let ?e = "e\<lparr>mq_rx_cap_id := cap, mq_rx_irq := irq\<rparr>"
  have t: "t = v\<lparr>mq_caps := (mq_caps v)(p \<mapsto> ?e), mq_irqs := (irq, p) # mq_irqs v\<rparr>"
    using rv(1) r' e assms(2) l by (auto simp: gh_msgq_populate_cap_info_def split: if_splits)
  have wt: "msgq_wf t" unfolding t using msgq_wf_upd [OF rv(2) e(1), of ?e] by simp
  have tp: "mq_caps t p = Some ?e" by (simp add: t)
  let ?f = "?e\<lparr>mq_rx_cap_id := GH_CAPID_INVAL, mq_rx_irq := 0\<rparr>"
  let ?u = "t\<lparr>mq_caps := (mq_caps t)(p \<mapsto> ?f), mq_irqs := removeAll (irq, p) (mq_irqs t)\<rparr>"
  have wu: "msgq_wf ?u" using msgq_wf_upd [OF wt tp, of ?f] by simp
  have "msgq_find (mq_caps t) l (mq_cap_list t) = Some (Some p)"
    using msgq_find_Some [OF wt] tp e(2) by force
  then have "gh_msgq_reset_cap_info l GH_MSGQ_DIRECTION_RX True t = Done (0, Some irq) ?u"
    using l tp assms(3) by (simp add: gh_msgq_reset_cap_info_def)
  moreover have "msgq_owner ?u = msgq_owner s"
  proof -
    have nw: "mq_client_desc f = None" if "mq_caps s q = None" "mq_caps v q = Some f" for q f
      using new e that by (cases "q = p") auto
    have "msgq_owner v = msgq_owner s"
      by (rule msgq_get_entry_owner [OF assms(1) rv(2)]) (use keep nw in auto)
    moreover have "msgq_owner ?u = (msgq_owner v)(mq_label e := mq_client_desc ?f)"
      by (rule msgq_owner_upd [OF rv(2) wu e(1)]) (simp_all add: t)
    ultimately show ?thesis using msgq_owner_entry [OF rv(2) e(1)] by (simp add: fun_eq_iff)
  qed
  ultimately show ?thesis using wu e(2)
    by (intro exI [of _ ?u] exI [of _ p] exI [of _ ?f]) simp
qed

theorem gh_msgq_populate_reset_roundtrip_witness:
  "\<exists>t u p e. gh_msgq_populate_cap_info (\<lambda>_. True) (\<lambda>_. 0) 3 99 GH_MSGQ_DIRECTION_RX 50 (msgq_init ()) = Done 0 t \<and>
     gh_msgq_reset_cap_info 3 GH_MSGQ_DIRECTION_RX True t = Done (0, Some 50) u \<and> msgq_wf u \<and>
     msgq_owner u = msgq_owner (msgq_init ()) \<and> mq_caps u p = Some e \<and> mq_label e = 3 \<and>
     mq_rx_cap_id e = GH_CAPID_INVAL \<and> mq_rx_irq e = 0 \<and> (50, p) \<notin> set (mq_irqs u)"
proof -
  obtain t where t: "gh_msgq_populate_cap_info (\<lambda>_. True) (\<lambda>_. 0) 3 99 GH_MSGQ_DIRECTION_RX 50 (msgq_init ()) = Done 0 t"
    by (simp add: gh_msgq_populate_cap_info_def msgq_get_entry_def gh_msgq_alloc_entry_def msgq_init_def Let_def)
  have "\<exists>u p e. gh_msgq_reset_cap_info 3 GH_MSGQ_DIRECTION_RX True t = Done (0, Some 50) u \<and> msgq_wf u \<and>
     msgq_owner u = msgq_owner (msgq_init ()) \<and> mq_caps u p = Some e \<and> mq_label e = 3 \<and>
     mq_rx_cap_id e = GH_CAPID_INVAL \<and> mq_rx_irq e = 0 \<and> (50, p) \<notin> set (mq_irqs u)"
    by (rule gh_msgq_populate_reset_roundtrip [OF msgq_wf_init t]) simp
  with t show ?thesis by metis
qed

end
