(* ===== verification/Doorbell.thy ===== *)
theory Doorbell
  imports Gh_Errno
begin

text \<open>
  The doorbell driver (\<^verbatim>\<open>drivers/virt/gunyah/gh_dbl.c\<close>). The capability table is a fixed
  array indexed by label; the transmit and the receive client of a label share one descriptor,
  which lives in an explicit heap. Results of calls that leave the driver are parameters:
  \<open>ka i\<close> tells whether the \<open>i\<close>-th \<^verbatim>\<open>kasprintf\<close> succeeds, \<open>kz\<close> whether \<^verbatim>\<open>kzalloc\<close> does, \<open>rq irq\<close>
  is what \<^verbatim>\<open>request_threaded_irq\<close> returns, and the four doorbell hypercalls are the fields of a
  record over an abstract hypervisor state.
\<close>

section \<open>State\<close>

abbreviation (input) GH_DBL_LABEL_MAX :: int where "GH_DBL_LABEL_MAX \<equiv> 9"
abbreviation (input) GH_DBL_DIRECTION_TX :: int where "GH_DBL_DIRECTION_TX \<equiv> 0"
abbreviation (input) GH_DBL_DIRECTION_RX :: int where "GH_DBL_DIRECTION_RX \<equiv> 1"
abbreviation (input) GH_DBL_NONBLOCK :: u64 where "GH_DBL_NONBLOCK \<equiv> 0x100000000"

record gh_dbl_desc =
  dbd_label :: int

record gh_dbl_cap_table =
  db_client_desc :: "ptr option"
  db_tx_cap_id :: gh_capid_t
  db_tx_reg_done :: bool
  db_rx_cap_id :: gh_capid_t
  db_rx_irq :: int
  db_rx_reg_done :: bool
  db_rx_irq_name :: "nat option"
  db_rx_callback :: "ptr option"
  db_rx_priv_data :: "ptr option"

record 'h dbl_state =
  gh_dbl_initialized :: bool
  db_table :: "gh_dbl_cap_table list"
  db_descs :: "ptr \<Rightarrow> gh_dbl_desc option"
  db_next :: ptr
  db_names :: "nat list"
  db_irqs :: "(int \<times> nat) list"
  db_hyp :: 'h

record 'h dbl_hcall =
  hc_dbl_recv :: "gh_capid_t \<Rightarrow> u64 \<Rightarrow> 'h \<Rightarrow> (int \<times> u64) \<times> 'h"
  hc_dbl_mask :: "gh_capid_t \<Rightarrow> u64 \<Rightarrow> u64 \<Rightarrow> 'h \<Rightarrow> int \<times> 'h"
  hc_dbl_send :: "gh_capid_t \<Rightarrow> u64 \<Rightarrow> 'h \<Rightarrow> (int \<times> u64) \<times> 'h"
  hc_dbl_reset :: "gh_capid_t \<Rightarrow> 'h \<Rightarrow> int \<times> 'h"

definition dbl_zero_entry :: gh_dbl_cap_table where
  "dbl_zero_entry = \<lparr>db_client_desc = None, db_tx_cap_id = 0, db_tx_reg_done = False, db_rx_cap_id = 0,
     db_rx_irq = 0, db_rx_reg_done = False, db_rx_irq_name = None, db_rx_callback = None, db_rx_priv_data = None\<rparr>"

definition dbl_boot :: "'h \<Rightarrow> 'h dbl_state" where
  "dbl_boot h = \<lparr>gh_dbl_initialized = False, db_table = replicate (nat GH_DBL_LABEL_MAX) dbl_zero_entry,
     db_descs = Map.empty, db_next = 1, db_names = [], db_irqs = [], db_hyp = h\<rparr>"

definition dbl_entry :: "int \<Rightarrow> 'h dbl_state \<Rightarrow> gh_dbl_cap_table" where
  "dbl_entry l s = db_table s ! nat l"

definition dbl_set :: "int \<Rightarrow> gh_dbl_cap_table \<Rightarrow> 'h dbl_state \<Rightarrow> 'h dbl_state" where
  "dbl_set l e s = s\<lparr>db_table := (db_table s)[nat l := e]\<rparr>"

definition dbl_label_ok :: "int \<Rightarrow> bool" where
  "dbl_label_ok l \<longleftrightarrow> 0 \<le> l \<and> l < GH_DBL_LABEL_MAX"

section \<open>Module initialisation\<close>

text \<open>\<^verbatim>\<open>for (i = begin_idx; i >= 0; i--)\<close>: the argument is the number of entries left to visit.\<close>

fun dbl_cleanup_loop :: "nat \<Rightarrow> 'h dbl_state \<Rightarrow> 'h dbl_state" where
  "dbl_cleanup_loop 0 s = s"
| "dbl_cleanup_loop (Suc i) s =
     dbl_cleanup_loop i
       (case db_rx_irq_name (dbl_entry (int i) s) of
          None \<Rightarrow> s
        | Some n \<Rightarrow> s\<lparr>db_names := removeAll n (db_names s)\<rparr>)"

definition gh_dbl_cleanup :: "int \<Rightarrow> 'h dbl_state \<Rightarrow> 'h dbl_state" where
  "gh_dbl_cleanup begin_idx s =
     (let begin_idx = (if GH_DBL_LABEL_MAX \<le> begin_idx then GH_DBL_LABEL_MAX - 1 else begin_idx)
      in dbl_cleanup_loop (nat (begin_idx + 1)) s)"

function gh_dbl_init_loop :: "(nat \<Rightarrow> bool) \<Rightarrow> int \<Rightarrow> 'h dbl_state \<Rightarrow> int \<times> 'h dbl_state" where
  "gh_dbl_init_loop ka i s =
     (if i < GH_DBL_LABEL_MAX then
        let e = (dbl_entry i s)\<lparr>db_tx_cap_id := GH_CAPID_INVAL, db_rx_cap_id := GH_CAPID_INVAL\<rparr> in
        if ka (nat i) then
          gh_dbl_init_loop ka (i + 1)
            (dbl_set i (e\<lparr>db_rx_irq_name := Some (nat i)\<rparr>) s\<lparr>db_names := nat i # db_names s\<rparr>)
        else (- ENOMEM, gh_dbl_cleanup i (dbl_set i (e\<lparr>db_rx_irq_name := None\<rparr>) s))
      else (0, s\<lparr>gh_dbl_initialized := True\<rparr>))"
  by pat_completeness auto
termination by (relation "measure (\<lambda>(ka, i, s). nat (GH_DBL_LABEL_MAX - i))") auto

declare gh_dbl_init_loop.simps [simp del]

definition gh_dbl_init :: "(nat \<Rightarrow> bool) \<Rightarrow> 'h dbl_state \<Rightarrow> int \<times> 'h dbl_state" where
  "gh_dbl_init ka s = gh_dbl_init_loop ka 0 s"

definition gh_dbl_exit :: "'h dbl_state \<Rightarrow> 'h dbl_state" where
  "gh_dbl_exit s = gh_dbl_cleanup (GH_DBL_LABEL_MAX - 1) s"

section \<open>Capability information from the Resource Manager\<close>

definition gh_dbl_populate_cap_info ::
  "(int \<Rightarrow> int) \<Rightarrow> int \<Rightarrow> u64 \<Rightarrow> int \<Rightarrow> int \<Rightarrow> 'h dbl_state \<Rightarrow> int \<times> 'h dbl_state" where
  "gh_dbl_populate_cap_info rq label cap_id direction rx_irq s =
     (if \<not> gh_dbl_initialized s then (- EAGAIN, s)
      else if \<not> dbl_label_ok label then (- EINVAL, s)
      else let e = dbl_entry label s in
        if direction = GH_DBL_DIRECTION_TX then
          (if 0 < rx_irq then (- ENXIO, s)
           else (0, dbl_set label (e\<lparr>db_tx_cap_id := cap_id\<rparr>) s))
        else if direction = GH_DBL_DIRECTION_RX then
          (if rx_irq \<le> 0 then (- ENXIO, s)
           else let e = e\<lparr>db_rx_irq := rx_irq\<rparr>; ret = rq rx_irq in
             if ret < 0 then (ret, dbl_set label e s)
             else (ret, dbl_set label (e\<lparr>db_rx_cap_id := cap_id\<rparr>) s\<lparr>db_irqs := (rx_irq, nat label) # db_irqs s\<rparr>))
        else (- EINVAL, s))"

text \<open>The second component of the result is what is stored through \<^verbatim>\<open>int *irq\<close>, if anything is.\<close>

definition gh_dbl_reset_cap_info ::
  "int \<Rightarrow> int \<Rightarrow> bool \<Rightarrow> 'h dbl_state \<Rightarrow> (int \<times> int option) \<times> 'h dbl_state" where
  "gh_dbl_reset_cap_info label direction irq_ok s =
     (if \<not> gh_dbl_initialized s then ((- EAGAIN, None), s)
      else if \<not> dbl_label_ok label then ((- EINVAL, None), s)
      else if \<not> irq_ok then ((- EINVAL, None), s)
      else let e = dbl_entry label s in
        if direction = GH_DBL_DIRECTION_TX then
          ((0, Some 0), dbl_set label (e\<lparr>db_tx_cap_id := GH_CAPID_INVAL\<rparr>) s)
        else if direction = GH_DBL_DIRECTION_RX then
          (if db_rx_irq e = 0 then ((- ENXIO, None), s)
           else ((0, Some (db_rx_irq e)),
                 dbl_set label (e\<lparr>db_rx_irq := 0, db_rx_cap_id := GH_CAPID_INVAL\<rparr>) s
                   \<lparr>db_irqs := removeAll (db_rx_irq e, nat label) (db_irqs s)\<rparr>))
        else ((- EINVAL, None), s))"

section \<open>Registration\<close>

text \<open>
  The common part of both registration functions: reuse the descriptor the other direction
  already holds, or allocate one.
\<close>

definition dbl_take_desc :: "bool \<Rightarrow> int \<Rightarrow> 'h dbl_state \<Rightarrow> (int + ptr) \<times> 'h dbl_state" where
  "dbl_take_desc kz label s =
     (case db_client_desc (dbl_entry label s) of
        Some d \<Rightarrow> (Inr d, s)
      | None \<Rightarrow>
          if \<not> kz then (Inl (- ENOMEM), s)
          else let d = db_next s in
            (Inr d, dbl_set label ((dbl_entry label s)\<lparr>db_client_desc := Some d\<rparr>)
                      (s\<lparr>db_descs := (db_descs s)(d \<mapsto> \<lparr>dbd_label = label\<rparr>), db_next := d + 1\<rparr>)))"

definition gh_dbl_tx_register :: "bool \<Rightarrow> int \<Rightarrow> 'h dbl_state \<Rightarrow> (int + ptr) \<times> 'h dbl_state" where
  "gh_dbl_tx_register kz label s =
     (if \<not> dbl_label_ok label then (Inl (- EINVAL), s)
      else if \<not> gh_dbl_initialized s then (Inl (- EPROBE_DEFER), s)
      else if db_tx_reg_done (dbl_entry label s) then (Inl (- EBUSY), s)
      else case dbl_take_desc kz label s of
        (Inl err, s) \<Rightarrow> (Inl err, s)
      | (Inr d, s) \<Rightarrow> (Inr d, dbl_set label ((dbl_entry label s)\<lparr>db_tx_reg_done := True\<rparr>) s))"

definition gh_dbl_rx_register ::
  "bool \<Rightarrow> int \<Rightarrow> ptr option \<Rightarrow> ptr option \<Rightarrow> 'h dbl_state \<Rightarrow> (int + ptr) \<times> 'h dbl_state" where
  "gh_dbl_rx_register kz label rx_cb priv s =
     (if \<not> dbl_label_ok label then (Inl (- EINVAL), s)
      else if \<not> gh_dbl_initialized s then (Inl (- EPROBE_DEFER), s)
      else if db_rx_reg_done (dbl_entry label s) then (Inl (- EBUSY), s)
      else case dbl_take_desc kz label s of
        (Inl err, s) \<Rightarrow> (Inl err, s)
      | (Inr d, s) \<Rightarrow>
          (Inr d, dbl_set label ((dbl_entry label s)\<lparr>db_rx_callback := rx_cb, db_rx_priv_data := priv,
                                                    db_rx_reg_done := True\<rparr>) s))"

definition gh_dbl_tx_unregister :: "ptr option \<Rightarrow> 'h dbl_state \<Rightarrow> (int, 'h dbl_state) outcome" where
  "gh_dbl_tx_unregister client_desc s =
     (case client_desc of
        None \<Rightarrow> Done (- EINVAL) s
      | Some d \<Rightarrow>
          (case db_descs s d of
             None \<Rightarrow> Fault
           | Some dd \<Rightarrow>
               let l = dbd_label dd; e = dbl_entry l s in
               if \<not> dbl_label_ok l then Done (- EINVAL) s
               else if db_client_desc e \<noteq> Some d then Done (- EINVAL) s
               else if \<not> db_rx_reg_done e then
                 Done 0 (dbl_set l (e\<lparr>db_client_desc := None, db_tx_reg_done := False\<rparr>) s
                           \<lparr>db_descs := (db_descs s)(d := None)\<rparr>)
               else Done 0 (dbl_set l (e\<lparr>db_tx_reg_done := False\<rparr>) s)))"

definition gh_dbl_rx_unregister :: "ptr option \<Rightarrow> 'h dbl_state \<Rightarrow> (int, 'h dbl_state) outcome" where
  "gh_dbl_rx_unregister client_desc s =
     (case client_desc of
        None \<Rightarrow> Done (- EINVAL) s
      | Some d \<Rightarrow>
          (case db_descs s d of
             None \<Rightarrow> Fault
           | Some dd \<Rightarrow>
               let l = dbd_label dd; e = dbl_entry l s;
                   e' = e\<lparr>db_rx_callback := None, db_rx_priv_data := None, db_rx_reg_done := False\<rparr> in
               if \<not> dbl_label_ok l then Done (- EINVAL) s
               else if db_client_desc e \<noteq> Some d then Done (- EINVAL) s
               else if \<not> db_tx_reg_done e then
                 Done 0 (dbl_set l (e'\<lparr>db_client_desc := None\<rparr>) s\<lparr>db_descs := (db_descs s)(d := None)\<rparr>)
               else Done 0 (dbl_set l e' s)))"

text \<open>The interrupt thread calls the client's callback, if there is one, with its private data.\<close>

definition gh_dbl_rx_callback_thread :: "int \<Rightarrow> nat \<Rightarrow> 'h dbl_state \<Rightarrow> (ptr \<times> int \<times> ptr option) option" where
  "gh_dbl_rx_callback_thread irq idx s =
     (case db_rx_callback (db_table s ! idx) of
        None \<Rightarrow> None
      | Some cb \<Rightarrow> Some (cb, irq, db_rx_priv_data (db_table s ! idx)))"

section \<open>Doorbell operations\<close>

datatype 'h dbl_event =
    Db_populate "int \<Rightarrow> int" int u64 int int
  | Db_tx_unregister ptr
  | Db_rx_unregister ptr
  | Db_hyp "'h \<Rightarrow> 'h"

fun dbl_env :: "'h dbl_event \<Rightarrow> 'h dbl_state \<Rightarrow> 'h dbl_state" where
  "dbl_env (Db_populate rq l cap dir irq) s = snd (gh_dbl_populate_cap_info rq l cap dir irq s)"
| "dbl_env (Db_tx_unregister d) s = outcome_state s (gh_dbl_tx_unregister (Some d) s)"
| "dbl_env (Db_rx_unregister d) s = outcome_state s (gh_dbl_rx_unregister (Some d) s)"
| "dbl_env (Db_hyp f) s = s\<lparr>db_hyp := f (db_hyp s)\<rparr>"

definition gh_dbl_validate_params ::
  "ptr option \<Rightarrow> int \<Rightarrow> u64 \<Rightarrow> 'h dbl_state \<Rightarrow> 'h dbl_event task_event list \<Rightarrow> (int, 'h dbl_state) outcome" where
  "gh_dbl_validate_params client_desc dir flags s es =
     (case client_desc of
        None \<Rightarrow> Done (- EINVAL) s
      | Some d \<Rightarrow>
          (case db_descs s d of
             None \<Rightarrow> Fault
           | Some dd \<Rightarrow>
               let l = dbd_label dd; e = dbl_entry l s in
               if \<not> dbl_label_ok l then Done (- EINVAL) s
               else if db_client_desc e \<noteq> Some d then Done (- EINVAL) s
               else if dir = GH_DBL_DIRECTION_RX then
                 (if \<not> db_rx_reg_done e then Done (- EINVAL) s
                  else if db_rx_cap_id e = GH_CAPID_INVAL \<and> has_flag flags GH_DBL_NONBLOCK then Done (- EAGAIN) s
                  else case wait_event_interruptible dbl_env (\<lambda>s. db_rx_cap_id (dbl_entry l s) \<noteq> GH_CAPID_INVAL) s es of
                         Woken t _ \<Rightarrow> Done 0 t
                       | Interrupted t _ \<Rightarrow> Done (- ERESTARTSYS) t
                       | Asleep t \<Rightarrow> Blocked t)
               else
                 (if \<not> db_tx_reg_done e then Done (- EINVAL) s
                  else if db_tx_cap_id e = GH_CAPID_INVAL \<and> has_flag flags GH_DBL_NONBLOCK then Done (- EAGAIN) s
                  else case wait_event_interruptible dbl_env (\<lambda>s. db_tx_cap_id (dbl_entry l s) \<noteq> GH_CAPID_INVAL) s es of
                         Woken t _ \<Rightarrow> Done 0 t
                       | Interrupted t _ \<Rightarrow> Done (- ERESTARTSYS) t
                       | Asleep t \<Rightarrow> Blocked t)))"

text \<open>After validation the operations read the label through the descriptor again.\<close>

definition dbl_client_entry :: "ptr option \<Rightarrow> 'h dbl_state \<Rightarrow> gh_dbl_cap_table option" where
  "dbl_client_entry client_desc s =
     (case client_desc of None \<Rightarrow> None
      | Some d \<Rightarrow> map_option (\<lambda>dd. dbl_entry (dbd_label dd) s) (db_descs s d))"

text \<open>
  For the two operations with an in-out flags argument the argument is the value behind the
  pointer (\<open>None\<close> for NULL), and the second component of the result is the value left there.
\<close>

definition gh_dbl_read_and_clean ::
  "'h dbl_hcall \<Rightarrow> ptr option \<Rightarrow> u64 option \<Rightarrow> u64 \<Rightarrow> 'h dbl_state \<Rightarrow> 'h dbl_event task_event list \<Rightarrow>
   (int \<times> u64 option, 'h dbl_state) outcome" where
  "gh_dbl_read_and_clean hv client_desc clear_flags flags s es =
     (case clear_flags of
        None \<Rightarrow> Done (- EINVAL, None) s
      | Some cf \<Rightarrow>
          obind (gh_dbl_validate_params client_desc GH_DBL_DIRECTION_RX flags s es) (\<lambda>ret s.
            if ret \<noteq> 0 then Done (ret, Some cf) s
            else case dbl_client_entry client_desc s of
              None \<Rightarrow> Fault
            | Some e \<Rightarrow>
                (case hc_dbl_recv hv (db_rx_cap_id e) cf (db_hyp s) of
                   ((gh_ret, old_flags), h) \<Rightarrow>
                     Done (gh_remap_error gh_ret,
                           Some (if gh_remap_error gh_ret \<noteq> 0 then cf else old_flags)) (s\<lparr>db_hyp := h\<rparr>))))"

definition gh_dbl_set_mask ::
  "'h dbl_hcall \<Rightarrow> ptr option \<Rightarrow> u64 \<Rightarrow> u64 \<Rightarrow> u64 \<Rightarrow> 'h dbl_state \<Rightarrow> 'h dbl_event task_event list \<Rightarrow>
   (int, 'h dbl_state) outcome" where
  "gh_dbl_set_mask hv client_desc enable_mask ack_mask flags s es =
     obind (gh_dbl_validate_params client_desc GH_DBL_DIRECTION_RX flags s es) (\<lambda>ret s.
       if ret \<noteq> 0 then Done ret s
       else case dbl_client_entry client_desc s of
         None \<Rightarrow> Fault
       | Some e \<Rightarrow>
           (case hc_dbl_mask hv (db_rx_cap_id e) enable_mask ack_mask (db_hyp s) of
              (gh_ret, h) \<Rightarrow> Done (gh_remap_error gh_ret) (s\<lparr>db_hyp := h\<rparr>)))"

definition gh_dbl_send ::
  "'h dbl_hcall \<Rightarrow> ptr option \<Rightarrow> u64 option \<Rightarrow> u64 \<Rightarrow> 'h dbl_state \<Rightarrow> 'h dbl_event task_event list \<Rightarrow>
   (int \<times> u64 option, 'h dbl_state) outcome" where
  "gh_dbl_send hv client_desc newflags flags s es =
     (case newflags of
        None \<Rightarrow> Done (- EINVAL, None) s
      | Some nf \<Rightarrow>
          obind (gh_dbl_validate_params client_desc GH_DBL_DIRECTION_TX flags s es) (\<lambda>ret s.
            if ret \<noteq> 0 then Done (ret, Some nf) s
            else case dbl_client_entry client_desc s of
              None \<Rightarrow> Fault
            | Some e \<Rightarrow>
                (case hc_dbl_send hv (db_tx_cap_id e) nf (db_hyp s) of
                   ((gh_ret, old_flags), h) \<Rightarrow>
                     Done (gh_remap_error gh_ret,
                           Some (if gh_remap_error gh_ret \<noteq> 0 then nf else old_flags)) (s\<lparr>db_hyp := h\<rparr>))))"

definition gh_dbl_reset ::
  "'h dbl_hcall \<Rightarrow> ptr option \<Rightarrow> u64 \<Rightarrow> 'h dbl_state \<Rightarrow> 'h dbl_event task_event list \<Rightarrow>
   (int, 'h dbl_state) outcome" where
  "gh_dbl_reset hv client_desc flags s es =
     obind (gh_dbl_validate_params client_desc GH_DBL_DIRECTION_RX flags s es) (\<lambda>ret s.
       if ret \<noteq> 0 then Done ret s
       else case dbl_client_entry client_desc s of
         None \<Rightarrow> Fault
       | Some e \<Rightarrow>
           (case hc_dbl_reset hv (db_rx_cap_id e) (db_hyp s) of
              (gh_ret, h) \<Rightarrow> Done (gh_remap_error gh_ret) (s\<lparr>db_hyp := h\<rparr>)))"

end
