(* ===== verification/Doorbell_Correct.thy ===== *)
theory Doorbell_Correct
  imports Doorbell
begin

text \<open>
  Correctness of the doorbell driver: the invariant that ties the shared descriptor of a label
  to its two registration flags, exclusive registration in each direction, the life time of
  the descriptor, and the behaviour of the four doorbell operations.
\<close>

section \<open>Invariant\<close>

definition dbl_entry_ok :: "'h dbl_state \<Rightarrow> int \<Rightarrow> gh_dbl_cap_table \<Rightarrow> bool" where
  "dbl_entry_ok s l e \<longleftrightarrow>
     (db_client_desc e = None \<longleftrightarrow> \<not> db_tx_reg_done e \<and> \<not> db_rx_reg_done e) \<and>
     (\<forall>d. db_client_desc e = Some d \<longrightarrow> db_descs s d = Some \<lparr>dbd_label = l\<rparr> \<and> gh_dbl_initialized s) \<and>
     (\<not> db_rx_reg_done e \<longrightarrow> db_rx_callback e = None)"

definition dbl_wf :: "'h dbl_state \<Rightarrow> bool" where
  "dbl_wf s \<longleftrightarrow> length (db_table s) = nat GH_DBL_LABEL_MAX \<and>
     (\<forall>l. dbl_label_ok l \<longrightarrow> dbl_entry_ok s l (dbl_entry l s)) \<and>
     (\<forall>d dd. db_descs s d = Some dd \<longrightarrow> d < db_next s \<and> dbl_label_ok (dbd_label dd) \<and>
        db_client_desc (dbl_entry (dbd_label dd) s) = Some d)"

lemma dbl_wfD:
  assumes "dbl_wf s"
  shows "length (db_table s) = 9"
    and "\<And>l. dbl_label_ok l \<Longrightarrow> dbl_entry_ok s l (dbl_entry l s)"
    and "\<And>d dd. db_descs s d = Some dd \<Longrightarrow> d < db_next s \<and> dbl_label_ok (dbd_label dd) \<and>
        db_client_desc (dbl_entry (dbd_label dd) s) = Some d"
  using assms by (auto simp: dbl_wf_def)

lemma dbl_wfI:
  assumes "length (db_table s) = 9"
    and "\<And>l. dbl_label_ok l \<Longrightarrow> dbl_entry_ok s l (dbl_entry l s)"
    and "\<And>d dd. db_descs s d = Some dd \<Longrightarrow> d < db_next s \<and> dbl_label_ok (dbd_label dd) \<and>
        db_client_desc (dbl_entry (dbd_label dd) s) = Some d"
  shows "dbl_wf s"
  using assms by (simp add: dbl_wf_def)

lemma dbl_set_set [simp]: "dbl_set l e (dbl_set l e' s) = dbl_set l e s"
  by (simp add: dbl_set_def)

lemma dbl_entry_set [simp]:
  assumes "length (db_table s) = 9" "dbl_label_ok l" "dbl_label_ok l'"
  shows "dbl_entry l' (dbl_set l e s) = (if l' = l then e else dbl_entry l' s)"
  using assms by (auto simp: dbl_entry_def dbl_set_def dbl_label_ok_def nth_list_update)

lemma dbl_set_fields [simp]:
  "length (db_table (dbl_set l e s)) = length (db_table s)" "db_descs (dbl_set l e s) = db_descs s"
  "db_next (dbl_set l e s) = db_next s" "db_hyp (dbl_set l e s) = db_hyp s"
  "gh_dbl_initialized (dbl_set l e s) = gh_dbl_initialized s" "db_irqs (dbl_set l e s) = db_irqs s"
  "db_names (dbl_set l e s) = db_names s"
  by (simp_all add: dbl_set_def)

lemma dbl_entry_fields [simp]:
  "dbl_entry l (s\<lparr>db_descs := d\<rparr>) = dbl_entry l s" "dbl_entry l (s\<lparr>db_next := n\<rparr>) = dbl_entry l s"
  "dbl_entry l (s\<lparr>db_hyp := h\<rparr>) = dbl_entry l s" "dbl_entry l (s\<lparr>db_irqs := i\<rparr>) = dbl_entry l s"
  "dbl_entry l (s\<lparr>db_names := ns\<rparr>) = dbl_entry l s"
  "dbl_entry l (s\<lparr>gh_dbl_initialized := b\<rparr>) = dbl_entry l s"
  by (simp_all add: dbl_entry_def)

lemma dbl_wf_fields [simp]:
  "dbl_wf (s\<lparr>db_hyp := h\<rparr>) = dbl_wf s" "dbl_wf (s\<lparr>db_irqs := i\<rparr>) = dbl_wf s"
  by (simp_all add: dbl_wf_def dbl_entry_ok_def)

text \<open>An entry may be rewritten freely as long as it keeps its descriptor and stays consistent.\<close>

lemma dbl_wf_set:
  assumes "dbl_wf s" "dbl_label_ok l" "dbl_entry_ok s l e" "db_client_desc e = db_client_desc (dbl_entry l s)"
  shows "dbl_wf (dbl_set l e s)"
  using assms dbl_wfD [OF assms(1)] by (auto simp: dbl_wf_def dbl_entry_ok_def)

lemma dbl_wf_attach:
  assumes "dbl_wf s" "dbl_label_ok l" "db_client_desc (dbl_entry l s) = None" "gh_dbl_initialized s"
    and "db_client_desc e = Some (db_next s)" "db_tx_reg_done e \<or> db_rx_reg_done e"
      "\<not> db_rx_reg_done e \<longrightarrow> db_rx_callback e = None"
  shows "dbl_wf (dbl_set l e (s\<lparr>db_descs := (db_descs s)(db_next s \<mapsto> \<lparr>dbd_label = l\<rparr>), db_next := db_next s + 1\<rparr>))"
proof -
  have new: "db_client_desc (dbl_entry l' s) \<noteq> Some (db_next s)" if "dbl_label_ok l'" for l'
    using dbl_wfD(2) [OF assms(1) that] dbl_wfD(3) [OF assms(1)] by (fastforce simp: dbl_entry_ok_def)
  note len = dbl_wfD(1) [OF assms(1)]
  show ?thesis
  proof (rule dbl_wfI, goal_cases)
    case 1
    then show ?case using len by simp
  next
    case (2 l')
    then show ?case using assms dbl_wfD(2) [OF assms(1) 2] new [OF 2] len
      by (auto simp: dbl_entry_ok_def)
  next
    case (3 d dd)
    then show ?case
    proof (cases "d = db_next s")
      case True
      with 3 show ?thesis using assms(2,5) len by auto
    next
      case False
      with 3 have d: "db_descs s d = Some dd" by simp
      have "dbd_label dd \<noteq> l" using dbl_wfD(3) [OF assms(1) d] assms(3) by auto
      with dbl_wfD(3) [OF assms(1) d] show ?thesis using assms(2) len by simp
    qed
  qed
qed

lemma dbl_wf_detach:
  assumes "dbl_wf s" "dbl_label_ok l" "db_client_desc (dbl_entry l s) = Some d"
    and "db_client_desc e = None" "\<not> db_tx_reg_done e" "\<not> db_rx_reg_done e" "db_rx_callback e = None"
  shows "dbl_wf (dbl_set l e s\<lparr>db_descs := (db_descs s)(d := None)\<rparr>)"
proof -
  have d: "db_descs s d = Some \<lparr>dbd_label = l\<rparr>"
    using dbl_wfD(2) [OF assms(1,2)] assms(3) by (auto simp: dbl_entry_ok_def)
  have other: "db_client_desc (dbl_entry l' s) \<noteq> Some d" if "dbl_label_ok l'" "l' \<noteq> l" for l'
    using dbl_wfD(2) [OF assms(1) that(1)] d that(2) by (auto simp: dbl_entry_ok_def)
  have uniq: "dbd_label dd \<noteq> l" if "db_descs s x = Some dd" "x \<noteq> d" for x dd
    using dbl_wfD(3) [OF assms(1) that(1)] assms(3) that(2) by auto
  show ?thesis
    using assms dbl_wfD [OF assms(1)] other uniq
    by (fastforce simp: dbl_wf_def dbl_entry_ok_def)
qed

section \<open>Registration\<close>

definition dbl_tx_owner :: "'h dbl_state \<Rightarrow> int \<Rightarrow> ptr option" where
  "dbl_tx_owner s l = (if dbl_label_ok l \<and> db_tx_reg_done (dbl_entry l s) then db_client_desc (dbl_entry l s) else None)"

definition dbl_rx_owner :: "'h dbl_state \<Rightarrow> int \<Rightarrow> ptr option" where
  "dbl_rx_owner s l = (if dbl_label_ok l \<and> db_rx_reg_done (dbl_entry l s) then db_client_desc (dbl_entry l s) else None)"

lemma dbl_owner_label:
  assumes "dbl_wf s"
  shows "dbl_tx_owner s l = Some d \<Longrightarrow> dbl_label_ok l \<and> db_descs s d = Some \<lparr>dbd_label = l\<rparr>
      \<and> db_client_desc (dbl_entry l s) = Some d \<and> db_tx_reg_done (dbl_entry l s)"
    and "dbl_rx_owner s l = Some d \<Longrightarrow> dbl_label_ok l \<and> db_descs s d = Some \<lparr>dbd_label = l\<rparr>
      \<and> db_client_desc (dbl_entry l s) = Some d \<and> db_rx_reg_done (dbl_entry l s)"
  using dbl_wfD(2) [OF assms, of l]
  by (auto simp: dbl_tx_owner_def dbl_rx_owner_def dbl_entry_ok_def split: if_splits)

lemma dbl_tx_register_spec:
  assumes wf: "dbl_wf s" and r: "gh_dbl_tx_register kz l s = (r, t)"
  shows "dbl_wf t \<and> dbl_rx_owner t = dbl_rx_owner s \<and>
    (case r of Inl err \<Rightarrow> err < 0 \<and> t = s
     | Inr d \<Rightarrow> dbl_label_ok l \<and> dbl_tx_owner s l = None \<and> dbl_tx_owner t = (dbl_tx_owner s)(l \<mapsto> d) \<and>
         (\<forall>d'. dbl_rx_owner s l = Some d' \<longrightarrow> d' = d))"
proof (cases "\<exists>d. r = Inr d")
  case False
  with r wf show ?thesis
    by (auto simp: gh_dbl_tx_register_def dbl_take_desc_def Let_def split: if_splits option.splits sum.splits)
next
  case True
  then obtain d where d: "r = Inr d" by blast
  note len = dbl_wfD(1) [OF wf]
  from r d have g: "dbl_label_ok l" "gh_dbl_initialized s" "\<not> db_tx_reg_done (dbl_entry l s)"
    by (auto simp: gh_dbl_tx_register_def split: if_splits)
  note ok = dbl_wfD(2) [OF wf g(1)]
  show ?thesis
  proof (cases "db_client_desc (dbl_entry l s)")
    case None
    then have "dbl_wf t"
      using r d g ok len dbl_wf_attach [OF wf g(1) None g(2), of "(dbl_entry l s)\<lparr>db_client_desc := Some (db_next s), db_tx_reg_done := True\<rparr>"]
      by (auto simp: gh_dbl_tx_register_def dbl_take_desc_def Let_def dbl_entry_ok_def split: if_splits)
    with None r d g len ok show ?thesis
      by (auto simp: gh_dbl_tx_register_def dbl_take_desc_def Let_def dbl_tx_owner_def dbl_rx_owner_def fun_eq_iff
          dbl_entry_ok_def split: if_splits)
  next
    case (Some d')
    then have "dbl_wf t"
      using r d g ok dbl_wf_set [OF wf g(1), of "(dbl_entry l s)\<lparr>db_tx_reg_done := True\<rparr>"]
      by (auto simp: gh_dbl_tx_register_def dbl_take_desc_def dbl_entry_ok_def split: if_splits)
    with Some r d g len ok show ?thesis
      by (auto simp: gh_dbl_tx_register_def dbl_take_desc_def dbl_tx_owner_def dbl_rx_owner_def fun_eq_iff
          dbl_entry_ok_def split: if_splits)
  qed
qed

lemma dbl_rx_register_spec:
  assumes wf: "dbl_wf s" and r: "gh_dbl_rx_register kz l cb priv s = (r, t)"
  shows "dbl_wf t \<and> dbl_tx_owner t = dbl_tx_owner s \<and>
    (case r of Inl err \<Rightarrow> err < 0 \<and> t = s
     | Inr d \<Rightarrow> dbl_label_ok l \<and> dbl_rx_owner s l = None \<and> dbl_rx_owner t = (dbl_rx_owner s)(l \<mapsto> d) \<and>
         (\<forall>d'. dbl_tx_owner s l = Some d' \<longrightarrow> d' = d))"
proof (cases "\<exists>d. r = Inr d")
  case False
  with r wf show ?thesis
    by (auto simp: gh_dbl_rx_register_def dbl_take_desc_def Let_def split: if_splits option.splits sum.splits)
next
  case True
  then obtain d where d: "r = Inr d" by blast
  note len = dbl_wfD(1) [OF wf]
  from r d have g: "dbl_label_ok l" "gh_dbl_initialized s" "\<not> db_rx_reg_done (dbl_entry l s)"
    by (auto simp: gh_dbl_rx_register_def split: if_splits)
  note ok = dbl_wfD(2) [OF wf g(1)]
  show ?thesis
  proof (cases "db_client_desc (dbl_entry l s)")
    case None
    then have "dbl_wf t"
      using r d g ok len dbl_wf_attach [OF wf g(1) None g(2), of "(dbl_entry l s)\<lparr>db_client_desc := Some (db_next s), db_rx_callback := cb, db_rx_priv_data := priv, db_rx_reg_done := True\<rparr>"]
      by (auto simp: gh_dbl_rx_register_def dbl_take_desc_def Let_def dbl_entry_ok_def split: if_splits)
    with None r d g len ok show ?thesis
      by (auto simp: gh_dbl_rx_register_def dbl_take_desc_def Let_def dbl_rx_owner_def dbl_tx_owner_def fun_eq_iff
          dbl_entry_ok_def split: if_splits)
  next
    case (Some d')
    then have "dbl_wf t"
      using r d g ok dbl_wf_set [OF wf g(1), of "(dbl_entry l s)\<lparr>db_rx_callback := cb, db_rx_priv_data := priv, db_rx_reg_done := True\<rparr>"]
      by (auto simp: gh_dbl_rx_register_def dbl_take_desc_def dbl_entry_ok_def split: if_splits)
    with Some r d g len ok show ?thesis
      by (auto simp: gh_dbl_rx_register_def dbl_take_desc_def dbl_rx_owner_def dbl_tx_owner_def fun_eq_iff
          dbl_entry_ok_def split: if_splits)
  qed
qed

lemma dbl_tx_unregister_spec:
  assumes wf: "dbl_wf s" and own: "dbl_tx_owner s l = Some d"
  shows "\<exists>t. gh_dbl_tx_unregister (Some d) s = Done 0 t \<and> dbl_wf t \<and>
     dbl_tx_owner t = (dbl_tx_owner s)(l := None) \<and> dbl_rx_owner t = dbl_rx_owner s \<and>
     (db_descs t d = None \<longleftrightarrow> dbl_rx_owner s l = None)"
proof -
  note o = dbl_owner_label(1) [OF wf own]
  note len = dbl_wfD(1) [OF wf]
  note ok = dbl_wfD(2) [OF wf]
  show ?thesis
  proof (cases "db_rx_reg_done (dbl_entry l s)")
    case True
    let ?t = "dbl_set l ((dbl_entry l s)\<lparr>db_tx_reg_done := False\<rparr>) s"
    have "dbl_wf ?t" by (rule dbl_wf_set) (use wf o True ok [of l] in \<open>auto simp: dbl_entry_ok_def\<close>)
    with True o len show ?thesis
      by (auto simp: gh_dbl_tx_unregister_def Let_def dbl_tx_owner_def dbl_rx_owner_def fun_eq_iff)
  next
    case False
    let ?t = "dbl_set l ((dbl_entry l s)\<lparr>db_client_desc := None, db_tx_reg_done := False\<rparr>) s
       \<lparr>db_descs := (db_descs s)(d := None)\<rparr>"
    have "dbl_wf ?t" by (rule dbl_wf_detach) (use wf o False ok [of l] in \<open>auto simp: dbl_entry_ok_def\<close>)
    with False o len show ?thesis
      by (auto simp: gh_dbl_tx_unregister_def Let_def dbl_tx_owner_def dbl_rx_owner_def fun_eq_iff)
  qed
qed

lemma dbl_rx_unregister_spec:
  assumes wf: "dbl_wf s" and own: "dbl_rx_owner s l = Some d"
  shows "\<exists>t. gh_dbl_rx_unregister (Some d) s = Done 0 t \<and> dbl_wf t \<and>
     dbl_rx_owner t = (dbl_rx_owner s)(l := None) \<and> dbl_tx_owner t = dbl_tx_owner s \<and>
     (db_descs t d = None \<longleftrightarrow> dbl_tx_owner s l = None)"
proof -
  note o = dbl_owner_label(2) [OF wf own]
  note len = dbl_wfD(1) [OF wf]
  note ok = dbl_wfD(2) [OF wf]
  let ?e = "(dbl_entry l s)\<lparr>db_rx_callback := None, db_rx_priv_data := None, db_rx_reg_done := False\<rparr>"
  show ?thesis
  proof (cases "db_tx_reg_done (dbl_entry l s)")
    case True
    have "dbl_wf (dbl_set l ?e s)"
      by (rule dbl_wf_set) (use wf o True ok [of l] in \<open>auto simp: dbl_entry_ok_def\<close>)
    with True o len show ?thesis
      by (auto simp: gh_dbl_rx_unregister_def Let_def dbl_tx_owner_def dbl_rx_owner_def fun_eq_iff)
  next
    case False
    have "dbl_wf (dbl_set l (?e\<lparr>db_client_desc := None\<rparr>) s\<lparr>db_descs := (db_descs s)(d := None)\<rparr>)"
      by (rule dbl_wf_detach) (use wf o False ok [of l] in \<open>auto simp: dbl_entry_ok_def\<close>)
    with False o len show ?thesis
      by (auto simp: gh_dbl_rx_unregister_def Let_def dbl_tx_owner_def dbl_rx_owner_def fun_eq_iff)
  qed
qed

definition dbl_reg :: "(int + ptr) \<times> 's \<Rightarrow> (int + ptr, 's) outcome" where
  "dbl_reg rt = (case rt of (r, t) \<Rightarrow> Done r t)"

lemma dbl_reg_Done [simp]: "dbl_reg rt = Done r t \<longleftrightarrow> rt = (r, t)"
  by (cases rt) (simp add: dbl_reg_def)

interpretation dbl_tx: exclusive_registration dbl_wf dbl_label_ok dbl_tx_owner
  "\<lambda>l s. dbl_reg (gh_dbl_tx_register kz l s)" gh_dbl_tx_unregister
  for kz
proof (unfold_locales, goal_cases)
  case (1 s l)
  then show ?case by (cases "gh_dbl_tx_register kz l s") (auto dest: dbl_tx_register_spec)
next
  case (2 s l d t)
  then show ?case using dbl_tx_register_spec [OF 2(1), of kz l "Inr d" t] by simp
next
  case (3 s l e t)
  then show ?case using dbl_tx_register_spec [OF 3(1), of kz l "Inl e" t] by simp
next
  case (4 s l)
  then obtain d where "dbl_tx_owner s l = Some d" by auto
  from dbl_owner_label(1) [OF 4(1) this] dbl_wfD(2) [OF 4(1), of l] show ?case
    by (simp add: gh_dbl_tx_register_def dbl_entry_ok_def)
next
  case (5 s l d)
  then show ?case using dbl_tx_unregister_spec by blast
qed

interpretation dbl_rx: exclusive_registration dbl_wf dbl_label_ok dbl_rx_owner
  "\<lambda>l s. dbl_reg (gh_dbl_rx_register kz l cb priv s)" gh_dbl_rx_unregister
  for kz cb priv
proof (unfold_locales, goal_cases)
  case (1 s l)
  then show ?case by (cases "gh_dbl_rx_register kz l cb priv s") (auto dest: dbl_rx_register_spec)
next
  case (2 s l d t)
  then show ?case using dbl_rx_register_spec [OF 2(1), of kz l cb priv "Inr d" t] by simp
next
  case (3 s l e t)
  then show ?case using dbl_rx_register_spec [OF 3(1), of kz l cb priv "Inl e" t] by simp
next
  case (4 s l)
  then obtain d where "dbl_rx_owner s l = Some d" by auto
  from dbl_owner_label(2) [OF 4(1) this] dbl_wfD(2) [OF 4(1), of l] show ?case
    by (simp add: gh_dbl_rx_register_def dbl_entry_ok_def)
next
  case (5 s l d)
  then show ?case using dbl_rx_unregister_spec by blast
qed

section \<open>Initialisation\<close>

lemma dbl_cleanup_loop_keeps:
  "\<exists>ns. dbl_cleanup_loop n s = s\<lparr>db_names := ns\<rparr> \<and>
     set ns = set (db_names s) - {m. \<exists>i<n. db_rx_irq_name (dbl_entry (int i) s) = Some m}"
proof (induction n arbitrary: s)
  case 0
  then show ?case by (auto intro: exI [of _ "db_names s"])
next
  case (Suc n)
  show ?case
  proof (cases "db_rx_irq_name (dbl_entry (int n) s)")
    case None
    obtain ns where "dbl_cleanup_loop n s = s\<lparr>db_names := ns\<rparr>"
      "set ns = set (db_names s) - {m. \<exists>i<n. db_rx_irq_name (dbl_entry (int i) s) = Some m}"
      using Suc [of s] by blast
    with None show ?thesis by (intro exI [of _ ns]) (auto simp: less_Suc_eq)
  next
    case (Some m)
    obtain ns where "dbl_cleanup_loop n (s\<lparr>db_names := removeAll m (db_names s)\<rparr>) = s\<lparr>db_names := ns\<rparr>"
      "set ns = set (db_names s) - {m} - {m. \<exists>i<n. db_rx_irq_name (dbl_entry (int i) s) = Some m}"
      using Suc [of "s\<lparr>db_names := removeAll m (db_names s)\<rparr>"] by auto
    with Some show ?thesis by (intro exI [of _ ns]) (auto simp: less_Suc_eq)
  qed
qed

definition dbl_init_inv :: "int \<Rightarrow> 'h dbl_state \<Rightarrow> bool" where
  "dbl_init_inv i s \<longleftrightarrow> length (db_table s) = 9 \<and> \<not> gh_dbl_initialized s \<and> set (db_names s) = {..<nat i} \<and>
     db_descs s = Map.empty \<and> db_irqs s = [] \<and>
     (\<forall>l. dbl_label_ok l \<longrightarrow>
        db_client_desc (dbl_entry l s) = None \<and> \<not> db_tx_reg_done (dbl_entry l s) \<and>
        \<not> db_rx_reg_done (dbl_entry l s) \<and> db_rx_callback (dbl_entry l s) = None \<and>
        db_rx_irq (dbl_entry l s) = 0 \<and>
        db_rx_irq_name (dbl_entry l s) = (if l < i then Some (nat l) else None) \<and>
        (l < i \<longrightarrow> db_tx_cap_id (dbl_entry l s) = GH_CAPID_INVAL \<and> db_rx_cap_id (dbl_entry l s) = GH_CAPID_INVAL))"

definition dbl_ready :: "'h dbl_state \<Rightarrow> bool" where
  "dbl_ready s \<longleftrightarrow> dbl_wf s \<and> gh_dbl_initialized s \<and> db_descs s = Map.empty \<and> set (db_names s) = {..<9} \<and>
     (\<forall>l. dbl_label_ok l \<longrightarrow> db_rx_irq_name (dbl_entry l s) = Some (nat l) \<and>
        db_tx_cap_id (dbl_entry l s) = GH_CAPID_INVAL \<and> db_rx_cap_id (dbl_entry l s) = GH_CAPID_INVAL)"

lemma gh_dbl_init_loop_inv:
  assumes "dbl_init_inv i s" "0 \<le> i" "i \<le> 9"
  shows "case gh_dbl_init_loop ka i s of (r, t) \<Rightarrow>
    if (\<forall>j. nat i \<le> j \<and> j < 9 \<longrightarrow> ka j) then r = 0 \<and> dbl_ready t
    else r = - ENOMEM \<and> \<not> gh_dbl_initialized t \<and> db_names t = [] \<and> dbl_wf t"
  using assms
proof (induction ka i s rule: gh_dbl_init_loop.induct)
  case (1 ka i s)
  let ?e = "(dbl_entry i s)\<lparr>db_tx_cap_id := GH_CAPID_INVAL, db_rx_cap_id := GH_CAPID_INVAL\<rparr>"
  show ?case
  proof (cases "i < 9")
    case False
    with 1(4) have "i = 9" by simp
    with 1(2) show ?thesis
      by (auto simp: gh_dbl_init_loop.simps [of ka 9] dbl_init_inv_def dbl_ready_def dbl_wf_def dbl_entry_ok_def
          dbl_label_ok_def)
  next
    case i: True
    then have l: "dbl_label_ok i" using 1(3) by (simp add: dbl_label_ok_def)
    show ?thesis
    proof (cases "ka (nat i)")
      case True
      let ?s = "dbl_set i (?e\<lparr>db_rx_irq_name := Some (nat i)\<rparr>) s\<lparr>db_names := nat i # db_names s\<rparr>"
      have inv: "dbl_init_inv (i + 1) ?s"
        using 1(2,3) l unfolding dbl_init_inv_def by (auto simp: nat_add_distrib)
      have ex: "(\<forall>j. nat i \<le> j \<and> j < 9 \<longrightarrow> ka j) = (\<forall>j. nat (i + 1) \<le> j \<and> j < 9 \<longrightarrow> ka j)"
        using True 1(3) by (metis Suc_leI Suc_le_D Suc_nat_eq_nat_zadd1 add.commute le_SucI le_less nat_neq_iff Suc_leD not_le)
      show ?thesis
        using 1(1) [OF i refl True inv] i True 1(3) ex
        by (simp add: gh_dbl_init_loop.simps [of ka i s] Let_def)
    next
      case False
      let ?s = "dbl_set i (?e\<lparr>db_rx_irq_name := None\<rparr>) s"
      have "gh_dbl_init_loop ka i s = (- ENOMEM, dbl_cleanup_loop (nat (i + 1)) ?s)"
        using i False by (simp add: gh_dbl_init_loop.simps [of ka i s] gh_dbl_cleanup_def Let_def)
      moreover obtain ns where ns: "dbl_cleanup_loop (nat (i + 1)) ?s = ?s\<lparr>db_names := ns\<rparr>"
        "set ns = set (db_names ?s) - {m. \<exists>j<nat (i + 1). db_rx_irq_name (dbl_entry (int j) ?s) = Some m}"
        using dbl_cleanup_loop_keeps by blast
      have "ns = []"
      proof -
        have "m \<notin> set ns" if "m < nat i" for m
        proof -
          have "dbl_label_ok (int m)" using that i by (simp add: dbl_label_ok_def)
          then have "db_rx_irq_name (dbl_entry (int m) ?s) = Some m"
            using that 1(2) l by (auto simp: dbl_init_inv_def)
          then show ?thesis using that ns(2) by auto
        qed
        moreover have "set ns \<subseteq> {..<nat i}" using ns(2) 1(2) by (auto simp: dbl_init_inv_def)
        ultimately show ?thesis by (cases ns) auto
      qed
      moreover have "dbl_wf (?s\<lparr>db_names := ns\<rparr>)"
        using 1(2) l by (auto simp: dbl_wf_def dbl_init_inv_def dbl_entry_ok_def)
      moreover have "\<not> (\<forall>j. nat i \<le> j \<and> j < 9 \<longrightarrow> ka j)" using False i by auto
      ultimately show ?thesis using ns(1) 1(2) by (simp add: dbl_init_inv_def)
    qed
  qed
qed

lemma dbl_boot_inv: "dbl_init_inv 0 (dbl_boot h)"
  by (auto simp: dbl_init_inv_def dbl_boot_def dbl_entry_def dbl_label_ok_def dbl_zero_entry_def)

end
