(* ===== verification/Doorbell_IO.thy ===== *)
theory Doorbell_IO
  imports Doorbell_Correct
begin

text \<open>
  Properties of the doorbell driver: initialisation, exclusive registration and the life time
  of the shared descriptor, memory safety of the operations while a client sleeps, what a
  receiver reads after a sender rang, and the IRQ book-keeping on the population error path.
\<close>

section \<open>Other contexts keep a client's registration\<close>

lemma dbl_populate_wf [gh_inv]:
  assumes "dbl_wf s" and "gh_dbl_populate_cap_info rq l cap dir irq s = (r, t)"
  shows "dbl_wf t \<and> dbl_tx_owner t = dbl_tx_owner s \<and> dbl_rx_owner t = dbl_rx_owner s"
proof (cases "dbl_label_ok l")
  case False
  with assms show ?thesis by (auto simp: gh_dbl_populate_cap_info_def split: if_splits)
next
  case True
  note ok = dbl_wfD(2) [OF assms(1) True]
  have set: "dbl_wf (dbl_set l e s) \<and> dbl_tx_owner (dbl_set l e s) = dbl_tx_owner s \<and>
      dbl_rx_owner (dbl_set l e s) = dbl_rx_owner s"
    if "db_client_desc e = db_client_desc (dbl_entry l s)" "db_tx_reg_done e = db_tx_reg_done (dbl_entry l s)"
      "db_rx_reg_done e = db_rx_reg_done (dbl_entry l s)" "db_rx_callback e = db_rx_callback (dbl_entry l s)" for e
  proof -
    have "dbl_entry_ok s l e" using ok that by (simp add: dbl_entry_ok_def)
    then have "dbl_wf (dbl_set l e s)" using dbl_wf_set [OF assms(1) True] that by simp
    with that True dbl_wfD(1) [OF assms(1)] show ?thesis
      by (auto simp: dbl_tx_owner_def dbl_rx_owner_def fun_eq_iff)
  qed
  have irqs: "dbl_tx_owner (u\<lparr>db_irqs := x\<rparr>) = dbl_tx_owner u" "dbl_rx_owner (u\<lparr>db_irqs := x\<rparr>) = dbl_rx_owner u"
    for u :: "'a dbl_state" and x by (auto simp: dbl_tx_owner_def dbl_rx_owner_def fun_eq_iff)
  show ?thesis using assms True set
    by (auto simp: gh_dbl_populate_cap_info_def Let_def irqs split: if_splits)
qed

lemma dbl_tx_unregister_any [gh_inv]:
  assumes wf: "dbl_wf s" and r: "gh_dbl_tx_unregister (Some d) s = Done r t"
  shows "dbl_wf t \<and> dbl_rx_owner t = dbl_rx_owner s \<and> (\<forall>l. dbl_tx_owner s l \<noteq> Some d \<longrightarrow> dbl_tx_owner t l = dbl_tx_owner s l)"
proof -
  obtain dd where dd: "db_descs s d = Some dd"
    using r by (auto simp: gh_dbl_tx_unregister_def split: option.splits)
  let ?l = "dbd_label dd"
  have l: "dbl_label_ok ?l" "db_client_desc (dbl_entry ?l s) = Some d" using dbl_wfD(3) [OF wf dd] by auto
  show ?thesis
  proof (cases "db_tx_reg_done (dbl_entry ?l s)")
    case True
    with l have own: "dbl_tx_owner s ?l = Some d" by (simp add: dbl_tx_owner_def)
    from dbl_tx_unregister_spec [OF wf own] r own show ?thesis by auto
  next
    case False
    then have "db_rx_reg_done (dbl_entry ?l s)" using dbl_wfD(2) [OF wf l(1)] l(2) by (auto simp: dbl_entry_ok_def)
    moreover have "(dbl_entry ?l s)\<lparr>db_tx_reg_done := False\<rparr> = dbl_entry ?l s" using False by simp
    ultimately have "t = dbl_set ?l (dbl_entry ?l s) s"
      using r dd l by (auto simp: gh_dbl_tx_unregister_def Let_def)
    then show ?thesis using wf by (simp add: dbl_set_def dbl_entry_def)
  qed
qed

lemma dbl_rx_unregister_any [gh_inv]:
  assumes wf: "dbl_wf s" and r: "gh_dbl_rx_unregister (Some d) s = Done r t"
  shows "dbl_wf t \<and> dbl_tx_owner t = dbl_tx_owner s \<and> (\<forall>l. dbl_rx_owner s l \<noteq> Some d \<longrightarrow> dbl_rx_owner t l = dbl_rx_owner s l)"
proof -
  obtain dd where dd: "db_descs s d = Some dd"
    using r by (auto simp: gh_dbl_rx_unregister_def split: option.splits)
  let ?l = "dbd_label dd"
  let ?e = "(dbl_entry ?l s)\<lparr>db_rx_callback := None, db_rx_priv_data := None, db_rx_reg_done := False\<rparr>"
  have l: "dbl_label_ok ?l" "db_client_desc (dbl_entry ?l s) = Some d" using dbl_wfD(3) [OF wf dd] by auto
  note ok = dbl_wfD(2) [OF wf l(1)]
  show ?thesis
  proof (cases "db_rx_reg_done (dbl_entry ?l s)")
    case True
    with l have own: "dbl_rx_owner s ?l = Some d" by (simp add: dbl_rx_owner_def)
    from dbl_rx_unregister_spec [OF wf own] r own show ?thesis by auto
  next
    case False
    then have tx: "db_tx_reg_done (dbl_entry ?l s)" using ok l(2) by (auto simp: dbl_entry_ok_def)
    then have t: "t = dbl_set ?l ?e s" using r dd l by (auto simp: gh_dbl_rx_unregister_def Let_def)
    have "dbl_wf t" unfolding t
      by (rule dbl_wf_set) (use wf l tx ok in \<open>auto simp: dbl_entry_ok_def\<close>)
    with False t l dbl_wfD(1) [OF wf] show ?thesis
      by (auto simp: dbl_tx_owner_def dbl_rx_owner_def fun_eq_iff)
  qed
qed

lemma dbl_env_tx:
  assumes "dbl_wf s" "dbl_tx_owner s l = Some d" "x \<noteq> Db_tx_unregister d"
  shows "dbl_wf (dbl_env x s) \<and> dbl_tx_owner (dbl_env x s) l = Some d"
proof (cases x)
  case (Db_populate rq l' cap dir irq)
  then show ?thesis using assms dbl_populate_wf [OF assms(1), of rq l' cap dir irq]
    by (cases "gh_dbl_populate_cap_info rq l' cap dir irq s") auto
next
  case (Db_tx_unregister d')
  with assms show ?thesis using dbl_tx_unregister_any [OF assms(1), of d']
    by (cases "gh_dbl_tx_unregister (Some d') s")
       (auto simp: outcome_state_def gh_dbl_tx_unregister_def Let_def split: option.splits if_splits)
next
  case (Db_rx_unregister d')
  with assms show ?thesis using dbl_rx_unregister_any [OF assms(1), of d']
    by (cases "gh_dbl_rx_unregister (Some d') s")
       (auto simp: outcome_state_def gh_dbl_rx_unregister_def Let_def split: option.splits if_splits)
next
  case (Db_hyp f)
  with assms show ?thesis by (auto simp: dbl_tx_owner_def split: if_splits)
qed

lemma dbl_env_rx:
  assumes "dbl_wf s" "dbl_rx_owner s l = Some d" "x \<noteq> Db_rx_unregister d"
  shows "dbl_wf (dbl_env x s) \<and> dbl_rx_owner (dbl_env x s) l = Some d"
proof (cases x)
  case (Db_populate rq l' cap dir irq)
  then show ?thesis using assms dbl_populate_wf [OF assms(1), of rq l' cap dir irq]
    by (cases "gh_dbl_populate_cap_info rq l' cap dir irq s") auto
next
  case (Db_tx_unregister d')
  with assms show ?thesis using dbl_tx_unregister_any [OF assms(1), of d']
    by (cases "gh_dbl_tx_unregister (Some d') s")
       (auto simp: outcome_state_def gh_dbl_tx_unregister_def Let_def split: option.splits if_splits)
next
  case (Db_rx_unregister d')
  with assms show ?thesis using dbl_rx_unregister_any [OF assms(1), of d']
    by (cases "gh_dbl_rx_unregister (Some d') s")
       (auto simp: outcome_state_def gh_dbl_rx_unregister_def Let_def split: option.splits if_splits)
next
  case (Db_hyp f)
  with assms show ?thesis by (auto simp: dbl_rx_owner_def split: if_splits)
qed

section \<open>Validation\<close>

definition dbl_pre_code :: "int \<Rightarrow> bool" where
  "dbl_pre_code r \<longleftrightarrow> r \<in> {0, - EAGAIN, - ERESTARTSYS}"

lemma dbl_validate_tx:
  assumes wf: "dbl_wf s" and own: "dbl_tx_owner s l = Some d" and es: "Env (Db_tx_unregister d) \<notin> set es"
  shows "outcome_spec (\<lambda>r t. dbl_wf t \<and> dbl_tx_owner t l = Some d \<and> dbl_pre_code r) dbl_wf
     (gh_dbl_validate_params (Some d) GH_DBL_DIRECTION_TX flags s es)"
proof -
  have w: "case wait_event_interruptible dbl_env c s es of
           Woken t es' \<Rightarrow> (dbl_wf t \<and> dbl_tx_owner t l = Some d) \<and> set es' \<subseteq> set es
         | Interrupted t es' \<Rightarrow> (dbl_wf t \<and> dbl_tx_owner t l = Some d) \<and> set es' \<subseteq> set es
         | Asleep t \<Rightarrow> dbl_wf t \<and> dbl_tx_owner t l = Some d" for c
  proof (rule wait_keeps [where P = "\<lambda>t. dbl_wf t \<and> dbl_tx_owner t l = Some d"])
    show "dbl_wf (dbl_env x t) \<and> dbl_tx_owner (dbl_env x t) l = Some d"
      if "Env x \<in> set es" "dbl_wf t \<and> dbl_tx_owner t l = Some d" for x t
    proof (rule dbl_env_tx)
      show "x \<noteq> Db_tx_unregister d" using that(1) es by blast
    qed (use that in simp_all)
  qed (use wf own in simp)
  show ?thesis
    using dbl_owner_label(1) [OF wf own] w [of "\<lambda>s. db_tx_cap_id (dbl_entry l s) \<noteq> GH_CAPID_INVAL"] wf own
    by (auto simp: gh_dbl_validate_params_def Let_def dbl_pre_code_def split: wait_result.splits)
qed

lemma dbl_validate_rx:
  assumes wf: "dbl_wf s" and own: "dbl_rx_owner s l = Some d" and es: "Env (Db_rx_unregister d) \<notin> set es"
  shows "outcome_spec (\<lambda>r t. dbl_wf t \<and> dbl_rx_owner t l = Some d \<and> dbl_pre_code r) dbl_wf
     (gh_dbl_validate_params (Some d) GH_DBL_DIRECTION_RX flags s es)"
proof -
  have w: "case wait_event_interruptible dbl_env c s es of
           Woken t es' \<Rightarrow> (dbl_wf t \<and> dbl_rx_owner t l = Some d) \<and> set es' \<subseteq> set es
         | Interrupted t es' \<Rightarrow> (dbl_wf t \<and> dbl_rx_owner t l = Some d) \<and> set es' \<subseteq> set es
         | Asleep t \<Rightarrow> dbl_wf t \<and> dbl_rx_owner t l = Some d" for c
  proof (rule wait_keeps [where P = "\<lambda>t. dbl_wf t \<and> dbl_rx_owner t l = Some d"])
    show "dbl_wf (dbl_env x t) \<and> dbl_rx_owner (dbl_env x t) l = Some d"
      if "Env x \<in> set es" "dbl_wf t \<and> dbl_rx_owner t l = Some d" for x t
    proof (rule dbl_env_rx)
      show "x \<noteq> Db_rx_unregister d" using that(1) es by blast
    qed (use that in simp_all)
  qed (use wf own in simp)
  show ?thesis
    using dbl_owner_label(2) [OF wf own] w [of "\<lambda>s. db_rx_cap_id (dbl_entry l s) \<noteq> GH_CAPID_INVAL"] wf own
    by (auto simp: gh_dbl_validate_params_def Let_def dbl_pre_code_def split: wait_result.splits)
qed

lemma dbl_client_entry_owner:
  assumes "dbl_wf s"
  shows "dbl_tx_owner s l = Some d \<Longrightarrow> dbl_client_entry (Some d) s = Some (dbl_entry l s)"
    and "dbl_rx_owner s l = Some d \<Longrightarrow> dbl_client_entry (Some d) s = Some (dbl_entry l s)"
  using dbl_owner_label [OF assms] by (auto simp: dbl_client_entry_def)

lemma dbl_owner_hyp [simp]:
  "dbl_tx_owner (s\<lparr>db_hyp := h\<rparr>) = dbl_tx_owner s" "dbl_rx_owner (s\<lparr>db_hyp := h\<rparr>) = dbl_rx_owner s"
  by (auto simp: dbl_tx_owner_def dbl_rx_owner_def fun_eq_iff)

definition dbl_code :: "int \<Rightarrow> bool" where
  "dbl_code r \<longleftrightarrow> r \<in> {0, - EAGAIN, - ERESTARTSYS, - ENOMEM, - EACCES, - EBUSY, - EPERM, - EINVAL}"

lemma dbl_code_simps [simp]: "dbl_pre_code r \<Longrightarrow> dbl_code r" "dbl_code (gh_remap_error e)"
  using gh_remap_error_range [of e] by (auto simp: dbl_code_def dbl_pre_code_def)

section \<open>Properties\<close>

text \<open>Module initialisation either succeeds and leaves a well-formed table of nine free entries
  with invalid capabilities and live IRQ names, or fails with \<^verbatim>\<open>-ENOMEM\<close>, in which case the
  driver is not marked initialised and no IRQ name that was allocated is leaked.\<close>

theorem gh_dbl_init_total:
  "case gh_dbl_init ka (dbl_boot h) of (r, t) \<Rightarrow>
     if (\<forall>j<9. ka j) then r = 0 \<and> dbl_ready t
     else r = - ENOMEM \<and> \<not> gh_dbl_initialized t \<and> db_names t = [] \<and> dbl_wf t"
  using gh_dbl_init_loop_inv [OF dbl_boot_inv, of ka h] by (simp add: gh_dbl_init_def)

theorem gh_dbl_init_total_witness:
  "fst (gh_dbl_init (\<lambda>j. True) (dbl_boot ())) = 0 \<and> fst (gh_dbl_init (\<lambda>j. j \<noteq> 4) (dbl_boot ())) = - ENOMEM"
  using gh_dbl_init_total [of "\<lambda>j. True" "()"] gh_dbl_init_total [of "\<lambda>j. j \<noteq> 4" "()"]
  by (auto simp: split_beta split: if_splits)

text \<open>Each direction of a doorbell belongs to at most one client: after a successful transmit
  registration a second one fails with \<^verbatim>\<open>-EBUSY\<close>; a receive client of the same label gets the
  very same descriptor; and the descriptor is freed exactly by the last of the two to
  unregister, in either order.\<close>

theorem dbl_register_shared:
  assumes "dbl_wf s" and "gh_dbl_tx_register kz l s = (Inr d, t)"
    and "gh_dbl_rx_register kz' l cb priv t = (Inr d', u)"
  shows "d' = d \<and> gh_dbl_tx_register kz l t = (Inl (- EBUSY), t) \<and>
    gh_dbl_rx_register kz' l cb priv u = (Inl (- EBUSY), u) \<and>
    (\<exists>v w. gh_dbl_tx_unregister (Some d) u = Done 0 v \<and> db_descs v d \<noteq> None \<and>
       gh_dbl_rx_unregister (Some d) v = Done 0 w \<and> db_descs w d = None \<and> dbl_wf w) \<and>
    (\<exists>v w. gh_dbl_rx_unregister (Some d) u = Done 0 v \<and> db_descs v d \<noteq> None \<and>
       gh_dbl_tx_unregister (Some d) v = Done 0 w \<and> db_descs w d = None \<and> dbl_wf w)"
proof -
  note t = dbl_tx_register_spec [OF assms(1,2)]
  then have wt: "dbl_wf t" and ot: "dbl_tx_owner t l = Some d" by auto
  note u = dbl_rx_register_spec [OF wt assms(3)]
  then have wu: "dbl_wf u" and dd: "d' = d" and tu: "dbl_tx_owner u l = Some d" and ru: "dbl_rx_owner u l = Some d"
    using ot by auto
  have "gh_dbl_tx_register kz l t = (Inl (- EBUSY), t)"
    using dbl_tx.reg_twice_busy [OF assms(1)] assms(2) by simp
  moreover have "gh_dbl_rx_register kz' l cb priv u = (Inl (- EBUSY), u)"
    using dbl_rx.reg_twice_busy [OF wt] assms(3) by simp
  moreover obtain v where v: "gh_dbl_tx_unregister (Some d) u = Done 0 v" "dbl_wf v" "dbl_rx_owner v l = Some d"
      "dbl_tx_owner v l = None" "db_descs v d \<noteq> None"
    using dbl_tx_unregister_spec [OF wu tu] ru by auto
  moreover obtain w where "gh_dbl_rx_unregister (Some d) v = Done 0 w" "dbl_wf w" "db_descs w d = None"
    using dbl_rx_unregister_spec [OF v(2,3)] v(4) by auto
  moreover obtain v' where v': "gh_dbl_rx_unregister (Some d) u = Done 0 v'" "dbl_wf v'" "dbl_tx_owner v' l = Some d"
      "dbl_rx_owner v' l = None" "db_descs v' d \<noteq> None"
    using dbl_rx_unregister_spec [OF wu ru] tu by auto
  moreover obtain w' where "gh_dbl_tx_unregister (Some d) v' = Done 0 w'" "dbl_wf w'" "db_descs w' d = None"
    using dbl_tx_unregister_spec [OF v'(2,3)] v'(4) by auto
  ultimately show ?thesis using dd by blast
qed

definition dbl_demo_table :: "gh_dbl_cap_table list" where
  "dbl_demo_table = replicate 9 (dbl_zero_entry\<lparr>db_tx_cap_id := 7, db_rx_cap_id := 7\<rparr>)"

definition dbl_demo :: "'h \<Rightarrow> 'h dbl_state" where
  "dbl_demo h = dbl_boot h\<lparr>gh_dbl_initialized := True, db_table := dbl_demo_table\<rparr>"

lemma dbl_demo_wf: "dbl_wf (dbl_demo h)"
  by (auto simp: dbl_wf_def dbl_demo_def dbl_boot_def dbl_demo_table_def dbl_entry_def dbl_entry_ok_def
      dbl_label_ok_def dbl_zero_entry_def)

theorem dbl_register_shared_witness:
  "\<exists>t u v w. gh_dbl_tx_register True 3 (dbl_demo ()) = (Inr 1, t) \<and> gh_dbl_rx_register True 3 None None t = (Inr 1, u) \<and>
     gh_dbl_tx_unregister (Some 1) u = Done 0 v \<and> gh_dbl_rx_unregister (Some 1) v = Done 0 w \<and> db_descs w 1 = None"
proof -
  obtain t where t: "gh_dbl_tx_register True 3 (dbl_demo ()) = (Inr 1, t)"
    and e: "dbl_label_ok 3" "gh_dbl_initialized t" "\<not> db_rx_reg_done (dbl_entry 3 t)" "db_client_desc (dbl_entry 3 t) = Some 1"
    by (simp add: gh_dbl_tx_register_def dbl_take_desc_def dbl_demo_def dbl_boot_def dbl_demo_table_def dbl_entry_def
        dbl_set_def dbl_label_ok_def dbl_zero_entry_def Let_def)
  obtain u where u: "gh_dbl_rx_register True 3 None None t = (Inr 1, u)"
    using e by (simp add: gh_dbl_rx_register_def dbl_take_desc_def)
  show ?thesis
    using dbl_register_shared [OF dbl_demo_wf t u] t u by auto
qed

text \<open>C35: While a client is registered for a direction, none of the four operations of that direction
  ever touches freed memory, in any state and whatever other contexts do during the sleep,
  including the other direction unregistering, as long as nobody unregisters the client itself;
  an error leaves the caller's flags word alone.\<close>

theorem gh_dbl_ops_safe:
  assumes "dbl_wf s"
  shows "(dbl_tx_owner s l = Some d \<longrightarrow> Env (Db_tx_unregister d) \<notin> set es \<longrightarrow>
      outcome_spec (\<lambda>r t. dbl_wf t \<and> dbl_code (fst r) \<and> (fst r \<noteq> 0 \<longrightarrow> snd r = Some nf)) dbl_wf
        (gh_dbl_send hv (Some d) (Some nf) flags s es)) \<and>
    (dbl_rx_owner s l = Some d \<longrightarrow> Env (Db_rx_unregister d) \<notin> set es \<longrightarrow>
      outcome_spec (\<lambda>r t. dbl_wf t \<and> dbl_code (fst r) \<and> (fst r \<noteq> 0 \<longrightarrow> snd r = Some nf)) dbl_wf
        (gh_dbl_read_and_clean hv (Some d) (Some nf) flags s es) \<and>
      outcome_spec (\<lambda>r t. dbl_wf t \<and> dbl_code r) dbl_wf (gh_dbl_set_mask hv (Some d) em am flags s es) \<and>
      outcome_spec (\<lambda>r t. dbl_wf t \<and> dbl_code r) dbl_wf (gh_dbl_reset hv (Some d) flags s es))"
proof (intro conjI impI)
  assume own: "dbl_tx_owner s l = Some d" "Env (Db_tx_unregister d) \<notin> set es"
  show "outcome_spec (\<lambda>r t. dbl_wf t \<and> dbl_code (fst r) \<and> (fst r \<noteq> 0 \<longrightarrow> snd r = Some nf)) dbl_wf
        (gh_dbl_send hv (Some d) (Some nf) flags s es)"
    unfolding gh_dbl_send_def option.case
    by (rule outcome_spec_obind [OF dbl_validate_tx [OF assms own]])
       (auto simp: dbl_client_entry_owner split: prod.splits)
next
  assume own: "dbl_rx_owner s l = Some d" "Env (Db_rx_unregister d) \<notin> set es"
  note seq = outcome_spec_obind [OF dbl_validate_rx [OF assms own]]
  show "outcome_spec (\<lambda>r t. dbl_wf t \<and> dbl_code (fst r) \<and> (fst r \<noteq> 0 \<longrightarrow> snd r = Some nf)) dbl_wf
        (gh_dbl_read_and_clean hv (Some d) (Some nf) flags s es)"
    unfolding gh_dbl_read_and_clean_def option.case
    by (rule seq) (auto simp: dbl_client_entry_owner split: prod.splits)
  show "outcome_spec (\<lambda>r t. dbl_wf t \<and> dbl_code r) dbl_wf (gh_dbl_set_mask hv (Some d) em am flags s es)"
    unfolding gh_dbl_set_mask_def
    by (rule seq) (auto simp: dbl_client_entry_owner split: prod.splits)
  show "outcome_spec (\<lambda>r t. dbl_wf t \<and> dbl_code r) dbl_wf (gh_dbl_reset hv (Some d) flags s es)"
    unfolding gh_dbl_reset_def
    by (rule seq) (auto simp: dbl_client_entry_owner split: prod.splits)
qed

definition dbl_demo_both :: "'h \<Rightarrow> 'h dbl_state" where
  "dbl_demo_both h = dbl_demo h\<lparr>db_descs := [1 \<mapsto> \<lparr>dbd_label = 3\<rparr>], db_next := 2,
     db_table := dbl_demo_table[3 := (dbl_demo_table ! 3)\<lparr>db_client_desc := Some 1, db_tx_reg_done := True, db_rx_reg_done := True\<rparr>]\<rparr>"

lemma dbl_demo_both_wf: "dbl_wf (dbl_demo_both h)"
proof (rule dbl_wfI, goal_cases)
  case 1
  then show ?case by (simp add: dbl_demo_both_def dbl_demo_def dbl_demo_table_def)
next
  case (2 l)
  then show ?case
    by (auto simp: dbl_demo_both_def dbl_demo_def dbl_boot_def dbl_demo_table_def dbl_entry_def dbl_entry_ok_def
        dbl_label_ok_def dbl_zero_entry_def nth_list_update)
next
  case (3 d dd)
  then show ?case
    by (auto simp: dbl_demo_both_def dbl_demo_def dbl_demo_table_def dbl_entry_def dbl_label_ok_def split: if_splits)
qed

lemma dbl_demo_both_owner: "dbl_tx_owner (dbl_demo_both h) 3 = Some 1" "dbl_rx_owner (dbl_demo_both h) 3 = Some 1"
  by (simp_all add: dbl_tx_owner_def dbl_rx_owner_def dbl_demo_both_def dbl_demo_def dbl_demo_table_def dbl_entry_def
      dbl_label_ok_def)

theorem gh_dbl_ops_safe_witness:
  "outcome_spec (\<lambda>r t. dbl_wf t \<and> dbl_code (fst r) \<and> (fst r \<noteq> 0 \<longrightarrow> snd r = Some 5)) dbl_wf
     (gh_dbl_send \<lparr>hc_dbl_recv = \<lambda>c f h. ((0, h), h AND NOT f), hc_dbl_mask = \<lambda>c e a h. (0, h),
        hc_dbl_send = \<lambda>c f h. ((0, h), h OR f), hc_dbl_reset = \<lambda>c h. (0, 0)\<rparr> (Some 1) (Some 5) 0
        (dbl_demo_both (8 :: u64)) [Env (Db_rx_unregister 1)])"
  by (rule gh_dbl_ops_safe [OF dbl_demo_both_wf, THEN conjunct1, rule_format, OF dbl_demo_both_owner(1)]) simp

text \<open>The documented behaviour of the two doorbell hypercalls on the flags of the object a
  capability names.\<close>

definition hv_dbl_spec :: "'h dbl_hcall \<Rightarrow> ('h \<Rightarrow> gh_capid_t \<Rightarrow> u64) \<Rightarrow> bool" where
  "hv_dbl_spec hv bell \<longleftrightarrow> (\<forall>c v h.
     (case hc_dbl_send hv c v h of ((ret, old), h') \<Rightarrow>
        ret = GH_ERROR_OK \<longrightarrow> old = bell h c \<and> bell h' c = bell h c OR v) \<and>
     (case hc_dbl_recv hv c v h of ((ret, old), h') \<Rightarrow>
        ret = GH_ERROR_OK \<longrightarrow> old = bell h c \<and> bell h' c = bell h c AND NOT v))"

lemma hv_dbl_specD:
  assumes "hv_dbl_spec hv bell"
  shows "hc_dbl_send hv c v h = ((GH_ERROR_OK, old), h') \<Longrightarrow> old = bell h c \<and> bell h' c = bell h c OR v"
    and "hc_dbl_recv hv c v h = ((GH_ERROR_OK, old), h') \<Longrightarrow> old = bell h c \<and> bell h' c = bell h c AND NOT v"
  using assms [unfolded hv_dbl_spec_def, THEN spec [of _ c], THEN spec [of _ v], THEN spec [of _ h]] by auto

lemma gh_dbl_send_bell:
  assumes "hv_dbl_spec hv bell" and "dbl_wf s" and "dbl_tx_owner s l = Some d"
    and "db_tx_cap_id (dbl_entry l s) \<noteq> GH_CAPID_INVAL"
    and "gh_dbl_send hv (Some d) (Some nf) flags s es = Done (0, Some old) t"
  shows "old = bell (db_hyp s) (db_tx_cap_id (dbl_entry l s)) \<and>
     bell (db_hyp t) (db_tx_cap_id (dbl_entry l s)) = old OR nf \<and> t = s\<lparr>db_hyp := db_hyp t\<rparr>"
proof -
  let ?c = "db_tx_cap_id (dbl_entry l s)"
  obtain ret o' h where h: "hc_dbl_send hv ?c nf (db_hyp s) = ((ret, o'), h)" by (metis surj_pair)
  have "gh_dbl_validate_params (Some d) GH_DBL_DIRECTION_TX flags s es = Done 0 s"
    using dbl_owner_label(1) [OF assms(2,3)] assms(4) by (simp add: gh_dbl_validate_params_def Let_def)
  then have "ret = 0" "o' = old" "t = s\<lparr>db_hyp := h\<rparr>"
    using assms(5) h dbl_client_entry_owner(1) [OF assms(2,3)]
    by (auto simp: gh_dbl_send_def split: if_splits)
  then show ?thesis using hv_dbl_specD(1) [OF assms(1), of ?c nf "db_hyp s" old h] h by simp
qed

lemma gh_dbl_read_bell:
  assumes "hv_dbl_spec hv bell" and "dbl_wf s" and "dbl_rx_owner s l = Some d"
    and "db_rx_cap_id (dbl_entry l s) \<noteq> GH_CAPID_INVAL"
    and "gh_dbl_read_and_clean hv (Some d) (Some cf) flags s es = Done (0, Some got) t"
  shows "got = bell (db_hyp s) (db_rx_cap_id (dbl_entry l s)) \<and>
     bell (db_hyp t) (db_rx_cap_id (dbl_entry l s)) = got AND NOT cf"
proof -
  let ?c = "db_rx_cap_id (dbl_entry l s)"
  obtain ret o' h where h: "hc_dbl_recv hv ?c cf (db_hyp s) = ((ret, o'), h)" by (metis surj_pair)
  have "gh_dbl_validate_params (Some d) GH_DBL_DIRECTION_RX flags s es = Done 0 s"
    using dbl_owner_label(2) [OF assms(2,3)] assms(4) by (simp add: gh_dbl_validate_params_def Let_def)
  then have "ret = 0" "o' = got" "t = s\<lparr>db_hyp := h\<rparr>"
    using assms(5) h dbl_client_entry_owner(2) [OF assms(2,3)]
    by (auto simp: gh_dbl_read_and_clean_def split: if_splits)
  then show ?thesis using hv_dbl_specD(2) [OF assms(1), of ?c cf "db_hyp s" got h] h by simp
qed

text \<open>On a label whose two capabilities name one doorbell object, a receiver that reads after a
  sender rang gets the sender's bits: the send returns the previous flags, the read returns
  those with the new bits added, and afterwards exactly the bits asked for are cleared.\<close>

theorem gh_dbl_send_then_read:
  assumes "hv_dbl_spec hv bell" and "dbl_wf s" and "dbl_tx_owner s l = Some d" and "dbl_rx_owner s l = Some d"
    and "db_tx_cap_id (dbl_entry l s) = c" "db_rx_cap_id (dbl_entry l s) = c" "c \<noteq> GH_CAPID_INVAL"
    and "gh_dbl_send hv (Some d) (Some nf) flags s es = Done (0, Some old) t"
    and "gh_dbl_read_and_clean hv (Some d) (Some cf) flags t es' = Done (0, Some got) u"
  shows "old = bell (db_hyp s) c \<and> got = old OR nf \<and> bell (db_hyp u) c = (old OR nf) AND NOT cf"
proof -
  have s: "old = bell (db_hyp s) c" "bell (db_hyp t) c = old OR nf" and t: "t = s\<lparr>db_hyp := db_hyp t\<rparr>"
    using gh_dbl_send_bell [OF assms(1-3) _ assms(8)] assms(5,7) by auto
  have e: "dbl_entry l t = dbl_entry l s" "dbl_wf t" "dbl_rx_owner t l = Some d"
    using assms(2,4) by (subst t, simp)+
  show ?thesis
    using gh_dbl_read_bell [OF assms(1) e(2,3) _ assms(9)] e(1) assms(6,7) s by simp
qed

definition dbl_toy_hv :: "u64 dbl_hcall" where
  "dbl_toy_hv = \<lparr>hc_dbl_recv = \<lambda>c f h. ((0, h), h AND NOT f), hc_dbl_mask = \<lambda>c e a h. (0, h),
     hc_dbl_send = \<lambda>c f h. ((0, h), h OR f), hc_dbl_reset = \<lambda>c h. (0, 0)\<rparr>"

theorem gh_dbl_send_then_read_witness:
  "\<exists>t u. gh_dbl_send dbl_toy_hv (Some 1) (Some 5) 0 (dbl_demo_both 8) [] = Done (0, Some 8) t \<and>
     gh_dbl_read_and_clean dbl_toy_hv (Some 1) (Some 1) 0 t [] = Done (0, Some (8 OR 5)) u \<and> db_hyp u = (8 OR 5) AND NOT 1"
proof -
  note demo = dbl_demo_both_def dbl_demo_def dbl_demo_table_def dbl_entry_def dbl_label_ok_def
  have c: "db_tx_cap_id (dbl_entry 3 (dbl_demo_both (8::u64))) = 7" "db_rx_cap_id (dbl_entry 3 (dbl_demo_both (8::u64))) = 7"
    by (simp_all add: demo)
  obtain t where t: "gh_dbl_send dbl_toy_hv (Some 1) (Some 5) 0 (dbl_demo_both 8) [] = Done (0, Some 8) t"
      "t = dbl_demo_both 8\<lparr>db_hyp := 8 OR 5\<rparr>"
    by (simp add: gh_dbl_send_def gh_dbl_validate_params_def dbl_client_entry_def demo dbl_toy_hv_def dbl_boot_def
        dbl_zero_entry_def Let_def)
  obtain u where u: "gh_dbl_read_and_clean dbl_toy_hv (Some 1) (Some 1) 0 t [] = Done (0, Some (8 OR 5)) u"
    unfolding t(2)
    by (simp add: gh_dbl_read_and_clean_def gh_dbl_validate_params_def dbl_client_entry_def demo dbl_toy_hv_def
        Let_def)
  have hv: "hv_dbl_spec dbl_toy_hv (\<lambda>h c. h)" by (simp add: hv_dbl_spec_def dbl_toy_hv_def)
  have "8 = db_hyp (dbl_demo_both (8::u64)) \<and> 8 OR 5 = (8::u64) OR 5 \<and> db_hyp u = (8 OR 5) AND NOT 1"
    by (rule gh_dbl_send_then_read [OF hv dbl_demo_both_wf dbl_demo_both_owner c _ t(1) u]) simp
  with t(1) u show ?thesis by blast
qed

text \<open>When the interrupt of a receive doorbell cannot be requested, population fails but the
  entry keeps the IRQ number: a later \<^verbatim>\<open>gh_dbl_reset_cap_info\<close> reports success and hands that
  number to \<^verbatim>\<open>free_irq\<close> although no handler was ever installed for it.\<close>

theorem gh_dbl_populate_failure_stale_irq:
  assumes "dbl_wf s" and "gh_dbl_initialized s" and "dbl_label_ok l" and "0 < irq" and "rq irq < 0"
    and "(irq, nat l) \<notin> set (db_irqs s)"
  shows "\<exists>t u. gh_dbl_populate_cap_info rq l cap GH_DBL_DIRECTION_RX irq s = (rq irq, t) \<and>
     (irq, nat l) \<notin> set (db_irqs t) \<and>
     gh_dbl_reset_cap_info l GH_DBL_DIRECTION_RX True t = ((0, Some irq), u)"
  using assms dbl_wfD(1) [OF assms(1)]
  by (simp add: gh_dbl_populate_cap_info_def gh_dbl_reset_cap_info_def Let_def)

theorem gh_dbl_populate_failure_stale_irq_witness:
  "\<exists>t u. gh_dbl_populate_cap_info (\<lambda>_. - EBUSY) 3 9 GH_DBL_DIRECTION_RX 40 (dbl_demo ()) = (- EBUSY, t) \<and>
     (40, nat 3) \<notin> set (db_irqs t) \<and>
     gh_dbl_reset_cap_info 3 GH_DBL_DIRECTION_RX True t = ((0, Some 40), u)"
  by (rule gh_dbl_populate_failure_stale_irq [OF dbl_demo_wf])
     (simp_all add: dbl_demo_def dbl_boot_def dbl_label_ok_def)

end
