(* ===== verification/Rm_Wire.thy ===== *)
theory Rm_Wire
  imports Gunyah_Prelude
begin

text \<open>
  The wire format of Resource Manager messages: the packed RPC headers of
  \<^verbatim>\<open>drivers/virt/gunyah/gh_rm_drv_private.h\<close> as bytes, and the validation of notification
  payloads by \<^verbatim>\<open>gh_rm_validate_notif\<close> (\<^verbatim>\<open>gh_rm_core.c\<close>) and by
  \<^verbatim>\<open>arch/arm64/gunyah/reset.c\<close>.
\<close>

section \<open>RPC headers\<close>

abbreviation (input) GH_RM_RPC_HDR_VERSION_ONE :: u8 where "GH_RM_RPC_HDR_VERSION_ONE \<equiv> 1"
abbreviation (input) GH_RM_RPC_HDR_WORDS :: u8 where "GH_RM_RPC_HDR_WORDS \<equiv> 2"
abbreviation (input) GH_RM_RPC_TYPE_CONT :: u8 where "GH_RM_RPC_TYPE_CONT \<equiv> 0"
abbreviation (input) GH_RM_RPC_TYPE_REQ :: u8 where "GH_RM_RPC_TYPE_REQ \<equiv> 1"
abbreviation (input) GH_RM_RPC_TYPE_RPLY :: u8 where "GH_RM_RPC_TYPE_RPLY \<equiv> 2"
abbreviation (input) GH_RM_RPC_TYPE_NOTIF :: u8 where "GH_RM_RPC_TYPE_NOTIF \<equiv> 3"
abbreviation (input) GH_RM_HDR_SIZE :: nat where "GH_RM_HDR_SIZE \<equiv> 8"
abbreviation (input) GH_RM_REPLY_HDR_SIZE :: nat where "GH_RM_REPLY_HDR_SIZE \<equiv> 12"
abbreviation (input) GH_RM_MAX_MSG_SIZE_BYTES :: nat where "GH_RM_MAX_MSG_SIZE_BYTES \<equiv> 232"

text \<open>
  \<open>hd_version\<close> and \<open>hd_hdr_words\<close> are 4-bit fields, \<open>hd_type\<close> has 2 bits and \<open>hd_fragments\<close> 6.
  Bit-fields are laid out from the least significant bit, as on the little-endian target.
\<close>

record gh_rm_rpc_hdr =
  hd_version :: u8
  hd_hdr_words :: u8
  hd_type :: u8
  hd_fragments :: u8
  hd_seq :: u16
  hd_msg_id :: u32

definition rpc_hdr_bytes :: "gh_rm_rpc_hdr \<Rightarrow> u8 list" where
  "rpc_hdr_bytes h =
     [(hd_version h AND 0xF) OR push_bit 4 (hd_hdr_words h),
      (hd_type h AND 0x3) OR push_bit 2 (hd_fragments h)] @ le16 (hd_seq h) @ le32 (hd_msg_id h)"

definition rpc_hdr_of :: "u8 list \<Rightarrow> gh_rm_rpc_hdr" where
  "rpc_hdr_of b =
     \<lparr>hd_version = b ! 0 AND 0xF, hd_hdr_words = drop_bit 4 (b ! 0),
      hd_type = b ! 1 AND 0x3, hd_fragments = drop_bit 2 (b ! 1),
      hd_seq = of_le16 (drop 2 b), hd_msg_id = of_le32 (drop 4 b)\<rparr>"

text \<open>\<^verbatim>\<open>struct gh_rm_rpc_reply_hdr\<close> adds a 32-bit error code.\<close>

definition rpc_reply_hdr_bytes :: "gh_rm_rpc_hdr \<Rightarrow> u32 \<Rightarrow> u8 list" where
  "rpc_reply_hdr_bytes h err = rpc_hdr_bytes h @ le32 err"

definition reply_err_code :: "u8 list \<Rightarrow> u32" where
  "reply_err_code b = of_le32 (drop 8 b)"

definition rpc_hdr_wf :: "gh_rm_rpc_hdr \<Rightarrow> bool" where
  "rpc_hdr_wf h \<longleftrightarrow> hd_version h < 16 \<and> hd_hdr_words h < 16 \<and> hd_type h < 4 \<and> hd_fragments h < 64"

lemma length_rpc_hdr_bytes [simp]: "length (rpc_hdr_bytes h) = 8"
  by (simp add: rpc_hdr_bytes_def)

lemma pack_fields:
  fixes a b :: u8
  assumes "a < 2 ^ n" "b < 2 ^ (8 - n)" "n \<le> 8"
  shows "((a AND mask n) OR push_bit n b) AND mask n = a"
    and "drop_bit n ((a AND mask n) OR push_bit n b) = b"
proof -
  have a: "a AND mask n = a" using assms(1) by (simp add: less_mask_eq)
  have b: "b AND mask (8 - n) = b" using assms(2) by (simp add: less_mask_eq)
  have ba: "i < n" if "bit a i" for i using a that by (metis bit_mask_iff bit_and_iff)
  have bb: "\<not> bit b i" if "8 - n \<le> i" for i using b that by (metis bit_mask_iff bit_and_iff not_le)
  show "((a AND mask n) OR push_bit n b) AND mask n = a"
    by (rule bit_word_eqI) (auto simp: bit_simps dest: ba)
  show "drop_bit n ((a AND mask n) OR push_bit n b) = b"
  proof (rule bit_word_eqI)
    fix i assume "i < LENGTH(8)"
    show "bit (drop_bit n ((a AND mask n) OR push_bit n b)) i = bit b i"
      using bb [of i] assms(3) by (cases "8 - n \<le> i") (auto simp: bit_simps)
  qed
qed

lemma rpc_hdr_roundtrip_append:
  assumes "rpc_hdr_wf h"
  shows "rpc_hdr_of (rpc_hdr_bytes h @ r) = h"
proof -
  have m: "mask 4 = (0xF :: u8)" "mask 2 = (0x3 :: u8)" by (simp_all add: mask_eq_exp_minus_1)
  have w: "hd_version h < 2 ^ 4" "hd_hdr_words h < 2 ^ (8 - 4)" "hd_type h < 2 ^ 2" "hd_fragments h < 2 ^ (8 - 2)"
    using assms by (simp_all add: rpc_hdr_wf_def)
  note p = pack_fields [OF w(1,2), unfolded m] pack_fields [OF w(3,4), unfolded m]
  show ?thesis
    using p by (simp add: rpc_hdr_of_def rpc_hdr_bytes_def numeral_eq_Suc)
qed

lemma reply_err_code_append: "reply_err_code (rpc_reply_hdr_bytes h err @ r) = err"
  by (simp add: reply_err_code_def rpc_reply_hdr_bytes_def)

lemma rpc_reply_hdr_of:
  "rpc_hdr_wf h \<Longrightarrow> rpc_hdr_of (rpc_reply_hdr_bytes h err @ r) = h"
  by (simp add: rpc_reply_hdr_bytes_def rpc_hdr_roundtrip_append)

section \<open>Validation of notifications\<close>

abbreviation (input) GH_RM_NOTIF_MEM_SHARED :: u32 where "GH_RM_NOTIF_MEM_SHARED \<equiv> 0x51100011"
abbreviation (input) GH_RM_NOTIF_MEM_RELEASED :: u32 where "GH_RM_NOTIF_MEM_RELEASED \<equiv> 0x51100012"
abbreviation (input) GH_RM_NOTIF_MEM_ACCEPTED :: u32 where "GH_RM_NOTIF_MEM_ACCEPTED \<equiv> 0x51100013"
abbreviation (input) GH_RM_NOTIF_VM_EXITED :: u32 where "GH_RM_NOTIF_VM_EXITED \<equiv> 0x56100001"
abbreviation (input) GH_RM_NOTIF_VM_SHUTDOWN :: u32 where "GH_RM_NOTIF_VM_SHUTDOWN \<equiv> 0x56100002"
abbreviation (input) GH_RM_NOTIF_VM_STATUS :: u32 where "GH_RM_NOTIF_VM_STATUS \<equiv> 0x56100008"
abbreviation (input) GH_RM_NOTIF_VM_IRQ_LENT :: u32 where "GH_RM_NOTIF_VM_IRQ_LENT \<equiv> 0x56100011"
abbreviation (input) GH_RM_NOTIF_VM_IRQ_RELEASED :: u32 where "GH_RM_NOTIF_VM_IRQ_RELEASED \<equiv> 0x56100012"
abbreviation (input) GH_RM_NOTIF_VM_IRQ_ACCEPTED :: u32 where "GH_RM_NOTIF_VM_IRQ_ACCEPTED \<equiv> 0x56100013"
abbreviation (input) GH_RM_NOTIF_VM_CONSOLE_CHARS :: u32 where "GH_RM_NOTIF_VM_CONSOLE_CHARS \<equiv> 0x56100080"

abbreviation (input) GH_RM_VM_EXIT_TYPE_VM_EXIT :: u16 where "GH_RM_VM_EXIT_TYPE_VM_EXIT \<equiv> 0"
abbreviation (input) GH_RM_VM_EXIT_TYPE_SYSTEM_OFF :: u16 where "GH_RM_VM_EXIT_TYPE_SYSTEM_OFF \<equiv> 1"
abbreviation (input) GH_RM_VM_EXIT_TYPE_SYSTEM_RESET :: u16 where "GH_RM_VM_EXIT_TYPE_SYSTEM_RESET \<equiv> 2"
abbreviation (input) GH_RM_VM_EXIT_TYPE_SYSTEM_RESET2 :: u16 where "GH_RM_VM_EXIT_TYPE_SYSTEM_RESET2 \<equiv> 3"
abbreviation (input) GH_RM_VM_EXIT_TYPE_WDT_BITE :: u16 where "GH_RM_VM_EXIT_TYPE_WDT_BITE \<equiv> 4"
abbreviation (input) GH_RM_VM_EXIT_TYPE_HYP_ERROR :: u16 where "GH_RM_VM_EXIT_TYPE_HYP_ERROR \<equiv> 5"
abbreviation (input) GH_RM_VM_EXIT_TYPE_ASYNC_EXT_ABORT :: u16 where "GH_RM_VM_EXIT_TYPE_ASYNC_EXT_ABORT \<equiv> 6"
abbreviation (input) GH_RM_VM_EXIT_TYPE_VM_STOP_FORCED :: u16 where "GH_RM_VM_EXIT_TYPE_VM_STOP_FORCED \<equiv> 7"

text \<open>The exit type is the second 16-bit field of the payload of a VM-exited notification.\<close>

definition vm_exited_type :: "u8 list \<Rightarrow> u16" where
  "vm_exited_type p = of_le16 (drop 2 p)"

definition set_vm_exited_type :: "u16 \<Rightarrow> u8 list \<Rightarrow> u8 list" where
  "set_vm_exited_type x p = take 2 p @ le16 x @ drop 4 p"

text \<open>
  Both validation functions return the result code and the payload, in which the
  architecture's code replaces its own exit type by a generic one.
\<close>

definition gh_arch_validate_vm_exited_notif :: "nat \<Rightarrow> u8 list \<Rightarrow> int \<times> u8 list" where
  "gh_arch_validate_vm_exited_notif payload_size p =
     (if vm_exited_type p = 3 then
        (if payload_size \<noteq> 8 + 4 then (- EINVAL, p)
         else (0, set_vm_exited_type GH_RM_VM_EXIT_TYPE_SYSTEM_RESET p))
      else if vm_exited_type p = 2 then (0, set_vm_exited_type GH_RM_VM_EXIT_TYPE_SYSTEM_RESET p)
      else if vm_exited_type p = 1 then (0, set_vm_exited_type GH_RM_VM_EXIT_TYPE_SYSTEM_OFF p)
      else (- EINVAL, p))"

definition gh_rm_validate_vm_exited_notif :: "u8 list \<Rightarrow> nat \<Rightarrow> int \<times> u8 list" where
  "gh_rm_validate_vm_exited_notif p payload_size =
     (if payload_size < 8 then (- EINVAL, p)
      else if vm_exited_type p = GH_RM_VM_EXIT_TYPE_VM_EXIT then
        (if payload_size \<noteq> 8 + 4 then (- EINVAL, p) else (0, p))
      else if vm_exited_type p \<in> {GH_RM_VM_EXIT_TYPE_WDT_BITE, GH_RM_VM_EXIT_TYPE_HYP_ERROR,
                GH_RM_VM_EXIT_TYPE_ASYNC_EXT_ABORT, GH_RM_VM_EXIT_TYPE_VM_STOP_FORCED} then (0, p)
      else case gh_arch_validate_vm_exited_notif payload_size p of
        (ret, p') \<Rightarrow> if ret \<noteq> 0 then (- EINVAL, p') else (0, p'))"

text \<open>The size checks of \<^verbatim>\<open>gh_rm_validate_notif\<close>: \<open>None\<close> for a notification that is dropped, the
  payload to hand to the notifier chain otherwise.\<close>

definition rm_notif_check :: "u32 \<Rightarrow> u8 list \<Rightarrow> nat \<Rightarrow> u8 list option" where
  "rm_notif_check notification p payload_size =
     (if notification = GH_RM_NOTIF_VM_STATUS then (if payload_size \<noteq> 8 then None else Some p)
      else if notification = GH_RM_NOTIF_VM_EXITED then
        (case gh_rm_validate_vm_exited_notif p payload_size of
           (ret, p') \<Rightarrow> if ret \<noteq> 0 then None else Some p')
      else if notification = GH_RM_NOTIF_VM_SHUTDOWN then (if payload_size \<noteq> 4 then None else Some p)
      else if notification = GH_RM_NOTIF_VM_IRQ_LENT then (if payload_size \<noteq> 12 then None else Some p)
      else if notification = GH_RM_NOTIF_VM_IRQ_RELEASED then (if payload_size \<noteq> 4 then None else Some p)
      else if notification = GH_RM_NOTIF_VM_IRQ_ACCEPTED then (if payload_size \<noteq> 4 then None else Some p)
      else if notification = GH_RM_NOTIF_MEM_SHARED then (if payload_size < 20 then None else Some p)
      else if notification = GH_RM_NOTIF_MEM_RELEASED then (if payload_size \<noteq> 12 then None else Some p)
      else if notification = GH_RM_NOTIF_MEM_ACCEPTED then (if payload_size \<noteq> 12 then None else Some p)
      else if notification = GH_RM_NOTIF_VM_CONSOLE_CHARS then
        (if 4 \<le> payload_size then
           (if 4 + unat (of_le16 (drop 2 p)) \<noteq> payload_size then None else Some p)
         else None)
      else None)"

text \<open>The smallest payload a notification's consumers read.\<close>

definition rm_notif_min :: "u32 \<Rightarrow> nat" where
  "rm_notif_min n =
     (if n \<in> {GH_RM_NOTIF_VM_STATUS, GH_RM_NOTIF_VM_EXITED} then 8
      else if n \<in> {GH_RM_NOTIF_VM_SHUTDOWN, GH_RM_NOTIF_VM_IRQ_RELEASED, GH_RM_NOTIF_VM_IRQ_ACCEPTED,
                GH_RM_NOTIF_VM_CONSOLE_CHARS} then 4
      else if n \<in> {GH_RM_NOTIF_VM_IRQ_LENT, GH_RM_NOTIF_MEM_RELEASED, GH_RM_NOTIF_MEM_ACCEPTED} then 12
      else 20)"

lemma length_set_vm_exited_type:
  "4 \<le> length p \<Longrightarrow> length (set_vm_exited_type x p) = length p"
  by (simp add: set_vm_exited_type_def)

lemma vm_exited_type_set [simp]:
  "4 \<le> length p \<Longrightarrow> vm_exited_type (set_vm_exited_type x p) = x"
  by (simp add: set_vm_exited_type_def vm_exited_type_def)

lemma gh_rm_validate_vm_exited_ok:
  assumes "gh_rm_validate_vm_exited_notif p n = (0, p')" and "n = length p"
  shows "8 \<le> n \<and> length p' = length p \<and> vm_exited_type p' \<in> {0, 1, 2, 4, 5, 6, 7} \<and>
     (vm_exited_type p' = GH_RM_VM_EXIT_TYPE_VM_EXIT \<longrightarrow> n = 12)"
  using assms
  by (auto simp: gh_rm_validate_vm_exited_notif_def gh_arch_validate_vm_exited_notif_def
      length_set_vm_exited_type split: if_splits)

text \<open>A notification that reaches the notifier chain has a payload at least as long as the fixed
  part its handlers read, and validation never changes its length; a VM-exited notification
  arrives with one of the generic exit types (the architecture's reset types are rewritten),
  and a plain VM exit carries its four-byte reason.\<close>

theorem rm_notif_check_sound:
  assumes "rm_notif_check n p (length p) = Some p'"
  shows "rm_notif_min n \<le> length p' \<and> length p' = length p \<and>
     (n = GH_RM_NOTIF_VM_EXITED \<longrightarrow> vm_exited_type p' \<in> {0, 1, 2, 4, 5, 6, 7} \<and>
        (vm_exited_type p' = GH_RM_VM_EXIT_TYPE_VM_EXIT \<longrightarrow> length p' = 12)) \<and>
     (n = GH_RM_NOTIF_VM_CONSOLE_CHARS \<longrightarrow> length p' = 4 + unat (of_le16 (drop 2 p')))"
proof (cases "n = GH_RM_NOTIF_VM_EXITED")
  case True
  with assms have "gh_rm_validate_vm_exited_notif p (length p) = (0, p')"
    by (auto simp: rm_notif_check_def split: prod.splits if_splits)
  from gh_rm_validate_vm_exited_ok [OF this refl] True show ?thesis
    by (auto simp: rm_notif_min_def)
next
  case False
  with assms show ?thesis
    by (auto simp: rm_notif_check_def rm_notif_min_def split: if_splits)
qed

theorem rm_notif_check_sound_witness:
  "rm_notif_check GH_RM_NOTIF_VM_EXITED [45, 0, 3, 0, 4, 0, 0, 0, 1, 2, 3, 4]
      (length [45, 0, 3, 0, 4, 0, 0, 0, 1, 2, 3, 4 :: u8]) = Some [45, 0, 2, 0, 4, 0, 0, 0, 1, 2, 3, 4] \<and>
   vm_exited_type [45, 0, 2, 0, 4, 0, 0, 0, 1, 2, 3, 4] \<in> {0, 1, 2, 4, 5, 6, 7}"
proof -
  have c: "rm_notif_check GH_RM_NOTIF_VM_EXITED [45, 0, 3, 0, 4, 0, 0, 0, 1, 2, 3, 4]
      (length [45, 0, 3, 0, 4, 0, 0, 0, 1, 2, 3, 4 :: u8]) = Some [45, 0, 2, 0, 4, 0, 0, 0, 1, 2, 3, 4]"
    by (simp add: rm_notif_check_def gh_rm_validate_vm_exited_notif_def gh_arch_validate_vm_exited_notif_def
        vm_exited_type_def set_vm_exited_type_def le16_def)
  show ?thesis using rm_notif_check_sound [OF c] c by simp
qed

text \<open>The RPC headers survive the wire: decoding the bytes of a header whose bit-fields are in
  range, with any payload behind it, gives the header back, with and without the error code of
  a reply.\<close>

theorem rpc_hdr_roundtrip:
  assumes "rpc_hdr_wf h"
  shows "rpc_hdr_of (rpc_hdr_bytes h @ payload) = h \<and>
     rpc_hdr_of (rpc_reply_hdr_bytes h err @ payload) = h \<and>
     reply_err_code (rpc_reply_hdr_bytes h err @ payload) = err \<and>
     length (rpc_hdr_bytes h) = GH_RM_HDR_SIZE \<and> length (rpc_reply_hdr_bytes h err) = GH_RM_REPLY_HDR_SIZE"
  using rpc_hdr_roundtrip_append [OF assms] rpc_reply_hdr_of [OF assms]
  by (simp add: reply_err_code_append) (simp add: rpc_reply_hdr_bytes_def)

theorem rpc_hdr_roundtrip_witness:
  "rpc_hdr_of (rpc_hdr_bytes \<lparr>hd_version = 1, hd_hdr_words = 2, hd_type = 2, hd_fragments = 62, hd_seq = 0x1234,
      hd_msg_id = 0x56000020\<rparr> @ [9]) = \<lparr>hd_version = 1, hd_hdr_words = 2, hd_type = 2, hd_fragments = 62, hd_seq = 0x1234,
      hd_msg_id = 0x56000020\<rparr>"
  by (rule rpc_hdr_roundtrip [THEN conjunct1]) (simp add: rpc_hdr_wf_def)

end
