(* ===== verification/Rm_Core.thy ===== *)
theory Rm_Core
  imports Rm_Wire Gh_Errno
begin

text \<open>
  The request/reply and notification engine of the Resource Manager driver
  (\<^verbatim>\<open>drivers/virt/gunyah/gh_rm_core.c\<close>). Connections live in an explicit heap; the pointer the
  receive task carries from one message to the next is NULL, an error pointer or a heap
  address, exactly the three kinds of value the code lets flow through it. Outcomes of
  allocations are a function of what is allocated, the transport below is the function \<open>send\<close>
  over its own state, and one iteration of the receive task consumes one record \<open>rm_rx\<close>.
\<close>

section \<open>State\<close>

abbreviation (input) GH_RM_MAX_NUM_FRAGMENTS :: u32 where "GH_RM_MAX_NUM_FRAGMENTS \<equiv> 62"
abbreviation (input) RM_RECV_BUFF_SIZE :: nat where "RM_RECV_BUFF_SIZE \<equiv> 240"
abbreviation (input) RM_TX_PUSH :: u64 where "RM_TX_PUSH \<equiv> 1"

datatype rm_alloc = A_conn | A_payload nat | A_validate | A_msg

datatype conn_ptr = Null | ErrPtr int | Conn ptr

record gh_rm_connection =
  cn_payload :: "u8 list option"
  cn_size :: nat
  cn_msg_id :: u32
  cn_ret :: int
  cn_type :: u8
  cn_num_fragments :: u8
  cn_fragments_received :: u8
  cn_rm_error :: u32
  cn_seq :: u16
  cn_seq_done :: "bool option"

record 't rm_state =
  rm_conns :: "ptr \<Rightarrow> gh_rm_connection option"
  rm_idr :: "u16 \<Rightarrow> ptr option"
  rm_cur :: conn_ptr
  rm_next :: ptr
  rm_works :: "ptr list"
  rm_chain :: "(u32 \<times> u8 list) list"
  rm_tx :: 't

record rm_rx =
  rx_kz :: "rm_alloc \<Rightarrow> bool"
  rx_lock_ok :: bool
  rx_ret :: int
  rx_bytes :: "u8 list"

definition rm_set :: "ptr \<Rightarrow> gh_rm_connection \<Rightarrow> 't rm_state \<Rightarrow> 't rm_state" where
  "rm_set p c s = s\<lparr>rm_conns := (rm_conns s)(p \<mapsto> c)\<rparr>"

definition rm_kfree :: "ptr \<Rightarrow> 't rm_state \<Rightarrow> 't rm_state" where
  "rm_kfree p s = s\<lparr>rm_conns := (rm_conns s)(p := None)\<rparr>"

section \<open>Connections\<close>

definition gh_rm_alloc_connection ::
  "(rm_alloc \<Rightarrow> bool) \<Rightarrow> u32 \<Rightarrow> bool \<Rightarrow> 't rm_state \<Rightarrow> (int + ptr) \<times> 't rm_state" where
  "gh_rm_alloc_connection kz msg_id needed s =
     (if \<not> kz A_conn then (Inl (- ENOMEM), s)
      else let p = rm_next s;
               c = \<lparr>cn_payload = None, cn_size = 0, cn_msg_id = msg_id, cn_ret = 0, cn_type = 0,
                    cn_num_fragments = 0, cn_fragments_received = 0, cn_rm_error = 0, cn_seq = 0,
                    cn_seq_done = (if needed then Some False else None)\<rparr>
           in (Inr p, rm_set p c s\<lparr>rm_next := p + 1\<rparr>))"

text \<open>The allocation's size is computed in \<^verbatim>\<open>size_t\<close>, so it wraps; the source of the copy is the
  receive buffer, so a copy that reads past it is a fault.\<close>

definition gh_rm_init_connection_buff ::
  "(rm_alloc \<Rightarrow> bool) \<Rightarrow> u8 list \<Rightarrow> nat \<Rightarrow> u64 \<Rightarrow> gh_rm_connection \<Rightarrow> (int, gh_rm_connection) outcome" where
  "gh_rm_init_connection_buff kz recv_buff hdr_size payload_size c =
     (let hdr = rpc_hdr_of recv_buff;
          c = c\<lparr>cn_num_fragments := hd_fragments hdr, cn_fragments_received := 0, cn_type := hd_type hdr\<rparr>;
          max_buf_size = payload_size + ucast (hd_fragments hdr) * 232
      in if payload_size = 0 then Done 0 c
         else if max_buf_size < payload_size then Done (- EINVAL) c
         else if \<not> kz (A_payload (unat max_buf_size)) then Done (- ENOMEM) c
         else if RM_RECV_BUFF_SIZE < hdr_size + unat payload_size then Fault
         else Done 0 (c\<lparr>cn_payload := Some (take (unat payload_size) (drop hdr_size recv_buff) @
                           replicate (unat max_buf_size - unat payload_size) 0),
                        cn_size := unat payload_size\<rparr>))"

definition gh_rm_process_notif ::
  "(rm_alloc \<Rightarrow> bool) \<Rightarrow> u8 list \<Rightarrow> 't rm_state \<Rightarrow> (conn_ptr, 't rm_state) outcome" where
  "gh_rm_process_notif kz msg s =
     (case gh_rm_alloc_connection kz (hd_msg_id (rpc_hdr_of msg)) False s of
        (Inl err, s) \<Rightarrow> Fault
      | (Inr p, s) \<Rightarrow>
          (case rm_conns s p of
             None \<Rightarrow> Fault
           | Some c \<Rightarrow>
               (case gh_rm_init_connection_buff kz msg GH_RM_HDR_SIZE (of_nat (length msg) - 8) c of
                  Done ret c \<Rightarrow> if ret \<noteq> 0 then Done Null (rm_kfree p s) else Done (Conn p) (rm_set p c s)
                | _ \<Rightarrow> Fault)))"

definition gh_rm_process_rply ::
  "(rm_alloc \<Rightarrow> bool) \<Rightarrow> bool \<Rightarrow> u8 list \<Rightarrow> 't rm_state \<Rightarrow> (conn_ptr, 't rm_state) outcome" where
  "gh_rm_process_rply kz lock_ok recv_buff s =
     (let hdr = rpc_hdr_of recv_buff in
      if \<not> lock_ok then Done (ErrPtr (- ERESTARTSYS)) s
      else case rm_idr s (hd_seq hdr) of
        None \<Rightarrow> Done (ErrPtr (- EINVAL)) s
      | Some p \<Rightarrow>
          (case rm_conns s p of
             None \<Rightarrow> Fault
           | Some c \<Rightarrow>
               if cn_seq c \<noteq> hd_seq hdr \<or> cn_msg_id c \<noteq> hd_msg_id hdr then Done (ErrPtr (- EINVAL)) s
               else case gh_rm_init_connection_buff kz recv_buff GH_RM_REPLY_HDR_SIZE
                           (of_nat (length recv_buff) - 12) c of
                 Done ret c \<Rightarrow>
                   if ret < 0 then Done (ErrPtr ret) (rm_set p c s)
                   else Done (Conn p) (rm_set p (c\<lparr>cn_rm_error := reply_err_code recv_buff\<rparr>) s)
               | _ \<Rightarrow> Fault))"

text \<open>A continuation is appended at \<^verbatim>\<open>payload + size\<close>; a NULL payload or a copy past the end of
  the allocation is a fault. A different message id is only logged.\<close>

definition gh_rm_process_cont :: "u8 list \<Rightarrow> gh_rm_connection \<Rightarrow> (int, gh_rm_connection) outcome" where
  "gh_rm_process_cont recv_buff c =
     (let hdr = rpc_hdr_of recv_buff in
      if cn_num_fragments c \<noteq> hd_fragments hdr then Done (- EINVAL) c
      else case cn_payload c of
        None \<Rightarrow> Fault
      | Some buf \<Rightarrow>
          (case mem_write buf (cn_size c) (drop GH_RM_HDR_SIZE recv_buff) of
             None \<Rightarrow> Fault
           | Some buf' \<Rightarrow>
               Done 0 (c\<lparr>cn_payload := Some buf',
                         cn_size := cn_size c + (length recv_buff - GH_RM_HDR_SIZE),
                         cn_fragments_received := cn_fragments_received c + 1\<rparr>)))"

text \<open>\<^verbatim>\<open>complete()\<close> on a completion that was never initialised is a fault.\<close>

definition gh_rm_complete_connection ::
  "(rm_alloc \<Rightarrow> bool) \<Rightarrow> conn_ptr \<Rightarrow> 't rm_state \<Rightarrow> (bool, 't rm_state) outcome" where
  "gh_rm_complete_connection kz connection s =
     (case connection of
        Null \<Rightarrow> Done False s
      | ErrPtr e \<Rightarrow> Fault
      | Conn p \<Rightarrow>
          (case rm_conns s p of
             None \<Rightarrow> Fault
           | Some c \<Rightarrow>
               if cn_fragments_received c \<noteq> cn_num_fragments c then Done False s
               else if cn_type c = GH_RM_RPC_TYPE_RPLY then
                 (case cn_seq_done c of None \<Rightarrow> Fault
                  | Some _ \<Rightarrow> Done True (rm_set p (c\<lparr>cn_seq_done := Some True\<rparr>) s))
               else if cn_type c = GH_RM_RPC_TYPE_NOTIF then
                 (if \<not> kz A_validate then Done True (rm_kfree p s)
                  else Done True (s\<lparr>rm_works := rm_works s @ [p]\<rparr>))
               else Done True s))"

definition gh_rm_abort_connection :: "conn_ptr \<Rightarrow> 't rm_state \<Rightarrow> (unit, 't rm_state) outcome" where
  "gh_rm_abort_connection connection s =
     (case connection of
        Null \<Rightarrow> Fault
      | ErrPtr e \<Rightarrow> Fault
      | Conn p \<Rightarrow>
          (case rm_conns s p of
             None \<Rightarrow> Fault
           | Some c \<Rightarrow>
               if cn_type c = GH_RM_RPC_TYPE_RPLY then
                 (case cn_seq_done c of None \<Rightarrow> Fault
                  | Some _ \<Rightarrow> Done () (rm_set p (c\<lparr>cn_ret := - EIO, cn_seq_done := Some True\<rparr>) s))
               else Done () (rm_kfree p s)))"

section \<open>The receive task\<close>

definition rm_abort_current :: "'t rm_state \<Rightarrow> (unit, 't rm_state) outcome" where
  "rm_abort_current s = (if rm_cur s \<noteq> Null then gh_rm_abort_connection (rm_cur s) s else Done () s)"

text \<open>The \<^verbatim>\<open>switch\<close> on the message type, ending with the new value of \<^verbatim>\<open>connection\<close>.\<close>

definition rm_dispatch :: "rm_rx \<Rightarrow> 't rm_state \<Rightarrow> (conn_ptr, 't rm_state) outcome" where
  "rm_dispatch rx s =
     (let msg = rx_bytes rx; ty = hd_type (rpc_hdr_of msg) in
      if ty = GH_RM_RPC_TYPE_NOTIF then
        obind (rm_abort_current s) (\<lambda>_ s. gh_rm_process_notif (rx_kz rx) msg s)
      else if ty = GH_RM_RPC_TYPE_RPLY then
        obind (rm_abort_current s) (\<lambda>_ s. gh_rm_process_rply (rx_kz rx) (rx_lock_ok rx) msg s)
      else if ty = GH_RM_RPC_TYPE_CONT then
        (case rm_cur s of
           Null \<Rightarrow> Done Null s
         | ErrPtr e \<Rightarrow> Fault
         | Conn p \<Rightarrow>
             (case rm_conns s p of
                None \<Rightarrow> Fault
              | Some c \<Rightarrow>
                  (case gh_rm_process_cont msg c of
                     Done _ c \<Rightarrow> Done (Conn p) (rm_set p c s)
                   | _ \<Rightarrow> Fault)))
      else Done (rm_cur s) s)"

definition gh_rm_recv_task_step :: "rm_rx \<Rightarrow> 't rm_state \<Rightarrow> (unit, 't rm_state) outcome" where
  "gh_rm_recv_task_step rx s =
     (if rx_ret rx < 0 then Done () s
      else if length (rx_bytes rx) \<le> GH_RM_HDR_SIZE then Done () s
      else obind (rm_dispatch rx s) (\<lambda>connection s.
        obind (gh_rm_complete_connection (rx_kz rx) connection s) (\<lambda>done s.
          Done () (s\<lparr>rm_cur := (if done then Null else connection)\<rparr>))))"

fun gh_rm_recv_task_fn :: "rm_rx list \<Rightarrow> 't rm_state \<Rightarrow> (unit, 't rm_state) outcome" where
  "gh_rm_recv_task_fn [] s = Done () s"
| "gh_rm_recv_task_fn (rx # rxs) s = obind (gh_rm_recv_task_step rx s) (\<lambda>_ s. gh_rm_recv_task_fn rxs s)"

text \<open>The work item that validates a complete notification and runs the notifier chain.\<close>

definition gh_rm_validate_notif :: "ptr \<Rightarrow> 't rm_state \<Rightarrow> (unit, 't rm_state) outcome" where
  "gh_rm_validate_notif p s =
     (case rm_conns s p of
        None \<Rightarrow> Fault
      | Some c \<Rightarrow>
          let payload = (case cn_payload c of None \<Rightarrow> [] | Some b \<Rightarrow> take (cn_size c) b);
              s' = rm_kfree p (s\<lparr>rm_works := remove1 p (rm_works s)\<rparr>)
          in (case rm_notif_check (cn_msg_id c) payload (cn_size c) of
                None \<Rightarrow> Done () s'
              | Some payload' \<Rightarrow> Done () (s'\<lparr>rm_chain := rm_chain s @ [(cn_msg_id c, payload')]\<rparr>)))"

section \<open>Requests\<close>

definition rm_request_hdr :: "nat \<Rightarrow> nat \<Rightarrow> u32 \<Rightarrow> u16 \<Rightarrow> gh_rm_rpc_hdr" where
  "rm_request_hdr i num_fragments message_id seq =
     \<lparr>hd_version = GH_RM_RPC_HDR_VERSION_ONE, hd_hdr_words = GH_RM_RPC_HDR_WORDS,
      hd_type = (if i = 0 then GH_RM_RPC_TYPE_REQ else GH_RM_RPC_TYPE_CONT),
      hd_fragments = of_nat num_fragments, hd_seq = seq, hd_msg_id = message_id\<rparr>"

function rm_send_loop ::
  "(u8 list \<Rightarrow> u64 \<Rightarrow> 't \<Rightarrow> (int, 't) outcome) \<Rightarrow> u32 \<Rightarrow> u16 \<Rightarrow> nat \<Rightarrow> nat \<Rightarrow> nat \<Rightarrow> u8 list \<Rightarrow> 't \<Rightarrow>
   (int, 't) outcome" where
  "rm_send_loop send message_id seq num_fragments i buff_size_remaining req_buff_curr t =
     (if num_fragments < i then Done 0 t
      else
        let payload_size = (if GH_RM_MAX_MSG_SIZE_BYTES < buff_size_remaining
                            then GH_RM_MAX_MSG_SIZE_BYTES else buff_size_remaining);
            remaining = (if GH_RM_MAX_MSG_SIZE_BYTES < buff_size_remaining
                         then buff_size_remaining - payload_size else buff_size_remaining);
            msg = rpc_hdr_bytes (rm_request_hdr i num_fragments message_id seq) @ take payload_size req_buff_curr;
            tx_flags = (if i = num_fragments then RM_TX_PUSH else 0)
        in obind (send msg tx_flags t) (\<lambda>ret t.
             if ret \<noteq> 0 then Done ret t
             else rm_send_loop send message_id seq num_fragments (i + 1) remaining
                    (drop payload_size req_buff_curr) t))"
  by pat_completeness auto
termination by (relation "measure (\<lambda>(send, m, q, n, i, r, b, t). Suc n - i)") auto

declare rm_send_loop.simps [simp del]

text \<open>\<open>desc_ok\<close> is the test that \<^verbatim>\<open>gh_rm_msgq_desc\<close> is set; the fragment count is a 32-bit integer.\<close>

definition rm_num_fragments :: "nat \<Rightarrow> u32" where
  "rm_num_fragments req_buff_size = of_nat ((req_buff_size + GH_RM_MAX_MSG_SIZE_BYTES - 1) div GH_RM_MAX_MSG_SIZE_BYTES) - 1"

definition gh_rm_send_request ::
  "(u8 list \<Rightarrow> u64 \<Rightarrow> 't \<Rightarrow> (int, 't) outcome) \<Rightarrow> (rm_alloc \<Rightarrow> bool) \<Rightarrow> bool \<Rightarrow> bool \<Rightarrow> u32 \<Rightarrow> u8 list \<Rightarrow> u16 \<Rightarrow>
   't \<Rightarrow> (int, 't) outcome" where
  "gh_rm_send_request send kz desc_ok lock_ok message_id req seq t =
     (if \<not> desc_ok then Done (- EPROBE_DEFER) t
      else if GH_RM_MAX_NUM_FRAGMENTS < rm_num_fragments (length req) then Done (- E2BIG) t
      else if \<not> kz A_msg then Done (- ENOMEM) t
      else if \<not> lock_ok then Done (- ERESTARTSYS) t
      else rm_send_loop send message_id seq (unat (rm_num_fragments (length req))) 0 (length req) req t)"

text \<open>\<^verbatim>\<open>wait_for_completion\<close> while the receive task runs.\<close>

fun rm_wait_for_completion :: "ptr \<Rightarrow> rm_rx list \<Rightarrow> 't rm_state \<Rightarrow> (rm_rx list, 't rm_state) outcome" where
  "rm_wait_for_completion p rxs s =
     (case rm_conns s p of
        None \<Rightarrow> Fault
      | Some c \<Rightarrow>
          if cn_seq_done c = Some True then Done rxs s
          else (case rxs of
                  [] \<Rightarrow> Blocked s
                | rx # rxs' \<Rightarrow> obind (gh_rm_recv_task_step rx s) (\<lambda>_ s. rm_wait_for_completion p rxs' s)))"

declare rm_wait_for_completion.simps [simp del]

text \<open>
  The parameters of a call are what its environment decides: allocations, the two
  interruptible locks, the number \<^verbatim>\<open>idr_alloc_cyclic\<close> returns (negative when it fails), and the
  messages the receive task gets while the caller waits.
\<close>

record rm_call_env =
  ce_kz :: "rm_alloc \<Rightarrow> bool"
  ce_idr_lock_ok :: bool
  ce_idr :: int
  ce_desc_ok :: bool
  ce_send_lock_ok :: bool
  ce_rxs :: "rm_rx list"

text \<open>The result: the value stored through \<^verbatim>\<open>rm_error\<close> (if any), and an error pointer or the
  payload (\<open>None\<close> for NULL) together with the size stored through \<^verbatim>\<open>resp_buff_size\<close>.\<close>

type_synonym rm_call_result = "u32 option \<times> (int + u8 list option \<times> nat)"

definition rm_call_finish :: "ptr \<Rightarrow> 't rm_state \<Rightarrow> (rm_call_result, 't rm_state) outcome" where
  "rm_call_finish p s =
     (case rm_conns s p of
        None \<Rightarrow> Fault
      | Some c \<Rightarrow>
          let s = rm_kfree p (s\<lparr>rm_idr := (rm_idr s)(cn_seq c := None)\<rparr>) in
          if cn_rm_error c \<noteq> 0 then Done (Some (cn_rm_error c), Inl (gh_remap_error (sint (cn_rm_error c)))) s
          else if cn_ret c \<noteq> 0 then Done (Some (cn_rm_error c), Inl (cn_ret c)) s
          else Done (Some (cn_rm_error c), Inr (map_option (take (cn_size c)) (cn_payload c), cn_size c)) s)"

definition gh_rm_call ::
  "(u8 list \<Rightarrow> u64 \<Rightarrow> 't \<Rightarrow> (int, 't) outcome) \<Rightarrow> rm_call_env \<Rightarrow> u32 \<Rightarrow> u8 list option \<Rightarrow> bool \<Rightarrow> 't rm_state \<Rightarrow>
   (rm_call_result, 't rm_state) outcome" where
  "gh_rm_call send env message_id req_buff outs_ok s =
     (if message_id = 0 \<or> req_buff = None \<or> \<not> outs_ok then Done (None, Inl (- EINVAL)) s
      else case gh_rm_alloc_connection (ce_kz env) message_id True s of
        (Inl err, s) \<Rightarrow> Done (None, Inl err) s
      | (Inr p, s) \<Rightarrow>
          if \<not> ce_idr_lock_ok env then Done (None, Inl (- ERESTARTSYS)) (rm_kfree p s)
          else let seq = (word_of_int (ce_idr env) :: u16);
                   s = s\<lparr>rm_conns := (rm_conns s)(p := map_option (cn_seq_update (\<lambda>_. seq)) (rm_conns s p)),
                         rm_idr := (if ce_idr env < 0 then rm_idr s else (rm_idr s)(seq \<mapsto> p))\<rparr>
               in (case gh_rm_send_request send (ce_kz env) (ce_desc_ok env) (ce_send_lock_ok env)
                          message_id (the req_buff) seq (rm_tx s) of
                     Fault \<Rightarrow> Fault
                   | Blocked t \<Rightarrow> Blocked (s\<lparr>rm_tx := t\<rparr>)
                   | Done ret t \<Rightarrow>
                       let s = s\<lparr>rm_tx := t\<rparr> in
                       if ret < 0 then Done (None, Inl ret) (rm_kfree p s)
                       else obind (rm_wait_for_completion p (ce_rxs env) s) (\<lambda>_ s. rm_call_finish p s)))"

section \<open>VM names\<close>

abbreviation (input) GH_VM_MAX :: nat where "GH_VM_MAX \<equiv> 7"

definition vm_name_map :: "(nat \<times> string \<times> string) list" where
  "vm_name_map =
     [(1, ''pvm'', ''''), (2, ''trustedvm'', ''qcom,trustedvm''), (3, ''cpusys_vm'', ''qcom,cpusysvm''),
      (4, ''oem_vm'', ''qcom,oemvm''), (5, ''autoghgvm'', ''qcom,autoghgvm''),
      (6, ''autoghgvmlv'', ''qcom,autoghgvmlv'')]"

definition gh_get_image_name :: "string \<Rightarrow> nat" where
  "gh_get_image_name str =
     (case List.find (\<lambda>(v, img, nm). str = img) vm_name_map of Some (v, _) \<Rightarrow> v | None \<Rightarrow> GH_VM_MAX)"

definition gh_get_vm_name :: "string \<Rightarrow> nat" where
  "gh_get_vm_name str =
     (case List.find (\<lambda>(v, img, nm). str = nm) vm_name_map of Some (v, _) \<Rightarrow> v | None \<Rightarrow> GH_VM_MAX)"

end
