(* ===== verification/Rm_Transport.thy ===== *)
theory Rm_Transport
  imports Rm_Core Msgq_IO
begin

text \<open>
  Sending requests to the Resource Manager: fragmentation of a request by
  \<^verbatim>\<open>gh_rm_send_request\<close>, against a contract for the transport below it (a locale) which the
  message queue driver fulfils (its interpretation).
\<close>

section \<open>Reference: the messages of a request\<close>

function rm_chunk :: "u8 list \<Rightarrow> u8 list list" where
  "rm_chunk xs = (if xs = [] then []
     else take GH_RM_MAX_MSG_SIZE_BYTES xs # rm_chunk (drop GH_RM_MAX_MSG_SIZE_BYTES xs))"
  by pat_completeness auto
termination by (relation "measure length") auto

declare rm_chunk.simps [simp del]

lemma rm_chunk_Nil [simp]: "rm_chunk [] = []"
  by (simp add: rm_chunk.simps)

lemma concat_rm_chunk [simp]: "concat (rm_chunk xs) = xs"
  by (induction xs rule: rm_chunk.induct) (subst rm_chunk.simps, simp)

lemma length_rm_chunk: "length (rm_chunk xs) = (length xs + 231) div 232"
proof (induction xs rule: rm_chunk.induct)
  case (1 xs)
  show ?case
  proof (cases "xs = []")
    case False
    have "length (rm_chunk xs) = Suc ((length xs - 232 + 231) div 232)"
      using 1 False by (simp add: rm_chunk.simps [of xs])
    also have "\<dots> = (length xs + 231) div 232"
    proof (cases "length xs \<le> 232")
      case True
      then have "length xs + 231 = 232 + (length xs - 1)" "length xs - 1 < 232"
        using False by (cases xs, auto)
      then show ?thesis using True by simp
    next
      case False
      then have "length xs + 231 = 232 + (length xs - 232 + 231)" by simp
      then have "(length xs + 231) div 232 = Suc ((length xs - 232 + 231) div 232)"
        by (metis div_add_self1 plus_1_eq_Suc add.commute zero_neq_numeral)
      then show ?thesis by simp
    qed
    finally show ?thesis .
  qed simp
qed

lemma rm_chunk_sizes: "c \<in> set (rm_chunk xs) \<Longrightarrow> c \<noteq> [] \<and> length c \<le> GH_RM_MAX_MSG_SIZE_BYTES"
  by (induction xs rule: rm_chunk.induct) (subst (asm) (2) rm_chunk.simps, auto split: if_splits)

fun rm_request_from :: "nat \<Rightarrow> nat \<Rightarrow> u32 \<Rightarrow> u16 \<Rightarrow> u8 list list \<Rightarrow> (u8 list \<times> u64) list" where
  "rm_request_from i n mid seq [] = []"
| "rm_request_from i n mid seq (c # cs) =
     (rpc_hdr_bytes (rm_request_hdr i n mid seq) @ c, if i = n then RM_TX_PUSH else 0) #
     rm_request_from (Suc i) n mid seq cs"

definition rm_request_msgs :: "u32 \<Rightarrow> u16 \<Rightarrow> u8 list \<Rightarrow> (u8 list \<times> u64) list" where
  "rm_request_msgs mid seq req = rm_request_from 0 (length (rm_chunk req) - 1) mid seq (rm_chunk req)"

lemma length_rm_request_from [simp]: "length (rm_request_from i n mid seq cs) = length cs"
  by (induction cs arbitrary: i) auto

section \<open>Contract of the transport\<close>

text \<open>
  \<open>log\<close> is what the peer has accepted so far, \<open>inv\<close> the transport's own invariant: a send that
  returns 0 appends the message, any other result or a sender still asleep appends nothing,
  and results are 0 or negative.
\<close>

locale rm_transport =
  fixes send :: "u8 list \<Rightarrow> u64 \<Rightarrow> 't \<Rightarrow> (int, 't) outcome"
    and inv :: "'t \<Rightarrow> bool"
    and log :: "'t \<Rightarrow> (u8 list \<times> u64) list"
  assumes send_logs: "inv t \<Longrightarrow> 0 < length m \<Longrightarrow> length m \<le> 240 \<Longrightarrow> fl \<in> {0, RM_TX_PUSH} \<Longrightarrow>
    outcome_spec (\<lambda>r u. inv u \<and> r \<le> 0 \<and> log u = log t @ (if r = 0 then [(m, fl)] else []))
      (\<lambda>u. inv u \<and> log u = log t) (send m fl t)"
begin

definition sent_prefix :: "'t \<Rightarrow> (u8 list \<times> u64) list \<Rightarrow> int \<Rightarrow> 't \<Rightarrow> bool" where
  "sent_prefix t ms r u \<longleftrightarrow> inv u \<and> r \<le> 0 \<and>
     (if r = 0 then log u = log t @ ms else \<exists>k<length ms. log u = log t @ take k ms)"

definition asleep_prefix :: "'t \<Rightarrow> (u8 list \<times> u64) list \<Rightarrow> 't \<Rightarrow> bool" where
  "asleep_prefix t ms u \<longleftrightarrow> inv u \<and> (\<exists>k<length ms. log u = log t @ take k ms)"

lemma prefix_Cons:
  assumes u: "log u = log t @ [x]" and m: "outcome_spec (sent_prefix u ms) (asleep_prefix u ms) m"
  shows "outcome_spec (sent_prefix t (x # ms)) (asleep_prefix t (x # ms)) m"
proof -
  have ext: "\<exists>k'<length (x # ms). log v = log t @ take k' (x # ms)"
    if "\<exists>k<length ms. log v = log u @ take k ms" for v
  proof -
    from that obtain k where "k < length ms" "log v = log u @ take k ms" by blast
    with u show ?thesis by (intro exI [of _ "Suc k"]) simp
  qed
  show ?thesis
  proof (cases m)
    case (Done r v)
    then show ?thesis using m u ext by (cases "r = 0") (simp_all add: sent_prefix_def)
  next
    case (Blocked v)
    then show ?thesis using m ext by (simp add: asleep_prefix_def)
  qed (use m in simp)
qed

text \<open>One iteration of the loop.\<close>

lemma send_loop_step:
  assumes "cur \<noteq> []" "i \<le> n"
  shows "rm_send_loop send mid seq n i (length cur) cur t =
      obind (send (rpc_hdr_bytes (rm_request_hdr i n mid seq) @ take 232 cur) (if i = n then RM_TX_PUSH else 0) t)
        (\<lambda>ret t. if ret \<noteq> 0 then Done ret t
          else rm_send_loop send mid seq n (Suc i) (if 232 < length cur then length cur - 232 else length cur)
               (drop 232 cur) t)"
proof -
  show ?thesis using assms
    by (cases "232 < length cur") (simp_all add: rm_send_loop.simps [of send mid seq n i] Let_def cong: if_cong)
qed

lemma send_loop_sends:
  assumes "inv t" "length (rm_chunk cur) + i = Suc n" "cur \<noteq> []"
  shows "outcome_spec (sent_prefix t (rm_request_from i n mid seq (rm_chunk cur)))
     (asleep_prefix t (rm_request_from i n mid seq (rm_chunk cur)))
     (rm_send_loop send mid seq n i (length cur) cur t)"
  using assms
proof (induction "rm_chunk cur" arbitrary: cur i t)
  case Nil
  then show ?case by (simp add: rm_chunk.simps split: if_splits)
next
  case (Cons c cs)
  let ?m = "rpc_hdr_bytes (rm_request_hdr i n mid seq) @ c" and ?fl = "if i = n then RM_TX_PUSH else 0"
  let ?x = "(?m, ?fl)"
  let ?ms = "rm_request_from (Suc i) n mid seq cs"
  have c: "c = take 232 cur" "cs = rm_chunk (drop 232 cur)" "rm_chunk cur = c # cs"
    using Cons.hyps(2) Cons.prems(3) by (simp_all add: rm_chunk.simps [of cur])
  have i: "i \<le> n" using Cons.prems(2) c(3) by simp
  have first: "outcome_spec (\<lambda>r u. inv u \<and> r \<le> 0 \<and> log u = log t @ (if r = 0 then [?x] else []))
      (\<lambda>u. inv u \<and> log u = log t) (send ?m ?fl t)"
    by (rule send_logs [OF Cons.prems(1)]) (simp_all add: c(1))
  have rest: "outcome_spec (sent_prefix t (?x # ?ms)) (asleep_prefix t (?x # ?ms))
      (rm_send_loop send mid seq n (Suc i) (if 232 < length cur then length cur - 232 else length cur) (drop 232 cur) u)"
    if u: "inv u" "log u = log t @ [?x]" for u
  proof (rule prefix_Cons [OF u(2)], cases "cs = []")
    case True
    then have "i = n" using Cons.prems(2) c(3) by simp
    then show "outcome_spec (sent_prefix u ?ms) (asleep_prefix u ?ms)
      (rm_send_loop send mid seq n (Suc i) (if 232 < length cur then length cur - 232 else length cur) (drop 232 cur) u)"
      using u(1) True by (simp add: rm_send_loop.simps [of send mid seq n "Suc n"] sent_prefix_def)
  next
    case False
    then have ne: "drop 232 cur \<noteq> []" using c(2) by auto
    then have "(if 232 < length cur then length cur - 232 else length cur) = length (drop 232 cur)" by simp
    with Cons.hyps(1) [OF c(2) u(1), of "Suc i"] Cons.prems(2) c ne
    show "outcome_spec (sent_prefix u ?ms) (asleep_prefix u ?ms)
      (rm_send_loop send mid seq n (Suc i) (if 232 < length cur then length cur - 232 else length cur) (drop 232 cur) u)"
      by (simp del: length_drop)
  qed
  show ?case
    unfolding send_loop_step [OF Cons.prems(3) i] c(3) rm_request_from.simps
    using first rest c(1)
    by (cases "send ?m ?fl t")
       (auto simp: sent_prefix_def [of t] asleep_prefix_def [of t] intro: exI [of _ 0])
qed

lemma send_request_sends:
  assumes "inv t" "req \<noteq> []" "unat (rm_num_fragments (length req)) = length (rm_chunk req) - 1"
    and "\<not> GH_RM_MAX_NUM_FRAGMENTS < rm_num_fragments (length req)" "kz A_msg"
  shows "outcome_spec (sent_prefix t (rm_request_msgs mid seq req)) (asleep_prefix t (rm_request_msgs mid seq req))
     (gh_rm_send_request send kz True True mid req seq t)"
proof -
  have "rm_chunk req \<noteq> []" using assms(2) by (simp add: rm_chunk.simps [of req])
  then have "length (rm_chunk req) + 0 = Suc (length (rm_chunk req) - 1)" by (cases "rm_chunk req") auto
  from send_loop_sends [OF assms(1) this assms(2), of mid seq] show ?thesis
    using assms(3-5) by (simp add: gh_rm_send_request_def rm_request_msgs_def)
qed

end

section \<open>The message queue driver is such a transport\<close>

text \<open>Each send consumes one list of events, what happens while that call sleeps.\<close>

definition rm_msgq_send ::
  "'h msgq_hcall \<Rightarrow> ptr \<Rightarrow> u8 list \<Rightarrow> u64 \<Rightarrow> 'h msgq_state \<times> 'h msgq_event task_event list list \<Rightarrow>
   (int, 'h msgq_state \<times> 'h msgq_event task_event list list) outcome" where
  "rm_msgq_send hv d m fl st =
     (case gh_msgq_send hv (Some d) (Some m) (length m) fl (fst st) (concat (take 1 (snd st))) of
        Done r t \<Rightarrow> Done r (t, drop 1 (snd st))
      | Blocked t \<Rightarrow> Blocked (t, drop 1 (snd st))
      | Fault \<Rightarrow> Fault)"

definition rm_msgq_inv ::
  "'h msgq_hcall \<Rightarrow> ('h \<Rightarrow> (gh_capid_t \<times> u8 list \<times> u64) list) \<Rightarrow> ptr \<Rightarrow>
   'h msgq_state \<times> 'h msgq_event task_event list list \<Rightarrow> bool" where
  "rm_msgq_inv hv sent d st \<longleftrightarrow> hv_send_logs hv sent \<and> msgq_wf (fst st) \<and> mq_descs (fst st) d \<noteq> None \<and>
     (\<forall>es\<in>set (snd st). \<forall>x. Env x \<in> set es \<longrightarrow> msgq_event_quiet sent x)"

definition rm_msgq_log ::
  "('h \<Rightarrow> (gh_capid_t \<times> u8 list \<times> u64) list) \<Rightarrow> 'h msgq_state \<times> 'h msgq_event task_event list list \<Rightarrow>
   (u8 list \<times> u64) list" where
  "rm_msgq_log sent st = map snd (sent (mq_hyp (fst st)))"

lemma msgq_attached_desc: "msgq_attached d p s \<Longrightarrow> msgq_wf s \<and> mq_descs s d \<noteq> None"
  using msgq_wfD(3) [of s p] by (force simp: msgq_attached_def msgq_entry_ok_def)

lemma msgq_code_le: "msgq_code r \<Longrightarrow> r \<le> 0"
  by (auto simp: msgq_code_def)

interpretation rmq: rm_transport "rm_msgq_send hv d" "rm_msgq_inv hv sent d" "rm_msgq_log sent"
  for hv :: "'h msgq_hcall" and sent d
proof
  fix t :: "'h msgq_state \<times> 'h msgq_event task_event list list" and m :: "u8 list" and fl :: u64
  assume inv: "rm_msgq_inv hv sent d t" and fl: "fl \<in> {0, RM_TX_PUSH}"
  let ?es = "concat (take 1 (snd t))"
  obtain dd where dd: "mq_descs (fst t) d = Some dd" using inv by (auto simp: rm_msgq_inv_def)
  from inv have wf: "msgq_wf (fst t)" and hv: "hv_send_logs hv sent" by (auto simp: rm_msgq_inv_def)
  obtain p where p: "mqd_cap_table dd = Some p" "msgq_attached d p (fst t)" by (rule msgq_wf_desc [OF wf dd])
  have es: "\<forall>x. Env x \<in> set ?es \<longrightarrow> msgq_event_quiet sent x"
    using inv by (cases "snd t") (auto simp: rm_msgq_inv_def)
  have rest: "\<forall>es\<in>set (drop 1 (snd t)). \<forall>x. Env x \<in> set es \<longrightarrow> msgq_event_quiet sent x"
    using inv by (auto simp: rm_msgq_inv_def dest: in_set_dropD)
  have mask: "fl AND GH_MSGQ_HVC_FLAGS_MASK = fl" using fl by auto
  show "outcome_spec (\<lambda>r u. rm_msgq_inv hv sent d u \<and> r \<le> 0 \<and>
      rm_msgq_log sent u = rm_msgq_log sent t @ (if r = 0 then [(m, fl)] else []))
      (\<lambda>u. rm_msgq_inv hv sent d u \<and> rm_msgq_log sent u = rm_msgq_log sent t) (rm_msgq_send hv d m fl t)"
    using gh_msgq_send_log [OF p(2) dd p(1) hv es, of "length m" "Some m" fl] rest hv mask
    by (cases "gh_msgq_send hv (Some d) (Some m) (length m) fl (fst t) ?es")
       (auto simp: rm_msgq_send_def rm_msgq_inv_def rm_msgq_log_def dest!: msgq_attached_desc msgq_code_le)
qed

section \<open>Properties\<close>

lemma rm_num_fragments_small:
  assumes "0 < n" "n \<le> 63 * GH_RM_MAX_MSG_SIZE_BYTES"
  shows "unat (rm_num_fragments n) = (n + 231) div 232 - 1" "\<not> GH_RM_MAX_NUM_FRAGMENTS < rm_num_fragments n"
proof -
  let ?k = "(n + 231) div 232"
  have k: "1 \<le> ?k" "?k \<le> 63" using assms by (simp_all add: Suc_le_eq div_greater_zero_iff less_mult_imp_div_less flip: less_Suc_eq_le)
  then have "rm_num_fragments n = of_nat (?k - 1)" by (simp add: rm_num_fragments_def of_nat_diff add.commute)
  moreover have "unat (of_nat m :: u32) = m" if "m < 64" for m using that by (simp add: unat_of_nat)
  then have "unat (of_nat (?k - 1) :: u32) = ?k - 1" using k by (intro \<open>\<And>m. m < 64 \<Longrightarrow> unat (of_nat m :: u32) = m\<close>) linarith
  ultimately show u: "unat (rm_num_fragments n) = ?k - 1" by simp
  show "\<not> GH_RM_MAX_NUM_FRAGMENTS < rm_num_fragments n" unfolding word_less_nat_alt u using k(2) by simp
qed

lemma rm_request_from_payload:
  "concat (map (\<lambda>(m, f). drop GH_RM_HDR_SIZE m) (rm_request_from i n mid seq cs)) = concat cs"
  by (induction cs arbitrary: i) simp_all

lemma rm_request_from_hdrs:
  assumes "n < 64" "(m, f) \<in> set (rm_request_from i n mid seq cs)" "\<forall>c\<in>set cs. c \<noteq> [] \<and> length c \<le> 232"
  shows "8 < length m \<and> length m \<le> 240 \<and> hd_seq (rpc_hdr_of m) = seq \<and> hd_msg_id (rpc_hdr_of m) = mid \<and>
     unat (hd_fragments (rpc_hdr_of m)) = n"
  using assms
proof (induction cs arbitrary: i)
  case (Cons c cs)
  have "rpc_hdr_wf (rm_request_hdr i n mid seq)"
    using assms(1) by (auto simp: rpc_hdr_wf_def rm_request_hdr_def word_less_nat_alt unat_of_nat)
  then have h: "rpc_hdr_of (rpc_hdr_bytes (rm_request_hdr i n mid seq) @ c) = rm_request_hdr i n mid seq"
    by (rule rpc_hdr_roundtrip_append)
  have n: "unat (of_nat n :: u8) = n" using assms(1) by (simp add: unat_of_nat)
  show ?case using Cons h n by (auto simp: rm_request_hdr_def)
qed simp

text \<open>C9: A request of up to 63 fragments sent through the message queue driver arrives whole: when
  \<^verbatim>\<open>gh_rm_send_request\<close> returns 0 the hypervisor has accepted exactly the request's messages,
  in order and once each; otherwise a proper prefix of them was accepted. The messages carry
  the request's bytes in order, fit the queue's 240 bytes, and all name the same sequence
  number, message id and fragment count.\<close>

theorem gh_rm_send_request_delivers:
  assumes "rm_msgq_inv hv sent d t" and "req \<noteq> []" and "length req \<le> 63 * GH_RM_MAX_MSG_SIZE_BYTES" and "kz A_msg"
  shows "outcome_spec
      (\<lambda>r u. r \<le> 0 \<and> (if r = 0 then rm_msgq_log sent u = rm_msgq_log sent t @ rm_request_msgs mid seq req
         else \<exists>k<length (rm_request_msgs mid seq req). rm_msgq_log sent u = rm_msgq_log sent t @ take k (rm_request_msgs mid seq req)))
      (\<lambda>u. \<exists>k<length (rm_request_msgs mid seq req). rm_msgq_log sent u = rm_msgq_log sent t @ take k (rm_request_msgs mid seq req))
      (gh_rm_send_request (rm_msgq_send hv d) kz True True mid req seq t) \<and>
    concat (map (\<lambda>(m, f). drop GH_RM_HDR_SIZE m) (rm_request_msgs mid seq req)) = req \<and>
    (\<forall>(m, f)\<in>set (rm_request_msgs mid seq req). length m \<le> 240 \<and> hd_seq (rpc_hdr_of m) = seq \<and>
       hd_msg_id (rpc_hdr_of m) = mid \<and> unat (hd_fragments (rpc_hdr_of m)) = length (rm_request_msgs mid seq req) - 1)"
proof (intro conjI)
  have pos: "0 < length req" using assms(2) by simp
  note n = rm_num_fragments_small [OF pos assms(3)]
  have ch: "unat (rm_num_fragments (length req)) = length (rm_chunk req) - 1" using n(1) by (simp add: length_rm_chunk)
  have l: "length (rm_chunk req) - 1 < 64" using n(1) n(2) by (simp add: length_rm_chunk word_less_nat_alt)
  show "outcome_spec
      (\<lambda>r u. r \<le> 0 \<and> (if r = 0 then rm_msgq_log sent u = rm_msgq_log sent t @ rm_request_msgs mid seq req
         else \<exists>k<length (rm_request_msgs mid seq req). rm_msgq_log sent u = rm_msgq_log sent t @ take k (rm_request_msgs mid seq req)))
      (\<lambda>u. \<exists>k<length (rm_request_msgs mid seq req). rm_msgq_log sent u = rm_msgq_log sent t @ take k (rm_request_msgs mid seq req))
      (gh_rm_send_request (rm_msgq_send hv d) kz True True mid req seq t)"
    using rmq.send_request_sends [where kz = kz, OF assms(1,2) ch n(2) assms(4), of mid seq]
    by (cases "gh_rm_send_request (rm_msgq_send hv d) kz True True mid req seq t")
       (auto simp: rmq.sent_prefix_def rmq.asleep_prefix_def)
  show "concat (map (\<lambda>(m, f). drop GH_RM_HDR_SIZE m) (rm_request_msgs mid seq req)) = req"
    by (simp add: rm_request_msgs_def rm_request_from_payload)
  show "\<forall>(m, f)\<in>set (rm_request_msgs mid seq req). length m \<le> 240 \<and> hd_seq (rpc_hdr_of m) = seq \<and>
       hd_msg_id (rpc_hdr_of m) = mid \<and> unat (hd_fragments (rpc_hdr_of m)) = length (rm_request_msgs mid seq req) - 1"
    using rm_request_from_hdrs [OF l] rm_chunk_sizes by (fastforce simp: rm_request_msgs_def)
qed

definition rm_demo_transport ::
  "(gh_capid_t \<times> u8 list \<times> u64) list msgq_state \<times> (gh_capid_t \<times> u8 list \<times> u64) list msgq_event task_event list list" where
  "rm_demo_transport = (msgq_init []\<lparr>mq_caps := mq_caps msgq_demo_state, mq_descs := mq_descs msgq_demo_state,
           mq_cap_list := [1], mq_next := 3\<rparr>, [[Env (Ev_tx_isr 1)]])"

lemma rm_demo_transport_inv: "rm_msgq_inv msgq_log_hcall (\<lambda>h. h) 2 rm_demo_transport"
proof -
  have "msgq_wf (fst rm_demo_transport)"
    by (rule msgq_wfI)
       (auto simp: rm_demo_transport_def msgq_demo_state_def msgq_init_def msgq_entry_ok_def msgq_desc_ok_def split: if_splits)
  moreover have "mq_descs (fst rm_demo_transport) 2 \<noteq> None" by (simp add: rm_demo_transport_def msgq_demo_state_def)
  moreover have "\<forall>es\<in>set (snd rm_demo_transport). \<forall>x. Env x \<in> set es \<longrightarrow> msgq_event_quiet (\<lambda>h. h) x"
    by (auto simp: rm_demo_transport_def)
  ultimately show ?thesis by (simp add: rm_msgq_inv_def hv_send_logs_def msgq_log_hcall_def)
qed

theorem gh_rm_send_request_delivers_witness:
  "outcome_spec
      (\<lambda>r u. r \<le> 0 \<and> (if r = 0 then rm_msgq_log (\<lambda>h. h) u = rm_msgq_log (\<lambda>h. h) rm_demo_transport @ rm_request_msgs 9 1 [1, 2, 3]
         else \<exists>k<length (rm_request_msgs 9 1 [1, 2, 3]).
           rm_msgq_log (\<lambda>h. h) u = rm_msgq_log (\<lambda>h. h) rm_demo_transport @ take k (rm_request_msgs 9 1 [1, 2, 3])))
      (\<lambda>u. \<exists>k<length (rm_request_msgs 9 1 [1, 2, 3]).
           rm_msgq_log (\<lambda>h. h) u = rm_msgq_log (\<lambda>h. h) rm_demo_transport @ take k (rm_request_msgs 9 1 [1, 2, 3]))
      (gh_rm_send_request (rm_msgq_send msgq_log_hcall 2) (\<lambda>_. True) True True 9 [1, 2, 3] 1 rm_demo_transport)"
  by (rule gh_rm_send_request_delivers [OF rm_demo_transport_inv, THEN conjunct1]) simp_all

text \<open>A request that needs more than 63 messages is refused with \<^verbatim>\<open>-E2BIG\<close> before anything is sent,
  and so is an empty request, because its fragment count wraps around to the largest 32-bit
  integer.\<close>

theorem gh_rm_send_request_E2BIG:
  assumes "req = [] \<or> 63 * GH_RM_MAX_MSG_SIZE_BYTES < length req \<and> length req \<le> 2 ^ 32 * GH_RM_MAX_MSG_SIZE_BYTES"
  shows "gh_rm_send_request send kz True lock_ok mid req seq t = Done (- E2BIG) t"
proof -
  have "GH_RM_MAX_NUM_FRAGMENTS < rm_num_fragments (length req)"
  proof (cases "req = []")
    case True
    then show ?thesis by (simp add: rm_num_fragments_def)
  next
    case False
    let ?k = "(length req + 231) div 232"
    have k: "64 \<le> ?k" "?k \<le> 2 ^ 32" using assms False by auto
    have "rm_num_fragments (length req) = of_nat (?k - 1)"
      using k(1) by (simp add: rm_num_fragments_def of_nat_diff add.commute)
    moreover have "unat (of_nat m :: u32) = m" if "m < 2 ^ 32" for m using that by (simp add: unat_of_nat)
    then have "unat (of_nat (?k - 1) :: u32) = ?k - 1"
      using k by (intro \<open>\<And>m. m < 2 ^ 32 \<Longrightarrow> unat (of_nat m :: u32) = m\<close>) linarith
    ultimately show ?thesis using k(1) by (simp only: word_less_nat_alt) simp
  qed
  then show ?thesis by (simp add: gh_rm_send_request_def)
qed

theorem gh_rm_send_request_E2BIG_witness:
  "gh_rm_send_request (\<lambda>m f t. Done 0 t) (\<lambda>_. True) True True 9 [] 1 () = Done (- E2BIG) ()"
  by (rule gh_rm_send_request_E2BIG) simp

end
