(* ===== verification/Rm_Reassembly.thy ===== *)
theory Rm_Reassembly
  imports Rm_Core
begin

text \<open>
  Reassembly of fragmented Resource Manager messages: what the receive task makes of a series
  of messages that a peer sent for one reply or notification.
\<close>

section \<open>Series of messages\<close>

definition rm_good_rx :: "u8 list \<Rightarrow> rm_rx" where
  "rm_good_rx b = \<lparr>rx_kz = (\<lambda>_. True), rx_lock_ok = True, rx_ret = 0, rx_bytes = b\<rparr>"

lemma rm_good_rx_simps [simp]:
  "rx_kz (rm_good_rx b) = (\<lambda>_. True)" "rx_lock_ok (rm_good_rx b)" "rx_ret (rm_good_rx b) = 0" "rx_bytes (rm_good_rx b) = b"
  by (simp_all add: rm_good_rx_def)

definition rm_cont_msgs :: "gh_rm_rpc_hdr \<Rightarrow> u8 list list \<Rightarrow> u8 list list" where
  "rm_cont_msgs h ds = map (\<lambda>d. rpc_hdr_bytes (h\<lparr>hd_type := GH_RM_RPC_TYPE_CONT\<rparr>) @ d) ds"

definition rm_chunks_ok :: "u8 list list \<Rightarrow> bool" where
  "rm_chunks_ok ds \<longleftrightarrow> length ds < 64 \<and> list_all (\<lambda>d. d \<noteq> [] \<and> length d \<le> GH_RM_MAX_MSG_SIZE_BYTES) ds"

definition rm_hdr :: "u8 \<Rightarrow> nat \<Rightarrow> u16 \<Rightarrow> u32 \<Rightarrow> gh_rm_rpc_hdr" where
  "rm_hdr ty n seq msg_id = \<lparr>hd_version = GH_RM_RPC_HDR_VERSION_ONE, hd_hdr_words = GH_RM_RPC_HDR_WORDS, hd_type = ty,
     hd_fragments = of_nat n, hd_seq = seq, hd_msg_id = msg_id\<rparr>"

lemma of_nat_u8_less: "n < 64 \<Longrightarrow> (of_nat n :: u8) < 64"
  by (simp add: word_less_nat_alt unat_of_nat)

lemma rm_hdr_wf: "n < 64 \<Longrightarrow> ty < 4 \<Longrightarrow> rpc_hdr_wf (rm_hdr ty n seq m)"
  by (simp add: rpc_hdr_wf_def rm_hdr_def of_nat_u8_less)

lemma rpc_hdr_wf_cont: "rpc_hdr_wf h \<Longrightarrow> rpc_hdr_wf (h\<lparr>hd_type := GH_RM_RPC_TYPE_CONT\<rparr>)"
  by (simp add: rpc_hdr_wf_def)

section \<open>Continuations\<close>

lemma rm_set_simps [simp]:
  "rm_conns (rm_set p c s) = (rm_conns s)(p \<mapsto> c)" "rm_cur (rm_set p c s) = rm_cur s" "rm_idr (rm_set p c s) = rm_idr s"
  "rm_works (rm_set p c s) = rm_works s" "rm_chain (rm_set p c s) = rm_chain s" "rm_tx (rm_set p c s) = rm_tx s"
  "rm_next (rm_set p c s) = rm_next s" "rm_set p c (rm_set p c' s) = rm_set p c s"
  by (simp_all add: rm_set_def)

lemma rm_kfree_simps [simp]:
  "rm_conns (rm_kfree p s) = (rm_conns s)(p := None)" "rm_cur (rm_kfree p s) = rm_cur s" "rm_idr (rm_kfree p s) = rm_idr s"
  "rm_works (rm_kfree p s) = rm_works s" "rm_chain (rm_kfree p s) = rm_chain s" "rm_tx (rm_kfree p s) = rm_tx s"
  "rm_next (rm_kfree p s) = rm_next s"
  by (simp_all add: rm_kfree_def)

text \<open>One continuation that fits.\<close>

lemma gh_rm_process_cont_step:
  assumes "rpc_hdr_wf h" "cn_num_fragments c = hd_fragments h" "cn_payload c = Some buf"
    and "cn_size c + length d \<le> length buf"
  shows "\<exists>buf'. gh_rm_process_cont (rpc_hdr_bytes (h\<lparr>hd_type := GH_RM_RPC_TYPE_CONT\<rparr>) @ d) c =
      Done 0 (c\<lparr>cn_payload := Some buf', cn_size := cn_size c + length d,
               cn_fragments_received := cn_fragments_received c + 1\<rparr>) \<and>
      length buf' = length buf \<and> take (cn_size c + length d) buf' = take (cn_size c) buf @ d"
proof -
  obtain buf' where b: "mem_write buf (cn_size c) d = Some buf'"
    using mem_write_fits [OF assms(4)] by blast
  show ?thesis
    using assms(2,3) b mem_write_length [OF b] mem_write_prefix [OF b]
      rpc_hdr_roundtrip_append [OF rpc_hdr_wf_cont [OF assms(1)], of d]
    by (intro exI [of _ buf']) (simp add: gh_rm_process_cont_def)
qed

text \<open>The receive task on one continuation: the connection stays current unless it is complete.\<close>

lemma rm_recv_cont_step:
  assumes "rpc_hdr_wf h" "rm_cur s = Conn p" "rm_conns s p = Some c" "cn_num_fragments c = hd_fragments h"
    and "cn_payload c = Some buf" "cn_size c + length d \<le> length buf" "d \<noteq> []"
  obtains b1 where "length b1 = length buf" "take (cn_size c + length d) b1 = take (cn_size c) buf @ d"
    "gh_rm_recv_task_step (rm_good_rx (rpc_hdr_bytes (h\<lparr>hd_type := GH_RM_RPC_TYPE_CONT\<rparr>) @ d)) s =
      obind (gh_rm_complete_connection (\<lambda>_. True) (Conn p)
          (rm_set p (c\<lparr>cn_payload := Some b1, cn_size := cn_size c + length d,
                       cn_fragments_received := cn_fragments_received c + 1\<rparr>) s))
        (\<lambda>done s. Done () (s\<lparr>rm_cur := (if done then Null else Conn p)\<rparr>))"
    "cn_fragments_received c + 1 \<noteq> cn_num_fragments c \<Longrightarrow>
      gh_rm_recv_task_step (rm_good_rx (rpc_hdr_bytes (h\<lparr>hd_type := GH_RM_RPC_TYPE_CONT\<rparr>) @ d)) s =
      Done () (rm_set p (c\<lparr>cn_payload := Some b1, cn_size := cn_size c + length d,
                       cn_fragments_received := cn_fragments_received c + 1\<rparr>) s)"
proof -
  let ?msg = "rpc_hdr_bytes (h\<lparr>hd_type := GH_RM_RPC_TYPE_CONT\<rparr>) @ d"
  obtain b1 where b1: "gh_rm_process_cont ?msg c =
      Done 0 (c\<lparr>cn_payload := Some b1, cn_size := cn_size c + length d, cn_fragments_received := cn_fragments_received c + 1\<rparr>)"
      "length b1 = length buf" "take (cn_size c + length d) b1 = take (cn_size c) buf @ d"
    using gh_rm_process_cont_step [OF assms(1,4,5,6)] by blast
  let ?s1 = "rm_set p (c\<lparr>cn_payload := Some b1, cn_size := cn_size c + length d,
     cn_fragments_received := cn_fragments_received c + 1\<rparr>) s"
  have disp: "rm_dispatch (rm_good_rx ?msg) s = Done (Conn p) ?s1"
    using b1(1) assms(2,3) rpc_hdr_roundtrip_append [OF rpc_hdr_wf_cont [OF assms(1)], of d]
    by (simp add: rm_dispatch_def Let_def)
  have step: "gh_rm_recv_task_step (rm_good_rx ?msg) s =
      obind (gh_rm_complete_connection (\<lambda>_. True) (Conn p) ?s1)
        (\<lambda>done s. Done () (s\<lparr>rm_cur := (if done then Null else Conn p)\<rparr>))"
    using disp assms(7) by (simp add: gh_rm_recv_task_step_def)
  show ?thesis
  proof (rule that [OF b1(2,3) step])
    assume "cn_fragments_received c + 1 \<noteq> cn_num_fragments c"
    then show "gh_rm_recv_task_step (rm_good_rx ?msg) s = Done () ?s1"
      using step assms(2) by (simp add: gh_rm_complete_connection_def rm_set_def)
  qed
qed

lemma unat_u8_inc:
  "unat (x :: u8) + Suc n = unat (y :: u8) \<Longrightarrow> unat (x + 1) = Suc (unat x)"
  using unat_u8_less [of y] by (simp add: unat_plus_if')

lemma u8_inc_eq_iff:
  assumes "unat (x :: u8) + Suc n = unat (y :: u8)"
  shows "x + 1 = y \<longleftrightarrow> n = 0"
  using assms unat_u8_inc [OF assms] by (auto simp: word_unat_eq_iff)

text \<open>A whole run of continuations, up to the completion of the connection.\<close>

lemma rm_recv_conts:
  assumes "rpc_hdr_wf h" "rm_cur s = Conn p" "rm_conns s p = Some c" "cn_num_fragments c = hd_fragments h"
    and "cn_payload c = Some buf" "cn_size c + length ds * GH_RM_MAX_MSG_SIZE_BYTES \<le> length buf"
    and "unat (cn_fragments_received c) + length ds = unat (cn_num_fragments c)"
    and "list_all (\<lambda>d. d \<noteq> [] \<and> length d \<le> GH_RM_MAX_MSG_SIZE_BYTES) ds" "ds \<noteq> []"
  shows "\<exists>buf'. gh_rm_recv_task_fn (map rm_good_rx (rm_cont_msgs h ds)) s =
     obind (gh_rm_complete_connection (\<lambda>_. True) (Conn p)
        (rm_set p (c\<lparr>cn_payload := Some buf', cn_size := cn_size c + length (concat ds),
                    cn_fragments_received := cn_num_fragments c\<rparr>) s))
       (\<lambda>_ t. Done () (t\<lparr>rm_cur := Null\<rparr>)) \<and>
     length buf' = length buf \<and>
     take (cn_size c + length (concat ds)) buf' = take (cn_size c) buf @ concat ds"
  using assms
proof (induction ds arbitrary: s c buf)
  case Nil
  then show ?case by simp
next
  case (Cons d ds)
  have fit: "cn_size c + length d \<le> length buf" and dlen: "d \<noteq> []" "length d \<le> 232"
    using Cons.prems(6,8) by auto
  have un: "unat (cn_fragments_received c) + Suc (length ds) = unat (cn_num_fragments c)" using Cons.prems(7) by simp
  let ?msg = "rpc_hdr_bytes (h\<lparr>hd_type := GH_RM_RPC_TYPE_CONT\<rparr>) @ d"
  obtain b1 where b1: "length b1 = length buf" "take (cn_size c + length d) b1 = take (cn_size c) buf @ d"
    and step: "gh_rm_recv_task_step (rm_good_rx ?msg) s =
      obind (gh_rm_complete_connection (\<lambda>_. True) (Conn p)
          (rm_set p (c\<lparr>cn_payload := Some b1, cn_size := cn_size c + length d,
                       cn_fragments_received := cn_fragments_received c + 1\<rparr>) s))
        (\<lambda>done s. Done () (s\<lparr>rm_cur := (if done then Null else Conn p)\<rparr>))"
    and more: "cn_fragments_received c + 1 \<noteq> cn_num_fragments c \<Longrightarrow> gh_rm_recv_task_step (rm_good_rx ?msg) s =
      Done () (rm_set p (c\<lparr>cn_payload := Some b1, cn_size := cn_size c + length d,
                       cn_fragments_received := cn_fragments_received c + 1\<rparr>) s)"
    by (rule rm_recv_cont_step [OF Cons.prems(1-5) fit dlen(1)]) (erule that)
  let ?c1 = "c\<lparr>cn_payload := Some b1, cn_size := cn_size c + length d, cn_fragments_received := cn_fragments_received c + 1\<rparr>"
  let ?s1 = "rm_set p ?c1 s"
  show ?case
  proof (cases "ds = []")
    case True
    then have eq: "cn_fragments_received c + 1 = cn_num_fragments c" using u8_inc_eq_iff [OF un] by simp
    then have "gh_rm_recv_task_fn (map rm_good_rx (rm_cont_msgs h (d # ds))) s =
      obind (gh_rm_complete_connection (\<lambda>_. True) (Conn p) ?s1) (\<lambda>_ t. Done () (t\<lparr>rm_cur := Null\<rparr>))"
      using step True by (auto simp: rm_cont_msgs_def gh_rm_complete_connection_def split: option.splits)
    then show ?thesis using b1 True eq by (intro exI [of _ b1]) auto
  next
    case False
    then have s1: "gh_rm_recv_task_step (rm_good_rx ?msg) s = Done () ?s1"
      using more u8_inc_eq_iff [OF un] by simp
    have "\<exists>buf'. gh_rm_recv_task_fn (map rm_good_rx (rm_cont_msgs h ds)) ?s1 =
       obind (gh_rm_complete_connection (\<lambda>_. True) (Conn p)
          (rm_set p (?c1\<lparr>cn_payload := Some buf', cn_size := cn_size ?c1 + length (concat ds),
                    cn_fragments_received := cn_num_fragments ?c1\<rparr>) ?s1))
         (\<lambda>_ t. Done () (t\<lparr>rm_cur := Null\<rparr>)) \<and>
       length buf' = length b1 \<and> take (cn_size ?c1 + length (concat ds)) buf' = take (cn_size ?c1) b1 @ concat ds"
      by (rule Cons.IH) (use Cons.prems False un unat_u8_inc [OF un] b1 dlen in auto)
    then obtain b2 where "gh_rm_recv_task_fn (map rm_good_rx (rm_cont_msgs h ds)) ?s1 =
       obind (gh_rm_complete_connection (\<lambda>_. True) (Conn p)
          (rm_set p (?c1\<lparr>cn_payload := Some b2, cn_size := cn_size ?c1 + length (concat ds),
                    cn_fragments_received := cn_num_fragments ?c1\<rparr>) ?s1))
         (\<lambda>_ t. Done () (t\<lparr>rm_cur := Null\<rparr>))" "length b2 = length b1"
       "take (cn_size ?c1 + length (concat ds)) b2 = take (cn_size ?c1) b1 @ concat ds" by blast
    then show ?thesis
      using b1 s1 by (intro exI [of _ b2]) (simp add: rm_cont_msgs_def add.assoc)
  qed
qed

text \<open>A caller that waits for its reply consumes exactly the continuations of that reply.\<close>

lemma rm_wait_conts:
  assumes "rpc_hdr_wf h" "rm_cur s = Conn p" "rm_conns s p = Some c" "cn_num_fragments c = hd_fragments h"
    and "cn_payload c = Some buf" "cn_size c + length ds * GH_RM_MAX_MSG_SIZE_BYTES \<le> length buf"
    and "unat (cn_fragments_received c) + length ds = unat (cn_num_fragments c)"
    and "list_all (\<lambda>d. d \<noteq> [] \<and> length d \<le> GH_RM_MAX_MSG_SIZE_BYTES) ds" "ds \<noteq> []"
    and "cn_type c = GH_RM_RPC_TYPE_RPLY" "cn_seq_done c = Some False"
  shows "rm_wait_for_completion p (map rm_good_rx (rm_cont_msgs h ds)) s =
     obind (gh_rm_recv_task_fn (map rm_good_rx (rm_cont_msgs h ds)) s) (\<lambda>_ t. Done [] t)"
  using assms
proof (induction ds arbitrary: s c buf)
  case Nil
  then show ?case by simp
next
  case (Cons d ds)
  have fit: "cn_size c + length d \<le> length buf" and dlen: "d \<noteq> []" "length d \<le> 232"
    using Cons.prems(6,8) by auto
  have un: "unat (cn_fragments_received c) + Suc (length ds) = unat (cn_num_fragments c)" using Cons.prems(7) by simp
  let ?msg = "rpc_hdr_bytes (h\<lparr>hd_type := GH_RM_RPC_TYPE_CONT\<rparr>) @ d"
  obtain b1 where b1: "length b1 = length buf" "take (cn_size c + length d) b1 = take (cn_size c) buf @ d"
    and step: "gh_rm_recv_task_step (rm_good_rx ?msg) s =
      obind (gh_rm_complete_connection (\<lambda>_. True) (Conn p)
          (rm_set p (c\<lparr>cn_payload := Some b1, cn_size := cn_size c + length d,
                       cn_fragments_received := cn_fragments_received c + 1\<rparr>) s))
        (\<lambda>done s. Done () (s\<lparr>rm_cur := (if done then Null else Conn p)\<rparr>))"
    and more: "cn_fragments_received c + 1 \<noteq> cn_num_fragments c \<Longrightarrow> gh_rm_recv_task_step (rm_good_rx ?msg) s =
      Done () (rm_set p (c\<lparr>cn_payload := Some b1, cn_size := cn_size c + length d,
                       cn_fragments_received := cn_fragments_received c + 1\<rparr>) s)"
    by (rule rm_recv_cont_step [OF Cons.prems(1-5) fit dlen(1)]) (erule that)
  let ?c1 = "c\<lparr>cn_payload := Some b1, cn_size := cn_size c + length d, cn_fragments_received := cn_fragments_received c + 1\<rparr>"
  let ?s1 = "rm_set p ?c1 s"
  have w: "rm_wait_for_completion p (map rm_good_rx (rm_cont_msgs h (d # ds))) s =
     obind (gh_rm_recv_task_step (rm_good_rx ?msg) s) (\<lambda>_ s. rm_wait_for_completion p (map rm_good_rx (rm_cont_msgs h ds)) s)"
    using Cons.prems(3,11) by (simp add: rm_wait_for_completion.simps [of p _ s] rm_cont_msgs_def)
  show ?case
  proof (cases "ds = []")
    case True
    then have "cn_fragments_received c + 1 = cn_num_fragments c" using u8_inc_eq_iff [OF un] by simp
    then show ?thesis
      using w step True Cons.prems(10,11)
      by (auto simp: rm_cont_msgs_def gh_rm_complete_connection_def rm_wait_for_completion.simps)
  next
    case False
    then have s1: "gh_rm_recv_task_step (rm_good_rx ?msg) s = Done () ?s1"
      using more u8_inc_eq_iff [OF un] by simp
    have "rm_wait_for_completion p (map rm_good_rx (rm_cont_msgs h ds)) ?s1 =
       obind (gh_rm_recv_task_fn (map rm_good_rx (rm_cont_msgs h ds)) ?s1) (\<lambda>_ t. Done [] t)"
      by (rule Cons.IH [where c = ?c1 and buf = b1]) (use Cons.prems False un unat_u8_inc [OF un] b1 dlen in auto)
    then show ?thesis using w s1 by (simp add: rm_cont_msgs_def)
  qed
qed

section \<open>First messages\<close>

definition rm_notif_msgs :: "u16 \<Rightarrow> u32 \<Rightarrow> u8 list \<Rightarrow> u8 list list \<Rightarrow> u8 list list" where
  "rm_notif_msgs seq mid d0 ds =
     (let h = rm_hdr GH_RM_RPC_TYPE_NOTIF (length ds) seq mid in (rpc_hdr_bytes h @ d0) # rm_cont_msgs h ds)"

definition rm_reply_msgs :: "u16 \<Rightarrow> u32 \<Rightarrow> u32 \<Rightarrow> u8 list \<Rightarrow> u8 list list \<Rightarrow> u8 list list" where
  "rm_reply_msgs seq mid err d0 ds =
     (let h = rm_hdr GH_RM_RPC_TYPE_RPLY (length ds) seq mid in (rpc_reply_hdr_bytes h err @ d0) # rm_cont_msgs h ds)"

lemma unat_of_nat_u64: "n < 2 ^ 32 \<Longrightarrow> unat (of_nat n :: u64) = n"
  by (simp add: unat_of_nat)

lemma rm_buff_size:
  assumes "m \<le> 240" "n < 64"
  shows "(of_nat m + ucast (of_nat n :: u8) * 232 :: u64) = of_nat (m + n * 232)"
    and "unat (of_nat m + ucast (of_nat n :: u8) * 232 :: u64) = m + n * 232"
    and "\<not> (of_nat m + ucast (of_nat n :: u8) * 232 :: u64) < of_nat m"
proof -
  have u: "(ucast (of_nat n :: u8) :: u64) = of_nat n"
    using assms(2) by (simp add: word_unat_eq_iff unat_of_nat unsigned_ucast_eq take_bit_eq_mod)
  then show e: "(of_nat m + ucast (of_nat n :: u8) * 232 :: u64) = of_nat (m + n * 232)" by simp
  show v: "unat (of_nat m + ucast (of_nat n :: u8) * 232 :: u64) = m + n * 232"
    unfolding e by (rule unat_of_nat_u64) (use assms in simp)
  show "\<not> (of_nat m + ucast (of_nat n :: u8) * 232 :: u64) < of_nat m"
    unfolding word_less_nat_alt v using assms(1) by (simp add: unat_of_nat_u64)
qed

lemma gh_rm_init_connection_buff_ok:
  assumes "rpc_hdr_of (hb @ d0) = h" "length hb = hsz" "hsz + length d0 \<le> 240" "d0 \<noteq> []"
    and "hd_fragments h = of_nat n" "n < 64"
  shows "gh_rm_init_connection_buff (\<lambda>_. True) (hb @ d0) hsz (of_nat (length d0)) c =
     Done 0 (c\<lparr>cn_num_fragments := of_nat n, cn_fragments_received := 0, cn_type := hd_type h,
       cn_payload := Some (d0 @ replicate (n * 232) 0), cn_size := length d0\<rparr>)"
proof -
  have l: "length d0 \<le> 240" using assms(3) by simp
  have u: "unat (of_nat (length d0) :: u64) = length d0" using l by (simp add: unat_of_nat_u64)
  then have nz: "(of_nat (length d0) :: u64) \<noteq> 0" using assms(4) by auto
  show ?thesis
    using assms nz u rm_buff_size [OF l assms(6)]
    by (simp add: gh_rm_init_connection_buff_def Let_def)
qed

lemma rm_complete_cur:
  "obind (gh_rm_complete_connection kz x (s\<lparr>rm_cur := y\<rparr>)) (\<lambda>_ t. Done () (t\<lparr>rm_cur := Null\<rparr>)) =
   obind (gh_rm_complete_connection kz x s) (\<lambda>_ t. Done () (t\<lparr>rm_cur := Null\<rparr>))"
  by (cases x) (auto simp: gh_rm_complete_connection_def rm_set_def rm_kfree_def split: option.splits)

text \<open>A first message and all its continuations.\<close>

lemma rm_recv_series:
  assumes d: "rm_dispatch (rm_good_rx m0) s = Done (Conn p) s1" and m0: "8 < length m0"
    and c1: "rm_conns s1 p = Some c1" "cn_num_fragments c1 = of_nat (length ds)" "cn_fragments_received c1 = 0"
      "cn_payload c1 = Some (d0 @ replicate (length ds * 232) 0)" "cn_size c1 = length d0"
    and h: "rpc_hdr_wf h" "hd_fragments h = of_nat (length ds)" and ds: "rm_chunks_ok ds"
  shows "\<exists>buf'. gh_rm_recv_task_fn (map rm_good_rx (m0 # rm_cont_msgs h ds)) s =
     obind (gh_rm_complete_connection (\<lambda>_. True) (Conn p)
        (rm_set p (c1\<lparr>cn_payload := Some buf', cn_size := length d0 + length (concat ds),
                    cn_fragments_received := of_nat (length ds)\<rparr>) s1))
       (\<lambda>_ t. Done () (t\<lparr>rm_cur := Null\<rparr>)) \<and>
     take (length d0 + length (concat ds)) buf' = d0 @ concat ds"
proof (cases ds)
  case Nil
  have "rm_set p (c1\<lparr>cn_payload := Some d0, cn_size := length d0, cn_fragments_received := 0\<rparr>) s1 = s1"
    using c1 Nil by (auto simp: rm_set_def fun_upd_idem)
  then show ?thesis
    using d m0 c1 Nil
    by (intro exI [of _ d0])
       (auto simp: gh_rm_recv_task_step_def rm_cont_msgs_def gh_rm_complete_connection_def split: option.splits)
next
  case (Cons d1 ds')
  have n: "length ds < 64" "list_all (\<lambda>d. d \<noteq> [] \<and> length d \<le> 232) ds" using ds by (auto simp: rm_chunks_ok_def)
  have un: "unat (of_nat (length ds) :: u8) = length ds" using n(1) by (simp add: unat_of_nat)
  have ne: "(of_nat (length ds) :: u8) \<noteq> 0"
  proof
    assume "(of_nat (length ds) :: u8) = 0"
    then have "unat (of_nat (length ds) :: u8) = 0" by (simp only: unat_0)
    with un Cons show False by simp
  qed
  have s1: "gh_rm_recv_task_step (rm_good_rx m0) s = Done () (s1\<lparr>rm_cur := Conn p\<rparr>)"
    using d m0 c1 ne by (simp add: gh_rm_recv_task_step_def gh_rm_complete_connection_def)
  let ?s = "s1\<lparr>rm_cur := Conn p\<rparr>"
  have "\<exists>buf'. gh_rm_recv_task_fn (map rm_good_rx (rm_cont_msgs h ds)) ?s =
     obind (gh_rm_complete_connection (\<lambda>_. True) (Conn p)
        (rm_set p (c1\<lparr>cn_payload := Some buf', cn_size := cn_size c1 + length (concat ds),
                    cn_fragments_received := cn_num_fragments c1\<rparr>) ?s))
       (\<lambda>_ t. Done () (t\<lparr>rm_cur := Null\<rparr>)) \<and>
     length buf' = length (d0 @ replicate (length ds * 232) (0::u8)) \<and>
     take (cn_size c1 + length (concat ds)) buf' = take (cn_size c1) (d0 @ replicate (length ds * 232) 0) @ concat ds"
    by (rule rm_recv_conts) (use c1 h n un Cons in auto)
  moreover have "rm_set p c ?s = (rm_set p c s1)\<lparr>rm_cur := Conn p\<rparr>" for c by (simp add: rm_set_def)
  ultimately show ?thesis using s1 c1(2,5) by (auto simp: rm_complete_cur)
qed

section \<open>Notifications\<close>

lemma rm_dispatch_notif:
  assumes "rm_cur s = Null" and d0: "d0 \<noteq> []" "length d0 \<le> GH_RM_MAX_MSG_SIZE_BYTES" and n: "n < 64"
  shows "\<exists>s1 c1. rm_dispatch (rm_good_rx (rpc_hdr_bytes (rm_hdr GH_RM_RPC_TYPE_NOTIF n seq mid) @ d0)) s = Done (Conn (rm_next s)) s1 \<and>
     s1 = rm_set (rm_next s) c1 s\<lparr>rm_next := rm_next s + 1\<rparr> \<and> cn_msg_id c1 = mid \<and> cn_type c1 = GH_RM_RPC_TYPE_NOTIF \<and>
     cn_num_fragments c1 = of_nat n \<and> cn_fragments_received c1 = 0 \<and>
     cn_payload c1 = Some (d0 @ replicate (n * 232) 0) \<and> cn_size c1 = length d0"
proof -
  let ?h = "rm_hdr GH_RM_RPC_TYPE_NOTIF n seq mid"
  have h: "rpc_hdr_of (rpc_hdr_bytes ?h @ d0) = ?h"
    by (rule rpc_hdr_roundtrip_append, rule rm_hdr_wf) (use n in auto)
  have b: "gh_rm_init_connection_buff (\<lambda>_. True) (rpc_hdr_bytes ?h @ d0) 8 (of_nat (length d0)) c =
     Done 0 (c\<lparr>cn_num_fragments := of_nat n, cn_fragments_received := 0, cn_type := hd_type ?h,
       cn_payload := Some (d0 @ replicate (n * 232) 0), cn_size := length d0\<rparr>)" for c
    by (rule gh_rm_init_connection_buff_ok [OF h]) (use d0 n in \<open>auto simp: rm_hdr_def\<close>)
  let ?c = "\<lparr>cn_payload = Some (d0 @ replicate (n * 232) 0), cn_size = length d0, cn_msg_id = mid, cn_ret = 0,
     cn_type = GH_RM_RPC_TYPE_NOTIF, cn_num_fragments = of_nat n, cn_fragments_received = 0, cn_rm_error = 0,
     cn_seq = 0, cn_seq_done = None\<rparr>"
  have "rm_dispatch (rm_good_rx (rpc_hdr_bytes ?h @ d0)) s =
     Done (Conn (rm_next s)) (rm_set (rm_next s) ?c s\<lparr>rm_next := rm_next s + 1\<rparr>)"
    using assms(1) h b
    by (simp add: rm_dispatch_def rm_abort_current_def gh_rm_process_notif_def gh_rm_alloc_connection_def Let_def)
       (simp add: rm_hdr_def rm_set_def)
  then show ?thesis by (intro exI [of _ ?c] exI) simp
qed

lemma rm_notif_received:
  assumes s: "rm_cur s = Null" and d0: "d0 \<noteq> []" "length d0 \<le> GH_RM_MAX_MSG_SIZE_BYTES" and ds: "rm_chunks_ok ds"
  shows "\<exists>c t. gh_rm_recv_task_fn (map rm_good_rx (rm_notif_msgs seq mid d0 ds)) s = Done () t \<and>
     t = rm_set (rm_next s) c s\<lparr>rm_next := rm_next s + 1, rm_works := rm_works s @ [rm_next s]\<rparr> \<and>
     cn_msg_id c = mid \<and> cn_size c = length d0 + length (concat ds) \<and>
     (\<exists>buf. cn_payload c = Some buf \<and> take (cn_size c) buf = d0 @ concat ds)"
proof -
  let ?p = "rm_next s"
  let ?h = "rm_hdr GH_RM_RPC_TYPE_NOTIF (length ds) seq mid"
  have n: "length ds < 64" using ds by (simp add: rm_chunks_ok_def)
  obtain s1 c1 where s1: "rm_dispatch (rm_good_rx (rpc_hdr_bytes ?h @ d0)) s = Done (Conn ?p) s1"
     "s1 = rm_set ?p c1 s\<lparr>rm_next := ?p + 1\<rparr>" "cn_msg_id c1 = mid" "cn_type c1 = GH_RM_RPC_TYPE_NOTIF"
     "cn_num_fragments c1 = of_nat (length ds)" "cn_fragments_received c1 = 0"
     "cn_payload c1 = Some (d0 @ replicate (length ds * 232) 0)" "cn_size c1 = length d0"
    using rm_dispatch_notif [OF s d0 n] by blast
  have "\<exists>buf'. gh_rm_recv_task_fn (map rm_good_rx ((rpc_hdr_bytes ?h @ d0) # rm_cont_msgs ?h ds)) s =
     obind (gh_rm_complete_connection (\<lambda>_. True) (Conn ?p)
        (rm_set ?p (c1\<lparr>cn_payload := Some buf', cn_size := length d0 + length (concat ds),
                    cn_fragments_received := of_nat (length ds)\<rparr>) s1))
       (\<lambda>_ t. Done () (t\<lparr>rm_cur := Null\<rparr>)) \<and>
     take (length d0 + length (concat ds)) buf' = d0 @ concat ds"
    by (rule rm_recv_series [OF s1(1)])
       (use s1 d0 n ds in \<open>auto intro: rm_hdr_wf simp: rm_hdr_def [of _ "length ds"] rpc_hdr_wf_def of_nat_u8_less\<close>)
  then obtain buf' where b: "gh_rm_recv_task_fn (map rm_good_rx (rm_notif_msgs seq mid d0 ds)) s =
     obind (gh_rm_complete_connection (\<lambda>_. True) (Conn ?p)
        (rm_set ?p (c1\<lparr>cn_payload := Some buf', cn_size := length d0 + length (concat ds),
                    cn_fragments_received := of_nat (length ds)\<rparr>) s1))
       (\<lambda>_ t. Done () (t\<lparr>rm_cur := Null\<rparr>))" "take (length d0 + length (concat ds)) buf' = d0 @ concat ds"
    by (auto simp: rm_notif_msgs_def Let_def)
  show ?thesis
    using b s1 s
    by (intro exI [of _ "c1\<lparr>cn_payload := Some buf', cn_size := length d0 + length (concat ds),
                    cn_fragments_received := of_nat (length ds)\<rparr>"] exI)
       (auto simp: gh_rm_complete_connection_def rm_set_def)
qed

end
