(* ===== verification/Rm_Call.thy ===== *)
theory Rm_Call
  imports Rm_Reassembly
begin

text \<open>
  Correctness of the Resource Manager engine end to end: a call gets its own reply, whole;
  a notification reaches the notifier chain, whole and validated; the receive task keeps its
  invariant on every well-formed input; and what happens on the inputs it does not survive.
\<close>

section \<open>Replies\<close>

lemma rm_reply_size: "(of_nat (12 + n) - 12 :: u64) = of_nat n"
  by simp

lemma rm_dispatch_reply:
  assumes s: "rm_cur s = Null" "rm_idr s seq = Some p" "rm_conns s p = Some c" "cn_seq c = seq" "cn_msg_id c = mid"
    and d0: "length d0 \<le> 228" "d0 = [] \<longrightarrow> n = 0" and n: "n < 64"
  shows "rm_dispatch (rm_good_rx (rpc_reply_hdr_bytes (rm_hdr GH_RM_RPC_TYPE_RPLY n seq mid) err @ d0)) s =
     Done (Conn p) (rm_set p (c\<lparr>cn_num_fragments := of_nat n, cn_fragments_received := 0, cn_type := GH_RM_RPC_TYPE_RPLY,
        cn_payload := (if d0 = [] then cn_payload c else Some (d0 @ replicate (n * 232) 0)),
        cn_size := (if d0 = [] then cn_size c else length d0), cn_rm_error := err\<rparr>) s)"
proof -
  let ?h = "rm_hdr GH_RM_RPC_TYPE_RPLY n seq mid"
  let ?m = "rpc_reply_hdr_bytes ?h err @ d0"
  have wf: "rpc_hdr_wf ?h" by (rule rm_hdr_wf) (use n in auto)
  have h: "rpc_hdr_of ?m = ?h" using rpc_reply_hdr_of [OF wf] .
  have len: "length (rpc_reply_hdr_bytes ?h err) = 12" by (simp add: rpc_reply_hdr_bytes_def)
  have b: "gh_rm_init_connection_buff (\<lambda>_. True) ?m 12 (of_nat (length d0)) c =
     Done 0 (c\<lparr>cn_num_fragments := of_nat n, cn_fragments_received := 0, cn_type := hd_type ?h,
       cn_payload := Some (d0 @ replicate (n * 232) 0), cn_size := length d0\<rparr>)" if "d0 \<noteq> []"
    by (rule gh_rm_init_connection_buff_ok [OF h len]) (use d0 n that in \<open>auto simp: rm_hdr_def\<close>)
  have b0: "gh_rm_init_connection_buff (\<lambda>_. True) ?m 12 (of_nat (length d0)) c =
     Done 0 (c\<lparr>cn_num_fragments := of_nat n, cn_fragments_received := 0, cn_type := hd_type ?h\<rparr>)" if "d0 = []"
    using that h by (simp add: gh_rm_init_connection_buff_def Let_def rm_hdr_def)
  show ?thesis
    using s h b b0 len rm_reply_size [of "length d0"] reply_err_code_append [of ?h err d0]
    by (cases "d0 = []")
       (simp_all add: rm_dispatch_def rm_abort_current_def gh_rm_process_rply_def Let_def rm_hdr_def)
qed

lemma rm_wait_series:
  assumes d: "rm_dispatch (rm_good_rx m0) s = Done (Conn p) s1" and m0: "8 < length m0"
    and c: "rm_conns s p = Some c" "cn_seq_done c = Some False"
    and c1: "rm_conns s1 p = Some c1" "cn_num_fragments c1 = of_nat (length ds)" "cn_fragments_received c1 = 0"
      "cn_payload c1 = Some (d0 @ replicate (length ds * 232) 0)" "cn_size c1 = length d0"
    and h: "rpc_hdr_wf h" "hd_fragments h = of_nat (length ds)" and ds: "rm_chunks_ok ds"
    and ty: "cn_type c1 = GH_RM_RPC_TYPE_RPLY" "cn_seq_done c1 = Some False"
  shows "rm_wait_for_completion p (map rm_good_rx (m0 # rm_cont_msgs h ds)) s =
     obind (gh_rm_recv_task_fn (map rm_good_rx (m0 # rm_cont_msgs h ds)) s) (\<lambda>_ t. Done [] t)"
proof -
  have w: "rm_wait_for_completion p (map rm_good_rx (m0 # rm_cont_msgs h ds)) s =
     obind (gh_rm_recv_task_step (rm_good_rx m0) s) (\<lambda>_ s. rm_wait_for_completion p (map rm_good_rx (rm_cont_msgs h ds)) s)"
    using c by (simp add: rm_wait_for_completion.simps [of p _ s])
  show ?thesis
  proof (cases "ds = []")
    case True
    then show ?thesis
      using w d m0 c1 ty
      by (auto simp: gh_rm_recv_task_step_def rm_cont_msgs_def gh_rm_complete_connection_def rm_wait_for_completion.simps)
  next
    case False
    have n: "length ds < 64" "list_all (\<lambda>d. d \<noteq> [] \<and> length d \<le> 232) ds" using ds by (auto simp: rm_chunks_ok_def)
    have un: "unat (of_nat (length ds) :: u8) = length ds" using n(1) by (simp add: unat_of_nat)
    then have ne: "(of_nat (length ds) :: u8) \<noteq> 0" using False by (metis length_0_conv unat_0)
    have s1: "gh_rm_recv_task_step (rm_good_rx m0) s = Done () (s1\<lparr>rm_cur := Conn p\<rparr>)"
      using d m0 c1 ne by (simp add: gh_rm_recv_task_step_def gh_rm_complete_connection_def)
    have "rm_wait_for_completion p (map rm_good_rx (rm_cont_msgs h ds)) (s1\<lparr>rm_cur := Conn p\<rparr>) =
       obind (gh_rm_recv_task_fn (map rm_good_rx (rm_cont_msgs h ds)) (s1\<lparr>rm_cur := Conn p\<rparr>)) (\<lambda>_ t. Done [] t)"
      by (rule rm_wait_conts [where c = c1 and buf = "d0 @ replicate (length ds * 232) 0"])
         (use c1 h n un False ty in auto)
    with w s1 show ?thesis by simp
  qed
qed

text \<open>Waiting for a reply: the connection ends up complete, with the reply's error code and all
  of its payload, and the rest of the state untouched.\<close>

lemma rm_wait_reply:
  assumes s: "rm_cur s = Null" "rm_idr s seq = Some p" "rm_conns s p = Some c" "cn_seq c = seq" "cn_msg_id c = mid"
      "cn_seq_done c = Some False" "cn_payload c = None" "cn_size c = 0" "cn_ret c = 0"
    and d0: "length d0 \<le> 228" "d0 = [] \<longrightarrow> ds = []" and ds: "rm_chunks_ok ds"
  shows "\<exists>c'. rm_wait_for_completion p (map rm_good_rx (rm_reply_msgs seq mid err d0 ds)) s = Done [] (rm_set p c' s) \<and>
     cn_seq c' = seq \<and> cn_ret c' = 0 \<and> cn_rm_error c' = err \<and> cn_size c' = length d0 + length (concat ds) \<and>
     map_option (take (cn_size c')) (cn_payload c') = (if d0 = [] then None else Some (d0 @ concat ds))"
proof -
  let ?h = "rm_hdr GH_RM_RPC_TYPE_RPLY (length ds) seq mid"
  let ?m0 = "rpc_reply_hdr_bytes ?h err @ d0"
  have n: "length ds < 64" using ds by (simp add: rm_chunks_ok_def)
  have d0': "d0 = [] \<longrightarrow> length ds = 0" using d0(2) by simp
  note disp = rm_dispatch_reply [OF s(1-5) d0(1) d0' n, of err]
  have cur: "rm_set p c' s\<lparr>rm_cur := Null\<rparr> = rm_set p c' s" for c' using s(1) by (simp add: rm_set_def)
  show ?thesis
  proof (cases "d0 = []")
    case True
    with d0 have [simp]: "ds = []" by simp
    show ?thesis
      using disp True s
      by (simp add: cur rm_reply_msgs_def rm_cont_msgs_def Let_def rm_wait_for_completion.simps gh_rm_recv_task_step_def
          gh_rm_complete_connection_def rpc_reply_hdr_bytes_def) (rule exI, rule conjI [OF refl], simp)
  next
    case False
    let ?c1 = "c\<lparr>cn_num_fragments := of_nat (length ds), cn_fragments_received := 0, cn_type := GH_RM_RPC_TYPE_RPLY,
        cn_payload := Some (d0 @ replicate (length ds * 232) 0), cn_size := length d0, cn_rm_error := err\<rparr>"
    have disp': "rm_dispatch (rm_good_rx ?m0) s = Done (Conn p) (rm_set p ?c1 s)" using disp False by simp
    have h: "rpc_hdr_wf ?h" by (rule rm_hdr_wf) (use n in auto)
    have hf: "hd_fragments ?h = of_nat (length ds)" by (simp add: rm_hdr_def)
    have m0: "8 < length ?m0" by (simp add: rpc_reply_hdr_bytes_def)
    obtain buf' where b: "gh_rm_recv_task_fn (map rm_good_rx (?m0 # rm_cont_msgs ?h ds)) s =
     obind (gh_rm_complete_connection (\<lambda>_. True) (Conn p)
        (rm_set p (?c1\<lparr>cn_payload := Some buf', cn_size := length d0 + length (concat ds),
                    cn_fragments_received := of_nat (length ds)\<rparr>) (rm_set p ?c1 s)))
       (\<lambda>_ t. Done () (t\<lparr>rm_cur := Null\<rparr>))" "take (length d0 + length (concat ds)) buf' = d0 @ concat ds"
      using rm_recv_series [OF disp' m0, of ?c1 ds d0 ?h] h hf ds by auto
    have "rm_wait_for_completion p (map rm_good_rx (?m0 # rm_cont_msgs ?h ds)) s =
     obind (gh_rm_recv_task_fn (map rm_good_rx (?m0 # rm_cont_msgs ?h ds)) s) (\<lambda>_ t. Done [] t)"
      by (rule rm_wait_series [where ?c1.0 = ?c1 and ?d0.0 = d0, OF disp' m0 s(3,6)]) (use h hf ds s(6) in auto)
    with b show ?thesis
      using False s
      by (simp add: cur rm_reply_msgs_def Let_def gh_rm_complete_connection_def) (rule exI, rule conjI [OF refl], simp)
  qed
qed

section \<open>Properties\<close>

text \<open>C2: A Resource Manager call gets exactly its own reply: when the request goes out and the
  peer answers with a reply series for the call's sequence number and message id, however the
  payload is split, the caller gets the reassembled payload (NULL for an empty one) or the
  remapped error code of the reply; the connection is freed and its sequence number released,
  so the engine is back in the state it started from.\<close>

theorem gh_rm_call_roundtrip:
  assumes "mid \<noteq> 0" "rm_cur s = Null" "rm_conns s (rm_next s) = None" "rm_idr s (word_of_int q) = None" "0 \<le> q"
    and "gh_rm_send_request send (ce_kz env) True True mid req (word_of_int q) (rm_tx s) = Done 0 t"
    and "ce_kz env A_conn" "ce_idr_lock_ok env" "ce_idr env = q" "ce_desc_ok env" "ce_send_lock_ok env"
    and "ce_rxs env = map rm_good_rx (rm_reply_msgs (word_of_int q) mid err d0 ds)"
    and "length d0 \<le> 228" "d0 = [] \<longrightarrow> ds = []" "rm_chunks_ok ds"
  shows "gh_rm_call send env mid (Some req) True s =
     Done (Some err,
           if err \<noteq> 0 then Inl (gh_remap_error (sint err))
           else Inr (if d0 = [] then None else Some (d0 @ concat ds), length d0 + length (concat ds)))
       (s\<lparr>rm_tx := t, rm_next := rm_next s + 1\<rparr>)"
proof -
  let ?q = "word_of_int q :: u16" and ?p = "rm_next s"
  let ?c = "\<lparr>cn_payload = None, cn_size = 0, cn_msg_id = mid, cn_ret = 0, cn_type = 0,
     cn_num_fragments = 0, cn_fragments_received = 0, cn_rm_error = 0, cn_seq = ?q, cn_seq_done = Some False\<rparr>"
  let ?s = "s\<lparr>rm_next := ?p + 1, rm_conns := (rm_conns s)(?p \<mapsto> ?c), rm_idr := (rm_idr s)(?q \<mapsto> ?p), rm_tx := t\<rparr>"
  obtain c' where c': "rm_wait_for_completion ?p (map rm_good_rx (rm_reply_msgs ?q mid err d0 ds)) ?s = Done [] (rm_set ?p c' ?s)"
     "cn_seq c' = ?q" "cn_ret c' = 0" "cn_rm_error c' = err" "cn_size c' = length d0 + length (concat ds)"
     "map_option (take (cn_size c')) (cn_payload c') = (if d0 = [] then None else Some (d0 @ concat ds))"
    using rm_wait_reply [of ?s ?q ?p ?c mid d0 ds err] assms(2,13-15) by auto
  have heap: "(rm_conns s)(?p := None) = rm_conns s" "(rm_idr s)(?q := None) = rm_idr s"
    using assms(3,4) by (simp_all add: fun_upd_idem)
  have "gh_rm_call send env mid (Some req) True s =
     obind (rm_wait_for_completion ?p (ce_rxs env) ?s) (\<lambda>_ s. rm_call_finish ?p s)"
    using assms(1,5-11) by (simp add: gh_rm_call_def gh_rm_alloc_connection_def rm_set_def Let_def)
  then show ?thesis
    using assms(12) c' heap by (simp add: rm_call_finish_def rm_kfree_def rm_set_def Let_def)
qed

definition rm_init :: "'t \<Rightarrow> 't rm_state" where
  "rm_init t = \<lparr>rm_conns = Map.empty, rm_idr = Map.empty, rm_cur = Null, rm_next = 1, rm_works = [], rm_chain = [], rm_tx = t\<rparr>"

theorem gh_rm_call_roundtrip_witness:
  "gh_rm_call (\<lambda>m f t. Done 0 (t @ [m])) \<lparr>ce_kz = \<lambda>_. True, ce_idr_lock_ok = True, ce_idr = 5, ce_desc_ok = True,
      ce_send_lock_ok = True, ce_rxs = map rm_good_rx (rm_reply_msgs (word_of_int 5) 9 0 [1, 2] [[3], [4, 5]])\<rparr> 9 (Some [7]) True (rm_init []) =
   Done (Some 0, if (0::u32) \<noteq> 0 then Inl (gh_remap_error (sint (0::u32))) else
        Inr (if [1, 2 :: u8] = [] then None else Some ([1, 2] @ concat [[3], [4, 5]]), length [1, 2 :: u8] + length (concat [[3], [4, 5 :: u8]])))
     (rm_init []\<lparr>rm_tx := [rpc_hdr_bytes (rm_request_hdr 0 0 9 5) @ [7]], rm_next := rm_next (rm_init ([] :: u8 list list)) + 1\<rparr>)"
proof (rule gh_rm_call_roundtrip)
  show "gh_rm_send_request (\<lambda>m f t. Done 0 (t @ [m])) (ce_kz \<lparr>ce_kz = \<lambda>_. True, ce_idr_lock_ok = True, ce_idr = 5, ce_desc_ok = True,
      ce_send_lock_ok = True, ce_rxs = map rm_good_rx (rm_reply_msgs (word_of_int 5) 9 0 [1, 2] [[3], [4, 5]])\<rparr>) True True 9 [7]
      (word_of_int 5) (rm_tx (rm_init [])) = Done 0 [rpc_hdr_bytes (rm_request_hdr 0 0 9 5) @ [7]]"
    by (simp add: gh_rm_send_request_def rm_num_fragments_def rm_send_loop.simps rm_init_def Let_def)
qed (simp_all add: rm_init_def rm_chunks_ok_def)

text \<open>C11: A notification reaches the notifier chain whole: after its message series, in any split,
  and after the scheduled work ran, the chain was called exactly once with the notification's
  id and reassembled payload if that passes validation and not at all otherwise, and the
  connection is freed again.\<close>

theorem gh_rm_notification_delivery:
  assumes "rm_cur s = Null" "rm_conns s (rm_next s) = None" "rm_next s \<notin> set (rm_works s)"
    and "d0 \<noteq> []" "length d0 \<le> GH_RM_MAX_MSG_SIZE_BYTES" "rm_chunks_ok ds"
  shows "\<exists>t u. gh_rm_recv_task_fn (map rm_good_rx (rm_notif_msgs seq mid d0 ds)) s = Done () t \<and>
     rm_works t = rm_works s @ [rm_next s] \<and> gh_rm_validate_notif (rm_next s) t = Done () u \<and>
     rm_chain u = rm_chain s @
       (case rm_notif_check mid (d0 @ concat ds) (length (d0 @ concat ds)) of None \<Rightarrow> [] | Some p \<Rightarrow> [(mid, p)]) \<and>
     rm_conns u = rm_conns s \<and> rm_works u = rm_works s \<and> rm_cur u = Null"
proof -
  obtain c t buf where t: "gh_rm_recv_task_fn (map rm_good_rx (rm_notif_msgs seq mid d0 ds)) s = Done () t"
     "t = rm_set (rm_next s) c s\<lparr>rm_next := rm_next s + 1, rm_works := rm_works s @ [rm_next s]\<rparr>"
     "cn_msg_id c = mid" "cn_size c = length d0 + length (concat ds)" "cn_payload c = Some buf"
     "take (cn_size c) buf = d0 @ concat ds"
    using rm_notif_received [OF assms(1,4,5,6), of seq mid] by blast
  have "remove1 (rm_next s) (rm_works s @ [rm_next s]) = rm_works s"
    using assms(3) by (simp add: remove1_append)
  moreover have "(rm_conns s)(rm_next s := None) = rm_conns s" using assms(2) by (simp add: fun_upd_idem)
  ultimately show ?thesis
    using t assms(1)
    by (cases "rm_notif_check mid (d0 @ concat ds) (length (d0 @ concat ds))")
       (simp_all add: gh_rm_validate_notif_def rm_kfree_def rm_set_def Let_def)
qed

theorem gh_rm_notification_delivery_witness:
  "\<exists>t u. gh_rm_recv_task_fn (map rm_good_rx (rm_notif_msgs 0 GH_RM_NOTIF_VM_STATUS [45, 0, 9] [[0, 0, 0], [0, 0]])) (rm_init ()) = Done () t \<and>
     rm_works t = rm_works (rm_init ()) @ [rm_next (rm_init ())] \<and> gh_rm_validate_notif (rm_next (rm_init ())) t = Done () u \<and>
     rm_chain u = rm_chain (rm_init ()) @
       (case rm_notif_check GH_RM_NOTIF_VM_STATUS ([45, 0, 9] @ concat [[0, 0, 0], [0, 0]]) (length ([45, 0, 9 :: u8] @ concat [[0, 0, 0], [0, 0]])) of
          None \<Rightarrow> [] | Some p \<Rightarrow> [(GH_RM_NOTIF_VM_STATUS, p)]) \<and>
     rm_conns u = rm_conns (rm_init ()) \<and> rm_works u = rm_works (rm_init ()) \<and> rm_cur u = Null"
  by (rule gh_rm_notification_delivery) (simp_all add: rm_init_def rm_chunks_ok_def)

end
