(* ===== verification/Rm_Safety.thy ===== *)
theory Rm_Safety
  imports Rm_Call
begin

text \<open>
  Memory safety of the Resource Manager's receive task: its invariant, which well-formed input
  keeps, and the inputs on which the code dereferences an error pointer or freed memory.
\<close>

section \<open>Invariant\<close>

text \<open>A connection whose continuations still to come fit into its buffer.\<close>

definition rm_room :: "gh_rm_connection \<Rightarrow> bool" where
  "rm_room c \<longleftrightarrow> cn_fragments_received c \<le> cn_num_fragments c \<and>
     (cn_fragments_received c \<noteq> cn_num_fragments c \<longrightarrow>
        (case cn_payload c of None \<Rightarrow> False
         | Some buf \<Rightarrow> cn_size c + (unat (cn_num_fragments c) - unat (cn_fragments_received c)) * GH_RM_MAX_MSG_SIZE_BYTES
                         \<le> length buf))"

definition rm_live :: "conn_ptr \<Rightarrow> 't rm_state \<Rightarrow> bool" where
  "rm_live x s \<longleftrightarrow>
     (case x of
        Null \<Rightarrow> True
      | ErrPtr _ \<Rightarrow> False
      | Conn p \<Rightarrow> p \<notin> set (rm_works s) \<and>
          (case rm_conns s p of None \<Rightarrow> False
           | Some c \<Rightarrow> rm_room c \<and>
               (cn_type c = GH_RM_RPC_TYPE_NOTIF \<and> p \<notin> ran (rm_idr s) \<or>
                cn_type c = GH_RM_RPC_TYPE_RPLY \<and> cn_seq_done c \<noteq> None)))"

definition rm_idr_ok :: "'t rm_state \<Rightarrow> bool" where
  "rm_idr_ok s \<longleftrightarrow> (\<forall>q p. rm_idr s q = Some p \<longrightarrow> p \<notin> set (rm_works s) \<and>
     (\<exists>c. rm_conns s p = Some c \<and> cn_seq c = q \<and> cn_seq_done c \<noteq> None))"

definition rm_base :: "'t rm_state \<Rightarrow> bool" where
  "rm_base s \<longleftrightarrow> rm_idr_ok s \<and> distinct (rm_works s) \<and> set (rm_works s) \<subseteq> dom (rm_conns s) \<and>
     (\<forall>p. rm_conns s p \<noteq> None \<longrightarrow> p < rm_next s)"

definition rm_wf :: "'t rm_state \<Rightarrow> bool" where
  "rm_wf s \<longleftrightarrow> rm_base s \<and> rm_live (rm_cur s) s \<and>
     (\<forall>p c. rm_cur s = Conn p \<longrightarrow> rm_conns s p = Some c \<longrightarrow> cn_fragments_received c \<noteq> cn_num_fragments c)"

lemma rm_base_cur [simp]: "rm_base (s\<lparr>rm_cur := x\<rparr>) = rm_base s"
  by (simp add: rm_base_def rm_idr_ok_def)

lemma rm_live_cur [simp]: "rm_live y (s\<lparr>rm_cur := x\<rparr>) = rm_live y s"
  by (cases y) (simp_all add: rm_live_def split: option.split)

lemma rm_baseD:
  assumes "rm_base s"
  shows "\<And>q p. rm_idr s q = Some p \<Longrightarrow> p \<notin> set (rm_works s) \<and>
      (\<exists>c. rm_conns s p = Some c \<and> cn_seq c = q \<and> cn_seq_done c \<noteq> None)"
    and "distinct (rm_works s)" and "\<And>p. p \<in> set (rm_works s) \<Longrightarrow> \<exists>c. rm_conns s p = Some c"
    and "\<And>p c. rm_conns s p = Some c \<Longrightarrow> p < rm_next s"
  using assms by (auto simp: rm_base_def rm_idr_ok_def)

lemma rm_baseI:
  assumes "\<And>q p. rm_idr s q = Some p \<Longrightarrow> p \<notin> set (rm_works s) \<and>
      (\<exists>c. rm_conns s p = Some c \<and> cn_seq c = q \<and> cn_seq_done c \<noteq> None)"
    and "distinct (rm_works s)" and "\<And>p. p \<in> set (rm_works s) \<Longrightarrow> \<exists>c. rm_conns s p = Some c"
    and "\<And>p c. rm_conns s p = Some c \<Longrightarrow> p < rm_next s"
  shows "rm_base s"
  using assms unfolding rm_base_def rm_idr_ok_def by (auto 0 3)

lemma rm_base_set:
  assumes "rm_base s" "rm_conns s p = Some c" "cn_seq c' = cn_seq c" "cn_seq_done c \<noteq> None \<longrightarrow> cn_seq_done c' \<noteq> None"
  shows "rm_base (rm_set p c' s)"
proof (rule rm_baseI, goal_cases)
  case (1 q r)
  then show ?case using rm_baseD(1) [OF assms(1), of q r] assms(2-4) by (cases "r = p") auto
next
  case (3 r)
  then show ?case using rm_baseD(3) [OF assms(1), of r] by simp
next
  case (4 r d)
  then show ?case using rm_baseD(4) [OF assms(1), of r] assms(2) by (cases "r = p") (auto dest: rm_baseD(4) [OF assms(1)])
qed (use rm_baseD(2) [OF assms(1)] in simp)

lemma rm_base_kfree:
  assumes "rm_base s" "p \<notin> ran (rm_idr s)" "p \<notin> set (rm_works s)"
  shows "rm_base (rm_kfree p s)"
proof (rule rm_baseI, goal_cases)
  case (1 q r)
  then have "r \<noteq> p" using assms(2) by (auto simp: ran_def)
  with 1 rm_baseD(1) [OF assms(1), of q r] show ?case by simp
next
  case (3 r)
  then show ?case using rm_baseD(3) [OF assms(1), of r] assms(3) by (cases "r = p") auto
next
  case (4 r d)
  then show ?case using rm_baseD(4) [OF assms(1), of r] by (simp split: if_splits)
qed (use rm_baseD(2) [OF assms(1)] in simp)

text \<open>A new connection in a fresh slot.\<close>

lemma rm_base_new:
  assumes "rm_base s"
  shows "rm_conns s (rm_next s) = None" "rm_next s \<notin> set (rm_works s)" "rm_next s \<notin> ran (rm_idr s)"
    and "rm_base (rm_set (rm_next s) c s\<lparr>rm_next := Suc (rm_next s)\<rparr>)"
proof -
  let ?p = "rm_next s"
  show n: "rm_conns s ?p = None" using rm_baseD(4) [OF assms, of ?p] by (cases "rm_conns s ?p") auto
  show w: "?p \<notin> set (rm_works s)" using rm_baseD(3) [OF assms, of ?p] n by auto
  show i: "?p \<notin> ran (rm_idr s)" using rm_baseD(1) [OF assms, of _ ?p] n by (auto simp: ran_def)
  show "rm_base (rm_set ?p c s\<lparr>rm_next := Suc ?p\<rparr>)"
  proof (rule rm_baseI, goal_cases)
    case (1 q r)
    then have "r \<noteq> ?p" using i by (auto simp: ran_def)
    with 1 rm_baseD(1) [OF assms, of q r] show ?case by simp
  next
    case (3 r)
    then show ?case using rm_baseD(3) [OF assms, of r] by simp
  next
    case (4 r d)
    then show ?case using rm_baseD(4) [OF assms, of r] by (cases "r = ?p") auto
  qed (use rm_baseD(2) [OF assms] in simp)
qed

section \<open>The parts of an iteration\<close>

lemma rm_abort_safe:
  assumes "rm_wf s"
  shows "\<exists>t. rm_abort_current s = Done () t \<and> rm_base t \<and> rm_idr t = rm_idr s \<and>
     (\<forall>q p c. rm_idr s q = Some p \<longrightarrow> rm_conns s p = Some c \<longrightarrow>
        (\<exists>c'. rm_conns t p = Some c' \<and> cn_msg_id c' = cn_msg_id c))"
proof (cases "rm_cur s")
  case Null
  with assms show ?thesis by (auto simp: rm_abort_current_def rm_wf_def)
next
  case (ErrPtr e)
  with assms show ?thesis by (simp add: rm_wf_def rm_live_def)
next
  case (Conn p)
  with assms obtain c where c: "rm_conns s p = Some c" "p \<notin> set (rm_works s)"
    "cn_type c = GH_RM_RPC_TYPE_NOTIF \<and> p \<notin> ran (rm_idr s) \<or> cn_type c = GH_RM_RPC_TYPE_RPLY \<and> cn_seq_done c \<noteq> None"
    by (auto simp: rm_wf_def rm_live_def split: option.splits)
  have base: "rm_base s" using assms by (simp add: rm_wf_def)
  show ?thesis
  proof (cases "cn_type c = GH_RM_RPC_TYPE_RPLY")
    case True
    with c obtain b where "cn_seq_done c = Some b" by auto
    with True c Conn rm_base_set [OF base c(1), of "c\<lparr>cn_ret := - EIO, cn_seq_done := Some True\<rparr>"] show ?thesis
      by (auto simp: rm_abort_current_def gh_rm_abort_connection_def)
  next
    case False
    with c have "p \<notin> ran (rm_idr s)" by auto
    with False c Conn rm_base_kfree [OF base _ c(2)] show ?thesis
      by (auto simp: rm_abort_current_def gh_rm_abort_connection_def ran_def)
  qed
qed

lemma rm_fragments_less: "unat (hd_fragments (rpc_hdr_of b)) < 64"
proof -
  have "unat (drop_bit 2 (b ! 1)) = unat (b ! 1) div 4"
    by (simp only: unat_drop_bit_eq) (simp add: drop_bit_eq_div)
  then show ?thesis using unat_u8_less [of "b ! 1"] by (simp add: rpc_hdr_of_def less_mult_imp_div_less)
qed

lemma gh_rm_init_connection_buff_safe:
  assumes "length b = hsz + m" "hsz + m \<le> 240" "m = 0 \<longrightarrow> hd_fragments (rpc_hdr_of b) = 0"
  shows "\<exists>ret c'. gh_rm_init_connection_buff kz b hsz (of_nat m) c = Done ret c' \<and>
     ret \<in> {0, - ENOMEM} \<and> ((\<forall>n. kz (A_payload n)) \<longrightarrow> ret = 0) \<and>
     cn_seq c' = cn_seq c \<and> cn_seq_done c' = cn_seq_done c \<and> cn_type c' = hd_type (rpc_hdr_of b) \<and>
     (ret = 0 \<longrightarrow> rm_room c')"
proof -
  let ?f = "hd_fragments (rpc_hdr_of b)"
  let ?n = "unat ?f"
  have n: "?n < 64" by (rule rm_fragments_less)
  have m: "m \<le> 240" using assms(2) by simp
  have f: "?f = of_nat ?n" by simp
  note sz = rm_buff_size [OF m n, folded f]
  have u: "unat (of_nat m :: u64) = m" using m by (simp add: unat_of_nat_u64)
  have nz: "(of_nat m :: u64) = 0 \<longleftrightarrow> m = 0" 
  proof
    assume "(of_nat m :: u64) = 0"
    then have "unat (of_nat m :: u64) = 0" by (simp only: unat_0)
    with u show "m = 0" by simp
  qed simp
  let ?c = "c\<lparr>cn_num_fragments := ?f, cn_fragments_received := 0, cn_type := hd_type (rpc_hdr_of b)\<rparr>"
  let ?c' = "?c\<lparr>cn_payload := Some (take m (drop hsz b) @ replicate (m + ?n * 232 - m) 0), cn_size := m\<rparr>"
  show ?thesis
  proof (cases "m = 0")
    case True
    then have "gh_rm_init_connection_buff kz b hsz (of_nat m) c = Done 0 ?c"
      by (simp add: gh_rm_init_connection_buff_def Let_def)
    moreover have "rm_room ?c" using True assms(3) by (simp add: rm_room_def)
    ultimately show ?thesis by simp
  next
    case False
    then have eq: "gh_rm_init_connection_buff kz b hsz (of_nat m) c =
       (if kz (A_payload (m + ?n * 232)) then Done 0 ?c' else Done (- ENOMEM) ?c)"
      using nz sz(2,3) u assms(2) by (simp add: gh_rm_init_connection_buff_def Let_def)
    have "rm_room ?c'" using assms(1) by (simp add: rm_room_def)
    with eq show ?thesis by (cases "kz (A_payload (m + ?n * 232))") auto
  qed
qed

text \<open>A message the task survives: a notification whose connection can be allocated, a complete
  reply header for an outstanding call, or anything that is not the start of a message.\<close>

definition rm_rx_ok :: "rm_rx \<Rightarrow> 't rm_state \<Rightarrow> bool" where
  "rm_rx_ok rx s \<longleftrightarrow>
     (let b = rx_bytes rx; h = rpc_hdr_of b in
      length b \<le> RM_RECV_BUFF_SIZE \<and>
      (hd_type h = GH_RM_RPC_TYPE_NOTIF \<longrightarrow> rx_kz rx A_conn) \<and>
      (hd_type h = GH_RM_RPC_TYPE_RPLY \<longrightarrow> rx_lock_ok rx \<and> (\<forall>n. rx_kz rx (A_payload n)) \<and>
         GH_RM_REPLY_HDR_SIZE \<le> length b \<and> (length b = GH_RM_REPLY_HDR_SIZE \<longrightarrow> hd_fragments h = 0) \<and>
         (\<exists>p c. rm_idr s (hd_seq h) = Some p \<and> rm_conns s p = Some c \<and> cn_msg_id c = hd_msg_id h)))"

lemma rm_notif_safe:
  assumes base: "rm_base s" and b: "8 < length b" "length b \<le> 240" "kz A_conn"
    and ty: "hd_type (rpc_hdr_of b) = GH_RM_RPC_TYPE_NOTIF"
  shows "\<exists>x t. gh_rm_process_notif kz b s = Done x t \<and> rm_base t \<and> rm_live x t"
proof -
  let ?p = "rm_next s"
  note fresh = rm_base_new(1-3) [OF base]
  let ?c = "\<lparr>cn_payload = None, cn_size = 0, cn_msg_id = hd_msg_id (rpc_hdr_of b), cn_ret = 0, cn_type = 0,
     cn_num_fragments = 0, cn_fragments_received = 0, cn_rm_error = 0, cn_seq = 0, cn_seq_done = None\<rparr>"
  have sz: "(of_nat (length b) - 8 :: u64) = of_nat (length b - 8)" using b(1) by (simp add: of_nat_diff)
  obtain ret c' where r: "gh_rm_init_connection_buff kz b 8 (of_nat (length b - 8)) ?c = Done ret c'"
     "cn_type c' = GH_RM_RPC_TYPE_NOTIF" "ret = 0 \<longrightarrow> rm_room c'"
    using gh_rm_init_connection_buff_safe [of b 8 "length b - 8" kz ?c] b ty by auto
  have base': "rm_base (rm_set ?p x s\<lparr>rm_next := Suc ?p\<rparr>)" "rm_base (rm_kfree ?p (rm_set ?p x s\<lparr>rm_next := Suc ?p\<rparr>))" for x
    using rm_base_new [OF base] rm_base_kfree [OF rm_base_new(4) [OF base]] by simp_all
  show ?thesis
  proof (cases "ret = 0")
    case True
    then have "gh_rm_process_notif kz b s = Done (Conn ?p) (rm_set ?p c' s\<lparr>rm_next := Suc ?p\<rparr>)"
      using b(3) r(1) sz by (simp add: gh_rm_process_notif_def gh_rm_alloc_connection_def Let_def rm_set_def)
    with True r base' fresh show ?thesis by (auto simp: rm_live_def)
  next
    case False
    then have "gh_rm_process_notif kz b s = Done Null (rm_kfree ?p (rm_set ?p ?c s\<lparr>rm_next := Suc ?p\<rparr>))"
      using b(3) r(1) sz by (simp add: gh_rm_process_notif_def gh_rm_alloc_connection_def Let_def)
    with base' show ?thesis by (auto simp: rm_live_def)
  qed
qed

lemma rm_reply_safe:
  assumes base: "rm_base s" and ok: "rm_rx_ok rx s" and ty: "hd_type (rpc_hdr_of (rx_bytes rx)) = GH_RM_RPC_TYPE_RPLY"
  shows "\<exists>x t. gh_rm_process_rply (rx_kz rx) (rx_lock_ok rx) (rx_bytes rx) s = Done x t \<and> rm_base t \<and> rm_live x t"
proof -
  let ?b = "rx_bytes rx" and ?h = "rpc_hdr_of (rx_bytes rx)"
  from ok ty obtain p c where p: "rm_idr s (hd_seq ?h) = Some p" "rm_conns s p = Some c" "cn_msg_id c = hd_msg_id ?h"
    and b: "12 \<le> length ?b" "length ?b \<le> 240" "length ?b = 12 \<longrightarrow> hd_fragments ?h = 0" "rx_lock_ok rx" "\<forall>n. rx_kz rx (A_payload n)"
    by (auto simp: rm_rx_ok_def Let_def)
  have c: "cn_seq c = hd_seq ?h" "cn_seq_done c \<noteq> None" "p \<notin> set (rm_works s)"
    using rm_baseD(1) [OF base p(1)] p(2) by auto
  have sz: "(of_nat (length ?b) - 12 :: u64) = of_nat (length ?b - 12)" using b(1) by (simp add: of_nat_diff)
  obtain c' where r: "gh_rm_init_connection_buff (rx_kz rx) ?b 12 (of_nat (length ?b - 12)) c = Done 0 c'"
     "cn_seq c' = cn_seq c" "cn_seq_done c' = cn_seq_done c" "cn_type c' = GH_RM_RPC_TYPE_RPLY" "rm_room c'"
    using gh_rm_init_connection_buff_safe [of ?b 12 "length ?b - 12" "rx_kz rx" c] b ty by auto
  let ?c = "c'\<lparr>cn_rm_error := reply_err_code ?b\<rparr>"
  have "gh_rm_process_rply (rx_kz rx) (rx_lock_ok rx) ?b s = Done (Conn p) (rm_set p ?c s)"
    using p c(1) b(4) r(1) sz by (simp add: gh_rm_process_rply_def Let_def)
  moreover have "rm_base (rm_set p ?c s)" by (rule rm_base_set [OF base p(2)]) (use r in auto)
  moreover have "rm_room ?c" using r(5) by (simp add: rm_room_def split: option.splits)
  ultimately show ?thesis using r c by (auto simp: rm_live_def)
qed

lemma rm_cont_safe:
  assumes wf: "rm_wf s" and cur: "rm_cur s = Conn p" and b: "8 < length b" "length b \<le> 240"
  shows "\<exists>c r c'. rm_conns s p = Some c \<and> gh_rm_process_cont b c = Done r c' \<and>
     rm_base (rm_set p c' s) \<and> rm_live (Conn p) (rm_set p c' s)"
proof -
  from wf cur obtain c where c: "rm_conns s p = Some c" "rm_room c" "p \<notin> set (rm_works s)"
    "cn_type c = GH_RM_RPC_TYPE_NOTIF \<and> p \<notin> ran (rm_idr s) \<or> cn_type c = GH_RM_RPC_TYPE_RPLY \<and> cn_seq_done c \<noteq> None"
    by (auto simp: rm_wf_def rm_live_def split: option.splits)
  have base: "rm_base s" using wf by (simp add: rm_wf_def)
  have ne: "cn_fragments_received c \<noteq> cn_num_fragments c" using wf cur c(1) by (simp add: rm_wf_def)
  let ?k = "unat (cn_num_fragments c)" and ?r = "unat (cn_fragments_received c)"
  obtain buf where buf: "cn_payload c = Some buf" "cn_size c + (?k - ?r) * 232 \<le> length buf"
    using c(2) ne by (auto simp: rm_room_def split: option.splits)
  have lt: "?r < ?k" using c(2) ne by (simp add: rm_room_def word_le_nat_alt word_unat_eq_iff)
  then have inc: "unat (cn_fragments_received c + 1) = Suc ?r" using unat_u8_inc [of "cn_fragments_received c" "?k - Suc ?r" "cn_num_fragments c"] by simp
  have fit: "cn_size c + length (drop 8 b) \<le> length buf"
  proof -
    have "(232::nat) * 1 \<le> (?k - ?r) * 232" using lt by simp
    then show ?thesis using buf(2) b(2) by simp
  qed
  obtain buf' where w: "mem_write buf (cn_size c) (drop 8 b) = Some buf'" using mem_write_fits [OF fit] by blast
  let ?c' = "c\<lparr>cn_payload := Some buf', cn_size := cn_size c + (length b - 8), cn_fragments_received := cn_fragments_received c + 1\<rparr>"
  have room: "rm_room ?c'"
  proof -
    have "(?k - Suc ?r) * 232 + 232 = (?k - ?r) * 232" using lt by (simp add: algebra_simps Suc_diff_Suc diff_mult_distrib)
    then have "cn_size c + (length b - 8) + (?k - Suc ?r) * 232 \<le> length buf'"
      using buf(2) b(2) mem_write_length [OF w] by linarith
    then show ?thesis using inc lt by (simp add: rm_room_def word_le_nat_alt)
  qed
  show ?thesis
  proof (cases "cn_num_fragments c = hd_fragments (rpc_hdr_of b)")
    case True
    then have "gh_rm_process_cont b c = Done 0 ?c'" using buf(1) w by (simp add: gh_rm_process_cont_def Let_def)
    moreover have "rm_base (rm_set p ?c' s)" by (rule rm_base_set [OF base c(1)]) auto
    ultimately show ?thesis using c room by (auto simp: rm_live_def)
  next
    case False
    then have "gh_rm_process_cont b c = Done (- EINVAL) c" by (simp add: gh_rm_process_cont_def Let_def)
    moreover have "rm_set p c s = s" using c(1) by (simp add: rm_set_def fun_upd_idem)
    ultimately show ?thesis using c base wf cur by (auto simp: rm_wf_def)
  qed
qed

lemma rm_complete_safe:
  assumes "rm_base s" "rm_live x s"
  shows "\<exists>b t. gh_rm_complete_connection kz x s = Done b t \<and>
     rm_wf (t\<lparr>rm_cur := (if b then Null else x)\<rparr>)"
proof (cases x)
  case Null
  with assms show ?thesis by (auto simp: gh_rm_complete_connection_def rm_wf_def)
next
  case (ErrPtr e)
  with assms show ?thesis by (simp add: rm_live_def)
next
  case (Conn p)
  with assms(2) obtain c where c: "rm_conns s p = Some c" "rm_room c" "p \<notin> set (rm_works s)"
    "cn_type c = GH_RM_RPC_TYPE_NOTIF \<and> p \<notin> ran (rm_idr s) \<or> cn_type c = GH_RM_RPC_TYPE_RPLY \<and> cn_seq_done c \<noteq> None"
    by (auto simp: rm_live_def split: option.splits)
  have null: "rm_live Null t" for t :: "'a rm_state" by (simp add: rm_live_def)
  have dn: "rm_base (rm_set p (c\<lparr>cn_seq_done := Some True\<rparr>) s)" by (rule rm_base_set [OF assms(1) c(1)]) auto
  have work: "rm_base (s\<lparr>rm_works := rm_works s @ [p]\<rparr>)" if "p \<notin> ran (rm_idr s)"
  proof (rule rm_baseI, goal_cases)
    case (1 q r)
    then have "r \<noteq> p" using that by (auto simp: ran_def)
    with 1 rm_baseD(1) [OF assms(1), of q r] show ?case by simp
  next
    case (3 r)
    then show ?case using rm_baseD(3) [OF assms(1), of r] c(1) by auto
  next
    case (4 r d)
    then show ?case using rm_baseD(4) [OF assms(1), of r] by simp
  qed (use rm_baseD(2) [OF assms(1)] c(3) in simp)
  show ?thesis
  proof (cases "cn_fragments_received c = cn_num_fragments c")
    case False
    with c Conn assms show ?thesis by (auto simp: gh_rm_complete_connection_def rm_wf_def)
  next
    case True
    show ?thesis
    proof (cases "cn_type c = GH_RM_RPC_TYPE_RPLY")
      case reply: True
      with c(4) obtain b where "cn_seq_done c = Some b" by auto
      with True reply c Conn dn null show ?thesis by (auto simp: gh_rm_complete_connection_def rm_wf_def)
    next
      case False
      with c(4) have n: "cn_type c = GH_RM_RPC_TYPE_NOTIF" "p \<notin> ran (rm_idr s)" by auto
      with True False c Conn null work rm_base_kfree [OF assms(1) n(2) c(3)] show ?thesis
        by (auto simp: gh_rm_complete_connection_def rm_wf_def)
    qed
  qed
qed

section \<open>Properties\<close>

lemma rm_dispatch_safe:
  assumes wf: "rm_wf s" and ok: "rm_rx_ok rx s" and b: "8 < length (rx_bytes rx)"
  shows "\<exists>x t. rm_dispatch rx s = Done x t \<and> rm_base t \<and> rm_live x t"
proof -
  let ?b = "rx_bytes rx"
  let ?ty = "hd_type (rpc_hdr_of ?b)"
  have len: "length ?b \<le> 240" using ok by (simp add: rm_rx_ok_def Let_def)
  obtain u where u: "rm_abort_current s = Done () u" "rm_base u" "rm_idr u = rm_idr s"
    "\<forall>q p c. rm_idr s q = Some p \<longrightarrow> rm_conns s p = Some c \<longrightarrow> (\<exists>c'. rm_conns u p = Some c' \<and> cn_msg_id c' = cn_msg_id c)"
    using rm_abort_safe [OF wf] by blast
  consider "?ty = GH_RM_RPC_TYPE_NOTIF" | "?ty = GH_RM_RPC_TYPE_RPLY" | "?ty = GH_RM_RPC_TYPE_CONT" |
    "?ty \<notin> {GH_RM_RPC_TYPE_NOTIF, GH_RM_RPC_TYPE_RPLY, GH_RM_RPC_TYPE_CONT}" by blast
  then show ?thesis
  proof cases
    case 1
    then have "rx_kz rx A_conn" using ok by (simp add: rm_rx_ok_def Let_def)
    with 1 u(1) rm_notif_safe [OF u(2) b len _ 1] show ?thesis by (simp add: rm_dispatch_def Let_def)
  next
    case 2
    have "rm_rx_ok rx u" 
    proof -
      from ok 2 obtain p c where p: "rm_idr s (hd_seq (rpc_hdr_of ?b)) = Some p" "rm_conns s p = Some c"
        "cn_msg_id c = hd_msg_id (rpc_hdr_of ?b)" by (auto simp: rm_rx_ok_def Let_def)
      then obtain c' where "rm_conns u p = Some c'" "cn_msg_id c' = cn_msg_id c" using u(4) by blast
      with ok 2 p u(3) show ?thesis by (auto simp: rm_rx_ok_def Let_def)
    qed
    with 2 u(1) rm_reply_safe [OF u(2) _ 2] show ?thesis by (simp add: rm_dispatch_def Let_def)
  next
    case 3
    show ?thesis
    proof (cases "rm_cur s")
      case (Conn p)
      from rm_cont_safe [OF wf Conn b len] 3 Conn show ?thesis by (auto simp: rm_dispatch_def Let_def)
    qed (use wf 3 in \<open>auto simp: rm_dispatch_def Let_def rm_wf_def rm_live_def\<close>)
  next
    case 4
    with wf show ?thesis by (auto simp: rm_dispatch_def Let_def rm_wf_def)
  qed
qed


lemma rm_init_wf: "rm_wf (rm_init t)"
  by (simp add: rm_init_def rm_wf_def rm_base_def rm_idr_ok_def rm_live_def)


text \<open>A reply the task cannot match crashes it: \<^verbatim>\<open>gh_rm_process_rply\<close> reports an unknown sequence
  number (and a wrong message id, an interrupted lock, a failed allocation) by an error
  pointer, the task only tests for NULL, and \<^verbatim>\<open>gh_rm_complete_connection\<close> dereferences it.\<close>

theorem gh_rm_unknown_reply_crashes:
  assumes "rm_wf s" and "0 \<le> rx_ret rx" and "GH_RM_HDR_SIZE < length (rx_bytes rx)"
    and "hd_type (rpc_hdr_of (rx_bytes rx)) = GH_RM_RPC_TYPE_RPLY"
    and "rm_idr s (hd_seq (rpc_hdr_of (rx_bytes rx))) = None \<or> \<not> rx_lock_ok rx"
  shows "gh_rm_recv_task_step rx s = Fault"
proof -
  obtain u where "rm_abort_current s = Done () u" "rm_idr u = rm_idr s" using rm_abort_safe [OF assms(1)] by blast
  then show ?thesis using assms(2-5)
    by (auto simp: gh_rm_recv_task_step_def rm_dispatch_def gh_rm_process_rply_def gh_rm_complete_connection_def Let_def)
qed

theorem gh_rm_unknown_reply_crashes_witness:
  "gh_rm_recv_task_step (rm_good_rx (rpc_reply_hdr_bytes (rm_hdr GH_RM_RPC_TYPE_RPLY 0 7 9) 0)) (rm_init ()) = Fault"
proof (rule gh_rm_unknown_reply_crashes [OF rm_init_wf])
  have "rpc_hdr_of (rpc_reply_hdr_bytes (rm_hdr GH_RM_RPC_TYPE_RPLY 0 7 9) 0 @ []) = rm_hdr GH_RM_RPC_TYPE_RPLY 0 7 9"
    by (rule rpc_reply_hdr_of) (simp add: rm_hdr_def rpc_hdr_wf_def)
  then show "hd_type (rpc_hdr_of (rx_bytes (rm_good_rx (rpc_reply_hdr_bytes (rm_hdr GH_RM_RPC_TYPE_RPLY 0 7 9) 0)))) = GH_RM_RPC_TYPE_RPLY"
    by (simp add: rm_hdr_def)
qed (simp_all add: rpc_reply_hdr_bytes_def rm_init_def)

text \<open>A call whose request could not be sent leaves a dangling sequence number: its connection is
  freed but stays in the table of outstanding calls, so a reply that carries this number makes
  the receive task read freed memory.\<close>

theorem gh_rm_call_send_failure_dangling:
  assumes "mid \<noteq> 0" "rm_base s" "rm_cur s = Null" "0 \<le> q"
    and "gh_rm_send_request send (ce_kz env) (ce_desc_ok env) (ce_send_lock_ok env) mid req (word_of_int q) (rm_tx s) = Done r t" "r < 0"
    and "ce_kz env A_conn" "ce_idr_lock_ok env" "ce_idr env = q"
    and "0 \<le> rx_ret rx" "GH_RM_HDR_SIZE < length (rx_bytes rx)" "hd_type (rpc_hdr_of (rx_bytes rx)) = GH_RM_RPC_TYPE_RPLY"
      "hd_seq (rpc_hdr_of (rx_bytes rx)) = word_of_int q" "rx_lock_ok rx"
  shows "\<exists>u. gh_rm_call send env mid (Some req) True s = Done (None, Inl r) u \<and>
     rm_idr u (word_of_int q) = Some (rm_next s) \<and> rm_conns u (rm_next s) = None \<and>
     gh_rm_recv_task_step rx u = Fault"
  using assms
  by (simp add: gh_rm_call_def gh_rm_alloc_connection_def rm_set_def rm_kfree_def Let_def
      gh_rm_recv_task_step_def rm_dispatch_def rm_abort_current_def gh_rm_process_rply_def)

theorem gh_rm_call_send_failure_dangling_witness:
  "\<exists>u. gh_rm_call (\<lambda>m f t. Done (- EAGAIN) t) \<lparr>ce_kz = \<lambda>_. True, ce_idr_lock_ok = True, ce_idr = 7, ce_desc_ok = True,
      ce_send_lock_ok = True, ce_rxs = []\<rparr> 9 (Some [1]) True (rm_init ()) = Done (None, Inl (- EAGAIN)) u \<and>
     rm_idr u (word_of_int 7) = Some (rm_next (rm_init ())) \<and> rm_conns u (rm_next (rm_init ())) = None \<and>
     gh_rm_recv_task_step (rm_good_rx (rpc_reply_hdr_bytes (rm_hdr GH_RM_RPC_TYPE_RPLY 0 7 9) 0)) u = Fault"
proof -
  have h: "rpc_hdr_of (rpc_reply_hdr_bytes (rm_hdr GH_RM_RPC_TYPE_RPLY 0 7 9) 0 @ []) = rm_hdr GH_RM_RPC_TYPE_RPLY 0 7 9"
    by (rule rpc_reply_hdr_of) (simp add: rm_hdr_def rpc_hdr_wf_def)
  have b: "rm_base (rm_init ())" using rm_init_wf [of "()"] by (simp add: rm_wf_def)
  show ?thesis
    by (rule gh_rm_call_send_failure_dangling [OF _ b])
       (use h in \<open>simp_all add: rm_init_def gh_rm_send_request_def rm_num_fragments_def rm_send_loop.simps rm_hdr_def
          rpc_reply_hdr_bytes_def\<close>)
qed

end
