(* ===== verification/Irq_Map.thy ===== *)
theory Irq_Map
  imports Gunyah_Prelude
begin

text \<open>
  Virtual interrupt numbers (\<^verbatim>\<open>arch/arm64/gunyah/irq.c\<close>): the numbers the kernel allocated
  itself (an IDR) and the mapping from Linux IRQs to hardware IRQs of the interrupt domain. The
  Linux IRQ that \<^verbatim>\<open>irq_create_fwspec_mapping\<close> picks for an SPI is the parameter \<open>cm\<close> (0 when it
  fails).
\<close>

abbreviation (input) GIC_V3_SPI_MAX :: int where "GIC_V3_SPI_MAX \<equiv> 1019"
abbreviation (input) IRQ_OFFSET :: int where "IRQ_OFFSET \<equiv> 32"
abbreviation (input) ENOSPC :: int where "ENOSPC \<equiv> 28"

record irq_state =
  gh_rm_free_virq_idr :: "int list"
  irq_hwirq :: "int \<Rightarrow> int option"

text \<open>\<^verbatim>\<open>idr_alloc\<close>: the lowest free id in a half-open range.\<close>

definition idr_alloc :: "int list \<Rightarrow> int \<Rightarrow> int \<Rightarrow> int" where
  "idr_alloc used start lim =
     (case List.find (\<lambda>i. i \<notin> set used) [start..lim - 1] of None \<Rightarrow> - ENOSPC | Some i \<Rightarrow> i)"

definition gh_get_irq :: "(u32 \<Rightarrow> int) \<Rightarrow> u32 \<Rightarrow> irq_state \<Rightarrow> int \<times> irq_state" where
  "gh_get_irq cm virq s =
     (let spi = virq - 32; irq = cm spi in
      (irq, if 0 < irq then s\<lparr>irq_hwirq := (irq_hwirq s)(irq \<mapsto> uint virq)\<rparr> else s))"

definition gh_get_virq :: "int \<Rightarrow> irq_state \<Rightarrow> int \<times> irq_state" where
  "gh_get_virq base_virq s =
     (let ret = idr_alloc (gh_rm_free_virq_idr s) (base_virq - IRQ_OFFSET) GIC_V3_SPI_MAX in
      if ret < 0 then (ret, s)
      else (ret + IRQ_OFFSET, s\<lparr>gh_rm_free_virq_idr := ret # gh_rm_free_virq_idr s\<rparr>))"

definition gh_put_virq :: "int \<Rightarrow> irq_state \<Rightarrow> int \<times> irq_state" where
  "gh_put_virq virq s =
     (let virq_num = virq - IRQ_OFFSET in
      if virq_num \<in> set (gh_rm_free_virq_idr s)
      then (0, s\<lparr>gh_rm_free_virq_idr := removeAll virq_num (gh_rm_free_virq_idr s)\<rparr>)
      else (- EINVAL, s))"

definition gh_put_irq :: "int \<Rightarrow> irq_state \<Rightarrow> int \<times> irq_state" where
  "gh_put_irq irq s =
     (if irq \<le> 0 then (- EINVAL, s)
      else case irq_hwirq s irq of
        None \<Rightarrow> (- EINVAL, s)
      | Some hwirq \<Rightarrow> gh_put_virq hwirq (s\<lparr>irq_hwirq := (irq_hwirq s)(irq := None)\<rparr>))"

text \<open>\<^verbatim>\<open>gh_rm_irq_to_virq\<close> of \<^verbatim>\<open>gh_rm_core.c\<close>: the second component is the value stored for the caller.\<close>

definition gh_rm_irq_to_virq :: "int \<Rightarrow> irq_state \<Rightarrow> int \<times> u32 option" where
  "gh_rm_irq_to_virq irq s =
     (case irq_hwirq s irq of None \<Rightarrow> (- EINVAL, None) | Some hwirq \<Rightarrow> (0, Some (word_of_int hwirq)))"

lemma idr_alloc_spec:
  assumes "0 \<le> start"
  shows "(idr_alloc used start lim = - ENOSPC \<and> {start..<lim} \<subseteq> set used) \<or>
    (start \<le> idr_alloc used start lim \<and> idr_alloc used start lim < lim \<and> idr_alloc used start lim \<notin> set used)"
proof (cases "List.find (\<lambda>i. i \<notin> set used) [start..lim - 1]")
  case None
  then have "\<forall>i\<in>set [start..lim - 1]. i \<in> set used" by (auto simp: find_None_iff)
  with None show ?thesis by (auto simp: idr_alloc_def)
next
  case (Some i)
  then have "i \<in> set [start..lim - 1]" "i \<notin> set used" by (auto simp: find_Some_iff in_set_conv_nth)
  with Some show ?thesis by (auto simp: idr_alloc_def)
qed

text \<open>A virtual interrupt number the kernel hands out is one it does not hold yet, at or above the
  given base, and returning it restores the allocator; it is a valid SPI number only up to
  the offset, because the upper limit is checked before 32 is added.\<close>

theorem gh_get_put_virq:
  assumes "IRQ_OFFSET \<le> base" and "gh_get_virq base s = (virq, t)" and "0 \<le> virq"
  shows "base \<le> virq \<and> virq < GIC_V3_SPI_MAX + IRQ_OFFSET \<and> virq - IRQ_OFFSET \<notin> set (gh_rm_free_virq_idr s) \<and>
     (\<exists>u. gh_put_virq virq t = (0, u) \<and> set (gh_rm_free_virq_idr u) = set (gh_rm_free_virq_idr s) \<and> irq_hwirq u = irq_hwirq s) \<and>
     fst (gh_put_virq virq s) = - EINVAL"
proof -
  let ?i = "idr_alloc (gh_rm_free_virq_idr s) (base - 32) 1019"
  have "virq = ?i + 32 \<and> t = s\<lparr>gh_rm_free_virq_idr := ?i # gh_rm_free_virq_idr s\<rparr> \<and> 0 \<le> ?i"
    using assms(2,3) by (auto simp: gh_get_virq_def Let_def split: if_splits)
  moreover have "base - 32 \<le> ?i \<and> ?i < 1019 \<and> ?i \<notin> set (gh_rm_free_virq_idr s)"
    using idr_alloc_spec [of "base - 32" "gh_rm_free_virq_idr s" 1019] assms(1) calculation by auto
  ultimately show ?thesis by (auto simp: gh_put_virq_def Let_def)
qed

theorem gh_get_put_virq_witness:
  "gh_get_virq 1050 \<lparr>gh_rm_free_virq_idr = [], irq_hwirq = Map.empty\<rparr> = (1050, \<lparr>gh_rm_free_virq_idr = [1018], irq_hwirq = Map.empty\<rparr>) \<and>
   1050 \<le> (1050::int) \<and> (1050::int) < GIC_V3_SPI_MAX + IRQ_OFFSET"
proof -
  have g: "gh_get_virq 1050 \<lparr>gh_rm_free_virq_idr = [], irq_hwirq = Map.empty\<rparr> = (1050, \<lparr>gh_rm_free_virq_idr = [1018], irq_hwirq = Map.empty\<rparr>)"
    by (simp add: gh_get_virq_def idr_alloc_def Let_def upto.simps)
  show ?thesis using gh_get_put_virq [OF _ g] g by simp
qed

end
