(* ===== verification/Rm_Vm.thy ===== *)
theory Rm_Vm
  imports Rm_Core
begin

text \<open>
  The table of known VMs and the VM queries of the Resource Manager interface
  (\<^verbatim>\<open>drivers/virt/gunyah/gh_rm_iface.c\<close>, and \<^verbatim>\<open>gh_rm_get_vm_id_info\<close> of \<^verbatim>\<open>gh_rm_core.c\<close>). A query
  is a function of the interface \<^verbatim>\<open>gh_rm_call\<close>, the parameter \<open>call\<close> over a state \<open>'s\<close>; pointers
  that may be errors are sums, with \<open>Inl 0\<close> for NULL. An index outside \<^verbatim>\<open>gh_vm_table\<close> and a read
  past the end of a buffer are the outcome \<^term>\<open>Fault\<close>.
\<close>

section \<open>The table\<close>

abbreviation (input) GH_SELF_VM :: nat where "GH_SELF_VM \<equiv> 0"
abbreviation (input) GH_PRIMARY_VM :: nat where "GH_PRIMARY_VM \<equiv> 1"
abbreviation (input) GH_TRUSTED_VM :: nat where "GH_TRUSTED_VM \<equiv> 2"

record gh_vm_property =
  vp_vmid :: gh_vmid_t
  vp_guid :: "u8 list option"
  vp_uri :: "u8 list option"
  vp_name :: "u8 list option"
  vp_sign_auth :: "u8 list option"

type_synonym vm_table = "gh_vm_property list"

definition vm_prop_zero :: gh_vm_property where
  "vm_prop_zero = \<lparr>vp_vmid = 0, vp_guid = None, vp_uri = None, vp_name = None, vp_sign_auth = None\<rparr>"

definition vm_prop_none :: gh_vm_property where
  "vm_prop_none = vm_prop_zero\<lparr>vp_vmid := GH_VMID_INVAL\<rparr>"

text \<open>\<^verbatim>\<open>for (vm_name = GH_SELF_VM + 1; vm_name < GH_VM_MAX; vm_name++)\<close>\<close>

definition gh_init_vm_prop_table :: "vm_table \<Rightarrow> vm_table" where
  "gh_init_vm_prop_table tbl =
     fold (\<lambda>i t. t[i := vm_prop_none]) [1..<GH_VM_MAX] (tbl[GH_SELF_VM := (tbl ! GH_SELF_VM)\<lparr>vp_vmid := 0\<rparr>])"

definition vm_prop_set :: "'a option \<Rightarrow> 'a option \<Rightarrow> 'a option" where
  "vm_prop_set new old = (if new \<noteq> None then new else old)"

definition gh_update_vm_prop_table ::
  "nat \<Rightarrow> gh_vm_property option \<Rightarrow> vm_table \<Rightarrow> (int, vm_table) outcome" where
  "gh_update_vm_prop_table vm_name vm_prop tbl =
     (case vm_prop of
        None \<Rightarrow> Done (- EINVAL) tbl
      | Some v \<Rightarrow>
          if GH_VM_MAX < vm_name then Done (- EINVAL) tbl
          else if length tbl \<le> vm_name then Fault
          else let e = tbl ! vm_name in
            if vp_guid e \<noteq> None \<or> vp_uri e \<noteq> None \<or> vp_name e \<noteq> None \<or> vp_sign_auth e \<noteq> None
            then Done (- EEXIST) tbl
            else Done 0 (tbl[vm_name :=
                   \<lparr>vp_vmid = (if vp_vmid v \<noteq> 0 then vp_vmid v else vp_vmid e),
                    vp_guid = vm_prop_set (vp_guid v) (vp_guid e), vp_uri = vm_prop_set (vp_uri v) (vp_uri e),
                    vp_name = vm_prop_set (vp_name v) (vp_name e),
                    vp_sign_auth = vm_prop_set (vp_sign_auth v) (vp_sign_auth e)\<rparr>]))"

definition gh_reset_vm_prop_table_entry :: "gh_vmid_t \<Rightarrow> vm_table \<Rightarrow> vm_table" where
  "gh_reset_vm_prop_table_entry vmid tbl =
     (case List.find (\<lambda>i. vmid = vp_vmid (tbl ! i)) [1..<GH_VM_MAX] of
        None \<Rightarrow> tbl
      | Some i \<Rightarrow> tbl[i := vm_prop_none])"

text \<open>The second component of a lookup's result is what is stored for the caller.\<close>

definition gh_rm_get_vmid :: "bool \<Rightarrow> nat \<Rightarrow> vm_table \<Rightarrow> (int \<times> gh_vmid_t option, vm_table) outcome" where
  "gh_rm_get_vmid initialized vm_name tbl =
     (if GH_VM_MAX < vm_name then Done (- EINVAL, None) tbl
      else if length tbl \<le> vm_name then Fault
      else let vmid = vp_vmid (tbl ! vm_name) in
        if \<not> initialized then Done (- EPROBE_DEFER, None) tbl
        else if vmid = 0 \<and> vm_name \<noteq> GH_SELF_VM then Done (- EINVAL, None) tbl
        else Done (0, Some vmid) tbl)"

definition gh_rm_get_vm_name :: "gh_vmid_t \<Rightarrow> vm_table \<Rightarrow> int \<times> nat option" where
  "gh_rm_get_vm_name vmid tbl =
     (case List.find (\<lambda>i. vp_vmid (tbl ! i) = vmid) [0..<GH_VM_MAX] of
        None \<Rightarrow> (- EINVAL, None) | Some i \<Rightarrow> (0, Some i))"

record gh_vminfo =
  vi_guid :: "u8 list option"
  vi_uri :: "u8 list option"
  vi_name :: "u8 list option"
  vi_sign_auth :: "u8 list option"

definition gh_rm_get_vminfo :: "nat \<Rightarrow> bool \<Rightarrow> vm_table \<Rightarrow> (int \<times> gh_vminfo option, vm_table) outcome" where
  "gh_rm_get_vminfo vm_name vm_ok tbl =
     (if \<not> vm_ok then Done (- EINVAL, None) tbl
      else if GH_VM_MAX < vm_name then Done (- EINVAL, None) tbl
      else if length tbl \<le> vm_name then Fault
      else let e = tbl ! vm_name in
        Done (0, Some \<lparr>vi_guid = vp_guid e, vi_uri = vp_uri e, vi_name = vp_name e, vi_sign_auth = vp_sign_auth e\<rparr>) tbl)"

section \<open>Queries\<close>

type_synonym 's rm_caller = "u32 \<Rightarrow> u8 list \<Rightarrow> 's \<Rightarrow> rm_call_result \<times> 's"

text \<open>A call that expects a payload: \<^verbatim>\<open>if (reply_err_code || IS_ERR_OR_NULL(resp_payload))\<close>.\<close>

definition rm_query :: "'s rm_caller \<Rightarrow> u32 \<Rightarrow> u8 list \<Rightarrow> 's \<Rightarrow> (int + u8 list) \<times> 's" where
  "rm_query call mid req s =
     (case call mid req s of
        ((err, Inl e), s') \<Rightarrow> (Inl e, s')
      | ((err, Inr (None, n)), s') \<Rightarrow> (Inl 0, s')
      | ((err, Inr (Some bs, n)), s') \<Rightarrow> (Inr bs, s'))"

definition round_up4 :: "nat \<Rightarrow> nat" where
  "round_up4 n = (n + 3) div 4 * 4"

record gh_vm_get_id_resp_entry =
  id_type :: u8
  id_info :: "u8 list"

text \<open>Walking the variable-size entries; \<open>None\<close> is a read past the end of the reply.\<close>

fun id_walk :: "nat \<Rightarrow> u8 list \<Rightarrow> (gh_vm_get_id_resp_entry list \<times> nat) option" where
  "id_walk 0 rest = Some ([], 0)"
| "id_walk (Suc n) rest =
     (if length rest < 4 then None
      else let sz = unat (of_le16 (drop 2 rest)); adv = 4 + round_up4 sz in
        (case id_walk n (drop adv rest) of
           None \<Rightarrow> None
         | Some (es, tot) \<Rightarrow> Some (\<lparr>id_type = rest ! 0, id_info = take sz (drop 4 rest)\<rparr> # es, adv + tot)))"

definition gh_rm_vm_get_id ::
  "'s rm_caller \<Rightarrow> bool \<Rightarrow> gh_vmid_t \<Rightarrow> bool \<Rightarrow> 's \<Rightarrow> (int + gh_vm_get_id_resp_entry list, 's) outcome" where
  "gh_rm_vm_get_id call kz vmid n_ok s =
     (if \<not> n_ok then Done (Inl (- EINVAL)) s
      else case rm_query call 0x56000010 (le16 vmid @ [0, 0]) s of
        (Inl e, s) \<Rightarrow> Done (Inl e) s
      | (Inr resp, s) \<Rightarrow>
          if length resp < 4 then Fault
          else (case id_walk (unat (of_le32 resp)) (drop 4 resp) of
                  None \<Rightarrow> Fault
                | Some (es, tot) \<Rightarrow>
                    if tot \<noteq> length resp - 4 then Done (Inl (- EINVAL)) s
                    else if \<not> kz then Done (Inl (- ENOMEM)) s
                    else Done (Inr es) s))"

text \<open>\<^verbatim>\<open>strcmp\<close> of a byte buffer with a literal; \<open>None\<close> is a read past the end of the buffer.\<close>

fun cstr_eq :: "u8 list \<Rightarrow> string \<Rightarrow> bool option" where
  "cstr_eq [] _ = None"
| "cstr_eq (b # bs) [] = Some (b = 0)"
| "cstr_eq (b # bs) (c # cs) = (if b = of_char c then cstr_eq bs cs else Some False)"

fun vm_name_find :: "u8 list \<Rightarrow> (nat \<times> string \<times> string) list \<Rightarrow> nat option" where
  "vm_name_find buf [] = Some GH_VM_MAX"
| "vm_name_find buf ((v, img, nm) # m) =
     (case cstr_eq buf nm of None \<Rightarrow> None | Some True \<Rightarrow> Some v | Some False \<Rightarrow> vm_name_find buf m)"

text \<open>The loop over the identification entries: the collected property and the result so far.\<close>

fun id_info_loop ::
  "(nat \<Rightarrow> bool) \<Rightarrow> nat \<Rightarrow> gh_vm_get_id_resp_entry list \<Rightarrow> gh_vm_property \<Rightarrow> int \<Rightarrow> gh_vm_property \<times> int" where
  "id_info_loop kz i [] p ret = (p, ret)"
| "id_info_loop kz i (e # es) p ret =
     (if \<not> kz i then (p, - ENOMEM)
      else let info = id_info e @ (if length (id_info e) mod 4 \<noteq> 0 then [0] else []) in
        if id_type e = 0 then id_info_loop kz (i + 1) es (p\<lparr>vp_guid := Some info\<rparr>) ret
        else if id_type e = 1 then id_info_loop kz (i + 1) es (p\<lparr>vp_uri := Some info\<rparr>) ret
        else if id_type e = 2 then id_info_loop kz (i + 1) es (p\<lparr>vp_name := Some info\<rparr>) ret
        else if id_type e = 3 then id_info_loop kz (i + 1) es (p\<lparr>vp_sign_auth := Some info\<rparr>) ret
        else id_info_loop kz (i + 1) es p (- EINVAL))"

definition gh_rm_get_vm_id_info ::
  "'s rm_caller \<Rightarrow> (nat \<Rightarrow> bool) \<Rightarrow> gh_vmid_t \<Rightarrow> vm_table \<times> 's \<Rightarrow> (int, vm_table \<times> 's) outcome" where
  "gh_rm_get_vm_id_info call kz vmid st =
     (case gh_rm_vm_get_id call (kz 0) vmid True (snd st) of
        Done (Inl e) s \<Rightarrow> Done e (fst st, s)
      | Done (Inr es) s \<Rightarrow>
          (case id_info_loop kz 1 es vm_prop_zero 0 of
             (p, ret) \<Rightarrow>
               if ret \<noteq> 0 then Done ret (fst st, s)
               else case (case vp_name p of None \<Rightarrow> Some GH_VM_MAX | Some buf \<Rightarrow> vm_name_find buf vm_name_map) of
                 None \<Rightarrow> Fault
               | Some vm_name \<Rightarrow>
                   if vm_name = GH_VM_MAX then Done (- EINVAL) (fst st, s)
                   else case gh_update_vm_prop_table vm_name (Some (p\<lparr>vp_vmid := vmid\<rparr>)) (fst st) of
                     Done r tbl \<Rightarrow> Done r (tbl, s)
                   | _ \<Rightarrow> Fault)
      | _ \<Rightarrow> Fault)"

definition rm_lookup_reply :: "u8 list \<Rightarrow> (int \<times> gh_vmid_t option) option" where
  "rm_lookup_reply resp =
     (if length resp < 4 then None
      else if of_le32 resp = 1 then
        (if length resp < 6 then None else Some (0, Some (of_le16 (drop 4 resp))))
      else Some (- EINVAL, None))"

definition gh_rm_vm_lookup_name_uri ::
  "'s rm_caller \<Rightarrow> bool \<Rightarrow> u32 \<Rightarrow> u8 list option \<Rightarrow> bool \<Rightarrow> 's \<Rightarrow> (int \<times> gh_vmid_t option, 's) outcome" where
  "gh_rm_vm_lookup_name_uri call kz msg_id data vmid_ok s =
     (if data = None \<or> \<not> vmid_ok then Done (- EINVAL, None) s
      else if \<not> kz then Done (- ENOMEM, None) s
      else let d = the data;
               req = le16 (of_nat (length d)) @ [0, 0] @ d @ replicate (round_up4 (length d) - length d) 0
           in case rm_query call msg_id req s of
                (Inl e, s) \<Rightarrow> Done (e, None) s
              | (Inr resp, s) \<Rightarrow> (case rm_lookup_reply resp of None \<Rightarrow> Fault | Some r \<Rightarrow> Done r s))"

definition gh_rm_vm_lookup_guid ::
  "'s rm_caller \<Rightarrow> u8 list option \<Rightarrow> bool \<Rightarrow> 's \<Rightarrow> (int \<times> gh_vmid_t option, 's) outcome" where
  "gh_rm_vm_lookup_guid call data vmid_ok s =
     (if data = None \<or> \<not> vmid_ok then Done (- EINVAL, None) s
      else case rm_query call 0x56000012 (take 16 (the data)) s of
             (Inl e, s) \<Rightarrow> Done (e, None) s
           | (Inr resp, s) \<Rightarrow> (case rm_lookup_reply resp of None \<Rightarrow> Fault | Some r \<Rightarrow> Done r s))"

datatype gh_vm_lookup_type = GH_VM_LOOKUP_NAME | GH_VM_LOOKUP_URI | GH_VM_LOOKUP_GUID | GH_VM_LOOKUP_OTHER

definition gh_rm_vm_lookup ::
  "'s rm_caller \<Rightarrow> bool \<Rightarrow> gh_vm_lookup_type \<Rightarrow> u8 list option \<Rightarrow> nat \<Rightarrow> bool \<Rightarrow> 's \<Rightarrow> (int \<times> gh_vmid_t option, 's) outcome" where
  "gh_rm_vm_lookup call kz ty data sz vmid_ok s =
     (case ty of
        GH_VM_LOOKUP_NAME \<Rightarrow> gh_rm_vm_lookup_name_uri call kz 0x56000013 (map_option (take sz) data) vmid_ok s
      | GH_VM_LOOKUP_URI \<Rightarrow> gh_rm_vm_lookup_name_uri call kz 0x56000011 (map_option (take sz) data) vmid_ok s
      | GH_VM_LOOKUP_GUID \<Rightarrow>
          if sz \<noteq> 16 then Done (- EINVAL, None) s else gh_rm_vm_lookup_guid call data vmid_ok s
      | GH_VM_LOOKUP_OTHER \<Rightarrow> Done (0, None) s)"

section \<open>VM status\<close>

record gh_vm_status =
  vs_vm_status :: u8
  vs_os_status :: u8
  vs_app_status :: u16

definition gh_rm_vm_get_status :: "'s rm_caller \<Rightarrow> bool \<Rightarrow> gh_vmid_t \<Rightarrow> 's \<Rightarrow> (int + gh_vm_status) \<times> 's" where
  "gh_rm_vm_get_status call kz vmid s =
     (case rm_query call 0x56000017 (le16 vmid @ [0, 0]) s of
        (Inl e, s) \<Rightarrow> (Inl e, s)
      | (Inr resp, s) \<Rightarrow>
          if length resp \<noteq> 4 then (Inl (- EINVAL), s)
          else if \<not> kz then (Inl (- ENOMEM), s)
          else (Inr \<lparr>vs_vm_status = resp ! 0, vs_os_status = resp ! 1, vs_app_status = of_le16 (drop 2 resp)\<rparr>, s))"

text \<open>A call that expects an empty reply.\<close>

definition rm_command :: "'s rm_caller \<Rightarrow> u32 \<Rightarrow> u8 list \<Rightarrow> 's \<Rightarrow> int \<times> 's" where
  "rm_command call mid req s =
     (case call mid req s of
        ((err, Inl e), s') \<Rightarrow> (e, s')
      | ((err, Inr (p, n)), s') \<Rightarrow> (if n \<noteq> 0 then (- EINVAL, s') else (0, s')))"

definition gh_rm_vm_set_status :: "'s rm_caller \<Rightarrow> gh_vm_status \<Rightarrow> 's \<Rightarrow> int \<times> 's" where
  "gh_rm_vm_set_status call st s =
     rm_command call 0x56000080 ([vs_vm_status st, vs_os_status st] @ le16 (vs_app_status st)) s"

definition rm_vm_modify_status ::
  "'s rm_caller \<Rightarrow> bool \<Rightarrow> (gh_vm_status \<Rightarrow> gh_vm_status) \<Rightarrow> 's \<Rightarrow> int \<times> 's" where
  "rm_vm_modify_status call kz f s =
     (case gh_rm_vm_get_status call kz 0 s of
        (Inl e, s) \<Rightarrow> (e, s) | (Inr st, s) \<Rightarrow> gh_rm_vm_set_status call (f st) s)"

definition gh_rm_vm_set_vm_status :: "'s rm_caller \<Rightarrow> bool \<Rightarrow> u8 \<Rightarrow> 's \<Rightarrow> int \<times> 's" where
  "gh_rm_vm_set_vm_status call kz x = rm_vm_modify_status call kz (vs_vm_status_update (\<lambda>_. x))"

definition gh_rm_vm_set_os_status :: "'s rm_caller \<Rightarrow> bool \<Rightarrow> u8 \<Rightarrow> 's \<Rightarrow> int \<times> 's" where
  "gh_rm_vm_set_os_status call kz x = rm_vm_modify_status call kz (vs_os_status_update (\<lambda>_. x))"

definition gh_rm_vm_set_app_status :: "'s rm_caller \<Rightarrow> bool \<Rightarrow> u16 \<Rightarrow> 's \<Rightarrow> int \<times> 's" where
  "gh_rm_vm_set_app_status call kz x = rm_vm_modify_status call kz (vs_app_status_update (\<lambda>_. x))"

section \<open>Hypervisor resources\<close>

record gh_vm_get_hyp_res_resp_entry =
  hr_res_type :: u8
  hr_partner_vmid :: gh_vmid_t
  hr_resource_handle :: u32
  hr_resource_label :: gh_label_t
  hr_cap_id_low :: u32
  hr_cap_id_high :: u32
  hr_virq_handle :: gh_virq_handle_t
  hr_virq :: u32
  hr_base_low :: u32
  hr_base_high :: u32
  hr_size_low :: u32
  hr_size_high :: u32

definition hyp_res_of :: "u8 list \<Rightarrow> gh_vm_get_hyp_res_resp_entry" where
  "hyp_res_of b =
     \<lparr>hr_res_type = b ! 0, hr_partner_vmid = of_le16 (drop 2 b), hr_resource_handle = of_le32 (drop 4 b),
      hr_resource_label = of_le32 (drop 8 b), hr_cap_id_low = of_le32 (drop 12 b), hr_cap_id_high = of_le32 (drop 16 b),
      hr_virq_handle = of_le32 (drop 20 b), hr_virq = of_le32 (drop 24 b), hr_base_low = of_le32 (drop 28 b),
      hr_base_high = of_le32 (drop 32 b), hr_size_low = of_le32 (drop 36 b), hr_size_high = of_le32 (drop 40 b)\<rparr>"

text \<open>The size test is written as in the code, with its guards against overflow of the product.\<close>

definition gh_rm_vm_get_hyp_res ::
  "'s rm_caller \<Rightarrow> bool \<Rightarrow> gh_vmid_t \<Rightarrow> bool \<Rightarrow> 's \<Rightarrow> (int + gh_vm_get_hyp_res_resp_entry list) \<times> 's" where
  "gh_rm_vm_get_hyp_res call kz vmid n_ok s =
     (if \<not> n_ok then (Inl (- EINVAL), s)
      else case rm_query call 0x56000020 (le16 vmid @ [0, 0]) s of
        (Inl e, s) \<Rightarrow> (Inl e, s)
      | (Inr resp, s) \<Rightarrow>
          let n = unat (of_le32 resp) in
          if length resp < 4 \<or> (2 ^ 32 - 1) div 44 < n \<or> 2 ^ 32 - 1 - n * 44 < 4 \<or> length resp \<noteq> 4 + n * 44
          then (Inl (- EINVAL), s)
          else if \<not> kz then (Inl (- ENOMEM), s)
          else (Inr (map (\<lambda>i. hyp_res_of (drop (4 + i * 44) resp)) [0..<n]), s))"

section \<open>Interrupt calls\<close>

abbreviation (input) GH_VM_IRQ_NOTIFY_FLAGS_LENT :: u16 where "GH_VM_IRQ_NOTIFY_FLAGS_LENT \<equiv> 1"
abbreviation (input) GH_VM_IRQ_NOTIFY_FLAGS_RELEASED :: u16 where "GH_VM_IRQ_NOTIFY_FLAGS_RELEASED \<equiv> 2"
abbreviation (input) GH_VM_IRQ_NOTIFY_FLAGS_ACCEPTED :: u16 where "GH_VM_IRQ_NOTIFY_FLAGS_ACCEPTED \<equiv> 4"

definition gh_rm_vm_irq_notify ::
  "'s rm_caller \<Rightarrow> bool \<Rightarrow> gh_vmid_t list \<Rightarrow> u16 \<Rightarrow> gh_virq_handle_t \<Rightarrow> 's \<Rightarrow> int \<times> 's" where
  "gh_rm_vm_irq_notify call kz vmids flags virq_handle s =
     (if flags AND GH_VM_IRQ_NOTIFY_FLAGS_LENT = 0 \<and> vmids \<noteq> [] then (- EINVAL, s)
      else if 65535 < length vmids then (- EINVAL, s)
      else if \<not> kz then (- ENOMEM, s)
      else rm_command call 0x56000054
             (le32 virq_handle @ [ucast flags, 0, 0, 0] @
              (if flags AND GH_VM_IRQ_NOTIFY_FLAGS_LENT \<noteq> 0
               then le16 (of_nat (length vmids)) @ [0, 0] @ concat (map (\<lambda>v. le16 v @ [0, 0]) vmids) else [])) s)"

text \<open>The second component of the result is the handle stored for the caller.\<close>

definition gh_rm_vm_irq_lend ::
  "'s rm_caller \<Rightarrow> gh_vmid_t \<Rightarrow> u32 \<Rightarrow> u32 \<Rightarrow> 's \<Rightarrow> (int \<times> gh_virq_handle_t option) \<times> 's" where
  "gh_rm_vm_irq_lend call vmid virq label s =
     (case rm_query call 0x56000051 (le16 vmid @ [0, 0] @ le32 virq @ le32 label) s of
        (Inl e, s) \<Rightarrow> ((e, None), s)
      | (Inr resp, s) \<Rightarrow> if length resp \<noteq> 4 then ((- EINVAL, None), s) else ((0, Some (of_le32 resp)), s))"

definition gh_rm_vm_irq_lend_notify :: "'s rm_caller \<Rightarrow> bool \<Rightarrow> gh_vmid_t \<Rightarrow> gh_virq_handle_t \<Rightarrow> 's \<Rightarrow> int \<times> 's" where
  "gh_rm_vm_irq_lend_notify call kz vmid h = gh_rm_vm_irq_notify call kz [vmid] GH_VM_IRQ_NOTIFY_FLAGS_LENT h"

definition gh_rm_vm_irq_release :: "'s rm_caller \<Rightarrow> gh_virq_handle_t \<Rightarrow> 's \<Rightarrow> int \<times> 's" where
  "gh_rm_vm_irq_release call h s = rm_command call 0x56000052 (le32 h) s"

definition gh_rm_vm_irq_release_notify :: "'s rm_caller \<Rightarrow> bool \<Rightarrow> gh_vmid_t \<Rightarrow> gh_virq_handle_t \<Rightarrow> 's \<Rightarrow> int \<times> 's" where
  "gh_rm_vm_irq_release_notify call kz vmid h = gh_rm_vm_irq_notify call kz [] GH_VM_IRQ_NOTIFY_FLAGS_RELEASED h"

definition gh_rm_vm_irq_accept :: "'s rm_caller \<Rightarrow> gh_virq_handle_t \<Rightarrow> int \<Rightarrow> 's \<Rightarrow> int \<times> 's" where
  "gh_rm_vm_irq_accept call h virq s =
     (if virq < - 1 then (- EINVAL, s)
      else case rm_query call 0x56000050 (le32 h @ le32 (word_of_int virq)) s of
        (Inl e, s) \<Rightarrow> (e, s)
      | (Inr resp, s) \<Rightarrow>
          if virq = - 1 \<and> length resp \<noteq> 4 then (- EINVAL, s)
          else (if virq = - 1 then sint (of_le32 resp) else virq, s))"

definition gh_rm_vm_irq_accept_notify :: "'s rm_caller \<Rightarrow> bool \<Rightarrow> gh_vmid_t \<Rightarrow> gh_virq_handle_t \<Rightarrow> 's \<Rightarrow> int \<times> 's" where
  "gh_rm_vm_irq_accept_notify call kz vmid h = gh_rm_vm_irq_notify call kz [] GH_VM_IRQ_NOTIFY_FLAGS_ACCEPTED h"

definition gh_rm_vm_irq_reclaim :: "'s rm_caller \<Rightarrow> gh_virq_handle_t \<Rightarrow> 's \<Rightarrow> int \<times> 's" where
  "gh_rm_vm_irq_reclaim call h s = rm_command call 0x56000053 (le32 h) s"

section \<open>VM life cycle calls\<close>

text \<open>
  \<open>VM_DEALLOCATE\<close>, \<open>VM_STOP\<close> and \<open>VM_RESET\<close> return \<^verbatim>\<open>reply_err_code\<close> on failure, which
  \<^verbatim>\<open>gh_rm_call\<close> leaves unset when it fails before a reply; \<open>junk\<close> is what the variable held.
\<close>

definition rm_command_raw :: "u32 \<Rightarrow> 's rm_caller \<Rightarrow> u32 \<Rightarrow> u8 list \<Rightarrow> 's \<Rightarrow> int \<times> 's" where
  "rm_command_raw junk call mid req s =
     (case call mid req s of
        ((err, res), s') \<Rightarrow>
          let reply_err_code = (case err of None \<Rightarrow> junk | Some e \<Rightarrow> e) in
          (case res of
             Inl e \<Rightarrow> (sint reply_err_code, s')
           | Inr (p, n) \<Rightarrow>
               if reply_err_code \<noteq> 0 then (sint reply_err_code, s')
               else if n \<noteq> 0 then (- EINVAL, s') else (0, s')))"

definition gh_rm_vm_alloc_vmid ::
  "'s rm_caller \<Rightarrow> nat \<Rightarrow> u32 \<Rightarrow> vm_table \<times> 's \<Rightarrow> (int \<times> u32, vm_table \<times> 's) outcome" where
  "gh_rm_vm_alloc_vmid call vm_name vmid st =
     (if GH_VM_MAX < vm_name then Done (- EINVAL, vmid) st
      else if length (fst st) \<le> vm_name then Fault
      else if vp_vmid (fst st ! vm_name) \<noteq> GH_VMID_INVAL \<or> vm_name = GH_SELF_VM then Done (- EINVAL, vmid) st
      else case call 0x56000001 (le16 (ucast vmid) @ [0, 0]) (snd st) of
        ((err, Inl e), s) \<Rightarrow> Done (e, vmid) (fst st, s)
      | ((err, Inr (resp, n)), s) \<Rightarrow>
          if resp \<noteq> None \<and> n \<noteq> 4 then Done (- EINVAL, vmid) (fst st, s)
          else let v = (case resp of None \<Rightarrow> vmid | Some b \<Rightarrow> of_le32 b) in
            (case gh_update_vm_prop_table vm_name (Some (vm_prop_zero\<lparr>vp_vmid := ucast v\<rparr>)) (fst st) of
               Done r tbl \<Rightarrow> Done (if r \<noteq> 0 then - EINVAL else 0, v) (tbl, s)
             | _ \<Rightarrow> Fault))"

definition gh_rm_vm_dealloc_vmid :: "u32 \<Rightarrow> 's rm_caller \<Rightarrow> gh_vmid_t \<Rightarrow> vm_table \<times> 's \<Rightarrow> int \<times> vm_table \<times> 's" where
  "gh_rm_vm_dealloc_vmid junk call vmid st =
     (case call 0x56000002 (le16 vmid @ [0, 0]) (snd st) of
        ((err, res), s) \<Rightarrow>
          let reply_err_code = (case err of None \<Rightarrow> junk | Some e \<Rightarrow> e) in
          (case res of
             Inl e \<Rightarrow> (sint reply_err_code, fst st, s)
           | Inr (p, n) \<Rightarrow>
               if reply_err_code \<noteq> 0 then (sint reply_err_code, fst st, s)
               else if n \<noteq> 0 then (- EINVAL, fst st, s)
               else (0, gh_reset_vm_prop_table_entry vmid (fst st), s)))"

definition le64_pair :: "u64 \<Rightarrow> u8 list" where
  "le64_pair w = le32 (ucast w) @ le32 (ucast (drop_bit 32 w))"

definition gh_rm_vm_config_image ::
  "'s rm_caller \<Rightarrow> gh_vmid_t \<Rightarrow> u16 \<Rightarrow> u32 \<Rightarrow> u64 \<Rightarrow> u64 \<Rightarrow> u64 \<Rightarrow> u64 \<Rightarrow> 's \<Rightarrow> int \<times> 's" where
  "gh_rm_vm_config_image call vmid auth_mech mem_handle image_offset image_size dtb_offset dtb_size s =
     rm_command call 0x56000009
       (le16 vmid @ le16 auth_mech @ le32 mem_handle @ le64_pair image_offset @ le64_pair image_size @
        le64_pair dtb_offset @ le64_pair dtb_size) s"

definition gh_rm_vm_auth_image :: "'s rm_caller \<Rightarrow> bool \<Rightarrow> gh_vmid_t \<Rightarrow> (u32 \<times> u32) list \<Rightarrow> 's \<Rightarrow> int \<times> 's" where
  "gh_rm_vm_auth_image call kz vmid entries s =
     (if \<not> kz then (- ENOMEM, s)
      else rm_command call 0x5600000A
             (le16 vmid @ le16 (of_nat (length entries)) @ concat (map (\<lambda>(ty, v). le32 ty @ le32 v) entries)) s)"

definition gh_rm_vm_init :: "'s rm_caller \<Rightarrow> gh_vmid_t \<Rightarrow> 's \<Rightarrow> int \<times> 's" where
  "gh_rm_vm_init call vmid s = rm_command call 0x5600000B (le16 vmid @ [0, 0]) s"

text \<open>\<^verbatim>\<open>gh_rm_vm_start\<close> does not look at the returned pointer; \<open>junk_n\<close> is what the size variable held.\<close>

definition gh_rm_vm_start :: "nat \<Rightarrow> 's rm_caller \<Rightarrow> gh_vmid_t \<Rightarrow> 's \<Rightarrow> int \<times> 's" where
  "gh_rm_vm_start junk_n call vmid s =
     (case call 0x56000004 (le16 vmid @ [0, 0]) s of
        ((err, res), s') \<Rightarrow>
          let reply_err_code = (case err of None \<Rightarrow> 0 | Some e \<Rightarrow> e);
              n = (case res of Inl e \<Rightarrow> junk_n | Inr (p, n) \<Rightarrow> n) in
          if reply_err_code \<noteq> 0 then (sint reply_err_code, s')
          else if n \<noteq> 0 then (- EINVAL, s') else (0, s'))"

definition gh_rm_vm_stop :: "u32 \<Rightarrow> 's rm_caller \<Rightarrow> gh_vmid_t \<Rightarrow> u32 \<Rightarrow> u8 \<Rightarrow> 's \<Rightarrow> int \<times> 's" where
  "gh_rm_vm_stop junk call vmid stop_reason flags s =
     (if 4 \<le> stop_reason then (- EINVAL, s)
      else rm_command_raw junk call 0x56000005 (le16 vmid @ [flags, 0] @ le32 stop_reason) s)"

definition gh_rm_vm_reset :: "u32 \<Rightarrow> 's rm_caller \<Rightarrow> gh_vmid_t \<Rightarrow> 's \<Rightarrow> int \<times> 's" where
  "gh_rm_vm_reset junk call vmid s = rm_command_raw junk call 0x56000006 (le16 vmid @ [0, 0]) s"

section \<open>Console calls\<close>

definition gh_rm_console_open :: "'s rm_caller \<Rightarrow> gh_vmid_t \<Rightarrow> 's \<Rightarrow> int \<times> 's" where
  "gh_rm_console_open call vmid s = rm_command call 0x56000081 (le16 vmid @ [0, 0]) s"

definition gh_rm_console_close :: "'s rm_caller \<Rightarrow> gh_vmid_t \<Rightarrow> 's \<Rightarrow> int \<times> 's" where
  "gh_rm_console_close call vmid s = rm_command call 0x56000082 (le16 vmid @ [0, 0]) s"

definition gh_rm_console_write :: "'s rm_caller \<Rightarrow> bool \<Rightarrow> gh_vmid_t \<Rightarrow> u8 list \<Rightarrow> 's \<Rightarrow> int \<times> 's" where
  "gh_rm_console_write call kz vmid buf s =
     (if length buf < 1 \<or> 2 ^ 32 - 1 - 4 < length buf then (- EINVAL, s)
      else if \<not> kz then (- ENOMEM, s)
      else rm_command call 0x56000083 (le16 vmid @ le16 (of_nat (length buf)) @ buf) s)"

definition gh_rm_console_flush :: "'s rm_caller \<Rightarrow> gh_vmid_t \<Rightarrow> 's \<Rightarrow> int \<times> 's" where
  "gh_rm_console_flush call vmid s = rm_command call 0x56000084 (le16 vmid @ [0, 0]) s"

end
