(* ===== verification/Rm_Vm_Correct.thy ===== *)
theory Rm_Vm_Correct
  imports Rm_Vm
begin

text \<open>
  Properties of the VM table and of the Resource Manager queries: lookups invert updates,
  decoders invert the wire encoding, and the error paths on which the interface misreports.
\<close>

section \<open>The VM table\<close>

definition vm_table_fresh :: vm_table where
  "vm_table_fresh = gh_init_vm_prop_table (replicate GH_VM_MAX vm_prop_zero)"

lemma vm_table_fresh_eq: "vm_table_fresh = vm_prop_zero # replicate 6 vm_prop_none"
  by (simp add: vm_table_fresh_def gh_init_vm_prop_table_def upt_rec numeral_eq_Suc vm_prop_zero_def)

definition vm_entry_blank :: "gh_vm_property \<Rightarrow> bool" where
  "vm_entry_blank e \<longleftrightarrow> vp_guid e = None \<and> vp_uri e = None \<and> vp_name e = None \<and> vp_sign_auth e = None"

text \<open>The VM table translates both ways: once a free entry was given a vmid that no other entry
  has, the name looks up the vmid and the vmid looks up the name; a second update of an
  identified entry is refused with \<^verbatim>\<open>-EEXIST\<close>; and resetting the vmid empties exactly that
  entry.\<close>

theorem vm_table_roundtrip:
  assumes "length tbl = GH_VM_MAX" and "0 < n" "n < GH_VM_MAX" and "vm_entry_blank (tbl ! n)"
    and "vp_vmid p \<noteq> 0" and "\<forall>i<GH_VM_MAX. vp_vmid (tbl ! i) \<noteq> vp_vmid p" and "vp_name p \<noteq> None"
  shows "\<exists>t. gh_update_vm_prop_table n (Some p) tbl = Done 0 t \<and> length t = GH_VM_MAX \<and>
     gh_rm_get_vmid True n t = Done (0, Some (vp_vmid p)) t \<and> gh_rm_get_vm_name (vp_vmid p) t = (0, Some n) \<and>
     gh_update_vm_prop_table n (Some q) t = Done (- EEXIST) t \<and>
     gh_reset_vm_prop_table_entry (vp_vmid p) t = tbl[n := vm_prop_none]"
proof -
  let ?t = "tbl[n := p]"
  have "gh_update_vm_prop_table n (Some p) tbl = Done 0 ?t"
    using assms(1,3,4,5) by (cases p) (auto simp: gh_update_vm_prop_table_def vm_entry_blank_def vm_prop_set_def Let_def)
  moreover have "gh_rm_get_vmid True n ?t = Done (0, Some (vp_vmid p)) ?t"
    using assms(1,3,5) by (simp add: gh_rm_get_vmid_def Let_def)
  moreover have uniq: "i = n" if "i < 7" "vp_vmid (?t ! i) = vp_vmid p" for i
    using that assms(1,6) by (cases "i = n") auto
  have "List.find (\<lambda>i. vp_vmid (?t ! i) = vp_vmid p) [0..<7] = Some n"
    by (rule find_index_unique) (use assms(1,3) uniq in auto)
  then have "gh_rm_get_vm_name (vp_vmid p) ?t = (0, Some n)" by (simp only: gh_rm_get_vm_name_def) simp
  moreover have "gh_update_vm_prop_table n (Some q) ?t = Done (- EEXIST) ?t"
    using assms(1,3,7) by (auto simp: gh_update_vm_prop_table_def Let_def)
  moreover have "List.find (\<lambda>i. vp_vmid p = vp_vmid (?t ! i)) [1..<7] = Some n"
    by (rule find_index_unique) (use assms(1-3) uniq in auto)
  then have "gh_reset_vm_prop_table_entry (vp_vmid p) ?t = tbl[n := vm_prop_none]"
    by (simp only: gh_reset_vm_prop_table_entry_def) simp
  ultimately show ?thesis using assms(1) by (intro exI [of _ ?t]) simp
qed

theorem vm_table_roundtrip_witness:
  "\<exists>t. gh_update_vm_prop_table 2 (Some (vm_prop_zero\<lparr>vp_vmid := 45, vp_name := Some [116, 0]\<rparr>)) vm_table_fresh = Done 0 t \<and>
     gh_rm_get_vm_name 45 t = (0, Some 2)"
proof -
  let ?p = "vm_prop_zero\<lparr>vp_vmid := 45, vp_name := Some [116, 0]\<rparr>"
  have "\<exists>t. gh_update_vm_prop_table 2 (Some ?p) vm_table_fresh = Done 0 t \<and> length t = GH_VM_MAX \<and>
     gh_rm_get_vmid True 2 t = Done (0, Some (vp_vmid ?p)) t \<and> gh_rm_get_vm_name (vp_vmid ?p) t = (0, Some 2) \<and>
     gh_update_vm_prop_table 2 (Some ?p) t = Done (- EEXIST) t \<and>
     gh_reset_vm_prop_table_entry (vp_vmid ?p) t = vm_table_fresh[2 := vm_prop_none]"
    by (rule vm_table_roundtrip)
       (auto simp: vm_table_fresh_eq vm_entry_blank_def vm_prop_none_def vm_prop_zero_def nth_Cons split: nat.splits)
  then show ?thesis by auto
qed

text \<open>The bounds check of the VM table is off by one: the name \<^verbatim>\<open>GH_VM_MAX\<close>, which the name
  lookups return for an unknown VM, passes it and indexes one element past the table, in every
  operation that takes a name.\<close>

theorem vm_table_off_by_one:
  assumes "length tbl = GH_VM_MAX"
  shows "(gh_rm_get_vmid init (gh_get_vm_name nm) tbl = Fault \<longleftrightarrow> gh_get_vm_name nm = GH_VM_MAX) \<and>
    gh_rm_get_vminfo GH_VM_MAX True tbl = Fault \<and> gh_update_vm_prop_table GH_VM_MAX (Some p) tbl = Fault"
proof -
  have "gh_get_vm_name nm \<le> 7"
  proof (cases "List.find (\<lambda>(v, img, nm'). nm = nm') vm_name_map")
    case (Some x)
    then have "x \<in> set vm_name_map" by (metis find_Some_iff nth_mem)
    then have "fst x \<le> 6" by (auto simp: vm_name_map_def)
    then show ?thesis by (cases x) (simp add: gh_get_vm_name_def Some)
  qed (simp add: gh_get_vm_name_def)
  then have "gh_rm_get_vmid init (gh_get_vm_name nm) tbl = Fault \<longleftrightarrow> gh_get_vm_name nm = GH_VM_MAX"
    using assms by (auto simp: gh_rm_get_vmid_def Let_def)
  moreover have "gh_rm_get_vminfo GH_VM_MAX True tbl = Fault \<and> gh_update_vm_prop_table GH_VM_MAX (Some p) tbl = Fault"
    using assms by (simp add: gh_rm_get_vminfo_def gh_update_vm_prop_table_def)
  ultimately show ?thesis by blast
qed

theorem vm_table_off_by_one_witness: "gh_rm_get_vmid True (gh_get_vm_name ''vm'') vm_table_fresh = Fault"
proof -
  have "gh_get_vm_name ''vm'' = GH_VM_MAX" by (simp add: gh_get_vm_name_def vm_name_map_def)
  then show ?thesis
    using vm_table_off_by_one [of vm_table_fresh True "''vm''" vm_prop_zero] by (simp add: vm_table_fresh_eq)
qed

section \<open>Decoders\<close>

text \<open>The wire encoding of the entries of \<^verbatim>\<open>VM_GET_ID\<close> and \<^verbatim>\<open>VM_GET_HYP_RESOURCES\<close> replies.\<close>

definition id_entry_bytes :: "gh_vm_get_id_resp_entry \<Rightarrow> u8 list" where
  "id_entry_bytes e =
     [id_type e, 0] @ le16 (of_nat (length (id_info e))) @ id_info e @
     replicate (round_up4 (length (id_info e)) - length (id_info e)) 0"

definition hyp_res_bytes :: "gh_vm_get_hyp_res_resp_entry \<Rightarrow> u8 list" where
  "hyp_res_bytes e =
     [hr_res_type e, 0] @ le16 (hr_partner_vmid e) @ le32 (hr_resource_handle e) @ le32 (hr_resource_label e) @
     le32 (hr_cap_id_low e) @ le32 (hr_cap_id_high e) @ le32 (hr_virq_handle e) @ le32 (hr_virq e) @
     le32 (hr_base_low e) @ le32 (hr_base_high e) @ le32 (hr_size_low e) @ le32 (hr_size_high e)"

definition reply_bytes :: "('e \<Rightarrow> u8 list) \<Rightarrow> 'e list \<Rightarrow> u8 list" where
  "reply_bytes f es = le32 (of_nat (length es)) @ concat (map f es)"

lemma round_up4_ge: "n \<le> round_up4 n"
  by (simp add: round_up4_def)

lemma length_id_entry_bytes: "length (id_entry_bytes e) = 4 + round_up4 (length (id_info e))"
  using round_up4_ge [of "length (id_info e)"] by (simp add: id_entry_bytes_def)

lemma length_hyp_res_bytes: "length (hyp_res_bytes e) = 44"
  by (simp add: hyp_res_bytes_def)

lemma unat_of_nat_u16: "n < 65536 \<Longrightarrow> unat (of_nat n :: u16) = n"
  by (simp add: unat_of_nat)

lemma unat_of_nat_u32: "n < 4294967296 \<Longrightarrow> unat (of_nat n :: u32) = n"
  by (simp add: unat_of_nat)

lemma id_walk_bytes:
  assumes "\<forall>e \<in> set es. length (id_info e) < 65536"
  shows "id_walk (length es) (concat (map id_entry_bytes es)) = Some (es, length (concat (map id_entry_bytes es)))"
  using assms
proof (induction es)
  case (Cons e es)
  let ?r = "concat (map id_entry_bytes es)"
  have sz: "unat (of_le16 (drop 2 (id_entry_bytes e @ ?r))) = length (id_info e)"
    using Cons.prems by (simp add: id_entry_bytes_def unat_of_nat_u16)
  have "take (length (id_info e)) (drop 4 (id_entry_bytes e @ ?r)) = id_info e" "(id_entry_bytes e @ ?r) ! 0 = id_type e"
    by (simp_all add: id_entry_bytes_def le16_def)
  with sz Cons show ?case
    by (simp add: length_id_entry_bytes Let_def)
qed simp

lemma hyp_res_of_bytes: "hyp_res_of (hyp_res_bytes e @ r) = e"
  by (cases e) (simp add: hyp_res_of_def hyp_res_bytes_def)

lemma drop_concat_blocks:
  assumes "\<forall>x. length (f x) = k" and "i < length es"
  shows "\<exists>r. drop (i * k) (concat (map f es)) = f (es ! i) @ r"
  using assms(2)
proof (induction es arbitrary: i)
  case (Cons e es)
  then show ?case using assms(1) by (cases i) auto
qed simp

lemma length_concat_blocks: "\<forall>x. length (f x) = k \<Longrightarrow> length (concat (map f es)) = length es * k"
  by (induction es) auto

lemma hyp_res_decode:
  "map (\<lambda>i. hyp_res_of (drop (4 + i * 44) (reply_bytes hyp_res_bytes es))) [0..<length es] = es"
proof (rule nth_equalityI)
  fix i
  assume "i < length (map (\<lambda>i. hyp_res_of (drop (4 + i * 44) (reply_bytes hyp_res_bytes es))) [0..<length es])"
  then have i: "i < length es" by simp
  obtain r where "drop (i * 44) (concat (map hyp_res_bytes es)) = hyp_res_bytes (es ! i) @ r"
    using drop_concat_blocks [of hyp_res_bytes 44 i es] i by (auto simp: length_hyp_res_bytes)
  with i show "map (\<lambda>i. hyp_res_of (drop (4 + i * 44) (reply_bytes hyp_res_bytes es))) [0..<length es] ! i = es ! i"
    by (simp add: reply_bytes_def hyp_res_of_bytes)
qed simp

lemma gh_rm_vm_get_hyp_res_encoded:
  assumes call: "call 0x56000020 (le16 vmid @ [0, 0]) s = ((Some 0, Inr (Some (reply_bytes hyp_res_bytes hrs), m)), s2)"
    and fits: "length hrs * 44 + 4 < 2 ^ 32"
  shows "gh_rm_vm_get_hyp_res call True vmid True s = (Inr hrs, s2)"
proof -
  have len: "length (reply_bytes hyp_res_bytes hrs) = 4 + length hrs * 44"
    by (simp add: reply_bytes_def length_concat_blocks length_hyp_res_bytes del: length_concat)
  have n: "unat (of_le32 (reply_bytes hyp_res_bytes hrs)) = length hrs"
    using fits by (simp add: reply_bytes_def unat_of_nat_u32)
  have ok: "\<not> (length (reply_bytes hyp_res_bytes hrs) < 4 \<or> (2 ^ 32 - 1) div 44 < length hrs \<or>
      2 ^ 32 - 1 - length hrs * 44 < 4 \<or> length (reply_bytes hyp_res_bytes hrs) \<noteq> 4 + length hrs * 44)"
    using fits unfolding len by simp
  show "gh_rm_vm_get_hyp_res call True vmid True s = (Inr hrs, s2)"
    unfolding gh_rm_vm_get_hyp_res_def rm_query_def call Let_def
    by (simp only: prod.case sum.case option.case n ok hyp_res_decode if_False simp_thms)
qed

text \<open>C31: The reply decoders invert the Resource Manager's encoding: for every list of identification
  entries and every list of hypervisor resources that fits a reply, the query returns exactly
  the entries that were encoded.\<close>

theorem rm_decoders_roundtrip:
  assumes "call 0x56000010 (le16 vmid @ [0, 0]) s = ((Some 0, Inr (Some (reply_bytes id_entry_bytes ids), n)), s1)"
    and "call 0x56000020 (le16 vmid @ [0, 0]) s = ((Some 0, Inr (Some (reply_bytes hyp_res_bytes hrs), m)), s2)"
    and "\<forall>e \<in> set ids. length (id_info e) < 65536" and "length ids < 2 ^ 32" and "length hrs * 44 + 4 < 2 ^ 32"
  shows "gh_rm_vm_get_id call True vmid True s = Done (Inr ids) s1 \<and>
    gh_rm_vm_get_hyp_res call True vmid True s = (Inr hrs, s2)"
proof -
  have "gh_rm_vm_get_id call True vmid True s = Done (Inr ids) s1"
    using assms(1,4) id_walk_bytes [OF assms(3)]
    by (simp add: gh_rm_vm_get_id_def rm_query_def reply_bytes_def unat_of_nat_u32)
  then show ?thesis using gh_rm_vm_get_hyp_res_encoded [where call = call, OF assms(2,5)] by blast
qed

theorem rm_decoders_roundtrip_witness:
  "let e = \<lparr>id_type = 2, id_info = [111, 101, 109, 0, 1]\<rparr>;
       h = hyp_res_of (replicate 44 7);
       call = (\<lambda>mid req s. ((Some 0, Inr (Some (if mid = 0x56000010 then reply_bytes id_entry_bytes [e, e]
                              else reply_bytes hyp_res_bytes [h]), 0)), s)) :: unit rm_caller
   in gh_rm_vm_get_id call True 3 True () = Done (Inr [e, e]) () \<and> gh_rm_vm_get_hyp_res call True 3 True () = (Inr [h], ())"
  unfolding Let_def by (rule rm_decoders_roundtrip [where n = 0 and m = 0]) simp_all

section \<open>Identification of a VM by name\<close>

lemma vm_names: "(v, img, nm) \<in> set vm_name_map \<Longrightarrow> nm \<noteq> '''' \<Longrightarrow>
   (length nm mod 4 = 0 \<longleftrightarrow> v = 6) \<and>
   vm_name_find (map of_char nm @ [0]) vm_name_map = Some v \<and> (v = 6 \<longrightarrow> vm_name_find (map of_char nm) vm_name_map = None)"
  by (auto simp: vm_name_map_def dvd_eq_mod_eq_0)

text \<open>When the Resource Manager identifies a VM by one of the names the driver knows, the VM's
  table entry is filled in, except for the one known name whose length is a multiple of four:
  its copy is not terminated and the comparison reads past the buffer.\<close>

theorem gh_rm_get_vm_id_info_names:
  assumes "call 0x56000010 (le16 vmid @ [0, 0]) s =
      ((Some 0, Inr (Some (reply_bytes id_entry_bytes [\<lparr>id_type = 2, id_info = map of_char nm\<rparr>]), n)), s1)"
    and "\<forall>i. kz i" and "(v, img, nm) \<in> set vm_name_map" and "nm \<noteq> ''''"
  shows "gh_rm_get_vm_id_info call kz vmid (tbl, s) =
     (if length nm mod 4 = 0 then Fault
      else case gh_update_vm_prop_table v
                  (Some (vm_prop_zero\<lparr>vp_vmid := vmid, vp_name := Some (map of_char nm @ [0])\<rparr>)) tbl of
             Done r tbl' \<Rightarrow> Done r (tbl', s1) | _ \<Rightarrow> Fault)"
proof -
  let ?e = "\<lparr>id_type = 2, id_info = map of_char nm\<rparr> :: gh_vm_get_id_resp_entry"
  have len: "length nm < 65536" and v: "v \<noteq> 7" using assms(3) by (auto simp: vm_name_map_def)
  then have id: "gh_rm_vm_get_id call True vmid True s = Done (Inr [?e]) s1"
    using assms(1) id_walk_bytes [of "[?e]"]
    by (simp add: gh_rm_vm_get_id_def rm_query_def reply_bytes_def)
  show ?thesis
    using vm_names [OF assms(3,4)] assms(2) v
    by (simp add: gh_rm_get_vm_id_info_def id Let_def vm_prop_zero_def)
qed

theorem gh_rm_get_vm_id_info_names_witness:
  "let e = \<lambda>nm. \<lparr>id_type = 2, id_info = map of_char nm\<rparr> :: gh_vm_get_id_resp_entry;
       call = \<lambda>nm. (\<lambda>mid req s. ((Some 0, Inr (Some (reply_bytes id_entry_bytes [e nm]), 0)), s)) :: unit rm_caller
   in gh_rm_get_vm_id_info (call ''qcom,autoghgvmlv'') (\<lambda>i. True) 5 (vm_table_fresh, ()) = Fault \<and>
      gh_rm_get_vm_id_info (call ''qcom,oemvm'') (\<lambda>i. True) 5 (vm_table_fresh, ()) \<noteq> Fault"
proof -
  have "(6, ''autoghgvmlv'', ''qcom,autoghgvmlv'') \<in> set vm_name_map" "(4, ''oem_vm'', ''qcom,oemvm'') \<in> set vm_name_map"
    by (simp_all add: vm_name_map_def)
  note n = this [THEN gh_rm_get_vm_id_info_names [rotated 2]]
  show ?thesis unfolding Let_def
    by (subst n(1) [of _ 5 "()" 0 "()"], simp_all, subst n(2) [of _ 5 "()" 0 "()"], simp_all,
        simp add: gh_update_vm_prop_table_def vm_table_fresh_eq vm_prop_none_def vm_prop_zero_def)
qed

section \<open>Commands\<close>

text \<open>
  What a caller of \<^verbatim>\<open>gh_rm_call\<close> can rely on: a reply error comes with an error pointer, and a
  failure before any reply sets no reply error.
\<close>

definition rm_result_ok :: "rm_call_result \<Rightarrow> bool" where
  "rm_result_ok r \<longleftrightarrow> (case r of
      (err, Inl e) \<Rightarrow> e < 0 \<and> (err = None \<or> err \<noteq> Some 0)
    | (err, Inr p) \<Rightarrow> err = Some 0)"

text \<open>The commands report failures differently. A command of the common form succeeds exactly when
  the Resource Manager accepted it with an empty reply and returns a negative error number
  otherwise; \<^verbatim>\<open>gh_rm_vm_stop\<close> and \<^verbatim>\<open>gh_rm_vm_reset\<close> return the raw reply code, or, when the
  request never got a reply, whatever an uninitialised variable held; and \<^verbatim>\<open>gh_rm_vm_start\<close>
  reports success for such a request whenever its uninitialised size is zero.\<close>

theorem rm_command_reporting:
  assumes "\<forall>mid req s. rm_result_ok (fst (call mid req s))" and "reason < 4"
  shows "(fst (gh_rm_vm_init call vmid s) = 0 \<longleftrightarrow>
            (\<exists>p. fst (call 0x5600000B (le16 vmid @ [0, 0]) s) = (Some 0, Inr (p, 0)))) \<and>
         fst (gh_rm_vm_init call vmid s) \<le> 0 \<and>
         (fst (call 0x56000005 (le16 vmid @ [flags, 0] @ le32 reason) s) = (None, Inl e) \<longrightarrow>
            fst (gh_rm_vm_stop junk call vmid reason flags s) = sint junk) \<and>
         (fst (call 0x56000006 (le16 vmid @ [0, 0]) s) = (None, Inl e) \<longrightarrow>
            fst (gh_rm_vm_reset junk call vmid s) = sint junk) \<and>
         (fst (call 0x56000004 (le16 vmid @ [0, 0]) s) = (None, Inl e) \<longrightarrow>
            (fst (gh_rm_vm_start junk_n call vmid s) = 0 \<longleftrightarrow> junk_n = 0))"
proof -
  have *: "fst (rm_command call mid req s) \<le> 0 \<and>
      (fst (rm_command call mid req s) = 0 \<longleftrightarrow> (\<exists>p. fst (call mid req s) = (Some 0, Inr (p, 0))))" for mid req
    using assms(1) [rule_format, of mid req s]
    by (auto simp: rm_command_def rm_result_ok_def split: prod.splits sum.splits)
  have "\<not> 4 \<le> reason" using assms(2) by simp
  then show ?thesis
    using * [of "0x5600000B"]
    by (auto simp: gh_rm_vm_init_def gh_rm_vm_stop_def gh_rm_vm_reset_def gh_rm_vm_start_def
        rm_command_raw_def Let_def split: prod.splits)
qed

theorem rm_command_reporting_witness:
  "let call = (\<lambda>mid req s. ((None, Inl (- ENOMEM)), s)) :: unit rm_caller
   in fst (gh_rm_vm_init call 3 ()) < 0 \<and> fst (gh_rm_vm_stop 0 call 3 1 0 ()) = 0 \<and> fst (gh_rm_vm_start 0 call 3 ()) = 0"
proof -
  let ?call = "(\<lambda>mid req s. ((None, Inl (- ENOMEM)), s)) :: unit rm_caller"
  note c = rm_command_reporting [of ?call 1 3 "()" 0 "- ENOMEM" 0 0]
  have "fst (gh_rm_vm_init ?call 3 ()) \<noteq> 0" using c by (simp add: rm_result_ok_def)
  with c show ?thesis by (simp add: rm_result_ok_def)
qed

end
