(* ===== verification/Rm_Resources.thy ===== *)
theory Rm_Resources
  imports Rm_Vm Irq_Map Msgq_IO Doorbell_IO
begin

text \<open>
  Hypervisor resources of a VM (\<^verbatim>\<open>drivers/virt/gunyah/gh_rm_core.c\<close>): the driver asks the Resource
  Manager which message queues, doorbells, vCPUs, VPM groups, virtio devices and watchdogs a VM
  has, maps their interrupts and hands each to its driver, and gives them back when the VM
  goes. The message queue, doorbell and interrupt models are the ones of \<open>Msgq\<close>, \<open>Doorbell\<close> and
  \<open>Irq_Map\<close>; the seven callbacks are function pointers over a state \<open>'x\<close> of their own. A \<^verbatim>\<open>do\<close> loop
  that repeats on \<^verbatim>\<open>-EAGAIN\<close> has a bound: \<^term>\<open>Blocked\<close> is the outcome of a loop still spinning
  after that many attempts.
\<close>

section \<open>State\<close>

abbreviation (input) GH_RM_RES_TYPE_DB_TX :: u8 where "GH_RM_RES_TYPE_DB_TX \<equiv> 0"
abbreviation (input) GH_RM_RES_TYPE_DB_RX :: u8 where "GH_RM_RES_TYPE_DB_RX \<equiv> 1"
abbreviation (input) GH_RM_RES_TYPE_MQ_TX :: u8 where "GH_RM_RES_TYPE_MQ_TX \<equiv> 2"
abbreviation (input) GH_RM_RES_TYPE_MQ_RX :: u8 where "GH_RM_RES_TYPE_MQ_RX \<equiv> 3"
abbreviation (input) GH_RM_RES_TYPE_VCPU :: u8 where "GH_RM_RES_TYPE_VCPU \<equiv> 4"
abbreviation (input) GH_RM_RES_TYPE_VPMGRP :: u8 where "GH_RM_RES_TYPE_VPMGRP \<equiv> 5"
abbreviation (input) GH_RM_RES_TYPE_VIRTIO_MMIO :: u8 where "GH_RM_RES_TYPE_VIRTIO_MMIO \<equiv> 6"
abbreviation (input) GH_RM_RES_TYPE_WATCHDOG :: u8 where "GH_RM_RES_TYPE_WATCHDOG \<equiv> 8"

text \<open>A callback that stores an IRQ number through a pointer returns it as an option.\<close>

record ('c, 'h, 'g, 'x) res_state =
  rs_rm :: 'c
  rs_tbl :: vm_table
  rs_msgq :: "'h msgq_state"
  rs_dbl :: "'g dbl_state"
  rs_irq :: irq_state
  rs_ext :: 'x
  gh_rm_core_initialized :: bool
  gh_rm_base_virq :: int
  gh_rm_msgq_desc :: conn_ptr
  rs_recv_task :: bool
  rs_status_nb :: bool
  rs_svm_work :: bool
  gh_virtio_mmio_fn ::
    "(gh_vmid_t \<Rightarrow> u8 list option \<Rightarrow> gh_label_t \<Rightarrow> gh_capid_t \<Rightarrow> int \<Rightarrow> u64 \<Rightarrow> u64 \<Rightarrow> 'x \<Rightarrow> int \<times> 'x) option"
  gh_wdog_manage_fn :: "(gh_vmid_t \<Rightarrow> gh_capid_t \<Rightarrow> bool \<Rightarrow> 'x \<Rightarrow> int \<times> 'x) option"
  gh_vcpu_affinity_set_fn :: "(gh_vmid_t \<Rightarrow> gh_label_t \<Rightarrow> gh_capid_t \<Rightarrow> int \<Rightarrow> 'x \<Rightarrow> int \<times> 'x) option"
  gh_vcpu_affinity_reset_fn ::
    "(gh_vmid_t \<Rightarrow> gh_label_t \<Rightarrow> gh_capid_t \<Rightarrow> 'x \<Rightarrow> (int \<times> int option, 'x) outcome) option"
  gh_vpm_grp_set_fn :: "(gh_vmid_t \<Rightarrow> gh_capid_t \<Rightarrow> int \<Rightarrow> 'x \<Rightarrow> int \<times> 'x) option"
  gh_vpm_grp_reset_fn :: "(gh_vmid_t \<Rightarrow> 'x \<Rightarrow> (int \<times> int option) \<times> 'x) option"
  gh_all_res_populated_fn :: "(gh_vmid_t \<Rightarrow> bool \<Rightarrow> 'x \<Rightarrow> 'x) option"

text \<open>What the kernel decides: Resource Manager calls, allocations, \<^verbatim>\<open>request_irq\<close>, interrupt
  mappings, the bound on repeated attempts and what other contexts do between two of them.\<close>

record ('c, 's) res_env =
  re_call :: "'c rm_caller"
  re_kz :: "nat \<Rightarrow> bool"
  re_mq_kz :: "nat \<Rightarrow> bool"
  re_rq :: "int \<Rightarrow> int"
  re_cm :: "u32 \<Rightarrow> int"
  re_spin :: nat
  re_step :: "'s \<Rightarrow> 's"

type_synonym ('c, 'h, 'g, 'x) rs_env = "('c, ('c, 'h, 'g, 'x) res_state) res_env"

section \<open>Interrupts of a resource\<close>

definition gh_rm_virq_to_irq :: "('c, 's) res_env \<Rightarrow> u32 \<Rightarrow> irq_state \<Rightarrow> int \<times> irq_state" where
  "gh_rm_virq_to_irq env virq i = gh_get_irq (re_cm env) virq i"

text \<open>\<^verbatim>\<open>virq == U32_MAX\<close> compares a signed with an unsigned integer: it is true for -1.\<close>

definition gh_rm_get_irq ::
  "('c, 'h, 'g, 'x) rs_env \<Rightarrow> gh_vm_get_hyp_res_resp_entry \<Rightarrow> ('c, 'h, 'g, 'x) res_state \<Rightarrow>
   int \<times> ('c, 'h, 'g, 'x) res_state" where
  "gh_rm_get_irq env e s =
     (let virq = hr_virq e in
      if (hr_virq_handle e = 0 \<and> virq = 0) \<or> virq = U32_MAX then (0, s)
      else if sint virq = - 1 then
        (case gh_get_virq (gh_rm_base_virq s) (rs_irq s) of
           (v, i) \<Rightarrow>
             let s = s\<lparr>rs_irq := i\<rparr> in
             if v < 0 then (v, s)
             else case gh_rm_vm_irq_accept (re_call env) (hr_virq_handle e) v (rs_rm s) of
               (r, c) \<Rightarrow>
                 let s = s\<lparr>rs_rm := c\<rparr> in
                 if r < 0 then (r, s\<lparr>rs_irq := snd (gh_put_virq v (rs_irq s))\<rparr>)
                 else (case gh_rm_virq_to_irq env (word_of_int v) (rs_irq s) of (irq, i) \<Rightarrow> (irq, s\<lparr>rs_irq := i\<rparr>)))
      else (case gh_rm_virq_to_irq env virq (rs_irq s) of (irq, i) \<Rightarrow> (irq, s\<lparr>rs_irq := i\<rparr>)))"

definition gh_rm_put_irq ::
  "('c, 'h, 'g, 'x) rs_env \<Rightarrow> gh_vm_get_hyp_res_resp_entry \<Rightarrow> int \<Rightarrow> ('c, 'h, 'g, 'x) res_state \<Rightarrow> ('c, 'h, 'g, 'x) res_state" where
  "gh_rm_put_irq env e irq s =
     (case gh_put_irq irq (rs_irq s) of
        (r, i) \<Rightarrow>
          let s = s\<lparr>rs_irq := i\<rparr> in
          if r = 0 then s\<lparr>rs_rm := snd (gh_rm_vm_irq_release (re_call env) (hr_virq_handle e) (rs_rm s))\<rparr> else s)"

section \<open>Populating\<close>

definition res_cap_id :: "gh_vm_get_hyp_res_resp_entry \<Rightarrow> gh_capid_t" where
  "res_cap_id e = push_bit 32 (ucast (hr_cap_id_high e)) OR ucast (hr_cap_id_low e)"

definition res_base :: "gh_vm_get_hyp_res_resp_entry \<Rightarrow> u64" where
  "res_base e = push_bit 32 (ucast (hr_base_high e)) OR ucast (hr_base_low e)"

definition res_size :: "gh_vm_get_hyp_res_resp_entry \<Rightarrow> u64" where
  "res_size e = push_bit 32 (ucast (hr_size_high e)) OR ucast (hr_size_low e)"

fun retry_eagain ::
  "nat \<Rightarrow> ('s \<Rightarrow> 's) \<Rightarrow> (int \<Rightarrow> 's \<Rightarrow> (int, 's) outcome) \<Rightarrow> int \<Rightarrow> 's \<Rightarrow> (int, 's) outcome" where
  "retry_eagain n step f ret s =
     obind (f ret s) (\<lambda>r s.
       if r = - EAGAIN then (case n of 0 \<Rightarrow> Blocked s | Suc m \<Rightarrow> retry_eagain m step f r (step s))
       else Done r s)"

declare retry_eagain.simps [simp del]

definition vcpu_affinity_set ::
  "gh_vmid_t \<Rightarrow> gh_vm_get_hyp_res_resp_entry \<Rightarrow> int \<Rightarrow> int \<Rightarrow> ('c, 'h, 'g, 'x) res_state \<Rightarrow>
   (int, ('c, 'h, 'g, 'x) res_state) outcome" where
  "vcpu_affinity_set vmid e linux_irq ret s =
     (case gh_vcpu_affinity_set_fn s of
        None \<Rightarrow> Fault
      | Some f \<Rightarrow> (case f vmid (hr_resource_label e) (res_cap_id e) linux_irq (rs_ext s) of
                    (r, x) \<Rightarrow> Done r (s\<lparr>rs_ext := x\<rparr>)))"

fun populate_vcpus ::
  "('c, 'h, 'g, 'x) rs_env \<Rightarrow> gh_vmid_t \<Rightarrow> gh_vm_get_hyp_res_resp_entry list \<Rightarrow> int \<Rightarrow> ('c, 'h, 'g, 'x) res_state \<Rightarrow>
   (int, ('c, 'h, 'g, 'x) res_state) outcome" where
  "populate_vcpus env vmid [] ret s = Done ret s"
| "populate_vcpus env vmid (e # es) ret s =
     (if hr_res_type e \<noteq> GH_RM_RES_TYPE_VCPU then populate_vcpus env vmid es ret s
      else case gh_rm_get_irq env e s of
        (linux_irq, s) \<Rightarrow>
          if linux_irq < 0 then Done linux_irq s
          else obind (case gh_vcpu_affinity_set_fn s of
                        None \<Rightarrow> Done linux_irq s
                      | Some f \<Rightarrow> retry_eagain (re_spin env) (re_step env) (vcpu_affinity_set vmid e linux_irq) linux_irq s)
                 (\<lambda>r s. if r < 0 then Done r s else populate_vcpus env vmid es r s))"

text \<open>One pass through the \<^verbatim>\<open>switch\<close>; \<open>ret\<close> is the value of the variable on entry, which a resource
  without a handler leaves as it is.\<close>

definition populate_switch ::
  "('c, 'h, 'g, 'x) rs_env \<Rightarrow> gh_vmid_t \<Rightarrow> u8 list option \<Rightarrow> gh_vm_get_hyp_res_resp_entry \<Rightarrow> int \<Rightarrow> int \<Rightarrow>
   ('c, 'h, 'g, 'x) res_state \<Rightarrow> (int, ('c, 'h, 'g, 'x) res_state) outcome" where
  "populate_switch env vmid vm_name e linux_irq ret s =
     (let ty = hr_res_type e; label = hr_resource_label e; cap_id = res_cap_id e in
      if ty = GH_RM_RES_TYPE_MQ_TX \<or> ty = GH_RM_RES_TYPE_MQ_RX then
        map_outcome id (\<lambda>m. s\<lparr>rs_msgq := m\<rparr>)
          (gh_msgq_populate_cap_info (re_mq_kz env) (re_rq env) (sint label) cap_id
             (if ty = GH_RM_RES_TYPE_MQ_TX then GH_MSGQ_DIRECTION_TX else GH_MSGQ_DIRECTION_RX) linux_irq (rs_msgq s))
      else if ty = GH_RM_RES_TYPE_VCPU then Done ret s
      else if ty = GH_RM_RES_TYPE_DB_TX \<or> ty = GH_RM_RES_TYPE_DB_RX then
        (case gh_dbl_populate_cap_info (re_rq env) (sint label) cap_id
                (if ty = GH_RM_RES_TYPE_DB_TX then GH_MSGQ_DIRECTION_TX else GH_MSGQ_DIRECTION_RX) linux_irq (rs_dbl s) of
           (r, d) \<Rightarrow> Done r (s\<lparr>rs_dbl := d\<rparr>))
      else if ty = GH_RM_RES_TYPE_VPMGRP then
        (case gh_vpm_grp_set_fn s of
           None \<Rightarrow> Done ret s
         | Some f \<Rightarrow> (case f vmid cap_id linux_irq (rs_ext s) of (r, x) \<Rightarrow> Done r (s\<lparr>rs_ext := x\<rparr>)))
      else if ty = GH_RM_RES_TYPE_VIRTIO_MMIO then
        (case gh_virtio_mmio_fn s of
           None \<Rightarrow> Done ret s
         | Some f \<Rightarrow> (case f vmid vm_name label cap_id linux_irq (res_base e) (res_size e) (rs_ext s) of
                       (r, x) \<Rightarrow> Done r (s\<lparr>rs_ext := x\<rparr>)))
      else if ty = GH_RM_RES_TYPE_WATCHDOG then
        (case gh_wdog_manage_fn s of
           None \<Rightarrow> Done ret s
         | Some f \<Rightarrow> (case f vmid cap_id True (rs_ext s) of (r, x) \<Rightarrow> Done r (s\<lparr>rs_ext := x\<rparr>)))
      else Done (- EINVAL) s)"

fun populate_entries ::
  "('c, 'h, 'g, 'x) rs_env \<Rightarrow> gh_vmid_t \<Rightarrow> u8 list option \<Rightarrow> gh_vm_get_hyp_res_resp_entry list \<Rightarrow> int \<Rightarrow>
   ('c, 'h, 'g, 'x) res_state \<Rightarrow> (int, ('c, 'h, 'g, 'x) res_state) outcome" where
  "populate_entries env vmid vm_name [] ret s = Done ret s"
| "populate_entries env vmid vm_name (e # es) ret s =
     (case gh_rm_get_irq env e s of
        (linux_irq, s) \<Rightarrow>
          if linux_irq < 0 then Done linux_irq s
          else obind (retry_eagain (re_spin env) (re_step env) (populate_switch env vmid vm_name e linux_irq) linux_irq s)
                 (\<lambda>r s. if r < 0 then Done r s else populate_entries env vmid vm_name es r s))"

definition all_res_populated :: "gh_vmid_t \<Rightarrow> bool \<Rightarrow> ('c, 'h, 'g, 'x) res_state \<Rightarrow> ('c, 'h, 'g, 'x) res_state" where
  "all_res_populated vmid b s =
     (case gh_all_res_populated_fn s of None \<Rightarrow> s | Some f \<Rightarrow> s\<lparr>rs_ext := f vmid b (rs_ext s)\<rparr>)"

definition gh_rm_populate_hyp_res ::
  "('c, 'h, 'g, 'x) rs_env \<Rightarrow> gh_vmid_t \<Rightarrow> u8 list option \<Rightarrow> ('c, 'h, 'g, 'x) res_state \<Rightarrow>
   (int, ('c, 'h, 'g, 'x) res_state) outcome" where
  "gh_rm_populate_hyp_res env vmid vm_name s =
     (case gh_rm_vm_get_hyp_res (re_call env) (re_kz env 0) vmid True (rs_rm s) of
        (Inl err, c) \<Rightarrow> Done err (s\<lparr>rs_rm := c\<rparr>)
      | (Inr es, c) \<Rightarrow>
          obind (populate_vcpus env vmid es 0 (s\<lparr>rs_rm := c\<rparr>)) (\<lambda>r s.
            if r < 0 then Done r s
            else obind (populate_entries env vmid vm_name es r s) (\<lambda>r s.
              if r < 0 then Done r s else Done r (all_res_populated vmid True s))))"

section \<open>Giving resources back\<close>

text \<open>The result carries the new value of the local variable \<^verbatim>\<open>irq\<close>, when it is stored to.\<close>

definition unpopulate_switch ::
  "gh_vmid_t \<Rightarrow> gh_vm_get_hyp_res_resp_entry \<Rightarrow> int \<Rightarrow> ('c, 'h, 'g, 'x) res_state \<Rightarrow>
   (int \<times> int option, ('c, 'h, 'g, 'x) res_state) outcome" where
  "unpopulate_switch vmid e ret s =
     (let ty = hr_res_type e; label = hr_resource_label e; cap_id = res_cap_id e in
      if ty = GH_RM_RES_TYPE_MQ_TX \<or> ty = GH_RM_RES_TYPE_MQ_RX then
        map_outcome id (\<lambda>m. s\<lparr>rs_msgq := m\<rparr>)
          (gh_msgq_reset_cap_info (sint label)
             (if ty = GH_RM_RES_TYPE_MQ_TX then GH_MSGQ_DIRECTION_TX else GH_MSGQ_DIRECTION_RX) True (rs_msgq s))
      else if ty = GH_RM_RES_TYPE_DB_TX \<or> ty = GH_RM_RES_TYPE_DB_RX then
        (case gh_dbl_reset_cap_info (sint label) (uint ty) True (rs_dbl s) of
           (r, d) \<Rightarrow> Done r (s\<lparr>rs_dbl := d\<rparr>))
      else if ty = GH_RM_RES_TYPE_VCPU then
        (case gh_vcpu_affinity_reset_fn s of
           None \<Rightarrow> Done (ret, None) s
         | Some f \<Rightarrow> map_outcome id (\<lambda>x. s\<lparr>rs_ext := x\<rparr>) (f vmid label cap_id (rs_ext s)))
      else if ty = GH_RM_RES_TYPE_VIRTIO_MMIO then Done (ret, None) s
      else if ty = GH_RM_RES_TYPE_VPMGRP then
        (case gh_vpm_grp_reset_fn s of
           None \<Rightarrow> Done (ret, None) s
         | Some f \<Rightarrow> (case f vmid (rs_ext s) of (r, x) \<Rightarrow> Done r (s\<lparr>rs_ext := x\<rparr>)))
      else if ty = GH_RM_RES_TYPE_WATCHDOG then
        (case gh_wdog_manage_fn s of
           None \<Rightarrow> Done (ret, None) s
         | Some f \<Rightarrow> (case f vmid cap_id False (rs_ext s) of (r, x) \<Rightarrow> Done (r, None) (s\<lparr>rs_ext := x\<rparr>)))
      else Done (- EINVAL, None) s)"

fun unpopulate_entries ::
  "('c, 'h, 'g, 'x) rs_env \<Rightarrow> gh_vmid_t \<Rightarrow> gh_vm_get_hyp_res_resp_entry list \<Rightarrow> int \<Rightarrow> int \<Rightarrow>
   ('c, 'h, 'g, 'x) res_state \<Rightarrow> (int, ('c, 'h, 'g, 'x) res_state) outcome" where
  "unpopulate_entries env vmid [] ret irq s = Done ret s"
| "unpopulate_entries env vmid (e # es) ret irq s =
     obind (unpopulate_switch vmid e ret s) (\<lambda>(r, stored) s.
       let irq = (case stored of None \<Rightarrow> irq | Some i \<Rightarrow> i) in
       if r < 0 then Done r s
       else unpopulate_entries env vmid es r irq (if 0 \<le> irq then gh_rm_put_irq env e irq s else s))"

definition gh_rm_unpopulate_hyp_res ::
  "('c, 'h, 'g, 'x) rs_env \<Rightarrow> gh_vmid_t \<Rightarrow> ('c, 'h, 'g, 'x) res_state \<Rightarrow> (int, ('c, 'h, 'g, 'x) res_state) outcome" where
  "gh_rm_unpopulate_hyp_res env vmid s =
     (case gh_rm_vm_get_hyp_res (re_call env) (re_kz env 0) vmid True (rs_rm s) of
        (Inl err, c) \<Rightarrow> Done err (s\<lparr>rs_rm := c\<rparr>)
      | (Inr es, c) \<Rightarrow>
          obind (unpopulate_entries env vmid es 0 (- 1) (s\<lparr>rs_rm := c\<rparr>)) (\<lambda>r s.
            if r < 0 then Done r s else Done r (all_res_populated vmid False s)))"

section \<open>Callback registration\<close>

definition gh_rm_set_virtio_mmio_cb where
  "gh_rm_set_virtio_mmio_cb fnptr s =
     (case fnptr of None \<Rightarrow> (- EINVAL, s)
      | Some f \<Rightarrow> (case gh_virtio_mmio_fn s of Some g \<Rightarrow> (- EBUSY, s) | None \<Rightarrow> (0 :: int, s\<lparr>gh_virtio_mmio_fn := Some f\<rparr>)))"

definition gh_rm_unset_virtio_mmio_cb :: "('c, 'h, 'g, 'x) res_state \<Rightarrow> ('c, 'h, 'g, 'x) res_state" where
  "gh_rm_unset_virtio_mmio_cb s = s\<lparr>gh_virtio_mmio_fn := None\<rparr>"

definition gh_rm_set_wdog_manage_cb where
  "gh_rm_set_wdog_manage_cb fnptr s =
     (case fnptr of None \<Rightarrow> (- EINVAL, s)
      | Some f \<Rightarrow> (case gh_wdog_manage_fn s of Some g \<Rightarrow> (- EBUSY, s) | None \<Rightarrow> (0 :: int, s\<lparr>gh_wdog_manage_fn := Some f\<rparr>)))"

definition gh_rm_set_vcpu_affinity_cb where
  "gh_rm_set_vcpu_affinity_cb fnptr s =
     (case fnptr of None \<Rightarrow> (- EINVAL, s)
      | Some f \<Rightarrow> (case gh_vcpu_affinity_set_fn s of Some g \<Rightarrow> (- EBUSY, s)
                  | None \<Rightarrow> (0 :: int, s\<lparr>gh_vcpu_affinity_set_fn := Some f\<rparr>)))"

definition gh_rm_reset_vcpu_affinity_cb where
  "gh_rm_reset_vcpu_affinity_cb fnptr s =
     (case fnptr of None \<Rightarrow> (- EINVAL, s)
      | Some f \<Rightarrow> (case gh_vcpu_affinity_reset_fn s of Some g \<Rightarrow> (- EBUSY, s)
                  | None \<Rightarrow> (0 :: int, s\<lparr>gh_vcpu_affinity_reset_fn := Some f\<rparr>)))"

definition gh_rm_set_vpm_grp_cb where
  "gh_rm_set_vpm_grp_cb fnptr s =
     (case fnptr of None \<Rightarrow> (- EINVAL, s)
      | Some f \<Rightarrow> (case gh_vpm_grp_set_fn s of Some g \<Rightarrow> (- EBUSY, s) | None \<Rightarrow> (0 :: int, s\<lparr>gh_vpm_grp_set_fn := Some f\<rparr>)))"

definition gh_rm_reset_vpm_grp_cb where
  "gh_rm_reset_vpm_grp_cb fnptr s =
     (case fnptr of None \<Rightarrow> (- EINVAL, s)
      | Some f \<Rightarrow> (case gh_vpm_grp_reset_fn s of Some g \<Rightarrow> (- EBUSY, s) | None \<Rightarrow> (0 :: int, s\<lparr>gh_vpm_grp_reset_fn := Some f\<rparr>)))"

definition gh_rm_all_res_populated_cb where
  "gh_rm_all_res_populated_cb fnptr s =
     (case fnptr of None \<Rightarrow> (- EINVAL, s)
      | Some f \<Rightarrow> (case gh_all_res_populated_fn s of Some g \<Rightarrow> (- EBUSY, s)
                  | None \<Rightarrow> (0 :: int, s\<lparr>gh_all_res_populated_fn := Some f\<rparr>)))"

section \<open>Notifications and probing\<close>

definition gh_rm_get_svm_res_work_fn ::
  "('c, 'h, 'g, 'x) rs_env \<Rightarrow> ('c, 'h, 'g, 'x) res_state \<Rightarrow> (unit, ('c, 'h, 'g, 'x) res_state) outcome" where
  "gh_rm_get_svm_res_work_fn env s =
     (case gh_rm_get_vmid (gh_rm_core_initialized s) GH_PRIMARY_VM (rs_tbl s) of
        Done (ret, vmid) _ \<Rightarrow>
          (if ret \<noteq> 0 then Done () s
           else obind (gh_rm_populate_hyp_res env (the vmid) None s) (\<lambda>_ s. Done () s))
      | _ \<Rightarrow> Fault)"

text \<open>What a newly found VM goes through: identification, its name, its resources.\<close>

definition adopt_vm ::
  "('c, 'h, 'g, 'x) rs_env \<Rightarrow> gh_vmid_t \<Rightarrow> ('c, 'h, 'g, 'x) res_state \<Rightarrow> (unit, ('c, 'h, 'g, 'x) res_state) outcome" where
  "adopt_vm env vmid s =
     (case gh_rm_get_vm_id_info (re_call env) (re_kz env) vmid (rs_tbl s, rs_rm s) of
        Done ret (t, c) \<Rightarrow>
          let s = s\<lparr>rs_tbl := t, rs_rm := c\<rparr> in
          if ret < 0 then Done () s
          else (case gh_rm_get_vm_name vmid t of
                  (ret, None) \<Rightarrow> Done () s
                | (ret, Some vm_name) \<Rightarrow>
                    (case gh_rm_get_vminfo vm_name True t of
                       Done (r, info) _ \<Rightarrow>
                         obind (gh_rm_populate_hyp_res env vmid (Option.bind info vi_name) s) (\<lambda>_ s. Done () s)
                     | _ \<Rightarrow> Fault))
      | _ \<Rightarrow> Fault)"

definition gh_vm_status_nb_handler ::
  "('c, 'h, 'g, 'x) rs_env \<Rightarrow> u32 \<Rightarrow> gh_vmid_t \<Rightarrow> u8 \<Rightarrow> ('c, 'h, 'g, 'x) res_state \<Rightarrow>
   (unit, ('c, 'h, 'g, 'x) res_state) outcome" where
  "gh_vm_status_nb_handler env cmd vmid vm_status s =
     (if cmd \<noteq> GH_RM_NOTIF_VM_STATUS then Done () s
      else if vm_status = 2 then adopt_vm env vmid s
      else Done () s)"

text \<open>
  The peers named in the device tree. \<open>up\<close> is \<^verbatim>\<open>uuid_parse\<close>; \<open>vmid\<close> is the local variable that
  keeps its value from the previous peer when a lookup succeeds without storing one.
\<close>

definition peer_lookup ::
  "('c, 'h, 'g, 'x) rs_env \<Rightarrow> (string \<Rightarrow> int \<times> u8 list) \<Rightarrow> string \<Rightarrow> 'c \<Rightarrow> (int \<times> gh_vmid_t option, 'c) outcome option" where
  "peer_lookup env up peer c =
     (let look = (\<lambda>ty d. gh_rm_vm_lookup (re_call env) (re_kz env 1) ty (Some (map of_char d)) (length d) True c) in
      if take 8 peer = ''vm-name:'' then Some (look GH_VM_LOOKUP_NAME (drop 8 peer))
      else if take 7 peer = ''vm-uri:'' then Some (look GH_VM_LOOKUP_URI (drop 7 peer))
      else if take 8 peer = ''vm-guid:'' then
        (case up (drop 8 peer) of
           (ret, guid) \<Rightarrow>
             if ret \<noteq> 0 then Some (Done (ret, None) c)
             else Some (gh_rm_vm_lookup (re_call env) (re_kz env 1) GH_VM_LOOKUP_GUID (Some guid) 16 True c))
      else None)"

fun check_peers ::
  "('c, 'h, 'g, 'x) rs_env \<Rightarrow> (string \<Rightarrow> int \<times> u8 list) \<Rightarrow> gh_vmid_t \<Rightarrow> string option list \<Rightarrow> ('c, 'h, 'g, 'x) res_state \<Rightarrow>
   (unit, ('c, 'h, 'g, 'x) res_state) outcome" where
  "check_peers env up vmid [] s = Done () s"
| "check_peers env up vmid (None # ps) s = check_peers env up vmid ps s"
| "check_peers env up vmid (Some peer # ps) s =
     (case peer_lookup env up peer (rs_rm s) of
        None \<Rightarrow> check_peers env up vmid ps s
      | Some (Done (ret, v) c) \<Rightarrow>
          let s = s\<lparr>rs_rm := c\<rparr>; vmid = (case v of None \<Rightarrow> vmid | Some v \<Rightarrow> v) in
          if ret < 0 then check_peers env up vmid ps s
          else obind (adopt_vm env vmid s) (\<lambda>_ s. check_peers env up vmid ps s)
      | Some _ \<Rightarrow> Fault)"

text \<open>\<open>peers\<close> is \<open>None\<close> when the property cannot be read or the array cannot be allocated.\<close>

definition gh_vm_check_peer ::
  "('c, 'h, 'g, 'x) rs_env \<Rightarrow> (string \<Rightarrow> int \<times> u8 list) \<Rightarrow> gh_vmid_t \<Rightarrow> string option list option \<Rightarrow> ('c, 'h, 'g, 'x) res_state \<Rightarrow>
   (unit, ('c, 'h, 'g, 'x) res_state) outcome" where
  "gh_vm_check_peer env up junk peers s =
     (case peers of None \<Rightarrow> Done () s | Some ps \<Rightarrow> check_peers env up junk ps s)"

text \<open>The device tree node of this VM; integer properties come with the result of reading them.\<close>

record vm_id_node =
  vn_found :: bool
  vn_vmid :: "int \<times> u32"
  vn_owner_vmid :: "int \<times> u32"
  vn_image_name :: "string option"
  vn_peers :: "string option list option"

definition update_tbl ::
  "nat \<Rightarrow> gh_vmid_t \<Rightarrow> ('c, 'h, 'g, 'x) res_state \<Rightarrow> ('c, 'h, 'g, 'x) res_state" where
  "update_tbl n vmid s =
     s\<lparr>rs_tbl := outcome_state (rs_tbl s) (gh_update_vm_prop_table n (Some (vm_prop_zero\<lparr>vp_vmid := vmid\<rparr>)) (rs_tbl s))\<rparr>"

definition gh_vm_probe ::
  "('c, 'h, 'g, 'x) rs_env \<Rightarrow> (string \<Rightarrow> int \<times> u8 list) \<Rightarrow> gh_vmid_t \<Rightarrow> vm_id_node \<Rightarrow> ('c, 'h, 'g, 'x) res_state \<Rightarrow>
   (int, ('c, 'h, 'g, 'x) res_state) outcome" where
  "gh_vm_probe env up junk node s =
     (let s = s\<lparr>rs_tbl := gh_init_vm_prop_table (rs_tbl s)\<rparr>; vmid = ucast (snd (vn_vmid node)) in
      if \<not> vn_found node then Done (- ENODEV) s
      else if fst (vn_vmid node) \<noteq> 0 then Done (fst (vn_vmid node)) s
      else if fst (vn_owner_vmid node) \<noteq> 0 then
        Done 0 ((update_tbl GH_PRIMARY_VM vmid s)\<lparr>gh_rm_core_initialized := True\<rparr>)
      else
        let n = (case vn_image_name node of
                   None \<Rightarrow> GH_TRUSTED_VM
                 | Some nm \<Rightarrow> if gh_get_vm_name nm = GH_VM_MAX then GH_TRUSTED_VM else gh_get_vm_name nm);
            s = update_tbl GH_PRIMARY_VM (ucast (snd (vn_owner_vmid node))) (update_tbl n vmid s)
        in obind (gh_vm_check_peer env up junk (vn_peers node) s) (\<lambda>_ s.
             Done 0 (s\<lparr>rs_status_nb := True, gh_rm_core_initialized := True, rs_svm_work := True\<rparr>)))"

text \<open>The device tree and kernel services the driver's probe function uses.\<close>

record rm_probe_env =
  pe_gi :: "nat \<Rightarrow> int"
  pe_rd :: "nat \<Rightarrow> int \<times> u64"
  pe_duplex :: bool
  pe_sender :: bool
  pe_receiver :: bool
  pe_base_virq :: "u32 option"
  pe_intc :: bool
  pe_domain :: bool
  pe_kthread :: int

abbreviation (input) GH_MSGQ_LABEL_RM :: int where "GH_MSGQ_LABEL_RM \<equiv> 0"

definition rm_unregister_queue :: "int \<Rightarrow> ptr \<Rightarrow> ('c, 'h, 'g, 'x) res_state \<Rightarrow> (int, ('c, 'h, 'g, 'x) res_state) outcome" where
  "rm_unregister_queue ret d s =
     map_outcome (\<lambda>_. ret) (\<lambda>m. s\<lparr>rs_msgq := m\<rparr>) (gh_msgq_unregister (Some d) (rs_msgq s))"

definition gh_rm_drv_probe ::
  "('c, 'h, 'g, 'x) rs_env \<Rightarrow> rm_probe_env \<Rightarrow> (string \<Rightarrow> int \<times> u8 list) \<Rightarrow> gh_vmid_t \<Rightarrow> vm_id_node \<Rightarrow>
   ('c, 'h, 'g, 'x) res_state \<Rightarrow> (int, ('c, 'h, 'g, 'x) res_state) outcome" where
  "gh_rm_drv_probe env pe up junk node s =
     obind (map_outcome id (\<lambda>m. s\<lparr>rs_msgq := m\<rparr>)
              (gh_msgq_probe (re_mq_kz env) (re_rq env) (pe_gi pe) (pe_rd pe) (pe_duplex pe) (pe_sender pe)
                 (pe_receiver pe) GH_MSGQ_LABEL_RM (rs_msgq s))) (\<lambda>ret s.
       if ret \<noteq> 0 then Done ret s
       else case pe_base_virq pe of
         None \<Rightarrow> Done (- ENXIO) s
       | Some base \<Rightarrow>
           let s = s\<lparr>gh_rm_base_virq := uint base\<rparr> in
           if \<not> pe_intc pe then Done (- ENXIO) s
           else if \<not> pe_domain pe then Done (- ENXIO) s
           else obind (map_outcome id (\<lambda>m. s\<lparr>rs_msgq := m\<rparr>) (gh_msgq_register (re_mq_kz env) GH_MSGQ_LABEL_RM (rs_msgq s)))
             (\<lambda>r s. case r of
                Inl e \<Rightarrow> Done e (s\<lparr>gh_rm_msgq_desc := ErrPtr e\<rparr>)
              | Inr d \<Rightarrow>
                  let s = s\<lparr>gh_rm_msgq_desc := Conn d\<rparr> in
                  if pe_kthread pe < 0 then rm_unregister_queue (pe_kthread pe) d s
                  else obind (gh_vm_probe env up junk node (s\<lparr>rs_recv_task := True\<rparr>)) (\<lambda>ret s.
                         if ret < 0 \<and> ret \<noteq> - ENODEV then rm_unregister_queue ret d s else Done 0 s)))"

definition gh_rm_drv_remove :: "('c, 'h, 'g, 'x) res_state \<Rightarrow> (int, ('c, 'h, 'g, 'x) res_state) outcome" where
  "gh_rm_drv_remove s =
     (case gh_rm_msgq_desc s of
        ErrPtr e \<Rightarrow> Fault
      | Null \<Rightarrow> Done 0 (s\<lparr>rs_recv_task := False\<rparr>)
      | Conn d \<Rightarrow> rm_unregister_queue 0 d (s\<lparr>rs_recv_task := False\<rparr>))"

end
