(* ===== verification/Rm_Resources_Correct.thy ===== *)
theory Rm_Resources_Correct
  imports Rm_Resources Rm_Vm_Correct
begin

text \<open>
  Populating the resources of a VM terminates, keeps the drivers below well-formed and installs
  every capability; the loop that waits for the doorbell driver; interrupts that are never
  allocated and so never released; the callback slots; and the failure path of the driver's
  probe function.
\<close>

section \<open>Callback slots\<close>

text \<open>The contract of a slot: a callback can be set once, and only the first one set is used.\<close>

locale callback_slot =
  fixes get_fn :: "'s \<Rightarrow> 'f option"
    and set_fn :: "'f option \<Rightarrow> 's \<Rightarrow> int \<times> 's"
  assumes set_null: "set_fn None s = (- EINVAL, s)"
    and set_free: "get_fn s = None \<Longrightarrow> fst (set_fn (Some f) s) = 0 \<and> get_fn (snd (set_fn (Some f) s)) = Some f"
    and set_busy: "get_fn s = Some g \<Longrightarrow> set_fn (Some f) s = (- EBUSY, s)"
begin

lemma set_taken: "get_fn s = Some g \<Longrightarrow> snd (set_fn f s) = s \<and> fst (set_fn f s) < 0"
  using set_null [of s] set_busy [of s g] by (cases f) auto

lemma first_wins:
  assumes "get_fn s = None"
  shows "get_fn (fold (\<lambda>f s. snd (set_fn f s)) (Some f # fs) s) = Some f"
proof -
  have "get_fn (fold (\<lambda>f s. snd (set_fn f s)) fs t) = Some f" if "get_fn t = Some f" for t
    using that by (induction fs arbitrary: t) (auto simp: set_taken)
  then show ?thesis using set_free [OF assms, of f] by simp
qed

lemma set_result:
  "fst (set_fn f s) = (case f of None \<Rightarrow> - EINVAL | Some f \<Rightarrow> if get_fn s = None then 0 else - EBUSY)"
  using set_null set_free set_busy by (auto split: option.splits)

end

interpretation cb_virtio: callback_slot gh_virtio_mmio_fn gh_rm_set_virtio_mmio_cb
  by unfold_locales (auto simp: gh_rm_set_virtio_mmio_cb_def)

interpretation cb_wdog: callback_slot gh_wdog_manage_fn gh_rm_set_wdog_manage_cb
  by unfold_locales (auto simp: gh_rm_set_wdog_manage_cb_def)

interpretation cb_vcpu_set: callback_slot gh_vcpu_affinity_set_fn gh_rm_set_vcpu_affinity_cb
  by unfold_locales (auto simp: gh_rm_set_vcpu_affinity_cb_def)

interpretation cb_vcpu_reset: callback_slot gh_vcpu_affinity_reset_fn gh_rm_reset_vcpu_affinity_cb
  by unfold_locales (auto simp: gh_rm_reset_vcpu_affinity_cb_def)

interpretation cb_vpm_set: callback_slot gh_vpm_grp_set_fn gh_rm_set_vpm_grp_cb
  by unfold_locales (auto simp: gh_rm_set_vpm_grp_cb_def)

interpretation cb_vpm_reset: callback_slot gh_vpm_grp_reset_fn gh_rm_reset_vpm_grp_cb
  by unfold_locales (auto simp: gh_rm_reset_vpm_grp_cb_def)

interpretation cb_all_res: callback_slot gh_all_res_populated_fn gh_rm_all_res_populated_cb
  by unfold_locales (auto simp: gh_rm_all_res_populated_cb_def)

section \<open>Interrupts are never allocated\<close>

lemma sint_u32_minus_1: "sint (w :: u32) = - 1 \<longleftrightarrow> w = U32_MAX"
proof
  assume "sint w = - 1"
  then have "word_of_int (sint w) = (word_of_int (- 1) :: u32)" by (rule arg_cong)
  then show "w = U32_MAX" by simp
qed simp

lemma gh_rm_get_irq_eq:
  "gh_rm_get_irq env e s =
     (if (hr_virq_handle e = 0 \<and> hr_virq e = 0) \<or> hr_virq e = U32_MAX then (0, s)
      else (case gh_rm_virq_to_irq env (hr_virq e) (rs_irq s) of (irq, i) \<Rightarrow> (irq, s\<lparr>rs_irq := i\<rparr>)))"
  by (simp add: gh_rm_get_irq_def sint_u32_minus_1 Let_def)

lemma gh_get_irq_idr: "gh_get_irq cm v i = (r, j) \<Longrightarrow> gh_rm_free_virq_idr j = gh_rm_free_virq_idr i"
  by (auto simp: gh_get_irq_def Let_def)

lemma gh_rm_get_irq_frame:
  assumes "gh_rm_get_irq env e s = (irq, t)"
  shows "\<exists>i. t = s\<lparr>rs_irq := i\<rparr> \<and> gh_rm_free_virq_idr i = gh_rm_free_virq_idr (rs_irq s)"
proof (cases "(hr_virq_handle e = 0 \<and> hr_virq e = 0) \<or> hr_virq e = U32_MAX")
  case True
  then show ?thesis using assms by (intro exI [of _ "rs_irq s"]) (auto simp: gh_rm_get_irq_eq)
next
  case False
  then show ?thesis using assms
    by (auto simp: gh_rm_get_irq_eq gh_rm_virq_to_irq_def split: prod.splits dest: gh_get_irq_idr)
qed

lemma gh_rm_put_irq_empty:
  assumes "gh_rm_free_virq_idr (rs_irq s) = []"
  shows "rs_rm (gh_rm_put_irq env e irq s) = rs_rm s \<and> gh_rm_free_virq_idr (rs_irq (gh_rm_put_irq env e irq s)) = []"
  using assms by (auto simp: gh_rm_put_irq_def gh_put_irq_def gh_put_virq_def Let_def split: option.splits)

definition rm_quiet :: "'c \<Rightarrow> ('c, 'h, 'g, 'x) res_state \<Rightarrow> bool" where
  "rm_quiet c s \<longleftrightarrow> gh_rm_free_virq_idr (rs_irq s) = [] \<and> rs_rm s = c"

lemma rm_quiet_simps [simp]:
  "rm_quiet c (s\<lparr>rs_msgq := m\<rparr>) = rm_quiet c s" "rm_quiet c (s\<lparr>rs_dbl := d\<rparr>) = rm_quiet c s"
  "rm_quiet c (s\<lparr>rs_ext := x\<rparr>) = rm_quiet c s"
  by (simp_all add: rm_quiet_def)

lemma rm_quiet_get_irq: "rm_quiet c s \<Longrightarrow> gh_rm_get_irq env e s = (irq, t) \<Longrightarrow> rm_quiet c t"
  using gh_rm_get_irq_frame [of env e s irq t] by (auto simp: rm_quiet_def)

lemma outcome_inv_map: "outcome_inv P (map_outcome f g m) = outcome_inv (\<lambda>s. P (g s)) m"
  by (cases m) auto

lemma outcome_inv_const: "c \<Longrightarrow> outcome_inv (\<lambda>s. c) m"
  by (cases m) auto

lemma retry_eagain_inv:
  assumes "\<And>r s. P s \<Longrightarrow> outcome_inv P (f r s)" and "\<And>s. P s \<Longrightarrow> P (step s)" and "P s"
  shows "outcome_inv P (retry_eagain n step f r s)"
  using assms(3)
proof (induction n arbitrary: r s)
  case 0
  then show ?case by (subst retry_eagain.simps) (rule outcome_inv_obind, auto simp: assms)
next
  case (Suc n)
  then show ?case by (subst retry_eagain.simps) (rule outcome_inv_obind, auto simp: assms)
qed

lemma rm_quiet_vcpus:
  assumes "\<And>s. rm_quiet c s \<Longrightarrow> rm_quiet c (re_step env s)"
  shows "rm_quiet c s \<Longrightarrow> outcome_inv (rm_quiet c) (populate_vcpus env vmid es ret s)"
proof (induction es arbitrary: ret s)
  case (Cons e es)
  obtain irq t where g: "gh_rm_get_irq env e s = (irq, t)" by fastforce
  have t: "rm_quiet c t" by (rule rm_quiet_get_irq [OF Cons.prems g])
  have "outcome_inv (rm_quiet c) (retry_eagain (re_spin env) (re_step env) (vcpu_affinity_set vmid e irq) irq t)"
    by (rule retry_eagain_inv [where P = "rm_quiet c", OF _ assms t]) (auto simp: vcpu_affinity_set_def split: option.splits prod.splits)
  then show ?case
    using Cons t by (auto simp: g intro!: outcome_inv_obind split: option.splits)
qed simp

lemma rm_quiet_switch: "rm_quiet c s \<Longrightarrow> outcome_inv (rm_quiet c) (populate_switch env vmid nm e irq r s)"
  by (auto simp: populate_switch_def Let_def outcome_inv_map outcome_inv_const split: option.splits prod.splits)

lemma rm_quiet_entries:
  assumes "\<And>s. rm_quiet c s \<Longrightarrow> rm_quiet c (re_step env s)"
  shows "rm_quiet c s \<Longrightarrow> outcome_inv (rm_quiet c) (populate_entries env vmid nm es ret s)"
proof (induction es arbitrary: ret s)
  case (Cons e es)
  obtain irq t where g: "gh_rm_get_irq env e s = (irq, t)" by fastforce
  have t: "rm_quiet c t" by (rule rm_quiet_get_irq [OF Cons.prems g])
  have "outcome_inv (rm_quiet c) (retry_eagain (re_spin env) (re_step env) (populate_switch env vmid nm e irq) irq t)"
    by (rule retry_eagain_inv [where P = "rm_quiet c", OF rm_quiet_switch assms t])
  then show ?case using Cons t by (auto simp: g intro!: outcome_inv_obind)
qed simp

lemma rm_quiet_unpopulate:
  "rm_quiet c s \<Longrightarrow> outcome_inv (rm_quiet c) (unpopulate_entries env vmid es ret irq s)"
proof (induction es arbitrary: ret irq s)
  case (Cons e es)
  have "outcome_inv (rm_quiet c) (unpopulate_switch vmid e ret s)"
    using Cons.prems
    by (auto simp: unpopulate_switch_def Let_def outcome_inv_map outcome_inv_const split: option.splits prod.splits)
  moreover have "rm_quiet c (gh_rm_put_irq env e i t)" if "rm_quiet c t" for i t
    using that gh_rm_put_irq_empty [of t env e i] by (auto simp: rm_quiet_def)
  ultimately show ?case
    using Cons.IH by (auto simp: Let_def intro!: outcome_inv_obind)
qed simp

text \<open>The driver never allocates a virtual interrupt: the test for an unallocated one is preceded by
  a test of the same value, so the accept call is unreachable. As a consequence the only
  Resource Manager call that populating or giving back resources makes is the resource query:
  no interrupt is ever accepted, and none released.\<close>

theorem gh_rm_irqs_never_allocated:
  assumes "gh_rm_free_virq_idr (rs_irq s) = []"
    and "\<forall>t. rs_rm (re_step env t) = rs_rm t \<and> rs_irq (re_step env t) = rs_irq t"
  shows "outcome_inv (\<lambda>t. gh_rm_free_virq_idr (rs_irq t) = [] \<and>
             rs_rm t = snd (gh_rm_vm_get_hyp_res (re_call env) (re_kz env 0) vmid True (rs_rm s)))
           (gh_rm_populate_hyp_res env vmid nm s) \<and>
         outcome_inv (\<lambda>t. gh_rm_free_virq_idr (rs_irq t) = [] \<and>
             rs_rm t = snd (gh_rm_vm_get_hyp_res (re_call env) (re_kz env 0) vmid True (rs_rm s)))
           (gh_rm_unpopulate_hyp_res env vmid s)"
proof -
  let ?q = "gh_rm_vm_get_hyp_res (re_call env) (re_kz env 0) vmid True (rs_rm s)"
  have step: "\<And>c t. rm_quiet c t \<Longrightarrow> rm_quiet c (re_step env t)"
    using assms(2) by (auto simp: rm_quiet_def)
  have s: "rm_quiet (snd ?q) (s\<lparr>rs_rm := snd ?q\<rparr>)" using assms(1) by (simp add: rm_quiet_def)
  have all: "rm_quiet c (all_res_populated vmid b t) = rm_quiet c t" for c b and t :: "('a, 'b, 'c, 'd) res_state"
    by (simp add: all_res_populated_def split: option.splits)
  have "outcome_inv (rm_quiet (snd ?q)) (gh_rm_populate_hyp_res env vmid nm s)"
    using s by (auto simp: gh_rm_populate_hyp_res_def all split: prod.splits sum.splits
        intro!: outcome_inv_obind rm_quiet_vcpus rm_quiet_entries step)
  moreover have "outcome_inv (rm_quiet (snd ?q)) (gh_rm_unpopulate_hyp_res env vmid s)"
    using s by (auto simp: gh_rm_unpopulate_hyp_res_def all split: prod.splits sum.splits
        intro!: outcome_inv_obind rm_quiet_unpopulate)
  ultimately show ?thesis unfolding rm_quiet_def [abs_def] by (rule conjI)
qed

section \<open>Populating terminates and installs every capability\<close>

definition msgq_installed :: "int \<Rightarrow> int \<Rightarrow> gh_capid_t \<Rightarrow> 'h msgq_state \<Rightarrow> bool" where
  "msgq_installed l dir c s \<longleftrightarrow>
     (\<exists>p e. mq_caps s p = Some e \<and> mq_label e = l \<and> (if dir = GH_MSGQ_DIRECTION_TX then mq_tx_cap_id e else mq_rx_cap_id e) = c)"

definition dbl_installed :: "int \<Rightarrow> int \<Rightarrow> gh_capid_t \<Rightarrow> 'g dbl_state \<Rightarrow> bool" where
  "dbl_installed l dir c s \<longleftrightarrow>
     dbl_label_ok l \<and> (if dir = GH_MSGQ_DIRECTION_TX then db_tx_cap_id (dbl_entry l s) else db_rx_cap_id (dbl_entry l s)) = c"

lemma msgq_populate_effect:
  assumes wf: "msgq_wf s" and rq: "0 \<le> rq irq" and dir: "dir \<in> {0, 1}"
  shows "\<exists>r t. gh_msgq_populate_cap_info kz rq l cap dir irq s = Done r t \<and> msgq_wf t \<and>
     r \<in> {0, - EINVAL, - ENXIO, - ENOMEM} \<and> (r = 0 \<longrightarrow> msgq_installed l dir cap t) \<and>
     (\<forall>l' d' c. d' \<in> {0, 1} \<longrightarrow> (l', d') \<noteq> (l, dir) \<longrightarrow> msgq_installed l' d' c s \<longrightarrow> msgq_installed l' d' c t)"
proof (cases "l < 0 \<or> irq < 0")
  case True
  then show ?thesis using wf by (auto simp: gh_msgq_populate_cap_info_def)
next
  case False
  obtain r t where rt: "msgq_get_entry kz l s = Done r t" "msgq_wf t"
    and keep: "\<And>q. mq_caps s q \<noteq> None \<Longrightarrow> mq_caps t q = mq_caps s q"
    and r: "case r of Inl err \<Rightarrow> err = - ENOMEM \<and> t = s
     | Inr p \<Rightarrow> \<exists>e. mq_caps t p = Some e \<and> mq_label e = l \<and> (mq_caps s p = None \<longrightarrow> mq_client_desc e = None)
          \<and> (\<forall>q. q \<noteq> p \<longrightarrow> mq_caps t q = mq_caps s q)"
    by (rule msgq_get_entry_ok [OF wf, of l kz]) (use False in \<open>auto intro: that\<close>)
  show ?thesis
  proof (cases r)
    case (Inl err)
    with r rt False wf show ?thesis by (auto simp: gh_msgq_populate_cap_info_def)
  next
    case (Inr p)
    with r obtain e where e: "mq_caps t p = Some e" "mq_label e = l" by auto
    define e' where "e' = (if dir = 0 then e\<lparr>mq_tx_cap_id := cap, mq_tx_irq := irq\<rparr> else e\<lparr>mq_rx_cap_id := cap, mq_rx_irq := irq\<rparr>)"
    define u where "u = t\<lparr>mq_caps := (mq_caps t)(p \<mapsto> e'), mq_irqs := (irq, p) # mq_irqs t\<rparr>"
    have "msgq_wf u"
      using msgq_wf_upd [OF rt(2) e(1), of e'] by (simp add: u_def e'_def)
    moreover have "gh_msgq_populate_cap_info kz rq l cap dir irq s = Done 0 u"
      using False rt(1) Inr e(1) rq dir by (auto simp: gh_msgq_populate_cap_info_def u_def e'_def)
    moreover have "msgq_installed l dir cap u"
      using e(2) unfolding msgq_installed_def by (intro exI [of _ p] exI [of _ e']) (simp add: u_def e'_def)
    moreover have "msgq_installed l' d' c u" if new: "(l', d') \<noteq> (l, dir)" "d' \<in> {0, 1}" and old: "msgq_installed l' d' c s" for l' d' c
    proof -
      obtain q f where f: "mq_caps s q = Some f" "mq_label f = l'" "(if d' = 0 then mq_tx_cap_id f else mq_rx_cap_id f) = c"
        using old by (auto simp: msgq_installed_def)
      then have tq: "mq_caps t q = Some f" using keep [of q] by simp
      show ?thesis
      proof (cases "q = p")
        case True
        with tq e f have "f = e" "l' = l" by auto
        then show ?thesis unfolding msgq_installed_def using e(2) f(3) new dir
          by (intro exI [of _ p] exI [of _ e']) (auto simp: u_def e'_def)
      next
        case False
        then show ?thesis unfolding msgq_installed_def using tq f
          by (intro exI [of _ q] exI [of _ f]) (simp add: u_def)
      qed
    qed
    ultimately show ?thesis by (intro exI [of _ 0] exI [of _ u]) blast
  qed
qed

lemma dbl_populate_effect:
  assumes wf: "dbl_wf s" and "gh_dbl_initialized s" and rq: "0 \<le> rq irq" and dir: "dir \<in> {0, 1}"
    and r: "gh_dbl_populate_cap_info rq l cap dir irq s = (r, t)"
  shows "dbl_wf t \<and> gh_dbl_initialized t \<and> (r < 0 \<longrightarrow> r \<in> {- EINVAL, - ENXIO}) \<and> (0 \<le> r \<longrightarrow> dbl_installed l dir cap t) \<and>
     (\<forall>l' d' c. d' \<in> {0, 1} \<longrightarrow> (l', d') \<noteq> (l, dir) \<longrightarrow> dbl_installed l' d' c s \<longrightarrow> dbl_installed l' d' c t)"
proof -
  have "length (db_table s) = 9" using dbl_wfD(1) [OF wf] .
  moreover have "dbl_wf t" by (rule dbl_populate_wf [OF wf r, THEN conjunct1])
  ultimately show ?thesis using assms(2-5)
    by (auto simp: gh_dbl_populate_cap_info_def dbl_installed_def Let_def split: if_splits)
qed

definition cb_no_eagain :: "('c, 'h, 'g, 'x) res_state \<Rightarrow> bool" where
  "cb_no_eagain s \<longleftrightarrow>
     (\<forall>f v l c i x. gh_vcpu_affinity_set_fn s = Some f \<longrightarrow> fst (f v l c i x) \<noteq> - EAGAIN) \<and>
     (\<forall>f v c i x. gh_vpm_grp_set_fn s = Some f \<longrightarrow> fst (f v c i x) \<noteq> - EAGAIN) \<and>
     (\<forall>f v n l c i a b x. gh_virtio_mmio_fn s = Some f \<longrightarrow> fst (f v n l c i a b x) \<noteq> - EAGAIN) \<and>
     (\<forall>f v c b x. gh_wdog_manage_fn s = Some f \<longrightarrow> fst (f v c b x) \<noteq> - EAGAIN)"

definition res_ready :: "('c, 'h, 'g, 'x) res_state \<Rightarrow> bool" where
  "res_ready s \<longleftrightarrow> msgq_wf (rs_msgq s) \<and> dbl_wf (rs_dbl s) \<and> gh_dbl_initialized (rs_dbl s) \<and> cb_no_eagain s"

definition res_installed :: "gh_vm_get_hyp_res_resp_entry \<Rightarrow> ('c, 'h, 'g, 'x) res_state \<Rightarrow> bool" where
  "res_installed e s \<longleftrightarrow>
     (if hr_res_type e \<in> {GH_RM_RES_TYPE_MQ_TX, GH_RM_RES_TYPE_MQ_RX}
      then msgq_installed (sint (hr_resource_label e)) (uint (hr_res_type e) - 2) (res_cap_id e) (rs_msgq s)
      else dbl_installed (sint (hr_resource_label e)) (uint (hr_res_type e)) (res_cap_id e) (rs_dbl s))"

abbreviation (input) has_cap :: "gh_vm_get_hyp_res_resp_entry \<Rightarrow> bool" where
  "has_cap e \<equiv> hr_res_type e \<in> {GH_RM_RES_TYPE_DB_TX, GH_RM_RES_TYPE_DB_RX, GH_RM_RES_TYPE_MQ_TX, GH_RM_RES_TYPE_MQ_RX}"

definition res_key :: "gh_vm_get_hyp_res_resp_entry \<Rightarrow> u8 \<times> gh_label_t" where
  "res_key e = (hr_res_type e, hr_resource_label e)"

lemma res_simps [simp]:
  "res_ready (s\<lparr>rs_irq := i\<rparr>) = res_ready s" "res_ready (s\<lparr>rs_rm := c\<rparr>) = res_ready s"
  "res_ready (s\<lparr>rs_ext := x\<rparr>) = res_ready s"
  "res_installed e (s\<lparr>rs_irq := i\<rparr>) = res_installed e s" "res_installed e (s\<lparr>rs_rm := c\<rparr>) = res_installed e s"
  "res_installed e (s\<lparr>rs_ext := x\<rparr>) = res_installed e s"
  by (simp_all add: res_ready_def res_installed_def cb_no_eagain_def)

lemma res_ready_get_irq:
  "gh_rm_get_irq env e s = (irq, t) \<Longrightarrow> res_ready t = res_ready s \<and> res_installed e' t = res_installed e' s"
  using gh_rm_get_irq_frame [of env e s irq t] by auto

lemma sint_u32_inj: "sint (a :: u32) = sint b \<longleftrightarrow> a = b"
proof
  assume "sint a = sint b"
  then have "word_of_int (sint a) = (word_of_int (sint b) :: u32)" by (rule arg_cong)
  then show "a = b" by simp
qed simp

lemma populate_switch_mq:
  assumes "res_ready s" and "\<forall>i. 0 \<le> re_rq env i" and ty: "hr_res_type e \<in> {GH_RM_RES_TYPE_MQ_TX, GH_RM_RES_TYPE_MQ_RX}"
  shows "\<exists>r t. populate_switch env vmid nm e irq ret s = Done r t \<and> res_ready t \<and> r \<noteq> - EAGAIN \<and>
     (0 \<le> r \<longrightarrow> res_installed e t) \<and>
     (\<forall>e'. has_cap e' \<longrightarrow> res_key e' \<noteq> res_key e \<longrightarrow> res_installed e' s \<longrightarrow> res_installed e' t)"
proof -
  let ?dir = "uint (hr_res_type e) - 2"
  have dir: "?dir \<in> {0, 1}" using ty by auto
  obtain r m where p: "gh_msgq_populate_cap_info (re_mq_kz env) (re_rq env) (sint (hr_resource_label e)) (res_cap_id e) ?dir irq (rs_msgq s) = Done r m"
    "msgq_wf m" "r \<in> {0, - EINVAL, - ENXIO, - ENOMEM}" "r = 0 \<longrightarrow> msgq_installed (sint (hr_resource_label e)) ?dir (res_cap_id e) m"
    and keep: "\<forall>l' d' c. d' \<in> {0, 1} \<longrightarrow> (l', d') \<noteq> (sint (hr_resource_label e), ?dir) \<longrightarrow> msgq_installed l' d' c (rs_msgq s) \<longrightarrow> msgq_installed l' d' c m"
    using msgq_populate_effect [of "rs_msgq s" "re_rq env" irq ?dir "re_mq_kz env"] assms(1,2) dir
    unfolding res_ready_def by blast
  have "populate_switch env vmid nm e irq ret s = Done r (s\<lparr>rs_msgq := m\<rparr>)"
    using p(1) ty by (auto simp: populate_switch_def Let_def)
  moreover have "res_ready (s\<lparr>rs_msgq := m\<rparr>)" using assms(1) p(2) by (simp add: res_ready_def cb_no_eagain_def)
  moreover have "0 \<le> r \<longrightarrow> res_installed e (s\<lparr>rs_msgq := m\<rparr>)" using p(3,4) ty by (auto simp: res_installed_def)
  moreover have "res_installed e' (s\<lparr>rs_msgq := m\<rparr>)" if "has_cap e'" "res_key e' \<noteq> res_key e" "res_installed e' s" for e'
  proof (cases "hr_res_type e' \<in> {GH_RM_RES_TYPE_MQ_TX, GH_RM_RES_TYPE_MQ_RX}")
    case True
    then have "(sint (hr_resource_label e'), uint (hr_res_type e') - 2) \<noteq> (sint (hr_resource_label e), ?dir)"
      using that(2) ty by (auto simp: res_key_def sint_u32_inj)
    then show ?thesis using True that(3) keep by (auto simp: res_installed_def)
  next
    case False
    then show ?thesis using that(3) by (simp add: res_installed_def)
  qed
  ultimately show ?thesis using p(3) by (intro exI [of _ r] exI [of _ "s\<lparr>rs_msgq := m\<rparr>"]) auto
qed

lemma populate_switch_db:
  assumes "res_ready s" and "\<forall>i. 0 \<le> re_rq env i" and ty: "hr_res_type e \<in> {GH_RM_RES_TYPE_DB_TX, GH_RM_RES_TYPE_DB_RX}"
  shows "\<exists>r t. populate_switch env vmid nm e irq ret s = Done r t \<and> res_ready t \<and> r \<noteq> - EAGAIN \<and>
     (0 \<le> r \<longrightarrow> res_installed e t) \<and>
     (\<forall>e'. has_cap e' \<longrightarrow> res_key e' \<noteq> res_key e \<longrightarrow> res_installed e' s \<longrightarrow> res_installed e' t)"
proof -
  let ?dir = "uint (hr_res_type e)"
  have dir: "?dir \<in> {0, 1}" using ty by auto
  obtain r d where p: "gh_dbl_populate_cap_info (re_rq env) (sint (hr_resource_label e)) (res_cap_id e) ?dir irq (rs_dbl s) = (r, d)"
    by fastforce
  note x = dbl_populate_effect [OF _ _ _ dir p]
  have x: "dbl_wf d \<and> gh_dbl_initialized d" "r < 0 \<longrightarrow> r \<in> {- EINVAL, - ENXIO}"
    "0 \<le> r \<longrightarrow> dbl_installed (sint (hr_resource_label e)) ?dir (res_cap_id e) d"
    and keep: "\<forall>l' d' c. d' \<in> {0, 1} \<longrightarrow> (l', d') \<noteq> (sint (hr_resource_label e), ?dir) \<longrightarrow> dbl_installed l' d' c (rs_dbl s) \<longrightarrow> dbl_installed l' d' c d"
    using x assms(1,2) unfolding res_ready_def by blast+
  have "populate_switch env vmid nm e irq ret s = Done r (s\<lparr>rs_dbl := d\<rparr>)"
    using p ty by (auto simp: populate_switch_def Let_def)
  moreover have "res_ready (s\<lparr>rs_dbl := d\<rparr>)" using assms(1) x(1) by (simp add: res_ready_def cb_no_eagain_def)
  moreover have "0 \<le> r \<longrightarrow> res_installed e (s\<lparr>rs_dbl := d\<rparr>)" using x(3) ty by (auto simp: res_installed_def)
  moreover have "res_installed e' (s\<lparr>rs_dbl := d\<rparr>)" if "has_cap e'" "res_key e' \<noteq> res_key e" "res_installed e' s" for e'
  proof (cases "hr_res_type e' \<in> {GH_RM_RES_TYPE_MQ_TX, GH_RM_RES_TYPE_MQ_RX}")
    case True
    then show ?thesis using that(3) by (simp add: res_installed_def)
  next
    case False
    then have "(sint (hr_resource_label e'), uint (hr_res_type e')) \<noteq> (sint (hr_resource_label e), ?dir)" "uint (hr_res_type e') \<in> {0, 1}"
      using that(1,2) ty by (auto simp: res_key_def sint_u32_inj)
    then show ?thesis using False that(3) keep by (auto simp: res_installed_def)
  qed
  moreover have "r \<noteq> - EAGAIN" using x(2) by auto
  ultimately show ?thesis by (intro exI [of _ r] exI [of _ "s\<lparr>rs_dbl := d\<rparr>"]) auto
qed

text \<open>Resources handed to a callback change only the callback's state.\<close>

definition ext_only :: "('c, 'h, 'g, 'x) res_state \<Rightarrow> (int, ('c, 'h, 'g, 'x) res_state) outcome \<Rightarrow> bool" where
  "ext_only s m \<longleftrightarrow> (\<exists>r x. m = Done r (s\<lparr>rs_ext := x\<rparr>) \<and> r \<noteq> - EAGAIN)"

lemma ext_only_keep: "r \<noteq> - EAGAIN \<Longrightarrow> ext_only s (Done r s)"
  unfolding ext_only_def by (intro exI [of _ r] exI [of _ "rs_ext s"]) simp

lemma ext_only_call: "fst p \<noteq> - EAGAIN \<Longrightarrow> ext_only s (case p of (r, x) \<Rightarrow> Done r (s\<lparr>rs_ext := x\<rparr>))"
  unfolding ext_only_def by (cases p) auto

lemma populate_switch_effect:
  assumes "res_ready s" and "\<forall>i. 0 \<le> re_rq env i" and "0 \<le> irq"
  shows "\<exists>r t. populate_switch env vmid nm e irq irq s = Done r t \<and> res_ready t \<and> r \<noteq> - EAGAIN \<and>
     (0 \<le> r \<and> has_cap e \<longrightarrow> res_installed e t) \<and>
     (\<forall>e'. has_cap e' \<longrightarrow> res_key e' \<noteq> res_key e \<longrightarrow> res_installed e' s \<longrightarrow> res_installed e' t)"
proof (cases "has_cap e")
  case True
  then have "hr_res_type e \<in> {GH_RM_RES_TYPE_MQ_TX, GH_RM_RES_TYPE_MQ_RX} \<or> hr_res_type e \<in> {GH_RM_RES_TYPE_DB_TX, GH_RM_RES_TYPE_DB_RX}"
    by auto
  then show ?thesis
    using populate_switch_mq [OF assms(1,2), of e vmid nm irq irq] populate_switch_db [OF assms(1,2), of e vmid nm irq irq] by blast
next
  case False
  have "ext_only s (populate_switch env vmid nm e irq irq s)"
    using False assms(1,3) unfolding populate_switch_def Let_def res_ready_def cb_no_eagain_def
    by (auto split: option.splits intro!: ext_only_keep ext_only_call)
  then obtain r x where "populate_switch env vmid nm e irq irq s = Done r (s\<lparr>rs_ext := x\<rparr>)" "r \<noteq> - EAGAIN"
    unfolding ext_only_def by blast
  then show ?thesis using False assms(1) by auto
qed

lemma retry_eagain_once: "f r s = Done r' t \<Longrightarrow> r' \<noteq> - EAGAIN \<Longrightarrow> retry_eagain n step f r s = Done r' t"
  by (simp add: retry_eagain.simps)

lemma populate_entries_effect:
  assumes "\<forall>i. 0 \<le> re_rq env i"
  shows "res_ready s \<Longrightarrow> distinct (map res_key es) \<Longrightarrow>
    \<exists>r t. populate_entries env vmid nm es ret s = Done r t \<and> res_ready t \<and>
     (es \<noteq> [] \<and> 0 \<le> r \<longrightarrow> (\<forall>e\<in>set es. has_cap e \<longrightarrow> res_installed e t)) \<and>
     (\<forall>e'. has_cap e' \<longrightarrow> res_key e' \<notin> res_key ` set es \<longrightarrow> res_installed e' s \<longrightarrow> res_installed e' t)"
proof (induction es arbitrary: ret s)
  case (Cons e es)
  obtain irq u where g: "gh_rm_get_irq env e s = (irq, u)" by fastforce
  note gu = res_ready_get_irq [OF g]
  show ?case
  proof (cases "irq < 0")
    case True
    then show ?thesis using g gu Cons.prems by auto
  next
    case False
    then obtain r t where p: "populate_switch env vmid nm e irq irq u = Done r t" "res_ready t" "r \<noteq> - EAGAIN"
      "0 \<le> r \<and> has_cap e \<longrightarrow> res_installed e t"
      "\<forall>e'. has_cap e' \<longrightarrow> res_key e' \<noteq> res_key e \<longrightarrow> res_installed e' u \<longrightarrow> res_installed e' t"
      using populate_switch_effect [of u env irq vmid nm e] gu Cons.prems assms by auto
    note one = retry_eagain_once [where f = "populate_switch env vmid nm e irq", OF p(1,3), of "re_spin env" "re_step env"]
    show ?thesis
    proof (cases "r < 0")
      case True
      then show ?thesis using False g one p gu by auto
    next
      case r: False
      obtain r' t' where q: "populate_entries env vmid nm es r t = Done r' t'" "res_ready t'"
        "es \<noteq> [] \<and> 0 \<le> r' \<longrightarrow> (\<forall>e\<in>set es. has_cap e \<longrightarrow> res_installed e t')"
        "\<forall>e'. has_cap e' \<longrightarrow> res_key e' \<notin> res_key ` set es \<longrightarrow> res_installed e' t \<longrightarrow> res_installed e' t'"
        using Cons.IH [OF p(2), of r] Cons.prems(2) by auto
      have "populate_entries env vmid nm (e # es) ret s = Done r' t'" using False g one r q(1) by simp
      moreover have "has_cap e \<longrightarrow> res_installed e t'"
        using p(4) r q(4) [rule_format, of e] Cons.prems(2) by auto
      moreover have "res_installed e' t'" if "has_cap e'" "res_key e' \<notin> res_key ` set (e # es)" "res_installed e' s" for e'
        using that p(5) q(4) gu by auto
      ultimately show ?thesis using q(2,3) by (intro exI [of _ r'] exI [of _ t']) auto
    qed
  qed
qed simp

lemma populate_vcpus_effect:
  shows "res_ready s \<Longrightarrow> \<exists>r t. populate_vcpus env vmid es ret s = Done r t \<and> res_ready t"
proof (induction es arbitrary: ret s)
  case (Cons e es)
  obtain irq u where g: "gh_rm_get_irq env e s = (irq, u)" by fastforce
  have u: "res_ready u" using res_ready_get_irq [OF g] Cons.prems by blast
  have "\<exists>r t. retry_eagain (re_spin env) (re_step env) (vcpu_affinity_set vmid e irq) irq u = Done r t \<and> res_ready t"
    if "gh_vcpu_affinity_set_fn u = Some f" for f
  proof -
    obtain r x where f: "f vmid (hr_resource_label e) (res_cap_id e) irq (rs_ext u) = (r, x)" by fastforce
    then have "r \<noteq> - EAGAIN" using u that unfolding res_ready_def cb_no_eagain_def by (metis fst_conv)
    then have "retry_eagain (re_spin env) (re_step env) (vcpu_affinity_set vmid e irq) irq u = Done r (u\<lparr>rs_ext := x\<rparr>)"
      using f that by (intro retry_eagain_once) (auto simp: vcpu_affinity_set_def)
    then show ?thesis using u by simp
  qed
  then show ?case using g u Cons by (fastforce split: option.splits)
qed simp

text \<open>C5: With the doorbell driver initialised, interrupts available and callbacks that do not ask to be
  called again, populating the resources of a VM returns, keeps the message queue and doorbell
  drivers well-formed, and when it returns success has installed the capability of every
  message queue and doorbell the Resource Manager listed, each under its label and direction.\<close>

theorem gh_rm_populate_hyp_res_installs:
  assumes "res_ready s" and "\<forall>i. 0 \<le> re_rq env i"
    and "gh_rm_vm_get_hyp_res (re_call env) (re_kz env 0) vmid True (rs_rm s) = (Inr es, c)"
    and "distinct (map res_key es)"
  shows "\<exists>r t. gh_rm_populate_hyp_res env vmid nm s = Done r t \<and> res_ready t \<and>
     (0 \<le> r \<longrightarrow> (\<forall>e\<in>set es. has_cap e \<longrightarrow> res_installed e t))"
proof -
  have "res_ready (s\<lparr>rs_rm := c\<rparr>)" using assms(1) by simp
  then obtain r u where u: "populate_vcpus env vmid es 0 (s\<lparr>rs_rm := c\<rparr>) = Done r u" "res_ready u"
    using populate_vcpus_effect [of "s\<lparr>rs_rm := c\<rparr>" env vmid es 0] by blast
  obtain r' t where t: "populate_entries env vmid nm es r u = Done r' t" "res_ready t"
    "es \<noteq> [] \<and> 0 \<le> r' \<longrightarrow> (\<forall>e\<in>set es. has_cap e \<longrightarrow> res_installed e t)"
    using populate_entries_effect [OF assms(2) u(2) assms(4), of vmid nm r] by blast
  have all: "res_ready (all_res_populated vmid True t) = res_ready t"
    "res_installed e (all_res_populated vmid True t) = res_installed e t" for e
    by (simp_all add: all_res_populated_def split: option.splits)
  show ?thesis
  proof (cases "r < 0 \<or> r' < 0")
    case True
    then show ?thesis using u t assms(3) by (auto simp: gh_rm_populate_hyp_res_def)
  next
    case False
    then show ?thesis using u t assms(3) by (cases "es = []") (auto simp: gh_rm_populate_hyp_res_def all)
  qed
qed

definition res_demo :: "unit dbl_state \<Rightarrow> (unit, unit, unit, unit) res_state" where
  "res_demo d = \<lparr>rs_rm = (), rs_tbl = replicate GH_VM_MAX vm_prop_zero, rs_msgq = msgq_init (), rs_dbl = d,
     rs_irq = \<lparr>gh_rm_free_virq_idr = [], irq_hwirq = Map.empty\<rparr>, rs_ext = (), gh_rm_core_initialized = False,
     gh_rm_base_virq = 0, gh_rm_msgq_desc = Null, rs_recv_task = False, rs_status_nb = False, rs_svm_work = False,
     gh_virtio_mmio_fn = None, gh_wdog_manage_fn = None, gh_vcpu_affinity_set_fn = None, gh_vcpu_affinity_reset_fn = None,
     gh_vpm_grp_set_fn = None, gh_vpm_grp_reset_fn = None, gh_all_res_populated_fn = None\<rparr>"

definition res_demo_entry :: "u8 \<Rightarrow> gh_vm_get_hyp_res_resp_entry" where
  "res_demo_entry ty = \<lparr>hr_res_type = ty, hr_partner_vmid = 3, hr_resource_handle = 1, hr_resource_label = 2, hr_cap_id_low = 9,
     hr_cap_id_high = 0, hr_virq_handle = 0, hr_virq = 0, hr_base_low = 0, hr_base_high = 0, hr_size_low = 0, hr_size_high = 0\<rparr>"

definition res_demo_env :: "nat \<Rightarrow> gh_vm_get_hyp_res_resp_entry list \<Rightarrow> (unit, unit, unit, unit) rs_env" where
  "res_demo_env n es = \<lparr>re_call = (\<lambda>mid req c. ((Some 0, Inr (Some (reply_bytes hyp_res_bytes es), 0)), c)),
     re_kz = (\<lambda>_. True), re_mq_kz = (\<lambda>_. True), re_rq = (\<lambda>_. 0), re_cm = (\<lambda>_. 40), re_spin = n, re_step = (\<lambda>s. s)\<rparr>"

lemma res_demo_query:
  assumes "length es * 44 + 4 < 2 ^ 32"
  shows "gh_rm_vm_get_hyp_res (re_call (res_demo_env n es)) (re_kz (res_demo_env n es) 0) vmid True (u :: unit) = (Inr es, ())"
  using gh_rm_vm_get_hyp_res_encoded [where call = "re_call (res_demo_env n es)" and m = 0 and s = "()" and ?s2.0 = "()" and hrs = es] assms
  by (simp add: res_demo_env_def)

lemma res_demo_ready: "res_ready (res_demo (dbl_demo ()))"
  by (simp add: res_ready_def res_demo_def cb_no_eagain_def dbl_demo_wf msgq_wf_init) (simp add: dbl_demo_def)

theorem gh_rm_populate_hyp_res_installs_witness:
  "\<exists>r t. gh_rm_populate_hyp_res (res_demo_env 0 (map res_demo_entry [GH_RM_RES_TYPE_MQ_TX, GH_RM_RES_TYPE_DB_TX])) 3 None
      (res_demo (dbl_demo ())) = Done r t \<and> res_ready t"
proof -
  let ?es = "map res_demo_entry [GH_RM_RES_TYPE_MQ_TX, GH_RM_RES_TYPE_DB_TX]"
  have "\<exists>r t. gh_rm_populate_hyp_res (res_demo_env 0 ?es) 3 None (res_demo (dbl_demo ())) = Done r t \<and> res_ready t \<and>
     (0 \<le> r \<longrightarrow> (\<forall>e\<in>set ?es. has_cap e \<longrightarrow> res_installed e t))"
    by (rule gh_rm_populate_hyp_res_installs [OF res_demo_ready _ res_demo_query])
       (simp_all add: res_demo_env_def res_key_def res_demo_entry_def)
  then show ?thesis by blast
qed

theorem gh_rm_irqs_never_allocated_witness:
  "outcome_inv (\<lambda>t. gh_rm_free_virq_idr (rs_irq t) = [] \<and> rs_rm t = snd (gh_rm_vm_get_hyp_res (re_call (res_demo_env 0 [res_demo_entry 4])) True 3 True ()))
     (gh_rm_populate_hyp_res (res_demo_env 0 [res_demo_entry 4]) 3 None (res_demo (dbl_demo ())))"
  using gh_rm_irqs_never_allocated [of "res_demo (dbl_demo ())" "res_demo_env 0 [res_demo_entry 4]" 3 None]
  by (simp add: res_demo_def res_demo_env_def)

section \<open>Waiting for the doorbell driver\<close>

lemma retry_eagain_spins:
  assumes "\<And>r s. P s \<Longrightarrow> \<exists>t. f r s = Done (- EAGAIN) t \<and> P t" and "\<And>s. P s \<Longrightarrow> P (step s)" and "P s"
  shows "\<exists>t. retry_eagain n step f r s = Blocked t"
  using assms(3)
proof (induction n arbitrary: r s)
  case 0
  then show ?case using assms(1) [of s r] by (auto simp: retry_eagain.simps)
next
  case (Suc n)
  then obtain t where t: "f r s = Done (- EAGAIN) t" "P t" using assms(1) by blast
  then show ?case using Suc.IH [OF assms(2) [OF t(2)], of "- EAGAIN"] by (simp add: retry_eagain.simps [of "Suc n"])
qed

text \<open>When a VM has a doorbell and the doorbell driver has not been initialised, populating its
  resources never returns as long as nobody initialises it: the loop repeats the same failing
  call, however many attempts are made.\<close>

theorem gh_rm_populate_hyp_res_spins:
  assumes "\<forall>t. gh_dbl_initialized (rs_dbl (re_step env t)) = gh_dbl_initialized (rs_dbl t)"
    and "\<not> gh_dbl_initialized (rs_dbl s)" and "hr_res_type e \<in> {GH_RM_RES_TYPE_DB_TX, GH_RM_RES_TYPE_DB_RX}"
    and "gh_rm_vm_get_hyp_res (re_call env) (re_kz env 0) vmid True (rs_rm s) = (Inr (e # es), c)"
    and "list_all (\<lambda>e. hr_res_type e \<noteq> GH_RM_RES_TYPE_VCPU) es" and "\<forall>v. 0 \<le> re_cm env v"
  shows "\<exists>t. gh_rm_populate_hyp_res env vmid nm s = Blocked t"
proof -
  have none: "populate_vcpus env vmid fs 0 u = Done 0 u" if "list_all (\<lambda>e. hr_res_type e \<noteq> GH_RM_RES_TYPE_VCPU) fs" for fs u
    using that by (induction fs) auto
  obtain irq u where g: "gh_rm_get_irq env e (s\<lparr>rs_rm := c\<rparr>) = (irq, u)" by fastforce
  have "irq = 0 \<or> irq = re_cm env (hr_virq e - 32)"
    using g by (auto simp: gh_rm_get_irq_eq gh_rm_virq_to_irq_def gh_get_irq_def Let_def split: if_splits)
  then have irq: "0 \<le> irq" using assms(6) by auto
  have u: "\<not> gh_dbl_initialized (rs_dbl u)" using gh_rm_get_irq_frame [OF g] assms(2) by auto
  have sw: "populate_switch env vmid nm e irq r w = Done (- EAGAIN) w" if "\<not> gh_dbl_initialized (rs_dbl w)" for r w
    using that assms(3) by (auto simp: populate_switch_def Let_def gh_dbl_populate_cap_info_def)
  have "\<exists>t. retry_eagain (re_spin env) (re_step env) (populate_switch env vmid nm e irq) irq u = Blocked t"
    by (rule retry_eagain_spins [where P = "\<lambda>t. \<not> gh_dbl_initialized (rs_dbl t)"])
       (simp_all add: sw assms(1) u)
  moreover have "populate_vcpus env vmid (e # es) 0 (s\<lparr>rs_rm := c\<rparr>) = Done 0 (s\<lparr>rs_rm := c\<rparr>)"
    by (rule none) (use assms(3,5) in auto)
  ultimately show ?thesis using assms(4) g irq by (auto simp: gh_rm_populate_hyp_res_def)
qed

theorem gh_rm_populate_hyp_res_spins_witness:
  "\<forall>n. \<exists>t. gh_rm_populate_hyp_res (res_demo_env n [res_demo_entry GH_RM_RES_TYPE_DB_RX]) 3 None (res_demo (dbl_boot ())) = Blocked t"
proof
  fix n
  show "\<exists>t. gh_rm_populate_hyp_res (res_demo_env n [res_demo_entry GH_RM_RES_TYPE_DB_RX]) 3 None (res_demo (dbl_boot ())) = Blocked t"
    by (rule gh_rm_populate_hyp_res_spins [OF _ _ _ res_demo_query])
       (simp_all add: res_demo_env_def res_demo_def res_demo_entry_def dbl_boot_def)
qed

section \<open>Callback slots and probing\<close>

text \<open>Every callback slot can be set once: of any sequence of registrations for a slot the first
  non-NULL one is used, later ones fail with \<^verbatim>\<open>-EBUSY\<close> and NULL fails with \<^verbatim>\<open>-EINVAL\<close>; only the
  virtio slot can be cleared and set again.\<close>

theorem gh_rm_callbacks_first_wins:
  "(gh_virtio_mmio_fn s = None \<longrightarrow> gh_virtio_mmio_fn (fold (\<lambda>f s. snd (gh_rm_set_virtio_mmio_cb f s)) (Some f1 # fs1) s) = Some f1) \<and>
   (gh_wdog_manage_fn s = None \<longrightarrow> gh_wdog_manage_fn (fold (\<lambda>f s. snd (gh_rm_set_wdog_manage_cb f s)) (Some f2 # fs2) s) = Some f2) \<and>
   (gh_vcpu_affinity_set_fn s = None \<longrightarrow>
      gh_vcpu_affinity_set_fn (fold (\<lambda>f s. snd (gh_rm_set_vcpu_affinity_cb f s)) (Some f3 # fs3) s) = Some f3) \<and>
   (gh_vcpu_affinity_reset_fn s = None \<longrightarrow>
      gh_vcpu_affinity_reset_fn (fold (\<lambda>f s. snd (gh_rm_reset_vcpu_affinity_cb f s)) (Some f4 # fs4) s) = Some f4) \<and>
   (gh_vpm_grp_set_fn s = None \<longrightarrow> gh_vpm_grp_set_fn (fold (\<lambda>f s. snd (gh_rm_set_vpm_grp_cb f s)) (Some f5 # fs5) s) = Some f5) \<and>
   (gh_vpm_grp_reset_fn s = None \<longrightarrow> gh_vpm_grp_reset_fn (fold (\<lambda>f s. snd (gh_rm_reset_vpm_grp_cb f s)) (Some f6 # fs6) s) = Some f6) \<and>
   (gh_all_res_populated_fn s = None \<longrightarrow>
      gh_all_res_populated_fn (fold (\<lambda>f s. snd (gh_rm_all_res_populated_cb f s)) (Some f7 # fs7) s) = Some f7) \<and>
   fst (gh_rm_set_virtio_mmio_cb (Some f1) (gh_rm_unset_virtio_mmio_cb s)) = 0"
  by (intro conjI impI cb_virtio.first_wins cb_wdog.first_wins cb_vcpu_set.first_wins cb_vcpu_reset.first_wins
      cb_vpm_set.first_wins cb_vpm_reset.first_wins cb_all_res.first_wins)
     (simp_all add: gh_rm_set_virtio_mmio_cb_def gh_rm_unset_virtio_mmio_cb_def)

theorem gh_rm_callbacks_first_wins_witness:
  "gh_wdog_manage_fn (fold (\<lambda>f s. snd (gh_rm_set_wdog_manage_cb f s)) [Some (\<lambda>v c b x. (0, x)), None, Some (\<lambda>v c b x. (1, x))]
     (res_demo (dbl_demo ()))) = Some (\<lambda>v c b x. (0, x))"
  by (rule gh_rm_callbacks_first_wins [THEN conjunct2, THEN conjunct1, rule_format]) (simp add: res_demo_def)

text \<open>When the driver's probe function fails after starting the receive task (the VM identification
  node cannot be read), it unregisters the message queue descriptor while the task keeps
  running and the global pointer stays set: the task's next receive, and every later request,
  goes through freed memory.\<close>

theorem gh_rm_drv_probe_failure_use_after_free:
  assumes "msgq_wf (rs_msgq s)" and "\<not> pe_duplex pe" "\<not> pe_sender pe" "\<not> pe_receiver pe" and "pe_base_virq pe = Some b"
    "pe_intc pe" "pe_domain pe" "0 \<le> pe_kthread pe" and "vn_found node" "fst (vn_vmid node) < 0" "fst (vn_vmid node) \<noteq> - ENODEV"
    and "gh_msgq_register (re_mq_kz env) GH_MSGQ_LABEL_RM (rs_msgq s) = Done (Inr d) m"
  shows "\<exists>t. gh_rm_drv_probe env pe up junk node s = Done (fst (vn_vmid node)) t \<and> rs_recv_task t \<and> gh_rm_msgq_desc t = Conn d \<and>
     gh_msgq_recv hv (Some d) True GH_MSGQ_MAX_MSG_SIZE_BYTES True 0 (rs_msgq t) es = Fault \<and>
     gh_msgq_send hv (Some d) (Some msg) 240 0 (rs_msgq t) es = Fault"
proof -
  have m: "msgq_wf m" "msgq_owner m GH_MSGQ_LABEL_RM = Some d"
    using mq_reg.reg_total [OF assms(1), of "re_mq_kz env" 0] mq_reg.reg_ok [OF assms(1,12)] assms(12) by auto
  obtain v where v: "gh_msgq_unregister (Some d) m = Done 0 v"
    using msgq_unregister_owner [OF m] by blast
  have "mq_descs v d = None" using v by (auto simp: gh_msgq_unregister_def split: option.splits if_splits)
  then show ?thesis using assms(2-12) v
    by (simp add: gh_rm_drv_probe_def gh_msgq_probe_def gh_vm_probe_def rm_unregister_queue_def Let_def
        gh_msgq_recv_def gh_msgq_send_def)
qed

theorem gh_rm_drv_probe_failure_use_after_free_witness:
  "\<forall>hv. \<exists>t. gh_rm_drv_probe (res_demo_env 0 [])
     \<lparr>pe_gi = \<lambda>_. 0, pe_rd = \<lambda>_. (0, 0), pe_duplex = False, pe_sender = False, pe_receiver = False, pe_base_virq = Some 32,
      pe_intc = True, pe_domain = True, pe_kthread = 0\<rparr> (\<lambda>_. (0, [])) 0
     \<lparr>vn_found = True, vn_vmid = (- EINVAL, 0), vn_owner_vmid = (0, 0), vn_image_name = None, vn_peers = None\<rparr>
     (res_demo (dbl_demo ())) = Done (- EINVAL) t \<and> rs_recv_task t \<and> gh_msgq_recv hv (Some 2) True 240 True 0 (rs_msgq t) [] = Fault"
proof
  fix hv :: "unit msgq_hcall"
  let ?pe = "\<lparr>pe_gi = \<lambda>_. 0, pe_rd = \<lambda>_. (0, 0), pe_duplex = False, pe_sender = False, pe_receiver = False, pe_base_virq = Some 32,
      pe_intc = True, pe_domain = True, pe_kthread = 0\<rparr>"
  let ?n = "\<lparr>vn_found = True, vn_vmid = (- EINVAL, 0), vn_owner_vmid = (0, 0), vn_image_name = None, vn_peers = None\<rparr>"
  obtain m where m: "gh_msgq_register (re_mq_kz (res_demo_env 0 [])) GH_MSGQ_LABEL_RM (rs_msgq (res_demo (dbl_demo ()))) = Done (Inr 2) m"
    by (simp add: gh_msgq_register_def msgq_get_entry_def gh_msgq_alloc_entry_def res_demo_env_def res_demo_def msgq_init_def Let_def)
  have wf: "msgq_wf (rs_msgq (res_demo (dbl_demo ())))" by (simp add: res_demo_def msgq_wf_init)
  show "\<exists>t. gh_rm_drv_probe (res_demo_env 0 []) ?pe (\<lambda>_. (0, [])) 0 ?n (res_demo (dbl_demo ())) = Done (- EINVAL) t \<and>
      rs_recv_task t \<and> gh_msgq_recv hv (Some 2) True 240 True 0 (rs_msgq t) [] = Fault"
    using gh_rm_drv_probe_failure_use_after_free [of "res_demo (dbl_demo ())" ?pe 32 ?n "res_demo_env 0 []" 2 m "\<lambda>_. (0, [])" 0 hv "[]" "[]", OF wf] m
    by auto
qed

end
