(* ===== verification/Irq_Lend.thy ===== *)
theory Irq_Lend
  imports Rm_Vm Irq_Map
begin

text \<open>
  Lending interrupts between VMs (\<^verbatim>\<open>drivers/virt/gunyah/gh_irq_lend.c\<close>): one entry per label, which
  a lender moves through lend, accepted, released and reclaim, and a borrower through
  wait-for-lend, lent, accepted and release. The two notifier handlers and every operation are
  functions on the table; invoking a callback appends it to a log, and invoking a NULL callback
  is the outcome \<^term>\<open>Fault\<close>.
\<close>

section \<open>State\<close>

abbreviation (input) GH_IRQ_LABEL_MAX :: nat where "GH_IRQ_LABEL_MAX \<equiv> 5"

datatype gh_irq_state =
    GH_IRQ_STATE_NONE
  | GH_IRQ_STATE_WAIT_RELEASE_OR_ACCEPT
  | GH_IRQ_STATE_WAIT_LEND
  | GH_IRQ_STATE_RELEASED
  | GH_IRQ_STATE_ACCEPTED
  | GH_IRQ_STATE_LENT

text \<open>Callbacks and their arguments are identified by numbers.\<close>

record gh_irq_entry =
  ie_vmid :: gh_vmid_t
  ie_vm_name :: nat
  ie_v2_handle :: "nat option"
  ie_handle :: "nat option"
  ie_data :: nat
  ie_state :: gh_irq_state
  ie_virq_handle :: gh_virq_handle_t

record irq_callback =
  ic_fn :: nat
  ic_data :: nat
  ic_cmd :: u32
  ic_label :: nat

record 'c irq_lend_state =
  gh_irq_entries :: "gh_irq_entry list"
  il_calls :: "irq_callback list"
  il_rm :: 'c
  il_tbl :: vm_table
  il_irq :: irq_state
  il_initialized :: bool

definition irq_entry_zero :: gh_irq_entry where
  "irq_entry_zero = \<lparr>ie_vmid = 0, ie_vm_name = 0, ie_v2_handle = None, ie_handle = None, ie_data = 0,
     ie_state = GH_IRQ_STATE_NONE, ie_virq_handle = 0\<rparr>"

definition irq_entry :: "nat \<Rightarrow> 'c irq_lend_state \<Rightarrow> gh_irq_entry" where
  "irq_entry l s = gh_irq_entries s ! l"

definition irq_set :: "nat \<Rightarrow> gh_irq_entry \<Rightarrow> 'c irq_lend_state \<Rightarrow> 'c irq_lend_state" where
  "irq_set l e s = s\<lparr>gh_irq_entries := (gh_irq_entries s)[l := e]\<rparr>"

definition irq_set_state :: "nat \<Rightarrow> gh_irq_state \<Rightarrow> 'c irq_lend_state \<Rightarrow> 'c irq_lend_state" where
  "irq_set_state l st s = irq_set l ((irq_entry l s)\<lparr>ie_state := st\<rparr>) s"

text \<open>\<^verbatim>\<open>entry->v2_handle(entry->data, cmd, label)\<close>\<close>

definition irq_invoke :: "u32 \<Rightarrow> nat \<Rightarrow> 'c irq_lend_state \<Rightarrow> (bool, 'c irq_lend_state) outcome" where
  "irq_invoke cmd l s =
     (case ie_v2_handle (irq_entry l s) of
        None \<Rightarrow> Fault
      | Some f \<Rightarrow> Done True (s\<lparr>il_calls := il_calls s @
          [\<lparr>ic_fn = f, ic_data = ie_data (irq_entry l s), ic_cmd = cmd, ic_label = l\<rparr>]\<rparr>))"

section \<open>Notifications\<close>

text \<open>The Boolean result is \<^verbatim>\<open>NOTIFY_OK\<close>.\<close>

definition gh_irq_released_accepted_nb_handler ::
  "u32 \<Rightarrow> gh_virq_handle_t \<Rightarrow> 'c irq_lend_state \<Rightarrow> (bool, 'c irq_lend_state) outcome" where
  "gh_irq_released_accepted_nb_handler cmd virq_handle s =
     (if cmd \<noteq> GH_RM_NOTIF_VM_IRQ_RELEASED \<and> cmd \<noteq> GH_RM_NOTIF_VM_IRQ_ACCEPTED then Done False s
      else case List.find (\<lambda>l. ie_state (irq_entry l s) \<in> {GH_IRQ_STATE_WAIT_RELEASE_OR_ACCEPT, GH_IRQ_STATE_ACCEPTED} \<and>
                               virq_handle = ie_virq_handle (irq_entry l s)) [0..<GH_IRQ_LABEL_MAX] of
        None \<Rightarrow> Done False s
      | Some l \<Rightarrow>
          irq_invoke cmd l
            (irq_set_state l (if cmd = GH_RM_NOTIF_VM_IRQ_RELEASED then GH_IRQ_STATE_RELEASED else GH_IRQ_STATE_ACCEPTED) s))"

definition gh_irq_lent_nb_handler ::
  "u32 \<Rightarrow> gh_vmid_t \<Rightarrow> gh_virq_handle_t \<Rightarrow> u32 \<Rightarrow> 'c irq_lend_state \<Rightarrow> (bool, 'c irq_lend_state) outcome" where
  "gh_irq_lent_nb_handler cmd owner_vmid virq_handle virq_label s =
     (if cmd \<noteq> GH_RM_NOTIF_VM_IRQ_LENT then Done False s
      else case gh_rm_get_vm_name owner_vmid (il_tbl s) of
        (ret, None) \<Rightarrow> Done False s
      | (ret, Some owner_name) \<Rightarrow>
          (case List.find (\<lambda>l. ie_state (irq_entry l s) \<in> {GH_IRQ_STATE_WAIT_LEND, GH_IRQ_STATE_LENT} \<and>
                               l = unat virq_label \<and>
                               (ie_vm_name (irq_entry l s) = GH_VM_MAX \<or> ie_vm_name (irq_entry l s) = owner_name))
                     [0..<GH_IRQ_LABEL_MAX] of
             None \<Rightarrow> Done False s
           | Some l \<Rightarrow>
               irq_invoke cmd l
                 (irq_set l ((irq_entry l s)\<lparr>ie_vmid := owner_vmid, ie_virq_handle := virq_handle,
                    ie_state := GH_IRQ_STATE_LENT\<rparr>) s)))"

section \<open>Lender\<close>

text \<open>
  Lending has two parts: the critical section, which returns an error or the virtual IRQ to
  lend, and the Resource Manager call, made after the lock was dropped. \<open>between\<close> is what other
  contexts do in the meantime.
\<close>

definition irq_lend_begin ::
  "nat \<Rightarrow> nat \<Rightarrow> int \<Rightarrow> nat option \<Rightarrow> nat \<Rightarrow> 'c irq_lend_state \<Rightarrow> (int + u32, 'c irq_lend_state) outcome" where
  "irq_lend_begin label name irq cb_handle data s =
     (if GH_IRQ_LABEL_MAX \<le> label \<or> cb_handle = None then Done (Inl (- EINVAL)) s
      else case gh_rm_irq_to_virq irq (il_irq s) of
        (r, None) \<Rightarrow> Done (Inl (- EINVAL)) s
      | (r, Some virq) \<Rightarrow>
          if ie_state (irq_entry label s) \<noteq> GH_IRQ_STATE_NONE then Done (Inl (- EINVAL)) s
          else (case gh_rm_get_vmid (il_initialized s) name (il_tbl s) of
                  Done (ret, None) _ \<Rightarrow> Done (Inl ret) (irq_set_state label GH_IRQ_STATE_NONE s)
                | Done (ret, Some vmid) _ \<Rightarrow>
                    Done (Inr virq) (irq_set label ((irq_entry label s)\<lparr>ie_vmid := vmid, ie_v2_handle := cb_handle,
                      ie_data := data, ie_state := GH_IRQ_STATE_WAIT_RELEASE_OR_ACCEPT\<rparr>) s)
                | _ \<Rightarrow> Fault))"

definition irq_lend_finish :: "'c rm_caller \<Rightarrow> nat \<Rightarrow> u32 \<Rightarrow> 'c irq_lend_state \<Rightarrow> int \<times> 'c irq_lend_state" where
  "irq_lend_finish call label virq s =
     (case gh_rm_vm_irq_lend call (ie_vmid (irq_entry label s)) virq (of_nat label) (il_rm s) of
        ((r, h), c) \<Rightarrow>
          let s = s\<lparr>il_rm := c\<rparr> in
          (r, case h of None \<Rightarrow> s | Some h \<Rightarrow> irq_set label ((irq_entry label s)\<lparr>ie_virq_handle := h\<rparr>) s))"

definition gh_irq_lend_v2 ::
  "'c rm_caller \<Rightarrow> ('c irq_lend_state \<Rightarrow> 'c irq_lend_state) \<Rightarrow> nat \<Rightarrow> nat \<Rightarrow> int \<Rightarrow> nat option \<Rightarrow> nat \<Rightarrow>
   'c irq_lend_state \<Rightarrow> (int, 'c irq_lend_state) outcome" where
  "gh_irq_lend_v2 call between label name irq cb_handle data s =
     obind (irq_lend_begin label name irq cb_handle data s) (\<lambda>r s.
       case r of
         Inl e \<Rightarrow> Done e s
       | Inr virq \<Rightarrow> (case irq_lend_finish call label virq (between s) of (r, s) \<Rightarrow> Done r s))"

text \<open>The first version of the interface only remembers the callback.\<close>

definition gh_irq_lend :: "nat \<Rightarrow> nat option \<Rightarrow> 'c irq_lend_state \<Rightarrow> int \<times> 'c irq_lend_state" where
  "gh_irq_lend label cb_handle s =
     (if GH_IRQ_LABEL_MAX \<le> label \<or> cb_handle = None then (- EINVAL, s)
      else (0, irq_set label ((irq_entry label s)\<lparr>ie_handle := cb_handle\<rparr>) s))"

definition gh_irq_lend_notify :: "'c rm_caller \<Rightarrow> bool \<Rightarrow> nat \<Rightarrow> 'c irq_lend_state \<Rightarrow> int \<times> 'c irq_lend_state" where
  "gh_irq_lend_notify call kz label s =
     (if GH_IRQ_LABEL_MAX \<le> label then (- EINVAL, s)
      else let e = irq_entry label s in
        if ie_state e = GH_IRQ_STATE_NONE then (- EINVAL, s)
        else case gh_rm_vm_irq_lend_notify call kz (ie_vmid e) (ie_virq_handle e) (il_rm s) of (r, c) \<Rightarrow> (r, s\<lparr>il_rm := c\<rparr>))"

definition gh_irq_reclaim :: "'c rm_caller \<Rightarrow> nat \<Rightarrow> 'c irq_lend_state \<Rightarrow> int \<times> 'c irq_lend_state" where
  "gh_irq_reclaim call label s =
     (if GH_IRQ_LABEL_MAX \<le> label then (- EINVAL, s)
      else let e = irq_entry label s in
        if ie_state e \<noteq> GH_IRQ_STATE_WAIT_RELEASE_OR_ACCEPT \<and> ie_state e \<noteq> GH_IRQ_STATE_RELEASED then (- EINVAL, s)
        else case gh_rm_vm_irq_reclaim call (ie_virq_handle e) (il_rm s) of
          (r, c) \<Rightarrow> let s = s\<lparr>il_rm := c\<rparr> in (r, if r = 0 then irq_set_state label GH_IRQ_STATE_NONE s else s))"

section \<open>Borrower\<close>

definition gh_irq_wait_for_lend_v2 ::
  "nat \<Rightarrow> nat \<Rightarrow> nat option \<Rightarrow> nat \<Rightarrow> 'c irq_lend_state \<Rightarrow> int \<times> 'c irq_lend_state" where
  "gh_irq_wait_for_lend_v2 label name on_lend data s =
     (if GH_IRQ_LABEL_MAX \<le> label \<or> on_lend = None then (- EINVAL, s)
      else if ie_state (irq_entry label s) \<noteq> GH_IRQ_STATE_NONE then (- EINVAL, s)
      else (0, irq_set label ((irq_entry label s)\<lparr>ie_vm_name := name, ie_v2_handle := on_lend, ie_data := data,
                 ie_state := GH_IRQ_STATE_WAIT_LEND\<rparr>) s))"

definition gh_irq_wait_for_lend :: "nat \<Rightarrow> nat \<Rightarrow> nat option \<Rightarrow> nat \<Rightarrow> 'c irq_lend_state \<Rightarrow> int \<times> 'c irq_lend_state" where
  "gh_irq_wait_for_lend label name on_lend data s = (0, s)"

text \<open>\<open>cm\<close> maps an SPI to a Linux IRQ (see \<open>Irq_Map\<close>).\<close>

definition gh_irq_accept ::
  "'c rm_caller \<Rightarrow> (u32 \<Rightarrow> int) \<Rightarrow> nat \<Rightarrow> int \<Rightarrow> 'c irq_lend_state \<Rightarrow> int \<times> 'c irq_lend_state" where
  "gh_irq_accept call cm label irq s =
     (if GH_IRQ_LABEL_MAX \<le> label then (- EINVAL, s)
      else let e = irq_entry label s in
        if ie_state e \<noteq> GH_IRQ_STATE_LENT then (- EINVAL, s)
        else case (if irq \<noteq> - 1 then map_option sint (snd (gh_rm_irq_to_virq irq (il_irq s))) else Some (- 1)) of
          None \<Rightarrow> (- EINVAL, s)
        | Some v \<Rightarrow>
            (case gh_rm_vm_irq_accept call (ie_virq_handle e) v (il_rm s) of
               (virq, c) \<Rightarrow>
                 let s = s\<lparr>il_rm := c\<rparr> in
                 if virq < 0 then (virq, s)
                 else case (if irq = - 1 then gh_get_irq cm (word_of_int virq) (il_irq s) else (irq, il_irq s)) of
                   (irq, i) \<Rightarrow> (irq, irq_set_state label GH_IRQ_STATE_ACCEPTED (s\<lparr>il_irq := i\<rparr>))))"

definition gh_irq_accept_notify :: "'c rm_caller \<Rightarrow> bool \<Rightarrow> nat \<Rightarrow> 'c irq_lend_state \<Rightarrow> int \<times> 'c irq_lend_state" where
  "gh_irq_accept_notify call kz label s =
     (if GH_IRQ_LABEL_MAX \<le> label then (- EINVAL, s)
      else let e = irq_entry label s in
        if ie_state e \<noteq> GH_IRQ_STATE_ACCEPTED then (- EINVAL, s)
        else case gh_rm_vm_irq_accept_notify call kz (ie_vmid e) (ie_virq_handle e) (il_rm s) of (r, c) \<Rightarrow> (r, s\<lparr>il_rm := c\<rparr>))"

definition gh_irq_release :: "'c rm_caller \<Rightarrow> nat \<Rightarrow> 'c irq_lend_state \<Rightarrow> int \<times> 'c irq_lend_state" where
  "gh_irq_release call label s =
     (if GH_IRQ_LABEL_MAX \<le> label then (- EINVAL, s)
      else let e = irq_entry label s in
        if ie_state e \<noteq> GH_IRQ_STATE_ACCEPTED then (- EINVAL, s)
        else case gh_rm_vm_irq_release call (ie_virq_handle e) (il_rm s) of
          (r, c) \<Rightarrow> let s = s\<lparr>il_rm := c\<rparr> in (r, if r = 0 then irq_set_state label GH_IRQ_STATE_WAIT_LEND s else s))"

definition gh_irq_release_notify :: "'c rm_caller \<Rightarrow> bool \<Rightarrow> nat \<Rightarrow> 'c irq_lend_state \<Rightarrow> int \<times> 'c irq_lend_state" where
  "gh_irq_release_notify call kz label s =
     (if GH_IRQ_LABEL_MAX \<le> label then (- EINVAL, s)
      else let e = irq_entry label s in
        if ie_state e \<noteq> GH_IRQ_STATE_ACCEPTED \<and> ie_state e \<noteq> GH_IRQ_STATE_WAIT_LEND then (- EINVAL, s)
        else case gh_rm_vm_irq_release_notify call kz (ie_vmid e) (ie_virq_handle e) (il_rm s) of (r, c) \<Rightarrow> (r, s\<lparr>il_rm := c\<rparr>))"

section \<open>Initialisation\<close>

text \<open>\<open>reg\<close> is what registering the two notifiers returns; the state is the set of registered ones.\<close>

definition gh_irq_lend_init :: "int \<times> int \<Rightarrow> int \<times> nat list" where
  "gh_irq_lend_init reg =
     (if fst reg \<noteq> 0 then (fst reg, []) else (snd reg, if snd reg = 0 then [0, 1] else [0]))"

definition gh_irq_lend_exit :: "nat list \<Rightarrow> nat list" where
  "gh_irq_lend_exit nbs = removeAll 1 (removeAll 0 nbs)"

end
