(* ===== verification/Irq_Lend_Correct.thy ===== *)
theory Irq_Lend_Correct
  imports Irq_Lend
begin

text \<open>
  The interrupt lending protocol as a transition system: every operation and notification of one
  VM is a step; in every reachable state a label in use has a callback, and an entry moves only
  along the edges of the protocol. A complete loan between two VMs brings both back to where
  they started; a refused loan leaves the lender's label unusable.
\<close>

section \<open>The transition system of one VM\<close>

inductive irq_step :: "'c irq_lend_state \<Rightarrow> 'c irq_lend_state \<Rightarrow> bool" where
  lend_begin: "irq_lend_begin label name irq cb d s = Done r t \<Longrightarrow> irq_step s t"
| lend_finish: "label < GH_IRQ_LABEL_MAX \<Longrightarrow> irq_lend_finish call label virq s = (r, t) \<Longrightarrow> irq_step s t"
| lend_v1: "gh_irq_lend label cb s = (r, t) \<Longrightarrow> irq_step s t"
| lend_notify: "gh_irq_lend_notify call kz label s = (r, t) \<Longrightarrow> irq_step s t"
| reclaim: "gh_irq_reclaim call label s = (r, t) \<Longrightarrow> irq_step s t"
| wait_for_lend: "gh_irq_wait_for_lend_v2 label name cb d s = (r, t) \<Longrightarrow> irq_step s t"
| accept: "gh_irq_accept call cm label irq s = (r, t) \<Longrightarrow> irq_step s t"
| accept_notify: "gh_irq_accept_notify call kz label s = (r, t) \<Longrightarrow> irq_step s t"
| release: "gh_irq_release call label s = (r, t) \<Longrightarrow> irq_step s t"
| release_notify: "gh_irq_release_notify call kz label s = (r, t) \<Longrightarrow> irq_step s t"
| notif_released_accepted: "gh_irq_released_accepted_nb_handler cmd h s = Done b t \<Longrightarrow> irq_step s t"
| notif_lent: "gh_irq_lent_nb_handler cmd v h l s = Done b t \<Longrightarrow> irq_step s t"

inductive_cases irq_stepE: "irq_step s t"

inductive irq_reachable :: "'c irq_lend_state \<Rightarrow> bool" where
  init: "gh_irq_entries s = replicate GH_IRQ_LABEL_MAX irq_entry_zero \<Longrightarrow> irq_reachable s"
| step: "irq_reachable s \<Longrightarrow> irq_step s t \<Longrightarrow> irq_reachable t"

definition irq_wf :: "'c irq_lend_state \<Rightarrow> bool" where
  "irq_wf s \<longleftrightarrow> length (gh_irq_entries s) = GH_IRQ_LABEL_MAX \<and>
     (\<forall>l<GH_IRQ_LABEL_MAX. ie_state (irq_entry l s) \<noteq> GH_IRQ_STATE_NONE \<longrightarrow> ie_v2_handle (irq_entry l s) \<noteq> None)"

text \<open>The edges of the protocol, for lender and borrower.\<close>

definition irq_edge :: "gh_irq_state \<Rightarrow> gh_irq_state \<Rightarrow> bool" where
  "irq_edge a b \<longleftrightarrow> (a, b) \<in>
     {(GH_IRQ_STATE_NONE, GH_IRQ_STATE_WAIT_RELEASE_OR_ACCEPT), (GH_IRQ_STATE_NONE, GH_IRQ_STATE_WAIT_LEND),
      (GH_IRQ_STATE_WAIT_RELEASE_OR_ACCEPT, GH_IRQ_STATE_ACCEPTED), (GH_IRQ_STATE_WAIT_RELEASE_OR_ACCEPT, GH_IRQ_STATE_RELEASED),
      (GH_IRQ_STATE_ACCEPTED, GH_IRQ_STATE_RELEASED), (GH_IRQ_STATE_WAIT_RELEASE_OR_ACCEPT, GH_IRQ_STATE_NONE),
      (GH_IRQ_STATE_RELEASED, GH_IRQ_STATE_NONE), (GH_IRQ_STATE_WAIT_LEND, GH_IRQ_STATE_LENT),
      (GH_IRQ_STATE_LENT, GH_IRQ_STATE_ACCEPTED), (GH_IRQ_STATE_ACCEPTED, GH_IRQ_STATE_WAIT_LEND)}"

text \<open>What every step does: it rewrites at most one entry, along an edge or without changing its
  state, and keeps a callback wherever the entry is in use.\<close>

definition irq_change :: "'c irq_lend_state \<Rightarrow> 'c irq_lend_state \<Rightarrow> bool" where
  "irq_change s t \<longleftrightarrow> gh_irq_entries t = gh_irq_entries s \<or>
     (\<exists>l e. l < GH_IRQ_LABEL_MAX \<and> gh_irq_entries t = (gh_irq_entries s)[l := e] \<and>
        (ie_state e = ie_state (irq_entry l s) \<or> irq_edge (ie_state (irq_entry l s)) (ie_state e)) \<and>
        (ie_v2_handle e = ie_v2_handle (irq_entry l s) \<and> (ie_state (irq_entry l s) = GH_IRQ_STATE_NONE \<longrightarrow> ie_state e = GH_IRQ_STATE_NONE)
         \<or> ie_v2_handle e \<noteq> None))"

lemma irq_change_refl [simp]: "irq_change s s"
  by (simp add: irq_change_def)

lemma irq_change_fields [simp]:
  "irq_change s (t\<lparr>il_calls := k\<rparr>) = irq_change s t" "irq_change s (t\<lparr>il_rm := c\<rparr>) = irq_change s t"
  "irq_change s (t\<lparr>il_irq := i\<rparr>) = irq_change s t"
  by (simp_all add: irq_change_def)

lemma irq_fields [simp]:
  "irq_entry l (s\<lparr>il_rm := c\<rparr>) = irq_entry l s" "irq_entry l (s\<lparr>il_irq := i\<rparr>) = irq_entry l s"
  "irq_entry l (s\<lparr>il_calls := k\<rparr>) = irq_entry l s"
  "gh_irq_entries (irq_set l e s) = (gh_irq_entries s)[l := e]"
  "irq_set l e (s\<lparr>il_rm := c\<rparr>) = (irq_set l e s)\<lparr>il_rm := c\<rparr>" "irq_set l e (s\<lparr>il_irq := i\<rparr>) = (irq_set l e s)\<lparr>il_irq := i\<rparr>"
  by (simp_all add: irq_entry_def irq_set_def)

lemma irq_change_set:
  assumes "l < GH_IRQ_LABEL_MAX"
    and "ie_state e = ie_state (irq_entry l s) \<or> irq_edge (ie_state (irq_entry l s)) (ie_state e)"
    and "ie_v2_handle e = ie_v2_handle (irq_entry l s) \<and> (ie_state (irq_entry l s) = GH_IRQ_STATE_NONE \<longrightarrow> ie_state e = GH_IRQ_STATE_NONE)
         \<or> ie_v2_handle e \<noteq> None"
  shows "irq_change s (irq_set l e s)"
  unfolding irq_change_def using assms by auto

lemma irq_invoke_change: "irq_invoke cmd l t = Done b u \<Longrightarrow> irq_change s t \<Longrightarrow> irq_change s u"
  by (auto simp: irq_invoke_def split: option.splits)

lemmas irq_change_defs = irq_set_state_def irq_edge_def Let_def

lemma irq_lend_begin_change: "irq_lend_begin label name irq cb d s = Done r t \<Longrightarrow> irq_change s t"
  by (auto simp: irq_lend_begin_def irq_change_defs split: if_splits prod.splits option.splits outcome.splits
      intro!: irq_change_set)

lemma irq_lend_finish_change:
  assumes "irq_lend_finish call label virq s = (r, t)" and "label < GH_IRQ_LABEL_MAX"
  shows "irq_change s t"
  using assms
  by (auto simp: irq_lend_finish_def Let_def split: prod.splits option.splits intro!: irq_change_set)

lemma irq_ops_change:
  "gh_irq_lend label cb s = (r, t) \<Longrightarrow> irq_change s t"
  "gh_irq_lend_notify call kz label s = (r, t) \<Longrightarrow> irq_change s t"
  "gh_irq_accept_notify call kz label s = (r, t) \<Longrightarrow> irq_change s t"
  "gh_irq_release_notify call kz label s = (r, t) \<Longrightarrow> irq_change s t"
  "gh_irq_wait_for_lend_v2 label name cb d s = (r, t) \<Longrightarrow> irq_change s t"
  by (auto simp: gh_irq_lend_def gh_irq_lend_notify_def gh_irq_accept_notify_def gh_irq_release_notify_def
      gh_irq_wait_for_lend_v2_def irq_change_defs split: if_splits prod.splits intro!: irq_change_set)

lemma irq_rm_ops_change:
  "gh_irq_reclaim call label s = (r, t) \<Longrightarrow> irq_change s t"
  "gh_irq_release call label s = (r, t) \<Longrightarrow> irq_change s t"
  "gh_irq_accept call cm label irq s = (r, t) \<Longrightarrow> irq_change s t"
  by (auto simp: gh_irq_reclaim_def gh_irq_release_def gh_irq_accept_def irq_change_defs
      split: if_splits prod.splits option.splits intro!: irq_change_set)

lemma irq_handlers_change:
  "gh_irq_released_accepted_nb_handler cmd h s = Done b t \<Longrightarrow> irq_change s t"
  "gh_irq_lent_nb_handler cmd v h l s = Done b t \<Longrightarrow> irq_change s t"
  by (auto simp: gh_irq_released_accepted_nb_handler_def gh_irq_lent_nb_handler_def irq_change_defs
      split: if_splits option.splits prod.splits dest!: find_upt_Some elim!: irq_invoke_change intro!: irq_change_set)

lemma irq_step_change: "irq_step s t \<Longrightarrow> irq_change s t"
  by (erule irq_stepE) (auto intro: irq_lend_begin_change irq_lend_finish_change irq_ops_change irq_rm_ops_change irq_handlers_change)

lemma irq_change_wf:
  assumes "irq_wf s" and "irq_change s t"
  shows "irq_wf t"
  using assms(2) unfolding irq_change_def
proof (elim disjE exE conjE)
  assume "gh_irq_entries t = gh_irq_entries s"
  then show ?thesis using assms(1) by (simp add: irq_wf_def irq_entry_def)
qed (use assms(1) in \<open>auto simp: irq_wf_def irq_entry_def nth_list_update irq_edge_def\<close>)

lemma irq_reachable_wf: "irq_reachable s \<Longrightarrow> irq_wf s"
proof (induction rule: irq_reachable.induct)
  case (init s)
  then show ?case by (auto simp: irq_wf_def irq_entry_def irq_entry_zero_def)
next
  case (step s t)
  then show ?case using irq_change_wf irq_step_change by blast
qed

section \<open>Properties\<close>


definition irq_demo :: "unit irq_lend_state" where
  "irq_demo = \<lparr>gh_irq_entries = replicate GH_IRQ_LABEL_MAX irq_entry_zero, il_calls = [], il_rm = (),
     il_tbl = [vm_prop_zero, vm_prop_zero\<lparr>vp_vmid := 3\<rparr>, vm_prop_zero\<lparr>vp_vmid := 45\<rparr>] @ replicate 4 vm_prop_none,
     il_irq = \<lparr>gh_rm_free_virq_idr = [], irq_hwirq = [7 \<mapsto> 39]\<rparr>, il_initialized = True\<rparr>"


text \<open>A loan the Resource Manager refuses leaves the label stuck: the call returns the error, but
  the entry stays in the waiting state, so lending or borrowing under the label is refused from
  then on.\<close>

theorem gh_irq_lend_failure_stuck:
  assumes "irq_wf s" and "l < GH_IRQ_LABEL_MAX" and "ie_state (irq_entry l s) = GH_IRQ_STATE_NONE"
    and "gh_rm_irq_to_virq irq (il_irq s) = (0, Some q)" and "gh_rm_get_vmid (il_initialized s) name (il_tbl s) = Done (0, Some v) tbl"
    and "gh_rm_vm_irq_lend call v q (of_nat l) (il_rm s) = ((r, None), c)"
  shows "\<exists>t. gh_irq_lend_v2 call (\<lambda>s. s) l name irq (Some f) d s = Done r t \<and>
     ie_state (irq_entry l t) = GH_IRQ_STATE_WAIT_RELEASE_OR_ACCEPT \<and>
     gh_irq_lend_v2 call' between l name irq (Some f) d t = Done (- EINVAL) t \<and>
     gh_irq_wait_for_lend_v2 l name' (Some f) d t = (- EINVAL, t)"
proof -
  have len: "length (gh_irq_entries s) = 5" using assms(1) by (simp add: irq_wf_def)
  define t where "t = (irq_set l ((irq_entry l s)\<lparr>ie_vmid := v, ie_v2_handle := Some f, ie_data := d,
       ie_state := GH_IRQ_STATE_WAIT_RELEASE_OR_ACCEPT\<rparr>) s)\<lparr>il_rm := c\<rparr>"
  have e: "ie_state (irq_entry l t) = GH_IRQ_STATE_WAIT_RELEASE_OR_ACCEPT" "il_irq t = il_irq s"
    using assms(2) len by (simp_all add: t_def irq_entry_def irq_set_def)
  have v: "ie_vmid (irq_entry l (irq_set l e' s)) = ie_vmid e'" "il_rm (irq_set l e' s) = il_rm s" for e'
    using assms(2) len by (simp_all add: irq_entry_def irq_set_def)
  have "gh_irq_lend_v2 call (\<lambda>s. s) l name irq (Some f) d s = Done r t"
    using assms(2-6) by (simp add: gh_irq_lend_v2_def irq_lend_begin_def irq_lend_finish_def t_def v)
  moreover have "gh_irq_lend_v2 call' between l name irq (Some f) d t = Done (- EINVAL) t"
    "gh_irq_wait_for_lend_v2 l name' (Some f) d t = (- EINVAL, t)"
    using assms(2,4) e by (simp_all add: gh_irq_lend_v2_def irq_lend_begin_def gh_irq_wait_for_lend_v2_def)
  ultimately show ?thesis using e(1) by blast
qed

theorem gh_irq_lend_failure_stuck_witness:
  "\<exists>t. gh_irq_lend_v2 (\<lambda>m r c. ((Some 30, Inl (- EACCES)), c)) (\<lambda>s. s) 2 2 7 (Some 5) 6 irq_demo = Done (- EACCES) t \<and>
     ie_state (irq_entry 2 t) = GH_IRQ_STATE_WAIT_RELEASE_OR_ACCEPT \<and>
     gh_irq_lend_v2 (\<lambda>m r c. ((Some 30, Inl (- EACCES)), c)) (\<lambda>s. s) 2 2 7 (Some 5) 6 t = Done (- EINVAL) t \<and>
     gh_irq_wait_for_lend_v2 2 7 (Some 5) 6 t = (- EINVAL, t)"
  by (rule gh_irq_lend_failure_stuck [where q = 39 and v = 45 and c = "()" and tbl = "il_tbl irq_demo"])
     (simp_all add: irq_demo_def irq_wf_def irq_entry_def irq_entry_zero_def gh_rm_irq_to_virq_def gh_rm_get_vmid_def
       gh_rm_vm_irq_lend_def rm_query_def vm_prop_zero_def nth_append Let_def)

section \<open>A complete loan\<close>

lemma irq_entry_set [simp]:
  "l < length (gh_irq_entries s) \<Longrightarrow> irq_entry l' (irq_set l e s) = (if l' = l then e else irq_entry l' s)"
  by (auto simp: irq_entry_def irq_set_def nth_list_update)

lemma irq_set_fields [simp]:
  "il_rm (irq_set l e s) = il_rm s" "il_irq (irq_set l e s) = il_irq s" "il_tbl (irq_set l e s) = il_tbl s"
  "il_calls (irq_set l e s) = il_calls s" "il_initialized (irq_set l e s) = il_initialized s"
  "length (gh_irq_entries (irq_set l e s)) = length (gh_irq_entries s)"
  "irq_set l e (irq_set l e' s) = irq_set l e s"
  "irq_set l e (s\<lparr>il_calls := k\<rparr>) = (irq_set l e s)\<lparr>il_calls := k\<rparr>"
  by (simp_all add: irq_set_def)

text \<open>The label a notification about handle \<open>h\<close> is for, when the handle is in use once.\<close>

definition irq_handle_unique :: "nat \<Rightarrow> gh_virq_handle_t \<Rightarrow> 'c irq_lend_state \<Rightarrow> bool" where
  "irq_handle_unique l h s \<longleftrightarrow> (\<forall>k<GH_IRQ_LABEL_MAX. k \<noteq> l \<longrightarrow>
     ie_state (irq_entry k s) \<in> {GH_IRQ_STATE_WAIT_RELEASE_OR_ACCEPT, GH_IRQ_STATE_ACCEPTED} \<longrightarrow> ie_virq_handle (irq_entry k s) \<noteq> h)"

lemma irq_released_accepted_eq:
  assumes "l < GH_IRQ_LABEL_MAX" and "ie_state (irq_entry l s) \<in> {GH_IRQ_STATE_WAIT_RELEASE_OR_ACCEPT, GH_IRQ_STATE_ACCEPTED}"
    and "irq_handle_unique l (ie_virq_handle (irq_entry l s)) s" and "cmd \<in> {GH_RM_NOTIF_VM_IRQ_RELEASED, GH_RM_NOTIF_VM_IRQ_ACCEPTED}"
  shows "gh_irq_released_accepted_nb_handler cmd (ie_virq_handle (irq_entry l s)) s =
     irq_invoke cmd l (irq_set_state l (if cmd = GH_RM_NOTIF_VM_IRQ_RELEASED then GH_IRQ_STATE_RELEASED else GH_IRQ_STATE_ACCEPTED) s)"
proof -
  let ?P = "\<lambda>k. ie_state (irq_entry k s) \<in> {GH_IRQ_STATE_WAIT_RELEASE_OR_ACCEPT, GH_IRQ_STATE_ACCEPTED} \<and>
    ie_virq_handle (irq_entry l s) = ie_virq_handle (irq_entry k s)"
  have "List.find ?P [0..<5] = Some l"
    by (rule find_index_unique) (use assms(1-3) in \<open>auto simp: irq_handle_unique_def\<close>)
  then show ?thesis using assms(4) unfolding gh_irq_released_accepted_nb_handler_def by auto
qed

text \<open>The lender's side of a loan, with the Resource Manager's answers as hypotheses.\<close>

lemma irq_lender_cycle:
  assumes len: "length (gh_irq_entries a) = 5" and l: "l < GH_IRQ_LABEL_MAX" and none: "ie_state (irq_entry l a) = GH_IRQ_STATE_NONE"
    and virq: "gh_rm_irq_to_virq irq (il_irq a) = (0, Some q)" and vmid: "gh_rm_get_vmid (il_initialized a) name (il_tbl a) = Done (0, Some v) tbl"
    and lend: "gh_rm_vm_irq_lend call v q (of_nat l) (il_rm a) = ((0, Some h), c)"
    and recl: "gh_rm_vm_irq_reclaim call h c = (0, c')" and uniq: "irq_handle_unique l h a"
  shows "\<exists>a1 a2 a3 a4. gh_irq_lend_v2 call (\<lambda>s. s) l name irq (Some f) d a = Done 0 a1 \<and>
     gh_irq_released_accepted_nb_handler GH_RM_NOTIF_VM_IRQ_ACCEPTED h a1 = Done True a2 \<and>
     gh_irq_released_accepted_nb_handler GH_RM_NOTIF_VM_IRQ_RELEASED h a2 = Done True a3 \<and>
     gh_irq_reclaim call l a3 = (0, a4) \<and> ie_state (irq_entry l a4) = GH_IRQ_STATE_NONE \<and>
     (\<forall>k. k \<noteq> l \<longrightarrow> irq_entry k a4 = irq_entry k a) \<and>
     il_calls a4 = il_calls a @ [\<lparr>ic_fn = f, ic_data = d, ic_cmd = GH_RM_NOTIF_VM_IRQ_ACCEPTED, ic_label = l\<rparr>,
                                 \<lparr>ic_fn = f, ic_data = d, ic_cmd = GH_RM_NOTIF_VM_IRQ_RELEASED, ic_label = l\<rparr>]"
proof -
  let ?e = "\<lambda>st. (irq_entry l a)\<lparr>ie_vmid := v, ie_v2_handle := Some f, ie_data := d, ie_virq_handle := h, ie_state := st\<rparr>"
  let ?k = "\<lambda>cmd. \<lparr>ic_fn = f, ic_data = d, ic_cmd = cmd, ic_label = l\<rparr>"
  define A where "A = (\<lambda>st ks. (irq_set l (?e st) a)\<lparr>il_rm := c, il_calls := ks\<rparr>)"
  have e: "irq_entry k (A st ks) = (if k = l then ?e st else irq_entry k a)" for k st ks
    using len l by (simp add: A_def)
  have u: "irq_handle_unique l (ie_virq_handle (irq_entry l (A st ks))) (A st ks)" for st ks
    using uniq by (auto simp: irq_handle_unique_def e)
  have s: "irq_set_state l st' (A st ks) = A st' ks" for st st' ks
    unfolding irq_set_state_def e by (rule irq_lend_state.equality) (simp_all add: A_def irq_set_def)
  have i: "irq_invoke cmd l (A st ks) = Done True (A st (ks @ [?k cmd]))" for cmd st ks
    by (simp add: irq_invoke_def e) (simp add: A_def)
  have h: "ie_virq_handle (irq_entry l (A st ks)) = h" for st ks by (simp add: e)
  let ?a1 = "A GH_IRQ_STATE_WAIT_RELEASE_OR_ACCEPT (il_calls a)"
  have comm: "x\<lparr>ie_state := st, ie_virq_handle := h\<rparr> = x\<lparr>ie_virq_handle := h, ie_state := st\<rparr>" for x :: gh_irq_entry and st
    by (cases x) simp
  have "gh_irq_lend_v2 call (\<lambda>s. s) l name irq (Some f) d a = Done 0 ?a1"
    using l len none virq vmid lend
    by (simp add: gh_irq_lend_v2_def irq_lend_begin_def irq_lend_finish_def A_def comm)
  moreover have "gh_irq_released_accepted_nb_handler cmd h (A st ks) =
       Done True (A (if cmd = GH_RM_NOTIF_VM_IRQ_RELEASED then GH_IRQ_STATE_RELEASED else GH_IRQ_STATE_ACCEPTED) (ks @ [?k cmd]))"
    if "st \<in> {GH_IRQ_STATE_WAIT_RELEASE_OR_ACCEPT, GH_IRQ_STATE_ACCEPTED}" "cmd \<in> {GH_RM_NOTIF_VM_IRQ_RELEASED, GH_RM_NOTIF_VM_IRQ_ACCEPTED}" for cmd st ks
    using irq_released_accepted_eq [OF l _ u that(2), of st ks] that(1) unfolding s i h by (simp add: e)
  moreover have "gh_irq_reclaim call l (A GH_IRQ_STATE_RELEASED ks) = (0, (A GH_IRQ_STATE_NONE ks)\<lparr>il_rm := c'\<rparr>)" for ks
    using l recl len by (simp add: gh_irq_reclaim_def e Let_def) (simp add: A_def irq_set_state_def)
  ultimately show ?thesis
    by (intro exI [of _ ?a1] exI [of _ "A GH_IRQ_STATE_ACCEPTED (il_calls a @ [?k GH_RM_NOTIF_VM_IRQ_ACCEPTED])"]
      exI [of _ "A GH_IRQ_STATE_RELEASED (il_calls a @ [?k GH_RM_NOTIF_VM_IRQ_ACCEPTED, ?k GH_RM_NOTIF_VM_IRQ_RELEASED])"]
      exI [of _ "(A GH_IRQ_STATE_NONE (il_calls a @ [?k GH_RM_NOTIF_VM_IRQ_ACCEPTED, ?k GH_RM_NOTIF_VM_IRQ_RELEASED]))\<lparr>il_rm := c'\<rparr>"])
      (simp add: e, simp add: A_def)
qed

lemma irq_borrower_cycle:
  assumes len: "length (gh_irq_entries b) = 5" and l: "l < GH_IRQ_LABEL_MAX" and wait: "ie_state (irq_entry l b) = GH_IRQ_STATE_WAIT_LEND"
    and nm: "gh_rm_get_vm_name owner (il_tbl b) = (0, Some n)" and who: "ie_vm_name (irq_entry l b) \<in> {GH_VM_MAX, n}"
    and cb: "ie_v2_handle (irq_entry l b) = Some g"
    and acc: "gh_rm_vm_irq_accept call h (- 1) (il_rm b) = (vq, c)" "0 \<le> vq" and rel: "gh_rm_vm_irq_release call h c = (0, c')"
  shows "\<exists>b1 b2 b3. gh_irq_lent_nb_handler GH_RM_NOTIF_VM_IRQ_LENT owner h (of_nat l) b = Done True b1 \<and>
     gh_irq_accept call cm l (- 1) b1 = (cm (word_of_int vq - 32), b2) \<and> gh_irq_release call l b2 = (0, b3) \<and>
     ie_state (irq_entry l b3) = GH_IRQ_STATE_WAIT_LEND \<and> (\<forall>k. k \<noteq> l \<longrightarrow> irq_entry k b3 = irq_entry k b) \<and>
     il_calls b3 = il_calls b @ [\<lparr>ic_fn = g, ic_data = ie_data (irq_entry l b), ic_cmd = GH_RM_NOTIF_VM_IRQ_LENT, ic_label = l\<rparr>]"
proof -
  let ?k = "\<lparr>ic_fn = g, ic_data = ie_data (irq_entry l b), ic_cmd = GH_RM_NOTIF_VM_IRQ_LENT, ic_label = l\<rparr>"
  let ?e = "(irq_entry l b)\<lparr>ie_vmid := owner, ie_virq_handle := h, ie_state := GH_IRQ_STATE_LENT\<rparr>"
  have ul: "unat (of_nat l :: u32) = l" using l by (simp add: unat_of_nat)
  let ?P = "\<lambda>k. ie_state (irq_entry k b) \<in> {GH_IRQ_STATE_WAIT_LEND, GH_IRQ_STATE_LENT} \<and> k = unat (of_nat l :: u32) \<and>
     (ie_vm_name (irq_entry k b) = GH_VM_MAX \<or> ie_vm_name (irq_entry k b) = n)"
  have "List.find ?P [0..<5] = Some l"
    by (rule find_index_unique) (use l wait who ul in auto)
  then have "gh_irq_lent_nb_handler GH_RM_NOTIF_VM_IRQ_LENT owner h (of_nat l) b =
      Done True ((irq_set l ?e b)\<lparr>il_calls := il_calls b @ [?k]\<rparr>)"
    unfolding gh_irq_lent_nb_handler_def nm using cb len l by (simp add: irq_invoke_def)
  moreover obtain i where i: "gh_get_irq cm (word_of_int vq) (il_irq b) = (cm (word_of_int vq - 32), i)"
    by (auto simp: gh_get_irq_def Let_def)
  then have "gh_irq_accept call cm l (- 1) ((irq_set l ?e b)\<lparr>il_calls := il_calls b @ [?k]\<rparr>) = (cm (word_of_int vq - 32),
      (irq_set l (?e\<lparr>ie_state := GH_IRQ_STATE_ACCEPTED\<rparr>) b)\<lparr>il_calls := il_calls b @ [?k], il_rm := c, il_irq := i\<rparr>)" (is "_ = (_, ?b2)")
    using acc len l by (simp add: gh_irq_accept_def irq_set_state_def Let_def)
  moreover have "gh_irq_release call l ?b2 = (0, (irq_set l (?e\<lparr>ie_state := GH_IRQ_STATE_WAIT_LEND\<rparr>) ?b2)\<lparr>il_rm := c'\<rparr>)"
    using rel len l by (simp add: gh_irq_release_def irq_set_state_def Let_def)
  ultimately show ?thesis using len l by auto
qed

text \<open>C33: A complete loan. When the Resource Manager grants the loan, passes each notification on and
  accepts the release, lending, accepting, releasing and reclaiming all succeed; the lender's
  callback is told of the acceptance and then of the release, the borrower's of the loan; and
  afterwards the lender's label is free, the borrower waits for the next loan, and no other label
  was touched.\<close>

theorem gh_irq_loan_roundtrip:
  assumes "length (gh_irq_entries a) = GH_IRQ_LABEL_MAX" "length (gh_irq_entries b) = GH_IRQ_LABEL_MAX" and "l < GH_IRQ_LABEL_MAX"
    and "ie_state (irq_entry l a) = GH_IRQ_STATE_NONE" "ie_state (irq_entry l b) = GH_IRQ_STATE_WAIT_LEND"
    and "gh_rm_irq_to_virq irq (il_irq a) = (0, Some q)" "gh_rm_get_vmid (il_initialized a) name (il_tbl a) = Done (0, Some v) tbl"
    and "gh_rm_vm_irq_lend callA v q (of_nat l) (il_rm a) = ((0, Some h), ca)" "gh_rm_vm_irq_reclaim callA h ca = (0, ca')"
    and "irq_handle_unique l h a"
    and "gh_rm_get_vm_name owner (il_tbl b) = (0, Some n)" "ie_vm_name (irq_entry l b) \<in> {GH_VM_MAX, n}" "ie_v2_handle (irq_entry l b) = Some g"
    and "gh_rm_vm_irq_accept callB h (- 1) (il_rm b) = (vq, cb)" "0 \<le> vq" and "gh_rm_vm_irq_release callB h cb = (0, cb')"
  shows "\<exists>a1 b1 b2 a2 b3 a3 a4. gh_irq_lend_v2 callA (\<lambda>s. s) l name irq (Some f) d a = Done 0 a1 \<and>
     gh_irq_lent_nb_handler GH_RM_NOTIF_VM_IRQ_LENT owner h (of_nat l) b = Done True b1 \<and>
     gh_irq_accept callB cm l (- 1) b1 = (cm (word_of_int vq - 32), b2) \<and>
     gh_irq_released_accepted_nb_handler GH_RM_NOTIF_VM_IRQ_ACCEPTED h a1 = Done True a2 \<and>
     gh_irq_release callB l b2 = (0, b3) \<and>
     gh_irq_released_accepted_nb_handler GH_RM_NOTIF_VM_IRQ_RELEASED h a2 = Done True a3 \<and>
     gh_irq_reclaim callA l a3 = (0, a4) \<and>
     ie_state (irq_entry l a4) = GH_IRQ_STATE_NONE \<and> ie_state (irq_entry l b3) = GH_IRQ_STATE_WAIT_LEND \<and>
     (\<forall>k. k \<noteq> l \<longrightarrow> irq_entry k a4 = irq_entry k a \<and> irq_entry k b3 = irq_entry k b) \<and>
     map ic_cmd (il_calls a4) = map ic_cmd (il_calls a) @ [GH_RM_NOTIF_VM_IRQ_ACCEPTED, GH_RM_NOTIF_VM_IRQ_RELEASED] \<and>
     map ic_cmd (il_calls b3) = map ic_cmd (il_calls b) @ [GH_RM_NOTIF_VM_IRQ_LENT]"
proof -
  note A = irq_lender_cycle [OF assms(1,3,4,6-10), of f d]
  note B = irq_borrower_cycle [OF assms(2,3,5,11-16), of cm]
  show ?thesis using A B by (elim exE conjE) (intro exI conjI, (assumption | simp)+)
qed

theorem gh_irq_loan_roundtrip_witness:
  "\<exists>a1 b1 a2. gh_irq_lend_v2 (\<lambda>m r c. ((Some 0, Inr (if m = 0x56000051 then (Some (le32 9), 4) else (None, 0))), c)) (\<lambda>s. s) 2 2 7 (Some 5) 6 irq_demo = Done 0 a1 \<and>
     gh_irq_lent_nb_handler GH_RM_NOTIF_VM_IRQ_LENT 3 9 (of_nat 2) (snd (gh_irq_wait_for_lend_v2 2 1 (Some 5) 6 irq_demo)) = Done True b1 \<and>
     gh_irq_released_accepted_nb_handler GH_RM_NOTIF_VM_IRQ_ACCEPTED 9 a1 = Done True a2"
proof -
  let ?A = "(\<lambda>m r c. ((Some 0, Inr (if m = 0x56000051 then (Some (le32 9), 4) else (None, 0))), c)) :: unit rm_caller"
  let ?B = "(\<lambda>m r c. ((Some 0, Inr (if m = 0x56000050 then (Some (le32 40), 4) else (None, 0))), c)) :: unit rm_caller"
  let ?b = "snd (gh_irq_wait_for_lend_v2 2 1 (Some 5) 6 irq_demo)"
  have le: "of_le32 (le32 w) = w" for w using of_le32_le32 [of w "[]"] by simp
  have upt7: "[0..<7] = [0, 1, 2, 3, 4, 5, 6 :: nat]" by (simp add: upt_rec)
  have "gh_rm_get_vm_name 3 (il_tbl ?b) = (0, Some 1)"
    by (simp add: gh_rm_get_vm_name_def irq_demo_def gh_irq_wait_for_lend_v2_def irq_set_def irq_entry_def irq_entry_zero_def
        vm_prop_zero_def upt7)
  note cyc = gh_irq_loan_roundtrip [of irq_demo ?b 2 7 39 2 45 "il_tbl irq_demo" ?A 9 "()" "()" 3 1 5 ?B 40 "()" "()" 5 6 "\<lambda>_. 50", OF _ _ _ _ _ _ _ _ _ _ this]
  have "irq_handle_unique 2 9 irq_demo"
    by (auto simp: irq_handle_unique_def irq_demo_def irq_entry_def irq_entry_zero_def)
  then show ?thesis
    using cyc
    by (simp add: irq_demo_def gh_irq_wait_for_lend_v2_def irq_set_def irq_entry_def irq_entry_zero_def gh_rm_irq_to_virq_def
        gh_rm_get_vmid_def gh_rm_vm_irq_lend_def gh_rm_vm_irq_reclaim_def gh_rm_vm_irq_accept_def gh_rm_vm_irq_release_def
        rm_query_def rm_command_def vm_prop_zero_def le Let_def) blast
qed

end
