(* ===== verification/Mem_Notifier.thy ===== *)
theory Mem_Notifier
  imports Rm_Wire
begin

text \<open>
  Memory notifications (\<^verbatim>\<open>drivers/virt/gunyah/gh_mem_notifier.c\<close>): one handler per tag, invoked when
  the Resource Manager reports shared, released or accepted memory. Handlers and their data are
  numbers, a cookie is the index of its entry, and invocations are logged. Reading the tag past
  the end of a notification's payload is the outcome \<^term>\<open>Fault\<close>.
\<close>

section \<open>Model\<close>

abbreviation (input) GH_MEM_NOTIFIER_TAG_MAX :: nat where "GH_MEM_NOTIFIER_TAG_MAX \<equiv> 7"

record mem_notifier_entry =
  mn_handler :: "nat option"
  mn_data :: nat

record mem_notifier_call =
  mc_handler :: nat
  mc_tag :: nat
  mc_action :: u32
  mc_data :: nat
  mc_msg :: "u8 list"

record mem_notifier_state =
  mem_notifier_entries :: "mem_notifier_entry list"
  mn_calls :: "mem_notifier_call list"

definition gh_mem_notifier_tag_valid :: "u32 \<Rightarrow> bool" where
  "gh_mem_notifier_tag_valid tag \<longleftrightarrow> unat tag < GH_MEM_NOTIFIER_TAG_MAX"

definition gh_mem_notifier_register ::
  "u32 \<Rightarrow> nat option \<Rightarrow> nat \<Rightarrow> mem_notifier_state \<Rightarrow> (int + nat) \<times> mem_notifier_state" where
  "gh_mem_notifier_register tag handler data s =
     (if \<not> gh_mem_notifier_tag_valid tag \<or> handler = None then (Inl (- EINVAL), s)
      else if mn_handler (mem_notifier_entries s ! unat tag) \<noteq> None then (Inl (- EEXIST), s)
      else (Inr (unat tag),
            s\<lparr>mem_notifier_entries := (mem_notifier_entries s)[unat tag := \<lparr>mn_handler = handler, mn_data = data\<rparr>]\<rparr>))"

definition gh_mem_notifier_unregister :: "nat option \<Rightarrow> mem_notifier_state \<Rightarrow> mem_notifier_state" where
  "gh_mem_notifier_unregister cookie s =
     (case cookie of
        None \<Rightarrow> s
      | Some i \<Rightarrow> s\<lparr>mem_notifier_entries := (mem_notifier_entries s)[i := \<lparr>mn_handler = None, mn_data = 0\<rparr>]\<rparr>)"

text \<open>The offset of \<^verbatim>\<open>mem_info_tag\<close> in the three payloads; \<open>None\<close> is a read past the payload.\<close>

definition gh_mem_notifier_get_tag :: "u32 \<Rightarrow> u8 list \<Rightarrow> u32 option" where
  "gh_mem_notifier_get_tag action msg =
     (let off = (if action = GH_RM_NOTIF_MEM_SHARED then 16 else if action = GH_RM_NOTIF_MEM_RELEASED then 8 else 8) in
      if length msg < off + 4 then None else Some (of_le32 (drop off msg)))"

text \<open>The Boolean result is \<^verbatim>\<open>NOTIFY_OK\<close>.\<close>

definition gh_mem_notifier_call ::
  "u32 \<Rightarrow> u8 list \<Rightarrow> mem_notifier_state \<Rightarrow> (bool, mem_notifier_state) outcome" where
  "gh_mem_notifier_call action msg s =
     (if action \<noteq> GH_RM_NOTIF_MEM_SHARED \<and> action \<noteq> GH_RM_NOTIF_MEM_RELEASED \<and> action \<noteq> GH_RM_NOTIF_MEM_ACCEPTED
      then Done False s
      else case gh_mem_notifier_get_tag action msg of
        None \<Rightarrow> Fault
      | Some tag \<Rightarrow>
          if \<not> gh_mem_notifier_tag_valid tag then Done False s
          else let e = mem_notifier_entries s ! unat tag in
            (case mn_handler e of
               None \<Rightarrow> Done True s
             | Some h \<Rightarrow> Done True (s\<lparr>mn_calls := mn_calls s @
                 [\<lparr>mc_handler = h, mc_tag = unat tag, mc_action = action, mc_data = mn_data e, mc_msg = msg\<rparr>]\<rparr>)))"

definition gh_mem_notifier_init :: "int \<Rightarrow> int" where
  "gh_mem_notifier_init reg = reg"

section \<open>Registration\<close>

definition mn_owner :: "mem_notifier_state \<Rightarrow> nat \<Rightarrow> (nat \<times> nat) option" where
  "mn_owner s t = (if t < GH_MEM_NOTIFIER_TAG_MAX
     then map_option (\<lambda>h. (h, mn_data (mem_notifier_entries s ! t))) (mn_handler (mem_notifier_entries s ! t)) else None)"

definition mn_wf :: "mem_notifier_state \<Rightarrow> bool" where
  "mn_wf s \<longleftrightarrow> length (mem_notifier_entries s) = GH_MEM_NOTIFIER_TAG_MAX"

lemma mn_register_spec:
  assumes "mn_wf s"
  shows "case gh_mem_notifier_register tag h d s of
     (Inl e, t) \<Rightarrow> t = s \<and> e < 0
   | (Inr k, t) \<Rightarrow> mn_wf t \<and> h \<noteq> None \<and> k = unat tag \<and> mn_owner s k = None \<and> mn_owner t = (mn_owner s)(k \<mapsto> (the h, d)) \<and>
       mn_calls t = mn_calls s"
  using assms
  by (auto simp: gh_mem_notifier_register_def mn_wf_def mn_owner_def gh_mem_notifier_tag_valid_def fun_eq_iff nth_list_update)

lemma mn_unregister_spec:
  assumes "mn_wf s"
  shows "mn_wf (gh_mem_notifier_unregister (Some k) s) \<and> mn_owner (gh_mem_notifier_unregister (Some k) s) = (mn_owner s)(k := None)"
  using assms
  by (auto simp: gh_mem_notifier_unregister_def mn_wf_def mn_owner_def fun_eq_iff nth_list_update)

lemma mn_call_spec:
  assumes "action \<in> {GH_RM_NOTIF_MEM_SHARED, GH_RM_NOTIF_MEM_RELEASED, GH_RM_NOTIF_MEM_ACCEPTED}"
    and "gh_mem_notifier_get_tag action msg = Some tag"
  shows "gh_mem_notifier_call action msg s = Done (unat tag < GH_MEM_NOTIFIER_TAG_MAX)
     (s\<lparr>mn_calls := mn_calls s @ (case mn_owner s (unat tag) of None \<Rightarrow> []
        | Some (h, d) \<Rightarrow> [\<lparr>mc_handler = h, mc_tag = unat tag, mc_action = action, mc_data = d, mc_msg = msg\<rparr>])\<rparr>)"
  using assms
  by (auto simp: gh_mem_notifier_call_def gh_mem_notifier_tag_valid_def mn_owner_def Let_def split: option.splits)

section \<open>Dispatch\<close>

text \<open>
  The three payloads as the Resource Manager sends them: a shared parcel with its type, owner,
  label and tag, followed by its lists; a released or accepted parcel with the VM that did so and
  the tag.
\<close>

datatype mem_notif =
    Mem_Shared u32 u8 u8 u8 u16 u32 u32 "u8 list"
  | Mem_Released u32 u16 u32
  | Mem_Accepted u32 u16 u32

primrec mem_notif_action :: "mem_notif \<Rightarrow> u32" where
  "mem_notif_action (Mem_Shared mem_handle mem_type trans_type flags owner_vmid label tag rest) = GH_RM_NOTIF_MEM_SHARED"
| "mem_notif_action (Mem_Released mem_handle vmid tag) = GH_RM_NOTIF_MEM_RELEASED"
| "mem_notif_action (Mem_Accepted mem_handle vmid tag) = GH_RM_NOTIF_MEM_ACCEPTED"

primrec mem_info_tag :: "mem_notif \<Rightarrow> u32" where
  "mem_info_tag (Mem_Shared mem_handle mem_type trans_type flags owner_vmid label tag rest) = tag"
| "mem_info_tag (Mem_Released mem_handle vmid tag) = tag"
| "mem_info_tag (Mem_Accepted mem_handle vmid tag) = tag"

primrec mem_notif_bytes :: "mem_notif \<Rightarrow> u8 list" where
  "mem_notif_bytes (Mem_Shared mem_handle mem_type trans_type flags owner_vmid label tag rest) =
     le32 mem_handle @ [mem_type, trans_type, flags, 0] @ le16 owner_vmid @ [0, 0] @ le32 label @ le32 tag @ rest"
| "mem_notif_bytes (Mem_Released mem_handle vmid tag) = le32 mem_handle @ le16 vmid @ [0, 0] @ le32 tag"
| "mem_notif_bytes (Mem_Accepted mem_handle vmid tag) = le32 mem_handle @ le16 vmid @ [0, 0] @ le32 tag"

lemma of_le32_le32_end [simp]: "of_le32 (le32 w) = w"
  using of_le32_le32 [of w "[]"] by simp

lemma drop_after [simp]: "length xs = n \<Longrightarrow> drop n (xs @ ys) = ys"
  by simp

lemma mem_notif_get_tag: "gh_mem_notifier_get_tag (mem_notif_action n) (mem_notif_bytes n) = Some (mem_info_tag n)"
  by (cases n) (simp_all add: gh_mem_notifier_get_tag_def)

lemma mem_notif_checked: "rm_notif_check (mem_notif_action n) (mem_notif_bytes n) (length (mem_notif_bytes n)) = Some (mem_notif_bytes n)"
  by (cases n) (simp_all add: rm_notif_check_def)

lemma mem_notif_action_in: "mem_notif_action n \<in> {GH_RM_NOTIF_MEM_SHARED, GH_RM_NOTIF_MEM_RELEASED, GH_RM_NOTIF_MEM_ACCEPTED}"
  by (cases n) simp_all

text \<open>C32: A handler hears exactly about its own tag: once it is registered for a tag, a second
  registration is refused, and every memory notification the Resource Manager sends, which passes
  the driver's validation unchanged, is handed to this handler if it carries the tag and
  otherwise to the handler of the tag it carries, if there is one. After unregistering the
  handler hears nothing.\<close>

theorem gh_mem_notifier_dispatch:
  assumes "mn_wf s" and "gh_mem_notifier_register tag (Some h) d s = (Inr k, t)"
  shows "gh_mem_notifier_register tag (Some h') d' t = (Inl (- EEXIST), t) \<and>
    rm_notif_check (mem_notif_action n) (mem_notif_bytes n) (length (mem_notif_bytes n)) = Some (mem_notif_bytes n) \<and>
    gh_mem_notifier_call (mem_notif_action n) (mem_notif_bytes n) t =
      Done (unat (mem_info_tag n) < GH_MEM_NOTIFIER_TAG_MAX) (t\<lparr>mn_calls := mn_calls s @
        (case ((mn_owner s)(unat tag \<mapsto> (h, d))) (unat (mem_info_tag n)) of
           None \<Rightarrow> []
         | Some (h', d') \<Rightarrow> [\<lparr>mc_handler = h', mc_tag = unat (mem_info_tag n), mc_action = mem_notif_action n, mc_data = d',
                             mc_msg = mem_notif_bytes n\<rparr>])\<rparr>) \<and>
    (mem_info_tag n = tag \<longrightarrow>
       outcome_state t (gh_mem_notifier_call (mem_notif_action n) (mem_notif_bytes n) (gh_mem_notifier_unregister (Some k) t)) =
         gh_mem_notifier_unregister (Some k) t)"
proof -
  have t: "mn_wf t" "k = unat tag" "mn_owner t = (mn_owner s)(k \<mapsto> (h, d))" "mn_calls t = mn_calls s"
    using mn_register_spec [OF assms(1), where tag = tag and h = "Some h" and d = d] assms(2) by auto
  then have "unat tag < 7" by (metis fun_upd_same mn_owner_def option.distinct(1))
  then have "gh_mem_notifier_register tag (Some h') d' t = (Inl (- EEXIST), t)"
    using t(2,3) by (auto simp: gh_mem_notifier_register_def gh_mem_notifier_tag_valid_def mn_owner_def fun_eq_iff
        split: if_splits dest!: spec [of _ k])
  moreover note mem_notif_checked [of n]
  moreover note mn_call_spec [OF mem_notif_action_in mem_notif_get_tag, of n t, unfolded t(3,4), folded t(2)]
  moreover have "outcome_state t (gh_mem_notifier_call (mem_notif_action n) (mem_notif_bytes n) (gh_mem_notifier_unregister (Some k) t)) =
      gh_mem_notifier_unregister (Some k) t" if "mem_info_tag n = tag"
    using mn_call_spec [OF mem_notif_action_in mem_notif_get_tag, of n "gh_mem_notifier_unregister (Some k) t"]
      mn_unregister_spec [OF t(1), of k] t(2) that by (simp add: outcome_state_def)
  ultimately show ?thesis using t(2) by (intro conjI impI) auto
qed

theorem gh_mem_notifier_dispatch_witness:
  "let s = \<lparr>mem_notifier_entries = replicate 7 \<lparr>mn_handler = None, mn_data = 0\<rparr>, mn_calls = []\<rparr>;
       t = snd (gh_mem_notifier_register 3 (Some 8) 9 s);
       n = Mem_Shared 5 0 2 0 45 7 3 []
   in gh_mem_notifier_register 3 (Some 5) 5 t = (Inl (- EEXIST), t) \<and>
      gh_mem_notifier_call GH_RM_NOTIF_MEM_SHARED (mem_notif_bytes n) t = Done True (t\<lparr>mn_calls :=
        [\<lparr>mc_handler = 8, mc_tag = 3, mc_action = GH_RM_NOTIF_MEM_SHARED, mc_data = 9, mc_msg = mem_notif_bytes n\<rparr>]\<rparr>)"
proof -
  let ?s = "\<lparr>mem_notifier_entries = replicate 7 \<lparr>mn_handler = None, mn_data = 0\<rparr>, mn_calls = []\<rparr>"
  let ?t = "snd (gh_mem_notifier_register 3 (Some 8) 9 ?s)"
  have "gh_mem_notifier_register 3 (Some 8) 9 ?s = (Inr 3, ?t)"
    by (simp add: gh_mem_notifier_register_def gh_mem_notifier_tag_valid_def)
  then show ?thesis
    using gh_mem_notifier_dispatch [of ?s 3 8 9 3 ?t 5 5 "Mem_Shared 5 0 2 0 45 7 3 []"]
    by (simp add: mn_wf_def Let_def del: mem_notif_bytes.simps)
qed

end
