(* ===== verification/Proxy_Sched.thy ===== *)
theory Proxy_Sched
  imports Gh_Errno
begin

text \<open>
  The proxy scheduler (\<^verbatim>\<open>drivers/virt/gunyah/gh_proxy_sched.c\<close>): a table of five VMs with eight vCPUs
  each, filled by the Resource Manager driver's callbacks, and the loop that runs a vCPU in
  the hypervisor. The table is allocated at initialisation; using it before that, or indexing
  past a VM's vCPUs, is the outcome \<^term>\<open>Fault\<close>; the callbacks test \<open>init_done\<close> instead and are
  defined for an allocated table (\<^verbatim>\<open>gh_proxy_sched_exit\<close> frees it when the module goes away). \<open>rq\<close> is what \<^verbatim>\<open>request_irq\<close> returns, \<open>ws\<close> whether
  \<^verbatim>\<open>wakeup_source_register\<close> succeeds, \<open>gv\<close> is \<^verbatim>\<open>gh_rm_get_vmid\<close>. Watchdog hypercalls are logged.
\<close>

section \<open>State\<close>

abbreviation (input) GH_MAX_VMS :: nat where "GH_MAX_VMS \<equiv> 5"
abbreviation (input) GH_MAX_VCPUS_PER_VM :: nat where "GH_MAX_VCPUS_PER_VM \<equiv> 8"
abbreviation (input) GH_MAX_SYSTEM_VCPUS :: int where "GH_MAX_SYSTEM_VCPUS \<equiv> 40"
abbreviation (input) GH_VCPU_STATE_READY :: u64 where "GH_VCPU_STATE_READY \<equiv> 0"
abbreviation (input) GH_VCPU_STATE_EXPECTS_WAKEUP :: u64 where "GH_VCPU_STATE_EXPECTS_WAKEUP \<equiv> 1"
abbreviation (input) GH_VCPU_STATE_POWERED_OFF :: u64 where "GH_VCPU_STATE_POWERED_OFF \<equiv> 2"
abbreviation (input) WATCHDOG_MANAGE_OP_FREEZE :: u16 where "WATCHDOG_MANAGE_OP_FREEZE \<equiv> 0"
abbreviation (input) WATCHDOG_MANAGE_OP_UNFREEZE :: u16 where "WATCHDOG_MANAGE_OP_UNFREEZE \<equiv> 2"
abbreviation (input) NO_VIRQ :: int where "NO_VIRQ \<equiv> - 1"

text \<open>A formatted name is the pair of numbers in it, the empty name is \<open>None\<close>.\<close>

record gh_proxy_vcpu =
  pv_vm :: bool
  pv_cap_id :: gh_capid_t
  pv_idx :: gh_label_t
  pv_abort_sleep :: bool
  pv_wdog_frozen :: bool
  pv_virq :: int
  pv_irq_name :: "(gh_vmid_t \<times> nat) option"
  pv_ws_name :: "(gh_vmid_t \<times> nat) option"
  pv_ws :: bool

record gh_proxy_vm =
  px_id :: gh_vmid_t
  px_vcpu_count :: nat
  px_vcpu :: "gh_proxy_vcpu list"
  px_is_vcpu_info_populated :: bool
  px_is_active :: bool
  px_wdog_cap_id :: gh_capid_t
  px_vpmg_cap_id :: gh_capid_t
  px_susp_res_irq :: int
  px_is_vpm_group_info_populated :: bool

text \<open>\<open>sc_irqs\<close> are the handlers installed for vCPUs (interrupt, slot, vCPU index), \<open>sc_ws\<close> the
  registered wakeup sources.\<close>

record 'h sched_state =
  gh_vms :: "gh_proxy_vm list option"
  nr_vms :: int
  nr_vcpus :: int
  init_done :: bool
  sc_irqs :: "(int \<times> nat \<times> nat) list"
  sc_susp_irqs :: "int list"
  sc_ws :: "(nat \<times> nat) list"
  sc_ops :: "(gh_capid_t \<times> u16) list"
  sc_hyp :: 'h

definition vms :: "'h sched_state \<Rightarrow> gh_proxy_vm list" where
  "vms s = (case gh_vms s of None \<Rightarrow> [] | Some v \<Rightarrow> v)"

definition set_vm :: "nat \<Rightarrow> gh_proxy_vm \<Rightarrow> 'h sched_state \<Rightarrow> 'h sched_state" where
  "set_vm i vm s = s\<lparr>gh_vms := Some ((vms s)[i := vm])\<rparr>"

definition upd_vcpu :: "nat \<Rightarrow> (gh_proxy_vcpu \<Rightarrow> gh_proxy_vcpu) \<Rightarrow> gh_proxy_vm \<Rightarrow> gh_proxy_vm" where
  "upd_vcpu j f vm = vm\<lparr>px_vcpu := (px_vcpu vm)[j := f (px_vcpu vm ! j)]\<rparr>"

section \<open>Looking up\<close>

text \<open>The slot of a VM, the first free slot, or, when neither exists, the last slot.\<close>

fun get_vm_from :: "gh_vmid_t \<Rightarrow> gh_proxy_vm list \<Rightarrow> nat \<Rightarrow> nat" where
  "get_vm_from vmid [] i = i - 1"
| "get_vm_from vmid (vm # r) i = (if vmid = px_id vm \<or> px_id vm = GH_VMID_INVAL then i else get_vm_from vmid r (i + 1))"

definition gh_get_vm :: "gh_vmid_t \<Rightarrow> gh_proxy_vm list \<Rightarrow> nat" where
  "gh_get_vm vmid v = get_vm_from vmid v 0"

definition is_vm_supports_proxy :: "gh_vmid_t \<Rightarrow> gh_proxy_vm list \<Rightarrow> bool" where
  "is_vm_supports_proxy vmid v =
     (let vm = v ! gh_get_vm vmid v in px_id vm \<noteq> GH_VMID_INVAL \<and> 0 < px_vcpu_count vm)"

definition gh_get_vcpu :: "gh_proxy_vm \<Rightarrow> gh_capid_t \<Rightarrow> nat option" where
  "gh_get_vcpu vm cap_id = List.find (\<lambda>i. pv_cap_id (px_vcpu vm ! i) = cap_id) [0..<px_vcpu_count vm]"

text \<open>The names that are cleared are those of entry \<open>vcpu_count\<close>, which is 0 by then.\<close>

definition reset_vcpu :: "gh_proxy_vcpu \<Rightarrow> gh_proxy_vcpu" where
  "reset_vcpu c = c\<lparr>pv_cap_id := GH_CAPID_INVAL, pv_virq := NO_VIRQ, pv_idx := U32_MAX, pv_vm := False,
     pv_abort_sleep := False, pv_wdog_frozen := False, pv_ws := False\<rparr>"

definition gh_reset_vm :: "gh_proxy_vm \<Rightarrow> gh_proxy_vm" where
  "gh_reset_vm vm =
     upd_vcpu 0 (\<lambda>c. c\<lparr>pv_irq_name := None, pv_ws_name := None\<rparr>)
       (vm\<lparr>px_id := GH_VMID_INVAL, px_vcpu_count := 0, px_is_vcpu_info_populated := False, px_is_active := False,
          px_susp_res_irq := NO_VIRQ, px_is_vpm_group_info_populated := False, px_vpmg_cap_id := GH_CAPID_INVAL,
          px_vcpu := map reset_vcpu (px_vcpu vm)\<rparr>)"

definition gh_init_vms :: "gh_proxy_vm list \<Rightarrow> gh_proxy_vm list" where
  "gh_init_vms v = map gh_reset_vm v"

definition gh_vcpu_wake_up :: "gh_proxy_vcpu \<Rightarrow> gh_proxy_vcpu" where
  "gh_vcpu_wake_up c = c\<lparr>pv_abort_sleep := True\<rparr>"

definition gh_vcpu_irq_handler :: "nat \<Rightarrow> nat \<Rightarrow> 'h sched_state \<Rightarrow> 'h sched_state" where
  "gh_vcpu_irq_handler i j s =
     (let vm = vms s ! i in
      if pv_vm (px_vcpu vm ! j) \<and> px_is_vcpu_info_populated vm then set_vm i (upd_vcpu j gh_vcpu_wake_up vm) s else s)"

section \<open>Callbacks of the Resource Manager driver\<close>

definition gh_wdog_manage :: "gh_vmid_t \<Rightarrow> gh_capid_t \<Rightarrow> bool \<Rightarrow> 'h sched_state \<Rightarrow> int \<times> 'h sched_state" where
  "gh_wdog_manage vmid cap_id populate s =
     (if \<not> init_done s then (- ENXIO, s)
      else if \<not> is_vm_supports_proxy vmid (vms s) then (- EINVAL, s)
      else let i = gh_get_vm vmid (vms s) in
        (0, set_vm i ((vms s ! i)\<lparr>px_wdog_cap_id := (if populate then cap_id else GH_CAPID_INVAL)\<rparr>) s))"

definition gh_populate_vm_vcpu_info ::
  "(nat \<Rightarrow> int \<times> gh_vmid_t) \<Rightarrow> (int \<Rightarrow> int) \<Rightarrow> bool \<Rightarrow> gh_vmid_t \<Rightarrow> gh_label_t \<Rightarrow> gh_capid_t \<Rightarrow> int \<Rightarrow>
   'h sched_state \<Rightarrow> int \<times> 'h sched_state" where
  "gh_populate_vm_vcpu_info gv rq ws vmid cpu_idx cap_id virq_num s =
     (if \<not> init_done s then (- ENXIO, s)
      else if (fst (gv 2) = 0 \<and> snd (gv 2) \<noteq> vmid) \<and> (fst (gv 4) = 0 \<and> snd (gv 4) \<noteq> vmid) then (0, s)
      else if GH_MAX_SYSTEM_VCPUS \<le> nr_vcpus s then (- ENXIO, s)
      else if virq_num = 0 \<or> virq_num = NO_VIRQ then (0, s)
      else let i = gh_get_vm vmid (vms s); vm = vms s ! i; n = px_vcpu_count vm in
        if px_is_vcpu_info_populated vm then (0, s)
        else if GH_MAX_VCPUS_PER_VM \<le> n then (- ENXIO, s)
        else if rq virq_num < 0 then
          (rq virq_num, set_vm i (upd_vcpu n (\<lambda>c. c\<lparr>pv_irq_name := None\<rparr>) vm) s)
        else if \<not> ws then
          (rq virq_num, set_vm i (upd_vcpu n (\<lambda>c. c\<lparr>pv_irq_name := None, pv_ws_name := None, pv_ws := False\<rparr>) vm) s)
        else
          (rq virq_num,
           (set_vm i ((upd_vcpu n (\<lambda>c. c\<lparr>pv_irq_name := Some (vmid, n), pv_ws_name := Some (vmid, n), pv_ws := True,
                         pv_cap_id := cap_id, pv_virq := virq_num, pv_idx := cpu_idx, pv_vm := True\<rparr>) vm)
                      \<lparr>px_id := vmid, px_vcpu_count := n + 1\<rparr>) s)
             \<lparr>nr_vcpus := nr_vcpus s + 1, sc_irqs := (virq_num, i, n) # sc_irqs s, sc_ws := (i, n) # sc_ws s\<rparr>))"

text \<open>The second component of the result is what is stored through \<^verbatim>\<open>int *irq\<close>. The pointer to the
  wakeup source stays behind, so a second call for the same vCPU unregisters it twice (\<^term>\<open>Fault\<close>).\<close>

definition gh_unpopulate_vm_vcpu_info ::
  "gh_vmid_t \<Rightarrow> gh_label_t \<Rightarrow> gh_capid_t \<Rightarrow> 'h sched_state \<Rightarrow> (int \<times> int option, 'h sched_state) outcome" where
  "gh_unpopulate_vm_vcpu_info vmid cpu_idx cap_id s =
     (if \<not> init_done s then Done (- ENXIO, None) s
      else if \<not> is_vm_supports_proxy vmid (vms s) then Done (0, None) s
      else let i = gh_get_vm vmid (vms s); vm = vms s ! i in
        if \<not> px_is_vcpu_info_populated vm then Done (0, None) s
        else case gh_get_vcpu vm cap_id of
          None \<Rightarrow> Done (0, None) s
        | Some j \<Rightarrow>
            let virq = pv_virq (px_vcpu vm ! j) in
            if pv_ws (px_vcpu vm ! j) \<and> (i, j) \<notin> set (sc_ws s) then Fault
            else Done (0, Some virq)
             ((set_vm i (upd_vcpu j (\<lambda>c. c\<lparr>pv_virq := NO_VIRQ\<rparr>) vm) s)
               \<lparr>nr_vcpus := (if nr_vcpus s \<noteq> 0 then nr_vcpus s - 1 else 0),
                sc_irqs := removeAll (virq, i, j) (sc_irqs s), sc_ws := removeAll (i, j) (sc_ws s)\<rparr>))"

text \<open>The last VM with the interrupt wins; \<open>junk\<close> is the uninitialised variable of the handler.\<close>

definition gh_get_vpmg_cap_id :: "int \<Rightarrow> gh_capid_t \<Rightarrow> gh_proxy_vm list \<Rightarrow> gh_capid_t" where
  "gh_get_vpmg_cap_id irq junk v = fold (\<lambda>vm c. if px_susp_res_irq vm = irq then px_vpmg_cap_id vm else c) v junk"

definition gh_susp_res_irq_handler ::
  "(gh_capid_t \<Rightarrow> int \<times> u64) \<Rightarrow> int \<Rightarrow> gh_capid_t \<Rightarrow> 'h sched_state \<Rightarrow> u64 option" where
  "gh_susp_res_irq_handler get_state irq junk s =
     (case get_state (gh_get_vpmg_cap_id irq junk (vms s)) of (err, st) \<Rightarrow> if err \<noteq> GH_ERROR_OK then None else Some st)"

definition gh_populate_vm_vpm_grp_info ::
  "(int \<Rightarrow> int) \<Rightarrow> gh_vmid_t \<Rightarrow> gh_capid_t \<Rightarrow> int \<Rightarrow> 'h sched_state \<Rightarrow> int \<times> 'h sched_state" where
  "gh_populate_vm_vpm_grp_info rq vmid cap_id virq_num s =
     (if \<not> init_done s then (- ENXIO, s)
      else if \<not> is_vm_supports_proxy vmid (vms s) then (0, s)
      else if virq_num < 0 then (- EINVAL, s)
      else let i = gh_get_vm vmid (vms s); vm = vms s ! i in
        if px_is_vpm_group_info_populated vm then (0, s)
        else if rq virq_num < 0 then (rq virq_num, s)
        else (rq virq_num,
              (set_vm i (vm\<lparr>px_vpmg_cap_id := cap_id, px_susp_res_irq := virq_num, px_is_vpm_group_info_populated := True\<rparr>) s)
                \<lparr>sc_susp_irqs := virq_num # sc_susp_irqs s\<rparr>))"

definition gh_unpopulate_vm_vpm_grp_info ::
  "gh_vmid_t \<Rightarrow> 'h sched_state \<Rightarrow> (int \<times> int option) \<times> 'h sched_state" where
  "gh_unpopulate_vm_vpm_grp_info vmid s =
     (if \<not> init_done s then ((- ENXIO, None), s)
      else if \<not> is_vm_supports_proxy vmid (vms s) then ((0, None), s)
      else let i = gh_get_vm vmid (vms s); vm = vms s ! i in
        if \<not> px_is_vpm_group_info_populated vm then ((0, None), s)
        else ((0, Some (px_susp_res_irq vm)),
              (set_vm i (vm\<lparr>px_susp_res_irq := NO_VIRQ, px_is_vpm_group_info_populated := False\<rparr>) s)
                \<lparr>sc_susp_irqs := remove1 (px_susp_res_irq vm) (sc_susp_irqs s)\<rparr>))"

definition gh_populate_all_res_info :: "gh_vmid_t \<Rightarrow> bool \<Rightarrow> 'h sched_state \<Rightarrow> 'h sched_state" where
  "gh_populate_all_res_info vmid res_populated s =
     (if \<not> init_done s then s
      else if \<not> is_vm_supports_proxy vmid (vms s) then s
      else if int GH_MAX_VMS \<le> nr_vms s then s
      else let i = gh_get_vm vmid (vms s); vm = vms s ! i in
        if res_populated \<and> \<not> px_is_vcpu_info_populated vm then
          (set_vm i (vm\<lparr>px_is_vcpu_info_populated := True, px_is_active := True\<rparr>) s)\<lparr>nr_vms := nr_vms s + 1\<rparr>
        else if \<not> res_populated \<and> px_is_vcpu_info_populated vm then
          (set_vm i (gh_reset_vm vm) s)\<lparr>nr_vms := (if nr_vms s \<noteq> 0 then nr_vms s - 1 else 0)\<rparr>
        else s)"

section \<open>Interface of the VM driver\<close>

definition gh_get_nr_vcpus :: "gh_vmid_t \<Rightarrow> 'h sched_state \<Rightarrow> (nat, 'h sched_state) outcome" where
  "gh_get_nr_vcpus vmid s =
     (case gh_vms s of
        None \<Rightarrow> Fault
      | Some v \<Rightarrow> let vm = v ! gh_get_vm vmid v in
          Done (if px_is_vcpu_info_populated vm then px_vcpu_count vm else 0) s)"

definition gh_wakeup_all_vcpus :: "gh_vmid_t \<Rightarrow> 'h sched_state \<Rightarrow> (unit, 'h sched_state) outcome" where
  "gh_wakeup_all_vcpus vmid s =
     (case gh_vms s of
        None \<Rightarrow> Fault
      | Some v \<Rightarrow> let i = gh_get_vm vmid v; vm = v ! i in
          if px_is_active vm
          then Done () (set_vm i (vm\<lparr>px_is_active := False,
                 px_vcpu := map gh_vcpu_wake_up (take (px_vcpu_count vm) (px_vcpu vm)) @ drop (px_vcpu_count vm) (px_vcpu vm)\<rparr>) s)
          else Done () s)"

definition gh_vm_supports_proxy_sched :: "gh_vmid_t \<Rightarrow> 'h sched_state \<Rightarrow> (bool, 'h sched_state) outcome" where
  "gh_vm_supports_proxy_sched vmid s =
     (case gh_vms s of
        None \<Rightarrow> Fault
      | Some v \<Rightarrow> let vm = v ! gh_get_vm vmid v in Done (px_is_vcpu_info_populated vm \<and> 0 < px_vcpu_count vm) s)"

section \<open>Running a vCPU\<close>

text \<open>
  What happens during one iteration of the loop: whether the scheduler wants the CPU at the two
  tests, the events while the vCPU sleeps, what other contexts do to the state, and whether a
  signal is pending at the end.
\<close>

record 'h vcpu_iter =
  vi_resched :: bool
  vi_sleep :: "('h sched_state \<Rightarrow> 'h sched_state) task_event list"
  vi_env :: "'h sched_state \<Rightarrow> 'h sched_state"
  vi_signal :: bool

type_synonym 'h vcpu_hcall = "gh_capid_t \<Rightarrow> u64 \<Rightarrow> u64 \<Rightarrow> u64 \<Rightarrow> 'h \<Rightarrow> (int \<times> u64) \<times> 'h"

definition vcpu_of :: "nat \<Rightarrow> nat \<Rightarrow> 'h sched_state \<Rightarrow> gh_proxy_vcpu" where
  "vcpu_of i j s = px_vcpu (vms s ! i) ! j"

definition set_vcpu :: "nat \<Rightarrow> nat \<Rightarrow> (gh_proxy_vcpu \<Rightarrow> gh_proxy_vcpu) \<Rightarrow> 'h sched_state \<Rightarrow> 'h sched_state" where
  "set_vcpu i j f s = set_vm i (upd_vcpu j f (vms s ! i)) s"

definition wdog_op :: "nat \<Rightarrow> nat \<Rightarrow> u16 \<Rightarrow> bool \<Rightarrow> 'h sched_state \<Rightarrow> 'h sched_state" where
  "wdog_op i j opn frozen s =
     set_vcpu i j (\<lambda>c. c\<lparr>pv_wdog_frozen := frozen\<rparr>) (s\<lparr>sc_ops := sc_ops s @ [(px_wdog_cap_id (vms s ! i), opn)]\<rparr>)"

text \<open>\<^verbatim>\<open>gh_vcpu_sleep\<close>: \<open>None\<close> while the vCPU sleeps on, else the state after it was woken.\<close>

definition gh_vcpu_sleep ::
  "nat \<Rightarrow> nat \<Rightarrow> ('h sched_state \<Rightarrow> 'h sched_state) task_event list \<Rightarrow> 'h sched_state \<Rightarrow> (bool, 'h sched_state) outcome" where
  "gh_vcpu_sleep i j es s =
     (case wait_event_interruptible (\<lambda>f. f) (\<lambda>s. pv_abort_sleep (vcpu_of i j s)) s es of
        Woken t _ \<Rightarrow> Done False t | Interrupted t _ \<Rightarrow> Done True t | Asleep t \<Rightarrow> Blocked t)"

text \<open>The part of an iteration up to the hypercall's return: the result and the vCPU's state.\<close>

definition vcpu_enter ::
  "'h vcpu_hcall \<Rightarrow> nat \<Rightarrow> nat \<Rightarrow> u64 \<times> u64 \<times> u64 \<Rightarrow> bool \<Rightarrow> 'h sched_state \<Rightarrow> (int \<times> u64) \<times> 'h sched_state" where
  "vcpu_enter hc i j rd resched s =
     (let s = set_vcpu i j (\<lambda>c. c\<lparr>pv_abort_sleep := False\<rparr>) s;
          s = (if pv_wdog_frozen (vcpu_of i j s) then wdog_op i j WATCHDOG_MANAGE_OP_UNFREEZE False s else s)
      in case hc (pv_cap_id (vcpu_of i j s)) (fst rd) (fst (snd rd)) (snd (snd rd)) (sc_hyp s) of
           ((ret, st), h) \<Rightarrow>
             let s = s\<lparr>sc_hyp := h\<rparr> in
             ((ret, st), if ret = GH_ERROR_OK \<and> st = GH_VCPU_STATE_READY \<and> resched
                         then wdog_op i j WATCHDOG_MANAGE_OP_FREEZE True s else s))"

fun vcpu_run_loop ::
  "'h vcpu_hcall \<Rightarrow> nat \<Rightarrow> nat \<Rightarrow> u64 \<times> u64 \<times> u64 \<Rightarrow> 'h vcpu_iter list \<Rightarrow> 'h sched_state \<Rightarrow> (int, 'h sched_state) outcome" where
  "vcpu_run_loop hc i j rd [] s = Blocked s"
| "vcpu_run_loop hc i j rd (it # its) s =
     (case vcpu_enter hc i j rd (vi_resched it) s of
        ((ret, st), s) \<Rightarrow>
          obind (if ret = GH_ERROR_OK \<and> (st = GH_VCPU_STATE_EXPECTS_WAKEUP \<or> st = GH_VCPU_STATE_POWERED_OFF)
                 then gh_vcpu_sleep i j (vi_sleep it) s else Done False s)
            (\<lambda>interrupted s.
               let s = vi_env it s in
               if interrupted \<or> vi_signal it
               then Done (- ERESTARTSYS)
                      (if pv_wdog_frozen (vcpu_of i j s) then s else wdog_op i j WATCHDOG_MANAGE_OP_FREEZE True s)
               else if (ret = GH_ERROR_OK \<or> ret = GH_ERROR_RETRY) \<and> px_is_active (vms s ! i)
               then vcpu_run_loop hc i j rd its s
               else Done ret s))"

definition gh_vcpu_run ::
  "'h vcpu_hcall \<Rightarrow> gh_vmid_t \<Rightarrow> nat \<Rightarrow> u64 \<times> u64 \<times> u64 \<Rightarrow> 'h vcpu_iter list \<Rightarrow> 'h sched_state \<Rightarrow> (int, 'h sched_state) outcome" where
  "gh_vcpu_run hc vmid vcpu_id rd its s =
     (case gh_vms s of
        None \<Rightarrow> Fault
      | Some v \<Rightarrow>
          let i = gh_get_vm vmid v; vm = v ! i in
          if \<not> px_is_active vm then Done (- EPERM) s
          else if length (px_vcpu vm) \<le> vcpu_id then Fault
          else if pv_cap_id (px_vcpu vm ! vcpu_id) = GH_CAPID_INVAL then Done (- EPERM) s
          else obind (vcpu_run_loop hc i vcpu_id rd its s) (\<lambda>ret s.
                 Done (if ret \<noteq> - ERESTARTSYS then gh_remap_error ret else ret) s))"

section \<open>Initialisation\<close>

definition vcpu_zero :: gh_proxy_vcpu where
  "vcpu_zero = \<lparr>pv_vm = False, pv_cap_id = 0, pv_idx = 0, pv_abort_sleep = False, pv_wdog_frozen = False, pv_virq = 0,
     pv_irq_name = None, pv_ws_name = None, pv_ws = False\<rparr>"

definition vm_zero :: gh_proxy_vm where
  "vm_zero = \<lparr>px_id = 0, px_vcpu_count = 0, px_vcpu = replicate GH_MAX_VCPUS_PER_VM vcpu_zero, px_is_vcpu_info_populated = False,
     px_is_active = False, px_wdog_cap_id = 0, px_vpmg_cap_id = 0, px_susp_res_irq = 0, px_is_vpm_group_info_populated = False\<rparr>"

text \<open>\<open>regs\<close> are the results of registering the six callbacks, in order.\<close>

definition gh_proxy_sched_reg_rm_cbs :: "int list \<Rightarrow> int" where
  "gh_proxy_sched_reg_rm_cbs regs = (case List.find (\<lambda>r. r \<noteq> 0) regs of None \<Rightarrow> 0 | Some r \<Rightarrow> r)"

definition gh_proxy_sched_init :: "bool \<Rightarrow> int list \<Rightarrow> 'h sched_state \<Rightarrow> int \<times> 'h sched_state" where
  "gh_proxy_sched_init kz regs s =
     (if \<not> kz then (- ENOMEM, s\<lparr>gh_vms := None\<rparr>)
      else let ret = gh_proxy_sched_reg_rm_cbs regs in
        if ret \<noteq> 0 then (ret, s\<lparr>gh_vms := None\<rparr>)
        else (0, s\<lparr>gh_vms := Some (gh_init_vms (replicate GH_MAX_VMS vm_zero)), init_done := True\<rparr>))"

definition gh_proxy_sched_exit :: "'h sched_state \<Rightarrow> 'h sched_state" where
  "gh_proxy_sched_exit s = s\<lparr>gh_vms := None\<rparr>"

end
