(* ===== verification/Proxy_Sched_Correct.thy ===== *)
theory Proxy_Sched_Correct
  imports Proxy_Sched
begin

text \<open>
  Properties of the proxy scheduler: registering and removing the vCPUs of a VM is a round trip,
  the watchdog hypercalls of a running vCPU always alternate, and the search for a VM's slot
  loses VMs behind a hole and cannot release the fifth one.
\<close>

section \<open>The table\<close>

definition vms_ok :: "gh_proxy_vm list \<Rightarrow> bool" where
  "vms_ok v \<longleftrightarrow> length v = GH_MAX_VMS \<and> (\<forall>vm\<in>set v. length (px_vcpu vm) = GH_MAX_VCPUS_PER_VM)"

lemma get_vm_from_bound: "0 < k + length v \<Longrightarrow> get_vm_from vmid v k < k + length v"
  by (induction vmid v k rule: get_vm_from.induct) auto

lemma gh_get_vm_less: "v \<noteq> [] \<Longrightarrow> gh_get_vm vmid v < length v"
  using get_vm_from_bound [of 0 v vmid] by (simp add: gh_get_vm_def)

lemma get_vm_from_first:
  assumes "n < length v" and "vmid = px_id (v ! n) \<or> px_id (v ! n) = GH_VMID_INVAL"
    and "\<forall>m<n. px_id (v ! m) \<noteq> vmid \<and> px_id (v ! m) \<noteq> GH_VMID_INVAL"
  shows "get_vm_from vmid v k = k + n"
  using assms
proof (induction vmid v k arbitrary: n rule: get_vm_from.induct)
  case (2 vmid vm r k)
  show ?case
  proof (cases n)
    case 0
    then show ?thesis using 2 by auto
  next
    case (Suc m)
    have "px_id vm \<noteq> vmid" "px_id vm \<noteq> GH_VMID_INVAL" using 2(4) Suc by auto
    moreover have "get_vm_from vmid r (k + 1) = k + 1 + m"
    proof (rule 2(1))
      show "\<not> (vmid = px_id vm \<or> px_id vm = GH_VMID_INVAL)" using calculation by auto
      show "m < length r" using 2(2) Suc by simp
      show "vmid = px_id (r ! m) \<or> px_id (r ! m) = GH_VMID_INVAL" using 2(3) Suc by simp
      show "\<forall>q<m. px_id (r ! q) \<noteq> vmid \<and> px_id (r ! q) \<noteq> GH_VMID_INVAL"
        using 2(4) Suc by (metis Suc_less_eq nth_Cons_Suc)
    qed
    ultimately show ?thesis using Suc by auto
  qed
qed simp

text \<open>The search stops at the first slot that is the VM's or free.\<close>

definition first_slot :: "gh_vmid_t \<Rightarrow> nat \<Rightarrow> gh_proxy_vm list \<Rightarrow> bool" where
  "first_slot vmid n v \<longleftrightarrow> n < length v \<and> (vmid = px_id (v ! n) \<or> px_id (v ! n) = GH_VMID_INVAL) \<and>
     (\<forall>m<n. px_id (v ! m) \<noteq> vmid \<and> px_id (v ! m) \<noteq> GH_VMID_INVAL)"

lemma gh_get_vm_first: "first_slot vmid n v \<Longrightarrow> gh_get_vm vmid v = n"
  using get_vm_from_first [of n v vmid 0] by (auto simp: first_slot_def gh_get_vm_def)

lemma first_slot_upd: "first_slot vmid n v \<Longrightarrow> px_id vm \<in> {vmid, GH_VMID_INVAL} \<Longrightarrow> first_slot vmid n (v[n := vm])"
  by (auto simp: first_slot_def)

lemma vms_set [simp]:
  "vms (set_vm i vm s) = (vms s)[i := vm]" "gh_vms (set_vm i vm s) = Some ((vms s)[i := vm])"
  "init_done (set_vm i vm s) = init_done s" "nr_vms (set_vm i vm s) = nr_vms s" "nr_vcpus (set_vm i vm s) = nr_vcpus s"
  "sc_irqs (set_vm i vm s) = sc_irqs s" "sc_ws (set_vm i vm s) = sc_ws s" "sc_ops (set_vm i vm s) = sc_ops s"
  "sc_susp_irqs (set_vm i vm s) = sc_susp_irqs s" "sc_hyp (set_vm i vm s) = sc_hyp s"
  by (simp_all add: set_vm_def vms_def)

lemma vms_fields [simp]:
  "vms (s\<lparr>nr_vms := n\<rparr>) = vms s" "vms (s\<lparr>nr_vcpus := n\<rparr>) = vms s" "vms (s\<lparr>sc_irqs := x\<rparr>) = vms s" "vms (s\<lparr>sc_ws := w\<rparr>) = vms s"
  "vms (s\<lparr>sc_ops := ops\<rparr>) = vms s" "vms (s\<lparr>sc_hyp := h\<rparr>) = vms s"
  by (simp_all add: vms_def)

section \<open>Slots\<close>

text \<open>The search for a VM's slot stops at the first free slot: as soon as a VM in an earlier slot
  has been removed, a VM in a later slot is not found any more. It counts no vCPUs, its vCPUs
  cannot run, and removing its resources does nothing.\<close>

theorem gh_get_vm_hole_loses_vm:
  assumes "gh_vms s = Some v" "vms_ok v" and "i < j" "j < GH_MAX_VMS" and "px_id (v ! j) = vmid" "vmid \<noteq> GH_VMID_INVAL"
    and "first_slot vmid' i v" "px_id (v ! i) = vmid'" and "init_done s" "0 < px_vcpu_count (v ! i)" "px_is_vcpu_info_populated (v ! i)"
    and "nr_vms s < int GH_MAX_VMS" and "\<forall>m<i. px_id (v ! m) \<noteq> vmid"
    and "t = gh_populate_all_res_info vmid' False s" and "vmid' \<noteq> GH_VMID_INVAL"
  shows "px_id (vms t ! j) = vmid \<and> gh_get_nr_vcpus vmid t = Done 0 t \<and> gh_vcpu_run hc vmid n rd its t = Done (- EPERM) t \<and>
     gh_unpopulate_vm_vcpu_info vmid idx cap t = Done (0, None) t \<and> gh_populate_all_res_info vmid False t = t"
proof -
  have len: "length v = 5" "length (px_vcpu (v ! i)) = 8" using assms(2-4) by (auto simp: vms_ok_def)
  have vs: "vms s = v" using assms(1) by (simp add: vms_def)
  have g: "gh_get_vm vmid' v = i" by (rule gh_get_vm_first [OF assms(7)])
  have "is_vm_supports_proxy vmid' v"
    using assms(8,10,15) by (simp add: is_vm_supports_proxy_def g)
  then have t: "t = (set_vm i (gh_reset_vm (v ! i)) s)\<lparr>nr_vms := (if nr_vms s \<noteq> 0 then nr_vms s - 1 else 0)\<rparr>"
    using assms(9,11,12,14) by (simp add: gh_populate_all_res_info_def g vs)
  let ?w = "v[i := gh_reset_vm (v ! i)]"
  have w: "vms t = ?w" "gh_vms t = Some ?w" "init_done t" using assms(9) by (simp_all add: t vs)
  have r: "px_id (gh_reset_vm (v ! i)) = GH_VMID_INVAL" "px_vcpu_count (gh_reset_vm (v ! i)) = 0" "\<not> px_is_active (gh_reset_vm (v ! i))"
    "\<not> px_is_vcpu_info_populated (gh_reset_vm (v ! i))" by (simp_all add: gh_reset_vm_def upd_vcpu_def)
  have "first_slot vmid i ?w"
    using assms(3,4,7,13) len r by (auto simp: first_slot_def)
  then have g': "gh_get_vm vmid ?w = i" by (rule gh_get_vm_first)
  have i: "?w ! i = gh_reset_vm (v ! i)" using assms(3,4) len by simp
  have no: "\<not> is_vm_supports_proxy vmid ?w" using r by (simp add: is_vm_supports_proxy_def g' i)
  show ?thesis using assms(3-5) w r
    by (simp add: gh_get_nr_vcpus_def gh_vcpu_run_def gh_unpopulate_vm_vcpu_info_def gh_populate_all_res_info_def no g' i)
qed

definition sched_demo_vm :: "gh_vmid_t \<Rightarrow> gh_proxy_vm" where
  "sched_demo_vm vmid = vm_zero\<lparr>px_id := vmid, px_vcpu_count := 1, px_is_vcpu_info_populated := True, px_is_active := True\<rparr>"

definition sched_demo :: "gh_vmid_t list \<Rightarrow> unit sched_state" where
  "sched_demo ids = \<lparr>gh_vms = Some (map sched_demo_vm ids @ replicate (5 - length ids) (gh_reset_vm vm_zero)), nr_vms = int (length ids),
     nr_vcpus = int (length ids), init_done = True, sc_irqs = [], sc_susp_irqs = [], sc_ws = [], sc_ops = [], sc_hyp = ()\<rparr>"

theorem gh_get_vm_hole_loses_vm_witness:
  "\<forall>hc its. gh_vcpu_run hc 49 0 (0, 0, 0) its (gh_populate_all_res_info 45 False (sched_demo [45, 49])) =
     Done (- EPERM) (gh_populate_all_res_info 45 False (sched_demo [45, 49]))"
proof (intro allI)
  fix hc :: "unit vcpu_hcall" and its
  have "vms_ok (map sched_demo_vm [45, 49] @ replicate 3 (gh_reset_vm vm_zero))"
    by (auto simp: vms_ok_def sched_demo_vm_def vm_zero_def gh_reset_vm_def upd_vcpu_def)
  then show "gh_vcpu_run hc 49 0 (0, 0, 0) its (gh_populate_all_res_info 45 False (sched_demo [45, 49])) =
     Done (- EPERM) (gh_populate_all_res_info 45 False (sched_demo [45, 49]))"
    using gh_get_vm_hole_loses_vm [of "sched_demo [45, 49]" "map sched_demo_vm [45, 49] @ replicate 3 (gh_reset_vm vm_zero)" 0 1 49 45
      "gh_populate_all_res_info 45 False (sched_demo [45, 49])" hc 0 "(0, 0, 0)" its 0 0]
    by (simp add: sched_demo_def first_slot_def sched_demo_vm_def)
qed

text \<open>The fifth VM can never be removed: while five VMs are registered, the callback that says that
  a VM's resources are gone returns before it does anything, so no slot is ever freed again; and
  a VM that is not in the full table is taken for the one in the last slot.\<close>

theorem gh_proxy_sched_full_stuck:
  assumes "gh_vms s = Some v" and "length v = GH_MAX_VMS" and "nr_vms s = int GH_MAX_VMS" and "init_done s"
    and "\<forall>vm\<in>set v. px_id vm \<noteq> GH_VMID_INVAL \<and> px_id vm \<noteq> other \<and> 0 < px_vcpu_count vm"
  shows "gh_populate_all_res_info vmid b s = s \<and> gh_get_vm other v = GH_MAX_VMS - 1 \<and>
     gh_wdog_manage other cap True s = (0, set_vm (GH_MAX_VMS - 1) ((v ! (GH_MAX_VMS - 1))\<lparr>px_wdog_cap_id := cap\<rparr>) s)"
proof -
  have "get_vm_from other w k = k + length w - 1" if "\<forall>vm\<in>set w. px_id vm \<noteq> GH_VMID_INVAL \<and> px_id vm \<noteq> other" for w k
    using that by (induction w arbitrary: k) auto
  from this [of v 0] have g: "gh_get_vm other v = 4" using assms(2,5) by (simp add: gh_get_vm_def)
  have "v ! 4 \<in> set v" using assms(2) by simp
  then have "is_vm_supports_proxy other v" using assms(5) by (simp add: is_vm_supports_proxy_def g)
  then show ?thesis using assms(1,3,4) g by (simp add: gh_populate_all_res_info_def gh_wdog_manage_def vms_def)
qed

theorem gh_proxy_sched_full_stuck_witness:
  "gh_populate_all_res_info 43 False (sched_demo [41, 42, 43, 44, 45]) = sched_demo [41, 42, 43, 44, 45] \<and>
   fst (gh_wdog_manage 99 7 True (sched_demo [41, 42, 43, 44, 45])) = 0"
  using gh_proxy_sched_full_stuck [of "sched_demo [41, 42, 43, 44, 45]" "map sched_demo_vm [41, 42, 43, 44, 45]" 99 43 False 7]
  by (simp add: sched_demo_def sched_demo_vm_def)

section \<open>Watchdog hypercalls\<close>

text \<open>The effect of a sequence of watchdog hypercalls: \<open>None\<close> when one of them freezes a frozen
  watchdog or unfreezes a running one.\<close>

fun wdog_run :: "bool \<Rightarrow> u16 list \<Rightarrow> bool option" where
  "wdog_run frozen [] = Some frozen"
| "wdog_run frozen (x # ops) =
     (if x = WATCHDOG_MANAGE_OP_FREEZE \<and> \<not> frozen then wdog_run True ops
      else if x = WATCHDOG_MANAGE_OP_UNFREEZE \<and> frozen then wdog_run False ops
      else None)"

lemma wdog_run_append: "wdog_run f (a @ b) = (case wdog_run f a of None \<Rightarrow> None | Some g \<Rightarrow> wdog_run g b)"
  by (induction f a rule: wdog_run.induct) auto

text \<open>What a context that runs concurrently must leave alone: the flag of this vCPU and the log.\<close>

definition wdog_view :: "nat \<Rightarrow> nat \<Rightarrow> 'h sched_state \<Rightarrow> bool \<times> (gh_capid_t \<times> u16) list \<times> bool" where
  "wdog_view i j s = (pv_wdog_frozen (vcpu_of i j s), sc_ops s, i < length (vms s) \<and> j < length (px_vcpu (vms s ! i)))"

definition vcpu_iter_ok :: "nat \<Rightarrow> nat \<Rightarrow> 'h vcpu_iter \<Rightarrow> bool" where
  "vcpu_iter_ok i j it \<longleftrightarrow> (\<forall>s. wdog_view i j (vi_env it s) = wdog_view i j s) \<and>
     (\<forall>f. Env f \<in> set (vi_sleep it) \<longrightarrow> (\<forall>s. wdog_view i j (f s) = wdog_view i j s))"

text \<open>\<open>s\<close> is in step with a history that began with the flag \<open>f\<close> and the log \<open>l\<close>.\<close>

definition wdog_sync :: "bool \<Rightarrow> (gh_capid_t \<times> u16) list \<Rightarrow> nat \<Rightarrow> nat \<Rightarrow> 'h sched_state \<Rightarrow> bool" where
  "wdog_sync f l i j s \<longleftrightarrow> (\<exists>new. sc_ops s = l @ new \<and> wdog_run f (map snd new) = Some (pv_wdog_frozen (vcpu_of i j s))) \<and>
     i < length (vms s) \<and> j < length (px_vcpu (vms s ! i))"

lemma wdog_sync_view: "wdog_view i j t = wdog_view i j s \<Longrightarrow> wdog_sync f l i j s \<Longrightarrow> wdog_sync f l i j t"
  by (auto simp: wdog_view_def wdog_sync_def)

lemma vcpu_of_set [simp]:
  assumes "i < length (vms s)" "j < length (px_vcpu (vms s ! i))"
  shows "vcpu_of i j (set_vcpu i j g s) = g (vcpu_of i j s)"
  using assms by (simp add: vcpu_of_def set_vcpu_def upd_vcpu_def)

lemma set_vcpu_fields [simp]:
  "sc_ops (set_vcpu i j g s) = sc_ops s" "sc_hyp (set_vcpu i j g s) = sc_hyp s" "length (vms (set_vcpu i j g s)) = length (vms s)"
  "i < length (vms s) \<Longrightarrow> length (px_vcpu (vms (set_vcpu i j g s) ! i)) = length (px_vcpu (vms s ! i))"
  "vcpu_of i j (s\<lparr>sc_ops := l\<rparr>) = vcpu_of i j s" "vcpu_of i j (s\<lparr>sc_hyp := h\<rparr>) = vcpu_of i j s"
  by (simp_all add: set_vcpu_def upd_vcpu_def vcpu_of_def)

lemma wdog_sync_op:
  assumes "wdog_sync f l i j s" and "wdog_run (pv_wdog_frozen (vcpu_of i j s)) [x] = Some b"
  shows "wdog_sync f l i j (wdog_op i j x b s) \<and> pv_wdog_frozen (vcpu_of i j (wdog_op i j x b s)) = b"
proof -
  obtain new where new: "sc_ops s = l @ new" "wdog_run f (map snd new) = Some (pv_wdog_frozen (vcpu_of i j s))"
    using assms(1) by (auto simp: wdog_sync_def)
  have "i < length (vms s)" "j < length (px_vcpu (vms s ! i))" using assms(1) by (auto simp: wdog_sync_def)
  then show ?thesis using new assms(2) unfolding wdog_sync_def
    by (auto simp: wdog_op_def wdog_run_append intro!: exI [of _ "new @ [(px_wdog_cap_id (vms s ! i), x)]"])
qed

lemma wdog_sync_abort: "wdog_sync f l i j s \<Longrightarrow> wdog_sync f l i j (set_vcpu i j (\<lambda>c. c\<lparr>pv_abort_sleep := b\<rparr>) s)"
  by (auto simp: wdog_sync_def)

lemma wdog_sync_hyp [simp]: "wdog_sync f l i j (s\<lparr>sc_hyp := h\<rparr>) = wdog_sync f l i j s"
  by (simp add: wdog_sync_def)

lemma wdog_sync_enter:
  assumes "wdog_sync f l i j s" and "vcpu_enter hc i j rd b s = ((ret, st), t)"
  shows "wdog_sync f l i j t"
proof -
  let ?s1 = "set_vcpu i j (\<lambda>c. c\<lparr>pv_abort_sleep := False\<rparr>) s"
  let ?s2 = "if pv_wdog_frozen (vcpu_of i j ?s1) then wdog_op i j WATCHDOG_MANAGE_OP_UNFREEZE False ?s1 else ?s1"
  have s1: "wdog_sync f l i j ?s1" by (rule wdog_sync_abort [OF assms(1)])
  have s2: "wdog_sync f l i j ?s2 \<and> \<not> pv_wdog_frozen (vcpu_of i j ?s2)"
    using s1 wdog_sync_op [OF s1, of WATCHDOG_MANAGE_OP_UNFREEZE False] by auto
  obtain h where "t = (if ret = GH_ERROR_OK \<and> st = GH_VCPU_STATE_READY \<and> b
      then wdog_op i j WATCHDOG_MANAGE_OP_FREEZE True (?s2\<lparr>sc_hyp := h\<rparr>) else ?s2\<lparr>sc_hyp := h\<rparr>)"
    using assms(2) unfolding vcpu_enter_def Let_def by (auto split: prod.splits)
  moreover have "wdog_sync f l i j (wdog_op i j WATCHDOG_MANAGE_OP_FREEZE True (?s2\<lparr>sc_hyp := h\<rparr>))"
    using s2 wdog_sync_op [of f l i j "?s2\<lparr>sc_hyp := h\<rparr>" WATCHDOG_MANAGE_OP_FREEZE True] by (simp del: vcpu_of_set)
  ultimately show ?thesis using s2 by simp
qed

lemma wdog_sync_sleep:
  assumes "wdog_sync f l i j s" and "\<forall>g. Env g \<in> set es \<longrightarrow> (\<forall>s. wdog_view i j (g s) = wdog_view i j s)"
  shows "outcome_inv (wdog_sync f l i j) (gh_vcpu_sleep i j es s)"
proof -
  have "case wait_event_interruptible (\<lambda>f. f) (\<lambda>s. pv_abort_sleep (vcpu_of i j s)) s es of
      Woken t es' \<Rightarrow> wdog_sync f l i j t \<and> set es' \<subseteq> set es | Interrupted t es' \<Rightarrow> wdog_sync f l i j t \<and> set es' \<subseteq> set es
    | Asleep t \<Rightarrow> wdog_sync f l i j t"
    by (rule wait_keeps) (use assms wdog_sync_view in blast)+
  then show ?thesis by (auto simp: gh_vcpu_sleep_def split: wait_result.splits)
qed

lemma vcpu_run_loop_sync:
  assumes "wdog_sync f l i j s" and "\<forall>it\<in>set its. vcpu_iter_ok i j it"
  shows "outcome_inv (wdog_sync f l i j) (vcpu_run_loop hc i j rd its s) \<and>
    (\<forall>t. vcpu_run_loop hc i j rd its s = Done (- ERESTARTSYS) t \<longrightarrow>
       pv_wdog_frozen (vcpu_of i j t) \<or> (\<exists>c x y z h. fst (fst (hc c x y z h)) = - ERESTARTSYS))"
  using assms
proof (induction its arbitrary: s)
  case (Cons it its)
  obtain ret st u where e: "vcpu_enter hc i j rd (vi_resched it) s = ((ret, st), u)" by (metis surj_pair)
  have u: "wdog_sync f l i j u" by (rule wdog_sync_enter [OF Cons.prems(1) e])
  have ret: "\<exists>c x y z h. fst (fst (hc c x y z h)) = ret"
    using e unfolding vcpu_enter_def Let_def by (auto split: prod.splits) (metis fst_conv)
  let ?m = "if ret = GH_ERROR_OK \<and> (st = GH_VCPU_STATE_EXPECTS_WAKEUP \<or> st = GH_VCPU_STATE_POWERED_OFF)
      then gh_vcpu_sleep i j (vi_sleep it) u else Done False u"
  have ok: "vcpu_iter_ok i j it" using Cons.prems(2) by simp
  have m: "outcome_inv (wdog_sync f l i j) ?m"
    using u wdog_sync_sleep [OF u, of "vi_sleep it"] ok by (simp add: vcpu_iter_ok_def)
  show ?case
  proof (cases ?m)
    case (Done intr w)
    define x where "x = vi_env it w"
    have x: "wdog_sync f l i j x"
      using m Done ok wdog_sync_view [of i j x w f l] by (auto simp: vcpu_iter_ok_def x_def)
    have run: "vcpu_run_loop hc i j rd (it # its) s =
        (if intr \<or> vi_signal it then Done (- ERESTARTSYS)
           (if pv_wdog_frozen (vcpu_of i j x) then x else wdog_op i j WATCHDOG_MANAGE_OP_FREEZE True x)
         else if (ret = GH_ERROR_OK \<or> ret = GH_ERROR_RETRY) \<and> px_is_active (vms x ! i) then vcpu_run_loop hc i j rd its x
         else Done ret x)"
      using e Done by (simp add: x_def Let_def)
    have fz: "wdog_sync f l i j (wdog_op i j WATCHDOG_MANAGE_OP_FREEZE True x) \<and>
        pv_wdog_frozen (vcpu_of i j (wdog_op i j WATCHDOG_MANAGE_OP_FREEZE True x))" if "\<not> pv_wdog_frozen (vcpu_of i j x)"
      using wdog_sync_op [OF x, of WATCHDOG_MANAGE_OP_FREEZE True] that by simp
    show ?thesis unfolding run using x fz Cons.IH [OF x] Cons.prems(2) ret by auto
  next
    case (Blocked w)
    then show ?thesis using e m by (auto split: if_splits)
  next
    case Fault
    then show ?thesis using e by (auto split: if_splits)
  qed
qed (simp add: assms)



section \<open>Registering and removing a VM\<close>

text \<open>A vCPU to register: its index, capability and interrupt.\<close>

type_synonym vcpu_info = "gh_label_t \<times> gh_capid_t \<times> int"

fun populate_vcpu_list ::
  "(nat \<Rightarrow> int \<times> gh_vmid_t) \<Rightarrow> (int \<Rightarrow> int) \<Rightarrow> gh_vmid_t \<Rightarrow> vcpu_info list \<Rightarrow> 'h sched_state \<Rightarrow> 'h sched_state" where
  "populate_vcpu_list gv rq vmid [] s = s"
| "populate_vcpu_list gv rq vmid ((idx, cap, virq) # r) s =
     populate_vcpu_list gv rq vmid r (snd (gh_populate_vm_vcpu_info gv rq True vmid idx cap virq s))"

fun unpopulate_vcpu_list ::
  "gh_vmid_t \<Rightarrow> vcpu_info list \<Rightarrow> 'h sched_state \<Rightarrow> (int option list, 'h sched_state) outcome" where
  "unpopulate_vcpu_list vmid [] s = Done [] s"
| "unpopulate_vcpu_list vmid ((idx, cap, virq) # r) s =
     obind (gh_unpopulate_vm_vcpu_info vmid idx cap s) (\<lambda>x s. obind (unpopulate_vcpu_list vmid r s) (\<lambda>xs. Done (snd x # xs)))"

lemma populate_vcpu_list_snoc:
  "populate_vcpu_list gv rq vmid (cs @ [(idx, cap, virq)]) s =
     snd (gh_populate_vm_vcpu_info gv rq True vmid idx cap virq (populate_vcpu_list gv rq vmid cs s))"
  by (induction cs arbitrary: s) auto

definition handlers_from :: "nat \<Rightarrow> vcpu_info list \<Rightarrow> nat \<Rightarrow> (int \<times> nat \<times> nat) list" where
  "handlers_from i cs k = rev (map (\<lambda>j. (snd (snd (cs ! j)), i, j)) [k..<length cs])"

definition sources_from :: "nat \<Rightarrow> vcpu_info list \<Rightarrow> nat \<Rightarrow> (nat \<times> nat) list" where
  "sources_from i cs k = rev (map (\<lambda>j. (i, j)) [k..<length cs])"

text \<open>The VM in slot \<open>i\<close> has the vCPUs \<open>cs\<close>, of which the first \<open>k\<close> have been given back.\<close>

definition vm_holds :: "vcpu_info list \<Rightarrow> nat \<Rightarrow> gh_proxy_vm \<Rightarrow> bool" where
  "vm_holds cs k vm \<longleftrightarrow> length (px_vcpu vm) = GH_MAX_VCPUS_PER_VM \<and> px_vcpu_count vm = length cs \<and>
     length cs \<le> GH_MAX_VCPUS_PER_VM \<and> (\<forall>j<length cs. pv_cap_id (px_vcpu vm ! j) = fst (snd (cs ! j))) \<and>
     (\<forall>j. k \<le> j \<longrightarrow> j < length cs \<longrightarrow> pv_virq (px_vcpu vm ! j) = snd (snd (cs ! j)) \<and> pv_ws (px_vcpu vm ! j) \<and> pv_vm (px_vcpu vm ! j))"

definition sched_holds ::
  "gh_proxy_vm list \<Rightarrow> 'h sched_state \<Rightarrow> nat \<Rightarrow> vcpu_info list \<Rightarrow> nat \<Rightarrow> gh_proxy_vm \<Rightarrow> 'h sched_state \<Rightarrow> bool" where
  "sched_holds v s0 i cs k vm s \<longleftrightarrow> gh_vms s = Some (v[i := vm]) \<and> vm_holds cs k vm \<and> init_done s \<and>
     nr_vcpus s = nr_vcpus s0 + int (length cs) - int k \<and>
     sc_irqs s = handlers_from i cs k @ sc_irqs s0 \<and> sc_ws s = sources_from i cs k @ sc_ws s0"

lemma sched_holds_snoc:
  assumes h: "sched_holds v s0 i cs 0 vm s" and i: "i < length v" "first_slot vmid i (v[i := vm])"
    and gv: "gv 2 = (0, vmid)" and vm: "\<not> px_is_vcpu_info_populated vm"
    and room: "length cs < GH_MAX_VCPUS_PER_VM" "nr_vcpus s0 + int (length cs) < GH_MAX_SYSTEM_VCPUS"
    and q: "virq \<noteq> 0" "virq \<noteq> NO_VIRQ" "rq virq = 0"
  obtains w where "sched_holds v s0 i (cs @ [(idx, cap, virq)]) 0 w (snd (gh_populate_vm_vcpu_info gv rq True vmid idx cap virq s))"
    and "px_id w = vmid" and "\<not> px_is_vcpu_info_populated w"
    and "nr_vms (snd (gh_populate_vm_vcpu_info gv rq True vmid idx cap virq s)) = nr_vms s"
proof
  let ?n = "length cs"
  let ?w = "(upd_vcpu ?n (\<lambda>c. c\<lparr>pv_irq_name := Some (vmid, ?n), pv_ws_name := Some (vmid, ?n), pv_ws := True,
      pv_cap_id := cap, pv_virq := virq, pv_idx := idx, pv_vm := True\<rparr>) vm)\<lparr>px_id := vmid, px_vcpu_count := ?n + 1\<rparr>"
  have vs: "vms s = v[i := vm]" and hv: "vm_holds cs 0 vm" and "init_done s" "nr_vcpus s = nr_vcpus s0 + int ?n"
    and cnt: "px_vcpu_count vm = ?n"
    using h by (auto simp: sched_holds_def vms_def vm_holds_def)
  then have e: "snd (gh_populate_vm_vcpu_info gv rq True vmid idx cap virq s) =
      (set_vm i ?w s)\<lparr>nr_vcpus := nr_vcpus s + 1, sc_irqs := (virq, i, ?n) # sc_irqs s, sc_ws := (i, ?n) # sc_ws s\<rparr>"
    using gh_get_vm_first [OF i(2)] i(1) gv vm room q by (simp add: gh_populate_vm_vcpu_info_def Let_def)
  show "sched_holds v s0 i (cs @ [(idx, cap, virq)]) 0 ?w (snd (gh_populate_vm_vcpu_info gv rq True vmid idx cap virq s))"
    using h hv room(1) unfolding e
    by (auto simp: sched_holds_def vs vm_holds_def upd_vcpu_def handlers_from_def sources_from_def nth_append less_Suc_eq)
  show "px_id ?w = vmid" "\<not> px_is_vcpu_info_populated ?w" using vm by (simp_all add: upd_vcpu_def)
  show "nr_vms (snd (gh_populate_vm_vcpu_info gv rq True vmid idx cap virq s)) = nr_vms s" unfolding e by simp
qed

lemma populate_vcpu_list_holds:
  assumes "gh_vms s = Some v" "init_done s" and i: "i < length v" "first_slot vmid i v" "px_id (v ! i) = GH_VMID_INVAL"
    and vm: "length (px_vcpu (v ! i)) = GH_MAX_VCPUS_PER_VM" "px_vcpu_count (v ! i) = 0" "\<not> px_is_vcpu_info_populated (v ! i)"
    and gv: "gv 2 = (0, vmid)" and q: "\<forall>(idx, cap, virq) \<in> set cs. virq \<noteq> 0 \<and> virq \<noteq> NO_VIRQ \<and> rq virq = 0"
    and room: "length cs \<le> GH_MAX_VCPUS_PER_VM" "nr_vcpus s + int (length cs) \<le> GH_MAX_SYSTEM_VCPUS"
  shows "\<exists>vm. sched_holds v s i cs 0 vm (populate_vcpu_list gv rq vmid cs s) \<and> px_id vm = (if cs = [] then GH_VMID_INVAL else vmid) \<and>
     \<not> px_is_vcpu_info_populated vm \<and> nr_vms (populate_vcpu_list gv rq vmid cs s) = nr_vms s"
  using q room
proof (induction cs rule: rev_induct)
  case Nil
  then show ?case using assms by (auto simp: sched_holds_def vm_holds_def handlers_from_def sources_from_def intro!: exI [of _ "v ! i"])
next
  case (snoc c cs)
  obtain idx cap virq where c: "c = (idx, cap, virq)" by (cases c)
  let ?s = "populate_vcpu_list gv rq vmid cs s"
  obtain vm where vm: "sched_holds v s i cs 0 vm ?s" "px_id vm = (if cs = [] then GH_VMID_INVAL else vmid)"
    "\<not> px_is_vcpu_info_populated vm" "nr_vms ?s = nr_vms s"
    using snoc by auto
  have f: "first_slot vmid i (v[i := vm])" using first_slot_upd [OF i(2)] vm(2) by auto
  obtain w where "sched_holds v s i (cs @ [(idx, cap, virq)]) 0 w (snd (gh_populate_vm_vcpu_info gv rq True vmid idx cap virq ?s))"
    "px_id w = vmid" "\<not> px_is_vcpu_info_populated w" "nr_vms (snd (gh_populate_vm_vcpu_info gv rq True vmid idx cap virq ?s)) = nr_vms ?s"
    by (rule sched_holds_snoc [where gv = gv and virq = virq and rq = rq, OF vm(1) i(1) f gv vm(3)]) (use snoc.prems c in auto)
  then show ?case using vm(4) by (auto simp: c populate_vcpu_list_snoc)
qed

lemma handlers_from_remove:
  assumes "k < length cs" and "\<forall>q j. (q, i, j) \<notin> set old"
  shows "removeAll (snd (snd (cs ! k)), i, k) (handlers_from i cs k @ old) = handlers_from i cs (k + 1) @ old"
  using assms by (auto simp: handlers_from_def upt_conv_Cons intro!: removeAll_id)

lemma sources_from_remove:
  assumes "k < length cs" and "\<forall>j. (i, j) \<notin> set old"
  shows "removeAll (i, k) (sources_from i cs k @ old) = sources_from i cs (k + 1) @ old"
  using assms by (auto simp: sources_from_def upt_conv_Cons intro!: removeAll_id)

lemma gh_get_vcpu_holds:
  assumes "vm_holds cs k vm" and "distinct (map (fst \<circ> snd) cs)" and "k < length cs"
  shows "gh_get_vcpu vm (fst (snd (cs ! k))) = Some k"
proof -
  have "fst (snd (cs ! j)) = fst (snd (cs ! k)) \<longleftrightarrow> j = k" if "j < length cs" for j
    using nth_eq_iff_index_eq [OF assms(2), of j k] that assms(3) by simp
  then show ?thesis using assms(1,3) by (auto simp: gh_get_vcpu_def vm_holds_def find_Some_iff)
qed

lemma sched_holds_step:
  assumes h: "sched_holds v s0 i cs k vm s" and k: "k < length cs" "cs ! k = (idx, cap, virq)" "distinct (map (fst \<circ> snd) cs)"
    and i: "i < length v" "first_slot vmid i (v[i := vm])" and vm: "px_id vm = vmid" "vmid \<noteq> GH_VMID_INVAL" "px_is_vcpu_info_populated vm"
    and old: "\<forall>q j. (q, i, j) \<notin> set (sc_irqs s0)" "\<forall>j. (i, j) \<notin> set (sc_ws s0)" "0 \<le> nr_vcpus s0"
  obtains t w where "gh_unpopulate_vm_vcpu_info vmid idx cap s = Done (0, Some virq) t" and "sched_holds v s0 i cs (k + 1) w t"
    and "px_id w = vmid" and "px_is_vcpu_info_populated w" and "nr_vms t = nr_vms s"
proof
  let ?w = "upd_vcpu k (\<lambda>c. c\<lparr>pv_virq := NO_VIRQ\<rparr>) vm"
  let ?t = "(set_vm i ?w s)\<lparr>nr_vcpus := (if nr_vcpus s \<noteq> 0 then nr_vcpus s - 1 else 0),
      sc_irqs := removeAll (virq, i, k) (sc_irqs s), sc_ws := removeAll (i, k) (sc_ws s)\<rparr>"
  have vs: "vms s = v[i := vm]" and hv: "vm_holds cs k vm" and cnt: "px_vcpu_count vm = length cs" and sd: "init_done s"
    and sw: "sc_ws s = sources_from i cs k @ sc_ws s0" and n: "nr_vcpus s = nr_vcpus s0 + int (length cs) - int k"
    using h by (auto simp: sched_holds_def vms_def vm_holds_def)
  have q: "pv_virq (px_vcpu vm ! k) = virq" using hv k by (simp add: vm_holds_def)
  have g: "gh_get_vm vmid (v[i := vm]) = i" by (rule gh_get_vm_first [OF i(2)])
  have p: "is_vm_supports_proxy vmid (vms s)" using i(1) k(1) vm cnt by (auto simp: is_vm_supports_proxy_def vs g)
  have m: "(i, k) \<in> set (sc_ws s)" using k(1) by (simp add: sw sources_from_def)
  show "gh_unpopulate_vm_vcpu_info vmid idx cap s = Done (0, Some virq) ?t"
    using p m q gh_get_vcpu_holds [OF hv k(3,1)] vm(3) i(1) k(2) sd by (simp add: gh_unpopulate_vm_vcpu_info_def g vs)
  show "sched_holds v s0 i cs (k + 1) ?w ?t"
    using h hv k n old(3) handlers_from_remove [OF k(1) old(1)] sources_from_remove [OF k(1) old(2)]
    by (auto simp: sched_holds_def vs vm_holds_def upd_vcpu_def nth_list_update)
  show "px_id ?w = vmid" "px_is_vcpu_info_populated ?w" "nr_vms ?t = nr_vms s" using vm by (simp_all add: upd_vcpu_def)
qed

lemma unpopulate_vcpu_list_holds:
  assumes "distinct (map (fst \<circ> snd) cs)" "i < length v" "first_slot vmid i v" "vmid \<noteq> GH_VMID_INVAL"
    and "\<forall>q j. (q, i, j) \<notin> set (sc_irqs s0)" "\<forall>j. (i, j) \<notin> set (sc_ws s0)" "0 \<le> nr_vcpus s0"
    and "sched_holds v s0 i cs k vm s" "px_id vm = vmid" "px_is_vcpu_info_populated vm" "k \<le> length cs"
  shows "\<exists>t w. unpopulate_vcpu_list vmid (drop k cs) s = Done (map (Some \<circ> snd \<circ> snd) (drop k cs)) t \<and>
     sched_holds v s0 i cs (length cs) w t \<and> px_id w = vmid \<and> px_is_vcpu_info_populated w \<and> nr_vms t = nr_vms s"
  using assms(8-11)
proof (induction "length cs - k" arbitrary: k vm s)
  case 0
  then show ?case by auto
next
  case (Suc n)
  then have k: "k < length cs" by simp
  obtain idx cap virq where c: "cs ! k = (idx, cap, virq)" by (cases "cs ! k")
  have f: "first_slot vmid i (v[i := vm])" using first_slot_upd [OF assms(3)] Suc.prems(2) by auto
  obtain t w where t: "gh_unpopulate_vm_vcpu_info vmid idx cap s = Done (0, Some virq) t" "sched_holds v s0 i cs (k + 1) w t"
    "px_id w = vmid" "px_is_vcpu_info_populated w" "nr_vms t = nr_vms s"
    by (rule sched_holds_step [OF Suc.prems(1) k c assms(1,2) f Suc.prems(2) assms(4) Suc.prems(3) assms(5-7)])
  have "\<exists>u w. unpopulate_vcpu_list vmid (drop (k + 1) cs) t = Done (map (Some \<circ> snd \<circ> snd) (drop (k + 1) cs)) u \<and>
     sched_holds v s0 i cs (length cs) w u \<and> px_id w = vmid \<and> px_is_vcpu_info_populated w \<and> nr_vms u = nr_vms t"
    using Suc.hyps(2) k by (intro Suc.hyps(1) [OF _ t(2-4)]) auto
  moreover have "drop k cs = (idx, cap, virq) # drop (k + 1) cs" using Cons_nth_drop_Suc [OF k] c by simp
  ultimately show ?case using t(1,5) by auto
qed

text \<open>Everything outside slot \<open>i\<close>, and that the slot is free.\<close>

definition slot_freed :: "nat \<Rightarrow> gh_proxy_vm list \<Rightarrow> 'h sched_state \<Rightarrow> 'h sched_state \<Rightarrow> bool" where
  "slot_freed i v s t \<longleftrightarrow> (\<exists>vm. gh_vms t = Some (v[i := vm]) \<and> px_id vm = GH_VMID_INVAL \<and> px_vcpu_count vm = 0 \<and>
       \<not> px_is_vcpu_info_populated vm \<and> \<not> px_is_active vm \<and> (\<forall>c\<in>set (px_vcpu vm). pv_cap_id c = GH_CAPID_INVAL)) \<and>
     nr_vms t = nr_vms s \<and> nr_vcpus t = nr_vcpus s \<and> sc_irqs t = sc_irqs s \<and> sc_ws t = sc_ws s"

lemma gh_reset_vm_frees:
  "px_id (gh_reset_vm vm) = GH_VMID_INVAL" "px_vcpu_count (gh_reset_vm vm) = 0" "\<not> px_is_vcpu_info_populated (gh_reset_vm vm)"
  "\<not> px_is_active (gh_reset_vm vm)" "c \<in> set (px_vcpu (gh_reset_vm vm)) \<Longrightarrow> pv_cap_id c = GH_CAPID_INVAL"
  by (cases "px_vcpu vm"; auto simp: gh_reset_vm_def upd_vcpu_def reset_vcpu_def)+

lemma all_res_holds:
  assumes h: "sched_holds v s0 i cs k vm s" and "cs \<noteq> []" "i < length v" "first_slot vmid i v" "px_id vm = vmid" "vmid \<noteq> GH_VMID_INVAL"
    and "0 \<le> nr_vms s" "nr_vms s < int GH_MAX_VMS"
  shows "\<not> px_is_vcpu_info_populated vm \<Longrightarrow> gh_populate_all_res_info vmid True s =
        (set_vm i (vm\<lparr>px_is_vcpu_info_populated := True, px_is_active := True\<rparr>) s)\<lparr>nr_vms := nr_vms s + 1\<rparr>"
    and "px_is_vcpu_info_populated vm \<Longrightarrow> gh_populate_all_res_info vmid False s =
        (set_vm i (gh_reset_vm vm) s)\<lparr>nr_vms := (if nr_vms s \<noteq> 0 then nr_vms s - 1 else 0)\<rparr>"
proof -
  have vs: "vms s = v[i := vm]" "init_done s" "px_vcpu_count vm = length cs"
    using h by (auto simp: sched_holds_def vms_def vm_holds_def)
  have g: "gh_get_vm vmid (v[i := vm]) = i" using first_slot_upd [OF assms(4)] assms(5) by (intro gh_get_vm_first) auto
  have p: "is_vm_supports_proxy vmid (v[i := vm])" using vs assms(2,3,5,6) by (simp add: is_vm_supports_proxy_def g)
  show "\<not> px_is_vcpu_info_populated vm \<Longrightarrow> gh_populate_all_res_info vmid True s =
        (set_vm i (vm\<lparr>px_is_vcpu_info_populated := True, px_is_active := True\<rparr>) s)\<lparr>nr_vms := nr_vms s + 1\<rparr>"
    and "px_is_vcpu_info_populated vm \<Longrightarrow> gh_populate_all_res_info vmid False s =
        (set_vm i (gh_reset_vm vm) s)\<lparr>nr_vms := (if nr_vms s \<noteq> 0 then nr_vms s - 1 else 0)\<rparr>"
    using p vs assms(3,8) by (simp_all add: gh_populate_all_res_info_def g)
qed



end
