(* ===== verification/Rm_Mem.thy ===== *)
theory Rm_Mem
  imports Rm_Vm
begin

text \<open>
  The memory parcel, time base and minidump calls of the Resource Manager interface
  (\<^verbatim>\<open>drivers/virt/gunyah/gh_rm_iface.c\<close>). A descriptor is the list of its entries, a descriptor that
  may be missing is an option; the requests are the bytes the code writes, and a write past the
  end of an allocated request is the outcome \<^term>\<open>Fault\<close>. \<open>kz\<close> says whether allocations succeed;
  \<open>junk\<close> parameters are uninitialised variables and bytes. As in \<^theory_text>\<open>Rm_Vm\<close> the parameter \<open>call\<close> is
  \<^verbatim>\<open>gh_rm_call\<close>.
\<close>

section \<open>Descriptors and requests\<close>

type_synonym gh_memparcel_handle_t = u32
type_synonym gh_acl_desc = "(u16 \<times> u8) list"
type_synonym gh_sgl_desc = "(u64 \<times> u64) list"
type_synonym gh_mem_attr_desc = "(u16 \<times> u16) list"

abbreviation (input) MEM_DONATE :: u32 where "MEM_DONATE \<equiv> 0x51000010"
abbreviation (input) MEM_ACCEPT :: u32 where "MEM_ACCEPT \<equiv> 0x51000011"
abbreviation (input) MEM_LEND :: u32 where "MEM_LEND \<equiv> 0x51000012"
abbreviation (input) MEM_SHARE :: u32 where "MEM_SHARE \<equiv> 0x51000013"
abbreviation (input) MEM_RELEASE :: u32 where "MEM_RELEASE \<equiv> 0x51000014"
abbreviation (input) MEM_RECLAIM :: u32 where "MEM_RECLAIM \<equiv> 0x51000015"
abbreviation (input) MEM_NOTIFY :: u32 where "MEM_NOTIFY \<equiv> 0x51000017"
abbreviation (input) MEM_APPEND :: u32 where "MEM_APPEND \<equiv> 0x51000018"
abbreviation (input) MEM_QCOM_LOOKUP_SGL :: u32 where "MEM_QCOM_LOOKUP_SGL \<equiv> 0x5100001A"
abbreviation (input) GH_RM_MEM_MAX_SGL_ENTRIES :: nat where "GH_RM_MEM_MAX_SGL_ENTRIES \<equiv> 512"

text \<open>\<^verbatim>\<open>flags & ~VALID\<close>\<close>

definition bad_flags :: "u8 \<Rightarrow> u8 \<Rightarrow> bool" where
  "bad_flags flags valid \<longleftrightarrow> flags AND NOT valid \<noteq> 0"

definition desc :: "'a list option \<Rightarrow> 'a list" where
  "desc d = (case d of None \<Rightarrow> [] | Some l \<Rightarrow> l)"

definition sgl_bytes :: "gh_sgl_desc \<Rightarrow> u8 list" where
  "sgl_bytes sgl = concat (map (\<lambda>(b, n). le64_pair b @ le64_pair n) sgl)"

text \<open>What the three helpers write; reserved fields keep the zeros of the allocation.\<close>

definition gh_rm_populate_acl_desc :: "gh_acl_desc option \<Rightarrow> u8 list" where
  "gh_rm_populate_acl_desc acl =
     le32 (of_nat (length (desc acl))) @ concat (map (\<lambda>(vmid, perms). le16 vmid @ [perms, 0]) (desc acl))"

definition gh_rm_populate_sgl_desc :: "gh_sgl_desc option \<Rightarrow> u16 \<Rightarrow> u8 list" where
  "gh_rm_populate_sgl_desc sgl reserved_param =
     (let l = take GH_RM_MEM_MAX_SGL_ENTRIES (desc sgl) in le16 (of_nat (length l)) @ le16 reserved_param @ sgl_bytes l)"

definition gh_rm_populate_mem_attr_desc :: "gh_mem_attr_desc option \<Rightarrow> u8 list" where
  "gh_rm_populate_mem_attr_desc attrs =
     le16 (of_nat (length (desc attrs))) @ [0, 0] @ concat (map (\<lambda>(a, vmid). le16 a @ le16 vmid) (desc attrs))"

definition mem_req_hdr_size :: "u32 \<Rightarrow> nat option" where
  "mem_req_hdr_size fn_id =
     (if fn_id = MEM_LEND \<or> fn_id = MEM_SHARE \<or> fn_id = MEM_DONATE then Some 8
      else if fn_id = MEM_QCOM_LOOKUP_SGL then Some 8
      else if fn_id = MEM_ACCEPT then Some 12 else None)"

text \<open>\<open>None\<close> is a write past the end of the buffer.\<close>

definition gh_rm_populate_mem_request ::
  "u8 list \<Rightarrow> u32 \<Rightarrow> gh_acl_desc option \<Rightarrow> gh_sgl_desc option \<Rightarrow> u16 \<Rightarrow> gh_mem_attr_desc option \<Rightarrow> u8 list option" where
  "gh_rm_populate_mem_request req_buf fn_id acl sgl reserved_param attrs =
     (case mem_req_hdr_size fn_id of
        None \<Rightarrow> Some req_buf
      | Some h \<Rightarrow>
          let a = gh_rm_populate_acl_desc acl; g = gh_rm_populate_sgl_desc sgl reserved_param in
          (case mem_write req_buf h a of
             None \<Rightarrow> None
           | Some buf \<Rightarrow>
               (case mem_write buf (h + length a) g of
                  None \<Rightarrow> None
                | Some buf \<Rightarrow> mem_write buf (h + length a + length g) (gh_rm_populate_mem_attr_desc attrs))))"

definition gh_rm_alloc_mem_request_buf :: "bool \<Rightarrow> u32 \<Rightarrow> nat \<Rightarrow> nat \<Rightarrow> nat \<Rightarrow> int + u8 list" where
  "gh_rm_alloc_mem_request_buf kz fn_id n_acl n_sgl n_attr =
     (case mem_req_hdr_size fn_id of
        None \<Rightarrow> Inl (- EINVAL)
      | Some h \<Rightarrow> if \<not> kz then Inl (- ENOMEM) else Inr (replicate (h + (4 + 4 * n_acl) + (4 + 16 * n_sgl) + (4 + 4 * n_attr)) 0))"

text \<open>A request whose first bytes are a header.\<close>

definition mem_request ::
  "bool \<Rightarrow> u32 \<Rightarrow> nat \<Rightarrow> nat \<Rightarrow> nat \<Rightarrow> u8 list \<Rightarrow> gh_acl_desc option \<Rightarrow> gh_sgl_desc option \<Rightarrow> u16 \<Rightarrow> gh_mem_attr_desc option \<Rightarrow>
   (int + u8 list) option" where
  "mem_request kz fn_id n_acl n_sgl n_attr hdr acl sgl reserved_param attrs =
     (case gh_rm_alloc_mem_request_buf kz fn_id n_acl n_sgl n_attr of
        Inl e \<Rightarrow> Some (Inl e)
      | Inr buf \<Rightarrow> (case mem_write buf 0 hdr of
          None \<Rightarrow> None
        | Some buf \<Rightarrow> map_option Inr (gh_rm_populate_mem_request buf fn_id acl sgl reserved_param attrs)))"

text \<open>A call whose reply must have a given size: \<^verbatim>\<open>if (gh_ret || IS_ERR(resp_payload))\<close>.\<close>

definition rm_sized_call :: "'s rm_caller \<Rightarrow> u32 \<Rightarrow> u8 list \<Rightarrow> nat \<Rightarrow> 's \<Rightarrow> (int + u8 list) \<times> 's" where
  "rm_sized_call call mid req sz s =
     (case call mid req s of
        ((err, Inl e), s') \<Rightarrow> (Inl e, s')
      | ((err, Inr (p, n)), s') \<Rightarrow> (if n \<noteq> sz then Inl (- EINVAL) else Inr (desc p), s'))"

definition mem_type_ok :: "u8 \<Rightarrow> bool" where
  "mem_type_ok mem_type \<longleftrightarrow> mem_type = 0 \<or> mem_type = 1"

definition gh_rm_mem_qcom_lookup_sgl ::
  "'s rm_caller \<Rightarrow> bool \<Rightarrow> u8 \<Rightarrow> gh_label_t \<Rightarrow> gh_acl_desc option \<Rightarrow> gh_sgl_desc option \<Rightarrow> gh_mem_attr_desc option \<Rightarrow> bool \<Rightarrow> 's \<Rightarrow>
   (int + gh_memparcel_handle_t, 's) outcome" where
  "gh_rm_mem_qcom_lookup_sgl call kz mem_type label acl sgl attrs handle_ok s =
     (if \<not> mem_type_ok mem_type \<or> desc acl = [] \<or> desc sgl = [] \<or> \<not> handle_ok \<or> attrs = Some [] then Done (Inl (- EINVAL)) s
      else case mem_request kz MEM_QCOM_LOOKUP_SGL (length (desc acl)) (length (desc sgl)) (length (desc attrs))
                  ([mem_type, 0, 0, 0] @ le32 label) acl sgl 0 attrs of
        None \<Rightarrow> Fault
      | Some (Inl e) \<Rightarrow> Done (Inl e) s
      | Some (Inr req) \<Rightarrow> (case rm_sized_call call MEM_QCOM_LOOKUP_SGL req 4 s of
          (Inl e, s) \<Rightarrow> Done (Inl e) s | (Inr resp, s) \<Rightarrow> Done (Inr (of_le32 resp)) s))"

section \<open>Releasing and reclaiming\<close>

text \<open>Only \<^verbatim>\<open>gh_ret\<close> is tested, which is not set when the call fails before a reply; a
  non-zero code always comes with an error pointer.\<close>

definition rm_unchecked :: "u32 \<Rightarrow> 's rm_caller \<Rightarrow> u32 \<Rightarrow> u8 list \<Rightarrow> 's \<Rightarrow> int \<times> 's" where
  "rm_unchecked junk call mid req s =
     (case call mid req s of
        ((err, res), s') \<Rightarrow>
          let gh_ret = (case err of None \<Rightarrow> junk | Some e \<Rightarrow> e) in
          (if gh_ret = 0 then 0 else case res of Inl e \<Rightarrow> e | Inr _ \<Rightarrow> 0, s'))"

definition gh_rm_mem_release_helper :: "u32 \<Rightarrow> 's rm_caller \<Rightarrow> u32 \<Rightarrow> gh_memparcel_handle_t \<Rightarrow> u8 \<Rightarrow> 's \<Rightarrow> int \<times> 's" where
  "gh_rm_mem_release_helper junk call fn_id handle flags s =
     (if fn_id = MEM_RELEASE \<and> bad_flags flags 1 then (- EINVAL, s)
      else if fn_id = MEM_RECLAIM \<and> bad_flags flags 1 then (- EINVAL, s)
      else rm_unchecked junk call fn_id (le32 handle @ [flags, 0, 0, 0]) s)"

definition gh_rm_mem_release :: "u32 \<Rightarrow> 's rm_caller \<Rightarrow> gh_memparcel_handle_t \<Rightarrow> u8 \<Rightarrow> 's \<Rightarrow> int \<times> 's" where
  "gh_rm_mem_release junk call = gh_rm_mem_release_helper junk call MEM_RELEASE"

definition gh_rm_mem_reclaim :: "u32 \<Rightarrow> 's rm_caller \<Rightarrow> gh_memparcel_handle_t \<Rightarrow> u8 \<Rightarrow> 's \<Rightarrow> int \<times> 's" where
  "gh_rm_mem_reclaim junk call = gh_rm_mem_release_helper junk call MEM_RECLAIM"

section \<open>Accepting\<close>

definition of_le64 :: "u8 list \<Rightarrow> u64" where
  "of_le64 bs = ucast (of_le32 bs) OR push_bit 32 (ucast (of_le32 (drop 4 bs)))"

text \<open>The entries of a reply: \<^verbatim>\<open>struct gh_mem_accept_resp_payload\<close> read as \<^verbatim>\<open>struct gh_sgl_desc\<close>.\<close>

fun sgl_take :: "nat \<Rightarrow> u8 list \<Rightarrow> gh_sgl_desc" where
  "sgl_take 0 bs = []"
| "sgl_take (Suc n) bs = (of_le64 bs, of_le64 (drop 8 bs)) # sgl_take n (drop 16 bs)"

definition sgl_of_resp :: "u8 list \<Rightarrow> gh_sgl_desc" where
  "sgl_of_resp resp = sgl_take (unat (of_le16 resp)) (drop 4 resp)"

text \<open>\<open>list_add\<close> puts a new fragment at the head of the list.\<close>

record gh_sgl_fragment =
  sf_list :: "gh_sgl_desc list"
  sf_n_sgl_entries :: u16

definition gh_sgl_fragment_init :: "bool \<Rightarrow> gh_sgl_fragment option" where
  "gh_sgl_fragment_init kz = (if kz then Some \<lparr>sf_list = [], sf_n_sgl_entries = 0\<rparr> else None)"

definition gh_sgl_fragment_append :: "bool \<Rightarrow> gh_sgl_fragment \<Rightarrow> gh_sgl_desc \<Rightarrow> int \<times> gh_sgl_fragment" where
  "gh_sgl_fragment_append kz gather sgl =
     (if 65535 - unat (sf_n_sgl_entries gather) < length sgl then (- EINVAL, gather)
      else if \<not> kz then (- ENOMEM, gather)
      else (0, \<lparr>sf_list = sgl # sf_list gather, sf_n_sgl_entries = sf_n_sgl_entries gather + of_nat (length sgl)\<rparr>))"

text \<open>\<open>None\<close> is a write past the combined list.\<close>

definition gh_sgl_fragment_combine :: "bool \<Rightarrow> gh_sgl_fragment \<Rightarrow> (int + gh_sgl_desc) option" where
  "gh_sgl_fragment_combine kz gather =
     (if \<not> kz then Some (Inl (- ENOMEM))
      else if unat (sf_n_sgl_entries gather) < length (concat (sf_list gather)) then None
      else Some (Inr (concat (sf_list gather))))"

definition gh_rm_mem_accept_check_resp :: "u8 list \<Rightarrow> nat \<Rightarrow> bool \<Rightarrow> int" where
  "gh_rm_mem_accept_check_resp resp sz has_sgl =
     (let expected = (if has_sgl then 0 else if sz < 4 then 4 else 4 + unat (of_le16 resp) * 16)
      in if sz = expected then 0 else - EINVAL)"

definition gh_rm_mem_accept_prepare_request ::
  "bool \<Rightarrow> gh_memparcel_handle_t \<Rightarrow> u8 \<Rightarrow> u8 \<Rightarrow> u8 \<Rightarrow> gh_label_t \<Rightarrow> gh_acl_desc option \<Rightarrow> gh_sgl_desc option \<Rightarrow> gh_mem_attr_desc option \<Rightarrow>
   u16 \<Rightarrow> (int + (u8 \<Rightarrow> u8 list)) option" where
  "gh_rm_mem_accept_prepare_request kz handle mem_type trans_type flags label acl sgl attrs map_vmid =
     (if \<not> mem_type_ok mem_type \<or> (trans_type \<noteq> 0 \<and> trans_type \<noteq> 1 \<and> trans_type \<noteq> 2) \<or> bad_flags flags 0x97 \<or>
         GH_RM_MEM_MAX_SGL_ENTRIES < length (desc sgl) then Some (Inl (- EINVAL))
      else if flags AND 2 \<noteq> 0 \<and> desc acl = [] \<and> desc attrs = [] then Some (Inl (- EINVAL))
      else let chk = flags AND 2 \<noteq> 0;
               hdr = (\<lambda>fl. le32 handle @ [mem_type, trans_type, fl, 0] @ (if flags AND 4 \<noteq> 0 then le32 label else [0, 0, 0, 0])) in
        (case mem_request kz MEM_ACCEPT (if chk then length (desc acl) else 0) (length (desc sgl))
                (if chk then length (desc attrs) else 0) (hdr flags) acl sgl map_vmid attrs of
           None \<Rightarrow> None
         | Some (Inl e) \<Rightarrow> Some (Inl e)
         | Some (Inr req) \<Rightarrow> Some (Inr (\<lambda>fl. req[6 := fl]))))"

text \<open>
  The loop that gathers the fragments. The result is an error, with whether a request has been
  answered, or the fragments. \<open>fuel\<close> bounds the number of calls; the loop goes on for as long as the
  Resource Manager answers with \<^verbatim>\<open>GH_MEM_ACCEPT_RESP_INCOMPLETE\<close>.
\<close>

fun accept_loop ::
  "nat \<Rightarrow> 's rm_caller \<Rightarrow> bool \<Rightarrow> u8 list \<Rightarrow> bool \<Rightarrow> bool \<Rightarrow> gh_sgl_fragment \<Rightarrow> 's \<Rightarrow> ((int \<times> bool) + gh_sgl_fragment, 's) outcome" where
  "accept_loop 0 call kz req has_sgl accept_in_progress gather s = Blocked s"
| "accept_loop (Suc fuel) call kz req has_sgl accept_in_progress gather s =
     (case call MEM_ACCEPT req s of
        ((err, Inl e), s) \<Rightarrow> Done (Inl (e, accept_in_progress)) s
      | ((err, Inr (p, sz)), s) \<Rightarrow>
          if gh_rm_mem_accept_check_resp (desc p) sz has_sgl \<noteq> 0 then Done (Inl (- EINVAL, True)) s
          else if sz = 0 then Done (Inr gather) s
          else (case gh_sgl_fragment_append kz gather (sgl_of_resp (desc p)) of
            (ret, gather) \<Rightarrow>
              if ret \<noteq> 0 then Done (Inl (- ENOMEM, True)) s
              else if desc p ! 2 AND 1 \<noteq> 0 then accept_loop fuel call kz req has_sgl True gather s
              else Done (Inr gather) s))"

definition accept_fail :: "u32 \<Rightarrow> 's rm_caller \<Rightarrow> gh_memparcel_handle_t \<Rightarrow> int \<Rightarrow> bool \<Rightarrow> 's \<Rightarrow> (int + gh_sgl_desc, 's) outcome" where
  "accept_fail junk call handle ret accept_in_progress s =
     Done (Inl ret) (if accept_in_progress then snd (gh_rm_mem_release junk call handle 0 s) else s)"

text \<open>The last part: the final call with \<^verbatim>\<open>GH_RM_MEM_ACCEPT_DONE\<close>, and the combined list.\<close>

definition accept_finish ::
  "u32 \<Rightarrow> 's rm_caller \<Rightarrow> bool \<Rightarrow> gh_memparcel_handle_t \<Rightarrow> u8 list option \<Rightarrow> gh_sgl_desc option \<Rightarrow> gh_sgl_fragment \<Rightarrow> 's \<Rightarrow>
   (int + gh_sgl_desc, 's) outcome" where
  "accept_finish junk call kz handle done_req sgl gather s =
     (case (case done_req of None \<Rightarrow> (Inr (None, 0), s) | Some req \<Rightarrow> (case call MEM_ACCEPT req s of ((err, r), s) \<Rightarrow> (r, s))) of
        (Inl e, s) \<Rightarrow> accept_fail junk call handle e True s
      | (Inr _, s) \<Rightarrow>
          (case sgl of
             Some l \<Rightarrow> Done (Inr l) s
           | None \<Rightarrow> (case gh_sgl_fragment_combine kz gather of
                None \<Rightarrow> Fault
              | Some (Inl e) \<Rightarrow> accept_fail junk call handle e True s
              | Some (Inr l) \<Rightarrow> Done (Inr l) s)))"

definition gh_rm_mem_accept ::
  "u32 \<Rightarrow> nat \<Rightarrow> 's rm_caller \<Rightarrow> bool \<Rightarrow> gh_memparcel_handle_t \<Rightarrow> u8 \<Rightarrow> u8 \<Rightarrow> u8 \<Rightarrow> gh_label_t \<Rightarrow> gh_acl_desc option \<Rightarrow>
   gh_sgl_desc option \<Rightarrow> gh_mem_attr_desc option \<Rightarrow> u16 \<Rightarrow> 's \<Rightarrow> (int + gh_sgl_desc, 's) outcome" where
  "gh_rm_mem_accept junk fuel call kz handle mem_type trans_type flags label acl sgl attrs map_vmid s =
     (case gh_rm_mem_accept_prepare_request kz handle mem_type trans_type flags label acl sgl attrs map_vmid of
        None \<Rightarrow> Fault
      | Some (Inl e) \<Rightarrow> Done (Inl e) s
      | Some (Inr req) \<Rightarrow>
          let multi_call = \<not> (flags AND 0x10 \<noteq> 0 \<or> sgl \<noteq> None);
              fl = (if multi_call then flags AND NOT 0x80 else flags) in
          (case gh_sgl_fragment_init kz of
             None \<Rightarrow> Done (Inl (- ENOMEM)) s
           | Some gather \<Rightarrow>
               obind (accept_loop fuel call kz (req fl) (sgl \<noteq> None) False gather s) (\<lambda>r s.
                 case r of
                   Inl (e, prog) \<Rightarrow> accept_fail junk call handle e prog s
                 | Inr gather \<Rightarrow>
                     accept_finish junk call kz handle
                       (if multi_call \<and> flags AND 0x80 \<noteq> 0 then Some (req (fl OR 0x80)) else None) sgl gather s)))"

section \<open>Sharing, lending and donating\<close>

text \<open>The request of \<open>MEM_APPEND\<close> is not zeroed: \<open>gap\<close> are the five reserved bytes.\<close>

definition gh_rm_mem_append ::
  "u8 list \<Rightarrow> 's rm_caller \<Rightarrow> bool \<Rightarrow> gh_memparcel_handle_t \<Rightarrow> u8 \<Rightarrow> gh_sgl_desc \<Rightarrow> 's \<Rightarrow> int \<times> 's" where
  "gh_rm_mem_append gap call kz handle flags sgl s =
     (if bad_flags flags 1 \<or> GH_RM_MEM_MAX_SGL_ENTRIES < length sgl then (- EINVAL, s)
      else if \<not> kz then (- ENOMEM, s)
      else case rm_sized_call call MEM_APPEND
             (le32 handle @ [flags] @ take 3 gap @ le16 (of_nat (length sgl)) @ take 2 (drop 3 gap) @ sgl_bytes sgl) 0 s of
        (Inl e, s) \<Rightarrow> (e, s) | (Inr _, s) \<Rightarrow> (0, s))"

function share_append_loop ::
  "u8 list \<Rightarrow> 's rm_caller \<Rightarrow> bool \<Rightarrow> gh_memparcel_handle_t \<Rightarrow> gh_sgl_desc \<Rightarrow> nat \<Rightarrow> 's \<Rightarrow> int \<times> 's" where
  "share_append_loop gap call kz handle sgl idx s =
     (if length sgl \<le> idx then (0, s)
      else let nxt = min (idx + GH_RM_MEM_MAX_SGL_ENTRIES) (length sgl) in
        (case gh_rm_mem_append gap call kz handle (if nxt = length sgl then 1 else 0) (take (nxt - idx) (drop idx sgl)) s of
           (ret, s) \<Rightarrow> if ret \<noteq> 0 then (ret, s) else share_append_loop gap call kz handle sgl nxt s))"
  by pat_completeness auto

termination
  by (relation "measure (\<lambda>(gap, call, kz, handle, sgl, idx, s). length sgl - idx)") auto

declare share_append_loop.simps [simp del]

definition gh_rm_mem_share_lend_helper ::
  "u32 \<Rightarrow> u8 list \<Rightarrow> 's rm_caller \<Rightarrow> bool \<Rightarrow> u32 \<Rightarrow> u8 \<Rightarrow> u8 \<Rightarrow> gh_label_t \<Rightarrow> gh_acl_desc option \<Rightarrow> gh_sgl_desc option \<Rightarrow>
   gh_mem_attr_desc option \<Rightarrow> 's \<Rightarrow> (int + gh_memparcel_handle_t, 's) outcome" where
  "gh_rm_mem_share_lend_helper junk gap call kz fn_id mem_type flags label acl sgl attrs s =
     (if \<not> mem_type_ok mem_type \<or> ((fn_id = MEM_SHARE \<or> fn_id = MEM_LEND \<or> fn_id = MEM_DONATE) \<and> bad_flags flags 1) \<or>
         desc acl = [] \<or> desc sgl = [] \<or> attrs = Some [] then Done (Inl (- EINVAL)) s
      else let n = length (desc sgl);
               big = GH_RM_MEM_MAX_SGL_ENTRIES < n;
               req_sgl = (if big then GH_RM_MEM_MAX_SGL_ENTRIES else n);
               fl = (if big then flags OR 2 else flags) in
        (case mem_request kz fn_id (unat (of_nat (length (desc acl)) :: u16)) req_sgl (length (desc attrs))
                ([mem_type, 0, fl, 0] @ le32 label) acl sgl 0 attrs of
           None \<Rightarrow> Fault
         | Some (Inl e) \<Rightarrow> Done (Inl e) s
         | Some (Inr req) \<Rightarrow>
             (case rm_sized_call call fn_id req 4 s of
                (Inl e, s) \<Rightarrow> Done (Inl e) s
              | (Inr resp, s) \<Rightarrow>
                  (case share_append_loop gap call kz (of_le32 resp) (desc sgl) req_sgl s of
                     (ret, s) \<Rightarrow>
                       if ret \<noteq> 0 then Done (Inl ret) (snd (gh_rm_mem_reclaim junk call (of_le32 resp) 0 s))
                       else Done (Inr (of_le32 resp)) s))))"

definition gh_rm_mem_share where
  "gh_rm_mem_share junk gap call kz = gh_rm_mem_share_lend_helper junk gap call kz MEM_SHARE"

definition gh_rm_mem_lend where
  "gh_rm_mem_lend junk gap call kz = gh_rm_mem_share_lend_helper junk gap call kz MEM_LEND"

definition gh_rm_mem_donate ::
  "u32 \<Rightarrow> u8 list \<Rightarrow> 's rm_caller \<Rightarrow> bool \<Rightarrow> u8 \<Rightarrow> u8 \<Rightarrow> gh_label_t \<Rightarrow> gh_acl_desc option \<Rightarrow> gh_sgl_desc option \<Rightarrow>
   gh_mem_attr_desc option \<Rightarrow> 's \<Rightarrow> (int + gh_memparcel_handle_t, 's) outcome" where
  "gh_rm_mem_donate junk gap call kz mem_type flags label acl sgl attrs s =
     (case acl of
        None \<Rightarrow> Fault
      | Some a \<Rightarrow>
          if length a \<noteq> 1 then Done (Inl (- EINVAL)) s
          else if mem_type = 0 \<and> snd (a ! 0) \<noteq> 7 then Done (Inl (- EINVAL)) s
          else if mem_type = 1 \<and> snd (a ! 0) \<noteq> 6 then Done (Inl (- EINVAL)) s
          else gh_rm_mem_share_lend_helper junk gap call kz MEM_DONATE mem_type flags label acl sgl attrs s)"

section \<open>Notifying, time base and minidump\<close>

definition hweight8 :: "u8 \<Rightarrow> nat" where
  "hweight8 w = length (filter (bit w) [0..<8])"

definition gh_rm_mem_notify ::
  "u32 \<Rightarrow> 's rm_caller \<Rightarrow> bool \<Rightarrow> gh_memparcel_handle_t \<Rightarrow> u8 \<Rightarrow> gh_label_t \<Rightarrow> u16 list option \<Rightarrow> 's \<Rightarrow> int \<times> 's" where
  "gh_rm_mem_notify junk call kz handle flags mem_info_tag vmids s =
     (if bad_flags flags 7 \<or> (flags AND 1 \<noteq> 0 \<and> desc vmids = []) \<or> (flags AND 6 \<noteq> 0 \<and> vmids \<noteq> None) \<or> hweight8 flags \<noteq> 1
      then (- EINVAL, s)
      else if \<not> kz then (- ENOMEM, s)
      else rm_unchecked junk call MEM_NOTIFY
             (le32 handle @ [flags, 0, 0, 0] @ le32 mem_info_tag @
              (if flags AND 1 \<noteq> 0
               then le16 (of_nat (length (desc vmids))) @ [0, 0] @ concat (map (\<lambda>v. le16 v @ [0, 0]) (desc vmids)) else [])) s)"

text \<open>\<open>ts\<close> and \<open>qt\<close> are the clock readings; \<^verbatim>\<open>reply_err_code\<close> starts at 0 and the pointer is not tested, \<open>junk_n\<close>
  is what the size variable held.\<close>

definition gh_rm_vm_set_time_base :: "nat \<Rightarrow> 's rm_caller \<Rightarrow> u64 \<Rightarrow> u64 \<Rightarrow> gh_vmid_t \<Rightarrow> 's \<Rightarrow> int \<times> 's" where
  "gh_rm_vm_set_time_base junk_n call ts qt vmid s =
     (case call 0x56000030 (le16 vmid @ [0, 0] @ le64_pair ts @ le64_pair qt) s of
        ((err, res), s') \<Rightarrow>
          let reply_err_code = (case err of None \<Rightarrow> 0 | Some e \<Rightarrow> e);
              n = (case res of Inl e \<Rightarrow> junk_n | Inr (p, n) \<Rightarrow> n) in
          if reply_err_code \<noteq> 0 then (sint reply_err_code, s')
          else if n \<noteq> 0 then (- EINVAL, s') else (0, s'))"

definition slot_of_resp :: "(int + u8 list) \<times> 's \<Rightarrow> int \<times> 's" where
  "slot_of_resp r = (case r of (Inl e, s) \<Rightarrow> (e, s) | (Inr resp, s) \<Rightarrow> (uint (of_le16 resp), s))"

definition gh_rm_minidump_get_info :: "'s rm_caller \<Rightarrow> 's \<Rightarrow> int \<times> 's" where
  "gh_rm_minidump_get_info call s = slot_of_resp (rm_sized_call call 0x56000040 (le32 0) 4 s)"

text \<open>\<open>gap\<close> are the two reserved bytes of the header, which is not zeroed.\<close>

definition gh_rm_minidump_register_range :: "u8 list \<Rightarrow> 's rm_caller \<Rightarrow> bool \<Rightarrow> u64 \<Rightarrow> u64 \<Rightarrow> u8 list option \<Rightarrow> 's \<Rightarrow> int \<times> 's" where
  "gh_rm_minidump_register_range gap call kz base_ipa region_size name s =
     (case name of
        None \<Rightarrow> (- EINVAL, s)
      | Some nm \<Rightarrow>
          if \<not> kz then (- ENOMEM, s)
          else slot_of_resp (rm_sized_call call 0x56000041
                 (le64_pair base_ipa @ le64_pair region_size @ [of_nat (length nm), 28] @ take 2 gap @ nm) 4 s))"

definition gh_rm_minidump_deregister_slot :: "'s rm_caller \<Rightarrow> u16 \<Rightarrow> 's \<Rightarrow> int \<times> 's" where
  "gh_rm_minidump_deregister_slot call slot_num s =
     (case rm_sized_call call 0x56000042 (le16 slot_num @ [0, 0]) 0 s of (Inl e, s) \<Rightarrow> (e, s) | (Inr _, s) \<Rightarrow> (0, s))"

end
