(* ===== verification/Rm_Mem_Correct.thy ===== *)
theory Rm_Mem_Correct
  imports Rm_Mem
begin

text \<open>
  Properties of the memory parcel calls: a request is exactly its header and descriptors, a long
  list of pages is sent in pieces that cover it in order, accepting a parcel gathers the pieces
  (in reverse order), and where the request buffers are too small.
\<close>

section \<open>A Resource Manager with prepared answers\<close>

text \<open>The requests it got and the answers it will give; it refuses what it has no answer for.\<close>

type_synonym rm_script = "(u32 \<times> u8 list) list \<times> rm_call_result list"

fun scripted :: "rm_script rm_caller" where
  "scripted mid req (log, []) = ((None, Inl (- EIO)), log @ [(mid, req)], [])"
| "scripted mid req (log, r # rs) = (r, log @ [(mid, req)], rs)"

abbreviation rm_ok :: rm_call_result where "rm_ok \<equiv> (Some 0, Inr (None, 0))"

section \<open>Requests\<close>

lemma length_sgl_bytes [simp]: "length (sgl_bytes l) = 16 * length l"
  by (induction l) (auto simp: sgl_bytes_def le64_pair_def)

lemma length_populate [simp]:
  "length (gh_rm_populate_acl_desc acl) = 4 + 4 * length (desc acl)"
  "length (gh_rm_populate_sgl_desc sgl r) = 4 + 16 * min 512 (length (desc sgl))"
  "length (gh_rm_populate_mem_attr_desc attrs) = 4 + 4 * length (desc attrs)"
proof -
  have "length (concat (map (\<lambda>(v, p). le16 v @ [p, 0]) l)) = 4 * length l" for l :: gh_acl_desc
    by (induction l) auto
  moreover have "length (concat (map (\<lambda>(a, v). le16 a @ le16 v) l)) = 4 * length l" for l :: gh_mem_attr_desc
    by (induction l) auto
  ultimately show "length (gh_rm_populate_acl_desc acl) = 4 + 4 * length (desc acl)"
    "length (gh_rm_populate_sgl_desc sgl r) = 4 + 16 * min 512 (length (desc sgl))"
    "length (gh_rm_populate_mem_attr_desc attrs) = 4 + 4 * length (desc attrs)"
    by (auto simp: gh_rm_populate_acl_desc_def gh_rm_populate_sgl_desc_def gh_rm_populate_mem_attr_desc_def Let_def)
qed

lemma mem_write_replicate:
  "mem_write (pre @ replicate n 0) (length pre) d =
     (if length d \<le> n then Some ((pre @ d) @ replicate (n - length d) 0) else None)"
  by (auto simp: mem_write_def)

text \<open>With counts that fit the descriptors the request is the header followed by them.\<close>

lemma mem_request_exact:
  assumes "mem_req_hdr_size fn = Some (length hdr)"
  shows "mem_request True fn (length (desc acl)) (min 512 (length (desc sgl))) (length (desc attrs)) hdr acl sgl r attrs =
     Some (Inr (hdr @ gh_rm_populate_acl_desc acl @ gh_rm_populate_sgl_desc sgl r @ gh_rm_populate_mem_attr_desc attrs))"
proof -
  let ?a = "gh_rm_populate_acl_desc acl" and ?g = "gh_rm_populate_sgl_desc sgl r" and ?t = "gh_rm_populate_mem_attr_desc attrs"
  let ?n = "length hdr + length ?a + length ?g + length ?t"
  have buf: "gh_rm_alloc_mem_request_buf True fn (length (desc acl)) (min 512 (length (desc sgl))) (length (desc attrs)) =
      Inr (replicate ?n 0)"
    using assms by (simp add: gh_rm_alloc_mem_request_buf_def)
  have w: "mem_write (replicate ?n 0) 0 hdr = Some (hdr @ replicate (length ?a + length ?g + length ?t) 0)"
    "mem_write (hdr @ replicate (length ?a + length ?g + length ?t) 0) (length hdr) ?a = Some ((hdr @ ?a) @ replicate (length ?g + length ?t) 0)"
    "mem_write ((hdr @ ?a) @ replicate (length ?g + length ?t) 0) (length hdr + length ?a) ?g = Some ((hdr @ ?a @ ?g) @ replicate (length ?t) 0)"
    "mem_write ((hdr @ ?a @ ?g) @ replicate (length ?t) 0) (length hdr + length ?a + length ?g) ?t = Some (hdr @ ?a @ ?g @ ?t)"
    using mem_write_replicate [of "[]" ?n hdr] mem_write_replicate [of hdr "length ?a + length ?g + length ?t" ?a]
      mem_write_replicate [of "hdr @ ?a" "length ?g + length ?t" ?g] mem_write_replicate [of "hdr @ ?a @ ?g" "length ?t" ?t]
    by (simp_all del: length_populate append_assoc add: append_assoc [symmetric] add.assoc)
  show ?thesis
    unfolding mem_request_def buf sum.case w(1) option.case gh_rm_populate_mem_request_def assms Let_def w(2-4)
    by simp
qed

text \<open>An access list that was not counted does not fit.\<close>

lemma mem_request_overflow:
  assumes "mem_req_hdr_size fn = Some (length hdr)" and "n < length (desc acl)" "k \<le> length (desc attrs)"
  shows "mem_request True fn n (min 512 (length (desc sgl))) k hdr acl sgl r attrs = None"
  using assms
  by (auto simp: mem_request_def gh_rm_alloc_mem_request_buf_def gh_rm_populate_mem_request_def Let_def mem_write_def split: option.splits)

section \<open>Sharing\<close>

text \<open>Reference: the pieces of a list, and the requests that send them.\<close>

function sgl_chunks :: "'a list \<Rightarrow> 'a list list" where
  "sgl_chunks l = (if l = [] then [] else take 512 l # sgl_chunks (drop 512 l))"
  by pat_completeness auto

termination
  by (relation "measure length") auto

declare sgl_chunks.simps [simp del]

lemma sgl_chunks_Nil [simp]: "sgl_chunks [] = []"
  by (simp add: sgl_chunks.simps)

lemma sgl_chunks_step: "l \<noteq> [] \<Longrightarrow> sgl_chunks l = take 512 l # sgl_chunks (drop 512 l)"
  by (simp add: sgl_chunks.simps [of l])

lemma sgl_chunks_Nil_iff [simp]: "sgl_chunks l = [] \<longleftrightarrow> l = []"
  by (simp add: sgl_chunks.simps [of l])

lemma concat_sgl_chunks [simp]: "concat (sgl_chunks l) = l"
  by (induction l rule: sgl_chunks.induct) (subst sgl_chunks.simps, simp)

lemma sgl_chunks_bound: "c \<in> set (sgl_chunks l) \<Longrightarrow> 0 < length c \<and> length c \<le> 512"
  by (induction l rule: sgl_chunks.induct) (subst (asm) sgl_chunks.simps, auto split: if_splits)

definition append_request :: "u8 list \<Rightarrow> gh_memparcel_handle_t \<Rightarrow> bool \<Rightarrow> gh_sgl_desc \<Rightarrow> u32 \<times> u8 list" where
  "append_request gap handle last_piece sgl =
     (MEM_APPEND, le32 handle @ [if last_piece then 1 else 0] @ take 3 gap @ le16 (of_nat (length sgl)) @ take 2 (drop 3 gap) @ sgl_bytes sgl)"

fun append_requests :: "u8 list \<Rightarrow> gh_memparcel_handle_t \<Rightarrow> gh_sgl_desc list \<Rightarrow> (u32 \<times> u8 list) list" where
  "append_requests gap handle [] = []"
| "append_requests gap handle (c # cs) = append_request gap handle (cs = []) c # append_requests gap handle cs"

definition share_request ::
  "u32 \<Rightarrow> u8 \<Rightarrow> u8 \<Rightarrow> gh_label_t \<Rightarrow> gh_acl_desc \<Rightarrow> gh_sgl_desc \<Rightarrow> gh_mem_attr_desc option \<Rightarrow> u32 \<times> u8 list" where
  "share_request fn mem_type flags label acl sgl attrs =
     (fn, [mem_type, 0, flags, 0] @ le32 label @ gh_rm_populate_acl_desc (Some acl) @ gh_rm_populate_sgl_desc (Some sgl) 0 @
          gh_rm_populate_mem_attr_desc attrs)"

lemma rm_sized_scripted:
  "rm_sized_call scripted mid req n (log, (err, Inr (p, n)) # rs) = (Inr (desc p), log @ [(mid, req)], rs)"
  "rm_sized_call scripted mid req n (log, (err, Inl e) # rs) = (Inl e, log @ [(mid, req)], rs)"
  by (simp_all add: rm_sized_call_def)

lemma gh_rm_mem_append_scripted:
  assumes "length sgl \<le> 512"
  shows "gh_rm_mem_append gap scripted True h (if b then 1 else 0) sgl (log, rm_ok # rs) = (0, log @ [append_request gap h b sgl], rs)"
    and "gh_rm_mem_append gap scripted True h (if b then 1 else 0) sgl (log, (err, Inl e) # rs) = (e, log @ [append_request gap h b sgl], rs)"
proof -
  have "\<not> bad_flags (if b then 1 else 0) 1" by (simp add: bad_flags_def)
  then show "gh_rm_mem_append gap scripted True h (if b then 1 else 0) sgl (log, rm_ok # rs) = (0, log @ [append_request gap h b sgl], rs)"
    "gh_rm_mem_append gap scripted True h (if b then 1 else 0) sgl (log, (err, Inl e) # rs) = (e, log @ [append_request gap h b sgl], rs)"
    using assms by (simp_all add: gh_rm_mem_append_def rm_sized_scripted append_request_def)
qed

text \<open>One round of the loop takes the next piece.\<close>

lemma share_append_loop_step:
  assumes "idx < length sgl"
  shows "share_append_loop gap call kz h sgl idx s =
     (case gh_rm_mem_append gap call kz h (if sgl_chunks (drop (idx + 512) sgl) = [] then 1 else 0) (take 512 (drop idx sgl)) s of
        (ret, s) \<Rightarrow> if ret \<noteq> 0 then (ret, s) else share_append_loop gap call kz h sgl (min (idx + 512) (length sgl)) s)"
proof -
  have "take (min (idx + 512) (length sgl) - idx) (drop idx sgl) = take 512 (drop idx sgl)"
    by (cases "idx + 512 \<le> length sgl") (auto simp: min_def)
  moreover have "min (idx + 512) (length sgl) = length sgl \<longleftrightarrow> sgl_chunks (drop (idx + 512) sgl) = []"
    by (auto simp: min_def)
  ultimately show ?thesis
    using assms by (subst share_append_loop.simps) (simp add: Let_def cong: if_cong)
qed

lemma drop_min: "drop (min n (length l)) l = drop n l"
  by (simp add: min_def)

lemma share_append_loop_covers:
  assumes "\<not> length sgl < idx"
  shows "share_append_loop gap scripted True h sgl idx (log, replicate (length (sgl_chunks (drop idx sgl))) rm_ok @ rs) =
     (0, log @ append_requests gap h (sgl_chunks (drop idx sgl)), rs)"
  using assms
proof (induction "length (sgl_chunks (drop idx sgl))" arbitrary: idx log)
  case 0
  then show ?case by (subst share_append_loop.simps) simp
next
  case (Suc n)
  then have ix: "idx < length sgl" by (cases "drop idx sgl = []") auto
  let ?j = "min (idx + 512) (length sgl)"
  have c: "sgl_chunks (drop idx sgl) = take 512 (drop idx sgl) # sgl_chunks (drop ?j sgl)"
    using ix sgl_chunks_step [of "drop idx sgl"] by (simp add: drop_min add.commute)
  have "share_append_loop gap scripted True h sgl ?j (log', replicate (length (sgl_chunks (drop ?j sgl))) rm_ok @ rs) =
     (0, log' @ append_requests gap h (sgl_chunks (drop ?j sgl)), rs)" for log'
    using Suc.hyps(2) c by (intro Suc.hyps(1)) auto
  then show ?case
    unfolding share_append_loop_step [OF ix] c
    by (simp add: gh_rm_mem_append_scripted(1) drop_min del: sgl_chunks_Nil_iff)
qed

lemma share_append_loop_fails:
  assumes "\<not> length sgl < idx" and "j < length (sgl_chunks (drop idx sgl))" and "e \<noteq> 0"
  shows "share_append_loop gap scripted True h sgl idx (log, replicate j rm_ok @ (err, Inl e) # rs) =
     (e, log @ take (Suc j) (append_requests gap h (sgl_chunks (drop idx sgl))), rs)"
  using assms
proof (induction j arbitrary: idx log)
  case 0
  then have ix: "idx < length sgl" by (cases "drop idx sgl = []") auto
  have c: "sgl_chunks (drop idx sgl) = take 512 (drop idx sgl) # sgl_chunks (drop (idx + 512) sgl)"
    using ix sgl_chunks_step [of "drop idx sgl"] by (simp add: add.commute)
  show ?case unfolding share_append_loop_step [OF ix] c using 0(3)
    by (simp add: gh_rm_mem_append_scripted(2) del: sgl_chunks_Nil_iff)
next
  case (Suc j)
  then have ix: "idx < length sgl" by (cases "drop idx sgl = []") auto
  let ?j = "min (idx + 512) (length sgl)"
  have c: "sgl_chunks (drop idx sgl) = take 512 (drop idx sgl) # sgl_chunks (drop ?j sgl)"
    using ix sgl_chunks_step [of "drop idx sgl"] by (simp add: drop_min add.commute)
  have "share_append_loop gap scripted True h sgl ?j (log', replicate j rm_ok @ (err, Inl e) # rs) =
     (e, log' @ take (Suc j) (append_requests gap h (sgl_chunks (drop ?j sgl))), rs)" for log'
    using Suc.prems c by (intro Suc.IH) auto
  then show ?case unfolding share_append_loop_step [OF ix] c
    by (simp add: gh_rm_mem_append_scripted(1) drop_min del: sgl_chunks_Nil_iff)
qed

definition share_args_ok :: "u32 \<Rightarrow> u8 \<Rightarrow> u8 \<Rightarrow> gh_acl_desc \<Rightarrow> gh_sgl_desc \<Rightarrow> gh_mem_attr_desc option \<Rightarrow> bool" where
  "share_args_ok fn mem_type flags acl sgl attrs \<longleftrightarrow> fn \<in> {MEM_SHARE, MEM_LEND, MEM_DONATE} \<and> mem_type_ok mem_type \<and>
     \<not> bad_flags flags 1 \<and> acl \<noteq> [] \<and> length acl < 65536 \<and> sgl \<noteq> [] \<and> attrs \<noteq> Some []"

lemma share_lend_helper_run:
  assumes "share_args_ok fn mem_type flags acl sgl attrs"
  shows "gh_rm_mem_share_lend_helper junk gap scripted True fn mem_type flags label (Some acl) (Some sgl) attrs
       (log, (Some 0, Inr (Some (le32 h), 4)) # rs) =
     (case share_append_loop gap scripted True h sgl (min 512 (length sgl))
        (log @ [share_request fn mem_type (if 512 < length sgl then flags OR 2 else flags) label acl sgl attrs], rs) of
        (ret, s) \<Rightarrow> if ret \<noteq> 0 then Done (Inl ret) (snd (gh_rm_mem_reclaim junk scripted h 0 s)) else Done (Inr h) s)"
proof -
  have u: "unat (of_nat (length acl) :: u16) = length acl" using assms by (simp add: share_args_ok_def unsigned_of_nat take_bit_nat_eq_self_iff)
  have m: "(if 512 < length sgl then 512 else length sgl) = min 512 (length sgl)" by (simp add: min_def)
  let ?hdr = "[mem_type, 0, if 512 < length sgl then flags OR 2 else flags, 0] @ le32 label"
  have "mem_req_hdr_size fn = Some (length ?hdr)" using assms by (auto simp: share_args_ok_def mem_req_hdr_size_def)
  from mem_request_exact [OF this, of "Some acl" "Some sgl" attrs 0]
  have "mem_request True fn (length acl) (min 512 (length sgl)) (length (desc attrs)) ?hdr (Some acl) (Some sgl) 0 attrs =
      Some (Inr (snd (share_request fn mem_type (if 512 < length sgl then flags OR 2 else flags) label acl sgl attrs)))"
    by (simp add: share_request_def desc_def)
  moreover have "of_le32 (le32 h) = h" using of_le32_le32 [of h "[]"] by simp
  ultimately show ?thesis
    using assms unfolding gh_rm_mem_share_lend_helper_def
    by (auto simp: share_args_ok_def desc_def Let_def u m rm_sized_scripted share_request_def
        cong: if_cong split: prod.splits option.splits)
qed

lemma tl_sgl_chunks: "tl (sgl_chunks l) = sgl_chunks (drop 512 l)"
  by (cases "l = []") (simp_all add: sgl_chunks_step)

text \<open>C6: Sharing, lending and donating send the whole list of pages: the pieces are at most 512
  entries, their concatenation is the list, the first goes with the request (which announces
  more exactly when there is more) and every other one in an append request of the new parcel,
  the last of which is marked; the caller gets the parcel's handle. When the Resource Manager
  refuses a piece, nothing more is sent but the request that takes the unfinished parcel back,
  and the caller gets the error.\<close>

theorem gh_rm_mem_share_covers:
  assumes "share_args_ok fn mem_type flags acl sgl attrs" and "cs = sgl_chunks sgl"
    and "first = share_request fn mem_type (if 512 < length sgl then flags OR 2 else flags) label acl sgl attrs"
  shows "concat cs = sgl \<and> (\<forall>c\<in>set cs. 0 < length c \<and> length c \<le> 512) \<and>
    gh_rm_mem_share_lend_helper junk gap scripted True fn mem_type flags label (Some acl) (Some sgl) attrs
      (log, (Some 0, Inr (Some (le32 h), 4)) # replicate (length cs - 1) rm_ok @ rs) =
      Done (Inr h) (log @ first # append_requests gap h (tl cs), rs) \<and>
    (\<forall>j err e. j < length cs - 1 \<longrightarrow> e \<noteq> 0 \<longrightarrow>
      gh_rm_mem_share_lend_helper junk gap scripted True fn mem_type flags label (Some acl) (Some sgl) attrs
        (log, (Some 0, Inr (Some (le32 h), 4)) # replicate j rm_ok @ (err, Inl e) # rm_ok # rs) =
        Done (Inl e) (log @ first # take (Suc j) (append_requests gap h (tl cs)) @ [(MEM_RECLAIM, le32 h @ [0, 0, 0, 0])], rs))"
proof -
  have d: "sgl_chunks (drop (min 512 (length sgl)) sgl) = tl cs" "length cs - 1 = length (tl cs)" "\<not> length sgl < min 512 (length sgl)"
    unfolding assms(2) by (simp_all add: drop_min tl_sgl_chunks [symmetric])
  have r: "gh_rm_mem_reclaim junk scripted h 0 (lg, rm_ok # rs) = (0, lg @ [(MEM_RECLAIM, le32 h @ [0, 0, 0, 0])], rs)" for lg
    by (simp add: gh_rm_mem_reclaim_def gh_rm_mem_release_helper_def rm_unchecked_def bad_flags_def)
  have "gh_rm_mem_share_lend_helper junk gap scripted True fn mem_type flags label (Some acl) (Some sgl) attrs
      (log, (Some 0, Inr (Some (le32 h), 4)) # replicate (length cs - 1) rm_ok @ rs) =
      Done (Inr h) (log @ first # append_requests gap h (tl cs), rs)"
    using share_append_loop_covers [OF d(3), where log = "log @ [first]"] unfolding d(1,2)
    by (simp add: share_lend_helper_run [OF assms(1)] assms(3))
  moreover have "gh_rm_mem_share_lend_helper junk gap scripted True fn mem_type flags label (Some acl) (Some sgl) attrs
        (log, (Some 0, Inr (Some (le32 h), 4)) # replicate j rm_ok @ (err, Inl e) # rm_ok # rs) =
        Done (Inl e) (log @ first # take (Suc j) (append_requests gap h (tl cs)) @ [(MEM_RECLAIM, le32 h @ [0, 0, 0, 0])], rs)"
    if "j < length cs - 1" "e \<noteq> 0" for j err e
    using share_append_loop_fails [OF d(3), of j, unfolded d(1), OF that [unfolded d(2)], where log = "log @ [first]"] that(2) r
    by (simp add: share_lend_helper_run [OF assms(1)] assms(3))
  moreover have "concat cs = sgl" unfolding assms(2) by simp
  moreover have "\<forall>c\<in>set cs. 0 < length c \<and> length c \<le> 512" unfolding assms(2) using sgl_chunks_bound by blast
  ultimately show ?thesis by blast
qed

theorem gh_rm_mem_share_covers_witness:
  "let sgl = replicate 600 (0x1000, 0x1000); gap = [0, 0, 0, 0, 0] in
   gh_rm_mem_share_lend_helper 0 gap scripted True MEM_SHARE 0 0 7 (Some [(3, 7)]) (Some sgl) None
     ([], [(Some 0, Inr (Some (le32 9), 4)), rm_ok]) =
   Done (Inr 9) ([share_request MEM_SHARE 0 2 7 [(3, 7)] sgl None, append_request gap 9 True (replicate 88 (0x1000, 0x1000))], [])"
proof -
  let ?l = "replicate 600 (0x1000, 0x1000) :: gh_sgl_desc"
  have c: "sgl_chunks ?l = [replicate 512 (0x1000, 0x1000), replicate 88 (0x1000, 0x1000)]"
    by (simp add: sgl_chunks_step)
  have "share_args_ok MEM_SHARE 0 0 [(3, 7)] ?l None"
    by (simp add: share_args_ok_def mem_type_ok_def bad_flags_def)
  from gh_rm_mem_share_covers [OF this refl refl, where junk = 0 and gap = "[0, 0, 0, 0, 0]" and log = "[]" and h = 9 and rs = "[]" and label = 7]
  show ?thesis unfolding c Let_def by simp
qed

section \<open>Accepting\<close>

lemma of_le64_pair [simp]: "of_le64 (le64_pair w @ r) = w"
proof -
  have "of_le64 (le64_pair w @ r) = ucast (ucast w :: u32) OR push_bit 32 (ucast (ucast (drop_bit 32 w) :: u32))"
    by (simp add: of_le64_def le64_pair_def)
  also have "\<dots> = w"
    by (rule bit_word_eqI) (auto simp: bit_simps dest: bit_imp_le_length)
  finally show ?thesis .
qed

lemma length_le64_pair [simp]: "length (le64_pair w) = 8"
  by (simp add: le64_pair_def)

lemma sgl_take_bytes: "sgl_take (length l) (sgl_bytes l @ r) = l"
proof (induction l)
  case (Cons x l)
  obtain b n where x: "x = (b, n)" by (cases x)
  have e: "sgl_bytes (x # l) @ r = le64_pair b @ le64_pair n @ sgl_bytes l @ r"
    by (simp add: sgl_bytes_def x)
  show ?case using Cons unfolding e by (simp add: x)
qed simp

text \<open>The answer with one piece of the list.\<close>

definition piece_reply :: "bool \<Rightarrow> gh_sgl_desc \<Rightarrow> rm_call_result" where
  "piece_reply inc sgl =
     (Some 0, Inr (Some (le16 (of_nat (length sgl)) @ [if inc then 1 else 0, 0] @ sgl_bytes sgl), 4 + 16 * length sgl))"

fun piece_replies :: "gh_sgl_desc list \<Rightarrow> rm_call_result list" where
  "piece_replies [] = []"
| "piece_replies (f # fs) = piece_reply (fs \<noteq> []) f # piece_replies fs"

definition gather_ok :: "gh_sgl_fragment \<Rightarrow> bool" where
  "gather_ok g \<longleftrightarrow> unat (sf_n_sgl_entries g) = length (concat (sf_list g))"

lemma gh_sgl_fragment_append_ok:
  assumes "gather_ok g" and "length (concat (sf_list g)) + length f \<le> 65535"
  obtains g' where "gh_sgl_fragment_append True g f = (0, g')" and "gather_ok g'" and "sf_list g' = f # sf_list g"
proof -
  let ?n = "sf_n_sgl_entries g + of_nat (length f)"
  have "unat (of_nat (length f) :: u16) = length f" using assms(2) by (simp add: unat_of_nat)
  then have "unat ?n = length (concat (sf_list g)) + length f"
    using assms by (simp add: gather_ok_def unat_word_ariths)
  moreover have "\<not> 65535 - unat (sf_n_sgl_entries g) < length f" using assms by (simp add: gather_ok_def)
  ultimately show ?thesis
    by (intro that [of "\<lparr>sf_list = f # sf_list g, sf_n_sgl_entries = ?n\<rparr>"]) (auto simp: gh_sgl_fragment_append_def gather_ok_def)
qed

lemma accept_loop_piece:
  assumes "length f \<le> 65535"
  shows "accept_loop (Suc n) scripted True req False prog g (log, piece_reply inc f # rs) =
    (case gh_sgl_fragment_append True g f of
       (ret, g) \<Rightarrow> if ret \<noteq> 0 then Done (Inl (- ENOMEM, True)) (log @ [(MEM_ACCEPT, req)], rs)
         else if inc then accept_loop n scripted True req False True g (log @ [(MEM_ACCEPT, req)], rs)
         else Done (Inr g) (log @ [(MEM_ACCEPT, req)], rs))"
proof -
  let ?p = "le16 (of_nat (length f)) @ [if inc then 1 else 0, 0] @ sgl_bytes f"
  have u: "unat (of_le16 ?p) = length f" using assms unfolding of_le16_le16 by (simp add: unat_of_nat)
  have "gh_rm_mem_accept_check_resp ?p (4 + 16 * length f) False = 0"
    unfolding gh_rm_mem_accept_check_resp_def Let_def u by simp
  moreover have "sgl_of_resp ?p = f"
    unfolding sgl_of_resp_def u using sgl_take_bytes [of f "[]"] by simp
  moreover have "?p ! 2 = (if inc then 1 else 0)" by (simp add: nth_append)
  ultimately show ?thesis by (cases inc; cases "gh_sgl_fragment_append True g f") (simp_all add: piece_reply_def desc_def)
qed

lemma accept_loop_gathers:
  assumes "gather_ok g" and "fs \<noteq> []" and "length (concat (sf_list g)) + length (concat fs) \<le> 65535" and "length fs \<le> n"
  shows "\<exists>g'. accept_loop n scripted True req False prog g (log, piece_replies fs @ rs) =
      Done (Inr g') (log @ replicate (length fs) (MEM_ACCEPT, req), rs) \<and> gather_ok g' \<and> sf_list g' = rev fs @ sf_list g"
  using assms
proof (induction fs arbitrary: g n log prog)
  case (Cons f fs)
  obtain m where n: "n = Suc m" using Cons.prems(4) by (cases n) auto
  obtain g1 where g1: "gh_sgl_fragment_append True g f = (0, g1)" "gather_ok g1" "sf_list g1 = f # sf_list g"
    by (rule gh_sgl_fragment_append_ok [OF Cons.prems(1), of f]) (use Cons.prems(3) in auto)
  have f: "length f \<le> 65535" using Cons.prems(3) by simp
  show ?case
  proof (cases "fs = []")
    case True
    then show ?thesis using g1 f by (simp add: n accept_loop_piece del: accept_loop.simps)
  next
    case False
    have "\<exists>g'. accept_loop m scripted True req False True g1 (log @ [(MEM_ACCEPT, req)], piece_replies fs @ rs) =
      Done (Inr g') ((log @ [(MEM_ACCEPT, req)]) @ replicate (length fs) (MEM_ACCEPT, req), rs) \<and> gather_ok g' \<and> sf_list g' = rev fs @ sf_list g1"
      using Cons.prems False g1 n by (intro Cons.IH) auto
    then show ?thesis using g1 f False by (auto simp: n accept_loop_piece simp del: accept_loop.simps)
  qed
qed simp

definition accept_request :: "gh_memparcel_handle_t \<Rightarrow> u8 \<Rightarrow> u8 \<Rightarrow> u8 \<Rightarrow> u32 \<Rightarrow> u16 \<Rightarrow> u8 list" where
  "accept_request handle mem_type trans_type flags label map_vmid =
     le32 handle @ [mem_type, trans_type, flags, 0] @ le32 label @ [0, 0, 0, 0] @ [0, 0] @ le16 map_vmid @ [0, 0, 0, 0]"

definition accept_args_ok :: "u8 \<Rightarrow> u8 \<Rightarrow> u8 \<Rightarrow> bool" where
  "accept_args_ok mem_type trans_type flags \<longleftrightarrow> mem_type_ok mem_type \<and> trans_type \<in> {0, 1, 2} \<and> \<not> bad_flags flags 0x97"

lemma accept_prepare:
  assumes "accept_args_ok mem_type trans_type flags" and "flags AND 2 = 0"
  shows "gh_rm_mem_accept_prepare_request True handle mem_type trans_type flags label None None None map_vmid =
    Some (Inr (\<lambda>fl. (accept_request handle mem_type trans_type flags (if flags AND 4 \<noteq> 0 then label else 0) map_vmid)[6 := fl]))"
proof -
  let ?l = "if flags AND 4 \<noteq> 0 then label else 0"
  let ?hdr = "le32 handle @ [mem_type, trans_type, flags, 0] @ le32 ?l"
  have z: "le32 0 = [0, 0, 0, 0]" "le16 0 = [0, 0]" by (simp_all add: le32_def le16_def)
  have h: "(if flags AND 4 \<noteq> 0 then le32 label else [0, 0, 0, 0]) = le32 ?l" by (simp add: z)
  have "mem_req_hdr_size MEM_ACCEPT = Some (length ?hdr)" by (simp add: mem_req_hdr_size_def)
  from mem_request_exact [OF this, of None None None map_vmid]
  have "mem_request True MEM_ACCEPT 0 0 0 ?hdr None None map_vmid None =
      Some (Inr (accept_request handle mem_type trans_type flags ?l map_vmid))"
    by (simp add: desc_def gh_rm_populate_acl_desc_def gh_rm_populate_sgl_desc_def gh_rm_populate_mem_attr_desc_def sgl_bytes_def z
        accept_request_def)
  then show ?thesis using assms
    by (auto simp: gh_rm_mem_accept_prepare_request_def accept_args_ok_def Let_def desc_def h cong: if_cong)
qed

lemma accept_request_upd:
  "(accept_request handle mem_type trans_type flags label map_vmid)[6 := fl] = accept_request handle mem_type trans_type fl label map_vmid"
  by (simp add: accept_request_def list_update_append)

text \<open>C12: Accepting a parcel whose list of pages arrives in any number of pieces returns every
  entry of it once, asks for the pieces with the same request and sends the final flag, if the
  caller set it, only after the last piece; but the pieces are joined in reverse order, so the
  list is the parcel's own only when it fits one reply.\<close>

theorem gh_rm_mem_accept_gathers:
  assumes "accept_args_ok mem_type trans_type flags" "flags AND 2 = 0" "flags AND 0x10 = 0"
    and "fs \<noteq> []" "length (concat fs) \<le> 65535" "length fs \<le> fuel"
    and "req = (\<lambda>fl. (MEM_ACCEPT, accept_request handle mem_type trans_type fl (if flags AND 4 \<noteq> 0 then label else 0) map_vmid))"
    and "last_call = (flags AND 0x80 \<noteq> 0)"
  shows "gh_rm_mem_accept junk fuel scripted True handle mem_type trans_type flags label None None None map_vmid
      (log, piece_replies fs @ (if last_call then [rm_ok] else []) @ rs) =
      Done (Inr (concat (rev fs)))
        (log @ replicate (length fs) (req (flags AND NOT 0x80)) @ (if last_call then [req (flags AND NOT 0x80 OR 0x80)] else []), rs)"
proof -
  let ?g = "\<lparr>sf_list = [], sf_n_sgl_entries = 0\<rparr>" and ?fl = "flags AND NOT 0x80"
  have "gather_ok ?g" by (simp add: gather_ok_def)
  then obtain g where g: "accept_loop fuel scripted True (snd (req ?fl)) False False ?g (log, piece_replies fs @ (if last_call then [rm_ok] else []) @ rs) =
      Done (Inr g) (log @ replicate (length fs) (MEM_ACCEPT, snd (req ?fl)), (if last_call then [rm_ok] else []) @ rs)"
      "gather_ok g" "sf_list g = rev fs"
    using accept_loop_gathers [of ?g fs fuel "snd (req ?fl)" False log "(if last_call then [rm_ok] else []) @ rs"] assms(4-6) by auto
  have c: "gh_sgl_fragment_combine True g = Some (Inr (concat (rev fs)))"
    using g(2,3) by (simp add: gh_sgl_fragment_combine_def gather_ok_def)
  have r: "(MEM_ACCEPT, snd (req fl)) = req fl" for fl by (simp add: assms(7))
  have q: "(accept_request handle mem_type trans_type flags (if flags AND 4 \<noteq> 0 then label else 0) map_vmid)[6 := fl] = snd (req fl)" for fl
    by (simp add: accept_request_upd assms(7))
  show ?thesis
    unfolding gh_rm_mem_accept_def accept_prepare [OF assms(1,2)] option.case sum.case gh_sgl_fragment_init_def q Let_def
    using g(1) c assms(3,8) by (cases last_call) (simp_all add: accept_finish_def r)
qed

theorem gh_rm_mem_accept_gathers_witness:
  "fst (case gh_rm_mem_accept 0 2 scripted True 9 0 2 0x80 0 None None None 0 ([], piece_replies [[(1, 2)], [(3, 4)]] @ [rm_ok])
        of Done r s \<Rightarrow> (r, s)) = Inr [(3, 4), (1, 2)]"
proof -
  have "accept_args_ok 0 2 0x80" by (simp add: accept_args_ok_def mem_type_ok_def bad_flags_def)
  from gh_rm_mem_accept_gathers [OF this, of "[[(1, 2)], [(3, 4)]]" 2 _ 9 0 0 _ 0 "[]" "[]", OF _ _ _ _ _ refl refl]
  show ?thesis by simp
qed

text \<open>Accepting a parcel with an access list but without the flag that asks for its validation
  writes past the end of the request: the list is not counted when the buffer is allocated but
  copied into it all the same.\<close>

theorem gh_rm_mem_accept_overflow:
  assumes "accept_args_ok mem_type trans_type flags" "flags AND 2 = 0" and "acl \<noteq> []" and "length (desc sgl) \<le> 512"
  shows "gh_rm_mem_accept junk fuel call True handle mem_type trans_type flags label (Some acl) sgl attrs map_vmid s = Fault"
proof -
  let ?hdr = "le32 handle @ [mem_type, trans_type, flags, 0] @ (if flags AND 4 \<noteq> 0 then le32 label else [0, 0, 0, 0])"
  have "mem_req_hdr_size MEM_ACCEPT = Some (length ?hdr)" by (simp add: mem_req_hdr_size_def)
  from mem_request_overflow [OF this, of 0 "Some acl" 0 attrs sgl map_vmid]
  have "mem_request True MEM_ACCEPT 0 (length (desc sgl)) 0 ?hdr (Some acl) sgl map_vmid attrs = None"
    using assms(3,4) by (simp add: desc_def min_absorb2)
  then show ?thesis using assms
    by (simp add: gh_rm_mem_accept_def gh_rm_mem_accept_prepare_request_def accept_args_ok_def Let_def)
qed

theorem gh_rm_mem_accept_overflow_witness:
  "gh_rm_mem_accept 0 1 scripted True 9 0 2 0 0 (Some [(3, 7)]) None None 0 ([], []) = Fault"
proof -
  have "accept_args_ok 0 2 0" by (simp add: accept_args_ok_def mem_type_ok_def bad_flags_def)
  then show ?thesis using gh_rm_mem_accept_overflow [of 0 2 0 "[(3, 7)]" None] by (simp add: desc_def)
qed

text \<open>When no reply arrives, giving memory back is reported as done if the uninitialised
  variable happens to be 0.\<close>

theorem gh_rm_mem_reclaim_false_success:
  assumes "call MEM_RECLAIM (le32 handle @ [0, 0, 0, 0]) s = ((None, Inl e), t)"
  shows "gh_rm_mem_reclaim 0 call handle 0 s = (0, t)"
  using assms by (simp add: gh_rm_mem_reclaim_def gh_rm_mem_release_helper_def rm_unchecked_def bad_flags_def)

end
