(* ===== verification/Vm_Memory.thy ===== *)
theory Vm_Memory
  imports Rm_Mem
begin

text \<open>
  Giving memory to a VM and taking it back (\<^verbatim>\<open>drivers/virt/gunyah/gh_main.c\<close>). The parameter \<open>scm\<close> is
  \<^verbatim>\<open>qcom_scm_assign_mem\<close>, which moves a range of memory from the VMs of a bit mask to a list of VMs
  with permissions, and \<open>call\<close> is \<^verbatim>\<open>gh_rm_call\<close>; both act on a state \<open>'s\<close>. \<^verbatim>\<open>BIT(vmid)\<close> is meant for
  numbers below 64. \<open>kz\<close> says whether a function's own allocations succeed, \<open>kr\<close> those of the Resource
  Manager calls it makes.
\<close>

section \<open>Data\<close>

record gh_mem_parcel =
  mem_phys :: u64
  mem_size :: u64

text \<open>The VM object; a vCPU is the address of its object, the wait queues and locks have no state.\<close>

record gh_vm =
  vm_is_secure_vm :: bool
  vm_run_once :: bool
  vm_created_vcpus :: u32
  vm_allowed_vcpus :: u32
  vm_vmid :: gh_vmid_t
  vm_vcpus :: "ptr option list"
  vm_fw_name :: string
  vm_status :: u8
  vm_exit_type :: int
  vm_users_count :: nat
  vm_mem_handle :: gh_memparcel_handle_t
  vm_cap_id :: gh_capid_t
  vm_susp_irq :: int
  vm_suspend_type :: u64

text \<open>The two pairs of arrays are lists of numbers with permissions.\<close>

record gh_shmem =
  sh_base :: u64
  sh_size :: u64
  sh_src :: "(u32 \<times> u32) list"
  sh_dst :: "(u32 \<times> u32) list"
  sh_gunyah_label :: gh_label_t
  sh_is_shared :: bool
  sh_shmem_handle :: gh_memparcel_handle_t

abbreviation (input) QCOM_SCM_VMID_HLOS :: gh_vmid_t where "QCOM_SCM_VMID_HLOS \<equiv> 3"
abbreviation (input) QCOM_SCM_PERM_RWX :: u32 where "QCOM_SCM_PERM_RWX \<equiv> 7"

type_synonym qcom_scm_vmperm = "gh_vmid_t \<times> u32"
type_synonym 's scm_assign = "u64 \<Rightarrow> u64 \<Rightarrow> u64 \<Rightarrow> qcom_scm_vmperm list \<Rightarrow> 's \<Rightarrow> int \<times> 's"

definition BIT :: "gh_vmid_t \<Rightarrow> u64" where
  "BIT vmid = push_bit (unat vmid) 1"

section \<open>Memory of a VM\<close>

text \<open>The loop of \<^verbatim>\<open>gh_reclaim_mem\<close> and of the first part of \<^verbatim>\<open>gh_provide_mem\<close> stops at
  the first failure.\<close>

fun assign_parcels :: "'s scm_assign \<Rightarrow> u64 \<Rightarrow> qcom_scm_vmperm list \<Rightarrow> gh_mem_parcel list \<Rightarrow> int \<Rightarrow> 's \<Rightarrow> int \<times> 's" where
  "assign_parcels scm src dst [] ret s = (ret, s)"
| "assign_parcels scm src dst (p # ps) ret s =
     (case scm (mem_phys p) (mem_size p) src dst s of
        (ret, s) \<Rightarrow> if ret \<noteq> 0 then (ret, s) else assign_parcels scm src dst ps ret s)"

text \<open>The loop that undoes the assignments goes on after a failure; its last result is returned.\<close>

fun unassign_parcels :: "'s scm_assign \<Rightarrow> u64 \<Rightarrow> qcom_scm_vmperm list \<Rightarrow> gh_mem_parcel list \<Rightarrow> int \<Rightarrow> 's \<Rightarrow> int \<times> 's" where
  "unassign_parcels scm src dst [] ret s = (ret, s)"
| "unassign_parcels scm src dst (p # ps) ret s =
     (case scm (mem_phys p) (mem_size p) src dst s of (ret, s) \<Rightarrow> unassign_parcels scm src dst ps ret s)"

definition gh_reclaim_mem ::
  "u32 \<Rightarrow> 's rm_caller \<Rightarrow> 's scm_assign \<Rightarrow> gh_vm \<Rightarrow> gh_mem_parcel list \<Rightarrow> bool \<Rightarrow> 's \<Rightarrow> int \<times> 's" where
  "gh_reclaim_mem junk call scm vm mem_parcels is_system_vm s =
     (case (if is_system_vm then (0, s) else gh_rm_mem_reclaim junk call (vm_mem_handle vm) 0 s) of
        (ret, s) \<Rightarrow> assign_parcels scm (BIT QCOM_SCM_VMID_HLOS OR BIT (vm_vmid vm)) [(QCOM_SCM_VMID_HLOS, QCOM_SCM_PERM_RWX)]
                      mem_parcels ret s)"

definition parcels_sgl :: "gh_mem_parcel list \<Rightarrow> gh_sgl_desc" where
  "parcels_sgl ps = take (unat (of_nat (length ps) :: u16)) (map (\<lambda>p. (mem_phys p, mem_size p)) ps)"

definition gh_provide_mem ::
  "u32 \<Rightarrow> u8 list \<Rightarrow> 's rm_caller \<Rightarrow> bool \<Rightarrow> bool \<Rightarrow> 's scm_assign \<Rightarrow> gh_vm \<Rightarrow> gh_mem_parcel list \<Rightarrow> bool \<Rightarrow> 's \<Rightarrow> (int \<times> gh_vm, 's) outcome" where
  "gh_provide_mem junk gap call kz kr scm vm mem_parcels is_system_vm s =
     (if \<not> kz then Done (- ENOMEM, vm) s
      else let vmid = vm_vmid vm;
               acl = [(QCOM_SCM_VMID_HLOS, 7), (vmid, 7)];
               srcVM = [(QCOM_SCM_VMID_HLOS, QCOM_SCM_PERM_RWX)];
               destVM = [(QCOM_SCM_VMID_HLOS, QCOM_SCM_PERM_RWX), (vmid, QCOM_SCM_PERM_RWX)];
               share = (if is_system_vm then gh_rm_mem_donate else gh_rm_mem_share) in
        (case assign_parcels scm (BIT QCOM_SCM_VMID_HLOS) destVM mem_parcels 0 s of
           (ret, s) \<Rightarrow>
             if ret \<noteq> 0 then Done (ret, vm) s
             else obind (share junk gap call kr 0 0 0 (Some acl) (Some (parcels_sgl mem_parcels)) None s) (\<lambda>r s.
               case r of
                 Inr handle \<Rightarrow> Done (0, vm\<lparr>vm_mem_handle := handle\<rparr>) s
               | Inl ret \<Rightarrow>
                   if ret = 0 then Done (0, vm) s
                   else (case unassign_parcels scm (BIT QCOM_SCM_VMID_HLOS OR BIT vmid) srcVM mem_parcels ret s of
                           (ret, s) \<Rightarrow> Done (ret, vm) s))))"

section \<open>Memory shared between VMs\<close>

text \<open>\<^verbatim>\<open>set_vmperm_bit\<close>: the entry and the mask with its bit.\<close>

definition set_vmperm_bit :: "u64 \<Rightarrow> gh_vmid_t \<Rightarrow> u32 \<Rightarrow> qcom_scm_vmperm \<times> u64" where
  "set_vmperm_bit bit_vmid vmid perm = ((vmid, perm), bit_vmid OR BIT vmid)"

fun vmperms :: "u64 \<Rightarrow> (u32 \<times> u32) list \<Rightarrow> qcom_scm_vmperm list \<times> u64" where
  "vmperms b [] = ([], b)"
| "vmperms b ((v, p) # l) =
     (case set_vmperm_bit b (ucast v) p of (e, b) \<Rightarrow> (case vmperms b l of (es, b) \<Rightarrow> (e # es, b)))"

definition gh_reclaim_shmem ::
  "u32 \<Rightarrow> 's rm_caller \<Rightarrow> bool \<Rightarrow> 's scm_assign \<Rightarrow> gh_vm \<Rightarrow> gh_shmem \<Rightarrow> 's \<Rightarrow> int \<times> 's" where
  "gh_reclaim_shmem junk call kz scm vm sh s =
     (if \<not> kz then (- ENOMEM, s)
      else let dstVM = fst (vmperms 0 (sh_src sh)) @ [(QCOM_SCM_VMID_HLOS, QCOM_SCM_PERM_RWX)];
               srcvmid = fold (\<lambda>(v, p) b. b OR BIT (ucast v)) (sh_dst sh) 0 OR BIT (vm_vmid vm);
               srcvmid = (if sh_is_shared sh then srcvmid OR BIT QCOM_SCM_VMID_HLOS else srcvmid);
               s = snd (gh_rm_mem_reclaim junk call (sh_shmem_handle sh) 0 s)
           in scm (sh_base sh) (sh_size sh) srcvmid dstVM s)"

definition gh_provide_shmem ::
  "u32 \<Rightarrow> u8 list \<Rightarrow> 's rm_caller \<Rightarrow> bool \<Rightarrow> bool \<Rightarrow> 's scm_assign \<Rightarrow> gh_vm \<Rightarrow> gh_shmem \<Rightarrow> 's \<Rightarrow> (int \<times> gh_shmem, 's) outcome" where
  "gh_provide_shmem junk gap call kz kr scm vm sh s =
     (if \<not> kz then Done (- ENOMEM, sh) s
      else let (src, sb) = vmperms 0 (sh_src sh);
               (hlos, srcvmid) = set_vmperm_bit sb QCOM_SCM_VMID_HLOS QCOM_SCM_PERM_RWX;
               (dst, db) = vmperms 0 (sh_dst sh);
               (dst, db) = (if sh_is_shared sh
                 then (case set_vmperm_bit db QCOM_SCM_VMID_HLOS QCOM_SCM_PERM_RWX of (e, b) \<Rightarrow> (dst @ [e], b)) else (dst, db));
               (own, dstvmid) = set_vmperm_bit db (vm_vmid vm) QCOM_SCM_PERM_RWX;
               dstVM = dst @ [own];
               acl = map (\<lambda>(v, p). (v, ucast p)) dstVM;
               share = (if sh_is_shared sh then gh_rm_mem_share else gh_rm_mem_lend) in
        (case scm (sh_base sh) (sh_size sh) srcvmid dstVM s of
           (ret, s) \<Rightarrow>
             if ret \<noteq> 0 then Done (ret, sh) s
             else obind (share junk gap call kr 0 0 (sh_gunyah_label sh) (Some acl) (Some [(sh_base sh, sh_size sh)]) None s) (\<lambda>r s.
               case r of
                 Inr handle \<Rightarrow> Done (0, sh\<lparr>sh_shmem_handle := handle\<rparr>) s
               | Inl ret \<Rightarrow>
                   if ret = 0 then Done (0, sh) s
                   else (case scm (sh_base sh) (sh_size sh) dstvmid (src @ [hlos]) s of (ret, s) \<Rightarrow> Done (ret, sh) s))))"

end
