(* ===== verification/Vm_Memory_Correct.thy ===== *)
theory Vm_Memory_Correct
  imports Vm_Memory Rm_Mem_Correct
begin

text \<open>
  Properties of giving memory to a VM: who may use the memory before, in between and after.
  \<open>own\<close> reads from the state the mask of the VMs that may use the range at an address. The two
  hypotheses are what the code relies on: \<^verbatim>\<open>qcom_scm_assign_mem\<close> moves a range that belongs to the
  given VMs, and Resource Manager calls do not move memory themselves.
\<close>

definition scm_mask :: "qcom_scm_vmperm list \<Rightarrow> u64" where
  "scm_mask dst = fold (\<lambda>(v, p) b. b OR BIT v) dst 0"

definition scm_moves :: "('s \<Rightarrow> u64 \<Rightarrow> u64) \<Rightarrow> 's scm_assign \<Rightarrow> bool" where
  "scm_moves own scm \<longleftrightarrow> (\<forall>p n dst s. \<exists>t. scm p n (own s p) dst s = (0, t) \<and> own t = (own s)(p := scm_mask dst))"

definition call_keeps :: "('s \<Rightarrow> 'o) \<Rightarrow> 's rm_caller \<Rightarrow> bool" where
  "call_keeps own call \<longleftrightarrow> (\<forall>mid req s. own (snd (call mid req s)) = own s)"

section \<open>Resource Manager calls move no memory\<close>

lemma rm_unchecked_keeps: "call_keeps own call \<Longrightarrow> own (snd (rm_unchecked junk call mid req s)) = own s"
  by (simp add: rm_unchecked_def call_keeps_def Let_def split: prod.splits) (metis snd_conv)

lemma gh_rm_mem_reclaim_keeps: "call_keeps own call \<Longrightarrow> own (snd (gh_rm_mem_reclaim junk call h fl s)) = own s"
  by (simp add: gh_rm_mem_reclaim_def gh_rm_mem_release_helper_def rm_unchecked_keeps)

lemma rm_sized_call_keeps: "call_keeps own call \<Longrightarrow> own (snd (rm_sized_call call mid req n s)) = own s"
  by (simp add: rm_sized_call_def call_keeps_def split: prod.splits sum.splits) (metis snd_conv)

lemma gh_rm_mem_append_keeps:
  assumes "call_keeps own call"
  shows "own (snd (gh_rm_mem_append gap call kz h fl sgl s)) = own s"
  using rm_sized_call_keeps [OF assms] unfolding gh_rm_mem_append_def
  by (auto split: prod.splits sum.splits) (metis snd_conv)+

lemma share_append_loop_keeps:
  assumes "call_keeps own call"
  shows "own (snd (share_append_loop gap call kz h sgl idx s)) = own s"
proof (induction "length sgl - idx" arbitrary: idx s rule: less_induct)
  case less
  show ?case
  proof (cases "idx < length sgl")
    case False
    then show ?thesis by (subst share_append_loop.simps) simp
  next
    case True
    let ?j = "min (idx + 512) (length sgl)"
    have "own (snd (share_append_loop gap call kz h sgl ?j t)) = own t" for t
      using True by (intro less) auto
    then show ?thesis
      unfolding share_append_loop_step [OF True] using gh_rm_mem_append_keeps [OF assms]
      by (auto split: prod.splits) (metis snd_conv)+
  qed
qed

text \<open>With few access entries the request fits its buffer, so the helper returns.\<close>

lemma share_lend_helper_returns:
  assumes "call_keeps own call" and "length acl < 65536" and "fn \<in> {MEM_SHARE, MEM_LEND, MEM_DONATE}"
  shows "\<exists>r t. gh_rm_mem_share_lend_helper junk gap call kr fn mem_type flags label (Some acl) (Some sgl) attrs s = Done r t \<and> own t = own s"
proof -
  let ?n = "if 512 < length sgl then 512 else length sgl" and ?fl = "if 512 < length sgl then flags OR 2 else flags"
  let ?hdr = "[mem_type, 0, ?fl, 0] @ le32 label"
  have u: "unat (of_nat (length acl) :: u16) = length acl" using assms(2) by (simp add: unat_of_nat)
  have h: "mem_req_hdr_size fn = Some (length ?hdr)" using assms(3) by (auto simp: mem_req_hdr_size_def)
  have n: "?n = min 512 (length sgl)" by simp
  obtain x where x: "mem_request kr fn (length acl) ?n (length (desc attrs)) ?hdr (Some acl) (Some sgl) 0 attrs = Some x"
  proof (cases kr)
    case True
    then show ?thesis using that mem_request_exact [OF h, of "Some acl" "Some sgl" attrs 0] unfolding n by (simp add: desc_def)
  next
    case False
    then show ?thesis using that h by (simp add: mem_request_def gh_rm_alloc_mem_request_buf_def)
  qed
  note keeps = rm_sized_call_keeps [OF assms(1)] share_append_loop_keeps [OF assms(1)] gh_rm_mem_reclaim_keeps [OF assms(1)]
  show ?thesis
  proof (cases x)
    case (Inl e)
    then show ?thesis using x unfolding gh_rm_mem_share_lend_helper_def by (simp add: desc_def Let_def u)
  next
    case (Inr req)
    obtain q t where q: "rm_sized_call call fn req 4 s = (q, t)" "own t = own s" using keeps(1) [of fn req 4 s] by (metis prod.collapse)
    obtain r v where r: "share_append_loop gap call kr (case q of Inl e \<Rightarrow> 0 | Inr b \<Rightarrow> of_le32 b) sgl ?n t = (r, v)" "own v = own t"
      using keeps(2) [of gap kr _ sgl ?n t] by (metis prod.collapse)
    show ?thesis using x Inr q r keeps(3) unfolding gh_rm_mem_share_lend_helper_def
      by (cases q) (auto simp: desc_def Let_def u)
  qed
qed

section \<open>Moving parcels\<close>

definition own_upd :: "(u64 \<Rightarrow> u64) \<Rightarrow> gh_mem_parcel list \<Rightarrow> u64 \<Rightarrow> u64 \<Rightarrow> u64" where
  "own_upd f ps m = (\<lambda>a. if a \<in> mem_phys ` set ps then m else f a)"

lemma move_parcels:
  assumes "scm_moves own scm" and "distinct (map mem_phys ps)" and "\<forall>p\<in>set ps. own s (mem_phys p) = src"
  shows "\<exists>t. assign_parcels scm src dst ps r s = (if ps = [] then r else 0, t) \<and>
      unassign_parcels scm src dst ps r s = (if ps = [] then r else 0, t) \<and> own t = own_upd (own s) ps (scm_mask dst)"
  using assms(2,3)
proof (induction ps arbitrary: s r)
  case Nil
  then show ?case by (simp add: own_upd_def)
next
  case (Cons p ps)
  obtain t where t: "scm (mem_phys p) (mem_size p) src dst s = (0, t)" "own t = (own s)(mem_phys p := scm_mask dst)"
  proof -
    have "own s (mem_phys p) = src" using Cons.prems(2) by simp
    moreover have "\<exists>t. scm (mem_phys p) (mem_size p) (own s (mem_phys p)) dst s = (0, t) \<and> own t = (own s)(mem_phys p := scm_mask dst)"
      using assms(1) unfolding scm_moves_def by blast
    ultimately show ?thesis using that by blast
  qed
  have "mem_phys q \<noteq> mem_phys p" if "q \<in> set ps" for q
    using Cons.prems(1) imageI [OF that, of mem_phys] by auto
  then have "\<forall>q\<in>set ps. own t (mem_phys q) = src" using Cons.prems(2) by (simp add: t(2))
  then obtain u where u: "assign_parcels scm src dst ps 0 t = (0, u)" "unassign_parcels scm src dst ps 0 t = (0, u)"
    "own u = own_upd (own t) ps (scm_mask dst)"
    using Cons.IH [of t 0] Cons.prems(1) by auto
  moreover have "own u = own_upd (own s) (p # ps) (scm_mask dst)"
    unfolding u(3) t(2) by (auto simp: own_upd_def fun_eq_iff)
  ultimately show ?case using t(1) by simp
qed

section \<open>Giving and taking back\<close>

text \<open>The parcels belong to this system, each once, and the VM has a number of its own.\<close>

definition parcels_ok :: "('s \<Rightarrow> u64 \<Rightarrow> u64) \<Rightarrow> gh_mem_parcel list \<Rightarrow> 's \<Rightarrow> bool" where
  "parcels_ok own ps s \<longleftrightarrow> ps \<noteq> [] \<and> distinct (map mem_phys ps) \<and> (\<forall>p\<in>set ps. own s (mem_phys p) = BIT QCOM_SCM_VMID_HLOS)"

lemma scm_masks:
  "scm_mask [(a, x)] = BIT a" "scm_mask [(a, x), (b, y)] = BIT a OR BIT b"
  by (simp_all add: scm_mask_def)

lemma own_upd_back: "\<forall>p\<in>set ps. f (mem_phys p) = m \<Longrightarrow> own_upd (own_upd f ps n) ps m = f"
  by (auto simp: own_upd_def fun_eq_iff)

lemma own_upd_at: "p \<in> set ps \<Longrightarrow> own_upd f ps m (mem_phys p) = m"
  by (auto simp: own_upd_def)

text \<open>What the call does after all parcels have been assigned: the Resource Manager's answer
  decides between the two ends, and both report success.\<close>

lemma gh_provide_mem_run:
  assumes "scm_moves own scm" "call_keeps own call" "parcels_ok own ps s"
  shows "\<exists>s1 r t. own s1 = own_upd (own s) ps (BIT QCOM_SCM_VMID_HLOS OR BIT (vm_vmid vm)) \<and> own t = own s1 \<and>
     (if system then gh_rm_mem_donate else gh_rm_mem_share) junk gap call kr 0 0 0 (Some [(QCOM_SCM_VMID_HLOS, 7), (vm_vmid vm, 7)])
        (Some (parcels_sgl ps)) None s1 = Done r t \<and>
     (case r of Inr h \<Rightarrow> gh_provide_mem junk gap call True kr scm vm ps system s = Done (0, vm\<lparr>vm_mem_handle := h\<rparr>) t
      | Inl e \<Rightarrow> (\<exists>u. own u = (if e = 0 then own t else own s) \<and> gh_provide_mem junk gap call True kr scm vm ps system s = Done (0, vm) u))"
proof -
  let ?m = "BIT QCOM_SCM_VMID_HLOS OR BIT (vm_vmid vm)"
  have p: "ps \<noteq> []" "distinct (map mem_phys ps)" "\<forall>p\<in>set ps. own s (mem_phys p) = BIT QCOM_SCM_VMID_HLOS"
    using assms(3) by (auto simp: parcels_ok_def)
  obtain s1 where s1: "assign_parcels scm (BIT QCOM_SCM_VMID_HLOS) [(QCOM_SCM_VMID_HLOS, QCOM_SCM_PERM_RWX), (vm_vmid vm, QCOM_SCM_PERM_RWX)] ps 0 s = (0, s1)"
    "own s1 = own_upd (own s) ps ?m"
    using move_parcels [OF assms(1) p(2,3), of "[(QCOM_SCM_VMID_HLOS, QCOM_SCM_PERM_RWX), (vm_vmid vm, QCOM_SCM_PERM_RWX)]" 0]
    by (auto simp: scm_masks)
  obtain r t where r: "(if system then gh_rm_mem_donate else gh_rm_mem_share) junk gap call kr 0 0 0 (Some [(QCOM_SCM_VMID_HLOS, 7), (vm_vmid vm, 7)])
      (Some (parcels_sgl ps)) None s1 = Done r t" "own t = own s1"
  proof (cases system)
    case True
    then show ?thesis using that by (simp add: gh_rm_mem_donate_def)
  next
    case False
    have "length [(QCOM_SCM_VMID_HLOS, 7 :: u8), (vm_vmid vm, 7)] < 65536" "MEM_SHARE \<in> {MEM_SHARE, MEM_LEND, MEM_DONATE}" by simp_all
    from share_lend_helper_returns [OF assms(2) this, of junk gap kr 0 0 0 "parcels_sgl ps" None s1]
    show ?thesis using that False by (auto simp: gh_rm_mem_share_def)
  qed
  have "\<forall>p\<in>set ps. own t (mem_phys p) = ?m" using r(2) s1(2) by (simp add: own_upd_at)
  from move_parcels [OF assms(1) p(2) this, of "[(QCOM_SCM_VMID_HLOS, QCOM_SCM_PERM_RWX)]"]
  have u: "\<exists>u. unassign_parcels scm ?m [(QCOM_SCM_VMID_HLOS, QCOM_SCM_PERM_RWX)] ps e t = (0, u) \<and> own u = own s" for e
    using p(1) own_upd_back [OF p(3)] by (simp add: scm_masks r(2) s1(2)) metis
  have "case r of Inr h \<Rightarrow> gh_provide_mem junk gap call True kr scm vm ps system s = Done (0, vm\<lparr>vm_mem_handle := h\<rparr>) t
      | Inl e \<Rightarrow> (\<exists>u. own u = (if e = 0 then own t else own s) \<and> gh_provide_mem junk gap call True kr scm vm ps system s = Done (0, vm) u)"
  proof (cases r)
    case (Inl e)
    obtain w where "unassign_parcels scm ?m [(QCOM_SCM_VMID_HLOS, QCOM_SCM_PERM_RWX)] ps e t = (0, w)" "own w = own s" using u by blast
    then show ?thesis using s1(1) r(1) Inl unfolding gh_provide_mem_def by (auto simp: Let_def)
  next
    case (Inr h)
    then show ?thesis using s1(1) r(1) unfolding gh_provide_mem_def by (auto simp: Let_def)
  qed
  then show ?thesis using s1(2) r by blast
qed


definition mem_demo_scm :: "(u64 \<Rightarrow> u64) scm_assign" where
  "mem_demo_scm p n src dst f = (if f p = src then (0, f(p := scm_mask dst)) else (- EINVAL, f))"

definition mem_demo_vm :: gh_vm where
  "mem_demo_vm = \<lparr>vm_is_secure_vm = True, vm_run_once = False, vm_created_vcpus = 0, vm_allowed_vcpus = 0, vm_vmid = 45,
     vm_vcpus = replicate 8 None, vm_fw_name = ''trustedvm'', vm_status = 5, vm_exit_type = - EINVAL, vm_users_count = 1,
     vm_mem_handle = 0, vm_cap_id = 0, vm_susp_irq = - EINVAL, vm_suspend_type = 0\<rparr>"

lemma mem_demo_moves: "scm_moves (\<lambda>f. f) mem_demo_scm"
  by (simp add: scm_moves_def mem_demo_scm_def)


text \<open>A Resource Manager that refuses to share memory.\<close>

lemma share_refused:
  assumes "\<forall>req s. \<exists>err e t. call MEM_SHARE req s = ((err, Inl e), t) \<and> e \<noteq> 0" and "acl \<noteq> []" "sgl \<noteq> []" "length acl < 65536"
    and "gh_rm_mem_share_lend_helper junk gap call kr MEM_SHARE 0 0 0 (Some acl) (Some sgl) None s = Done r t"
  shows "\<exists>e. r = Inl e \<and> e \<noteq> 0"
proof -
  obtain x where x: "mem_request kr MEM_SHARE (unat (of_nat (length acl) :: u16)) (if 512 < length sgl then 512 else length sgl) 0
      ([0, 0, if 512 < length sgl then 0 OR 2 else 0, 0] @ le32 0) (Some acl) (Some sgl) 0 None = Some x"
    using assms(2,3,5) unfolding gh_rm_mem_share_lend_helper_def
    by (auto simp: desc_def Let_def mem_type_ok_def bad_flags_def split: option.splits)
  show ?thesis
  proof (cases x)
    case (Inl e)
    then have "e \<noteq> 0" using x by (auto simp: mem_request_def gh_rm_alloc_mem_request_buf_def mem_req_hdr_size_def split: option.splits if_splits)
    then show ?thesis using assms(2,3,5) x Inl unfolding gh_rm_mem_share_lend_helper_def
      by (auto simp: desc_def Let_def mem_type_ok_def bad_flags_def)
  next
    case (Inr req)
    obtain err e u where "call MEM_SHARE req s = ((err, Inl e), u)" "e \<noteq> 0" using assms(1) by blast
    then show ?thesis using assms(2,3,5) x Inr unfolding gh_rm_mem_share_lend_helper_def
      by (auto simp: desc_def Let_def mem_type_ok_def bad_flags_def rm_sized_call_def)
  qed
qed

text \<open>A refusal of the Resource Manager is reported as success: once the assignments have been
  undone the error is overwritten, so the VM has no memory and no parcel, and its loader goes on.
  For a system VM this is always so, because memory is donated with two access entries and the
  donation insists on one.\<close>

theorem gh_provide_mem_refusal_lost:
  assumes "scm_moves own scm" "call_keeps own call" "parcels_ok own ps s"
    and "system \<or> (\<forall>req s. \<exists>err e t. call MEM_SHARE req s = ((err, Inl e), t) \<and> e \<noteq> 0)"
    and "length ps < 65536"
  shows "\<exists>u. gh_provide_mem junk gap call True kr scm vm ps system s = Done (0, vm) u \<and> own u = own s"
proof -
  obtain s1 r t where r: "(if system then gh_rm_mem_donate else gh_rm_mem_share) junk gap call kr 0 0 0 (Some [(QCOM_SCM_VMID_HLOS, 7), (vm_vmid vm, 7)])
      (Some (parcels_sgl ps)) None s1 = Done r t"
    "case r of Inr h \<Rightarrow> gh_provide_mem junk gap call True kr scm vm ps system s = Done (0, vm\<lparr>vm_mem_handle := h\<rparr>) t
      | Inl e \<Rightarrow> (\<exists>u. own u = (if e = 0 then own t else own s) \<and> gh_provide_mem junk gap call True kr scm vm ps system s = Done (0, vm) u)"
    using gh_provide_mem_run [OF assms(1-3)] by blast
  have "\<exists>e. r = Inl e \<and> e \<noteq> 0"
  proof (cases system)
    case True
    then show ?thesis using r(1) by (auto simp: gh_rm_mem_donate_def)
  next
    case False
    have "parcels_sgl ps \<noteq> []" using assms(3,5) by (auto simp: parcels_sgl_def parcels_ok_def unat_of_nat)
    then show ?thesis using share_refused [of call "[(QCOM_SCM_VMID_HLOS, 7), (vm_vmid vm, 7)]" "parcels_sgl ps"] r(1) False assms(4)
      by (auto simp: gh_rm_mem_share_def)
  qed
  then show ?thesis using r(2) by auto
qed

theorem gh_provide_mem_refusal_lost_witness:
  "\<exists>u. gh_provide_mem 0 [] (\<lambda>mid req s. ((Some 0, Inr (Some (le32 9), 4)), s)) True True mem_demo_scm mem_demo_vm
     [\<lparr>mem_phys = 0x1000, mem_size = 0x1000\<rparr>] True (\<lambda>a. BIT QCOM_SCM_VMID_HLOS) = Done (0, mem_demo_vm) u"
proof -
  let ?call = "\<lambda>mid req s. ((Some 0, Inr (Some (le32 9), 4)), s) :: rm_call_result \<times> (u64 \<Rightarrow> u64)"
  have "call_keeps (\<lambda>f. f) ?call" by (simp add: call_keeps_def)
  moreover have "parcels_ok (\<lambda>f. f) [\<lparr>mem_phys = 0x1000, mem_size = 0x1000\<rparr>] (\<lambda>a. BIT QCOM_SCM_VMID_HLOS)" by (simp add: parcels_ok_def)
  ultimately show ?thesis
    using gh_provide_mem_refusal_lost [OF mem_demo_moves, of ?call "[\<lparr>mem_phys = 0x1000, mem_size = 0x1000\<rparr>]" "\<lambda>a. BIT QCOM_SCM_VMID_HLOS" True 0 "[]" True mem_demo_vm]
    by auto
qed

end
