(* ===== verification/Vm_Main.thy ===== *)
theory Vm_Main
  imports Vm_Memory Rm_Resources Proxy_Sched
begin

text \<open>
  The VM objects behind \<^verbatim>\<open>/dev/gunyah\<close> (\<^verbatim>\<open>drivers/virt/gunyah/gh_main.c\<close>): creating VMs and vCPUs,
  running, stopping and destroying them, on top of the Resource Manager commands, the resources
  and the proxy scheduler. VM and vCPU objects live in heaps; using a freed one is \<^term>\<open>Fault\<close>.
  A file descriptor maps to the object its file refers to. Client notifications, uevents and the
  calls into the virtio backend and the loader are logged. Sleeping tasks see the steps of other
  contexts that \<open>env\<close> lists; a task that sleeps or spins on is \<^term>\<open>Blocked\<close>.
\<close>

section \<open>State\<close>

abbreviation (input) GH_MAX_VCPUS :: nat where "GH_MAX_VCPUS \<equiv> 8"
abbreviation (input) VM_STATUS_NO_STATE :: u8 where "VM_STATUS_NO_STATE \<equiv> 0"
abbreviation (input) VM_STATUS_INIT :: u8 where "VM_STATUS_INIT \<equiv> 1"
abbreviation (input) VM_STATUS_READY :: u8 where "VM_STATUS_READY \<equiv> 2"
abbreviation (input) VM_STATUS_RUNNING :: u8 where "VM_STATUS_RUNNING \<equiv> 3"
abbreviation (input) VM_STATUS_LOAD :: u8 where "VM_STATUS_LOAD \<equiv> 5"
abbreviation (input) VM_STATUS_AUTH :: u8 where "VM_STATUS_AUTH \<equiv> 6"
abbreviation (input) VM_STATUS_EXITED :: u8 where "VM_STATUS_EXITED \<equiv> 9"
abbreviation (input) VM_STATUS_RESET :: u8 where "VM_STATUS_RESET \<equiv> 11"
abbreviation (input) GH_VM_BEFORE_POWERUP :: nat where "GH_VM_BEFORE_POWERUP \<equiv> 1"
abbreviation (input) GH_VM_POWERUP_FAIL :: nat where "GH_VM_POWERUP_FAIL \<equiv> 2"
abbreviation (input) GH_VM_EARLY_POWEROFF :: nat where "GH_VM_EARLY_POWEROFF \<equiv> 3"
abbreviation (input) GH_VM_POWEROFF :: nat where "GH_VM_POWEROFF \<equiv> 4"

datatype vm_file = VmFile ptr | VcpuFile ptr

datatype vm_event =
    Notify_Clients nat gh_vmid_t
  | Uevent_Create ptr | Uevent_Destroy ptr int | Uevent_Suspended ptr u64
  | Virtio_Mmio_Exit gh_vmid_t | Virtio_Mmio_App_Exit gh_vmid_t | Loader_Reclaim_Fw ptr

text \<open>\<^verbatim>\<open>struct gh_vcpu\<close> is the pair of its number and its VM. \<open>mn_rm_nbs\<close> are the VMs whose notifier block is
  registered, \<open>mn_susp_irqs\<close> the suspend interrupts with a handler.\<close>

record ('c, 'h, 'g, 'k) main_state =
  mn_vms :: "ptr \<Rightarrow> gh_vm option"
  mn_vm_list :: "ptr list"
  mn_rm_nbs :: "ptr list"
  mn_vcpus :: "ptr \<Rightarrow> (u32 \<times> ptr) option"
  mn_next :: ptr
  mn_files :: "int \<Rightarrow> vm_file option"
  mn_log :: "vm_event list"
  mn_susp_irqs :: "int list"
  mn_res :: "('c, 'h, 'g, 'k sched_state) res_state"

text \<open>
  What the environment decides: allocations, file descriptors, notifier registration, other
  components' results, uninitialised variables, and the steps of other contexts during the waits
  of a call (\<open>me_steps\<close> and \<open>me_run_steps\<close>).
\<close>

record ('c, 'h, 'g, 'k) main_env =
  me_rs :: "('c, 'h, 'g, 'k sched_state) rs_env"
  me_kz :: bool
  me_fd :: int
  me_getfile :: int
  me_register_nb :: int
  me_junk :: u32
  me_junk_n :: nat
  me_steps :: "nat \<Rightarrow> (('c, 'h, 'g, 'k) main_state \<Rightarrow> ('c, 'h, 'g, 'k) main_state) list"
  me_run_steps :: "(('c, 'h, 'g, 'k) main_state \<Rightarrow> ('c, 'h, 'g, 'k) main_state) task_event list"
  me_vcpu_hcall :: "'k vcpu_hcall"
  me_vcpu_iters :: "'k vcpu_iter list"

definition with_vm :: "ptr \<Rightarrow> ('c, 'h, 'g, 'k) main_state \<Rightarrow> (gh_vm \<Rightarrow> ('a, 's) outcome) \<Rightarrow> ('a, 's) outcome" where
  "with_vm p s f = (case mn_vms s p of None \<Rightarrow> Fault | Some vm \<Rightarrow> f vm)"

definition upd_vm :: "ptr \<Rightarrow> (gh_vm \<Rightarrow> gh_vm) \<Rightarrow> ('c, 'h, 'g, 'k) main_state \<Rightarrow> ('c, 'h, 'g, 'k) main_state" where
  "upd_vm p f s = s\<lparr>mn_vms := (mn_vms s)(p := map_option f (mn_vms s p))\<rparr>"

definition log_event :: "vm_event \<Rightarrow> ('c, 'h, 'g, 'k) main_state \<Rightarrow> ('c, 'h, 'g, 'k) main_state" where
  "log_event e s = s\<lparr>mn_log := mn_log s @ [e]\<rparr>"

text \<open>An operation of the resources, of the Resource Manager interface, of the scheduler.\<close>

definition on_res where
  "on_res f s = map_outcome id (\<lambda>r. s\<lparr>mn_res := r\<rparr>) (f (mn_res s))"

definition on_rm :: "('c \<Rightarrow> 'a \<times> 'c) \<Rightarrow> ('c, 'h, 'g, 'k) main_state \<Rightarrow> 'a \<times> ('c, 'h, 'g, 'k) main_state" where
  "on_rm f s = (case f (rs_rm (mn_res s)) of (a, c) \<Rightarrow> (a, s\<lparr>mn_res := (mn_res s)\<lparr>rs_rm := c\<rparr>\<rparr>))"

definition on_sched ::
  "('k sched_state \<Rightarrow> ('a, 'k sched_state) outcome) \<Rightarrow> ('c, 'h, 'g, 'k) main_state \<Rightarrow> ('a, ('c, 'h, 'g, 'k) main_state) outcome" where
  "on_sched f s = map_outcome id (\<lambda>x. s\<lparr>mn_res := (mn_res s)\<lparr>rs_ext := x\<rparr>\<rparr>) (f (rs_ext (mn_res s)))"

section \<open>Finding VMs\<close>

definition find_vm :: "(gh_vm \<Rightarrow> bool) \<Rightarrow> ('c, 'h, 'g, 'k) main_state \<Rightarrow> ptr option" where
  "find_vm P s = List.find (\<lambda>p. case mn_vms s p of None \<Rightarrow> False | Some vm \<Rightarrow> P vm) (mn_vm_list s)"

definition find_vm_by_name :: "string \<Rightarrow> ('c, 'h, 'g, 'k) main_state \<Rightarrow> ptr option" where
  "find_vm_by_name nm = find_vm (\<lambda>vm. vm_fw_name vm = nm)"

definition find_vm_by_id :: "gh_vmid_t \<Rightarrow> ('c, 'h, 'g, 'k) main_state \<Rightarrow> ptr option" where
  "find_vm_by_id vmid = find_vm (\<lambda>vm. vm_vmid vm = vmid)"

definition find_vm_by_susp_irq :: "int \<Rightarrow> ('c, 'h, 'g, 'k) main_state \<Rightarrow> ptr option" where
  "find_vm_by_susp_irq irq = find_vm (\<lambda>vm. vm_susp_irq vm = irq)"

section \<open>Notifications and waits\<close>

definition gh_notify_clients :: "gh_vm \<Rightarrow> nat \<Rightarrow> ('c, 'h, 'g, 'k) main_state \<Rightarrow> ('c, 'h, 'g, 'k) main_state" where
  "gh_notify_clients vm val = log_event (Notify_Clients val (vm_vmid vm))"

definition gh_notif_vm_status ::
  "ptr \<Rightarrow> gh_vmid_t \<Rightarrow> u8 \<Rightarrow> ('c, 'h, 'g, 'k) main_state \<Rightarrow> (unit, ('c, 'h, 'g, 'k) main_state) outcome" where
  "gh_notif_vm_status p vmid st s =
     with_vm p s (\<lambda>vm.
       if vm_vmid vm \<noteq> vmid then Done () s
       else if st \<noteq> vm_status vm \<and> (st = VM_STATUS_RESET \<or> st = VM_STATUS_READY)
       then Done () (upd_vm p (vm_status_update (\<lambda>_. st)) s) else Done () s)"

definition gh_notif_vm_exited ::
  "ptr \<Rightarrow> gh_vmid_t \<Rightarrow> u16 \<Rightarrow> ('c, 'h, 'g, 'k) main_state \<Rightarrow> (unit, ('c, 'h, 'g, 'k) main_state) outcome" where
  "gh_notif_vm_exited p vmid exit_type s =
     with_vm p s (\<lambda>vm.
       if vm_vmid vm \<noteq> vmid then Done () s
       else on_sched (gh_wakeup_all_vcpus vmid)
              (upd_vm p (\<lambda>vm. vm\<lparr>vm_exit_type := uint exit_type, vm_status := VM_STATUS_EXITED\<rparr>) s))"

datatype vm_rm_notif = Notif_Vm_Status gh_vmid_t u8 | Notif_Vm_Exited gh_vmid_t u16 | Notif_Other

definition gh_vm_rm_notifier_fn ::
  "ptr \<Rightarrow> vm_rm_notif \<Rightarrow> ('c, 'h, 'g, 'k) main_state \<Rightarrow> (unit, ('c, 'h, 'g, 'k) main_state) outcome" where
  "gh_vm_rm_notifier_fn p n s =
     (case n of
        Notif_Vm_Status vmid st \<Rightarrow> gh_notif_vm_status p vmid st s
      | Notif_Vm_Exited vmid ty \<Rightarrow> gh_notif_vm_exited p vmid ty s
      | Notif_Other \<Rightarrow> Done () s)"

definition status_is :: "ptr \<Rightarrow> u8 \<Rightarrow> ('c, 'h, 'g, 'k) main_state \<Rightarrow> bool" where
  "status_is p st s \<longleftrightarrow> (case mn_vms s p of None \<Rightarrow> False | Some vm \<Rightarrow> vm_status vm = st)"

text \<open>An interrupted wait takes the task off the VM's wait queue.\<close>

definition wait_status_intr ::
  "ptr \<Rightarrow> u8 \<Rightarrow> (('c, 'h, 'g, 'k) main_state \<Rightarrow> ('c, 'h, 'g, 'k) main_state) task_event list \<Rightarrow> ('c, 'h, 'g, 'k) main_state \<Rightarrow>
   (int, ('c, 'h, 'g, 'k) main_state) outcome" where
  "wait_status_intr p st es s =
     (case wait_event_interruptible (\<lambda>f. f) (status_is p st) s es of
        Woken t _ \<Rightarrow> Done 0 t
      | Interrupted t _ \<Rightarrow> if mn_vms t p = None then Fault else Done (- ERESTARTSYS) t
      | Asleep t \<Rightarrow> Blocked t)"

section \<open>Stopping and destroying\<close>

text \<open>The switch of \<^verbatim>\<open>gh_vm_cleanup\<close> falls through from one group of cases to the next.\<close>

definition gh_vm_cleanup ::
  "('c, 'h, 'g, 'k) main_env \<Rightarrow> ptr \<Rightarrow> ('c, 'h, 'g, 'k) main_state \<Rightarrow> (unit, ('c, 'h, 'g, 'k) main_state) outcome" where
  "gh_vm_cleanup env p s =
     with_vm p s (\<lambda>vm.
       let vmid = vm_vmid vm; st = vm_status vm; call = re_call (me_rs env);
           populated = (st = VM_STATUS_EXITED \<or> st = VM_STATUS_RUNNING \<or> st = VM_STATUS_READY);
           inited = (populated \<or> st = VM_STATUS_INIT \<or> st = VM_STATUS_AUTH);
           loaded = (inited \<or> st = VM_STATUS_LOAD) in
       obind (if populated then on_res (gh_rm_unpopulate_hyp_res (me_rs env) vmid) s else Done 0 s) (\<lambda>_ s.
       obind (if inited then
                (case on_rm (gh_rm_vm_reset (me_junk env) call vmid) s of
                   (ret, s) \<Rightarrow>
                     obind (if ret = 0 then wait_event (status_is p VM_STATUS_RESET) (me_steps env 2) s else Done () s) (\<lambda>_ s.
                       let s = log_event (Virtio_Mmio_Exit vmid) s in
                       Done () (if vm_is_secure_vm vm then log_event (Loader_Reclaim_Fw p) s else s)))
              else Done () s) (\<lambda>_ s.
         let s = (if loaded
                  then (case gh_rm_vm_dealloc_vmid (me_junk env) call vmid (rs_tbl (mn_res s), rs_rm (mn_res s)) of
                          (ret, tbl, c) \<Rightarrow> s\<lparr>mn_res := (mn_res s)\<lparr>rs_tbl := tbl, rs_rm := c\<rparr>\<rparr>)
                  else s)
         in Done () (upd_vm p (vm_status_update (\<lambda>_. VM_STATUS_NO_STATE)) s))))"

definition gh_exit_vm ::
  "('c, 'h, 'g, 'k) main_env \<Rightarrow> nat \<Rightarrow> ptr \<Rightarrow> u32 \<Rightarrow> u8 \<Rightarrow> ('c, 'h, 'g, 'k) main_state \<Rightarrow> (int, ('c, 'h, 'g, 'k) main_state) outcome" where
  "gh_exit_vm env w p stop_reason stop_flags s =
     with_vm p s (\<lambda>vm.
       if vm_vmid vm = 0 then Done (- ENODEV) s
       else if vm_status vm \<noteq> VM_STATUS_RUNNING then Done (- ENODEV) s
       else case on_rm (gh_rm_vm_stop (me_junk env) (re_call (me_rs env)) (vm_vmid vm) stop_reason stop_flags) s of
         (ret, s) \<Rightarrow>
           if ret \<noteq> 0 then Done ret s
           else obind (wait_event (status_is p VM_STATUS_EXITED) (me_steps env w) s) (\<lambda>_ s. Done 0 s))"

definition gh_stop_vm ::
  "('c, 'h, 'g, 'k) main_env \<Rightarrow> ptr \<Rightarrow> ('c, 'h, 'g, 'k) main_state \<Rightarrow> (int, ('c, 'h, 'g, 'k) main_state) outcome" where
  "gh_stop_vm env p s =
     obind (gh_exit_vm env 0 p 1 1 s) (\<lambda>ret s.
       if ret \<noteq> 0 \<and> ret \<noteq> - ENODEV then gh_exit_vm env 1 p 3 1 s else Done ret s)"

definition gh_destroy_vcpu :: "ptr \<Rightarrow> ('c, 'h, 'g, 'k) main_state \<Rightarrow> (unit, ('c, 'h, 'g, 'k) main_state) outcome" where
  "gh_destroy_vcpu q s =
     (case mn_vcpus s q of
        None \<Rightarrow> Fault
      | Some (vid, p) \<Rightarrow>
          with_vm p s (\<lambda>vm.
            Done () (upd_vm p (\<lambda>vm. vm\<lparr>vm_vcpus := (vm_vcpus vm)[unat vid := None], vm_created_vcpus := vm_created_vcpus vm - 1\<rparr>)
                      (s\<lparr>mn_vcpus := (mn_vcpus s)(q := None)\<rparr>))))"

text \<open>
  \<^verbatim>\<open>while (vm->created_vcpus && vcpu_id < GH_MAX_VCPUS)\<close>: an unused number is skipped with \<^verbatim>\<open>continue\<close>, without
  counting up, so the loop spins.
\<close>

fun destroy_vcpus :: "ptr \<Rightarrow> nat list \<Rightarrow> ('c, 'h, 'g, 'k) main_state \<Rightarrow> (unit, ('c, 'h, 'g, 'k) main_state) outcome" where
  "destroy_vcpus p [] s = Done () s"
| "destroy_vcpus p (i # ids) s =
     with_vm p s (\<lambda>vm.
       if vm_created_vcpus vm = 0 then Done () s
       else case vm_vcpus vm ! i of
         None \<Rightarrow> Blocked s
       | Some q \<Rightarrow> obind (gh_destroy_vcpu q s) (\<lambda>_ s. destroy_vcpus p ids s))"

definition free_vm :: "ptr \<Rightarrow> ('c, 'h, 'g, 'k) main_state \<Rightarrow> ('c, 'h, 'g, 'k) main_state" where
  "free_vm p s = s\<lparr>mn_vm_list := remove1 p (mn_vm_list s), mn_rm_nbs := remove1 p (mn_rm_nbs s), mn_vms := (mn_vms s)(p := None)\<rparr>"

definition gh_destroy_vm ::
  "('c, 'h, 'g, 'k) main_env \<Rightarrow> ptr \<Rightarrow> ('c, 'h, 'g, 'k) main_state \<Rightarrow> (unit, ('c, 'h, 'g, 'k) main_state) outcome" where
  "gh_destroy_vm env p s =
     with_vm p s (\<lambda>vm.
       if vm_status vm = VM_STATUS_NO_STATE then Done () (free_vm p s)
       else
         obind (gh_stop_vm env p s) (\<lambda>_ s.
         obind (destroy_vcpus p [0..<GH_MAX_VCPUS] s) (\<lambda>_ s.
         obind (gh_vm_cleanup env p (gh_notify_clients vm GH_VM_EARLY_POWEROFF s)) (\<lambda>_ s.
           with_vm p s (\<lambda>vm.
             Done () (free_vm p (gh_notify_clients vm GH_VM_POWEROFF (log_event (Uevent_Destroy p (vm_exit_type vm)) s))))))))"

definition gh_get_vm_ref :: "ptr \<Rightarrow> ('c, 'h, 'g, 'k) main_state \<Rightarrow> ('c, 'h, 'g, 'k) main_state" where
  "gh_get_vm_ref p = upd_vm p (vm_users_count_update (\<lambda>n. n + 1))"

definition gh_put_vm ::
  "('c, 'h, 'g, 'k) main_env \<Rightarrow> ptr \<Rightarrow> ('c, 'h, 'g, 'k) main_state \<Rightarrow> (unit, ('c, 'h, 'g, 'k) main_state) outcome" where
  "gh_put_vm env p s =
     with_vm p s (\<lambda>vm.
       let s = upd_vm p (vm_users_count_update (\<lambda>n. n - 1)) s in
       if vm_users_count vm = 1 then gh_destroy_vm env p s else Done () s)"

section \<open>vCPU files\<close>

definition gh_vcpu_release ::
  "('c, 'h, 'g, 'k) main_env \<Rightarrow> ptr \<Rightarrow> ('c, 'h, 'g, 'k) main_state \<Rightarrow> (int, ('c, 'h, 'g, 'k) main_state) outcome" where
  "gh_vcpu_release env q s =
     (case mn_vcpus s q of None \<Rightarrow> Fault | Some (vid, p) \<Rightarrow> obind (gh_put_vm env p s) (\<lambda>_. Done 0))"

text \<open>The function that the macro \<^verbatim>\<open>gh_rm_call_and_set_status(vm_start)\<close> makes.\<close>

definition gh_vm_start ::
  "('c, 'h, 'g, 'k) main_env \<Rightarrow> ptr \<Rightarrow> gh_vm \<Rightarrow> u8 \<Rightarrow> ('c, 'h, 'g, 'k) main_state \<Rightarrow> int \<times> ('c, 'h, 'g, 'k) main_state" where
  "gh_vm_start env p vm st s =
     (case on_rm (gh_rm_vm_start (me_junk_n env) (re_call (me_rs env)) (vm_vmid vm)) s of
        (ret, s) \<Rightarrow> (ret, if ret = 0 then upd_vm p (vm_status_update (\<lambda>_. st)) s else s))"

text \<open>The part after \<^verbatim>\<open>start_vcpu_run\<close>.\<close>

definition start_vcpu_run ::
  "('c, 'h, 'g, 'k) main_env \<Rightarrow> u32 \<Rightarrow> ptr \<Rightarrow> gh_vm \<Rightarrow> ('c, 'h, 'g, 'k) main_state \<Rightarrow> (int, ('c, 'h, 'g, 'k) main_state) outcome" where
  "start_vcpu_run env vid p vm s =
     obind (on_sched (gh_vm_supports_proxy_sched (vm_vmid vm)) s) (\<lambda>proxy s.
       if proxy then on_sched (gh_vcpu_run (me_vcpu_hcall env) (vm_vmid vm) (unat vid) (0, 0, 0) (me_vcpu_iters env)) s
       else obind (wait_status_intr p VM_STATUS_EXITED (me_run_steps env) s) (\<lambda>ret s.
         if ret \<noteq> 0 then Done ret s
         else with_vm p s (\<lambda>vm. Done (vm_exit_type vm) (log_event (Virtio_Mmio_App_Exit (vm_vmid vm)) s))))"

definition gh_vcpu_ioctl_run ::
  "('c, 'h, 'g, 'k) main_env \<Rightarrow> ptr \<Rightarrow> ('c, 'h, 'g, 'k) main_state \<Rightarrow> (int, ('c, 'h, 'g, 'k) main_state) outcome" where
  "gh_vcpu_ioctl_run env q s =
     (case mn_vcpus s q of
        None \<Rightarrow> Fault
      | Some (vid, p) \<Rightarrow>
          with_vm p s (\<lambda>vm.
            if vm_status vm = VM_STATUS_RUNNING then start_vcpu_run env vid p vm s
            else if vm_run_once vm then Done (- EINVAL) s
            else let s = upd_vm p (vm_run_once_update (\<lambda>_. True)) s in
              if vm_is_secure_vm vm \<and> vm_created_vcpus vm \<noteq> vm_allowed_vcpus vm then Done (- EINVAL) s
              else if vm_status vm \<noteq> VM_STATUS_READY then Done (- EINVAL) s
              else (case gh_vm_start env p vm VM_STATUS_RUNNING (gh_notify_clients vm GH_VM_BEFORE_POWERUP s) of
                      (ret, s) \<Rightarrow>
                        if ret \<noteq> 0 then Done ret (gh_notify_clients vm GH_VM_POWERUP_FAIL s)
                        else start_vcpu_run env vid p vm s)))"

definition gh_vcpu_ioctl ::
  "('c, 'h, 'g, 'k) main_env \<Rightarrow> ptr \<Rightarrow> bool \<Rightarrow> ('c, 'h, 'g, 'k) main_state \<Rightarrow> (int, ('c, 'h, 'g, 'k) main_state) outcome" where
  "gh_vcpu_ioctl env q is_run s = (if is_run then gh_vcpu_ioctl_run env q s else Done (- EINVAL) s)"

section \<open>VM files\<close>

definition gh_vm_ioctl_get_vcpu_count :: "gh_vm \<Rightarrow> int" where
  "gh_vm_ioctl_get_vcpu_count vm =
     (if \<not> vm_is_secure_vm vm then - EINVAL
      else if vm_status vm \<noteq> VM_STATUS_READY then - EAGAIN
      else sint (vm_allowed_vcpus vm))"

definition gh_vm_ioctl_create_vcpu ::
  "('c, 'h, 'g, 'k) main_env \<Rightarrow> ptr \<Rightarrow> u32 \<Rightarrow> ('c, 'h, 'g, 'k) main_state \<Rightarrow> (int, ('c, 'h, 'g, 'k) main_state) outcome" where
  "gh_vm_ioctl_create_vcpu env p vid s =
     with_vm p s (\<lambda>vm.
       if GH_MAX_VCPUS \<le> unat vid then Done (- EINVAL) s
       else if vm_vcpus vm ! unat vid \<noteq> None then Done (- EEXIST) s
       else if \<not> me_kz env then Done (- ENOMEM) s
       else if me_fd env < 0 then Done (me_fd env) s
       else if me_getfile env < 0 then Done (me_getfile env) s
       else let q = mn_next s in
         Done (me_fd env)
           (upd_vm p (\<lambda>vm. vm\<lparr>vm_vcpus := (vm_vcpus vm)[unat vid := Some q], vm_created_vcpus := vm_created_vcpus vm + 1\<rparr>)
             (gh_get_vm_ref p
               (s\<lparr>mn_vcpus := (mn_vcpus s)(q \<mapsto> (vid, p)), mn_next := q + 1, mn_files := (mn_files s)(me_fd env \<mapsto> VcpuFile q)\<rparr>))))"

text \<open>\<open>kr\<close> says whether the allocation of the authentication request succeeds.\<close>

definition gh_vm_configure ::
  "('c, 'h, 'g, 'k) main_env \<Rightarrow> bool \<Rightarrow> u16 \<Rightarrow> u64 \<Rightarrow> u64 \<Rightarrow> u64 \<Rightarrow> u64 \<Rightarrow> u32 \<Rightarrow> u8 list option \<Rightarrow> ptr \<Rightarrow> ('c, 'h, 'g, 'k) main_state \<Rightarrow>
   (int, ('c, 'h, 'g, 'k) main_state) outcome" where
  "gh_vm_configure env kr auth_mech image_offset image_size dtb_offset dtb_size pas_id fw_name p s =
     with_vm p s (\<lambda>vm.
       let vmid = vm_vmid vm; call = re_call (me_rs env) in
       if auth_mech \<noteq> 1 then Done (- EINVAL) s
       else case on_rm (gh_rm_vm_config_image call vmid auth_mech (vm_mem_handle vm) image_offset image_size dtb_offset dtb_size) s of
         (ret, s) \<Rightarrow>
           if ret \<noteq> 0 then Done ret s
           else let s = upd_vm p (vm_status_update (\<lambda>_. VM_STATUS_AUTH)) s in
             if pas_id = 0 then Done (- EINVAL) s
             else case on_rm (gh_rm_vm_auth_image call kr vmid [(0, pas_id)]) s of
               (ret, s) \<Rightarrow>
                 if ret \<noteq> 0 then Done ret s
                 else let s = upd_vm p (vm_status_update (\<lambda>_. VM_STATUS_INIT)) s in
                   case on_rm (gh_rm_vm_init call vmid) s of
                     (ret, s) \<Rightarrow>
                       if ret \<noteq> 0 then Done ret s
                       else obind (wait_event (status_is p VM_STATUS_READY) (me_steps env 3) s) (\<lambda>_ s.
                            obind (on_res (gh_rm_populate_hyp_res (me_rs env) vmid fw_name) s) (\<lambda>ret s.
                              if ret < 0 then Done ret s
                              else if vm_is_secure_vm vm
                              then obind (on_sched (gh_get_nr_vcpus vmid) s) (\<lambda>n s.
                                     Done ret (upd_vm p (vm_allowed_vcpus_update (\<lambda>_. if n = 0 then 1 else of_nat n)) s))
                              else Done ret s)))"

definition gh_vm_release ::
  "('c, 'h, 'g, 'k) main_env \<Rightarrow> ptr \<Rightarrow> ('c, 'h, 'g, 'k) main_state \<Rightarrow> (int, ('c, 'h, 'g, 'k) main_state) outcome" where
  "gh_vm_release env p s = obind (gh_put_vm env p s) (\<lambda>_. Done 0)"

abbreviation (input) LONG_MAX :: int where "LONG_MAX \<equiv> 0x7FFFFFFFFFFFFFFF"

text \<open>The result and the new position; \<^verbatim>\<open>loff_t\<close> is a signed 64-bit integer.\<close>

definition gh_vm_llseek :: "nat \<Rightarrow> int \<Rightarrow> int \<Rightarrow> int \<times> int" where
  "gh_vm_llseek whence offset f_pos =
     (let wrap = (\<lambda>x. sint (word_of_int x :: u64)) in
      if 2 < whence then (- EINVAL, f_pos)
      else let new_pos = (if whence = 1 then wrap (f_pos + offset) else if whence = 2 then wrap (LONG_MAX + offset) else offset) in
        if new_pos < 0 \<or> LONG_MAX < new_pos then (- EINVAL, f_pos) else (new_pos, new_pos))"

section \<open>The device\<close>

definition new_vm :: gh_vm where
  "new_vm = \<lparr>vm_is_secure_vm = False, vm_run_once = False, vm_created_vcpus = 0, vm_allowed_vcpus = 0, vm_vmid = 0,
     vm_vcpus = replicate GH_MAX_VCPUS None, vm_fw_name = '''', vm_status = VM_STATUS_NO_STATE, vm_exit_type = - EINVAL,
     vm_users_count = 1, vm_mem_handle = 0, vm_cap_id = 0, vm_susp_irq = - EINVAL, vm_suspend_type = 1\<rparr>"

definition gh_create_vm ::
  "('c, 'h, 'g, 'k) main_env \<Rightarrow> ('c, 'h, 'g, 'k) main_state \<Rightarrow> (int + ptr) \<times> ('c, 'h, 'g, 'k) main_state" where
  "gh_create_vm env s =
     (if \<not> me_kz env then (Inl (- ENOMEM), s)
      else if me_register_nb env \<noteq> 0 then (Inl (me_register_nb env), s)
      else let p = mn_next s in
        (Inr p, s\<lparr>mn_vms := (mn_vms s)(p \<mapsto> new_vm), mn_next := p + 1, mn_rm_nbs := p # mn_rm_nbs s, mn_vm_list := p # mn_vm_list s\<rparr>))"

definition gh_dev_ioctl_create_vm ::
  "('c, 'h, 'g, 'k) main_env \<Rightarrow> ('c, 'h, 'g, 'k) main_state \<Rightarrow> (int, ('c, 'h, 'g, 'k) main_state) outcome" where
  "gh_dev_ioctl_create_vm env s =
     (case gh_create_vm env s of
        (Inl e, s) \<Rightarrow> Done e s
      | (Inr p, s) \<Rightarrow>
          if me_fd env < 0 then obind (gh_put_vm env p s) (\<lambda>_. Done (me_fd env))
          else if me_getfile env < 0 then obind (gh_put_vm env p s) (\<lambda>_. Done (me_getfile env))
          else Done (me_fd env) (s\<lparr>mn_files := (mn_files s)(me_fd env \<mapsto> VmFile p)\<rparr>))"

text \<open>\<open>uc\<close> and \<open>uo\<close> say whether the copies from and to user space succeed; the second component is the
  exit reason stored for the caller. No reference to the VM is held during the wait.\<close>

definition gh_dev_ioctl_wait_for_exit ::
  "('c, 'h, 'g, 'k) main_env \<Rightarrow> bool \<Rightarrow> bool \<Rightarrow> string \<Rightarrow> ('c, 'h, 'g, 'k) main_state \<Rightarrow>
   (int \<times> u32 option, ('c, 'h, 'g, 'k) main_state) outcome" where
  "gh_dev_ioctl_wait_for_exit env uc uo nm s =
     (if \<not> uc then Done (- EFAULT, None) s
      else case find_vm_by_name nm s of
        None \<Rightarrow> Done (- EINVAL, None) s
      | Some p \<Rightarrow>
          obind (wait_status_intr p VM_STATUS_EXITED (me_run_steps env) s) (\<lambda>ret s.
            if ret \<noteq> 0 then Done (ret, None) s
            else with_vm p s (\<lambda>vm.
              if \<not> uo then Done (- EFAULT, None) s else Done (0, Some (word_of_int (vm_exit_type vm))) s)))"

section \<open>Suspend interrupts and initialisation\<close>

definition gh_susp_irq_handler ::
  "(gh_capid_t \<Rightarrow> int \<times> u64) \<Rightarrow> int \<Rightarrow> ('c, 'h, 'g, 'k) main_state \<Rightarrow> ('c, 'h, 'g, 'k) main_state" where
  "gh_susp_irq_handler get_state irq s =
     (case find_vm_by_susp_irq irq s of
        None \<Rightarrow> s
      | Some p \<Rightarrow>
          (case mn_vms s p of
             None \<Rightarrow> s
           | Some vm \<Rightarrow>
               (case get_state (vm_cap_id vm) of
                  (ret, st) \<Rightarrow>
                    if ret \<noteq> 0 then s
                    else if st = 2 \<or> st = 3
                    then log_event (Uevent_Suspended p st) (upd_vm p (vm_suspend_type_update (\<lambda>_. st)) s)
                    else s)))"

definition set_vm_vpm_grp_info ::
  "(int \<Rightarrow> int) \<Rightarrow> gh_vmid_t \<Rightarrow> gh_capid_t \<Rightarrow> int \<Rightarrow> ('c, 'h, 'g, 'k) main_state \<Rightarrow> int \<times> ('c, 'h, 'g, 'k) main_state" where
  "set_vm_vpm_grp_info rq vmid cap_id virq_num s =
     (if virq_num < 0 then (- EINVAL, s)
      else if rq virq_num < 0 then (rq virq_num, s)
      else let s = s\<lparr>mn_susp_irqs := virq_num # mn_susp_irqs s\<rparr> in
        (rq virq_num,
         case find_vm_by_id vmid s of
           None \<Rightarrow> s
         | Some p \<Rightarrow> upd_vm p (\<lambda>vm. vm\<lparr>vm_cap_id := cap_id, vm_susp_irq := virq_num\<rparr>) s))"

definition reset_vm_vpm_grp_info ::
  "gh_vmid_t \<Rightarrow> ('c, 'h, 'g, 'k) main_state \<Rightarrow> (int \<times> int option) \<times> ('c, 'h, 'g, 'k) main_state" where
  "reset_vm_vpm_grp_info vmid s =
     (case find_vm_by_id vmid s of
        None \<Rightarrow> ((0, None), s)
      | Some p \<Rightarrow>
          (case mn_vms s p of
             None \<Rightarrow> ((0, None), s)
           | Some vm \<Rightarrow>
               if vm_susp_irq vm = - EINVAL then ((0, None), s)
               else ((0, Some (vm_susp_irq vm)),
                     upd_vm p (vm_susp_irq_update (\<lambda>_. - EINVAL)) (s\<lparr>mn_susp_irqs := remove1 (vm_susp_irq vm) (mn_susp_irqs s)\<rparr>))))"

text \<open>
  The six callbacks of the proxy scheduler go into the slots of the Resource Manager driver; \<open>gv\<close>,
  \<open>rq\<close> and \<open>ws\<close> are as in \<^theory_text>\<open>Proxy_Sched\<close>.
\<close>

definition sched_register_cbs ::
  "(nat \<Rightarrow> int \<times> gh_vmid_t) \<Rightarrow> (int \<Rightarrow> int) \<Rightarrow> bool \<Rightarrow> ('c, 'h, 'g, 'k sched_state) res_state \<Rightarrow>
   int \<times> ('c, 'h, 'g, 'k sched_state) res_state" where
  "sched_register_cbs gv rq ws r =
     (case gh_rm_set_wdog_manage_cb (Some gh_wdog_manage) r of (ret, r) \<Rightarrow>
        if ret \<noteq> 0 then (ret, r)
        else case gh_rm_set_vcpu_affinity_cb (Some (gh_populate_vm_vcpu_info gv rq ws)) r of (ret, r) \<Rightarrow>
        if ret \<noteq> 0 then (ret, r)
        else case gh_rm_reset_vcpu_affinity_cb (Some gh_unpopulate_vm_vcpu_info) r of (ret, r) \<Rightarrow>
        if ret \<noteq> 0 then (ret, r)
        else case gh_rm_set_vpm_grp_cb (Some (gh_populate_vm_vpm_grp_info rq)) r of (ret, r) \<Rightarrow>
        if ret \<noteq> 0 then (ret, r)
        else case gh_rm_reset_vpm_grp_cb (Some gh_unpopulate_vm_vpm_grp_info) r of (ret, r) \<Rightarrow>
        if ret \<noteq> 0 then (ret, r)
        else gh_rm_all_res_populated_cb (Some gh_populate_all_res_info) r)"

definition sched_start where
  "sched_start gv rq ws kz r =
     (case (if kz then sched_register_cbs gv rq ws r else (0, r)) of
        (ret, r) \<Rightarrow> (case gh_proxy_sched_init kz [ret] (rs_ext r) of (ret, x) \<Rightarrow> (ret, r\<lparr>rs_ext := x\<rparr>)))"

text \<open>
  \<^verbatim>\<open>gh_init\<close> with the proxy scheduler built in: the result and whether the device is registered. \<open>set_cb\<close>
  and \<open>reset_cb\<close> stand for this file's own callbacks, \<open>misc\<close> and \<open>virtio\<close> are what \<^verbatim>\<open>misc_register\<close> and
  \<^verbatim>\<open>gh_virtio_backend_init\<close> return.
\<close>

definition gh_init where
  "gh_init gv rq ws kz set_cb reset_cb misc virtio r =
     (let r = snd (sched_start gv rq ws kz r);
          r = snd (gh_rm_set_vpm_grp_cb (Some set_cb) r) in
      case gh_rm_reset_vpm_grp_cb (Some reset_cb) r of
        (ret, r) \<Rightarrow>
          if ret \<noteq> 0 then ((ret, False), r)
          else if misc \<noteq> (0 :: int) then ((0, False), r\<lparr>rs_ext := gh_proxy_sched_exit (rs_ext r)\<rparr>)
          else ((virtio, True), r))"

definition gh_exit where
  "gh_exit r = r\<lparr>rs_ext := gh_proxy_sched_exit (rs_ext r)\<rparr>"

end
