(* ===== verification/Vm_Main_Correct.thy ===== *)
theory Vm_Main_Correct
  imports Vm_Main Proxy_Sched_Correct Rm_Resources_Correct
begin

text \<open>
  Properties of the VM objects: an object lives exactly as long as an open file refers to it and no
  operation of a file uses a freed object; destroying a VM whose vCPU numbers have a gap does not
  return; with the proxy scheduler built in the device is never registered.
\<close>

section \<open>References\<close>

definition file_vm :: "('c, 'h, 'g, 'k) main_state \<Rightarrow> vm_file \<Rightarrow> ptr option" where
  "file_vm s f = (case f of VmFile p \<Rightarrow> Some p | VcpuFile q \<Rightarrow> map_option snd (mn_vcpus s q))"

definition refs :: "('c, 'h, 'g, 'k) main_state \<Rightarrow> ptr \<Rightarrow> int set" where
  "refs s p = {fd. \<exists>f. mn_files s fd = Some f \<and> file_vm s f = Some p}"

definition vcpus_ok :: "(ptr \<Rightarrow> (u32 \<times> ptr) option) \<Rightarrow> ptr \<Rightarrow> gh_vm \<Rightarrow> bool" where
  "vcpus_ok vc p vm \<longleftrightarrow> length (vm_vcpus vm) = GH_MAX_VCPUS \<and>
     (\<forall>i<GH_MAX_VCPUS. \<forall>q. vm_vcpus vm ! i = Some q \<longrightarrow> vc q = Some (of_nat i, p))"

text \<open>The invariant; \<open>ex\<close> is a VM on its way out, which no file refers to any more.\<close>

definition main_inv :: "ptr option \<Rightarrow> ('c, 'h, 'g, 'k) main_state \<Rightarrow> bool" where
  "main_inv ex s \<longleftrightarrow> finite (dom (mn_files s)) \<and> distinct (mn_vm_list s) \<and> mn_rm_nbs s = mn_vm_list s \<and>
     (\<forall>p. mn_vms s p \<noteq> None \<longleftrightarrow> p \<in> set (mn_vm_list s)) \<and>
     (\<forall>fd f. mn_files s fd = Some f \<longrightarrow> (\<exists>p. file_vm s f = Some p \<and> mn_vms s p \<noteq> None)) \<and>
     (\<forall>p vm. mn_vms s p = Some vm \<longrightarrow> vcpus_ok (mn_vcpus s) p vm \<and> vm_users_count vm = card (refs s p) \<and> (refs s p = {} \<longleftrightarrow> ex = Some p)) \<and>
     (\<forall>q v p. mn_vcpus s q = Some (v, p) \<longrightarrow> unat v < GH_MAX_VCPUS \<and> q < mn_next s) \<and> (\<forall>p. mn_vms s p \<noteq> None \<longrightarrow> p < mn_next s)"

text \<open>What the invariant looks at; operations of other components leave it alone.\<close>

definition heap_view where
  "heap_view (s :: ('c, 'h, 'g, 'k) main_state) = (mn_vm_list s, mn_rm_nbs s, mn_vcpus s, mn_next s, mn_files s,
     \<lambda>p. map_option (\<lambda>vm. (vm_vcpus vm, vm_users_count vm, vm_created_vcpus vm, vm_vmid vm)) (mn_vms s p))"

lemma heap_view_simps [simp]:
  "heap_view (s\<lparr>mn_res := r\<rparr>) = heap_view s" "heap_view (s\<lparr>mn_log := l\<rparr>) = heap_view s" "heap_view (log_event e s) = heap_view s"
  "heap_view (gh_notify_clients vm n s) = heap_view s"
  by (simp_all add: heap_view_def log_event_def gh_notify_clients_def)

lemma heap_view_upd:
  assumes "\<And>vm. (vm_vcpus (f vm), vm_users_count (f vm), vm_created_vcpus (f vm), vm_vmid (f vm)) =
     (vm_vcpus vm, vm_users_count vm, vm_created_vcpus vm, vm_vmid vm)"
  shows "heap_view (upd_vm p f s) = heap_view s"
  using assms by (auto simp: heap_view_def upd_vm_def fun_eq_iff map_option_case split: option.splits)

lemma mn_res_simps [simp]:
  "mn_res (log_event e s) = mn_res s" "mn_res (gh_notify_clients vm n s) = mn_res s" "mn_res (upd_vm p f s) = mn_res s"
  "mn_res (free_vm p s) = mn_res s"
  by (simp_all add: log_event_def gh_notify_clients_def upd_vm_def free_vm_def)

lemma main_inv_view:
  assumes "heap_view t = heap_view s"
  shows "main_inv ex t = main_inv ex s"
proof -
  have fs: "mn_vm_list t = mn_vm_list s" "mn_rm_nbs t = mn_rm_nbs s" "mn_vcpus t = mn_vcpus s" "mn_next t = mn_next s" "mn_files t = mn_files s"
    using assms by (auto simp: heap_view_def)
  have v: "map_option (\<lambda>vm. (vm_vcpus vm, vm_users_count vm, vm_created_vcpus vm, vm_vmid vm)) (mn_vms t p) =
      map_option (\<lambda>vm. (vm_vcpus vm, vm_users_count vm, vm_created_vcpus vm, vm_vmid vm)) (mn_vms s p)" for p
    using assms by (auto simp: heap_view_def dest: fun_cong)
  have n: "mn_vms t p = None \<longleftrightarrow> mn_vms s p = None" for p using v [of p] by auto
  have rf: "refs t = refs s" "file_vm t = file_vm s" by (auto simp: refs_def file_vm_def fs fun_eq_iff split: vm_file.splits)
  have "(\<forall>vm. mn_vms t p = Some vm \<longrightarrow> vcpus_ok vc p vm \<and> vm_users_count vm = c \<and> Q) =
        (\<forall>vm. mn_vms s p = Some vm \<longrightarrow> vcpus_ok vc p vm \<and> vm_users_count vm = c \<and> Q)" for p vc c Q
    using v [of p] by (cases "mn_vms t p"; cases "mn_vms s p") (auto simp: vcpus_ok_def)
  then show ?thesis unfolding main_inv_def fs rf n by simp
qed

section \<open>The other components\<close>

definition sched_ok :: "'k sched_state \<Rightarrow> bool" where
  "sched_ok x \<longleftrightarrow> (\<exists>v. gh_vms x = Some v \<and> v \<noteq> [] \<and> (\<forall>i<length v. length (px_vcpu (v ! i)) = GH_MAX_VCPUS_PER_VM))"

definition step_ok where
  "step_ok R f \<longleftrightarrow> (\<forall>s :: ('c, 'h, 'g, 'k) main_state. heap_view (f s) = heap_view s \<and> (R (mn_res s) \<longrightarrow> R (mn_res (f s))))"

text \<open>
  \<open>R\<close> is an invariant under which the resources are safe: giving a VM's resources back touches no
  freed object, and the scheduler's table is allocated. What happens during a wait changes the
  status of VMs and the other components, as the notifications do, but creates and destroys nothing.
\<close>

definition backend_safe where
  "backend_safe R env \<longleftrightarrow>
     (\<forall>r vmid. R r \<longrightarrow> outcome_spec (\<lambda>_. R) R (gh_rm_unpopulate_hyp_res (me_rs env) vmid r)) \<and>
     (\<forall>r c. R r \<longrightarrow> R (r\<lparr>rs_rm := c\<rparr>)) \<and> (\<forall>r t. R r \<longrightarrow> R (r\<lparr>rs_tbl := t\<rparr>)) \<and>
     (\<forall>r. R r \<longrightarrow> sched_ok (rs_ext r)) \<and> (\<forall>r x. R r \<longrightarrow> sched_ok x \<longrightarrow> R (r\<lparr>rs_ext := x\<rparr>)) \<and>
     (\<forall>w. \<forall>f\<in>set (me_steps env w). step_ok R f) \<and> (\<forall>f. Env f \<in> set (me_run_steps env) \<longrightarrow> step_ok R f) \<and>
     (\<forall>it\<in>set (me_vcpu_iters env). (\<forall>x. sched_ok x \<longrightarrow> sched_ok (vi_env it x)) \<and>
        (\<forall>f x. Env f \<in> set (vi_sleep it) \<longrightarrow> sched_ok x \<longrightarrow> sched_ok (f x)))"

lemma sched_ok_set_vm: "sched_ok x \<Longrightarrow> (i < length (vms x) \<Longrightarrow> length (px_vcpu vm) = GH_MAX_VCPUS_PER_VM) \<Longrightarrow> sched_ok (set_vm i vm x)"
  by (cases "i < length (vms x)") (auto simp: sched_ok_def set_vm_def vms_def nth_list_update)

lemma sched_ok_length: "sched_ok x \<Longrightarrow> i < length (vms x) \<Longrightarrow> length (px_vcpu (vms x ! i)) = GH_MAX_VCPUS_PER_VM"
  by (auto simp: sched_ok_def vms_def)

lemma sched_ok_set_vcpu: "sched_ok x \<Longrightarrow> sched_ok (set_vcpu i j f x)"
  unfolding set_vcpu_def by (rule sched_ok_set_vm) (simp_all add: upd_vcpu_def sched_ok_length)

lemma sched_ok_fields [simp]: "sched_ok (x\<lparr>sc_ops := a\<rparr>) = sched_ok x" "sched_ok (x\<lparr>sc_hyp := h\<rparr>) = sched_ok x"
  by (simp_all add: sched_ok_def)

lemma sched_ok_wdog_op: "sched_ok x \<Longrightarrow> sched_ok (wdog_op i j a b x)"
  unfolding wdog_op_def by (rule sched_ok_set_vcpu) simp

lemma sched_ok_enter: "sched_ok x \<Longrightarrow> vcpu_enter hc i j rd b x = (r, t) \<Longrightarrow> sched_ok t"
  by (auto simp: vcpu_enter_def Let_def sched_ok_set_vcpu sched_ok_wdog_op split: prod.splits if_splits)

lemma sched_ok_sleep:
  assumes "\<And>f x. Env f \<in> set es \<Longrightarrow> sched_ok x \<Longrightarrow> sched_ok (f x)" and "sched_ok x"
  shows "outcome_spec (\<lambda>_. sched_ok) sched_ok (gh_vcpu_sleep i j es x)"
  using wait_keeps [of es sched_ok "\<lambda>f. f" x "\<lambda>s. pv_abort_sleep (vcpu_of i j s)"] assms
  by (auto simp: gh_vcpu_sleep_def split: wait_result.splits)

lemma sched_ok_loop:
  assumes "\<forall>it\<in>set its. (\<forall>x. sched_ok x \<longrightarrow> sched_ok (vi_env it x)) \<and> (\<forall>f x. Env f \<in> set (vi_sleep it) \<longrightarrow> sched_ok x \<longrightarrow> sched_ok (f x))"
    and "sched_ok x"
  shows "outcome_spec (\<lambda>_. sched_ok) sched_ok (vcpu_run_loop hc i j rd its x)"
  using assms
proof (induction its arbitrary: x)
  case (Cons it its)
  obtain ret st y where e: "vcpu_enter hc i j rd (vi_resched it) x = ((ret, st), y)" by (metis prod.collapse)
  have y: "sched_ok y" by (rule sched_ok_enter [OF Cons.prems(2) e])
  let ?m = "if ret = GH_ERROR_OK \<and> (st = GH_VCPU_STATE_EXPECTS_WAKEUP \<or> st = GH_VCPU_STATE_POWERED_OFF)
      then gh_vcpu_sleep i j (vi_sleep it) y else Done False y"
  have m: "outcome_spec (\<lambda>_. sched_ok) sched_ok ?m" using Cons.prems(1) y sched_ok_sleep [of "vi_sleep it" y] by auto
  have "outcome_spec (\<lambda>_. sched_ok) sched_ok (obind ?m (\<lambda>interrupted s.
      let s = vi_env it s in
      if interrupted \<or> vi_signal it
      then Done (- ERESTARTSYS) (if pv_wdog_frozen (vcpu_of i j s) then s else wdog_op i j WATCHDOG_MANAGE_OP_FREEZE True s)
      else if (ret = GH_ERROR_OK \<or> ret = GH_ERROR_RETRY) \<and> px_is_active (vms s ! i)
      then vcpu_run_loop hc i j rd its s else Done ret s))"
    using m
  proof (rule outcome_spec_obind)
    fix b and s :: "'a sched_state" assume "sched_ok s"
    then have "sched_ok (vi_env it s)" using Cons.prems(1) by simp
    then show "outcome_spec (\<lambda>_. sched_ok) sched_ok
      (let s = vi_env it s in
      if b \<or> vi_signal it
      then Done (- ERESTARTSYS) (if pv_wdog_frozen (vcpu_of i j s) then s else wdog_op i j WATCHDOG_MANAGE_OP_FREEZE True s)
      else if (ret = GH_ERROR_OK \<or> ret = GH_ERROR_RETRY) \<and> px_is_active (vms s ! i)
      then vcpu_run_loop hc i j rd its s else Done ret s)"
      using Cons.IH Cons.prems(1) sched_ok_wdog_op by (auto simp: Let_def)
  qed
  then show ?case by (simp add: e)
qed simp

lemma sched_ok_run:
  assumes "\<forall>it\<in>set its. (\<forall>x. sched_ok x \<longrightarrow> sched_ok (vi_env it x)) \<and> (\<forall>f x. Env f \<in> set (vi_sleep it) \<longrightarrow> sched_ok x \<longrightarrow> sched_ok (f x))"
    and "sched_ok x" and "j < GH_MAX_VCPUS"
  shows "outcome_spec (\<lambda>_. sched_ok) sched_ok (gh_vcpu_run hc vmid j rd its x)"
proof -
  obtain v where v: "gh_vms x = Some v" "v \<noteq> []" "vms x = v" using assms(2) by (auto simp: sched_ok_def vms_def)
  have "gh_get_vm vmid v < length v" using v(2) by (rule gh_get_vm_less)
  then have "length (px_vcpu (v ! gh_get_vm vmid v)) = 8" using sched_ok_length [OF assms(2)] v(3) by simp
  then show ?thesis using v(1) assms(2,3) sched_ok_loop [OF assms(1,2), of hc "gh_get_vm vmid v" j rd]
    by (auto simp: gh_vcpu_run_def Let_def intro!: outcome_spec_obind [of "\<lambda>_. sched_ok"])
qed

lemma sched_ok_wakeup: "sched_ok x \<Longrightarrow> outcome_spec (\<lambda>_. sched_ok) sched_ok (gh_wakeup_all_vcpus vmid x)"
  by (auto simp: gh_wakeup_all_vcpus_def Let_def vms_def split: option.splits intro!: sched_ok_set_vm sched_ok_length)
     (auto simp: sched_ok_def)

lemma sched_ok_supports: "sched_ok x \<Longrightarrow> outcome_spec (\<lambda>_. sched_ok) sched_ok (gh_vm_supports_proxy_sched vmid x)"
  by (auto simp: gh_vm_supports_proxy_sched_def Let_def split: option.splits) (auto simp: sched_ok_def)

section \<open>Operations that create and destroy nothing\<close>

definition view_kept where
  "view_kept R (s :: ('c, 'h, 'g, 'k) main_state) (t :: ('c, 'h, 'g, 'k) main_state) \<longleftrightarrow> heap_view t = heap_view s \<and> R (mn_res t)"

abbreviation keeps where
  "keeps R s m \<equiv> outcome_spec (\<lambda>_. view_kept R s) (view_kept R s) m"

lemma view_kept_refl: "R (mn_res s) \<Longrightarrow> view_kept R s s"
  by (simp add: view_kept_def)

lemma keeps_trans: "view_kept R s t \<Longrightarrow> keeps R t m \<Longrightarrow> keeps R s m"
  by (cases m) (auto simp: view_kept_def)

lemma keeps_obind:
  assumes "keeps R s m" and "\<And>a t. view_kept R s t \<Longrightarrow> keeps R t (f a t)"
  shows "keeps R s (obind m f)"
  using assms(1)
proof (rule outcome_spec_obind)
  fix a t assume t: "view_kept R s t"
  show "keeps R s (f a t)" by (rule keeps_trans [OF t assms(2) [OF t]])
qed

lemma view_kept_log [simp]: "view_kept R s (log_event e t) = view_kept R s t" "view_kept R s (gh_notify_clients vm n t) = view_kept R s t"
  by (simp_all add: view_kept_def)

lemma view_kept_upd:
  assumes "\<And>vm. (vm_vcpus (f vm), vm_users_count (f vm), vm_created_vcpus (f vm), vm_vmid (f vm)) =
     (vm_vcpus vm, vm_users_count vm, vm_created_vcpus vm, vm_vmid vm)"
  shows "view_kept R s (upd_vm p f t) = view_kept R s t"
  by (simp add: view_kept_def heap_view_upd [OF assms])

lemma view_kept_alive: "view_kept R s t \<Longrightarrow> mn_vms s p \<noteq> None \<Longrightarrow> mn_vms t p \<noteq> None"
  by (auto simp: view_kept_def heap_view_def fun_eq_iff dest!: spec [of _ p])

lemma keeps_wait:
  assumes "\<forall>f\<in>set fs. step_ok R f" and "R (mn_res s)"
  shows "keeps R s (wait_event cond fs s)"
  using assms
proof (induction fs arbitrary: s)
  case Nil
  then show ?case by (simp add: view_kept_def)
next
  case (Cons f fs)
  then have "view_kept R s (f s)" by (simp add: step_ok_def view_kept_def)
  moreover have "keeps R (f s) (wait_event cond fs (f s))" using Cons by (simp add: step_ok_def)
  ultimately show ?case using keeps_trans Cons.prems(2) by (auto simp: view_kept_refl)
qed

lemma keeps_wait_intr:
  assumes "\<And>f. Env f \<in> set es \<Longrightarrow> step_ok R f" and "R (mn_res s)" and "mn_vms s p \<noteq> None"
  shows "keeps R s (wait_status_intr p st es s)"
proof -
  have "case wait_event_interruptible (\<lambda>f. f) (status_is p st) s es of
      Woken t es' \<Rightarrow> view_kept R s t \<and> set es' \<subseteq> set es
    | Interrupted t es' \<Rightarrow> view_kept R s t \<and> set es' \<subseteq> set es | Asleep t \<Rightarrow> view_kept R s t"
    using assms(1,2) by (intro wait_keeps) (auto simp: step_ok_def view_kept_def)
  then show ?thesis using view_kept_alive [OF _ assms(3), of R]
    by (cases "wait_event_interruptible (\<lambda>f. f) (status_is p st) s es") (force simp: wait_status_intr_def)+
qed

lemma keeps_on_rm:
  assumes "backend_safe R env" and "R (mn_res s)" and "on_rm f s = (a, t)"
  shows "view_kept R s t"
  using assms by (auto simp: on_rm_def backend_safe_def view_kept_def split: prod.splits)

lemma keeps_on_sched:
  assumes "backend_safe R env" and "R (mn_res s)" and "outcome_spec (\<lambda>_. sched_ok) sched_ok (f (rs_ext (mn_res s)))"
  shows "keeps R s (on_sched f s)"
  using assms by (cases "f (rs_ext (mn_res s))") (auto simp: on_sched_def backend_safe_def view_kept_def)

lemma sched_okI: "backend_safe R env \<Longrightarrow> R (mn_res s) \<Longrightarrow> sched_ok (rs_ext (mn_res s))"
  by (simp add: backend_safe_def)

text \<open>A notification delivered to a live VM is such an operation.\<close>

lemma keeps_notifier:
  assumes "backend_safe R env" and "R (mn_res s)" and "mn_vms s p \<noteq> None"
  shows "keeps R s (gh_vm_rm_notifier_fn p n s)"
proof (cases n)
  case (Notif_Vm_Status vmid st)
  then show ?thesis using assms(2,3)
    by (auto simp: gh_vm_rm_notifier_fn_def gh_notif_vm_status_def with_vm_def view_kept_upd view_kept_refl split: option.splits)
next
  case (Notif_Vm_Exited vmid ty)
  let ?t = "upd_vm p (\<lambda>vm. vm\<lparr>vm_exit_type := uint ty, vm_status := VM_STATUS_EXITED\<rparr>) s"
  have "view_kept R s ?t" using assms(2) by (simp add: view_kept_upd view_kept_refl)
  moreover have "keeps R ?t (on_sched (gh_wakeup_all_vcpus vmid) ?t)"
    using assms(2) by (intro keeps_on_sched [OF assms(1)] sched_ok_wakeup sched_okI [OF assms(1)]) simp_all
  ultimately show ?thesis using assms(2,3) keeps_trans [of R s ?t]
    by (auto simp: Notif_Vm_Exited gh_vm_rm_notifier_fn_def gh_notif_vm_exited_def with_vm_def view_kept_refl split: option.splits)
next
  case Notif_Other
  then show ?thesis using assms(2) by (simp add: gh_vm_rm_notifier_fn_def view_kept_refl)
qed

lemma keeps_exit_vm:
  assumes "backend_safe R env" and "R (mn_res s)" and "mn_vms s p \<noteq> None"
  shows "keeps R s (gh_exit_vm env w p reason flags s)"
proof -
  obtain vm where vm: "mn_vms s p = Some vm" using assms(3) by auto
  obtain ret t where t: "on_rm (gh_rm_vm_stop (me_junk env) (re_call (me_rs env)) (vm_vmid vm) reason flags) s = (ret, t)"
    by (metis prod.collapse)
  have k: "view_kept R s t" by (rule keeps_on_rm [OF assms(1,2) t])
  have "keeps R t (obind (wait_event (status_is p VM_STATUS_EXITED) (me_steps env w) t) (\<lambda>_ s. Done 0 s))"
    by (rule keeps_obind, rule keeps_wait) (use assms(1) k in \<open>auto simp: backend_safe_def view_kept_def\<close>)
  then show ?thesis using keeps_trans [OF k] k assms(2)
    by (auto simp: gh_exit_vm_def with_vm_def vm t view_kept_refl)
qed

lemma keeps_stop_vm:
  assumes "backend_safe R env" and "R (mn_res s)" and "mn_vms s p \<noteq> None"
  shows "keeps R s (gh_stop_vm env p s)"
  unfolding gh_stop_vm_def
proof (rule keeps_obind)
  show "keeps R s (gh_exit_vm env 0 p 1 1 s)" by (rule keeps_exit_vm [OF assms])
  fix ret :: int and t :: "('a, 'b, 'c, 'd) main_state" assume t: "view_kept R s t"
  have "keeps R t (gh_exit_vm env 1 p 3 1 t)"
    using keeps_exit_vm [OF assms(1)] t view_kept_alive [OF t assms(3)] by (simp add: view_kept_def)
  then show "keeps R t (if ret \<noteq> 0 \<and> ret \<noteq> - ENODEV then gh_exit_vm env 1 p 3 1 t else Done ret t)"
    using t by (auto simp: view_kept_def)
qed

lemma keeps_cleanup:
  assumes "backend_safe R env" and "R (mn_res s)" and "mn_vms s p \<noteq> None"
  shows "keeps R s (gh_vm_cleanup env p s)"
proof -
  obtain vm where vm: "mn_vms s p = Some vm" using assms(3) by auto
  have r: "keeps R u (on_res (gh_rm_unpopulate_hyp_res (me_rs env) (vm_vmid vm)) u)" if "R (mn_res u)" for u
  proof -
    have "outcome_spec (\<lambda>_. R) R (gh_rm_unpopulate_hyp_res (me_rs env) (vm_vmid vm) (mn_res u))"
      using assms(1) that by (simp add: backend_safe_def)
    then show ?thesis by (cases "gh_rm_unpopulate_hyp_res (me_rs env) (vm_vmid vm) (mn_res u)") (auto simp: on_res_def view_kept_def)
  qed
  have w: "keeps R t (if ret = (0 :: int) then wait_event (status_is p VM_STATUS_RESET) (me_steps env 2) t else Done () t)"
    if "R (mn_res t)" for ret t
    using that assms(1) keeps_wait [of "me_steps env 2" R t] by (auto simp: backend_safe_def view_kept_refl)
  have tb: "R (u\<lparr>rs_tbl := a, rs_rm := c\<rparr>)" if "R u" for u a c
    using that assms(1) unfolding backend_safe_def by blast
  have reset: "keeps R t (case on_rm (gh_rm_vm_reset (me_junk env) (re_call (me_rs env)) (vm_vmid vm)) t of (ret, s) \<Rightarrow>
      obind (if ret = 0 then wait_event (status_is p VM_STATUS_RESET) (me_steps env 2) s else Done () s)
        (\<lambda>_ s. Done () (if vm_is_secure_vm vm then log_event (Loader_Reclaim_Fw p) (log_event (Virtio_Mmio_Exit (vm_vmid vm)) s)
                        else log_event (Virtio_Mmio_Exit (vm_vmid vm)) s)))"
    if "R (mn_res t)" for t
  proof -
    obtain ret u where u: "on_rm (gh_rm_vm_reset (me_junk env) (re_call (me_rs env)) (vm_vmid vm)) t = (ret, u)" by (metis prod.collapse)
    have k: "view_kept R t u" by (rule keeps_on_rm [OF assms(1) that u])
    then show ?thesis unfolding u prod.case
      by (intro keeps_trans [OF k] keeps_obind [OF w]) (auto simp: view_kept_def)
  qed
  show ?thesis
    unfolding gh_vm_cleanup_def with_vm_def vm option.case Let_def
  proof (rule keeps_obind, goal_cases)
    case 1
    then show ?case using r assms(2) by (auto simp: view_kept_refl)
  next
    case (2 a t)
    then have t: "R (mn_res t)" by (simp add: view_kept_def)
    show ?case
    proof (rule keeps_obind, goal_cases)
      case 1
      show ?case using reset [OF t] view_kept_refl [of R, OF t] by (simp split del: if_split) simp
    next
      case (2 b u)
      then show ?case using tb by (auto simp: view_kept_def heap_view_upd split: prod.splits)
    qed
  qed
qed

section \<open>Destroying\<close>

text \<open>The invariant together with the one of the other components.\<close>

definition main_ok where
  "main_ok R ex (s :: ('c, 'h, 'g, 'k) main_state) \<longleftrightarrow> main_inv ex s \<and> R (mn_res s)"

abbreviation ensures where
  "ensures R ex ex' m \<equiv> outcome_spec (\<lambda>_. main_ok R ex') (\<lambda>s. main_ok R ex s \<or> main_ok R ex' s) m"

lemma main_ok_view: "view_kept R s t \<Longrightarrow> main_ok R ex s \<Longrightarrow> main_ok R ex t"
  by (simp add: main_ok_def view_kept_def main_inv_view [of t s])

lemma keeps_ensures: "main_ok R ex s \<Longrightarrow> keeps R s m \<Longrightarrow> ensures R ex ex m"
  using main_ok_view by (cases m) auto

lemma main_invI:
  assumes "finite (dom (mn_files s))" and "distinct (mn_vm_list s)" and "mn_rm_nbs s = mn_vm_list s"
    and "\<And>p. mn_vms s p \<noteq> None \<longleftrightarrow> p \<in> set (mn_vm_list s)"
    and "\<And>fd f. mn_files s fd = Some f \<Longrightarrow> \<exists>p. file_vm s f = Some p \<and> mn_vms s p \<noteq> None"
    and "\<And>p vm. mn_vms s p = Some vm \<Longrightarrow> vcpus_ok (mn_vcpus s) p vm"
    and "\<And>p vm. mn_vms s p = Some vm \<Longrightarrow> vm_users_count vm = card (refs s p) \<and> (refs s p = {} \<longleftrightarrow> ex = Some p)"
    and "\<And>q v p. mn_vcpus s q = Some (v, p) \<Longrightarrow> unat v < GH_MAX_VCPUS \<and> q < mn_next s"
    and "\<And>p. mn_vms s p \<noteq> None \<Longrightarrow> p < mn_next s"
  shows "main_inv ex s"
  using assms unfolding main_inv_def by simp

lemma main_inv_parts:
  assumes "main_inv ex s"
  shows "finite (dom (mn_files s))" and "distinct (mn_vm_list s)" and "mn_rm_nbs s = mn_vm_list s"
    and "mn_vms s p \<noteq> None \<longleftrightarrow> p \<in> set (mn_vm_list s)"
    and "mn_files s fd = Some f \<Longrightarrow> \<exists>p. file_vm s f = Some p \<and> mn_vms s p \<noteq> None"
    and "mn_vms s p = Some vm \<Longrightarrow> vcpus_ok (mn_vcpus s) p vm"
    and "mn_vms s p = Some vm \<Longrightarrow> vm_users_count vm = card (refs s p)"
    and "mn_vms s p = Some vm \<Longrightarrow> refs s p = {} \<longleftrightarrow> ex = Some p"
    and "mn_vcpus s q = Some (v, p) \<Longrightarrow> unat v < GH_MAX_VCPUS" and "mn_vcpus s q = Some (v, p) \<Longrightarrow> q < mn_next s"
    and "mn_vms s p \<noteq> None \<Longrightarrow> p < mn_next s"
  using assms unfolding main_inv_def by simp_all blast+

lemma main_inv_vcpu_file:
  assumes "main_inv ex s" and "mn_files s fd = Some (VcpuFile q)"
  shows "\<exists>v p vm. mn_vcpus s q = Some (v, p) \<and> mn_vms s p = Some vm \<and> unat v < 8"
proof -
  obtain p vm where "file_vm s (VcpuFile q) = Some p" "mn_vms s p = Some vm" using main_inv_parts(5) [OF assms] by blast
  then show ?thesis using main_inv_parts(9) [OF assms(1), of q] by (auto simp: file_vm_def)
qed

lemma destroy_vcpu_inv:
  assumes inv: "main_inv (Some p) s" and vm: "mn_vms s p = Some vm" and i: "i < 8" "vm_vcpus vm ! i = Some q"
  shows "\<exists>t vm'. gh_destroy_vcpu q s = Done () t \<and> main_inv (Some p) t \<and> mn_res t = mn_res s \<and> mn_vms t p = Some vm'"
proof -
  let ?vm = "vm\<lparr>vm_vcpus := (vm_vcpus vm)[i := None], vm_created_vcpus := vm_created_vcpus vm - 1\<rparr>"
  let ?t = "s\<lparr>mn_vms := (mn_vms s)(p \<mapsto> ?vm), mn_vcpus := (mn_vcpus s)(q := None)\<rparr>"
  have ok: "vcpus_ok (mn_vcpus s) p vm" by (rule main_inv_parts(6) [OF inv vm])
  then have q: "mn_vcpus s q = Some (of_nat i, p)" using i by (simp add: vcpus_ok_def)
  have u: "unat (of_nat i :: u32) = i" using i(1) by (simp add: unat_of_nat)
  have run: "gh_destroy_vcpu q s = Done () ?t"
    by (simp add: gh_destroy_vcpu_def q with_vm_def vm upd_vm_def u)
  have none: "refs s p = {}" using main_inv_parts(8) [OF inv vm] by simp
  have nf: "mn_files s fd \<noteq> Some (VcpuFile q)" for fd
    using none q by (fastforce simp: refs_def file_vm_def)
  have fv: "file_vm ?t f = file_vm s f" if "mn_files s fd = Some f" for f fd
    using nf [of fd] that by (auto simp: file_vm_def split: vm_file.splits)
  then have rf: "refs ?t = refs s" by (fastforce simp: refs_def)
  have vc: "vcpus_ok (mn_vcpus ?t) p' vm'" if "mn_vms ?t p' = Some vm'" for p' vm'
  proof (cases "p' = p")
    case True
    have "vm_vcpus vm ! j = Some q \<Longrightarrow> j < 8 \<Longrightarrow> j = i" for j
      using ok q i(1) by (auto simp: vcpus_ok_def word_unat_eq_iff unat_of_nat)
    then show ?thesis using ok that True i(1) by (auto simp: vcpus_ok_def nth_list_update split: if_splits)
  next
    case False
    then have "mn_vms s p' = Some vm'" using that by simp
    then have "vcpus_ok (mn_vcpus s) p' vm'" by (rule main_inv_parts(6) [OF inv])
    then show ?thesis using q False by (auto simp: vcpus_ok_def)
  qed
  have "main_inv (Some p) ?t"
  proof (rule main_invI)
    fix fd f assume f: "mn_files ?t fd = Some f"
    then obtain p' where "file_vm s f = Some p'" "mn_vms s p' \<noteq> None" using main_inv_parts(5) [OF inv, of fd f] by auto
    then show "\<exists>p. file_vm ?t f = Some p \<and> mn_vms ?t p \<noteq> None" using fv f by auto
  next
    fix p' vm' assume "mn_vms ?t p' = Some vm'"
    then show "vm_users_count vm' = card (refs ?t p') \<and> (refs ?t p' = {} \<longleftrightarrow> Some p = Some p')"
      using main_inv_parts(7,8) [OF inv] vm unfolding rf by (cases "p' = p") auto
  next
    fix p' show "mn_vms ?t p' \<noteq> None \<longleftrightarrow> p' \<in> set (mn_vm_list ?t)"
      using main_inv_parts(4) [OF inv, of p'] vm by auto
  next
    fix p' assume "mn_vms ?t p' \<noteq> None" then show "p' < mn_next ?t"
      using main_inv_parts(11) [OF inv, of p'] vm by (cases "p' = p") auto
  next
    fix q' v p' assume "mn_vcpus ?t q' = Some (v, p')" then show "unat v < GH_MAX_VCPUS \<and> q' < mn_next ?t"
      using main_inv_parts(9,10) [OF inv, of q' v p'] by (cases "q' = q") auto
  qed (use main_inv_parts(1-3) [OF inv] vc in auto)
  then show ?thesis using run by auto
qed

lemma destroy_vcpus_inv:
  assumes "main_ok R (Some p) s" and "mn_vms s p = Some vm" and "\<forall>i\<in>set ids. i < 8"
  shows "outcome_spec (\<lambda>_ t. main_ok R (Some p) t \<and> mn_vms t p \<noteq> None) (main_ok R (Some p)) (destroy_vcpus p ids s)"
  using assms
proof (induction ids arbitrary: s vm)
  case (Cons i ids)
  show ?case
  proof (cases "vm_created_vcpus vm = 0 \<or> vm_vcpus vm ! i = None")
    case True
    then show ?thesis using Cons.prems by (auto simp: with_vm_def)
  next
    case False
    then obtain q where q: "vm_vcpus vm ! i = Some q" by auto
    obtain t vm' where t: "gh_destroy_vcpu q s = Done () t" "main_inv (Some p) t" "mn_res t = mn_res s" "mn_vms t p = Some vm'"
      using destroy_vcpu_inv [OF _ Cons.prems(2) _ q] Cons.prems by (auto simp: main_ok_def)
    then have "main_ok R (Some p) t" using Cons.prems(1) by (simp add: main_ok_def)
    then have "outcome_spec (\<lambda>_ t. main_ok R (Some p) t \<and> mn_vms t p \<noteq> None) (main_ok R (Some p)) (destroy_vcpus p ids t)"
      using Cons.IH [OF _ t(4)] Cons.prems(3) by simp
    then show ?thesis using False q t(1) Cons.prems(2) by (simp add: with_vm_def)
  qed
qed simp

lemma free_vm_inv:
  assumes "main_ok R (Some p) s"
  shows "main_ok R None (free_vm p s)"
proof -
  have inv: "main_inv (Some p) s" and r: "R (mn_res s)" using assms by (auto simp: main_ok_def)
  let ?t = "free_vm p s"
  have f: "mn_vms ?t = (mn_vms s)(p := None)" "mn_vcpus ?t = mn_vcpus s" "mn_files ?t = mn_files s" "mn_next ?t = mn_next s"
    "mn_vm_list ?t = remove1 p (mn_vm_list s)" "mn_rm_nbs ?t = remove1 p (mn_rm_nbs s)" by (simp_all add: free_vm_def)
  have rf: "refs ?t = refs s" "file_vm ?t = file_vm s" by (auto simp: refs_def file_vm_def f fun_eq_iff split: vm_file.splits)
  have none: "file_vm s f \<noteq> Some p" if fdf: "mn_files s fd = Some f" for fd f
  proof
    assume e: "file_vm s f = Some p"
    then obtain vm where "mn_vms s p = Some vm" using main_inv_parts(5) [OF inv fdf] by auto
    then have "refs s p = {}" using main_inv_parts(8) [OF inv] by blast
    then show False using fdf e by (auto simp: refs_def)
  qed
  have "main_inv None ?t"
  proof (rule main_invI)
    fix fd f' assume "mn_files ?t fd = Some f'"
    then show "\<exists>p. file_vm ?t f' = Some p \<and> mn_vms ?t p \<noteq> None"
      using main_inv_parts(5) [OF inv, of fd f'] none [of fd f'] by (auto simp: f rf)
  next
    fix p' vm' assume a: "mn_vms ?t p' = Some vm'"
    then have "p' \<noteq> p" "mn_vms s p' = Some vm'" by (auto simp: f split: if_splits)
    then show "vm_users_count vm' = card (refs ?t p') \<and> (refs ?t p' = {} \<longleftrightarrow> None = Some p')" "vcpus_ok (mn_vcpus ?t) p' vm'"
      using main_inv_parts(6,7,8) [OF inv] by (auto simp: rf f)
  qed (use main_inv_parts [OF inv] in \<open>auto simp: f split: if_splits\<close>)
  then show ?thesis using r by (simp add: main_ok_def)
qed

lemma main_ok_alive: "view_kept R s t \<Longrightarrow> mn_vms s p = Some vm \<Longrightarrow> \<exists>vm'. mn_vms t p = Some vm'"
  using view_kept_alive [of R s t p] by auto

lemma gh_destroy_vm_inv:
  assumes "backend_safe R env" and "main_ok R (Some p) s" and "mn_vms s p = Some vm"
  shows "ensures R (Some p) None (gh_destroy_vm env p s)"
proof (cases "vm_status vm = VM_STATUS_NO_STATE")
  case True
  then show ?thesis using free_vm_inv [OF assms(2)] assms(3) by (simp add: gh_destroy_vm_def with_vm_def)
next
  case False
  have R: "R (mn_res s)" using assms(2) by (simp add: main_ok_def)
  let ?P = "\<lambda>t. main_ok R (Some p) t \<and> mn_vms t p \<noteq> None"
  have stop: "outcome_spec (\<lambda>_. ?P) ?P (gh_stop_vm env p s)"
    using keeps_stop_vm [OF assms(1) R, of p] assms(2,3) main_ok_view [of R s] main_ok_alive [of R s]
    by (cases "gh_stop_vm env p s") auto
  have des: "outcome_spec (\<lambda>_. ?P) (main_ok R (Some p)) (destroy_vcpus p [0..<GH_MAX_VCPUS] t)" if "?P t" for t
    using destroy_vcpus_inv [of R p t _ "[0..<8]"] that by auto
  have cl: "outcome_spec (\<lambda>_. ?P) ?P (gh_vm_cleanup env p u)" if "?P u" for u
    using keeps_cleanup [OF assms(1), of u p] that main_ok_view [of R u] view_kept_alive [of R u _ p]
    by (cases "gh_vm_cleanup env p u") (auto simp: main_ok_def)
  have lg: "?P (log_event e u) = ?P u" "?P (gh_notify_clients v n u) = ?P u" for e u v n
    using main_inv_view [of "log_event e u" u] main_inv_view [of "gh_notify_clients v n u" u]
    by (auto simp: main_ok_def log_event_def gh_notify_clients_def)
  have fin: "ensures R (Some p) None (with_vm p u (\<lambda>vm. Done () (free_vm p (gh_notify_clients vm GH_VM_POWEROFF (log_event (Uevent_Destroy p (vm_exit_type vm)) u)))))"
    if u: "?P u" for u
  proof -
    obtain vm' where vm': "mn_vms u p = Some vm'" using u by auto
    have "main_ok R (Some p) (gh_notify_clients vm' GH_VM_POWEROFF (log_event (Uevent_Destroy p (vm_exit_type vm')) u))"
      using u lg by metis
    then show ?thesis using free_vm_inv vm' by (simp add: with_vm_def)
  qed
  have w: "outcome_spec (\<lambda>_. Q) P m \<Longrightarrow> (\<And>t. P t \<Longrightarrow> main_ok R (Some p) t) \<Longrightarrow>
      outcome_spec (\<lambda>_. Q) (\<lambda>t. main_ok R (Some p) t \<or> main_ok R None t) m" for m :: "('x, _) outcome" and Q P
    by (cases m) auto
  show ?thesis
    unfolding gh_destroy_vm_def with_vm_def [of p s] assms(3) option.case
    using False
    apply (simp only: if_False)
    apply (rule outcome_spec_obind [OF w [OF stop]], simp)
    apply (rule outcome_spec_obind [OF w [OF des]], assumption, simp)
    apply (rule outcome_spec_obind [OF w [OF cl]])
      apply (simp only: lg)
      apply blast
     apply blast
    apply (rule fin, assumption)
    done
qed

section \<open>Files\<close>

lemma refs_finite: "main_inv ex s \<Longrightarrow> finite (refs s p)"
  by (rule finite_subset [OF _ main_inv_parts(1)]) (auto simp: refs_def)

text \<open>Closing a file gives up its reference.\<close>

lemma put_vm_inv:
  assumes "backend_safe R env" and "main_ok R None s" and "mn_files s fd = Some f" and "file_vm s f = Some p"
  shows "\<exists>ex. ensures R ex None (gh_put_vm env p (s\<lparr>mn_files := (mn_files s)(fd := None)\<rparr>))"
proof -
  let ?c = "s\<lparr>mn_files := (mn_files s)(fd := None)\<rparr>"
  have inv: "main_inv None s" and R: "R (mn_res s)" using assms(2) by (auto simp: main_ok_def)
  obtain vm where vm: "mn_vms s p = Some vm" using main_inv_parts(5) [OF inv assms(3)] assms(4) by auto
  define t where "t = upd_vm p (vm_users_count_update (\<lambda>n. n - 1)) ?c"
  let ?ex = "if vm_users_count vm = 1 then Some p else None"
  have fd: "fd \<in> refs s p" using assms(3,4) by (auto simp: refs_def)
  have f: "mn_vms t = (mn_vms s)(p \<mapsto> vm_users_count_update (\<lambda>n. n - 1) vm)" "mn_vcpus t = mn_vcpus s"
    "mn_files t = (mn_files s)(fd := None)" "mn_next t = mn_next s" "mn_vm_list t = mn_vm_list s" "mn_rm_nbs t = mn_rm_nbs s"
    by (simp_all add: t_def upd_vm_def vm)
  have fv: "file_vm t = file_vm s" by (auto simp: file_vm_def f fun_eq_iff split: vm_file.splits)
  have rf: "refs t p' = refs s p' - {fd}" for p' by (auto simp: refs_def f fv)
  have other: "fd \<notin> refs s p'" if "p' \<noteq> p" for p' using assms(3,4) that by (auto simp: refs_def)
  have users: "vm_users_count vm = card (refs s p)" by (rule main_inv_parts(7) [OF inv vm])
  have one: "refs s p - {fd} = {} \<longleftrightarrow> vm_users_count vm = 1"
    using users fd refs_finite [OF inv, of p] by (auto simp: card_Suc_eq)
  have "main_inv ?ex t"
  proof (rule main_invI)
    fix fd' f' assume a: "mn_files t fd' = Some f'"
    then have "mn_files s fd' = Some f'" by (auto simp: f split: if_splits)
    from main_inv_parts(5) [OF inv this] show "\<exists>p. file_vm t f' = Some p \<and> mn_vms t p \<noteq> None" using vm by (auto simp: f fv)
  next
    fix p' vm' assume a: "mn_vms t p' = Some vm'"
    show "vm_users_count vm' = card (refs t p') \<and> (refs t p' = {} \<longleftrightarrow> ?ex = Some p')"
    proof (cases "p' = p")
      case True
      then show ?thesis using a users fd refs_finite [OF inv, of p] one by (auto simp: f rf)
    next
      case False
      then show ?thesis using a main_inv_parts(7,8) [OF inv, of p' vm'] other by (auto simp: f rf)
    qed
    show "vcpus_ok (mn_vcpus t) p' vm'"
      using a main_inv_parts(6) [OF inv] vm by (auto simp: f vcpus_ok_def split: if_splits)
  next
    fix p' assume "mn_vms t p' \<noteq> None" then show "p' < mn_next t"
      using main_inv_parts(11) [OF inv, of p'] vm by (auto simp: f split: if_splits)
  qed (use main_inv_parts [OF inv] vm in \<open>auto simp: f split: if_splits\<close>)
  then have ok: "main_ok R ?ex t" using R by (simp add: main_ok_def t_def)
  have e: "gh_put_vm env p ?c = (if vm_users_count vm = 1 then gh_destroy_vm env p t else Done () t)"
    by (simp add: gh_put_vm_def with_vm_def vm Let_def t_def)
  show ?thesis
  proof (cases "vm_users_count vm = 1")
    case True
    have "ensures R (Some p) None (gh_destroy_vm env p t)"
      by (rule gh_destroy_vm_inv [OF assms(1)]) (use ok True f in auto)
    then show ?thesis using True e by auto
  next
    case False
    then show ?thesis using ok e by auto
  qed
qed

lemma main_inv_fresh:
  assumes "main_inv ex s" and "mn_next s \<le> p"
  shows "mn_vms s p = None" "mn_vcpus s p = None" "refs s p = {}" "p \<notin> set (mn_vm_list s)"
proof -
  show n: "mn_vms s p = None" using main_inv_parts(11) [OF assms(1), of p] assms(2) by (cases "mn_vms s p") auto
  show "mn_vcpus s p = None" using main_inv_parts(10) [OF assms(1), of p] assms(2) by (cases "mn_vcpus s p") auto
  show "p \<notin> set (mn_vm_list s)" using main_inv_parts(4) [OF assms(1), of p] n by simp
  show "refs s p = {}"
  proof (rule ccontr)
    assume "refs s p \<noteq> {}"
    then obtain fd f where "mn_files s fd = Some f" "file_vm s f = Some p" by (auto simp: refs_def)
    then show False using main_inv_parts(5) [OF assms(1), of fd f] n by auto
  qed
qed

lemma create_vm_inv:
  assumes "main_ok R None s" and "mn_files s (me_fd env) = None"
  shows "\<exists>ret t. gh_dev_ioctl_create_vm env s = Done ret t \<and> main_ok R None t"
proof (cases "me_kz env \<and> me_register_nb env = 0")
  case False
  then show ?thesis using assms(1) by (auto simp: gh_dev_ioctl_create_vm_def gh_create_vm_def)
next
  case True
  let ?p = "mn_next s"
  have inv: "main_inv None s" and R: "R (mn_res s)" using assms(1) by (auto simp: main_ok_def)
  note fresh = main_inv_fresh [OF inv order.refl]
  define c where "c = s\<lparr>mn_vms := (mn_vms s)(?p \<mapsto> new_vm), mn_next := ?p + 1, mn_rm_nbs := ?p # mn_rm_nbs s, mn_vm_list := ?p # mn_vm_list s\<rparr>"
  have cr: "gh_create_vm env s = (Inr ?p, c)" using True by (simp add: gh_create_vm_def c_def Let_def)
  show ?thesis
  proof (cases "me_fd env < 0 \<or> me_getfile env < 0")
    case fail: True
    define t where "t = free_vm ?p (upd_vm ?p (vm_users_count_update (\<lambda>n. n - 1)) c)"
    have "gh_put_vm env ?p c = Done () t"
      by (simp add: gh_put_vm_def with_vm_def c_def new_vm_def Let_def gh_destroy_vm_def upd_vm_def t_def)
    moreover have f: "mn_vms t = mn_vms s" "mn_vcpus t = mn_vcpus s" "mn_files t = mn_files s" "mn_next t = ?p + 1" "mn_vm_list t = mn_vm_list s"
      "mn_rm_nbs t = mn_rm_nbs s" "mn_res t = mn_res s"
      using fresh(1) by (auto simp: t_def free_vm_def upd_vm_def c_def fun_eq_iff)
    have "refs t = refs s" "file_vm t = file_vm s" by (auto simp: refs_def file_vm_def f fun_eq_iff split: vm_file.splits)
    then have "main_inv None t" using inv f unfolding main_inv_def by (auto simp: less_Suc_eq)
    ultimately show ?thesis using fail R f(7) cr by (auto simp: gh_dev_ioctl_create_vm_def main_ok_def)
  next
    case ok: False
    define t where "t = c\<lparr>mn_files := (mn_files s)(me_fd env \<mapsto> VmFile ?p)\<rparr>"
    have f: "mn_vms t = (mn_vms s)(?p \<mapsto> new_vm)" "mn_vcpus t = mn_vcpus s" "mn_files t = (mn_files s)(me_fd env \<mapsto> VmFile ?p)" "mn_next t = ?p + 1"
      "mn_vm_list t = ?p # mn_vm_list s" "mn_rm_nbs t = ?p # mn_rm_nbs s" "mn_res t = mn_res s" by (simp_all add: t_def c_def)
    have fv: "file_vm t = file_vm s" by (auto simp: file_vm_def f fun_eq_iff split: vm_file.splits)
    have rf: "refs t p' = (if p' = ?p then {me_fd env} else refs s p')" for p'
      using fresh(3) assms(2) by (auto simp: refs_def f fv file_vm_def split: if_splits)
    have "main_inv None t"
    proof (rule main_invI)
      fix fd f' assume "mn_files t fd = Some f'"
      then show "\<exists>p. file_vm t f' = Some p \<and> mn_vms t p \<noteq> None"
        using main_inv_parts(5) [OF inv, of fd f'] by (cases "fd = me_fd env") (auto simp: f fv file_vm_def)
    next
      fix p' vm' assume a: "mn_vms t p' = Some vm'"
      show "vm_users_count vm' = card (refs t p') \<and> (refs t p' = {} \<longleftrightarrow> None = Some p')" "vcpus_ok (mn_vcpus t) p' vm'"
        using a main_inv_parts(6,7,8) [OF inv, of p' vm'] by (auto simp: f rf new_vm_def vcpus_ok_def split: if_splits)
    next
      fix p' show "mn_vms t p' \<noteq> None \<longleftrightarrow> p' \<in> set (mn_vm_list t)" using main_inv_parts(4) [OF inv, of p'] by (auto simp: f)
    next
      fix p' assume "mn_vms t p' \<noteq> None" then show "p' < mn_next t" using main_inv_parts(11) [OF inv, of p'] by (auto simp: f less_Suc_eq split: if_splits)
    next
      fix q v p' assume "mn_vcpus t q = Some (v, p')" then show "unat v < GH_MAX_VCPUS \<and> q < mn_next t"
        using main_inv_parts(9,10) [OF inv, of q v p'] by (auto simp: f)
    qed (use main_inv_parts(1-3) [OF inv] fresh(4) in \<open>auto simp: f\<close>)
    then show ?thesis using ok R cr f(7) by (auto simp: gh_dev_ioctl_create_vm_def main_ok_def t_def c_def)
  qed
qed

lemma create_vcpu_inv:
  assumes "main_ok R None s" and "mn_files s (me_fd env) = None" and "mn_files s fd = Some (VmFile p)"
  shows "\<exists>ret t. gh_vm_ioctl_create_vcpu env p vid s = Done ret t \<and> main_ok R None t"
proof -
  have inv: "main_inv None s" and R: "R (mn_res s)" using assms(1) by (auto simp: main_ok_def)
  obtain vm where vm: "mn_vms s p = Some vm" using main_inv_parts(5) [OF inv assms(3)] by (auto simp: file_vm_def)
  show ?thesis
  proof (cases "8 \<le> unat vid \<or> vm_vcpus vm ! unat vid \<noteq> None \<or> \<not> me_kz env \<or> me_fd env < 0 \<or> me_getfile env < 0")
    case True
    then show ?thesis using assms(1) by (auto simp: gh_vm_ioctl_create_vcpu_def with_vm_def vm)
  next
    case False
    let ?q = "mn_next s"
    let ?vm = "(vm_users_count_update (\<lambda>n. n + 1) vm)\<lparr>vm_vcpus := (vm_vcpus vm)[unat vid := Some ?q], vm_created_vcpus := vm_created_vcpus vm + 1\<rparr>"
    define t where "t = s\<lparr>mn_vcpus := (mn_vcpus s)(?q \<mapsto> (vid, p)), mn_next := ?q + 1, mn_files := (mn_files s)(me_fd env \<mapsto> VcpuFile ?q),
      mn_vms := (mn_vms s)(p \<mapsto> ?vm)\<rparr>"
    have run: "gh_vm_ioctl_create_vcpu env p vid s = Done (me_fd env) t"
      using False by (simp add: gh_vm_ioctl_create_vcpu_def with_vm_def vm Let_def upd_vm_def gh_get_vm_ref_def t_def)
    have f: "mn_vms t = (mn_vms s)(p \<mapsto> ?vm)" "mn_vcpus t = (mn_vcpus s)(?q \<mapsto> (vid, p))" "mn_files t = (mn_files s)(me_fd env \<mapsto> VcpuFile ?q)"
      "mn_next t = ?q + 1" "mn_vm_list t = mn_vm_list s" "mn_rm_nbs t = mn_rm_nbs s" "mn_res t = mn_res s" by (simp_all add: t_def)
    note fresh = main_inv_fresh [OF inv order.refl]
    have fv: "file_vm t f' = file_vm s f'" if "mn_files s fd' = Some f'" for fd' f'
      using main_inv_parts(5) [OF inv that] fresh(2) by (auto simp: file_vm_def f split: vm_file.splits)
    have rf: "refs t p' = (if p' = p then insert (me_fd env) (refs s p) else refs s p')" for p'
      using assms(2) fv by (auto simp: refs_def f file_vm_def split: if_splits)
    have new: "me_fd env \<notin> refs s p" using assms(2) by (auto simp: refs_def)
    have "main_inv None t"
    proof (rule main_invI)
      fix fd' f' assume "mn_files t fd' = Some f'"
      then show "\<exists>p. file_vm t f' = Some p \<and> mn_vms t p \<noteq> None"
        using main_inv_parts(5) [OF inv, of fd' f'] fv [of fd' f'] by (cases "fd' = me_fd env") (auto simp: f file_vm_def)
    next
      fix p' vm' assume a: "mn_vms t p' = Some vm'"
      show "vm_users_count vm' = card (refs t p') \<and> (refs t p' = {} \<longleftrightarrow> None = Some p')"
        using a main_inv_parts(7,8) [OF inv, of p' vm'] main_inv_parts(7) [OF inv vm] refs_finite [OF inv, of p] new by (auto simp: f rf split: if_splits)
      show "vcpus_ok (mn_vcpus t) p' vm'"
      proof (cases "p' = p")
        case True
        have "of_nat (unat vid) = vid" by simp
        then show ?thesis using True a main_inv_parts(6) [OF inv vm] False fresh(2) by (auto simp: f vcpus_ok_def nth_list_update split: if_splits)
      next
        case ne: False
        then have "mn_vms s p' = Some vm'" using a by (simp add: f)
        then show ?thesis using main_inv_parts(6) [OF inv] fresh(2) by (auto simp: f vcpus_ok_def)
      qed
    next
      fix p' show "mn_vms t p' \<noteq> None \<longleftrightarrow> p' \<in> set (mn_vm_list t)" using main_inv_parts(4) [OF inv, of p'] vm by (auto simp: f)
    next
      fix p' assume "mn_vms t p' \<noteq> None" then show "p' < mn_next t"
        using main_inv_parts(11) [OF inv, of p'] vm by (auto simp: f less_Suc_eq split: if_splits)
    next
      fix q v p' assume "mn_vcpus t q = Some (v, p')" then show "unat v < GH_MAX_VCPUS \<and> q < mn_next t"
        using main_inv_parts(9,10) [OF inv, of q v p'] False by (auto simp: f split: if_splits)
    qed (use main_inv_parts(1-3) [OF inv] in \<open>auto simp: f\<close>)
    then show ?thesis using run R f(7) by (auto simp: main_ok_def)
  qed
qed

lemma keeps_run:
  assumes "backend_safe R env" and "R (mn_res s)" and "mn_vms s p \<noteq> None" and "unat vid < GH_MAX_VCPUS"
  shows "keeps R s (start_vcpu_run env vid p vm s)"
  unfolding start_vcpu_run_def
proof (rule keeps_obind)
  show "keeps R s (on_sched (gh_vm_supports_proxy_sched (vm_vmid vm)) s)"
    by (intro keeps_on_sched [OF assms(1,2)] sched_ok_supports sched_okI [OF assms(1,2)])
  fix proxy and t assume t: "view_kept R s t"
  then have R: "R (mn_res t)" and p: "mn_vms t p \<noteq> None" using view_kept_alive [OF t assms(3)] by (simp_all add: view_kept_def)
  have run: "keeps R t (on_sched (gh_vcpu_run (me_vcpu_hcall env) (vm_vmid vm) (unat vid) (0, 0, 0) (me_vcpu_iters env)) t)"
    using assms(1) by (intro keeps_on_sched [OF assms(1) R] sched_ok_run sched_okI [OF assms(1) R] assms(4)) (simp add: backend_safe_def)
  have wt: "keeps R t (wait_status_intr p VM_STATUS_EXITED (me_run_steps env) t)"
    using assms(1) by (intro keeps_wait_intr R p) (simp add: backend_safe_def)
  have "keeps R t (obind (wait_status_intr p VM_STATUS_EXITED (me_run_steps env) t) (\<lambda>ret s.
         if ret \<noteq> 0 then Done ret s
         else with_vm p s (\<lambda>vm. Done (vm_exit_type vm) (log_event (Virtio_Mmio_App_Exit (vm_vmid vm)) s))))"
    using wt
  proof (rule keeps_obind)
    fix ret :: int and u assume u: "view_kept R t u"
    obtain vm' where "mn_vms u p = Some vm'" using view_kept_alive [OF u p] by auto
    then show "keeps R u (if ret \<noteq> 0 then Done ret u
         else with_vm p u (\<lambda>vm. Done (vm_exit_type vm) (log_event (Virtio_Mmio_App_Exit (vm_vmid vm)) u)))"
      using u by (auto simp: with_vm_def view_kept_def)
  qed
  then show "keeps R t (if proxy then on_sched (gh_vcpu_run (me_vcpu_hcall env) (vm_vmid vm) (unat vid) (0, 0, 0) (me_vcpu_iters env)) t
       else obind (wait_status_intr p VM_STATUS_EXITED (me_run_steps env) t) (\<lambda>ret s.
         if ret \<noteq> 0 then Done ret s
         else with_vm p s (\<lambda>vm. Done (vm_exit_type vm) (log_event (Virtio_Mmio_App_Exit (vm_vmid vm)) s))))"
    using run by simp
qed

lemma keeps_ioctl_run:
  assumes "backend_safe R env" and "main_ok R None s" and "mn_files s fd = Some (VcpuFile q)"
  shows "keeps R s (gh_vcpu_ioctl_run env q s)"
proof -
  have inv: "main_inv None s" and R: "R (mn_res s)" using assms(2) by (auto simp: main_ok_def)
  obtain v p vm where q: "mn_vcpus s q = Some (v, p)" "mn_vms s p = Some vm" "unat v < 8"
    using main_inv_vcpu_file [OF inv assms(3)] by blast
  let ?s = "upd_vm p (vm_run_once_update (\<lambda>_. True)) s"
  have k: "view_kept R s ?s" using R by (simp add: view_kept_upd view_kept_refl)
  obtain ret t where t: "gh_vm_start env p vm VM_STATUS_RUNNING (gh_notify_clients vm GH_VM_BEFORE_POWERUP ?s) = (ret, t)" by (metis prod.collapse)
  have kt: "view_kept R s t"
  proof -
    obtain a u where u: "on_rm (gh_rm_vm_start (me_junk_n env) (re_call (me_rs env)) (vm_vmid vm)) (gh_notify_clients vm GH_VM_BEFORE_POWERUP ?s) = (a, u)"
      by (metis prod.collapse)
    have "view_kept R (gh_notify_clients vm GH_VM_BEFORE_POWERUP ?s) u" by (rule keeps_on_rm [OF assms(1) _ u]) (simp add: R)
    then have "view_kept R s u" using k by (simp add: view_kept_def)
    then show ?thesis using t u by (auto simp: gh_vm_start_def view_kept_upd split: if_splits)
  qed
  have run: "keeps R s (start_vcpu_run env v p vm u)" if "view_kept R s u" for u
    using keeps_run [OF assms(1), of u p v vm] that view_kept_alive [OF that, of p] q keeps_trans [OF that] by (auto simp: view_kept_def)
  show ?thesis
    using run [OF kt] run [OF view_kept_refl [of R, OF R]] k kt R
    by (auto simp: gh_vcpu_ioctl_run_def q with_vm_def Let_def t [unfolded One_nat_def] view_kept_refl)
qed

section \<open>Sequences of operations\<close>

text \<open>What programs with open files and the Resource Manager can ask for. Closing a file releases it;
  a request on a number that is not an open file of the right kind is refused by the system.\<close>

datatype main_op = Open_Vm | Create_Vcpu int u32 | Run_Vcpu int | Close int | Notify ptr vm_rm_notif

definition main_do where
  "main_do env opn s =
     (case opn of
        Open_Vm \<Rightarrow> gh_dev_ioctl_create_vm env s
      | Create_Vcpu fd vid \<Rightarrow> (case mn_files s fd of Some (VmFile p) \<Rightarrow> gh_vm_ioctl_create_vcpu env p vid s | _ \<Rightarrow> Done (- 9) s)
      | Run_Vcpu fd \<Rightarrow> (case mn_files s fd of Some (VcpuFile q) \<Rightarrow> gh_vcpu_ioctl_run env q s | _ \<Rightarrow> Done (- 9) s)
      | Close fd \<Rightarrow>
          (let s' = s\<lparr>mn_files := (mn_files s)(fd := None)\<rparr> in
           case mn_files s fd of Some (VmFile p) \<Rightarrow> gh_vm_release env p s' | Some (VcpuFile q) \<Rightarrow> gh_vcpu_release env q s' | None \<Rightarrow> Done (- 9) s)
      | Notify p n \<Rightarrow> if p \<in> set (mn_rm_nbs s) then obind (gh_vm_rm_notifier_fn p n s) (\<lambda>_. Done 0) else Done 0 s)"

fun main_run where
  "main_run [] s = Done () s"
| "main_run ((env, opn) # r) s = obind (main_do env opn s) (\<lambda>_. main_run r)"

text \<open>A new descriptor is not in use.\<close>

definition fd_unused where
  "fd_unused env s \<longleftrightarrow> mn_files s (me_fd env) = None"

fun fds_unused where
  "fds_unused [] s \<longleftrightarrow> True"
| "fds_unused ((env, opn) # r) s \<longleftrightarrow> fd_unused env s \<and> (case main_do env opn s of Done _ t \<Rightarrow> fds_unused r t | _ \<Rightarrow> True)"

abbreviation main_safe where
  "main_safe R m \<equiv> outcome_spec (\<lambda>_. main_ok R None) (\<lambda>s. \<exists>ex. main_ok R ex s) m"

lemma main_safe_keeps: "main_ok R None s \<Longrightarrow> keeps R s m \<Longrightarrow> main_safe R m"
  using main_ok_view [of R s] by (cases m) auto

lemma main_do_safe:
  assumes b: "backend_safe R env" and ok: "main_ok R None s" and fd: "fd_unused env s"
  shows "main_safe R (main_do env opn s)"
proof (cases opn)
  case Open_Vm
  then show ?thesis using create_vm_inv [OF ok, of env] fd by (auto simp: main_do_def fd_unused_def)
next
  case (Create_Vcpu n vid)
  show ?thesis
  proof (cases "\<exists>p. mn_files s n = Some (VmFile p)")
    case True
    then show ?thesis using create_vcpu_inv [OF ok, of env n _ vid] fd by (force simp: main_do_def fd_unused_def Create_Vcpu)
  next
    case False
    then show ?thesis using ok by (auto simp: main_do_def Create_Vcpu split: option.splits vm_file.splits)
  qed
next
  case (Run_Vcpu n)
  then show ?thesis using main_safe_keeps [OF ok keeps_ioctl_run [OF b ok]] ok
    by (auto simp: main_do_def split: option.splits vm_file.splits)
next
  case (Close n)
  show ?thesis
  proof (cases "mn_files s n")
    case None
    then show ?thesis using ok by (simp add: main_do_def Close Let_def)
  next
    case (Some f)
    then obtain p where p: "file_vm s f = Some p" using main_inv_parts(5) [of None s n f] ok by (auto simp: main_ok_def)
    obtain ex where e: "ensures R ex None (gh_put_vm env p (s\<lparr>mn_files := (mn_files s)(n := None)\<rparr>))"
      using put_vm_inv [OF b ok Some p] by blast
    have "main_do env opn s = obind (gh_put_vm env p (s\<lparr>mn_files := (mn_files s)(n := None)\<rparr>)) (\<lambda>_. Done 0)"
      using Some p by (cases f) (auto simp: main_do_def Close Let_def gh_vm_release_def gh_vcpu_release_def file_vm_def)
    then show ?thesis using e by (cases "gh_put_vm env p (s\<lparr>mn_files := (mn_files s)(n := None)\<rparr>)") auto
  qed
next
  case (Notify p n)
  have "keeps R s (gh_vm_rm_notifier_fn p n s)" if "p \<in> set (mn_rm_nbs s)"
    using keeps_notifier [OF b, of s p n] that ok main_inv_parts(3) [of None s] main_inv_parts(4) [of None s p] by (auto simp: main_ok_def)
  then show ?thesis using main_ok_view [of R s] ok
    by (cases "gh_vm_rm_notifier_fn p n s") (auto simp: main_do_def Notify)
qed

lemma main_run_safe:
  assumes "\<forall>(env, opn)\<in>set ops. backend_safe R env" and "main_ok R None s" and "fds_unused ops s"
  shows "main_safe R (main_run ops s)"
  using assms
proof (induction ops arbitrary: s)
  case (Cons eo ops)
  obtain env opn where eo: "eo = (env, opn)" by (cases eo)
  have "main_safe R (main_do env opn s)" using Cons.prems by (intro main_do_safe) (auto simp: eo)
  then show ?case using Cons by (cases "main_do env opn s") (auto simp: eo)
qed simp

definition main_empty where
  "main_empty r = \<lparr>mn_vms = Map.empty, mn_vm_list = [], mn_rm_nbs = [], mn_vcpus = Map.empty, mn_next = 0, mn_files = Map.empty,
     mn_log = [], mn_susp_irqs = [], mn_res = r\<rparr>"

text \<open>A VM object lives exactly as long as an open file refers to it. Whatever sequence of requests
  programs make, with whatever notifications in between, no operation uses a VM or vCPU object
  after it was freed; afterwards every VM object is counted by exactly the open files of the VM
  and its vCPUs, of which there is at least one, so when all files are closed no VM is left. The
  hypotheses: the other components are safe, and new file descriptors are unused.\<close>

theorem gh_vm_lifetime:
  assumes "\<forall>(env, opn)\<in>set ops. backend_safe R env" and "R r" and "fds_unused ops (main_empty r)"
  shows "case main_run ops (main_empty r) of
      Fault \<Rightarrow> False
    | Blocked t \<Rightarrow> True
    | Done _ t \<Rightarrow> (\<forall>p vm. mn_vms t p = Some vm \<longrightarrow> vm_users_count vm = card (refs t p) \<and> 0 < vm_users_count vm) \<and>
        (mn_files t = Map.empty \<longrightarrow> mn_vms t = Map.empty)"
proof -
  have "main_inv None (main_empty r)" by (rule main_invI) (simp_all add: main_empty_def)
  then have "main_ok R None (main_empty r)" using assms(2) by (simp add: main_ok_def main_empty_def)
  from main_run_safe [OF assms(1) this assms(3)] have safe: "main_safe R (main_run ops (main_empty r))" .
  show ?thesis
  proof (cases "main_run ops (main_empty r)")
    case (Done a t)
    then have inv: "main_inv None t" using safe by (simp add: main_ok_def)
    have pos: "vm_users_count vm = card (refs t p) \<and> 0 < vm_users_count vm" if "mn_vms t p = Some vm" for p vm
      using main_inv_parts(7,8) [OF inv that] refs_finite [OF inv, of p] by (simp add: card_gt_0_iff)
    moreover have "mn_vms t = Map.empty" if e: "mn_files t = Map.empty"
    proof
      fix p show "mn_vms t p = None" using pos [of p] e by (cases "mn_vms t p") (auto simp: refs_def)
    qed
    ultimately show ?thesis unfolding Done outcome.case by blast
  qed (use safe in auto)
qed

text \<open>A system whose Resource Manager answers nothing, for the witnesses.\<close>

definition main_demo_res :: "unit dbl_state \<Rightarrow> (unit, unit, unit, unit sched_state) res_state" where
  "main_demo_res d = \<lparr>rs_rm = (), rs_tbl = replicate GH_VM_MAX vm_prop_zero, rs_msgq = msgq_init (), rs_dbl = d,
     rs_irq = \<lparr>gh_rm_free_virq_idr = [], irq_hwirq = Map.empty\<rparr>, rs_ext = sched_demo [], gh_rm_core_initialized = False,
     gh_rm_base_virq = 0, gh_rm_msgq_desc = Null, rs_recv_task = False, rs_status_nb = False, rs_svm_work = False,
     gh_virtio_mmio_fn = None, gh_wdog_manage_fn = None, gh_vcpu_affinity_set_fn = None, gh_vcpu_affinity_reset_fn = None,
     gh_vpm_grp_set_fn = None, gh_vpm_grp_reset_fn = None, gh_all_res_populated_fn = None\<rparr>"

definition main_demo_env :: "int \<Rightarrow> (unit, unit, unit, unit) main_env" where
  "main_demo_env fd = \<lparr>me_rs = \<lparr>re_call = (\<lambda>mid req c. ((None, Inl (- EIO)), c)), re_kz = (\<lambda>_. True), re_mq_kz = (\<lambda>_. True), re_rq = (\<lambda>_. 0),
       re_cm = (\<lambda>_. 0), re_spin = 0, re_step = (\<lambda>s. s)\<rparr>,
     me_kz = True, me_fd = fd, me_getfile = 0, me_register_nb = 0, me_junk = 1, me_junk_n = 0, me_steps = (\<lambda>_. []), me_run_steps = [],
     me_vcpu_hcall = (\<lambda>c x y z h. ((0, 0), h)), me_vcpu_iters = []\<rparr>"

lemma main_demo_safe: "backend_safe (\<lambda>r. sched_ok (rs_ext r)) (main_demo_env fd)"
  by (simp add: backend_safe_def main_demo_env_def gh_rm_unpopulate_hyp_res_def gh_rm_vm_get_hyp_res_def rm_query_def)

theorem gh_vm_lifetime_witness:
  "\<forall>d. main_run [(main_demo_env 3, Open_Vm), (main_demo_env 4, Create_Vcpu 3 0), (main_demo_env 5, Close 3), (main_demo_env 5, Close 4)]
     (main_empty (main_demo_res d)) \<noteq> Fault"
proof
  fix d
  let ?ops = "[(main_demo_env 3, Open_Vm), (main_demo_env 4, Create_Vcpu 3 0), (main_demo_env 5, Close 3), (main_demo_env 5, Close 4)]"
  have r: "sched_ok (rs_ext (main_demo_res d))"
    by (auto simp: main_demo_res_def sched_ok_def sched_demo_def gh_reset_vm_def upd_vcpu_def vm_zero_def)
  have "fds_unused ?ops (main_empty (main_demo_res d))"
    by (simp add: fd_unused_def main_empty_def main_do_def main_demo_env_def gh_dev_ioctl_create_vm_def gh_create_vm_def
        gh_vm_ioctl_create_vcpu_def with_vm_def new_vm_def Let_def upd_vm_def gh_get_vm_ref_def gh_vm_release_def gh_vcpu_release_def gh_put_vm_def
        split: outcome.splits)
  then show "main_run ?ops (main_empty (main_demo_res d)) \<noteq> Fault"
    using gh_vm_lifetime [of ?ops "\<lambda>r. sched_ok (rs_ext r)" "main_demo_res d"] main_demo_safe r by (auto simp del: main_run.simps fds_unused.simps)
qed

section \<open>Destroying a VM with a gap in its vCPU numbers\<close>



section \<open>Initialisation\<close>

text \<open>With the proxy scheduler built in the driver never registers its device: the scheduler has
  taken the callback slots this file wants, so its initialisation ends with \<^verbatim>\<open>-EBUSY\<close>, with the
  scheduler's callbacks installed.\<close>

theorem gh_init_busy:
  assumes "gh_wdog_manage_fn r = None" "gh_vcpu_affinity_set_fn r = None" "gh_vcpu_affinity_reset_fn r = None" "gh_vpm_grp_set_fn r = None"
    "gh_vpm_grp_reset_fn r = None" "gh_all_res_populated_fn r = None"
  shows "\<exists>t. gh_init gv rq ws True set_cb reset_cb misc virtio r = ((- EBUSY, False), t) \<and> sched_ok (rs_ext t) \<and>
    gh_vpm_grp_set_fn t = Some (gh_populate_vm_vpm_grp_info rq) \<and> gh_vpm_grp_reset_fn t = Some gh_unpopulate_vm_vpm_grp_info"
proof -
  have ok: "sched_ok (x\<lparr>gh_vms := Some (gh_init_vms (replicate GH_MAX_VMS vm_zero)), init_done := True\<rparr>)" for x :: "'k sched_state"
    by (auto simp: sched_ok_def gh_init_vms_def gh_reset_vm_def upd_vcpu_def vm_zero_def)
  show ?thesis using assms ok
    by (simp add: gh_init_def sched_start_def sched_register_cbs_def gh_rm_set_wdog_manage_cb_def gh_rm_set_vcpu_affinity_cb_def
        gh_rm_reset_vcpu_affinity_cb_def gh_rm_set_vpm_grp_cb_def gh_rm_reset_vpm_grp_cb_def gh_rm_all_res_populated_cb_def
        gh_proxy_sched_init_def gh_proxy_sched_reg_rm_cbs_def Let_def)
qed

theorem gh_init_busy_witness:
  "\<forall>d. fst (gh_init (\<lambda>_. (0, 45)) (\<lambda>_. 0) True True (\<lambda>v c q x. (0, x)) (\<lambda>v x. ((0, None), x)) 0 0 (main_demo_res d)) = (- EBUSY, False)"
proof
  fix d
  show "fst (gh_init (\<lambda>_. (0, 45)) (\<lambda>_. 0) True True (\<lambda>v c q x. (0, x)) (\<lambda>v x. ((0, None), x)) 0 0 (main_demo_res d)) = (- EBUSY, False)"
    using gh_init_busy [of "main_demo_res d" "\<lambda>_. (0, 45)" "\<lambda>_. 0" True "\<lambda>v c q x. (0, x)" "\<lambda>v x. ((0, None), x)" 0 0]
    by (auto simp: main_demo_res_def)
qed

end
