(* ===== verification/Virtio_Backend.thy ===== *)
theory Virtio_Backend
  imports Vm_Memory
begin

text \<open>
  The virtio backend (\<^verbatim>\<open>drivers/virt/gunyah/gh_secure_vm_virtio_backend.c\<close>): user space implements the
  devices of a VM, the driver passes the events of the hypervisor on to it and its interrupts to
  the VM. VMs and devices live in heaps; the code never frees them (\<^verbatim>\<open>devm_kzalloc\<close>), it only takes
  VMs off the list. \<open>vb_eventfds\<close> counts the references the driver holds on each eventfd context,
  \<open>vb_signals\<close> lists the contexts signalled. The state \<open>vb_ext\<close> is that of the hypervisor, the Resource
  Manager and the owners of memory. A NULL pointer, an access past a page or mapping and a
  missing object are \<^term>\<open>Fault\<close>.
\<close>

section \<open>Data\<close>

abbreviation (input) MAX_IO_CONTEXTS :: nat where "MAX_IO_CONTEXTS \<equiv> 16"
abbreviation (input) GH_VM_FW_NAME_MAX :: nat where "GH_VM_FW_NAME_MAX \<equiv> 16"
abbreviation (input) PAGE_SIZE :: nat where "PAGE_SIZE \<equiv> 4096"
abbreviation (input) VIRTIO_MMIO_INTERRUPT_ACK :: nat where "VIRTIO_MMIO_INTERRUPT_ACK \<equiv> 0x64"
abbreviation (input) EOPNOTSUPP :: int where "EOPNOTSUPP \<equiv> 95"
abbreviation (input) QCOM_SCM_PERM_RW :: u32 where "QCOM_SCM_PERM_RW \<equiv> 6"

abbreviation (input) EVENT_NEW_BUFFER :: u64 where "EVENT_NEW_BUFFER \<equiv> 1"
abbreviation (input) EVENT_RESET_RQST :: u64 where "EVENT_RESET_RQST \<equiv> 2"
abbreviation (input) EVENT_INTERRUPT_ACK :: u64 where "EVENT_INTERRUPT_ACK \<equiv> 4"
abbreviation (input) EVENT_DRIVER_OK :: u64 where "EVENT_DRIVER_OK \<equiv> 8"
abbreviation (input) EVENT_MODULE_EXIT :: u64 where "EVENT_MODULE_EXIT \<equiv> 0x20"
abbreviation (input) EVENT_VM_EXIT :: u64 where "EVENT_VM_EXIT \<equiv> 0x40"
abbreviation (input) EVENT_APP_EXIT :: u64 where "EVENT_APP_EXIT \<equiv> 0x100"

record shared_memory =
  sm_start :: u64
  sm_size :: u64
  sm_gunyah_label :: u32
  sm_shm_memparcel :: gh_memparcel_handle_t

record virt_machine =
  vt_vm_name :: string
  vt_hyp_assign_done :: bool
  vt_shmem :: "shared_memory list"
  vt_vb_dev_list :: "ptr list"
  vt_shmem_addr :: u64
  vt_shmem_size :: u64

record ioevent_context =
  io_fd :: int
  io_ctx :: "nat option"

text \<open>The fields of \<^verbatim>\<open>struct irq_context\<close> are \<open>vd_irq_ctx\<close>, \<open>vd_irq_file\<close> and \<open>vd_irq_wait\<close> (whether the wait
  entry is on the eventfd's queue).\<close>

record virtio_backend_device =
  vd_refcount :: u32
  vd_notify :: bool
  vd_ack_driver_ok :: bool
  vd_evt_avail :: bool
  vd_cur_event_data :: u64
  vd_vdev_event_data :: u64
  vd_cur_event :: u64
  vd_vdev_event :: u64
  vd_linux_irq :: int
  vd_label :: u32
  vd_vm :: ptr
  vd_ioctx :: "ioevent_context list"
  vd_irq_ctx :: "nat option"
  vd_irq_file :: "nat option"
  vd_irq_wait :: bool
  vd_features :: "u32 list"
  vd_queue_num_max :: "u32 list"
  vd_cap_id :: gh_capid_t
  vd_config_data :: "u8 list option"
  vd_config_size :: u32
  vd_config_shared_buf :: "u8 list option"
  vd_config_shared_size :: u64
  vd_batch_events :: bool

record 'x vb_state =
  vb_vms :: "ptr \<Rightarrow> virt_machine option"
  vb_vm_list :: "ptr list"
  vb_devs :: "ptr \<Rightarrow> virtio_backend_device option"
  vb_next :: ptr
  vb_eventfds :: "nat \<Rightarrow> nat"
  vb_signals :: "nat list"
  vb_irqs :: "(int \<times> ptr) list"
  vb_ext :: 'x

text \<open>The hypercalls; the registers of the answer that the hypervisor does not set are 0.\<close>

datatype vb_hcall =
    Assert_Virq gh_capid_t u64
  | Set_Dev_Features gh_capid_t u32 u32
  | Set_Queue_Num_Max gh_capid_t u32 u32
  | Get_Drv_Features gh_capid_t u32
  | Get_Queue_Info gh_capid_t u32
  | Get_Event gh_capid_t
  | Ack_Reset gh_capid_t
  | Input_Configure gh_capid_t u64 u32 u8 u8
  | Input_Set_Data gh_capid_t u8 u8 u8 "u8 list"

text \<open>
  What the environment decides: the copies from and to user space (\<open>be_uncopied\<close> is the number of
  bytes a copy of configuration data leaves out, \<open>be_data\<close> the bytes such a copy reads), file descriptors and eventfds, allocations, interrupts, the
  mapping of the configuration page, the hypercalls, \<^verbatim>\<open>gh_rm_get_vmid(GH_PRIMARY_VM)\<close>, the calls that move
  memory, and the steps of other contexts while a task sleeps.
\<close>

record 'x vb_env =
  be_from :: bool
  be_to :: bool
  be_uncopied :: int
  be_data :: "u8 list option"
  be_file :: "int \<Rightarrow> nat option"
  be_eventfd :: "int \<Rightarrow> int + nat"
  be_kz :: bool
  be_rq :: "int \<Rightarrow> int"
  be_ioremap :: "u64 \<Rightarrow> u64 \<Rightarrow> u8 list option"
  be_hcall :: "vb_hcall \<Rightarrow> 'x \<Rightarrow> (int \<times> u64 list) \<times> 'x"
  be_primary :: "int \<times> gh_vmid_t"
  be_call :: "'x rm_caller"
  be_scm :: "'x scm_assign"
  be_junk :: u32
  be_gap :: "u8 list"
  be_events :: "('x vb_state \<Rightarrow> 'x vb_state) task_event list"
  be_steps :: "ptr \<Rightarrow> ('x vb_state \<Rightarrow> 'x vb_state) list"

definition reg :: "u64 list \<Rightarrow> nat \<Rightarrow> u64" where
  "reg rs i = (if i < length rs then rs ! i else 0)"

definition vb_hypercall :: "'x vb_env \<Rightarrow> vb_hcall \<Rightarrow> 'x vb_state \<Rightarrow> (int \<times> u64 list) \<times> 'x vb_state" where
  "vb_hypercall env h s = (case be_hcall env h (vb_ext s) of (r, x) \<Rightarrow> (r, s\<lparr>vb_ext := x\<rparr>))"

definition with_dev :: "ptr \<Rightarrow> 'x vb_state \<Rightarrow> (virtio_backend_device \<Rightarrow> ('a, 's) outcome) \<Rightarrow> ('a, 's) outcome" where
  "with_dev p s f = (case vb_devs s p of None \<Rightarrow> Fault | Some d \<Rightarrow> f d)"

definition set_dev :: "ptr \<Rightarrow> virtio_backend_device \<Rightarrow> 'x vb_state \<Rightarrow> 'x vb_state" where
  "set_dev p d s = s\<lparr>vb_devs := (vb_devs s)(p \<mapsto> d)\<rparr>"

text \<open>\<^verbatim>\<open>eventfd_ctx_put\<close> on a context the driver holds no reference to is a use after free.\<close>

definition eventfd_put :: "nat option \<Rightarrow> 'x vb_state \<Rightarrow> (unit, 'x vb_state) outcome" where
  "eventfd_put c s =
     (case c of
        None \<Rightarrow> Done () s
      | Some c \<Rightarrow> if vb_eventfds s c = 0 then Fault else Done () (s\<lparr>vb_eventfds := (vb_eventfds s)(c := vb_eventfds s c - 1)\<rparr>))"

fun eventfd_puts :: "nat option list \<Rightarrow> 'x vb_state \<Rightarrow> (unit, 'x vb_state) outcome" where
  "eventfd_puts [] s = Done () s"
| "eventfd_puts (c # cs) s = obind (eventfd_put c s) (\<lambda>_. eventfd_puts cs)"

definition eventfd_get :: "nat \<Rightarrow> 'x vb_state \<Rightarrow> 'x vb_state" where
  "eventfd_get c s = s\<lparr>vb_eventfds := (vb_eventfds s)(c := vb_eventfds s c + 1)\<rparr>"

section \<open>Finding VMs and devices\<close>

definition vb_find_vm_by_name :: "string \<Rightarrow> 'x vb_state \<Rightarrow> ptr option" where
  "vb_find_vm_by_name nm s = List.find (\<lambda>v. case vb_vms s v of None \<Rightarrow> False | Some vm \<Rightarrow> vt_vm_name vm = nm) (vb_vm_list s)"

definition vb_dev_find :: "ptr list \<Rightarrow> u32 \<Rightarrow> 'x vb_state \<Rightarrow> ptr option" where
  "vb_dev_find ps label s = List.find (\<lambda>p. case vb_devs s p of None \<Rightarrow> False | Some d \<Rightarrow> vd_label d = label) ps"

definition vb_dev_get :: "virt_machine \<Rightarrow> u32 \<Rightarrow> 'x vb_state \<Rightarrow> ptr option \<times> 'x vb_state" where
  "vb_dev_get vm label s =
     (case vb_dev_find (vt_vb_dev_list vm) label s of
        None \<Rightarrow> (None, s)
      | Some p \<Rightarrow>
          (case vb_devs s p of
             None \<Rightarrow> (None, s)
           | Some d \<Rightarrow> if vd_refcount d < U32_MAX then (Some p, set_dev p (d\<lparr>vd_refcount := vd_refcount d + 1\<rparr>) s) else (None, s)))"

text \<open>The wakeup of a task that waits for the count to drop is implied: the condition is read from the state.\<close>

definition vb_dev_put :: "ptr \<Rightarrow> 'x vb_state \<Rightarrow> (unit, 'x vb_state) outcome" where
  "vb_dev_put p s = with_dev p s (\<lambda>d. Done () (set_dev p (d\<lparr>vd_refcount := vd_refcount d - 1\<rparr>) s))"

section \<open>Interrupt and notification eventfds\<close>

text \<open>The work function that runs when the eventfd of the interrupt is closed.\<close>

definition irqfd_shutdown :: "ptr \<Rightarrow> 'x vb_state \<Rightarrow> (unit, 'x vb_state) outcome" where
  "irqfd_shutdown p s =
     with_dev p s (\<lambda>d.
       case vd_irq_ctx d of
         None \<Rightarrow> Done () s
       | Some c \<Rightarrow>
           obind (eventfd_put (Some c) s) (\<lambda>_ s.
             Done () (set_dev p (d\<lparr>vd_irq_wait := False, vd_irq_file := None, vd_irq_ctx := None\<rparr>) s)))"

text \<open>The wakeup of the interrupt's eventfd: \<open>hup\<close> queues the work, which is a step of its own.\<close>

definition vb_dev_irqfd_wakeup :: "'x vb_env \<Rightarrow> ptr \<Rightarrow> bool \<Rightarrow> 'x vb_state \<Rightarrow> (int, 'x vb_state) outcome" where
  "vb_dev_irqfd_wakeup env p pollin s =
     with_dev p s (\<lambda>d. Done 0 (if pollin then snd (vb_hypercall env (Assert_Virq (vd_cap_id d) 1) s) else s))"

definition vb_dev_irqfd_ptable_queue_proc :: "virtio_backend_device \<Rightarrow> virtio_backend_device" where
  "vb_dev_irqfd_ptable_queue_proc d = d\<lparr>vd_irq_wait := True\<rparr>"

definition vb_dev_irqfd :: "'x vb_env \<Rightarrow> ptr \<Rightarrow> int \<Rightarrow> 'x vb_state \<Rightarrow> (int, 'x vb_state) outcome" where
  "vb_dev_irqfd env p fd s =
     with_dev p s (\<lambda>d.
       if vd_irq_file d \<noteq> None \<or> vd_irq_ctx d \<noteq> None then Done (- EBUSY) s
       else case be_file env fd of
         None \<Rightarrow> Done (- EBUSY) s
       | Some f \<Rightarrow>
           (case be_eventfd env fd of
              Inl e \<Rightarrow> Done e s
            | Inr c \<Rightarrow> Done 0 (set_dev p (vb_dev_irqfd_ptable_queue_proc (d\<lparr>vd_irq_ctx := Some c, vd_irq_file := Some f\<rparr>)) (eventfd_get c s))))"

definition vb_dev_ioeventfd :: "'x vb_env \<Rightarrow> ptr \<Rightarrow> nat \<Rightarrow> int \<Rightarrow> 'x vb_state \<Rightarrow> (int, 'x vb_state) outcome" where
  "vb_dev_ioeventfd env p i fd s =
     with_dev p s (\<lambda>d.
       if fd \<le> 0 then Done (- EINVAL) s
       else if length (vd_ioctx d) \<le> i then Fault
       else if 0 < io_fd (vd_ioctx d ! i) then Done (- EBUSY) s
       else case be_eventfd env fd of
         Inl e \<Rightarrow> Done e s
       | Inr c \<Rightarrow> Done 0 (set_dev p (d\<lparr>vd_ioctx := (vd_ioctx d)[i := \<lparr>io_fd = fd, io_ctx = Some c\<rparr>]\<rparr>) (eventfd_get c s)))"

text \<open>The device with the bits that are left, and the contexts signalled.\<close>

fun signal_from :: "nat \<Rightarrow> ioevent_context list \<Rightarrow> u64 \<Rightarrow> u64 \<times> nat list" where
  "signal_from i [] data = (data, [])"
| "signal_from i (c # cs) data =
     (case io_ctx c of
        Some x \<Rightarrow> if data AND push_bit i 1 \<noteq> 0
                  then (case signal_from (i + 1) cs (data AND NOT (push_bit i 1)) of (r, l) \<Rightarrow> (r, x # l))
                  else signal_from (i + 1) cs data
      | None \<Rightarrow> signal_from (i + 1) cs data)"

definition signal_vqs :: "virtio_backend_device \<Rightarrow> virtio_backend_device \<times> nat list" where
  "signal_vqs d = (case signal_from 0 (vd_ioctx d) (vd_vdev_event_data d) of (r, l) \<Rightarrow> (d\<lparr>vd_vdev_event_data := r\<rparr>, l))"

section \<open>Waiting for an event\<close>

definition clear_ioctx :: "virtio_backend_device \<Rightarrow> virtio_backend_device" where
  "clear_ioctx d = d\<lparr>vd_ioctx := map (\<lambda>_. \<lparr>io_fd = 0, io_ctx = None\<rparr>) (vd_ioctx d)\<rparr>"

definition read_ack :: "virtio_backend_device \<Rightarrow> u64 option" where
  "read_ack d =
     (case vd_config_shared_buf d of
        None \<Rightarrow> None
      | Some b \<Rightarrow> if VIRTIO_MMIO_INTERRUPT_ACK + 4 \<le> length b then Some (ucast (of_le32 (drop VIRTIO_MMIO_INTERRUPT_ACK b))) else None)"

text \<open>
  The part of \<^verbatim>\<open>GH_WAIT_FOR_EVENT\<close> under the lock: the device afterwards, the contexts to be signalled
  and those to be released. \<open>None\<close> is the read of a page that is not mapped.
\<close>

definition vb_take_event :: "virtio_backend_device \<Rightarrow> (virtio_backend_device \<times> nat list \<times> nat option list) option" where
  "vb_take_event d0 =
     (let d = d0\<lparr>vd_cur_event := 0, vd_cur_event_data := 0, vd_evt_avail := False\<rparr>; ev = vd_vdev_event d in
      if ev AND (EVENT_MODULE_EXIT OR EVENT_VM_EXIT) \<noteq> 0 then Some (d\<lparr>vd_cur_event := EVENT_APP_EXIT\<rparr>, [], [])
      else if ev AND EVENT_RESET_RQST \<noteq> 0 then
        (let ev = ev AND NOT EVENT_RESET_RQST in
         Some (clear_ioctx (d\<lparr>vd_vdev_event := ev, vd_cur_event := EVENT_RESET_RQST, vd_ack_driver_ok := False, vd_evt_avail := (ev \<noteq> 0)\<rparr>),
               [], map io_ctx (vd_ioctx d)))
      else if ev AND EVENT_DRIVER_OK \<noteq> 0 then
        (let ev = ev AND NOT EVENT_DRIVER_OK in
         Some (if vd_ack_driver_ok d then d\<lparr>vd_vdev_event := ev\<rparr>
               else d\<lparr>vd_vdev_event := ev, vd_cur_event := EVENT_DRIVER_OK, vd_evt_avail := (ev \<noteq> 0)\<rparr>, [], []))
      else if ev AND EVENT_NEW_BUFFER \<noteq> 0 then
        (let ev = ev AND NOT EVENT_NEW_BUFFER;
             (d, sig) = (if vd_vdev_event_data d \<noteq> 0 \<and> vd_ack_driver_ok d then signal_vqs d else (d, [])) in
         if ev = 0 then Some (d\<lparr>vd_vdev_event := 0\<rparr>, sig, [])
         else let d = d\<lparr>vd_vdev_event := 0, vd_cur_event := ev, vd_cur_event_data := vd_vdev_event_data d, vd_vdev_event_data := 0\<rparr> in
           if ev AND EVENT_INTERRUPT_ACK = 0 then Some (d, sig, [])
           else (case read_ack d of None \<Rightarrow> None | Some a \<Rightarrow> Some (d\<lparr>vd_cur_event_data := a\<rparr>, sig, [])))
      else if ev AND EVENT_INTERRUPT_ACK \<noteq> 0 then
        (case read_ack d of
           None \<Rightarrow> None
         | Some a \<Rightarrow> Some (d\<lparr>vd_vdev_event := ev AND NOT EVENT_INTERRUPT_ACK, vd_vdev_event_data := 0,
                             vd_cur_event := EVENT_INTERRUPT_ACK, vd_cur_event_data := a\<rparr>, [], []))
      else Some (d, [], []))"

definition vb_signal :: "nat list \<Rightarrow> 'x vb_state \<Rightarrow> 'x vb_state" where
  "vb_signal l s = s\<lparr>vb_signals := vb_signals s @ l\<rparr>"

definition vb_take :: "ptr \<Rightarrow> 'x vb_state \<Rightarrow> (u64 \<times> u64, 'x vb_state) outcome" where
  "vb_take p s =
     with_dev p s (\<lambda>d.
       case vb_take_event d of
         None \<Rightarrow> Fault
       | Some (d', sig, puts) \<Rightarrow>
           obind (eventfd_puts puts (vb_signal sig s)) (\<lambda>_ s. Done (vd_cur_event d', vd_cur_event_data d') (set_dev p d' s)))"

definition evt_ready :: "ptr \<Rightarrow> 'x vb_state \<Rightarrow> bool" where
  "evt_ready p s \<longleftrightarrow> (case vb_devs s p of None \<Rightarrow> True | Some d \<Rightarrow> vd_evt_avail d)"

lemma vb_take_event_none:
  "vb_take_event d = Some (d', sig, puts) \<Longrightarrow> vd_cur_event d' = 0 \<Longrightarrow> \<not> vd_evt_avail d'"
  by (auto simp: vb_take_event_def Let_def signal_vqs_def clear_ioctx_def split: if_splits prod.splits option.splits)

lemma vb_take_none: "vb_take p s = Done (0, x) t \<Longrightarrow> \<not> evt_ready p t"
  using vb_take_event_none by (fastforce simp: vb_take_def with_dev_def evt_ready_def set_dev_def obind_iffs split: option.splits)

text \<open>From \<^verbatim>\<open>loop_back\<close> on; \<open>Inl\<close> is an interrupted wait.\<close>

function vb_wait_loop ::
  "ptr \<Rightarrow> ('x vb_state \<Rightarrow> 'x vb_state) task_event list \<Rightarrow> 'x vb_state \<Rightarrow> (int + u64 \<times> u64, 'x vb_state) outcome" where
  "vb_wait_loop p es s =
     (case wait_event_interruptible (\<lambda>f. f) (evt_ready p) s es of
        Asleep t \<Rightarrow> Blocked t
      | Interrupted t es' \<Rightarrow> Done (Inl (- ERESTARTSYS)) t
      | Woken t es' \<Rightarrow>
          (case vb_take p t of
             Fault \<Rightarrow> Fault
           | Blocked u \<Rightarrow> Blocked u
           | Done (ev, data) u \<Rightarrow> if ev = 0 then vb_wait_loop p es' u else Done (Inr (ev, data)) u))"
  by pat_completeness auto
termination
proof (relation "measure (\<lambda>(p, es, s). 2 * length es + (if evt_ready p s then 1 else 0))", goal_cases)
  case 1
  show ?case by simp
next
  case (2 p es s t es' r u ev data)
  from 2 have "\<not> evt_ready p u" using vb_take_none by (metis prod.collapse)
  moreover from 2(1) have "length es' \<le> length es \<and> (\<not> evt_ready p s \<longrightarrow> length es' < length es)"
    by (rule wait_Woken_length)
  ultimately show ?case by simp
qed

declare vb_wait_loop.simps [simp del]

section \<open>Requests of user space\<close>

text \<open>The requests with their arguments as copied from user space (a pointer is whether it is set), and
  what a request copies back.\<close>

datatype vb_cmd =
    GH_GET_SHARED_MEMORY_SIZE
  | GH_IOEVENTFD u32 u32 u32 int
  | GH_IRQFD u32 u32 int
  | GH_WAIT_FOR_EVENT u32
  | GH_GET_DRIVER_FEATURES u32 u32
  | GH_GET_QUEUE_INFO u32 u32
  | GH_ACK_DRIVER_OK u32
  | GH_ACK_RESET u32
  | GH_SET_DEVICE_FEATURES u32 u32 u32
  | GH_SET_QUEUE_NUM_MAX u32 u32 u32
  | GH_GET_DRIVER_CONFIG_DATA u32 u32 bool
  | GH_SET_DEVICE_CONFIG_DATA u32 u32 bool
  | GH_SET_INPUT_DEVICE_CONFIG_DATA u32 u64 u32 u8 u8
  | GH_SET_INPUT_DEVICE_DATA u32 u8 u8 u8 "u8 list"
  | GH_OTHER_REQUEST

datatype vb_out = No_Out | Out_Size u64 | Out_Event u32 u32 | Out_Features u32 | Out_Queue u32 u32 u64 u64 u64 | Out_Bytes "u8 list"

definition copy_out :: "'x vb_env \<Rightarrow> vb_out \<Rightarrow> int \<times> vb_out" where
  "copy_out env out = (if be_to env then (0, out) else (- EFAULT, No_Out))"

text \<open>A request between \<^verbatim>\<open>vb_dev_get\<close> and \<^verbatim>\<open>vb_dev_put\<close>.\<close>

definition with_ref ::
  "virt_machine \<Rightarrow> u32 \<Rightarrow> 'x vb_state \<Rightarrow> (ptr \<Rightarrow> 'x vb_state \<Rightarrow> (int \<times> vb_out, 'x vb_state) outcome) \<Rightarrow> (int \<times> vb_out, 'x vb_state) outcome" where
  "with_ref vm label s f =
     (case vb_dev_get vm label s of
        (None, s) \<Rightarrow> Done (- EINVAL, No_Out) s
      | (Some p, s) \<Rightarrow> obind (f p s) (\<lambda>r s. obind (vb_dev_put p s) (\<lambda>_. Done r)))"

definition vb_ioc_wait_for_event :: "'x vb_env \<Rightarrow> ptr \<Rightarrow> 'x vb_state \<Rightarrow> (int \<times> vb_out, 'x vb_state) outcome" where
  "vb_ioc_wait_for_event env p s =
     obind (vb_wait_loop p (be_events env) s) (\<lambda>r s.
       case r of Inl e \<Rightarrow> Done (e, No_Out) s | Inr (ev, data) \<Rightarrow> Done (copy_out env (Out_Event (ucast ev) (ucast data))) s)"

definition vb_ioc_get_driver_features :: "'x vb_env \<Rightarrow> u32 \<Rightarrow> ptr \<Rightarrow> 'x vb_state \<Rightarrow> (int \<times> vb_out, 'x vb_state) outcome" where
  "vb_ioc_get_driver_features env sel p s =
     with_dev p s (\<lambda>d.
       if vd_cap_id d = 0 then Done (- EINVAL, No_Out) s
       else case vb_hypercall env (Get_Drv_Features (vd_cap_id d) sel) s of
         ((ret, rs), s) \<Rightarrow> Done (if ret \<noteq> 0 then (ret, No_Out) else copy_out env (Out_Features (ucast (reg rs 0)))) s)"

definition vb_ioc_get_queue_info :: "'x vb_env \<Rightarrow> u32 \<Rightarrow> ptr \<Rightarrow> 'x vb_state \<Rightarrow> (int \<times> vb_out, 'x vb_state) outcome" where
  "vb_ioc_get_queue_info env sel p s =
     with_dev p s (\<lambda>d.
       if vd_cap_id d = 0 then Done (- EINVAL, No_Out) s
       else case vb_hypercall env (Get_Queue_Info (vd_cap_id d) sel) s of
         ((ret, rs), s) \<Rightarrow>
           Done (if ret \<noteq> 0 then (ret, No_Out)
                 else copy_out env (Out_Queue (ucast (reg rs 0)) (ucast (reg rs 1)) (reg rs 2) (reg rs 3) (reg rs 4))) s)"

definition vb_ioc_set_device_features :: "'x vb_env \<Rightarrow> u32 \<Rightarrow> u32 \<Rightarrow> ptr \<Rightarrow> 'x vb_state \<Rightarrow> (int \<times> vb_out, 'x vb_state) outcome" where
  "vb_ioc_set_device_features env sel features p s =
     with_dev p s (\<lambda>d.
       case vb_hypercall env (Set_Dev_Features (vd_cap_id d) sel features)
              (set_dev p (d\<lparr>vd_features := (vd_features d)[unat sel := features]\<rparr>) s) of
         ((ret, _), s) \<Rightarrow> Done (ret, No_Out) s)"

definition vb_ioc_set_queue_num_max :: "'x vb_env \<Rightarrow> u32 \<Rightarrow> u32 \<Rightarrow> ptr \<Rightarrow> 'x vb_state \<Rightarrow> (int \<times> vb_out, 'x vb_state) outcome" where
  "vb_ioc_set_queue_num_max env sel num_max p s =
     with_dev p s (\<lambda>d.
       case vb_hypercall env (Set_Queue_Num_Max (vd_cap_id d) sel num_max)
              (set_dev p (d\<lparr>vd_queue_num_max := (vd_queue_num_max d)[unat sel := num_max]\<rparr>) s) of
         ((ret, _), s) \<Rightarrow> Done (ret, No_Out) s)"

definition config_args_bad :: "u32 \<Rightarrow> u32 \<Rightarrow> bool \<Rightarrow> virtio_backend_device \<Rightarrow> bool" where
  "config_args_bad label config_size data_ok d \<longleftrightarrow>
     label = 0 \<or> unat (vd_config_shared_size d) < unat config_size \<or> config_size = 0 \<or> \<not> data_ok"

definition vb_ioc_get_config :: "'x vb_env \<Rightarrow> u32 \<Rightarrow> u32 \<Rightarrow> bool \<Rightarrow> ptr \<Rightarrow> 'x vb_state \<Rightarrow> (int \<times> vb_out, 'x vb_state) outcome" where
  "vb_ioc_get_config env label config_size data_ok p s =
     with_dev p s (\<lambda>d.
       if config_args_bad label config_size data_ok d then Done (- EINVAL, No_Out) s
       else case vd_config_shared_buf d of
         None \<Rightarrow> Done (- EINVAL, No_Out) s
       | Some b \<Rightarrow>
           if length b < unat config_size then Fault
           else Done (be_uncopied env, if be_uncopied env = 0 then Out_Bytes (take (unat config_size) b) else No_Out) s)"

definition vb_ioc_set_config :: "'x vb_env \<Rightarrow> u32 \<Rightarrow> u32 \<Rightarrow> bool \<Rightarrow> ptr \<Rightarrow> 'x vb_state \<Rightarrow> (int \<times> vb_out, 'x vb_state) outcome" where
  "vb_ioc_set_config env label config_size data_ok p s =
     with_dev p s (\<lambda>d.
       if config_args_bad label config_size data_ok d then Done (- EINVAL, No_Out) s
       else if vd_config_data d \<noteq> None then Done (- EBUSY, No_Out) s
       else case vd_config_shared_buf d of
         None \<Rightarrow> Done (- EINVAL, No_Out) s
       | Some b \<Rightarrow>
           if \<not> be_kz env then Done (- ENOMEM, No_Out) s
           else (case be_data env of
             None \<Rightarrow> Done (- EFAULT, No_Out) s
           | Some bytes \<Rightarrow>
               (case mem_write (replicate PAGE_SIZE 0) 0 (take (unat config_size) bytes) of
                  None \<Rightarrow> Fault
                | Some page \<Rightarrow>
                    (case mem_write b 0 (take (4 * (unat config_size div 4)) page) of
                       None \<Rightarrow> Fault
                     | Some b' \<Rightarrow>
                         Done (0, No_Out) (set_dev p (d\<lparr>vd_config_data := Some page, vd_config_size := config_size,
                                                        vd_config_shared_buf := Some b'\<rparr>) s)))))"

text \<open>\<^verbatim>\<open>GH_ACK_RESET\<close> returns without giving the reference back when the device has no capability.\<close>

definition vb_ioc_ack_reset :: "'x vb_env \<Rightarrow> virt_machine \<Rightarrow> u32 \<Rightarrow> 'x vb_state \<Rightarrow> (int \<times> vb_out, 'x vb_state) outcome" where
  "vb_ioc_ack_reset env vm label s =
     (case vb_dev_get vm label s of
        (None, s) \<Rightarrow> Done (- EINVAL, No_Out) s
      | (Some p, s) \<Rightarrow>
          with_dev p s (\<lambda>d.
            if vd_cap_id d = 0 then Done (- EINVAL, No_Out) s
            else obind (vb_dev_put p (snd (vb_hypercall env (Ack_Reset (vd_cap_id d)) s))) (\<lambda>_. Done (0, No_Out))))"

text \<open>\<^verbatim>\<open>GH_GET_SHARED_MEMORY_SIZE\<close>, \<^verbatim>\<open>GH_ACK_DRIVER_OK\<close> and unknown requests copy nothing from user space.\<close>

definition vb_dispatch :: "'x vb_env \<Rightarrow> virt_machine \<Rightarrow> vb_cmd \<Rightarrow> 'x vb_state \<Rightarrow> (int \<times> vb_out, 'x vb_state) outcome" where
  "vb_dispatch env vm cmd s =
     (let efault = (\<lambda>k. if be_from env then k else Done (- EFAULT, No_Out) s);
          einval = Done (- EINVAL, No_Out) s;
          plain = (\<lambda>ret. (ret, No_Out)) in
      case cmd of
        GH_GET_SHARED_MEMORY_SIZE \<Rightarrow> Done (copy_out env (Out_Size (vt_shmem_size vm))) s
      | GH_IOEVENTFD label flags q fd \<Rightarrow>
          efault (if MAX_IO_CONTEXTS \<le> unat q then einval
                  else if flags \<noteq> 1 then Done (- EOPNOTSUPP, No_Out) s
                  else with_ref vm label s (\<lambda>p s. obind (vb_dev_ioeventfd env p (unat q) fd s) (\<lambda>r. Done (plain r))))
      | GH_IRQFD label flags fd \<Rightarrow>
          efault (if label = 0 \<or> fd \<le> 0 then einval
                  else if flags \<noteq> 1 then Done (- EOPNOTSUPP, No_Out) s
                  else with_ref vm label s (\<lambda>p s. obind (vb_dev_irqfd env p fd s) (\<lambda>r. Done (plain r))))
      | GH_WAIT_FOR_EVENT label \<Rightarrow> efault (if label = 0 then einval else with_ref vm label s (vb_ioc_wait_for_event env))
      | GH_GET_DRIVER_FEATURES label sel \<Rightarrow>
          efault (if label = 0 \<or> 1 < unat sel then einval else with_ref vm label s (vb_ioc_get_driver_features env sel))
      | GH_GET_QUEUE_INFO label sel \<Rightarrow>
          efault (if label = 0 \<or> MAX_IO_CONTEXTS \<le> unat sel then einval else with_ref vm label s (vb_ioc_get_queue_info env sel))
      | GH_ACK_DRIVER_OK label \<Rightarrow>
          if label = 0 then einval
          else with_ref vm label s (\<lambda>p s. with_dev p s (\<lambda>d. Done (0, No_Out) (set_dev p (d\<lparr>vd_ack_driver_ok := True\<rparr>) s)))
      | GH_ACK_RESET label \<Rightarrow> efault (if label = 0 then einval else vb_ioc_ack_reset env vm label s)
      | GH_SET_DEVICE_FEATURES label sel f \<Rightarrow>
          efault (if label = 0 \<or> 1 < unat sel then einval else with_ref vm label s (vb_ioc_set_device_features env sel f))
      | GH_SET_QUEUE_NUM_MAX label sel q \<Rightarrow>
          efault (if label = 0 \<or> MAX_IO_CONTEXTS \<le> unat sel then einval else with_ref vm label s (vb_ioc_set_queue_num_max env sel q))
      | GH_GET_DRIVER_CONFIG_DATA label sz ok \<Rightarrow> efault (with_ref vm label s (vb_ioc_get_config env label sz ok))
      | GH_SET_DEVICE_CONFIG_DATA label sz ok \<Rightarrow> efault (with_ref vm label s (vb_ioc_set_config env label sz ok))
      | GH_SET_INPUT_DEVICE_CONFIG_DATA label dev_id props evs axes \<Rightarrow>
          efault (if label = 0 then einval
                  else with_ref vm label s (\<lambda>p s. with_dev p s (\<lambda>d.
                    case vb_hypercall env (Input_Configure (vd_cap_id d) dev_id props evs axes) s of ((ret, _), s) \<Rightarrow> Done (ret, No_Out) s)))
      | GH_SET_INPUT_DEVICE_DATA label sel subsel sz payload \<Rightarrow>
          efault (if label = 0 then einval
                  else with_ref vm label s (\<lambda>p s. with_dev p s (\<lambda>d.
                    case vb_hypercall env (Input_Set_Data (vd_cap_id d) sel subsel sz payload) s of ((ret, _), s) \<Rightarrow> Done (ret, No_Out) s)))
      | GH_OTHER_REQUEST \<Rightarrow> einval)"

definition gh_virtio_backend_ioctl :: "'x vb_env \<Rightarrow> string \<Rightarrow> vb_cmd \<Rightarrow> 'x vb_state \<Rightarrow> (int \<times> vb_out, 'x vb_state) outcome" where
  "gh_virtio_backend_ioctl env vm_name cmd s =
     (case vb_find_vm_by_name vm_name s of
        None \<Rightarrow> Done (- EINVAL, No_Out) s
      | Some v \<Rightarrow> (case vb_vms s v of None \<Rightarrow> Fault | Some vm \<Rightarrow> vb_dispatch env vm cmd s))"

text \<open>\<open>remap\<close> is what \<^verbatim>\<open>io_remap_pfn_range\<close> returns.\<close>

definition gh_virtio_backend_mmap :: "string \<Rightarrow> u64 \<Rightarrow> int \<Rightarrow> 'x vb_state \<Rightarrow> (int, 'x vb_state) outcome" where
  "gh_virtio_backend_mmap vm_name mmap_size remap s =
     (case vb_find_vm_by_name vm_name s of
        None \<Rightarrow> Done (- EINVAL) s
      | Some v \<Rightarrow>
          (case vb_vms s v of
             None \<Rightarrow> Fault
           | Some vm \<Rightarrow> Done (if mmap_size \<noteq> vt_shmem_size vm then - EINVAL else if remap \<noteq> 0 then - EAGAIN else 0) s))"

section \<open>Probing\<close>

definition init_vb_dev_open :: "virtio_backend_device \<Rightarrow> virtio_backend_device" where
  "init_vb_dev_open d = d\<lparr>vd_evt_avail := False, vd_cur_event_data := 0, vd_vdev_event_data := 0, vd_cur_event := 0,
     vd_vdev_event := 0, vd_notify := False\<rparr>"

text \<open>
  A node of the device tree: \<open>vn_vm\<close> is the VM's node, if the property names one, with its memory (start
  and size) and its shared buffers; a buffer is missing when its node cannot be parsed.
\<close>

type_synonym vb_buffer_node = "(u64 \<times> u64) option \<times> u32 option"

record vb_vm_node =
  vm_resource :: "(u64 \<times> u64) option"
  vm_buffers :: "vb_buffer_node option list"

record vb_node =
  vn_vm :: "vb_vm_node option"
  vn_label :: "u32 option"
  vn_batch :: bool

fun shared_buffers :: "vb_buffer_node option list \<Rightarrow> int + shared_memory list" where
  "shared_buffers [] = Inr []"
| "shared_buffers (b # bs) =
     (case b of
        Some (Some (start, sz), Some label) \<Rightarrow>
          (case shared_buffers bs of
             Inl e \<Rightarrow> Inl e
           | Inr ms \<Rightarrow> Inr (\<lparr>sm_start = start, sm_size = sz, sm_gunyah_label = label, sm_shm_memparcel = 0\<rparr> # ms))
      | _ \<Rightarrow> Inl (- EINVAL))"

definition note_shared_buffers :: "bool \<Rightarrow> vb_vm_node \<Rightarrow> int + shared_memory list" where
  "note_shared_buffers kz np =
     (if vm_buffers np = [] then Inl (- EINVAL) else if \<not> kz then Inl (- ENOMEM) else shared_buffers (vm_buffers np))"

text \<open>A failure after the allocation leaves an object nobody refers to until the device goes away.\<close>

definition vb_new_vm :: "bool \<Rightarrow> string \<Rightarrow> vb_vm_node \<Rightarrow> 'x vb_state \<Rightarrow> ptr option \<times> 'x vb_state" where
  "vb_new_vm kz nm np s =
     (case vm_resource np of
        None \<Rightarrow> (None, s)
      | Some (start, sz) \<Rightarrow>
          if start = 0 \<or> sz = 0 \<or> \<not> kz then (None, s)
          else (case note_shared_buffers kz np of
            Inl e \<Rightarrow> (None, s)
          | Inr ms \<Rightarrow>
              let v = vb_next s;
                  vm = \<lparr>vt_vm_name = take (GH_VM_FW_NAME_MAX - 1) nm, vt_hyp_assign_done = False, vt_shmem = ms, vt_vb_dev_list = [],
                        vt_shmem_addr = start, vt_shmem_size = sz\<rparr> in
              (Some v, s\<lparr>vb_vms := (vb_vms s)(v \<mapsto> vm), vb_next := v + 1, vb_vm_list := v # vb_vm_list s\<rparr>)))"

definition new_vb_dev :: "u32 \<Rightarrow> ptr \<Rightarrow> bool \<Rightarrow> virtio_backend_device" where
  "new_vb_dev label v batch = \<lparr>vd_refcount = 0, vd_notify = False, vd_ack_driver_ok = False, vd_evt_avail = False,
     vd_cur_event_data = 0, vd_vdev_event_data = 0, vd_cur_event = 0, vd_vdev_event = 0, vd_linux_irq = 0, vd_label = label, vd_vm = v,
     vd_ioctx = replicate MAX_IO_CONTEXTS \<lparr>io_fd = 0, io_ctx = None\<rparr>, vd_irq_ctx = None, vd_irq_file = None, vd_irq_wait = False,
     vd_features = [0, 0], vd_queue_num_max = replicate 16 0, vd_cap_id = 0, vd_config_data = None, vd_config_size = 0,
     vd_config_shared_buf = None, vd_config_shared_size = 0, vd_batch_events = batch\<rparr>"

definition gh_virtio_backend_probe :: "bool \<Rightarrow> vb_node \<Rightarrow> string \<Rightarrow> 'x vb_state \<Rightarrow> (int, 'x vb_state) outcome" where
  "gh_virtio_backend_probe kz np nm s =
     (case vn_vm np of
        None \<Rightarrow> Done (- EINVAL) s
      | Some vm_np \<Rightarrow>
          if GH_VM_FW_NAME_MAX \<le> length nm then Done (- EINVAL) s
          else (case vn_label np of
            None \<Rightarrow> Done (- EINVAL) s
          | Some label \<Rightarrow>
              if label = 0 then Done (- EINVAL) s
              else (case (case vb_find_vm_by_name nm s of Some v \<Rightarrow> (Some v, s) | None \<Rightarrow> vb_new_vm kz nm vm_np s) of
                (None, s) \<Rightarrow> Done (- ENODEV) s
              | (Some v, s) \<Rightarrow>
                  (case vb_vms s v of
                     None \<Rightarrow> Fault
                   | Some vm \<Rightarrow>
                       (case vb_dev_find (vt_vb_dev_list vm) label s of
                          Some p \<Rightarrow> obind (vb_dev_put p s) (\<lambda>_. Done (- EINVAL))
                        | None \<Rightarrow>
                            if \<not> kz then Done (- ENOMEM) s
                            else let p = vb_next s in
                              Done 0 (s\<lparr>vb_devs := (vb_devs s)(p \<mapsto> new_vb_dev label v (vn_batch np)), vb_next := p + 1,
                                        vb_vms := (vb_vms s)(v \<mapsto> vm\<lparr>vt_vb_dev_list := p # vt_vb_dev_list vm\<rparr>)\<rparr>))))))"

definition handle_probe_failure :: "string \<Rightarrow> 'x vb_state \<Rightarrow> 'x vb_state" where
  "handle_probe_failure nm s =
     (case vb_find_vm_by_name nm s of None \<Rightarrow> s | Some v \<Rightarrow> s\<lparr>vb_vm_list := remove1 v (vb_vm_list s)\<rparr>)"

text \<open>The nodes \<^verbatim>\<open>virtio-backends\<close> names; \<open>None\<close> is one that cannot be parsed.\<close>

fun gh_parse_virtio_properties :: "bool \<Rightarrow> vb_node option list \<Rightarrow> string \<Rightarrow> 'x vb_state \<Rightarrow> (int, 'x vb_state) outcome" where
  "gh_parse_virtio_properties kz [] nm s = Done 0 s"
| "gh_parse_virtio_properties kz (n # ns) nm s =
     (case n of
        None \<Rightarrow> Done (- EINVAL) s
      | Some np \<Rightarrow> obind (gh_virtio_backend_probe kz np nm s) (\<lambda>ret s.
          if ret \<noteq> 0 then Done ret (handle_probe_failure nm s) else gh_parse_virtio_properties kz ns nm s))"

definition gh_virtio_backend_remove :: "string \<Rightarrow> 'x vb_state \<Rightarrow> int \<times> 'x vb_state" where
  "gh_virtio_backend_remove nm s =
     (0, case vb_find_vm_by_name nm s of None \<Rightarrow> s | Some v \<Rightarrow> s\<lparr>vb_vm_list := remove1 v (vb_vm_list s)\<rparr>)"

section \<open>The interrupt of a device\<close>

text \<open>One event of the hypervisor: the device afterwards and the contexts signalled.\<close>

definition vdev_event_in :: "u64 \<Rightarrow> u64 \<Rightarrow> virtio_backend_device \<Rightarrow> virtio_backend_device \<times> nat list" where
  "vdev_event_in event_data event d =
     (let add = (\<lambda>ev data d. d\<lparr>vd_vdev_event := vd_vdev_event d OR ev, vd_vdev_event_data := vd_vdev_event_data d OR data, vd_evt_avail := True\<rparr>) in
      if event AND EVENT_NEW_BUFFER \<noteq> 0 \<and> vd_ack_driver_ok d then
        (case signal_vqs (d\<lparr>vd_vdev_event_data := vd_vdev_event_data d OR event_data\<rparr>) of
           (d, sig) \<Rightarrow> (if event AND NOT EVENT_NEW_BUFFER = 0 then d else add (event AND NOT EVENT_NEW_BUFFER) 0 d, sig))
      else (add event event_data d, []))"

text \<open>The loop asks the hypervisor at most \<open>fuel\<close> times; without \<open>vd_batch_events\<close> it does so once.\<close>

fun vdev_interrupt :: "nat \<Rightarrow> 'x vb_env \<Rightarrow> ptr \<Rightarrow> 'x vb_state \<Rightarrow> (unit, 'x vb_state) outcome" where
  "vdev_interrupt 0 env p s = Blocked s"
| "vdev_interrupt (Suc fuel) env p s =
     with_dev p s (\<lambda>d.
       case vb_hypercall env (Get_Event (vd_cap_id d)) s of
         ((ret, rs), s) \<Rightarrow>
           if ret \<noteq> 0 \<or> reg rs 1 = 0 then Done () s
           else (case vdev_event_in (reg rs 0) (reg rs 1) d of
             (d, sig) \<Rightarrow>
               let s = set_dev p d (vb_signal sig s) in
               if vd_batch_events d then vdev_interrupt fuel env p s else Done () s))"

section \<open>Buffers shared with the VM\<close>

definition on_ext :: "('x \<Rightarrow> 'a \<times> 'x) \<Rightarrow> 'x vb_state \<Rightarrow> 'a \<times> 'x vb_state" where
  "on_ext f s = (case f (vb_ext s) of (a, x) \<Rightarrow> (a, s\<lparr>vb_ext := x\<rparr>))"

definition unshare_a_vm_buffer :: "'x vb_env \<Rightarrow> gh_vmid_t \<Rightarrow> gh_vmid_t \<Rightarrow> shared_memory \<Rightarrow> 'x \<Rightarrow> int \<times> 'x" where
  "unshare_a_vm_buffer env self peer m x =
     (case gh_rm_mem_reclaim (be_junk env) (be_call env) (sm_shm_memparcel m) 0 x of
        (ret, x) \<Rightarrow> if ret \<noteq> 0 then (ret, x)
                    else be_scm env (sm_start m) (sm_size m) (BIT self OR BIT peer) [(self, QCOM_SCM_PERM_RWX)] x)"

fun unshare_loop :: "'x vb_env \<Rightarrow> gh_vmid_t \<Rightarrow> gh_vmid_t \<Rightarrow> shared_memory list \<Rightarrow> 'x \<Rightarrow> int \<times> 'x" where
  "unshare_loop env self peer [] x = (0, x)"
| "unshare_loop env self peer (m # ms) x =
     (case unshare_a_vm_buffer env self peer m x of (ret, x) \<Rightarrow> if ret \<noteq> 0 then (ret, x) else unshare_loop env self peer ms x)"

definition unshare_vm_buffers :: "'x vb_env \<Rightarrow> gh_vmid_t \<Rightarrow> virt_machine \<Rightarrow> 'x \<Rightarrow> (int \<times> virt_machine) \<times> 'x" where
  "unshare_vm_buffers env peer vm x =
     (if \<not> vt_hyp_assign_done vm then ((0, vm), x)
      else if fst (be_primary env) \<noteq> 0 then ((fst (be_primary env), vm), x)
      else case unshare_loop env (snd (be_primary env)) peer (vt_shmem vm) x of
        (ret, x) \<Rightarrow> if ret \<noteq> 0 then ((ret, vm), x) else ((0, vm\<lparr>vt_hyp_assign_done := False\<rparr>), x))"

definition share_a_vm_buffer :: "'x vb_env \<Rightarrow> gh_vmid_t \<Rightarrow> gh_vmid_t \<Rightarrow> shared_memory \<Rightarrow> 'x \<Rightarrow> (int \<times> shared_memory, 'x) outcome" where
  "share_a_vm_buffer env self peer m x =
     (if \<not> be_kz env then Done (- ENOMEM, m) x
      else case be_scm env (sm_start m) (sm_size m) (BIT self) [(self, QCOM_SCM_PERM_RW), (peer, QCOM_SCM_PERM_RW)] x of
        (ret, x) \<Rightarrow>
          if ret \<noteq> 0 then Done (ret, m) x
          else obind (gh_rm_mem_share (be_junk env) (be_gap env) (be_call env) (be_kz env) 0 0 (sm_gunyah_label m)
                        (Some [(self, 6), (peer, 6)]) (Some [(sm_start m, sm_size m)]) None x) (\<lambda>r x.
            case r of
              Inr h \<Rightarrow> Done (0, m\<lparr>sm_shm_memparcel := h\<rparr>) x
            | Inl ret \<Rightarrow>
                if ret = 0 then Done (0, m) x
                else Done (ret, m) (snd (be_scm env (sm_start m) (sm_size m) (BIT self OR BIT peer) [(self, QCOM_SCM_PERM_RWX)] x))))"

text \<open>The buffers shared so far come last first, in the order in which a failure takes them back.\<close>

fun share_loop ::
  "'x vb_env \<Rightarrow> gh_vmid_t \<Rightarrow> gh_vmid_t \<Rightarrow> shared_memory list \<Rightarrow> shared_memory list \<Rightarrow> 'x \<Rightarrow> (int \<times> shared_memory list, 'x) outcome" where
  "share_loop env self peer ready [] x = Done (0, rev ready) x"
| "share_loop env self peer ready (m # ms) x =
     obind (share_a_vm_buffer env self peer m x) (\<lambda>(ret, m') x.
       if ret \<noteq> 0 then Done (ret, rev ready @ m' # ms) (fold (\<lambda>m x. snd (unshare_a_vm_buffer env self peer m x)) ready x)
       else share_loop env self peer (m' # ready) ms x)"

definition share_vm_buffers :: "'x vb_env \<Rightarrow> gh_vmid_t \<Rightarrow> virt_machine \<Rightarrow> 'x \<Rightarrow> (int \<times> virt_machine, 'x) outcome" where
  "share_vm_buffers env peer vm x =
     (if fst (be_primary env) \<noteq> 0 then Done (fst (be_primary env), vm) x
      else obind (share_loop env (snd (be_primary env)) peer [] (vt_shmem vm) x) (\<lambda>(ret, ms) x.
        Done (ret, vm\<lparr>vt_shmem := ms, vt_hyp_assign_done := (vt_hyp_assign_done vm \<or> ret = 0)\<rparr>) x))"

section \<open>Devices come and go with their VM\<close>

definition set_vt :: "ptr \<Rightarrow> virt_machine \<Rightarrow> 'x vb_state \<Rightarrow> 'x vb_state" where
  "set_vt v vm s = s\<lparr>vb_vms := (vb_vms s)(v \<mapsto> vm)\<rparr>"

definition unshare_on :: "'x vb_env \<Rightarrow> gh_vmid_t \<Rightarrow> ptr \<Rightarrow> 'x vb_state \<Rightarrow> (int, 'x vb_state) outcome" where
  "unshare_on env peer v s =
     (case vb_vms s v of
        None \<Rightarrow> Fault
      | Some vm \<Rightarrow> (case unshare_vm_buffers env peer vm (vb_ext s) of ((ret, vm), x) \<Rightarrow> Done ret (set_vt v vm (s\<lparr>vb_ext := x\<rparr>))))"

definition share_on :: "'x vb_env \<Rightarrow> gh_vmid_t \<Rightarrow> ptr \<Rightarrow> 'x vb_state \<Rightarrow> (int, 'x vb_state) outcome" where
  "share_on env peer v s =
     (case vb_vms s v of
        None \<Rightarrow> Fault
      | Some vm \<Rightarrow>
          if vt_hyp_assign_done vm then Done 0 s
          else (case share_vm_buffers env peer vm (vb_ext s) of
            Fault \<Rightarrow> Fault
          | Blocked x \<Rightarrow> Blocked (s\<lparr>vb_ext := x\<rparr>)
          | Done (ret, vm) x \<Rightarrow> Done ret (set_vt v vm (s\<lparr>vb_ext := x\<rparr>))))"

text \<open>The part of \<^verbatim>\<open>gh_virtio_mmio_init\<close> after \<^verbatim>\<open>vb_dev_get\<close>.\<close>

definition vb_bring_up ::
  "'x vb_env \<Rightarrow> gh_vmid_t \<Rightarrow> ptr \<Rightarrow> ptr \<Rightarrow> gh_capid_t \<Rightarrow> int \<Rightarrow> u64 \<Rightarrow> u64 \<Rightarrow> 'x vb_state \<Rightarrow> (int, 'x vb_state) outcome" where
  "vb_bring_up env vmid v p cap_id linux_irq base sz s =
     obind (share_on env vmid v s) (\<lambda>ret s.
       if ret \<noteq> 0 then Done ret s
       else if be_rq env linux_irq \<noteq> 0 then obind (unshare_on env vmid v s) (\<lambda>_. Done (be_rq env linux_irq))
       else case be_ioremap env base sz of
         None \<Rightarrow> obind (unshare_on env vmid v s) (\<lambda>_. Done (- ENOMEM))
       | Some b \<Rightarrow>
           with_dev p s (\<lambda>d.
             Done 0 (set_dev p (init_vb_dev_open (d\<lparr>vd_linux_irq := linux_irq, vd_cap_id := cap_id, vd_config_shared_buf := Some b,
                                                   vd_config_shared_size := sz\<rparr>))
                      (s\<lparr>vb_irqs := (linux_irq, p) # vb_irqs s\<rparr>))))"

definition gh_virtio_mmio_init ::
  "'x vb_env \<Rightarrow> gh_vmid_t \<Rightarrow> string \<Rightarrow> gh_label_t \<Rightarrow> gh_capid_t \<Rightarrow> int \<Rightarrow> u64 \<Rightarrow> u64 \<Rightarrow> 'x vb_state \<Rightarrow> (int, 'x vb_state) outcome" where
  "gh_virtio_mmio_init env vmid nm label cap_id linux_irq base sz s =
     (case vb_find_vm_by_name nm s of
        None \<Rightarrow> Done (- ENODEV) s
      | Some v \<Rightarrow>
          (case vb_vms s v of
             None \<Rightarrow> Fault
           | Some vm \<Rightarrow>
               if GH_VM_FW_NAME_MAX \<le> length nm then Done (- EINVAL) s
               else (case vb_dev_get vm label s of
                 (None, s) \<Rightarrow> Done (- ENODEV) s
               | (Some p, s) \<Rightarrow>
                   obind (vb_bring_up env vmid v p cap_id linux_irq base sz s) (\<lambda>r s. obind (vb_dev_put p s) (\<lambda>_. Done r)))))"

text \<open>The VM's user space is told to exit; a task that holds a reference is waited for.\<close>

fun app_exit_devs :: "'x vb_env \<Rightarrow> ptr list \<Rightarrow> 'x vb_state \<Rightarrow> (unit, 'x vb_state) outcome" where
  "app_exit_devs env [] s = Done () s"
| "app_exit_devs env (p # ps) s =
     with_dev p s (\<lambda>d.
       obind (wait_event (\<lambda>s. case vb_devs s p of None \<Rightarrow> True | Some d \<Rightarrow> vd_refcount d = 0) (be_steps env p)
                (set_dev p (d\<lparr>vd_vdev_event := EVENT_VM_EXIT, vd_vdev_event_data := 0, vd_evt_avail := True, vd_notify := True\<rparr>) s))
         (\<lambda>_. app_exit_devs env ps))"

definition gh_virtio_mmio_app_exit :: "'x vb_env \<Rightarrow> string \<Rightarrow> 'x vb_state \<Rightarrow> (unit, 'x vb_state) outcome" where
  "gh_virtio_mmio_app_exit env nm s =
     (case vb_find_vm_by_name nm s of
        None \<Rightarrow> Fault
      | Some v \<Rightarrow> (case vb_vms s v of None \<Rightarrow> Fault | Some vm \<Rightarrow> app_exit_devs env (vt_vb_dev_list vm) s))"

text \<open>Giving up one device: its eventfds, pages, interrupt and mapping.\<close>

definition vb_dev_exit :: "ptr \<Rightarrow> 'x vb_state \<Rightarrow> (unit, 'x vb_state) outcome" where
  "vb_dev_exit p s =
     with_dev p s (\<lambda>d.
       obind (eventfd_puts (vd_irq_ctx d # map io_ctx (vd_ioctx d)) s) (\<lambda>_ s.
         let d = (if vd_irq_ctx d = None then d else d\<lparr>vd_irq_wait := False, vd_irq_file := None, vd_irq_ctx := None\<rparr>) in
         Done () (set_dev p (clear_ioctx (d\<lparr>vd_config_data := None, vd_ack_driver_ok := False, vd_config_shared_buf := None\<rparr>))
                   (s\<lparr>vb_irqs := removeAll (vd_linux_irq d, p) (vb_irqs s)\<rparr>))))"

fun vb_devs_exit :: "ptr list \<Rightarrow> 'x vb_state \<Rightarrow> (unit, 'x vb_state) outcome" where
  "vb_devs_exit [] s = Done () s"
| "vb_devs_exit (p # ps) s = obind (vb_dev_exit p s) (\<lambda>_. vb_devs_exit ps)"

definition gh_virtio_mmio_exit :: "'x vb_env \<Rightarrow> gh_vmid_t \<Rightarrow> string \<Rightarrow> 'x vb_state \<Rightarrow> (int, 'x vb_state) outcome" where
  "gh_virtio_mmio_exit env vmid nm s =
     (case vb_find_vm_by_name nm s of
        None \<Rightarrow> Done 0 s
      | Some v \<Rightarrow>
          (case vb_vms s v of
             None \<Rightarrow> Fault
           | Some vm \<Rightarrow> obind (vb_devs_exit (vt_vb_dev_list vm) s) (\<lambda>_. unshare_on env vmid v)))"

end
