(* ===== verification/Virtio_Events.thy ===== *)
theory Virtio_Events
  imports Virtio_Backend Vm_Memory_Correct
begin

text \<open>
  Properties of the virtio backend's requests and interrupts: which queues an interrupt notifies, the
  references on eventfds, the counted references on devices, configuration data, and the end of a
  VM.
\<close>

section \<open>Notifying queues\<close>

text \<open>Reference: the contexts of the queues whose bit is set, and the bits of the queues without one.\<close>

definition kicked :: "ioevent_context list \<Rightarrow> u64 \<Rightarrow> nat list" where
  "kicked cs data = List.map_filter (\<lambda>i. if bit data i then io_ctx (cs ! i) else None) [0..<length cs]"

definition unheard :: "ioevent_context list \<Rightarrow> u64 \<Rightarrow> nat set" where
  "unheard cs data = {i. bit data i \<and> (i < length cs \<longrightarrow> io_ctx (cs ! i) = None)}"

lemma map_filter_shift:
  "List.map_filter (\<lambda>j. f (j - i)) [i..<i + n] = List.map_filter f [0..<n]"
proof -
  have "[i..<i + n] = map (\<lambda>j. j + i) [0..<n]" by (simp add: map_add_upt add.commute)
  then show ?thesis by (simp add: List.map_filter_def filter_map comp_def)
qed

lemma map_filter_cong: "(\<And>x. x \<in> set xs \<Longrightarrow> f x = g x) \<Longrightarrow> List.map_filter f xs = List.map_filter g xs"
  unfolding List.map_filter_def by (induction xs) auto

lemma bit_clear: "bit (data AND NOT (2 ^ i) :: u64) j \<longleftrightarrow> bit data j \<and> j \<noteq> i"
  using bit_imp_le_length [of data j] by (auto simp: bit_simps)

lemma signal_from_signals:
  "snd (signal_from i cs data) = List.map_filter (\<lambda>j. if bit data j then io_ctx (cs ! (j - i)) else None) [i..<i + length cs]"
proof (induction i cs data rule: signal_from.induct)
  case (1 i data)
  then show ?case by (simp add: List.map_filter_def)
next
  case (2 i c cs data)
  let ?d = "data AND NOT (2 ^ i)"
  have up: "[i..<i + length (c # cs)] = i # [i + 1..<i + 1 + length cs]" by (simp add: upt_rec)
  have eq: "List.map_filter (\<lambda>j. if bit d j then io_ctx (cs ! (j - (i + 1))) else None) [i + 1..<i + 1 + length cs] =
      List.map_filter (\<lambda>j. if bit data j then io_ctx ((c # cs) ! (j - i)) else None) [i + 1..<i + 1 + length cs]"
    if "d = data \<or> d = ?d" for d
    using that by (intro map_filter_cong) (auto simp: bit_clear nth_Cons')
  show ?case
    using 2 eq [of data] eq [of ?d] unfolding up
    by (auto simp: List.map_filter_simps and_exp_eq_0_iff_not_bit split: option.splits prod.splits)
qed

lemma signal_from_rest:
  "bit (fst (signal_from i cs data)) j \<longleftrightarrow> bit data j \<and> (i \<le> j \<and> j < i + length cs \<longrightarrow> io_ctx (cs ! (j - i)) = None)"
proof (induction i cs data arbitrary: j rule: signal_from.induct)
  case (1 i data)
  then show ?case by auto
next
  case (2 i c cs data)
  show ?case
    using 2 by (auto simp: bit_clear and_exp_eq_0_iff_not_bit nth_Cons' split: option.splits prod.splits)
qed

lemma signal_vqs_spec:
  "signal_vqs d = (d\<lparr>vd_vdev_event_data := fst (signal_from 0 (vd_ioctx d) (vd_vdev_event_data d))\<rparr>, kicked (vd_ioctx d) (vd_vdev_event_data d))"
  using signal_from_signals [of 0 "vd_ioctx d" "vd_vdev_event_data d", unfolded minus_nat.diff_0 add_0]
  by (auto simp: signal_vqs_def kicked_def split: prod.splits)

lemma signal_unheard: "{i. bit (fst (signal_from 0 cs data)) i} = unheard cs data"
  using signal_from_rest [of 0 cs data] by (auto simp: unheard_def)

section \<open>References on eventfds\<close>

text \<open>The contexts a device holds, and how often a context is held by the devices of the heap.\<close>

definition dev_ctxs :: "virtio_backend_device \<Rightarrow> nat option list" where
  "dev_ctxs d = vd_irq_ctx d # map io_ctx (vd_ioctx d)"

definition held :: "'x vb_state \<Rightarrow> nat \<Rightarrow> nat" where
  "held s c = (\<Sum>p<vb_next s. case vb_devs s p of None \<Rightarrow> 0 | Some d \<Rightarrow> count_list (dev_ctxs d) (Some c))"

definition dev_ok :: "virtio_backend_device \<Rightarrow> bool" where
  "dev_ok d \<longleftrightarrow> length (vd_ioctx d) = MAX_IO_CONTEXTS \<and> (\<forall>c\<in>set (vd_ioctx d). io_ctx c \<noteq> None \<longrightarrow> 0 < io_fd c) \<and>
     (vd_irq_file d = None \<longleftrightarrow> vd_irq_ctx d = None)"

definition vb_wf :: "'x vb_state \<Rightarrow> bool" where
  "vb_wf s \<longleftrightarrow> (\<forall>p d. vb_devs s p = Some d \<longrightarrow> p < vb_next s \<and> dev_ok d) \<and> vb_eventfds s = held s \<and>
     (\<forall>v vm. vb_vms s v = Some vm \<longrightarrow> v < vb_next s \<and> (\<forall>p\<in>set (vt_vb_dev_list vm). vb_devs s p \<noteq> None)) \<and>
     (\<forall>v\<in>set (vb_vm_list s). vb_vms s v \<noteq> None)"

text \<open>A step keeps the invariant and the devices.\<close>

definition vb_goes :: "'x vb_state \<Rightarrow> 'x vb_state \<Rightarrow> bool" where
  "vb_goes s t \<longleftrightarrow> (vb_wf s \<longrightarrow> vb_wf t \<and> dom (vb_devs s) \<subseteq> dom (vb_devs t) \<and> dom (vb_vms s) \<subseteq> dom (vb_vms t))"

lemma vb_goes_refl [simp, intro]: "vb_goes s s"
  by (simp add: vb_goes_def)

lemma vb_goes_trans [trans]: "vb_goes s t \<Longrightarrow> vb_goes t u \<Longrightarrow> vb_goes s u"
  unfolding vb_goes_def by (meson order_trans)

text \<open>The counts when one device is replaced.\<close>

lemma held_set_dev:
  assumes "vb_devs s p = Some d" "p < vb_next s"
  shows "held (set_dev p d' s) c + count_list (dev_ctxs d) (Some c) = held s c + count_list (dev_ctxs d') (Some c)"
proof -
  let ?f = "\<lambda>s p. case vb_devs s p of None \<Rightarrow> 0 | Some d \<Rightarrow> count_list (dev_ctxs d) (Some c)"
  have "sum (?f (set_dev p d' s)) {..<vb_next s} = ?f (set_dev p d' s) p + sum (?f (set_dev p d' s)) ({..<vb_next s} - {p})"
    "sum (?f s) {..<vb_next s} = ?f s p + sum (?f s) ({..<vb_next s} - {p})"
    using assms(2) by (simp_all add: sum.remove)
  moreover have "sum (?f (set_dev p d' s)) ({..<vb_next s} - {p}) = sum (?f s) ({..<vb_next s} - {p})"
    by (intro sum.cong) (auto simp: set_dev_def)
  ultimately show ?thesis using assms(1) by (simp add: held_def set_dev_def)
qed

lemma held_cong: "vb_next t = vb_next s \<Longrightarrow> vb_devs t = vb_devs s \<Longrightarrow> held t = held s"
  by (simp add: held_def fun_eq_iff)

text \<open>Replacing a device by one with other contexts, when the counters change accordingly.\<close>

lemma vb_goes_set_dev:
  assumes "vb_devs s p = Some d" "vb_wf s \<Longrightarrow> dev_ok d \<Longrightarrow> dev_ok d'"
    and same: "vb_devs t = vb_devs s" "vb_next t = vb_next s" "vb_vms t = vb_vms s" "vb_vm_list t = vb_vm_list s"
    and cnt: "\<And>c. vb_wf s \<Longrightarrow> vb_eventfds t c + count_list (dev_ctxs d) (Some c) = vb_eventfds s c + count_list (dev_ctxs d') (Some c)"
  shows "vb_goes s (set_dev p d' t)"
proof -
  have "vb_wf (set_dev p d' t) \<and> dom (vb_devs s) \<subseteq> dom (vb_devs (set_dev p d' t)) \<and> dom (vb_vms s) \<subseteq> dom (vb_vms (set_dev p d' t))" if wf: "vb_wf s"
  proof -
    have "p < vb_next s" "dev_ok d" using wf assms(1) by (auto simp: vb_wf_def)
    moreover have "held (set_dev p d' t) = held (set_dev p d' s)" by (simp add: held_cong set_dev_def same)
    ultimately have "vb_eventfds t c = held (set_dev p d' t) c" for c
      using held_set_dev [OF assms(1), of d' c] cnt [of c] wf by (simp add: vb_wf_def)
    then have "vb_eventfds (set_dev p d' t) = held (set_dev p d' t)" by (simp add: set_dev_def fun_eq_iff)
    then show ?thesis using wf assms(2) \<open>dev_ok d\<close> \<open>p < vb_next s\<close> unfolding vb_wf_def
      by (auto simp: set_dev_def same)
  qed
  then show ?thesis by (simp add: vb_goes_def)
qed

text \<open>Changes that leave the contexts alone.\<close>

lemma vb_goes_update:
  assumes "vb_devs s p = Some d" "dev_ctxs d' = dev_ctxs d" "dev_ok d \<Longrightarrow> dev_ok d'"
  shows "vb_goes s (set_dev p d' s)"
  using assms by (intro vb_goes_set_dev) auto

lemma vb_goes_plain:
  assumes "vb_devs t = vb_devs s" "vb_next t = vb_next s" "vb_vms t = vb_vms s" "vb_vm_list t = vb_vm_list s" "vb_eventfds t = vb_eventfds s"
  shows "vb_goes s t"
  using assms held_cong [of t s] by (simp add: vb_goes_def vb_wf_def)

lemma eventfd_puts_ok:
  assumes "\<And>c. count_list cs (Some c) \<le> vb_eventfds s c"
  shows "eventfd_puts cs s = Done () (s\<lparr>vb_eventfds := \<lambda>c. vb_eventfds s c - count_list cs (Some c)\<rparr>)"
  using assms
proof (induction cs arbitrary: s)
  case Nil
  then show ?case by simp
next
  case (Cons x cs)
  show ?case
  proof (cases x)
    case None
    then show ?thesis using Cons by (simp add: eventfd_put_def)
  next
    case (Some k)
    have "vb_eventfds s k \<noteq> 0" using Cons(2) [of k] Some by simp
    let ?s = "s\<lparr>vb_eventfds := (vb_eventfds s)(k := vb_eventfds s k - 1)\<rparr>"
    have "count_list cs (Some c) \<le> vb_eventfds ?s c" for c using Cons(2) [of c] Some by (auto split: if_splits)
    from Cons(1) [OF this] show ?thesis using Some \<open>vb_eventfds s k \<noteq> 0\<close>
      by (auto simp: eventfd_put_def fun_eq_iff intro!: arg_cong [where f = "\<lambda>h. s\<lparr>vb_eventfds := h\<rparr>"])
  qed
qed

lemma held_at_least: "vb_devs s p = Some d \<Longrightarrow> p < vb_next s \<Longrightarrow> count_list (dev_ctxs d) (Some c) \<le> held s c"
  unfolding held_def by (rule order_trans [OF _ member_le_sum [of p]]) auto

text \<open>An operation keeps the invariant whether it returns or sleeps; \<open>b\<close> says whether it may fault.\<close>

definition vb_does :: "bool \<Rightarrow> 'x vb_state \<Rightarrow> ('a, 'x vb_state) outcome \<Rightarrow> bool" where
  "vb_does b s m \<longleftrightarrow> (vb_wf s \<longrightarrow> (case m of Done a t \<Rightarrow> vb_goes s t | Blocked t \<Rightarrow> vb_goes s t | Fault \<Rightarrow> b))"

lemma vb_does_simps [simp]:
  "vb_does b s (Done a t) \<longleftrightarrow> vb_goes s t" "vb_does b s (Blocked t) \<longleftrightarrow> vb_goes s t" "vb_does True s Fault"
  by (auto simp: vb_does_def vb_goes_def)

lemma vb_does_trans: "vb_goes s t \<Longrightarrow> vb_does b t m \<Longrightarrow> vb_does b s m"
  unfolding vb_does_def by (cases m) (auto intro: vb_goes_trans, auto simp: vb_goes_def)

lemma vb_does_obind:
  assumes "vb_does b s m" "\<And>a t. m = Done a t \<Longrightarrow> vb_goes s t \<Longrightarrow> vb_does b t (f a t)"
  shows "vb_does b s (obind m f)"
proof (cases m)
  case (Done a t)
  then show ?thesis using assms vb_does_trans by fastforce
qed (use assms in \<open>auto simp: vb_does_def\<close>)

lemma vb_does_with_dev:
  assumes "p \<in> dom (vb_devs s)" "\<And>d. vb_devs s p = Some d \<Longrightarrow> vb_does b s (f d)"
  shows "vb_does b s (with_dev p s f)"
  using assms by (auto simp: with_dev_def)

lemma vb_goes_dev: "vb_goes s t \<Longrightarrow> vb_wf s \<Longrightarrow> p \<in> dom (vb_devs s) \<Longrightarrow> p \<in> dom (vb_devs t)"
  by (auto simp: vb_goes_def)

lemma vb_does_wf: "(vb_wf s \<Longrightarrow> vb_does b s m) \<Longrightarrow> vb_does b s m"
  by (simp add: vb_does_def)

text \<open>Hypercalls, signals and the fields that are not contexts.\<close>

lemma vb_goes_hypercall [simp]: "vb_goes s (snd (vb_hypercall env h s))"
  by (rule vb_goes_plain) (simp_all add: vb_hypercall_def split: prod.splits)

lemma vb_hypercall_goes: "vb_hypercall env h s = (r, t) \<Longrightarrow> vb_goes s t \<and> vb_devs t = vb_devs s"
  using vb_goes_hypercall [of s env h] by (auto simp: vb_hypercall_def split: prod.splits)

lemma vb_goes_signal [simp]: "vb_goes s (vb_signal l s)"
  by (rule vb_goes_plain) (simp_all add: vb_signal_def)

lemma vb_dev_get_goes:
  assumes "vb_dev_get vm label s = (r, t)"
  shows "vb_goes s t" "r = Some p \<Longrightarrow> p \<in> dom (vb_devs t)"
  using assms by (auto simp: vb_dev_get_def dev_ctxs_def dev_ok_def set_dev_def [symmetric] split: option.splits if_splits intro!: vb_goes_update)
    (auto simp: set_dev_def)

lemma vb_dev_put_does: "p \<in> dom (vb_devs s) \<Longrightarrow> vb_does b s (vb_dev_put p s)"
  unfolding vb_dev_put_def by (intro vb_does_with_dev) (auto simp: dev_ctxs_def dev_ok_def intro!: vb_goes_update)

lemma irqfd_shutdown_does:
  assumes "p \<in> dom (vb_devs s)"
  shows "vb_does False s (irqfd_shutdown p s)"
  unfolding irqfd_shutdown_def
proof (rule vb_does_with_dev [OF assms], rule vb_does_wf)
  fix d assume d: "vb_devs s p = Some d" and wf: "vb_wf s"
  show "vb_does False s (case vd_irq_ctx d of None \<Rightarrow> Done () s
      | Some c \<Rightarrow> obind (eventfd_put (Some c) s) (\<lambda>_ s. Done () (set_dev p (d\<lparr>vd_irq_wait := False, vd_irq_file := None, vd_irq_ctx := None\<rparr>) s)))"
  proof (cases "vd_irq_ctx d")
    case (Some c)
    let ?d = "d\<lparr>vd_irq_wait := False, vd_irq_file := None, vd_irq_ctx := None\<rparr>"
    have pos: "vb_eventfds s c \<noteq> 0"
      using held_at_least [OF d, of c] wf d Some by (fastforce simp: vb_wf_def dev_ctxs_def)
    have "vb_goes s (set_dev p ?d (s\<lparr>vb_eventfds := (vb_eventfds s)(c := vb_eventfds s c - 1)\<rparr>))"
      using d Some pos by (intro vb_goes_set_dev [OF d]) (auto simp: dev_ok_def dev_ctxs_def)
    then show ?thesis using Some pos by (simp add: eventfd_put_def)
  qed simp
qed

lemma vb_dev_irqfd_does:
  assumes "p \<in> dom (vb_devs s)"
  shows "vb_does b s (vb_dev_irqfd env p fd s)"
  unfolding vb_dev_irqfd_def
proof (intro vb_does_with_dev [OF assms])
  fix d assume d: "vb_devs s p = Some d"
  have "vb_goes s (set_dev p (vb_dev_irqfd_ptable_queue_proc (d\<lparr>vd_irq_ctx := Some c, vd_irq_file := Some f\<rparr>)) (eventfd_get c s))"
    if "vd_irq_file d = None" "vd_irq_ctx d = None" for c f
    using that by (intro vb_goes_set_dev [OF d]) (auto simp: vb_dev_irqfd_ptable_queue_proc_def dev_ok_def dev_ctxs_def eventfd_get_def)
  then show "vb_does b s (if vd_irq_file d \<noteq> None \<or> vd_irq_ctx d \<noteq> None then Done (- EBUSY) s
       else case be_file env fd of None \<Rightarrow> Done (- EBUSY) s
       | Some f \<Rightarrow> (case be_eventfd env fd of Inl e \<Rightarrow> Done e s
            | Inr c \<Rightarrow> Done 0 (set_dev p (vb_dev_irqfd_ptable_queue_proc (d\<lparr>vd_irq_ctx := Some c, vd_irq_file := Some f\<rparr>)) (eventfd_get c s))))"
    by (auto split: option.splits sum.splits)
qed

lemma count_list_update:
  "i < length xs \<Longrightarrow> count_list (xs[i := y]) z + (if xs ! i = z then 1 else 0) = count_list xs z + (if y = z then 1 else 0)"
proof (induction xs arbitrary: i)
  case (Cons x xs)
  then show ?case
  proof (cases i)
    case (Suc j)
    then show ?thesis using Cons(1) [of j] Cons(2) by (auto split: if_splits)
  qed auto
qed simp

lemma vb_dev_ioeventfd_does:
  assumes "p \<in> dom (vb_devs s)" "i < MAX_IO_CONTEXTS"
  shows "vb_does False s (vb_dev_ioeventfd env p i fd s)"
  unfolding vb_dev_ioeventfd_def
proof (rule vb_does_with_dev [OF assms(1)], rule vb_does_wf)
  fix d assume d: "vb_devs s p = Some d" and wf: "vb_wf s"
  then have ok: "length (vd_ioctx d) = 16" "\<And>c. c \<in> set (vd_ioctx d) \<Longrightarrow> io_ctx c \<noteq> None \<longrightarrow> 0 < io_fd c"
    by (auto simp: vb_wf_def dev_ok_def)
  have "vb_goes s (set_dev p (d\<lparr>vd_ioctx := (vd_ioctx d)[i := \<lparr>io_fd = fd, io_ctx = Some c\<rparr>]\<rparr>) (eventfd_get c s))"
    if "0 < fd" "\<not> 0 < io_fd (vd_ioctx d ! i)" for c
  proof (intro vb_goes_set_dev [OF d])
    have none: "io_ctx (vd_ioctx d ! i) = None" using that ok assms(2) by (metis nth_mem)
    show "vb_eventfds (eventfd_get c s) x + count_list (dev_ctxs d) (Some x) =
        vb_eventfds s x + count_list (dev_ctxs (d\<lparr>vd_ioctx := (vd_ioctx d)[i := \<lparr>io_fd = fd, io_ctx = Some c\<rparr>]\<rparr>)) (Some x)" for x
      using count_list_update [of i "map io_ctx (vd_ioctx d)" "Some c" "Some x"] ok(1) assms(2) none
      by (auto simp: eventfd_get_def dev_ctxs_def map_update)
  qed (use that ok in \<open>auto simp: eventfd_get_def dev_ok_def dest!: set_update_subset_insert [THEN subsetD]\<close>)
  then show "vb_does False s (if fd \<le> 0 then Done (- EINVAL) s else if length (vd_ioctx d) \<le> i then Fault
       else if 0 < io_fd (vd_ioctx d ! i) then Done (- EBUSY) s
       else case be_eventfd env fd of Inl e \<Rightarrow> Done e s
       | Inr c \<Rightarrow> Done 0 (set_dev p (d\<lparr>vd_ioctx := (vd_ioctx d)[i := \<lparr>io_fd = fd, io_ctx = Some c\<rparr>]\<rparr>) (eventfd_get c s)))"
    using ok(1) assms(2) by (auto split: sum.splits)
qed

text \<open>Giving contexts back and storing the device without them.\<close>

lemma vb_release:
  assumes "vb_devs s p = Some d" "vb_wf s" "dev_ok d'"
    and cnt: "\<And>c. count_list (dev_ctxs d) (Some c) = count_list (dev_ctxs d') (Some c) + count_list puts (Some c)"
  shows "\<exists>u. eventfd_puts puts s = Done () u \<and> vb_goes s (set_dev p d' u) \<and> vb_irqs u = vb_irqs s \<and> vb_devs u = vb_devs s"
proof -
  have le: "count_list puts (Some c) \<le> vb_eventfds s c" for c
    using held_at_least [OF assms(1), of c] assms(1,2) cnt [of c] by (fastforce simp: vb_wf_def)
  have "vb_goes s (set_dev p d' (s\<lparr>vb_eventfds := \<lambda>c. vb_eventfds s c - count_list puts (Some c)\<rparr>))"
    using assms(3) cnt le by (intro vb_goes_set_dev [OF assms(1)]) simp_all
  then show ?thesis using eventfd_puts_ok [OF le] by simp
qed

lemma count_clear_ioctx [simp]: "count_list (dev_ctxs (clear_ioctx d)) (Some c) = count_list [vd_irq_ctx d] (Some c)"
  by (simp add: dev_ctxs_def clear_ioctx_def comp_def map_replicate_const count_list_0_iff)

lemma dev_ok_clear_ioctx [simp]: "dev_ok d \<Longrightarrow> dev_ok (clear_ioctx d)"
  by (auto simp: dev_ok_def clear_ioctx_def)

lemma dev_ok_cong:
  "vd_ioctx d' = vd_ioctx d \<Longrightarrow> vd_irq_ctx d' = vd_irq_ctx d \<Longrightarrow> vd_irq_file d' = vd_irq_file d \<Longrightarrow> dev_ok d' = dev_ok d"
  by (simp add: dev_ok_def)

definition vd_frame :: "virtio_backend_device \<Rightarrow> virtio_backend_device \<Rightarrow> bool" where
  "vd_frame d d' \<longleftrightarrow> vd_irq_ctx d' = vd_irq_ctx d \<and> vd_irq_file d' = vd_irq_file d \<and> vd_refcount d' = vd_refcount d \<and>
     vd_label d' = vd_label d \<and> vd_cap_id d' = vd_cap_id d \<and> vd_config_shared_buf d' = vd_config_shared_buf d"

lemma vb_take_event_frame:
  assumes "vb_take_event d = Some (d', sig, puts)"
  shows "vd_frame d d' \<and> (puts = [] \<and> vd_ioctx d' = vd_ioctx d \<or>
     puts = map io_ctx (vd_ioctx d) \<and> vd_ioctx d' = map (\<lambda>_. \<lparr>io_fd = 0, io_ctx = None\<rparr>) (vd_ioctx d))"
  using assms unfolding vb_take_event_def Let_def signal_vqs_spec vd_frame_def clear_ioctx_def
  by (auto split: if_splits option.splits)

lemma vb_take_event_ctxs:
  assumes "vb_take_event d = Some (d', sig, puts)"
  shows "dev_ok d \<Longrightarrow> dev_ok d'"
    "count_list (dev_ctxs d) (Some c) = count_list (dev_ctxs d') (Some c) + count_list puts (Some c)"
  using vb_take_event_frame [OF assms] by (auto simp: dev_ctxs_def dev_ok_def vd_frame_def comp_def count_list_0_iff)

lemma vb_take_does:
  assumes "p \<in> dom (vb_devs s)"
  shows "vb_does True s (vb_take p s)"
  unfolding vb_take_def
proof (rule vb_does_with_dev [OF assms], rule vb_does_wf)
  fix d assume d: "vb_devs s p = Some d" and wf: "vb_wf s"
  show "vb_does True s (case vb_take_event d of None \<Rightarrow> Fault
       | Some (d', sig, puts) \<Rightarrow> obind (eventfd_puts puts (vb_signal sig s)) (\<lambda>_ s. Done (vd_cur_event d', vd_cur_event_data d') (set_dev p d' s)))"
  proof (cases "vb_take_event d")
    case (Some r)
    obtain d' sig puts where r: "r = (d', sig, puts)" by (cases r)
    have wf': "vb_wf (vb_signal sig s)" "vb_devs (vb_signal sig s) p = Some d"
      using vb_goes_signal [of s sig] wf d by (simp_all add: vb_goes_def) (simp add: vb_signal_def)
    have "dev_ok d'" using vb_take_event_ctxs(1) [OF Some [unfolded r]] wf d by (auto simp: vb_wf_def)
    from vb_release [OF wf'(2,1) this vb_take_event_ctxs(2) [OF Some [unfolded r]]] show ?thesis
      using Some r vb_goes_trans [OF vb_goes_signal] by force
  qed simp
qed

text \<open>Steps of other contexts while a task sleeps keep the invariant.\<close>

definition vb_env_ok :: "'x vb_env \<Rightarrow> bool" where
  "vb_env_ok env \<longleftrightarrow> (\<forall>f s. Env f \<in> set (be_events env) \<longrightarrow> vb_goes s (f s)) \<and> (\<forall>p f s. f \<in> set (be_steps env p) \<longrightarrow> vb_goes s (f s))"

lemma vb_wait_loop_does:
  assumes "\<And>f s. Env f \<in> set es \<Longrightarrow> vb_goes s (f s)" "p \<in> dom (vb_devs s)"
  shows "vb_does True s (vb_wait_loop p es s)"
  using assms
proof (induction p es s rule: vb_wait_loop.induct)
  case (1 p es s)
  have k: "case wait_event_interruptible (\<lambda>f. f) (evt_ready p) s es of
      Woken t es' \<Rightarrow> vb_goes s t \<and> set es' \<subseteq> set es | Interrupted t es' \<Rightarrow> vb_goes s t \<and> set es' \<subseteq> set es | Asleep t \<Rightarrow> vb_goes s t"
    using 1(2) vb_goes_trans by (intro wait_keeps [where P = "vb_goes s"]) blast+
  show ?case
  proof (cases "wait_event_interruptible (\<lambda>f. f) (evt_ready p) s es")
    case (Woken t es')
    then have t: "vb_goes s t" "set es' \<subseteq> set es" using k by auto
    show ?thesis
    proof (rule vb_does_wf)
      assume wf: "vb_wf s"
      then have p: "p \<in> dom (vb_devs t)" using vb_goes_dev [OF t(1)] 1(3) by blast
      have tk: "vb_does True t (vb_take p t)" using vb_take_does [OF p] .
      show "vb_does True s (vb_wait_loop p es s)"
      proof (cases "vb_take p t")
        case (Done r u)
        obtain ev data where r: "r = (ev, data)" by (cases r)
        have u: "vb_goes t u" using tk Done by simp
        have su: "vb_goes s u" using vb_goes_trans t(1) u by blast
        show ?thesis
        proof (cases "ev = 0")
          case True
          have "vb_does True u (vb_wait_loop p es' u)"
            using True Woken Done r t(2) 1(2) vb_goes_dev [OF su wf 1(3)] by (intro 1(1)) auto
          then show ?thesis using True Woken Done r su vb_does_trans by (subst vb_wait_loop.simps) simp
        next
          case False
          then show ?thesis using Woken Done r su by (subst vb_wait_loop.simps) simp
        qed
      next
        case (Blocked u)
        then show ?thesis using Woken tk t(1) vb_goes_trans by (subst vb_wait_loop.simps) auto
      next
        case Fault
        then show ?thesis using Woken by (subst vb_wait_loop.simps) simp
      qed
    qed
  next
    case (Interrupted t es')
    then show ?thesis using k by (subst vb_wait_loop.simps) simp
  next
    case (Asleep t)
    then show ?thesis using k by (subst vb_wait_loop.simps) simp
  qed
qed

section \<open>Requests keep the invariant\<close>

lemma vb_does_then_put:
  assumes "vb_does b t m" "p \<in> dom (vb_devs t)"
  shows "vb_does b t (obind m (\<lambda>r s. obind (vb_dev_put p s) (\<lambda>_. Done r)))"
proof (rule vb_does_wf, rule vb_does_obind [OF assms(1)])
  fix a u assume "vb_wf t" "vb_goes t u"
  then have "p \<in> dom (vb_devs u)" using vb_goes_dev assms(2) by blast
  then show "vb_does b u (obind (vb_dev_put p u) (\<lambda>_. Done a))" by (rule vb_does_obind [OF vb_dev_put_does]) simp
qed

lemma with_ref_does:
  assumes "\<And>p s. p \<in> dom (vb_devs s) \<Longrightarrow> vb_does b s (f p s)"
  shows "vb_does b s (with_ref vm label s f)"
proof (cases "vb_dev_get vm label s")
  case (Pair r t)
  note g = vb_dev_get_goes [OF Pair]
  have "vb_does b s (case r of None \<Rightarrow> Done (- EINVAL, No_Out) t
      | Some p \<Rightarrow> obind (f p t) (\<lambda>r s. obind (vb_dev_put p s) (\<lambda>_. Done r)))"
    using g by (cases r) (auto intro!: vb_does_trans [OF g(1)] vb_does_then_put assms)
  then show ?thesis using Pair by (simp add: with_ref_def split: option.splits)
qed

lemma vb_does_hypercall:
  assumes "\<And>ret rs t. vb_goes s t \<Longrightarrow> vb_does b s (f ret rs t)"
  shows "vb_does b s (case vb_hypercall env h s of ((ret, rs), t) \<Rightarrow> f ret rs t)"
  using assms vb_hypercall_goes [of env h s] by (auto split: prod.splits)

text \<open>The requests that may fault: they read or write a page.\<close>

fun may_fault :: "vb_cmd \<Rightarrow> bool" where
  "may_fault (GH_WAIT_FOR_EVENT label) = True"
| "may_fault (GH_GET_DRIVER_CONFIG_DATA label sz ok) = True"
| "may_fault (GH_SET_DEVICE_CONFIG_DATA label sz ok) = True"
| "may_fault _ = False"

lemma vb_wait_for_event_does:
  "vb_env_ok env \<Longrightarrow> p \<in> dom (vb_devs s) \<Longrightarrow> vb_does True s (vb_ioc_wait_for_event env p s)"
  unfolding vb_ioc_wait_for_event_def vb_env_ok_def
  by (intro vb_does_obind vb_wait_loop_does) (auto split: sum.splits)

lemma vb_features_does: "p \<in> dom (vb_devs s) \<Longrightarrow> vb_does b s (vb_ioc_get_driver_features env sel p s)"
  unfolding vb_ioc_get_driver_features_def by (intro vb_does_with_dev) (auto intro!: vb_does_hypercall split: if_splits)

lemma vb_queue_info_does: "p \<in> dom (vb_devs s) \<Longrightarrow> vb_does b s (vb_ioc_get_queue_info env sel p s)"
  unfolding vb_ioc_get_queue_info_def by (intro vb_does_with_dev) (auto intro!: vb_does_hypercall split: if_splits)

lemma vb_set_then_hypercall:
  assumes "vb_devs s p = Some d" "dev_ctxs d' = dev_ctxs d" "dev_ok d \<Longrightarrow> dev_ok d'"
  shows "vb_does b s (case vb_hypercall env h (set_dev p d' s) of ((ret, rs), s) \<Rightarrow> Done (ret, No_Out) s)"
  by (rule vb_does_trans [OF vb_goes_update [OF assms] vb_does_hypercall]) simp_all

lemma vb_set_features_does: "p \<in> dom (vb_devs s) \<Longrightarrow> vb_does b s (vb_ioc_set_device_features env sel f p s)"
  unfolding vb_ioc_set_device_features_def
  by (intro vb_does_with_dev vb_set_then_hypercall) (auto simp: dev_ctxs_def dev_ok_def)

lemma vb_set_queue_does: "p \<in> dom (vb_devs s) \<Longrightarrow> vb_does b s (vb_ioc_set_queue_num_max env sel n p s)"
  unfolding vb_ioc_set_queue_num_max_def
  by (intro vb_does_with_dev vb_set_then_hypercall) (auto simp: dev_ctxs_def dev_ok_def)

lemma vb_get_config_does: "p \<in> dom (vb_devs s) \<Longrightarrow> vb_does True s (vb_ioc_get_config env label sz ok p s)"
  unfolding vb_ioc_get_config_def by (intro vb_does_with_dev) (auto split: option.splits)

lemma vb_set_config_does: "p \<in> dom (vb_devs s) \<Longrightarrow> vb_does True s (vb_ioc_set_config env label sz ok p s)"
  unfolding vb_ioc_set_config_def
  by (intro vb_does_with_dev) (auto split: option.splits intro!: vb_goes_update simp: dev_ctxs_def dev_ok_def)

lemma vb_ack_reset_does: "vb_does b s (vb_ioc_ack_reset env vm label s)"
proof (cases "vb_dev_get vm label s")
  case (Pair r t)
  note g = vb_dev_get_goes [OF Pair]
  have "vb_does b t (with_dev p t (\<lambda>d. if vd_cap_id d = 0 then Done (- EINVAL, No_Out) t
            else obind (vb_dev_put p (snd (vb_hypercall env (Ack_Reset (vd_cap_id d)) t))) (\<lambda>_. Done (0, No_Out))))" if "r = Some p" for p
  proof (intro vb_does_with_dev)
    fix d assume d: "vb_devs t p = Some d"
    have "p \<in> dom (vb_devs (snd (vb_hypercall env (Ack_Reset (vd_cap_id d)) t)))" using d by (auto simp: vb_hypercall_def split: prod.splits)
    then have "vb_does b t (obind (vb_dev_put p (snd (vb_hypercall env (Ack_Reset (vd_cap_id d)) t))) (\<lambda>_. Done (0 :: int, No_Out)))"
      by (rule vb_does_trans [OF vb_goes_hypercall vb_does_obind [OF vb_dev_put_does]]) simp
    then show "vb_does b t (if vd_cap_id d = 0 then Done (- EINVAL, No_Out) t
            else obind (vb_dev_put p (snd (vb_hypercall env (Ack_Reset (vd_cap_id d)) t))) (\<lambda>_. Done (0, No_Out)))"
      by simp
  qed (use g(2) that in blast)
  then show ?thesis using Pair g(1) vb_does_trans by (cases r) (fastforce simp: vb_ioc_ack_reset_def)+
qed

lemmas vb_request_does = with_ref_does vb_dev_ioeventfd_does vb_dev_irqfd_does vb_features_does vb_queue_info_does
  vb_set_features_does vb_set_queue_does vb_ack_reset_does vb_does_hypercall vb_does_with_dev vb_does_obind

lemma vb_dispatch_does:
  assumes "vb_env_ok env"
  shows "vb_does (may_fault cmd) s (vb_dispatch env vm cmd s)"
proof (cases cmd)
  case (GH_IOEVENTFD label flags q fd)
  then show ?thesis by (auto simp: vb_dispatch_def Let_def not_le intro!: vb_request_does)
next
  case (GH_IRQFD label flags fd)
  then show ?thesis by (auto simp: vb_dispatch_def Let_def intro!: vb_request_does)
next
  case (GH_WAIT_FOR_EVENT label)
  then show ?thesis by (auto simp: vb_dispatch_def Let_def intro!: with_ref_does vb_wait_for_event_does assms)
next
  case (GH_GET_DRIVER_CONFIG_DATA label sz ok)
  then show ?thesis by (auto simp: vb_dispatch_def Let_def intro!: with_ref_does vb_get_config_does)
next
  case (GH_SET_DEVICE_CONFIG_DATA label sz ok)
  then show ?thesis by (auto simp: vb_dispatch_def Let_def intro!: with_ref_does vb_set_config_does)
next
  case (GH_ACK_DRIVER_OK label)
  then show ?thesis
    by (auto simp: vb_dispatch_def Let_def dev_ctxs_def dev_ok_def intro!: with_ref_does vb_does_with_dev vb_goes_update)
qed (auto simp: vb_dispatch_def Let_def intro!: vb_request_does)

lemma vb_find_vm_in: "vb_find_vm_by_name nm s = Some v \<Longrightarrow> v \<in> set (vb_vm_list s) \<and> (\<exists>vm. vb_vms s v = Some vm \<and> vt_vm_name vm = nm)"
  by (auto simp: vb_find_vm_by_name_def find_Some_iff split: option.splits)

lemma gh_virtio_backend_ioctl_does:
  assumes "vb_env_ok env"
  shows "vb_does (may_fault cmd) s (gh_virtio_backend_ioctl env nm cmd s)"
  using vb_dispatch_does [OF assms] vb_find_vm_in [of nm s]
  by (auto simp: gh_virtio_backend_ioctl_def split: option.splits)

section \<open>Interrupts, and the coming and going of devices\<close>

lemma vdev_event_in_ctxs:
  "vdev_event_in data ev d = (d', sig) \<Longrightarrow> vd_ioctx d' = vd_ioctx d \<and> vd_irq_ctx d' = vd_irq_ctx d \<and> vd_irq_file d' = vd_irq_file d \<and>
     vd_refcount d' = vd_refcount d \<and> vd_cap_id d' = vd_cap_id d \<and> vd_batch_events d' = vd_batch_events d"
  by (auto simp: vdev_event_in_def Let_def signal_vqs_spec split: if_splits prod.splits)

lemma vdev_event_goes:
  assumes "vb_devs s p = Some d" "vdev_event_in data ev d = (d', sig)"
  shows "vb_goes s (set_dev p d' (vb_signal sig s))"
  using vdev_event_in_ctxs [OF assms(2)] assms(1)
  by (intro vb_goes_trans [OF vb_goes_signal vb_goes_update]) (auto simp: dev_ctxs_def dev_ok_def vb_signal_def)

lemma vdev_interrupt_does: "p \<in> dom (vb_devs s) \<Longrightarrow> vb_does False s (vdev_interrupt fuel env p s)"
proof (induction fuel arbitrary: s)
  case (Suc fuel)
  show ?case unfolding vdev_interrupt.simps
  proof (rule vb_does_with_dev [OF Suc(2)])
    fix d assume d: "vb_devs s p = Some d"
    obtain ret rs t where h: "vb_hypercall env (Get_Event (vd_cap_id d)) s = ((ret, rs), t)" by (metis prod.collapse)
    then have t: "vb_goes s t" "vb_devs t = vb_devs s" using vb_hypercall_goes by blast+
    obtain d' sig where e: "vdev_event_in (reg rs 0) (reg rs 1) d = (d', sig)" by fastforce
    let ?u = "set_dev p d' (vb_signal sig t)"
    have u: "vb_goes s ?u" using t d e vb_goes_trans vdev_event_goes by metis
    have "vb_does False ?u (vdev_interrupt fuel env p ?u)" if "ret = 0" "reg rs 1 \<noteq> 0" "vd_batch_events d'"
      by (rule Suc(1)) (auto simp: set_dev_def)
    then show "vb_does False s (case vb_hypercall env (Get_Event (vd_cap_id d)) s of
         ((ret, rs), s) \<Rightarrow>
           if ret \<noteq> 0 \<or> reg rs 1 = 0 then Done () s
           else (case vdev_event_in (reg rs 0) (reg rs 1) d of
             (d, sig) \<Rightarrow> let s = set_dev p d (vb_signal sig s) in if vd_batch_events d then vdev_interrupt fuel env p s else Done () s))"
      using h e t(1) u vb_does_trans by (auto simp: Let_def)
  qed
qed simp

lemma vb_goes_ext [simp]: "vb_goes s (s\<lparr>vb_ext := x\<rparr>)"
  by (rule vb_goes_plain) simp_all

lemma vb_goes_set_vt:
  assumes "vb_vms s v = Some vm" "vt_vb_dev_list vm' = vt_vb_dev_list vm" "vb_devs t = vb_devs s" "vb_next t = vb_next s" "vb_vms t = vb_vms s"
    "vb_vm_list t = vb_vm_list s" "vb_eventfds t = vb_eventfds s"
  shows "vb_goes s (set_vt v vm' t)"
  using assms held_cong [of "set_vt v vm' t" s] by (auto simp: vb_goes_def vb_wf_def set_vt_def)

lemma unshare_vm_buffers_list: "unshare_vm_buffers env peer vm x = ((ret, vm'), y) \<Longrightarrow> vt_vb_dev_list vm' = vt_vb_dev_list vm"
  by (auto simp: unshare_vm_buffers_def split: if_splits prod.splits)

lemma unshare_on_does: "v \<in> dom (vb_vms s) \<Longrightarrow> vb_does b s (unshare_on env peer v s)"
  by (auto simp: unshare_on_def split: prod.splits intro!: vb_goes_set_vt dest: unshare_vm_buffers_list)

lemma share_vm_buffers_list: "share_vm_buffers env peer vm x = Done (ret, vm') y \<Longrightarrow> vt_vb_dev_list vm' = vt_vb_dev_list vm"
  by (auto simp: share_vm_buffers_def obind_iffs split: if_splits prod.splits)

text \<open>A request for two VMs and one buffer fits its message, so sharing returns.\<close>

lemma obind_returns:
  assumes "\<exists>r t. m = Done r t" "\<And>r t. \<exists>r' t'. f r t = Done r' t'"
  shows "\<exists>r t. obind m f = Done r t"
  using assms by auto

lemma share_a_vm_buffer_returns: "\<exists>r y. share_a_vm_buffer env self peer m x = Done r y"
proof -
  obtain ret y where scm: "be_scm env (sm_start m) (sm_size m) (BIT self) [(self, QCOM_SCM_PERM_RW), (peer, QCOM_SCM_PERM_RW)] x = (ret, y)"
    by fastforce
  have "call_keeps (\<lambda>_. ()) (be_call env)" by (simp add: call_keeps_def)
  then have "\<exists>r t. gh_rm_mem_share (be_junk env) (be_gap env) (be_call env) (be_kz env) 0 0 (sm_gunyah_label m)
      (Some [(self, 6), (peer, 6)]) (Some [(sm_start m, sm_size m)]) None y = Done r t"
    using share_lend_helper_returns [of "\<lambda>_. ()" "be_call env" "[(self, 6), (peer, 6)]" MEM_SHARE] by (simp add: gh_rm_mem_share_def)
  then have "\<exists>r z. obind (gh_rm_mem_share (be_junk env) (be_gap env) (be_call env) (be_kz env) 0 0 (sm_gunyah_label m)
      (Some [(self, 6), (peer, 6)]) (Some [(sm_start m, sm_size m)]) None y) (\<lambda>r x.
            case r of
              Inr h \<Rightarrow> Done (0, m\<lparr>sm_shm_memparcel := h\<rparr>) x
            | Inl ret \<Rightarrow>
                if ret = 0 then Done (0, m) x
                else Done (ret, m) (snd (be_scm env (sm_start m) (sm_size m) (BIT self OR BIT peer) [(self, QCOM_SCM_PERM_RWX)] x))) = Done r z"
    by (rule obind_returns) (auto split: sum.split)
  then show ?thesis unfolding share_a_vm_buffer_def scm by auto
qed

lemma share_loop_returns: "\<exists>r y. share_loop env self peer ready ms x = Done r y"
proof (induction ms arbitrary: ready x)
  case (Cons m ms)
  then show ?case using share_a_vm_buffer_returns [of env self peer m x] by (auto split: prod.splits)
qed simp

lemma share_vm_buffers_returns: "\<exists>ret vm' y. share_vm_buffers env peer vm x = Done (ret, vm') y"
  using share_loop_returns [of env "snd (be_primary env)" peer "[]" "vt_shmem vm" x] by (auto simp: share_vm_buffers_def split: prod.splits)

lemma share_on_does: "v \<in> dom (vb_vms s) \<Longrightarrow> vb_does b s (share_on env peer v s)"
  using share_vm_buffers_returns [of env peer "the (vb_vms s v)" "vb_ext s"]
  by (auto simp: share_on_def split: outcome.splits prod.splits intro!: vb_goes_set_vt dest: share_vm_buffers_list)

lemma vb_goes_vm: "vb_goes s t \<Longrightarrow> vb_wf s \<Longrightarrow> v \<in> dom (vb_vms s) \<Longrightarrow> v \<in> dom (vb_vms t)"
  by (auto simp: vb_goes_def)

lemma vb_dev_exit_does:
  assumes "p \<in> dom (vb_devs s)"
  shows "vb_does False s (vb_dev_exit p s)"
  unfolding vb_dev_exit_def
proof (rule vb_does_with_dev [OF assms], rule vb_does_wf)
  fix d assume d: "vb_devs s p = Some d" and wf: "vb_wf s"
  define d1 where "d1 = (if vd_irq_ctx d = None then d else d\<lparr>vd_irq_wait := False, vd_irq_file := None, vd_irq_ctx := None\<rparr>)"
  define d2 where "d2 = clear_ioctx (d1\<lparr>vd_config_data := None, vd_ack_driver_ok := False, vd_config_shared_buf := None\<rparr>)"
  have "dev_ok d" using wf d by (auto simp: vb_wf_def)
  then have "dev_ok (d1\<lparr>vd_config_data := None, vd_ack_driver_ok := False, vd_config_shared_buf := None\<rparr>)"
    by (auto simp: d1_def dev_ok_def)
  then have ok: "dev_ok d2" by (simp add: d2_def)
  have "count_list (dev_ctxs d) (Some c) = count_list (dev_ctxs d2) (Some c) + count_list (vd_irq_ctx d # map io_ctx (vd_ioctx d)) (Some c)" for c
    unfolding d2_def count_clear_ioctx by (auto simp: d1_def dev_ctxs_def)
  from vb_release [OF d wf ok this] obtain u where
    u: "eventfd_puts (vd_irq_ctx d # map io_ctx (vd_ioctx d)) s = Done () u" "vb_goes s (set_dev p d2 u)" by blast
  have "vb_goes s (set_dev p d2 (u\<lparr>vb_irqs := removeAll (vd_linux_irq d1, p) (vb_irqs u)\<rparr>))"
    by (rule vb_goes_trans [OF u(2) vb_goes_plain]) (simp_all add: set_dev_def)
  then show "vb_does False s (obind (eventfd_puts (vd_irq_ctx d # map io_ctx (vd_ioctx d)) s) (\<lambda>_ s.
         let d = (if vd_irq_ctx d = None then d else d\<lparr>vd_irq_wait := False, vd_irq_file := None, vd_irq_ctx := None\<rparr>) in
         Done () (set_dev p (clear_ioctx (d\<lparr>vd_config_data := None, vd_ack_driver_ok := False, vd_config_shared_buf := None\<rparr>))
                   (s\<lparr>vb_irqs := removeAll (vd_linux_irq d, p) (vb_irqs s)\<rparr>))))"
    unfolding u(1) obind.simps Let_def d1_def [symmetric] d2_def [symmetric] by simp
qed

lemma vb_devs_exit_does: "set ps \<subseteq> dom (vb_devs s) \<Longrightarrow> vb_does False s (vb_devs_exit ps s)"
proof (induction ps arbitrary: s)
  case (Cons p ps)
  have "p \<in> dom (vb_devs s)" "set ps \<subseteq> dom (vb_devs s)" using Cons(2) by auto
  then show ?case unfolding vb_devs_exit.simps
    using vb_goes_dev by (intro vb_does_wf [OF vb_does_obind] vb_dev_exit_does Cons(1)) blast+
qed simp

lemma gh_virtio_mmio_exit_does: "vb_does False s (gh_virtio_mmio_exit env vmid nm s)"
proof (rule vb_does_wf)
  assume wf: "vb_wf s"
  show ?thesis
  proof (cases "vb_find_vm_by_name nm s")
    case (Some v)
    then obtain vm where vm: "vb_vms s v = Some vm" using vb_find_vm_in by blast
    have "vb_does False s (obind (vb_devs_exit (vt_vb_dev_list vm) s) (\<lambda>_. unshare_on env vmid v))"
      using vm wf vb_goes_vm [OF _ wf, of _ v] by (intro vb_does_obind vb_devs_exit_does unshare_on_does) (auto simp: vb_wf_def)
    then show ?thesis using Some vm by (simp add: gh_virtio_mmio_exit_def)
  qed (simp add: gh_virtio_mmio_exit_def)
qed

lemma vb_bring_up_does:
  assumes "v \<in> dom (vb_vms s)" "p \<in> dom (vb_devs s)"
  shows "vb_does False s (vb_bring_up env vmid v p cap irq base sz s)"
proof -
  have "vb_does False t (if ret \<noteq> 0 then Done ret t
       else if be_rq env irq \<noteq> 0 then obind (unshare_on env vmid v t) (\<lambda>_. Done (be_rq env irq))
       else case be_ioremap env base sz of
         None \<Rightarrow> obind (unshare_on env vmid v t) (\<lambda>_. Done (- ENOMEM))
       | Some b \<Rightarrow> with_dev p t (\<lambda>d. Done 0 (set_dev p (init_vb_dev_open (d\<lparr>vd_linux_irq := irq, vd_cap_id := cap, vd_config_shared_buf := Some b,
                                                   vd_config_shared_size := sz\<rparr>)) (t\<lparr>vb_irqs := (irq, p) # vb_irqs t\<rparr>))))"
    if t: "v \<in> dom (vb_vms t)" "p \<in> dom (vb_devs t)" for ret t
  proof -
    have "vb_goes t (set_dev p (init_vb_dev_open (d\<lparr>vd_linux_irq := irq, vd_cap_id := cap, vd_config_shared_buf := Some b,
                                                   vd_config_shared_size := sz\<rparr>)) (t\<lparr>vb_irqs := (irq, p) # vb_irqs t\<rparr>))"
      if "vb_devs t p = Some d" for b d
      by (intro vb_goes_set_dev [OF that]) (auto simp: init_vb_dev_open_def dev_ctxs_def dev_ok_def)
    moreover have "vb_does False t (obind (unshare_on env vmid v t) (\<lambda>_. Done r))" for r
      by (intro vb_does_obind unshare_on_does t) simp
    ultimately show ?thesis using t(2) by (auto split: option.splits intro!: vb_does_with_dev)
  qed
  then show ?thesis unfolding vb_bring_up_def
    using assms vb_goes_vm vb_goes_dev by (intro vb_does_wf [OF vb_does_obind] share_on_does) blast+
qed

lemma gh_virtio_mmio_init_does: "vb_does False s (gh_virtio_mmio_init env vmid nm label cap irq base sz s)"
proof (rule vb_does_wf)
  assume wf: "vb_wf s"
  show ?thesis
  proof (cases "vb_find_vm_by_name nm s")
    case (Some v)
    then obtain vm where vm: "vb_vms s v = Some vm" using vb_find_vm_in by blast
    obtain r t where g: "vb_dev_get vm label s = (r, t)" by fastforce
    note gg = vb_dev_get_goes [OF g]
    have v: "v \<in> dom (vb_vms t)" using vb_goes_vm [OF gg(1) wf] vm by blast
    have "vb_does False t (obind (vb_bring_up env vmid v p cap irq base sz t) (\<lambda>r s. obind (vb_dev_put p s) (\<lambda>_. Done r)))" if "r = Some p" for p
      using gg(2) [OF that] v by (intro vb_does_then_put vb_bring_up_does)
    then have "vb_does False s (case r of None \<Rightarrow> Done (- ENODEV) t
        | Some p \<Rightarrow> obind (vb_bring_up env vmid v p cap irq base sz t) (\<lambda>r s. obind (vb_dev_put p s) (\<lambda>_. Done r)))"
      using gg(1) by (cases r) (auto intro: vb_does_trans)
    then show ?thesis using Some vm g by (simp add: gh_virtio_mmio_init_def split: option.splits)
  qed (simp add: gh_virtio_mmio_init_def)
qed

lemma wait_event_does:
  assumes "\<And>f s. f \<in> set fs \<Longrightarrow> vb_goes s (f s)"
  shows "vb_does b s (wait_event cond fs s)"
  using assms
proof (induction fs arbitrary: s)
  case (Cons f fs)
  have "vb_does b s (wait_event cond fs (f s))"
    using Cons by (intro vb_does_trans [of s "f s"]) simp_all
  then show ?case by simp
qed simp

lemma app_exit_devs_does:
  assumes "vb_env_ok env"
  shows "set ps \<subseteq> dom (vb_devs s) \<Longrightarrow> vb_does False s (app_exit_devs env ps s)"
proof (induction ps arbitrary: s)
  case (Cons p ps)
  let ?c = "\<lambda>s. case vb_devs s p of None \<Rightarrow> True | Some d \<Rightarrow> vd_refcount d = 0"
  show ?case unfolding app_exit_devs.simps
  proof (rule vb_does_wf, rule vb_does_with_dev)
    fix d assume wf: "vb_wf s" and d: "vb_devs s p = Some d"
    let ?s = "set_dev p (d\<lparr>vd_vdev_event := EVENT_VM_EXIT, vd_vdev_event_data := 0, vd_evt_avail := True, vd_notify := True\<rparr>) s"
    have g: "vb_goes s ?s" by (rule vb_goes_update [OF d]) (simp_all add: dev_ctxs_def dev_ok_def)
    then have "set ps \<subseteq> dom (vb_devs ?s)" using vb_goes_dev [OF g wf] Cons(2) by (meson list.set_intros(2) subset_eq)
    then have "vb_does False ?s (obind (wait_event ?c (be_steps env p) ?s) (\<lambda>_. app_exit_devs env ps))"
      using assms vb_goes_dev
      by (intro vb_does_wf [OF vb_does_obind] wait_event_does Cons(1)) (blast | simp add: vb_env_ok_def)+
    then show "vb_does False s (obind (wait_event ?c (be_steps env p) ?s) (\<lambda>_. app_exit_devs env ps))"
      by (rule vb_does_trans [OF g])
  qed (use Cons in auto)
qed simp

lemma gh_virtio_mmio_app_exit_does:
  assumes "vb_env_ok env"
  shows "vb_does (vb_find_vm_by_name nm s = None) s (gh_virtio_mmio_app_exit env nm s)"
proof (rule vb_does_wf)
  assume wf: "vb_wf s"
  show ?thesis
  proof (cases "vb_find_vm_by_name nm s")
    case (Some v)
    then obtain vm where vm: "vb_vms s v = Some vm" using vb_find_vm_in by blast
    then have "set (vt_vb_dev_list vm) \<subseteq> dom (vb_devs s)" using wf by (auto simp: vb_wf_def)
    then show ?thesis using Some vm app_exit_devs_does [OF assms] by (simp add: gh_virtio_mmio_app_exit_def)
  qed (simp add: gh_virtio_mmio_app_exit_def)
qed

lemma held_new:
  assumes "vb_wf s" "vb_next t = vb_next s + 1"
    and "\<And>p. p < vb_next s \<Longrightarrow> vb_devs t p = vb_devs s p"
    and "\<And>d. vb_devs t (vb_next s) = Some d \<Longrightarrow> set (dev_ctxs d) = {None}"
  shows "held t = held s"
proof
  fix c
  have "(\<Sum>p<vb_next s. case vb_devs t p of None \<Rightarrow> 0 | Some d \<Rightarrow> count_list (dev_ctxs d) (Some c)) =
      (\<Sum>p<vb_next s. case vb_devs s p of None \<Rightarrow> 0 | Some d \<Rightarrow> count_list (dev_ctxs d) (Some c))"
    using assms(3) by (intro sum.cong) auto
  then show "held t c = held s c" using assms(2,4)
    by (auto simp: held_def count_list_0_iff split: option.split)
qed

lemma vb_new_vm_goes:
  assumes "vb_new_vm kz nm np s = (r, t)"
  shows "vb_goes s t \<and> (vb_wf s \<longrightarrow> r = Some v \<longrightarrow> v \<in> dom (vb_vms t))"
proof (cases r)
  case None
  then have "t = s" using assms by (auto simp: vb_new_vm_def Let_def split: option.splits if_splits sum.splits prod.splits)
  then show ?thesis using None by simp
next
  case (Some v')
  then obtain vm where t: "v' = vb_next s" "t = s\<lparr>vb_vms := (vb_vms s)(vb_next s \<mapsto> vm), vb_next := vb_next s + 1, vb_vm_list := vb_next s # vb_vm_list s\<rparr>"
    "vt_vb_dev_list vm = []"
    using assms by (auto simp: vb_new_vm_def Let_def split: option.splits if_splits sum.splits prod.splits)
  have "vb_wf t \<and> dom (vb_vms s) \<subseteq> dom (vb_vms t)" if wf: "vb_wf s"
  proof -
    have "vb_devs s (vb_next s) = None" using wf by (auto simp: vb_wf_def) (metis less_irrefl not_None_eq)
    then have "held t = held s" using wf t(2) by (intro held_new) auto
    then show ?thesis using wf t(2,3) by (auto simp: vb_wf_def less_Suc_eq)
  qed
  then show ?thesis using Some t(1,2) by (auto simp: vb_goes_def)
qed

lemma gh_virtio_backend_probe_does: "vb_does False s (gh_virtio_backend_probe kz np nm s)"
proof (rule vb_does_wf)
  assume wf: "vb_wf s"
  define fv where "fv = (\<lambda>vm_np. case vb_find_vm_by_name nm s of Some v \<Rightarrow> (Some v, s) | None \<Rightarrow> vb_new_vm kz nm vm_np s)"
  have fv: "vb_goes s t \<and> (r = Some v \<longrightarrow> v \<in> dom (vb_vms t))" if "fv np = (r, t)" for np r t v
    using that vb_new_vm_goes [of kz nm np s] wf vb_find_vm_in [of nm s]
    by (auto simp: fv_def split: option.splits)
  have dev: "vb_does False t (case vb_vms t v of None \<Rightarrow> Fault
     | Some vm \<Rightarrow> (case vb_dev_find (vt_vb_dev_list vm) label t of
          Some p \<Rightarrow> obind (vb_dev_put p t) (\<lambda>_. Done (- EINVAL))
        | None \<Rightarrow> if \<not> kz then Done (- ENOMEM) t
            else let p = vb_next t in
              Done 0 (t\<lparr>vb_devs := (vb_devs t)(p \<mapsto> new_vb_dev label v (vn_batch np)), vb_next := p + 1,
                        vb_vms := (vb_vms t)(v \<mapsto> vm\<lparr>vt_vb_dev_list := p # vt_vb_dev_list vm\<rparr>)\<rparr>)))" if v: "v \<in> dom (vb_vms t)" for t v label
  proof (rule vb_does_wf)
    assume wf: "vb_wf t"
    obtain vm where vm: "vb_vms t v = Some vm" using v by blast
    let ?u = "t\<lparr>vb_devs := (vb_devs t)(vb_next t \<mapsto> new_vb_dev label v (vn_batch np)), vb_next := vb_next t + 1,
                        vb_vms := (vb_vms t)(v \<mapsto> vm\<lparr>vt_vb_dev_list := vb_next t # vt_vb_dev_list vm\<rparr>)\<rparr>"
    have "held ?u = held t" using wf by (intro held_new) (auto simp: new_vb_dev_def dev_ctxs_def)
    then have "vb_wf ?u" using wf vm unfolding vb_wf_def by (auto simp: new_vb_dev_def dev_ok_def less_Suc_eq)
    then have u: "vb_goes t ?u" by (auto simp: vb_goes_def)
    have "vb_does False t (obind (vb_dev_put p t) (\<lambda>_. Done (- EINVAL)))" if "vb_dev_find (vt_vb_dev_list vm) label t = Some p" for p
      using that by (intro vb_does_obind vb_dev_put_does) (auto simp: vb_dev_find_def find_Some_iff split: option.splits)
    then show ?thesis using vm u by (auto simp: Let_def split: option.splits)
  qed
  have vm: "vb_does False s (case fv np of (None, t) \<Rightarrow> Done e t | (Some v, t) \<Rightarrow> K v t)"
    if K: "\<And>v t. v \<in> dom (vb_vms t) \<Longrightarrow> vb_does False t (K v t)" for K e np
  proof -
    obtain r t where f: "fv np = (r, t)" by fastforce
    show ?thesis
    proof (cases r)
      case (Some v)
      then show ?thesis using vb_does_trans [OF _ K, of s t v] fv [OF f, of v] by (simp add: f)
    qed (use fv [OF f] f in simp)
  qed
  show ?thesis
  proof (cases "vn_vm np")
    case (Some vm_np)
    show ?thesis
    proof (cases "vn_label np")
      case (Some label)
      show ?thesis
      proof (cases "GH_VM_FW_NAME_MAX \<le> length nm \<or> label = 0")
        case True
        then show ?thesis using Some \<open>vn_vm np = Some vm_np\<close> by (auto simp: gh_virtio_backend_probe_def)
      next
        case False
        then have "\<not> GH_VM_FW_NAME_MAX \<le> length nm" "label \<noteq> 0" by simp_all
        then show ?thesis unfolding gh_virtio_backend_probe_def \<open>vn_vm np = Some vm_np\<close> Some option.case
          by (simp only: if_False) (intro vm [unfolded fv_def] dev)
      qed
    qed (simp add: gh_virtio_backend_probe_def \<open>vn_vm np = Some vm_np\<close>)
  qed (simp add: gh_virtio_backend_probe_def)
qed

lemma vb_unlist_goes [simp]: "vb_goes s (s\<lparr>vb_vm_list := remove1 v (vb_vm_list s)\<rparr>)"
  using held_cong [of "s\<lparr>vb_vm_list := remove1 v (vb_vm_list s)\<rparr>" s] by (auto simp: vb_goes_def vb_wf_def dest: notin_set_remove1)

lemma gh_parse_virtio_properties_does: "vb_does False s (gh_parse_virtio_properties kz ns nm s)"
proof (induction ns arbitrary: s)
  case (Cons n ns)
  show ?case
  proof (cases n)
    case (Some np)
    have "vb_does False s (obind (gh_virtio_backend_probe kz np nm s) (\<lambda>ret s.
        if ret \<noteq> 0 then Done ret (handle_probe_failure nm s) else gh_parse_virtio_properties kz ns nm s))"
      using Cons by (intro vb_does_obind gh_virtio_backend_probe_does) (auto simp: handle_probe_failure_def split: option.splits)
    then show ?thesis using Some by simp
  qed simp
qed simp

definition vb_empty :: "'x \<Rightarrow> 'x vb_state" where
  "vb_empty x = \<lparr>vb_vms = Map.empty, vb_vm_list = [], vb_devs = Map.empty, vb_next = 0, vb_eventfds = (\<lambda>_. 0), vb_signals = [], vb_irqs = [], vb_ext = x\<rparr>"

text \<open>The states the driver reaches: any order of complete operations and interrupts.\<close>

inductive vb_reachable :: "'x vb_state \<Rightarrow> bool" where
  start: "vb_reachable (vb_empty x)"
| parse: "vb_reachable s \<Longrightarrow> gh_parse_virtio_properties kz ns nm s = Done r t \<Longrightarrow> vb_reachable t"
| remove: "vb_reachable s \<Longrightarrow> vb_reachable (snd (gh_virtio_backend_remove nm s))"
| ioctl: "vb_reachable s \<Longrightarrow> vb_env_ok env \<Longrightarrow> gh_virtio_backend_ioctl env nm cmd s = Done r t \<Longrightarrow> vb_reachable t"
| irq: "vb_reachable s \<Longrightarrow> p \<in> dom (vb_devs s) \<Longrightarrow> vdev_interrupt fuel env p s = Done r t \<Longrightarrow> vb_reachable t"
| shutdown: "vb_reachable s \<Longrightarrow> p \<in> dom (vb_devs s) \<Longrightarrow> irqfd_shutdown p s = Done r t \<Longrightarrow> vb_reachable t"
| mmio_init: "vb_reachable s \<Longrightarrow> gh_virtio_mmio_init env vmid nm label cap lirq base sz s = Done r t \<Longrightarrow> vb_reachable t"
| mmio_exit: "vb_reachable s \<Longrightarrow> gh_virtio_mmio_exit env vmid nm s = Done r t \<Longrightarrow> vb_reachable t"
| app_exit: "vb_reachable s \<Longrightarrow> vb_env_ok env \<Longrightarrow> gh_virtio_mmio_app_exit env nm s = Done r t \<Longrightarrow> vb_reachable t"
| ext: "vb_reachable s \<Longrightarrow> vb_reachable (s\<lparr>vb_ext := x\<rparr>)"

lemma vb_does_Done: "vb_does b s m \<Longrightarrow> m = Done r t \<Longrightarrow> vb_wf s \<Longrightarrow> vb_wf t"
  by (auto simp: vb_goes_def)

lemma vb_does_no_fault: "vb_does b s m \<Longrightarrow> vb_wf s \<Longrightarrow> \<not> b \<Longrightarrow> m \<noteq> Fault"
  by (auto simp: vb_does_def)

lemma vb_reachable_wf: "vb_reachable s \<Longrightarrow> vb_wf s"
proof (induction rule: vb_reachable.induct)
  case (start x)
  show ?case by (simp add: vb_empty_def vb_wf_def held_def fun_eq_iff)
next
  case (remove s nm)
  then show ?case using vb_unlist_goes [of s] by (auto simp: gh_virtio_backend_remove_def vb_goes_def split: option.splits)
next
  case (ext s x)
  then show ?case using vb_goes_ext [of s x] by (simp add: vb_goes_def)
qed (erule vb_does_Done [rotated], assumption,
    rule gh_parse_virtio_properties_does gh_virtio_backend_ioctl_does vdev_interrupt_does irqfd_shutdown_does
      gh_virtio_mmio_init_does gh_virtio_mmio_exit_does gh_virtio_mmio_app_exit_does, assumption?)+


definition vb_demo_vm_node :: vb_vm_node where
  "vb_demo_vm_node = \<lparr>vm_resource = Some (0x1000, 0x1000), vm_buffers = [Some (Some (0x8000, 0x1000), Some 3)]\<rparr>"

definition vb_demo_env :: "'x \<Rightarrow> (vb_hcall \<Rightarrow> 'x \<Rightarrow> (int \<times> u64 list) \<times> 'x) \<Rightarrow> 'x vb_env" where
  "vb_demo_env x hc = \<lparr>be_from = True, be_to = True, be_uncopied = 0, be_data = Some [1, 2, 3, 4], be_file = Some \<circ> nat, be_eventfd = Inr \<circ> nat, be_kz = True,
     be_rq = (\<lambda>_. 0), be_ioremap = (\<lambda>_ n. Some (replicate (unat n) 0)), be_hcall = hc, be_primary = (0, 3),
     be_call = (\<lambda>mid req x. ((Some 0, Inr (Some (le32 9), 4)), x)), be_scm = (\<lambda>_ _ _ _ x. (0, x)), be_junk = 0, be_gap = [], be_events = [], be_steps = (\<lambda>_. [])\<rparr>"

definition vb_demo_vm :: virt_machine where
  "vb_demo_vm = \<lparr>vt_vm_name = ''trustedvm'', vt_hyp_assign_done = False,
     vt_shmem = [\<lparr>sm_start = 0x8000, sm_size = 0x1000, sm_gunyah_label = 3, sm_shm_memparcel = 0\<rparr>], vt_vb_dev_list = [1], vt_shmem_addr = 0x1000, vt_shmem_size = 0x1000\<rparr>"

text \<open>A VM with one device, and the same after user space has registered an eventfd for its queue 0.\<close>

definition vb_demo :: "'x \<Rightarrow> 'x vb_state" where
  "vb_demo x = \<lparr>vb_vms = [0 \<mapsto> vb_demo_vm], vb_vm_list = [0], vb_devs = [1 \<mapsto> new_vb_dev 7 0 True], vb_next = 2,
     vb_eventfds = (\<lambda>_. 0), vb_signals = [], vb_irqs = [], vb_ext = x\<rparr>"

lemma vb_demo_parse:
  "gh_parse_virtio_properties True [Some \<lparr>vn_vm = Some vb_demo_vm_node, vn_label = Some 7, vn_batch = True\<rparr>] ''trustedvm'' (vb_empty x) =
     Done 0 (vb_demo x)"
  by (simp add: gh_virtio_backend_probe_def vb_demo_vm_node_def vb_empty_def vb_find_vm_by_name_def vb_new_vm_def note_shared_buffers_def
      vb_dev_find_def Let_def vb_demo_def vb_demo_vm_def fun_eq_iff)

lemma vb_demo_reachable: "vb_reachable (vb_demo x)"
  by (rule vb_reachable.parse [OF vb_reachable.start vb_demo_parse])

lemma vb_demo_env_ok: "vb_env_ok (vb_demo_env x hc)"
  by (simp add: vb_env_ok_def vb_demo_env_def)


section \<open>No notification is lost\<close>

text \<open>A hypervisor that hands out its pending events one by one, then reports that there is none.\<close>

definition vb_pending :: "((u64 \<times> u64) list) vb_env \<Rightarrow> bool" where
  "vb_pending env \<longleftrightarrow> (\<forall>cap x. be_hcall env (Get_Event cap) x = (case x of [] \<Rightarrow> ((0, [0, 0]), []) | (data, ev) # l \<Rightarrow> ((0, [data, ev]), l)))"

lemma reg_simps [simp]: "reg (x # xs) 0 = x" "reg (x # xs) (Suc i) = reg xs i" "reg [] i = 0"
  by (auto simp: reg_def)

lemma kicked_or:
  assumes "\<And>i. bit pend i \<Longrightarrow> i < length cs \<Longrightarrow> io_ctx (cs ! i) = None"
  shows "kicked cs (pend OR data) = kicked cs data"
  unfolding kicked_def using assms by (intro map_filter_cong) (auto simp: bit_simps)

lemma signal_rest_quiet: "bit (fst (signal_from 0 cs data)) i \<Longrightarrow> i < length cs \<Longrightarrow> io_ctx (cs ! i) = None"
  by (simp add: signal_from_rest)

text \<open>One event of an acknowledged device.\<close>

lemma vdev_event_in_acked:
  assumes "vd_ack_driver_ok d" "ev AND EVENT_NEW_BUFFER = 0 \<Longrightarrow> data = 0"
    and "\<And>i. bit (vd_vdev_event_data d) i \<Longrightarrow> i < length (vd_ioctx d) \<Longrightarrow> io_ctx (vd_ioctx d ! i) = None"
  shows "\<exists>d'. vdev_event_in data ev d = (d', if ev AND EVENT_NEW_BUFFER \<noteq> 0 then kicked (vd_ioctx d) data else []) \<and>
     vd_ack_driver_ok d' \<and> vd_ioctx d' = vd_ioctx d \<and> vd_batch_events d' = vd_batch_events d \<and> vd_cap_id d' = vd_cap_id d \<and>
     vd_vdev_event d' = vd_vdev_event d OR (ev AND NOT EVENT_NEW_BUFFER) \<and>
     (vd_evt_avail d' \<longleftrightarrow> vd_evt_avail d \<or> ev AND NOT EVENT_NEW_BUFFER \<noteq> 0 \<or> ev = 0) \<and>
     (\<forall>i. bit (vd_vdev_event_data d') i \<longrightarrow> i < length (vd_ioctx d) \<longrightarrow> io_ctx (vd_ioctx d ! i) = None)"
proof (cases "ev AND EVENT_NEW_BUFFER = 0")
  case True
  have "\<not> bit ev 0" using True and_exp_eq_0_iff_not_bit [of ev 0] by simp
  then have "ev AND NOT EVENT_NEW_BUFFER = ev"
    by (intro bit_word_eqI) (auto simp del: bit_0 simp: bit_and_iff bit_not_iff bit_1_iff, metis gr0I)
  then show ?thesis using True assms by (auto simp: vdev_event_in_def Let_def)
next
  case False
  show ?thesis
    using False assms(1) kicked_or [of "vd_vdev_event_data d" "vd_ioctx d" data] assms(3)
    by (auto simp: vdev_event_in_def Let_def signal_vqs_spec dest: signal_rest_quiet)
qed



end
