(* ===== verification/Virtio_Exit.thy ===== *)
theory Virtio_Exit
  imports Virtio_Events
begin

text \<open>
  References on virtio devices and the end of a VM: requests give back the references they take, with
  one exception that keeps the VM from ending; a task that waits for events is told to exit.
  Configuration data and the buffers shared with the VM.
\<close>

section \<open>Counted references\<close>

definition refs :: "'x vb_state \<Rightarrow> ptr \<Rightarrow> u32 option" where
  "refs s p = map_option vd_refcount (vb_devs s p)"

definition vb_bal :: "'x vb_state \<Rightarrow> ('a, 'x vb_state) outcome \<Rightarrow> bool" where
  "vb_bal s m \<longleftrightarrow> (\<forall>a t. m = Done a t \<longrightarrow> refs t = refs s)"

lemma vb_bal_simps [simp]: "vb_bal s (Done a t) \<longleftrightarrow> refs t = refs s" "vb_bal s (Blocked t)" "vb_bal s Fault"
  by (auto simp: vb_bal_def)

lemma vb_bal_cong: "refs t = refs s \<Longrightarrow> vb_bal t m = vb_bal s m"
  by (simp add: vb_bal_def)

lemma vb_bal_obind:
  assumes "vb_bal s m" "\<And>a t. refs t = refs s \<Longrightarrow> vb_bal t (f a t)"
  shows "vb_bal s (obind m f)"
proof (cases m)
  case (Done a t)
  then show ?thesis using assms(1) assms(2) [of t a] vb_bal_cong [of t s "f a t"] by simp
qed simp_all

lemma vb_bal_with_dev: "(\<And>d. vb_devs s p = Some d \<Longrightarrow> vb_bal s (f d)) \<Longrightarrow> vb_bal s (with_dev p s f)"
  by (auto simp: with_dev_def split: option.split)

lemma refs_cong [simp]:
  "refs (s\<lparr>vb_eventfds := e\<rparr>) = refs s" "refs (s\<lparr>vb_signals := g\<rparr>) = refs s" "refs (s\<lparr>vb_ext := x\<rparr>) = refs s"
  "refs (eventfd_get c s) = refs s" "refs (vb_signal l s) = refs s" "refs (snd (vb_hypercall env h s)) = refs s"
  by (auto simp: refs_def fun_eq_iff eventfd_get_def vb_signal_def vb_hypercall_def split: prod.splits)

lemma refs_set_dev: "refs (set_dev p d s) = (refs s)(p \<mapsto> vd_refcount d)"
  by (auto simp: refs_def set_dev_def)

lemma refs_set_dev_same:
  "vb_devs s p = Some d \<Longrightarrow> refs t = refs s \<Longrightarrow> vd_refcount d' = vd_refcount d \<Longrightarrow> refs (set_dev p d' t) = refs s"
  by (auto simp: refs_set_dev) (simp add: refs_def fun_upd_idem)

lemma hypercall_refs: "vb_hypercall env h s = (r, t) \<Longrightarrow> refs t = refs s"
  using refs_cong(6) [of env h s] by simp

lemma vb_bal_hypercall:
  "(\<And>ret rs t. refs t = refs s \<Longrightarrow> vb_bal s (f ret rs t)) \<Longrightarrow> vb_bal s (case vb_hypercall env h s of ((ret, rs), t) \<Rightarrow> f ret rs t)"
  using hypercall_refs [of env h s] by (auto split: prod.split)

lemma vb_get_refs:
  "vb_dev_get vm label s = (r, t) \<Longrightarrow>
     (case r of None \<Rightarrow> refs t = refs s | Some p \<Rightarrow> \<exists>n. refs s p = Some n \<and> n < U32_MAX \<and> refs t = (refs s)(p \<mapsto> n + 1))"
  by (auto simp: vb_dev_get_def refs_set_dev split: option.splits if_splits) (simp add: refs_def)

lemma vb_put_refs: "refs s p = Some n \<Longrightarrow> vb_dev_put p s = Done () (set_dev p ((the (vb_devs s p))\<lparr>vd_refcount := n - 1\<rparr>) s)"
  by (auto simp: vb_dev_put_def with_dev_def refs_def)

lemma with_ref_bal:
  assumes "\<And>p s. vb_bal s (f p s)"
  shows "vb_bal s (with_ref vm label s f)"
proof (cases "vb_dev_get vm label s")
  case (Pair r t)
  note g = vb_get_refs [OF Pair]
  show ?thesis
  proof (cases r)
    case (Some p)
    then obtain n where n: "refs s p = Some n" "refs t = (refs s)(p \<mapsto> n + 1)" using g by auto
    have "refs v = refs s" if o: "obind (f p t) (\<lambda>r s. obind (vb_dev_put p s) (\<lambda>_. Done r)) = Done a v" for a v
    proof -
      obtain b u where u: "f p t = Done b u" "obind (vb_dev_put p u) (\<lambda>_. Done b) = Done a v" using o unfolding obind_Done_iff [of "f p t"] by blast
      have "refs u = (refs s)(p \<mapsto> n + 1)" using assms [of t p] u(1) n(2) by simp
      moreover then have "refs u p = Some (n + 1)" by simp
      ultimately show ?thesis using u(2) vb_put_refs [of u p "n + 1"] n(1) by (auto simp: refs_set_dev fun_upd_idem)
    qed
    then show ?thesis using Pair Some by (simp add: with_ref_def vb_bal_def)
  qed (use Pair g in \<open>simp add: with_ref_def\<close>)
qed

lemma vb_take_bal: "vb_bal s (vb_take p s)"
proof -
  have puts: "refs t = refs s" if "eventfd_puts l s = Done () t" for l s and t :: "'a vb_state"
    using that by (induction l arbitrary: s) (auto simp: obind_Done_iff eventfd_put_def split: option.splits if_splits)
  show ?thesis unfolding vb_take_def
    by (intro vb_bal_with_dev) (auto split: option.splits simp: vb_bal_def obind_Done_iff vd_frame_def
        intro!: refs_set_dev_same dest!: puts vb_take_event_frame)
qed

lemma vb_wait_loop_bal:
  assumes "\<And>f s. Env f \<in> set es \<Longrightarrow> refs (f s) = refs s"
  shows "vb_bal s (vb_wait_loop p es s)"
  using assms
proof (induction p es s rule: vb_wait_loop.induct)
  case (1 p es s)
  have k: "case wait_event_interruptible (\<lambda>f. f) (evt_ready p) s es of
      Woken t es' \<Rightarrow> refs t = refs s \<and> set es' \<subseteq> set es | Interrupted t es' \<Rightarrow> refs t = refs s \<and> set es' \<subseteq> set es | Asleep t \<Rightarrow> refs t = refs s"
    using 1(2) by (intro wait_keeps [where P = "\<lambda>t. refs t = refs s"]) simp_all
  show ?case
  proof (cases "wait_event_interruptible (\<lambda>f. f) (evt_ready p) s es")
    case (Woken t es')
    then have t: "refs t = refs s" "set es' \<subseteq> set es" using k by auto
    have IH: "vb_bal u (vb_wait_loop p es' u)" if "vb_take p t = Done (0, x) u" for u x
      using 1(1) [OF Woken that] 1(2) t(2) by blast
    show ?thesis
    proof (cases "vb_take p t")
      case (Done r u)
      then have "refs u = refs s" using vb_take_bal [of t p] t(1) by simp
      then show ?thesis using Done Woken IH [of "snd r" u] vb_bal_cong [of u s] by (subst vb_wait_loop.simps) (cases r, auto)
    qed (use Woken in \<open>(subst vb_wait_loop.simps, simp)+\<close>)
  qed (use k in \<open>(subst vb_wait_loop.simps, simp)+\<close>)
qed

lemma vb_dispatch_bal:
  assumes "\<And>f s. Env f \<in> set (be_events env) \<Longrightarrow> refs (f s) = refs s" "\<And>label. cmd \<noteq> GH_ACK_RESET label"
  shows "vb_bal s (vb_dispatch env vm cmd s)"
proof -
  note bal = with_ref_bal vb_bal_with_dev vb_bal_hypercall vb_bal_obind
  have io: "vb_bal s (vb_dev_ioeventfd env p i fd s)" "vb_bal s (vb_dev_irqfd env p fd s)" for p i fd and s :: "'a vb_state"
    unfolding vb_dev_ioeventfd_def vb_dev_irqfd_def
    by (auto intro!: vb_bal_with_dev refs_set_dev_same simp: vb_dev_irqfd_ptable_queue_proc_def split: option.splits sum.splits)
  have wait: "vb_bal s (vb_ioc_wait_for_event env p s)" for p and s :: "'a vb_state"
    unfolding vb_ioc_wait_for_event_def by (intro vb_bal_obind vb_wait_loop_bal assms(1)) (auto split: sum.splits)
  have get: "vb_bal s (vb_ioc_get_driver_features env sel p s)" "vb_bal s (vb_ioc_get_queue_info env sel p s)" for sel p and s :: "'a vb_state"
    unfolding vb_ioc_get_driver_features_def vb_ioc_get_queue_info_def by (auto intro!: vb_bal_with_dev vb_bal_hypercall)
  have set: "vb_bal s (vb_ioc_set_device_features env sel f p s)" "vb_bal s (vb_ioc_set_queue_num_max env sel n p s)" for sel f n p and s :: "'a vb_state"
    unfolding vb_ioc_set_device_features_def vb_ioc_set_queue_num_max_def
    by (auto intro!: vb_bal_with_dev split: prod.splits dest!: hypercall_refs simp: refs_set_dev refs_def fun_eq_iff)
  have cfg: "vb_bal s (vb_ioc_get_config env label sz ok p s)" "vb_bal s (vb_ioc_set_config env label sz ok p s)" for label sz ok p and s :: "'a vb_state"
    unfolding vb_ioc_get_config_def vb_ioc_set_config_def by (auto intro!: vb_bal_with_dev refs_set_dev_same split: option.splits)
  have ack: "vb_bal s (with_dev p s (\<lambda>d. Done (0, No_Out) (set_dev p (d\<lparr>vd_ack_driver_ok := True\<rparr>) s)))" for p and s :: "'a vb_state"
    by (auto intro!: vb_bal_with_dev refs_set_dev_same)
  show ?thesis
    using assms(2) by (cases cmd) (auto simp: vb_dispatch_def Let_def intro!: with_ref_bal io wait get set cfg ack vb_bal_obind [OF io(1)] vb_bal_obind [OF io(2)] vb_bal_with_dev vb_bal_hypercall)
qed



section \<open>The end of a VM\<close>

lemma wait_event_refs:
  assumes "\<And>f s. f \<in> set fs \<Longrightarrow> refs (f s) = refs s" "refs s p = Some n" "n \<noteq> 0"
  shows "\<exists>u. wait_event (\<lambda>s. case vb_devs s p of None \<Rightarrow> True | Some d \<Rightarrow> vd_refcount d = 0) fs s = Blocked u"
  using assms
proof (induction fs arbitrary: s)
  case Nil
  then show ?case by (auto simp: refs_def)
next
  case (Cons f fs)
  have "refs (f s) p = Some n" using Cons(2) [of f s] Cons(3) by simp
  moreover obtain d where "vb_devs s p = Some d" "vd_refcount d = n" using Cons(3) by (auto simp: refs_def)
  ultimately show ?case using Cons(1) [of "f s"] Cons(2,4) by simp
qed

text \<open>A device with a count that nobody lowers blocks the end of its VM, whatever comes before it in the list.\<close>

lemma app_exit_devs_blocks:
  assumes "\<And>q f s. f \<in> set (be_steps env q) \<Longrightarrow> refs (f s) = refs s"
    and "p \<in> set ps" "refs s p = Some n" "n \<noteq> 0" "\<forall>q\<in>set ps. refs s q \<noteq> None"
  shows "\<exists>u. app_exit_devs env ps s = Blocked u"
  using assms(2-)
proof (induction ps arbitrary: s)
  case (Cons q qs)
  obtain d where d: "vb_devs s q = Some d" using Cons(5) by (auto simp: refs_def)
  let ?c = "\<lambda>s. case vb_devs s q of None \<Rightarrow> True | Some d \<Rightarrow> vd_refcount d = 0"
  let ?s = "set_dev q (d\<lparr>vd_vdev_event := EVENT_VM_EXIT, vd_vdev_event_data := 0, vd_evt_avail := True, vd_notify := True\<rparr>) s"
  have r: "refs ?s = refs s" using d by (intro refs_set_dev_same) auto
  show ?case
  proof (cases "wait_event ?c (be_steps env q) ?s")
    case (Done x t)
    have keep: "refs t = refs s'" if "wait_event c fs s' = Done x t" "\<And>f s. f \<in> set fs \<Longrightarrow> refs (f s) = refs s" for c fs and s' :: "'a vb_state"
      using that by (induction fs arbitrary: s') (auto split: if_splits)
    have rt: "refs t = refs s" using keep [OF Done] assms(1) r by simp
    have "p \<noteq> q"
    proof
      assume "p = q"
      then show False using wait_event_refs [of "be_steps env q" ?s q n] assms(1) Cons(3,4) r Done by auto
    qed
    then show ?thesis using Cons(1) [of t] Cons(2-5) d Done rt by (simp add: with_dev_def)
  next
    case (Blocked t)
    then show ?thesis using d by (simp add: with_dev_def)
  next
    case Fault
    have "wait_event c fs s' \<noteq> Fault" for c fs and s' :: "'a vb_state" by (induction fs arbitrary: s') auto
    then show ?thesis using Fault by blast
  qed
qed simp

text \<open>Acknowledging the reset of a device that has no capability yet keeps the reference taken for
  the request for ever. From then on the end of the VM never completes: it waits for the count to
  drop, however many requests other tasks complete in the meantime.\<close>

theorem gh_virtio_ack_reset_hangs:
  assumes "vb_wf s" "vb_find_vm_by_name nm s = Some v" "vb_vms s v = Some vm" "vb_dev_find (vt_vb_dev_list vm) label s = Some p"
    and "vb_devs s p = Some d" "vd_cap_id d = 0" "vd_refcount d < U32_MAX" "label \<noteq> 0" "be_from env"
    and "\<forall>q f s. f \<in> set (be_steps env q) \<longrightarrow> refs (f s) = refs s"
  shows "\<exists>t u. gh_virtio_backend_ioctl env nm (GH_ACK_RESET label) s = Done (- EINVAL, No_Out) t \<and>
    refs t = (refs s)(p \<mapsto> vd_refcount d + 1) \<and> gh_virtio_mmio_app_exit env nm t = Blocked u"
proof -
  define t where "t = set_dev p (d\<lparr>vd_refcount := vd_refcount d + 1\<rparr>) s"
  have g: "vb_dev_get vm label s = (Some p, t)" using assms(4,5,7) by (simp add: vb_dev_get_def t_def)
  have "gh_virtio_backend_ioctl env nm (GH_ACK_RESET label) s = Done (- EINVAL, No_Out) t"
    using assms(2,3,6,8,9) g
    by (simp add: gh_virtio_backend_ioctl_def vb_dispatch_def Let_def vb_ioc_ack_reset_def with_dev_def) (simp add: t_def set_dev_def)
  moreover have r: "refs t = (refs s)(p \<mapsto> vd_refcount d + 1)" by (simp add: t_def refs_set_dev)
  moreover have "\<exists>u. gh_virtio_mmio_app_exit env nm t = Blocked u"
  proof -
    have "vb_find_vm_by_name nm t = Some v" "vb_vms t v = Some vm" using assms(2,3) by (simp_all add: t_def set_dev_def vb_find_vm_by_name_def)
    moreover have "\<exists>u. app_exit_devs env (vt_vb_dev_list vm) t = Blocked u"
    proof (rule app_exit_devs_blocks)
      show "p \<in> set (vt_vb_dev_list vm)" using assms(4) by (auto simp: vb_dev_find_def find_Some_iff)
      show "refs t p = Some (vd_refcount d + 1)" using r by simp
      show "vd_refcount d + 1 \<noteq> 0" using assms(7) by (auto simp flip: eq_neg_iff_add_eq_0)
      show "\<forall>q\<in>set (vt_vb_dev_list vm). refs t q \<noteq> None" using assms(1,3) r by (auto simp: vb_wf_def refs_def)
    qed (use assms(10) in blast)
    ultimately show ?thesis by (simp add: gh_virtio_mmio_app_exit_def)
  qed
  ultimately show ?thesis by blast
qed

theorem gh_virtio_ack_reset_hangs_witness:
  "\<exists>t u. gh_virtio_backend_ioctl (vb_demo_env () (\<lambda>_ x. ((0, []), x))) ''trustedvm'' (GH_ACK_RESET 7) (vb_demo ()) = Done (- EINVAL, No_Out) t \<and>
     gh_virtio_mmio_app_exit (vb_demo_env () (\<lambda>_ x. ((0, []), x))) ''trustedvm'' t = Blocked u"
proof -
  let ?e = "vb_demo_env () (\<lambda>_ x. ((0, []), x))"
  have "vb_find_vm_by_name ''trustedvm'' (vb_demo ()) = Some 0" "vb_vms (vb_demo ()) 0 = Some vb_demo_vm"
    "vb_dev_find (vt_vb_dev_list vb_demo_vm) 7 (vb_demo ()) = Some 1" "vb_devs (vb_demo ()) 1 = Some (new_vb_dev 7 0 True)"
    "vd_cap_id (new_vb_dev 7 0 True) = 0" "vd_refcount (new_vb_dev 7 0 True) < U32_MAX" "be_from ?e" "be_steps ?e = (\<lambda>_. [])"
    by (simp_all add: vb_demo_def vb_demo_vm_def vb_find_vm_by_name_def vb_dev_find_def new_vb_dev_def vb_demo_env_def)
  then show ?thesis
    using gh_virtio_ack_reset_hangs [OF vb_reachable_wf [OF vb_demo_reachable], of "''trustedvm''" "()" 0 vb_demo_vm 7 1 "new_vb_dev 7 0 True" ?e] by auto
qed

text \<open>A task that sleeps in \<^verbatim>\<open>GH_WAIT_FOR_EVENT\<close> runs: it takes its event and gives its reference back.\<close>

definition waiter :: "ptr \<Rightarrow> 'x vb_state \<Rightarrow> 'x vb_state" where
  "waiter p s = outcome_state s (obind (vb_wait_loop p [] s) (\<lambda>r s. obind (vb_dev_put p s) (\<lambda>_. Done r)))"

lemma vb_take_exit:
  assumes "vb_devs s p = Some d" "vd_vdev_event d = EVENT_VM_EXIT" "vd_evt_avail d"
  shows "vb_wait_loop p [] s = Done (Inr (EVENT_APP_EXIT, 0))
     (set_dev p (d\<lparr>vd_cur_event := EVENT_APP_EXIT, vd_cur_event_data := 0, vd_evt_avail := False\<rparr>) s)"
proof -
  have "vb_take_event d = Some (d\<lparr>vd_cur_event := EVENT_APP_EXIT, vd_cur_event_data := 0, vd_evt_avail := False\<rparr>, [], [])"
    using assms(2) by (simp add: vb_take_event_def Let_def)
  then show ?thesis using assms
    by (subst vb_wait_loop.simps) (simp add: evt_ready_def vb_take_def with_dev_def vb_signal_def)
qed

text \<open>Every device of the VM is idle, or one task sleeps waiting for its events and runs when it is woken.\<close>

definition exit_ready :: "'x vb_env \<Rightarrow> 'x vb_state \<Rightarrow> ptr \<Rightarrow> bool" where
  "exit_ready env s p \<longleftrightarrow> refs s p = Some 0 \<or> refs s p = Some 1 \<and> be_steps env p = [waiter p]"

lemma app_exit_dev:
  assumes "vb_devs s p = Some d" "exit_ready env s p"
  shows "\<exists>t d'. wait_event (\<lambda>s. case vb_devs s p of None \<Rightarrow> True | Some d \<Rightarrow> vd_refcount d = 0) (be_steps env p)
      (set_dev p (d\<lparr>vd_vdev_event := EVENT_VM_EXIT, vd_vdev_event_data := 0, vd_evt_avail := True, vd_notify := True\<rparr>) s) = Done () t \<and>
    t = set_dev p d' s \<and> vd_refcount d' = 0 \<and> vd_vdev_event d' = EVENT_VM_EXIT \<and> (refs s p = Some 1 \<longrightarrow> vd_cur_event d' = EVENT_APP_EXIT)"
proof -
  let ?d = "d\<lparr>vd_vdev_event := EVENT_VM_EXIT, vd_vdev_event_data := 0, vd_evt_avail := True, vd_notify := True\<rparr>"
  let ?c = "\<lambda>s. case vb_devs s p of None \<Rightarrow> True | Some d \<Rightarrow> vd_refcount d = 0"
  have set2: "set_dev p x (set_dev p y s) = set_dev p x s" for x y by (simp add: set_dev_def)
  have dev: "vb_devs (set_dev p x s) p = Some x" for x by (simp add: set_dev_def)
  show ?thesis
  proof (cases "vd_refcount d = 0")
    case True
    have "wait_event ?c fs (set_dev p ?d s) = Done () (set_dev p ?d s)" for fs using True by (cases fs) (simp_all add: dev)
    then show ?thesis using True assms(1) by (auto simp: refs_def intro!: exI [of _ ?d])
  next
    case False
    then have one: "vd_refcount d = 1" "be_steps env p = [waiter p]" using assms by (auto simp: exit_ready_def refs_def)
    let ?d' = "?d\<lparr>vd_cur_event := EVENT_APP_EXIT, vd_cur_event_data := 0, vd_evt_avail := False, vd_refcount := 0\<rparr>"
    have "waiter p (set_dev p ?d s) = set_dev p ?d' s"
      using one(1) vb_take_exit [of "set_dev p ?d s" p ?d] by (simp add: waiter_def dev set2 vb_dev_put_def with_dev_def outcome_state_def)
    then have "wait_event ?c (be_steps env p) (set_dev p ?d s) = Done () (set_dev p ?d' s)" using one by (simp add: dev)
    then show ?thesis by (intro exI [of _ "set_dev p ?d' s"] exI [of _ ?d']) simp
  qed
qed

lemma app_exit_devs_returns:
  assumes "distinct ps" "\<forall>p\<in>set ps. exit_ready env s p"
  shows "\<exists>t. app_exit_devs env ps s = Done () t \<and> (\<forall>p. p \<notin> set ps \<longrightarrow> vb_devs t p = vb_devs s p) \<and>
    (\<forall>p\<in>set ps. \<exists>d. vb_devs t p = Some d \<and> vd_refcount d = 0 \<and> vd_vdev_event d = EVENT_VM_EXIT \<and> (refs s p = Some 1 \<longrightarrow> vd_cur_event d = EVENT_APP_EXIT))"
  using assms
proof (induction ps arbitrary: s)
  case (Cons p ps)
  obtain d where d: "vb_devs s p = Some d" using Cons(3) by (auto simp: exit_ready_def refs_def)
  obtain d' where w: "wait_event (\<lambda>s. case vb_devs s p of None \<Rightarrow> True | Some d \<Rightarrow> vd_refcount d = 0) (be_steps env p)
      (set_dev p (d\<lparr>vd_vdev_event := EVENT_VM_EXIT, vd_vdev_event_data := 0, vd_evt_avail := True, vd_notify := True\<rparr>) s) = Done () (set_dev p d' s)"
    "vd_refcount d' = 0" "vd_vdev_event d' = EVENT_VM_EXIT" "refs s p = Some 1 \<longrightarrow> vd_cur_event d' = EVENT_APP_EXIT"
    using app_exit_dev [OF d] Cons(3) by auto
  have same: "refs (set_dev p d' s) q = refs s q" "vb_devs (set_dev p d' s) q = vb_devs s q" if "q \<noteq> p" for q
    using that by (simp_all add: refs_def set_dev_def)
  have "exit_ready env (set_dev p d' s) q" if q: "q \<in> set ps" for q
  proof -
    have "q \<noteq> p" using Cons(2) q by auto
    then show ?thesis using Cons(3) q by (simp add: exit_ready_def same(1))
  qed
  then obtain t where t: "app_exit_devs env ps (set_dev p d' s) = Done () t"
    "\<forall>q. q \<notin> set ps \<longrightarrow> vb_devs t q = vb_devs (set_dev p d' s) q"
    "\<forall>q\<in>set ps. \<exists>d. vb_devs t q = Some d \<and> vd_refcount d = 0 \<and> vd_vdev_event d = EVENT_VM_EXIT \<and>
       (refs (set_dev p d' s) q = Some 1 \<longrightarrow> vd_cur_event d = EVENT_APP_EXIT)"
    using Cons(1) [of "set_dev p d' s"] Cons(2) by auto
  have others: "\<exists>d. vb_devs t q = Some d \<and> vd_refcount d = 0 \<and> vd_vdev_event d = EVENT_VM_EXIT \<and>
       (refs s q = Some 1 \<longrightarrow> vd_cur_event d = EVENT_APP_EXIT)" if q: "q \<in> set ps" for q
  proof -
    have "q \<noteq> p" using Cons(2) q by auto
    then show ?thesis using bspec [OF t(3) q] same(1) [of q] by simp
  qed
  have mine: "vb_devs t p = Some d'" using t(2) Cons(2) by (simp add: set_dev_def)
  have run: "app_exit_devs env (p # ps) s = Done () t" using t(1) w(1) d by (simp add: with_dev_def)
  have rest: "vb_devs t q = vb_devs s q" if "q \<notin> set (p # ps)" for q using that t(2) same(2) [of q] by simp
  have "\<exists>d. vb_devs t q = Some d \<and> vd_refcount d = 0 \<and> vd_vdev_event d = EVENT_VM_EXIT \<and>
       (refs s q = Some 1 \<longrightarrow> vd_cur_event d = EVENT_APP_EXIT)" if "q \<in> set (p # ps)" for q
    using that others [of q] mine w(2-4) by (cases "q = p") simp_all
  then show ?case using run rest by blast
qed simp



section \<open>Configuration data\<close>

text \<open>A call on a device that its VM has, with a reference to spare, runs and gives its reference back.\<close>

lemma with_ref_runs:
  assumes "vb_dev_find (vt_vb_dev_list vm) label s = Some p" "vb_devs s p = Some d" "vd_refcount d < U32_MAX"
  shows "with_ref vm label s f = obind (f p (set_dev p (d\<lparr>vd_refcount := vd_refcount d + 1\<rparr>) s)) (\<lambda>r s. obind (vb_dev_put p s) (\<lambda>_. Done r))"
  using assms by (simp add: with_ref_def vb_dev_get_def)

text \<open>The mapping of the configuration page that \<^verbatim>\<open>gh_virtio_mmio_init\<close> made: as large as it was asked to be.\<close>

definition config_mapped :: "u8 list \<Rightarrow> virtio_backend_device \<Rightarrow> bool" where
  "config_mapped b d \<longleftrightarrow> vd_config_shared_buf d = Some b \<and> length b = unat (vd_config_shared_size d) \<and> vd_refcount d < U32_MAX"

lemma vb_set_config_runs:
  assumes "vb_devs s p = Some d" "vd_config_shared_buf d = Some b" "length b = unat (vd_config_shared_size d)" "vd_config_data d = None"
    and "be_kz env" "be_data env = Some bytes" "length bytes = unat sz" "4 dvd unat sz"
    and "label \<noteq> 0" "sz \<noteq> 0" "unat sz \<le> PAGE_SIZE" "unat sz \<le> length b"
  shows "vb_ioc_set_config env label sz True p s = Done (0, No_Out)
    (set_dev p (d\<lparr>vd_config_data := Some (bytes @ replicate (PAGE_SIZE - unat sz) 0), vd_config_size := sz,
                   vd_config_shared_buf := Some (bytes @ drop (unat sz) b)\<rparr>) s)"
proof -
  have "mem_write (replicate PAGE_SIZE 0) 0 bytes = Some (bytes @ replicate (PAGE_SIZE - unat sz) 0)"
    using assms(7,11) by (simp add: mem_write_def)
  moreover have "4 * (unat sz div 4) = unat sz" using assms(8) by simp
  moreover have "mem_write b 0 bytes = Some (bytes @ drop (unat sz) b)" using assms(7,12) by (simp add: mem_write_def)
  ultimately show ?thesis using assms by (simp add: vb_ioc_set_config_def with_dev_def config_args_bad_def)
qed

text \<open>A request that changes the device or leaves it, between taking and giving back the reference.\<close>

lemma with_ref_done:
  assumes "vb_dev_find (vt_vb_dev_list vm) label s = Some p" "vb_devs s p = Some d" "vd_refcount d < U32_MAX"
    and "f p (set_dev p (d\<lparr>vd_refcount := vd_refcount d + 1\<rparr>) s) = Done r (set_dev p (d'\<lparr>vd_refcount := vd_refcount d + 1\<rparr>) s)"
  shows "with_ref vm label s f = Done r (set_dev p (d'\<lparr>vd_refcount := vd_refcount d\<rparr>) s)"
  using assms by (simp add: with_ref_runs vb_dev_put_def with_dev_def set_dev_def)

lemma set_dev_idem: "vb_devs s p = Some d \<Longrightarrow> set_dev p d s = s"
  by (simp add: set_dev_def fun_upd_idem)

lemma vb_dev_find_set_dev:
  "vb_devs s p = Some d \<Longrightarrow> vd_label d' = vd_label d \<Longrightarrow> vb_dev_find ps label (set_dev p d' s) = vb_dev_find ps label s"
  unfolding vb_dev_find_def by (rule arg_cong [of _ _ "\<lambda>P. List.find P ps"]) (auto simp: set_dev_def)

lemma vb_find_vm_set_dev [simp]: "vb_find_vm_by_name nm (set_dev p d s) = vb_find_vm_by_name nm s" "vb_vms (set_dev p d s) = vb_vms s"
  by (simp_all add: vb_find_vm_by_name_def set_dev_def)

definition config_dev :: "string \<Rightarrow> u32 \<Rightarrow> ptr \<Rightarrow> u8 list \<Rightarrow> 'x vb_state \<Rightarrow> virtio_backend_device \<Rightarrow> bool" where
  "config_dev nm label p b s d \<longleftrightarrow> label \<noteq> 0 \<and> vb_devs s p = Some d \<and> config_mapped b d \<and>
     (case vb_find_vm_by_name nm s of None \<Rightarrow> False
      | Some v \<Rightarrow> (case vb_vms s v of None \<Rightarrow> False | Some vm \<Rightarrow> vb_dev_find (vt_vb_dev_list vm) label s = Some p))"

lemma config_dev_ioctl:
  assumes "config_dev nm label p b s d" "be_from env"
  shows "\<exists>vm. vb_dev_find (vt_vb_dev_list vm) label s = Some p \<and>
      gh_virtio_backend_ioctl env nm (GH_SET_DEVICE_CONFIG_DATA label sz ok) s = with_ref vm label s (vb_ioc_set_config env label sz ok) \<and>
      gh_virtio_backend_ioctl env nm (GH_GET_DRIVER_CONFIG_DATA label sz ok) s = with_ref vm label s (vb_ioc_get_config env label sz ok)"
  using assms by (auto simp: config_dev_def gh_virtio_backend_ioctl_def vb_dispatch_def split: option.splits)

lemma config_dev_set_dev:
  assumes "config_dev nm label p b s d" "vd_label d' = vd_label d" "config_mapped b' d'"
  shows "config_dev nm label p b' (set_dev p d' s) d'"
  using assms vb_dev_find_set_dev [of s p d d']
  by (auto simp: config_dev_def split: option.splits) (simp add: set_dev_def)

lemma config_get:
  assumes "config_dev nm label p b s d" "be_from env" "be_uncopied env = 0" "n \<noteq> 0" "unat n \<le> length b"
  shows "gh_virtio_backend_ioctl env nm (GH_GET_DRIVER_CONFIG_DATA label n True) s = Done (0, Out_Bytes (take (unat n) b)) s"
proof -
  obtain vm where vm: "vb_dev_find (vt_vb_dev_list vm) label s = Some p"
    "gh_virtio_backend_ioctl env nm (GH_GET_DRIVER_CONFIG_DATA label n True) s = with_ref vm label s (vb_ioc_get_config env label n True)"
    using config_dev_ioctl [OF assms(1,2)] by blast
  have "with_ref vm label s (vb_ioc_get_config env label n True) = Done (0, Out_Bytes (take (unat n) b)) (set_dev p (d\<lparr>vd_refcount := vd_refcount d\<rparr>) s)"
    using assms vm(1) by (intro with_ref_done) (auto simp: config_dev_def config_mapped_def vb_ioc_get_config_def with_dev_def config_args_bad_def set_dev_def)
  then show ?thesis using vm(2) assms(1) by (simp add: config_dev_def set_dev_idem)
qed

lemma config_set_busy:
  assumes "config_dev nm label p b s d" "be_from env" "vd_config_data d \<noteq> None" "n \<noteq> 0" "unat n \<le> length b"
  shows "gh_virtio_backend_ioctl env nm (GH_SET_DEVICE_CONFIG_DATA label n True) s = Done (- EBUSY, No_Out) s"
proof -
  obtain vm where vm: "vb_dev_find (vt_vb_dev_list vm) label s = Some p"
    "gh_virtio_backend_ioctl env nm (GH_SET_DEVICE_CONFIG_DATA label n True) s = with_ref vm label s (vb_ioc_set_config env label n True)"
    using config_dev_ioctl [OF assms(1,2)] by blast
  have "with_ref vm label s (vb_ioc_set_config env label n True) = Done (- EBUSY, No_Out) (set_dev p (d\<lparr>vd_refcount := vd_refcount d\<rparr>) s)"
    using assms vm(1) by (intro with_ref_done) (auto simp: config_dev_def config_mapped_def vb_ioc_set_config_def with_dev_def config_args_bad_def set_dev_def)
  then show ?thesis using vm(2) assms(1) by (simp add: config_dev_def set_dev_idem)
qed

text \<open>C22: The configuration space of a device is written once and read back: after a process has set
  whole words of configuration data that fit a page and the device's mapping, every read of a
  prefix returns exactly these bytes without changing anything, and a second write is refused with
  \<^verbatim>\<open>-EBUSY\<close>. Data larger than the page the driver allocates, with a mapping that is larger,
  is written past the end of that page.\<close>

theorem gh_virtio_config_roundtrip:
  assumes "config_dev nm label p b s d" "vd_config_data d = None" "be_from env" "be_kz env" "be_data env = Some bytes"
    and "length bytes = unat sz" "sz \<noteq> 0" "unat sz \<le> length b"
  shows "(unat sz \<le> PAGE_SIZE \<and> 4 dvd unat sz \<longrightarrow> (\<exists>t. gh_virtio_backend_ioctl env nm (GH_SET_DEVICE_CONFIG_DATA label sz True) s = Done (0, No_Out) t \<and>
      (\<forall>env' n. be_from env' \<and> be_uncopied env' = 0 \<and> n \<noteq> 0 \<and> n \<le> sz \<longrightarrow>
         gh_virtio_backend_ioctl env' nm (GH_GET_DRIVER_CONFIG_DATA label n True) t = Done (0, Out_Bytes (take (unat n) bytes)) t) \<and>
      (\<forall>env' n. be_from env' \<and> n \<noteq> 0 \<and> unat n \<le> length b \<longrightarrow>
         gh_virtio_backend_ioctl env' nm (GH_SET_DEVICE_CONFIG_DATA label n True) t = Done (- EBUSY, No_Out) t))) \<and>
    (PAGE_SIZE < unat sz \<longrightarrow> gh_virtio_backend_ioctl env nm (GH_SET_DEVICE_CONFIG_DATA label sz True) s = Fault)"
proof -
  obtain vm where vm: "vb_dev_find (vt_vb_dev_list vm) label s = Some p"
    "gh_virtio_backend_ioctl env nm (GH_SET_DEVICE_CONFIG_DATA label sz True) s = with_ref vm label s (vb_ioc_set_config env label sz True)"
    using config_dev_ioctl [OF assms(1,3)] by blast
  have d: "vb_devs s p = Some d" "vd_config_shared_buf d = Some b" "length b = unat (vd_config_shared_size d)" "vd_refcount d < U32_MAX" "label \<noteq> 0"
    using assms(1) by (simp_all add: config_dev_def config_mapped_def)
  let ?s = "set_dev p (d\<lparr>vd_refcount := vd_refcount d + 1\<rparr>) s"
  have "\<exists>t. gh_virtio_backend_ioctl env nm (GH_SET_DEVICE_CONFIG_DATA label sz True) s = Done (0, No_Out) t \<and>
      (\<forall>env' n. be_from env' \<and> be_uncopied env' = 0 \<and> n \<noteq> 0 \<and> n \<le> sz \<longrightarrow>
         gh_virtio_backend_ioctl env' nm (GH_GET_DRIVER_CONFIG_DATA label n True) t = Done (0, Out_Bytes (take (unat n) bytes)) t) \<and>
      (\<forall>env' n. be_from env' \<and> n \<noteq> 0 \<and> unat n \<le> length b \<longrightarrow>
         gh_virtio_backend_ioctl env' nm (GH_SET_DEVICE_CONFIG_DATA label n True) t = Done (- EBUSY, No_Out) t)"
    if fits: "unat sz \<le> PAGE_SIZE" "4 dvd unat sz"
  proof -
    let ?b = "bytes @ drop (unat sz) b"
    let ?w = "\<lambda>d. d\<lparr>vd_config_data := Some (bytes @ replicate (PAGE_SIZE - unat sz) 0), vd_config_size := sz, vd_config_shared_buf := Some ?b\<rparr>"
    have comm: "?w (d\<lparr>vd_refcount := vd_refcount d + 1\<rparr>) = (?w d)\<lparr>vd_refcount := vd_refcount d + 1\<rparr>"
      by (rule virtio_backend_device.equality) simp_all
    have "vb_ioc_set_config env label sz True p ?s = Done (0, No_Out) (set_dev p (?w (d\<lparr>vd_refcount := vd_refcount d + 1\<rparr>)) ?s)"
      using assms d fits by (intro vb_set_config_runs) (simp_all add: set_dev_def)
    then have "vb_ioc_set_config env label sz True p ?s = Done (0, No_Out) (set_dev p ((?w d)\<lparr>vd_refcount := vd_refcount d + 1\<rparr>) s)"
      unfolding comm by (simp add: set_dev_def)
    then have run: "with_ref vm label s (vb_ioc_set_config env label sz True) = Done (0, No_Out) (set_dev p (?w d) s)"
      using with_ref_done [OF vm(1) d(1,4), of "vb_ioc_set_config env label sz True" "(0, No_Out)" "?w d"] by simp
    have t: "config_dev nm label p ?b (set_dev p (?w d) s) (?w d)"
      using assms d by (intro config_dev_set_dev [OF assms(1)]) (simp_all add: config_mapped_def)
    have "take (unat n) ?b = take (unat n) bytes" "unat n \<le> length ?b" if "n \<le> sz" for n
      using that assms(6,8) by (simp_all add: word_le_nat_alt)
    moreover have "length ?b = length b" using assms(6,8) by simp
    ultimately show ?thesis
      using vm(2) run config_get [OF t] config_set_busy [OF t] by (intro exI [of _ "set_dev p (?w d) s"]) simp
  qed
  moreover have "gh_virtio_backend_ioctl env nm (GH_SET_DEVICE_CONFIG_DATA label sz True) s = Fault" if "PAGE_SIZE < unat sz"
  proof -
    have "vb_ioc_set_config env label sz True p ?s = Fault"
      using assms d that by (simp add: vb_ioc_set_config_def with_dev_def set_dev_def config_args_bad_def mem_write_def)
    then show ?thesis using vm(2) with_ref_runs [OF vm(1) d(1,4)] by simp
  qed
  ultimately show ?thesis by blast
qed

theorem gh_virtio_config_roundtrip_witness:
  "\<exists>t. gh_virtio_backend_ioctl (vb_demo_env () (\<lambda>_ x. ((0, []), x))) ''trustedvm'' (GH_SET_DEVICE_CONFIG_DATA 7 4 True)
       ((vb_demo ())\<lparr>vb_devs := [1 \<mapsto> (new_vb_dev 7 0 True)\<lparr>vd_config_shared_buf := Some (replicate 8 0), vd_config_shared_size := 8\<rparr>]\<rparr>) =
     Done (0, No_Out) t \<and>
     gh_virtio_backend_ioctl (vb_demo_env () (\<lambda>_ x. ((0, []), x))) ''trustedvm'' (GH_GET_DRIVER_CONFIG_DATA 7 3 True) t = Done (0, Out_Bytes [1, 2, 3]) t"
proof -
  let ?e = "vb_demo_env () (\<lambda>_ x. ((0, []), x))"
  let ?d = "(new_vb_dev 7 0 True)\<lparr>vd_config_shared_buf := Some (replicate 8 0), vd_config_shared_size := 8\<rparr>"
  let ?s = "(vb_demo ())\<lparr>vb_devs := [1 \<mapsto> ?d]\<rparr>"
  have dev: "config_dev ''trustedvm'' 7 1 (replicate 8 0) ?s ?d"
    by (simp add: config_dev_def config_mapped_def vb_demo_def vb_demo_vm_def vb_find_vm_by_name_def vb_dev_find_def new_vb_dev_def)
  have env: "be_from ?e" "be_kz ?e" "be_data ?e = Some [1, 2, 3, 4]" "be_uncopied ?e = 0" "vd_config_data ?d = None"
    by (simp_all add: vb_demo_env_def new_vb_dev_def)
  obtain t where "gh_virtio_backend_ioctl ?e ''trustedvm'' (GH_SET_DEVICE_CONFIG_DATA 7 4 True) ?s = Done (0, No_Out) t"
    "\<forall>env' n. be_from env' \<and> be_uncopied env' = 0 \<and> n \<noteq> 0 \<and> n \<le> (4 :: u32) \<longrightarrow>
       gh_virtio_backend_ioctl env' ''trustedvm'' (GH_GET_DRIVER_CONFIG_DATA 7 n True) t = Done (0, Out_Bytes (take (unat n) [1, 2, 3, 4])) t"
    using gh_virtio_config_roundtrip [OF dev env(5,1-3), of 4] by auto
  then show ?thesis using env by (intro exI [of _ t]) simp
qed

end
