(* ===== verification/Virtio_Share.thy ===== *)
theory Virtio_Share
  imports Virtio_Exit
begin

text \<open>
  Who may use the buffers that the virtio backend shares with a VM
  (\<^verbatim>\<open>gh_secure_vm_virtio_backend.c\<close>, \<^verbatim>\<open>share_vm_buffers\<close> and \<^verbatim>\<open>unshare_vm_buffers\<close>). As in
  \<^theory_text>\<open>Vm_Memory_Correct\<close>, \<open>own\<close> reads the mask of the VMs that may use the range at an address.
\<close>

text \<open>The Resource Manager takes a parcel back when its owner asks for it.\<close>

definition reclaims :: "'x vb_env \<Rightarrow> bool" where
  "reclaims env \<longleftrightarrow> (\<forall>h x. fst (gh_rm_mem_reclaim (be_junk env) (be_call env) h 0 x) = 0)"

definition share_env :: "('x \<Rightarrow> u64 \<Rightarrow> u64) \<Rightarrow> 'x vb_env \<Rightarrow> bool" where
  "share_env own env \<longleftrightarrow> scm_moves own (be_scm env) \<and> call_keeps own (be_call env) \<and> reclaims env"

definition shm_upd :: "(u64 \<Rightarrow> u64) \<Rightarrow> shared_memory list \<Rightarrow> u64 \<Rightarrow> u64 \<Rightarrow> u64" where
  "shm_upd f ms v = (\<lambda>a. if a \<in> sm_start ` set ms then v else f a)"

lemma shm_upd_simps [simp]: "shm_upd f [] v = f" "shm_upd f (m # ms) v = shm_upd (f(sm_start m := v)) ms v"
  by (auto simp: shm_upd_def fun_eq_iff)

lemma shm_upd_other: "sm_start m \<notin> sm_start ` set ms \<Longrightarrow> shm_upd f ms v (sm_start m) = f (sm_start m)"
  by (simp add: shm_upd_def)

lemma distinct_start: "distinct (map sm_start (m # ms)) \<Longrightarrow> q \<in> set ms \<Longrightarrow> sm_start q \<noteq> sm_start m"
  by (metis distinct.simps(2) image_eqI list.simps(9) set_map)

lemma scm_move:
  assumes "scm_moves own scm" "own x p = src"
  shows "\<exists>t. scm p n src dst x = (0, t) \<and> own t = (own x)(p := scm_mask dst)"
  using assms unfolding scm_moves_def by blast

lemma unshare_a_moves:
  assumes "share_env own env" "own x (sm_start m) = BIT self OR BIT peer"
  shows "\<exists>t. unshare_a_vm_buffer env self peer m x = (0, t) \<and> own t = (own x)(sm_start m := BIT self)"
proof -
  obtain y where y: "gh_rm_mem_reclaim (be_junk env) (be_call env) (sm_shm_memparcel m) 0 x = (0, y)"
    using assms(1) by (metis share_env_def reclaims_def prod.collapse)
  have "own y = own x" using gh_rm_mem_reclaim_keeps [of own "be_call env" "be_junk env" "sm_shm_memparcel m" 0 x] assms(1) y
    by (simp add: share_env_def)
  then show ?thesis
    using y scm_move [of own "be_scm env" y "sm_start m" "BIT self OR BIT peer" "sm_size m" "[(self, QCOM_SCM_PERM_RWX)]"] assms
    by (auto simp: unshare_a_vm_buffer_def share_env_def scm_masks)
qed

lemma unshare_loop_moves:
  assumes "share_env own env" "distinct (map sm_start ms)" "\<forall>m\<in>set ms. own x (sm_start m) = BIT self OR BIT peer"
  shows "\<exists>t. unshare_loop env self peer ms x = (0, t) \<and> fold (\<lambda>m x. snd (unshare_a_vm_buffer env self peer m x)) ms x = t \<and>
    own t = shm_upd (own x) ms (BIT self)"
  using assms(2,3)
proof (induction ms arbitrary: x)
  case (Cons m ms)
  obtain y where y: "unshare_a_vm_buffer env self peer m x = (0, y)" "own y = (own x)(sm_start m := BIT self)"
    using unshare_a_moves [OF assms(1)] Cons.prems(2) by (metis list.set_intros(1))
  have "\<forall>q\<in>set ms. own y (sm_start q) = BIT self OR BIT peer"
    using Cons.prems distinct_start [of m ms] by (simp add: y(2))
  moreover have "distinct (map sm_start ms)" using Cons.prems(1) by simp
  ultimately obtain t where "unshare_loop env self peer ms y = (0, t)" "fold (\<lambda>m x. snd (unshare_a_vm_buffer env self peer m x)) ms y = t"
    "own t = shm_upd (own y) ms (BIT self)" using Cons.IH by blast
  then show ?case using y by simp
qed simp

lemma share_a_moves:
  assumes "share_env own env" "own x (sm_start m) = BIT self"
  shows "\<exists>ret m' t. share_a_vm_buffer env self peer m x = Done (ret, m') t \<and> sm_start m' = sm_start m \<and>
    own t = (if ret = 0 then (own x)(sm_start m := BIT self OR BIT peer) else own x)"
proof (cases "be_kz env")
  case True
  let ?dst = "[(self, QCOM_SCM_PERM_RW), (peer, QCOM_SCM_PERM_RW)]"
  obtain y where y: "be_scm env (sm_start m) (sm_size m) (BIT self) ?dst x = (0, y)" "own y = (own x)(sm_start m := BIT self OR BIT peer)"
    using scm_move [of own "be_scm env" x "sm_start m" "BIT self" "sm_size m" ?dst] assms by (auto simp: share_env_def scm_masks)
  have keeps: "call_keeps own (be_call env)" using assms(1) by (simp add: share_env_def)
  obtain r z where z: "gh_rm_mem_share (be_junk env) (be_gap env) (be_call env) (be_kz env) 0 0 (sm_gunyah_label m)
      (Some [(self, 6), (peer, 6)]) (Some [(sm_start m, sm_size m)]) None y = Done r z" "own z = own y"
    using share_lend_helper_returns [OF keeps, of "[(self, 6), (peer, 6)]" MEM_SHARE "be_junk env" "be_gap env" "be_kz env" 0 0
      "sm_gunyah_label m" "[(sm_start m, sm_size m)]" None y] unfolding gh_rm_mem_share_def by auto
  obtain u where u: "be_scm env (sm_start m) (sm_size m) (BIT self OR BIT peer) [(self, QCOM_SCM_PERM_RWX)] z = (0, u)"
      "own u = (own z)(sm_start m := BIT self)"
    using scm_move [of own "be_scm env" z "sm_start m" "BIT self OR BIT peer" "sm_size m" "[(self, QCOM_SCM_PERM_RWX)]"] assms z(2) y(2)
    by (auto simp: share_env_def scm_masks)
  have "(own z)(sm_start m := BIT self) = own x" unfolding z(2) y(2) using assms(2) by auto
  then show ?thesis using True y z u by (cases r) (auto simp: share_a_vm_buffer_def)
qed (simp add: share_a_vm_buffer_def)

lemma share_loop_moves:
  assumes "share_env own env" "distinct (map sm_start (ready @ ms))"
    and "\<forall>m\<in>set ready. own x (sm_start m) = BIT self OR BIT peer" "\<forall>m\<in>set ms. own x (sm_start m) = BIT self"
  shows "\<exists>ret ms' t. share_loop env self peer ready ms x = Done (ret, ms') t \<and> map sm_start ms' = map sm_start (rev ready @ ms) \<and>
    own t = (if ret = 0 then shm_upd (own x) ms (BIT self OR BIT peer) else shm_upd (own x) ready (BIT self))"
  using assms(2-4)
proof (induction ms arbitrary: ready x)
  case (Cons m ms)
  obtain ret m' y where y: "share_a_vm_buffer env self peer m x = Done (ret, m') y" "sm_start m' = sm_start m"
    "own y = (if ret = 0 then (own x)(sm_start m := BIT self OR BIT peer) else own x)"
    using share_a_moves [OF assms(1)] Cons.prems(3) by (metis list.set_intros(1))
  show ?case
  proof (cases "ret = 0")
    case False
    obtain t where "fold (\<lambda>m x. snd (unshare_a_vm_buffer env self peer m x)) ready y = t" "own t = shm_upd (own y) ready (BIT self)"
      using unshare_loop_moves [OF assms(1), of ready y] Cons.prems False y(3) by auto
    then show ?thesis using y False by simp
  next
    case True
    have dist: "distinct (map sm_start ((m' # ready) @ ms))" using Cons.prems(1) y(2) by auto
    have other: "sm_start q \<noteq> sm_start m" if "q \<in> set ready \<union> set ms" for q
      using dist distinct_start [of m' "ready @ ms" q] that y(2) by simp
    have shared: "\<forall>q\<in>set (m' # ready). own y (sm_start q) = BIT self OR BIT peer"
      using Cons.prems(2) other y True by simp
    have "\<forall>q\<in>set ms. own y (sm_start q) = BIT self" using Cons.prems(3) other y(3) True by simp
    then obtain r ms' t where t: "share_loop env self peer (m' # ready) ms y = Done (r, ms') t"
      "map sm_start ms' = map sm_start (rev (m' # ready) @ ms)"
      "own t = (if r = 0 then shm_upd (own y) ms (BIT self OR BIT peer) else shm_upd (own y) (m' # ready) (BIT self))"
      using Cons.IH [OF dist shared] by blast
    have "(own y)(sm_start m' := BIT self) = own x" using y Cons.prems(3) True by auto
    then show ?thesis using t y True by simp
  qed
qed simp

text \<open>C17: Sharing a VM's virtio buffers is all or nothing, and is undone completely: provided the
  secure monitor moves memory and the Resource Manager takes parcels back when it is asked to,
  \<^verbatim>\<open>share_vm_buffers\<close> either succeeds with every buffer usable by both VMs, or fails with the
  buffers shared so far taken back and every buffer only the primary VM's; after a success
  \<^verbatim>\<open>unshare_vm_buffers\<close> succeeds and gives every buffer back to the primary VM alone.\<close>

theorem share_vm_buffers_all_or_nothing:
  assumes "share_env own env" "be_primary env = (0, self)" "distinct (map sm_start (vt_shmem vm))"
    and "\<forall>m\<in>set (vt_shmem vm). own x (sm_start m) = BIT self" "\<not> vt_hyp_assign_done vm"
  shows "\<exists>ret vm' t. share_vm_buffers env peer vm x = Done (ret, vm') t \<and> vt_hyp_assign_done vm' = (ret = 0) \<and>
    own t = (if ret = 0 then shm_upd (own x) (vt_shmem vm) (BIT self OR BIT peer) else own x) \<and>
    (ret = 0 \<longrightarrow> (\<exists>u. unshare_vm_buffers env peer vm' t = ((0, vm'\<lparr>vt_hyp_assign_done := False\<rparr>), u) \<and> own u = own x))"
proof -
  let ?ms = "vt_shmem vm"
  obtain ret ms t where t: "share_loop env self peer [] ?ms x = Done (ret, ms) t" "map sm_start ms = map sm_start ?ms"
    "own t = (if ret = 0 then shm_upd (own x) ?ms (BIT self OR BIT peer) else own x)"
    using share_loop_moves [OF assms(1), of "[]" ?ms x self peer] assms(3,4) by auto
  let ?vm = "vm\<lparr>vt_shmem := ms, vt_hyp_assign_done := (ret = 0)\<rparr>"
  have run: "share_vm_buffers env peer vm x = Done (ret, ?vm) t" using t(1) assms(2,5) by (simp add: share_vm_buffers_def)
  have starts: "sm_start ` set ms = sm_start ` set ?ms" using t(2) by (metis set_map)
  have "\<exists>u. unshare_vm_buffers env peer ?vm t = ((0, ?vm\<lparr>vt_hyp_assign_done := False\<rparr>), u) \<and> own u = own x" if "ret = 0"
  proof -
    have "own t (sm_start m) = BIT self OR BIT peer" if m: "m \<in> set ms" for m
      using t(3) \<open>ret = 0\<close> starts imageI [OF m, of sm_start] by (simp add: shm_upd_def)
    then obtain u where u: "unshare_loop env self peer ms t = (0, u)" "own u = shm_upd (own t) ms (BIT self)"
      using unshare_loop_moves [OF assms(1), of ms t self peer] assms(3) t(2) by auto
    have "own u = own x" using u(2) t(3) \<open>ret = 0\<close> starts assms(4) by (auto simp: shm_upd_def fun_eq_iff)
    then show ?thesis using u(1) assms(2) \<open>ret = 0\<close> by (simp add: unshare_vm_buffers_def)
  qed
  then show ?thesis using run t(3) by (intro exI [of _ ret] exI [of _ ?vm] exI [of _ t]) simp
qed

theorem share_vm_buffers_all_or_nothing_witness:
  "\<exists>ret vm' t. share_vm_buffers ((vb_demo_env (\<lambda>_. 8) (\<lambda>_ x. ((0, []), x)))\<lparr>be_scm := mem_demo_scm\<rparr>) 45 vb_demo_vm (\<lambda>_. BIT (3 :: gh_vmid_t)) = Done (ret, vm') t \<and>
     vt_hyp_assign_done vm' = (ret = 0) \<and> t = (if ret = 0 then (\<lambda>_. BIT (3 :: gh_vmid_t))(0x8000 := BIT (3 :: gh_vmid_t) OR BIT (45 :: gh_vmid_t)) else (\<lambda>_. BIT (3 :: gh_vmid_t)))"
proof -
  let ?e = "(vb_demo_env (\<lambda>_. 8) (\<lambda>_ x. ((0, []), x)))\<lparr>be_scm := mem_demo_scm\<rparr>"
  have env: "share_env (\<lambda>f. f) ?e" "be_primary ?e = (0, 3)"
    using mem_demo_moves by (simp_all add: share_env_def reclaims_def vb_demo_env_def call_keeps_def gh_rm_mem_reclaim_def gh_rm_mem_release_helper_def rm_unchecked_def bad_flags_def)
  have "distinct (map sm_start (vt_shmem vb_demo_vm))" "\<not> vt_hyp_assign_done vb_demo_vm" "map sm_start (vt_shmem vb_demo_vm) = [0x8000]"
    by (simp_all add: vb_demo_vm_def)
  moreover have "shm_upd f (vt_shmem vb_demo_vm) v = f(0x8000 := v)" for f v by (simp add: vb_demo_vm_def)
  ultimately show ?thesis
    using share_vm_buffers_all_or_nothing [OF env, of vb_demo_vm "\<lambda>_. BIT (3 :: gh_vmid_t)" 45] by metis
qed

end
