(* ===== verification/Sec_Loader.thy ===== *)
theory Sec_Loader
  imports Vm_Main Virtio_Backend
begin

text \<open>
  The loader of secure VMs (\<^verbatim>\<open>drivers/virt/gunyah/gh_secure_vm_loader.c\<close>), on top of the VM objects,
  the memory of a VM and the virtio backend. Memory that is mapped into the kernel lives in
  \<open>ld_maps\<close>, from the address of the mapping to its bytes; using or releasing an address that is
  not mapped, a device that is gone or an allocation that failed is \<^term>\<open>Fault\<close>.
\<close>

section \<open>State\<close>

record gh_sec_vm_fw_mem =
  fm_phys :: u64
  fm_virt :: u64
  fm_size :: u64
  fm_is_static :: bool

text \<open>The counts of the arrays are their lengths.\<close>

record gh_sec_vm_dev =
  sv_vm_name :: string
  sv_system_vm :: bool
  sv_fw_mem_regions :: "gh_sec_vm_fw_mem list"
  sv_pas_id :: u32
  sv_vmid :: u32
  sv_fw_index :: u32
  sv_sh_mem_regions :: "gh_shmem list"

datatype ramdump_event = Cleanup_Ramdump u32 | Collect_Ramdump ptr

text \<open>\<open>ld_files\<close> are the files of memory regions: the device and the number of the region.\<close>

record ('c, 'h, 'g, 'k, 'x) loader_state =
  ld_main :: "('c, 'h, 'g, 'k) main_state"
  ld_virtio :: "'x vb_state"
  ld_devs :: "ptr \<Rightarrow> gh_sec_vm_dev option"
  ld_list :: "ptr list"
  ld_next :: ptr
  ld_maps :: "u64 \<Rightarrow> u8 list option"
  ld_files :: "int \<Rightarrow> (ptr \<times> nat) option"
  ld_log :: "ramdump_event list"

text \<open>
  What the environment decides: copies from and to user space, the firmware (\<open>le_request\<close> is the result of
  \<^verbatim>\<open>request_firmware\<close>, \<open>le_metadata\<close> of \<^verbatim>\<open>qcom_mdt_read_metadata\<close>, \<open>le_mdt_load\<close> of
  \<^verbatim>\<open>qcom_mdt_load_no_init\<close> with what it writes), the uninitialised \<^verbatim>\<open>image_end_addr\<close>, allocations (\<open>le_dma i\<close> is
  the address and physical address of the memory of region \<open>i\<close>), file descriptors, \<^verbatim>\<open>qcom_scm_assign_mem\<close>.
\<close>

record ('c, 'h, 'g, 'k) loader_env =
  le_main :: "('c, 'h, 'g, 'k) main_env"
  le_from :: bool
  le_to :: bool
  le_request :: "string \<Rightarrow> int"
  le_metadata :: "int + u8 list"
  le_mdt_load :: "u8 list \<Rightarrow> int \<times> u8 list"
  le_image_end :: u64
  le_kz :: bool
  le_kr :: bool
  le_dma :: "nat \<Rightarrow> (u64 \<times> u64) option"
  le_fd :: int
  le_getfile :: bool
  le_gap :: "u8 list"
  le_scm :: "'c scm_assign"

definition nth_opt :: "'a list \<Rightarrow> nat \<Rightarrow> 'a option" where
  "nth_opt xs i = (if i < length xs then Some (xs ! i) else None)"

definition ld_rm ::
  "('c \<Rightarrow> ('a, 'c) outcome) \<Rightarrow> ('c, 'h, 'g, 'k, 'x) loader_state \<Rightarrow> ('a, ('c, 'h, 'g, 'k, 'x) loader_state) outcome" where
  "ld_rm f s = map_outcome id (\<lambda>c. s\<lparr>ld_main := (ld_main s)\<lparr>mn_res := (mn_res (ld_main s))\<lparr>rs_rm := c\<rparr>\<rparr>\<rparr>) (f (rs_rm (mn_res (ld_main s))))"

definition ld_upd_vm :: "ptr \<Rightarrow> (gh_vm \<Rightarrow> gh_vm) \<Rightarrow> ('c, 'h, 'g, 'k, 'x) loader_state \<Rightarrow> ('c, 'h, 'g, 'k, 'x) loader_state" where
  "ld_upd_vm p f s = s\<lparr>ld_main := upd_vm p f (ld_main s)\<rparr>"

definition ld_set_dev :: "ptr \<Rightarrow> gh_sec_vm_dev \<Rightarrow> ('c, 'h, 'g, 'k, 'x) loader_state \<Rightarrow> ('c, 'h, 'g, 'k, 'x) loader_state" where
  "ld_set_dev q d s = s\<lparr>ld_devs := (ld_devs s)(q \<mapsto> d)\<rparr>"

definition ld_map :: "u64 \<Rightarrow> u8 list \<Rightarrow> ('c, 'h, 'g, 'k, 'x) loader_state \<Rightarrow> ('c, 'h, 'g, 'k, 'x) loader_state" where
  "ld_map v b s = s\<lparr>ld_maps := (ld_maps s)(v \<mapsto> b)\<rparr>"

text \<open>\<^verbatim>\<open>dma_free_coherent\<close> and \<^verbatim>\<open>memunmap\<close>.\<close>

definition ld_unmap :: "u64 \<Rightarrow> ('c, 'h, 'g, 'k, 'x) loader_state \<Rightarrow> (unit, ('c, 'h, 'g, 'k, 'x) loader_state) outcome" where
  "ld_unmap v s = (if ld_maps s v = None then Fault else Done () (s\<lparr>ld_maps := (ld_maps s)(v := None)\<rparr>))"

section \<open>Names\<close>

definition fw_name_to_vm_name :: "(nat \<times> string) list" where
  "fw_name_to_vm_name = [(1, ''pvm''), (2, ''trustedvm''), (3, ''cpusys_vm''), (4, ''oemvm''), (5, ''autoghgvm''), (6, ''autoghgvmlv'')]"

definition get_gh_vm_name :: "string \<Rightarrow> nat" where
  "get_gh_vm_name str = (case List.find (\<lambda>(v, nm). str = nm) fw_name_to_vm_name of Some (v, _) \<Rightarrow> v | None \<Rightarrow> GH_VM_MAX)"

definition get_sec_vm_dev_by_name :: "string \<Rightarrow> ('c, 'h, 'g, 'k, 'x) loader_state \<Rightarrow> ptr option" where
  "get_sec_vm_dev_by_name nm s =
     List.find (\<lambda>q. case ld_devs s q of None \<Rightarrow> False | Some d \<Rightarrow> sv_vm_name d = nm) (ld_list s)"

text \<open>What \<^verbatim>\<open>scnprintf\<close> leaves of a string in an array of \<^verbatim>\<open>GH_VM_FW_NAME_MAX\<close> characters.\<close>

definition fw_name_buf :: "string \<Rightarrow> string" where
  "fw_name_buf nm = take (GH_VM_FW_NAME_MAX - 1) nm"

definition char_bytes :: "string \<Rightarrow> u8 list" where
  "char_bytes nm = map (\<lambda>c. of_nat (of_char c)) nm"

section \<open>Metadata of the image\<close>

record elf32_phdr =
  p_paddr :: u32
  p_memsz :: u32
  p_flags :: u32

text \<open>The program headers follow the ELF header of 52 bytes, 32 bytes each; \<^verbatim>\<open>e_phnum\<close> is at offset 44.\<close>

definition e_phnum :: "u8 list \<Rightarrow> nat" where
  "e_phnum mdata = unat (of_le16 (drop 44 mdata))"

definition phdr_at :: "u8 list \<Rightarrow> nat \<Rightarrow> elf32_phdr" where
  "phdr_at mdata i =
     (let b = drop (52 + 32 * i) mdata in
      \<lparr>p_paddr = of_le32 (drop 12 b), p_memsz = of_le32 (drop 20 b), p_flags = of_le32 (drop 24 b)\<rparr>)"

definition phdrs :: "u8 list \<Rightarrow> elf32_phdr list option" where
  "phdrs mdata = (if length mdata < 52 + 32 * e_phnum mdata then None else Some (map (phdr_at mdata) [0..<e_phnum mdata]))"

abbreviation (input) QCOM_MDT_RELOCATABLE :: u32 where "QCOM_MDT_RELOCATABLE \<equiv> 0x8000000"
abbreviation (input) U64_MAX :: u64 where "U64_MAX \<equiv> 0xFFFFFFFFFFFFFFFF"

definition PAGE_ROUND_UP :: "u64 \<Rightarrow> u64" where
  "PAGE_ROUND_UP x = (x + 4095) div 4096 * 4096"

record image_info =
  im_relocatable :: bool
  im_max_paddr :: u32
  im_end :: u64
  im_size :: u64

text \<open>The sum of address and size is taken at 32 bits, the comparison before it at 64.\<close>

fun image_extent :: "elf32_phdr list \<Rightarrow> image_info \<Rightarrow> image_info option" where
  "image_extent [] im = Some im"
| "image_extent (ph # phs) im =
     (let im = im\<lparr>im_relocatable := (im_relocatable im \<or> p_flags ph AND QCOM_MDT_RELOCATABLE \<noteq> 0)\<rparr> in
      if im_max_paddr im < p_paddr ph \<and> U64_MAX - ucast (p_paddr ph) < ucast (p_memsz ph) then None
      else let im = (if im_max_paddr im < p_paddr ph
                     then im\<lparr>im_end := ucast (p_paddr ph + p_memsz ph), im_max_paddr := p_paddr ph\<rparr> else im)
           in image_extent phs (im\<lparr>im_size := im_size im + ucast (p_memsz ph)\<rparr>))"

text \<open>The state is the memory of the region that takes the metadata; 0 is the failure value.\<close>

definition gh_sec_load_metadata :: "u64 \<Rightarrow> gh_sec_vm_fw_mem \<Rightarrow> u8 list \<Rightarrow> u8 list \<Rightarrow> (u64, u8 list) outcome" where
  "gh_sec_load_metadata junk r mdata mem =
     (let act = of_nat (length mdata); mdata_size = PAGE_ROUND_UP act in
      if mdata_size < act then Done 0 mem
      else case phdrs mdata of
        None \<Rightarrow> Fault
      | Some phs \<Rightarrow>
          (case image_extent phs \<lparr>im_relocatable = False, im_max_paddr = 0, im_end = junk, im_size = 0\<rparr> of
             None \<Rightarrow> Done 0 mem
           | Some im \<Rightarrow>
               if U64_MAX - mdata_size < im_size im \<or> fm_size r < im_size im + mdata_size then Done 0 mem
               else let start = (if im_relocatable im then 0 else fm_phys r);
                        moffset = fm_size r - mdata_size in
                 if fm_size r < moffset \<or> U64_MAX - moffset < start \<or> U64_MAX - moffset < fm_virt r then Done 0 mem
                 else if im_end im \<le> start + moffset
                 then (case mem_write mem (unat moffset) mdata of None \<Rightarrow> Fault | Some mem \<Rightarrow> Done moffset mem)
                 else Done 0 mem))"

section \<open>Loading\<close>

definition mem_parcels :: "gh_sec_vm_fw_mem list \<Rightarrow> gh_mem_parcel list" where
  "mem_parcels rs = map (\<lambda>r. \<lparr>mem_phys = fm_phys r, mem_size = fm_size r\<rparr>) rs"

text \<open>\<^verbatim>\<open>gh_provide_shmem\<close> stores the handle in the region, also of the regions before a failure.\<close>

fun provide_shmems ::
  "('c, 'h, 'g, 'k) loader_env \<Rightarrow> gh_vm \<Rightarrow> gh_shmem list \<Rightarrow> int \<Rightarrow> ('c, 'h, 'g, 'k, 'x) loader_state \<Rightarrow>
   (int \<times> gh_shmem list, ('c, 'h, 'g, 'k, 'x) loader_state) outcome" where
  "provide_shmems env vm [] ret s = Done (ret, []) s"
| "provide_shmems env vm (sh # shs) ret s =
     obind (ld_rm (gh_provide_shmem (me_junk (le_main env)) (le_gap env) (re_call (me_rs (le_main env))) (le_kz env) (le_kr env)
                     (le_scm env) vm sh) s) (\<lambda>(ret, sh) s.
       if ret \<noteq> 0 then Done (ret, sh # shs) s
       else obind (provide_shmems env vm shs ret s) (\<lambda>(ret, shs). Done (ret, sh # shs)))"

definition ld_with_vm :: "ptr \<Rightarrow> ('c, 'h, 'g, 'k, 'x) loader_state \<Rightarrow> (gh_vm \<Rightarrow> ('a, 's) outcome) \<Rightarrow> ('a, 's) outcome" where
  "ld_with_vm p s f = with_vm p (ld_main s) f"

text \<open>The part of \<^verbatim>\<open>gh_vm_loader_sec_load\<close> after the image is in memory. A failure of \<^verbatim>\<open>gh_vm_configure\<close> is only
  the result when there is no shared region.\<close>

definition sec_load_provide ::
  "('c, 'h, 'g, 'k) loader_env \<Rightarrow> ptr \<Rightarrow> gh_sec_vm_dev \<Rightarrow> u64 \<Rightarrow> u64 \<Rightarrow> ptr \<Rightarrow> ('c, 'h, 'g, 'k, 'x) loader_state \<Rightarrow>
   (int, ('c, 'h, 'g, 'k, 'x) loader_state) outcome" where
  "sec_load_provide env q d metadata_offset metadata_size p s =
     ld_with_vm p s (\<lambda>vm.
       if sv_fw_mem_regions d \<noteq> [] \<and> \<not> le_kz env then Fault
       else obind (ld_rm (gh_provide_mem (me_junk (le_main env)) (le_gap env) (re_call (me_rs (le_main env))) (le_kz env) (le_kr env)
                            (le_scm env) vm (mem_parcels (sv_fw_mem_regions d)) (sv_system_vm d)) s) (\<lambda>(ret, vm) s.
         let s = ld_upd_vm p (\<lambda>_. vm) s in
         if ret \<noteq> 0 then Done ret s
         else let s = ld_upd_vm p (vm_is_secure_vm_update (\<lambda>_. True)) s in
           obind (map_outcome id (\<lambda>m. s\<lparr>ld_main := m\<rparr>)
                    (gh_vm_configure (le_main env) (le_kr env) 1 metadata_offset metadata_size 0 0 (sv_pas_id d) (Some (char_bytes (sv_vm_name d))) p
                      (ld_main s))) (\<lambda>ret s.
             ld_with_vm p s (\<lambda>vm.
               obind (provide_shmems env vm (sv_sh_mem_regions d) ret s) (\<lambda>(ret, shs) s.
                 Done ret (ld_set_dev q (d\<lparr>sv_sh_mem_regions := shs\<rparr>) s))))))"

text \<open>Metadata that does not fit leaves \<^verbatim>\<open>ret\<close> at 0.\<close>

definition gh_vm_loader_sec_load ::
  "('c, 'h, 'g, 'k) loader_env \<Rightarrow> ptr \<Rightarrow> ptr \<Rightarrow> ('c, 'h, 'g, 'k, 'x) loader_state \<Rightarrow> (int, ('c, 'h, 'g, 'k, 'x) loader_state) outcome" where
  "gh_vm_loader_sec_load env q p s =
     (case ld_devs s q of
        None \<Rightarrow> Fault
      | Some d \<Rightarrow>
          let ret = le_request env (fw_name_buf (sv_vm_name d @ ''.mdt'')) in
          if ret \<noteq> 0 then Done ret s
          else case le_metadata env of
            Inl e \<Rightarrow> Done e s
          | Inr mdata \<Rightarrow>
              (case nth_opt (sv_fw_mem_regions d) (unat (sv_fw_index d)) of
                 None \<Rightarrow> Fault
               | Some r \<Rightarrow>
                   (case ld_maps s (fm_virt r) of
                      None \<Rightarrow> Fault
                    | Some mem \<Rightarrow>
                        (case gh_sec_load_metadata (le_image_end env) r mdata mem of
                           Done off mem \<Rightarrow>
                             if off = 0 then Done 0 s
                             else (case le_mdt_load env mem of
                               (ret, mem) \<Rightarrow>
                                 let s = ld_map (fm_virt r) mem s in
                                 if ret \<noteq> 0 then Done ret s
                                 else sec_load_provide env q d off (of_nat (length mdata)) p s)
                         | _ \<Rightarrow> Fault))))"

text \<open>The loops that allocate and free the memory of the regions that are not static. A failed
  allocation keeps the memory of the regions before it.\<close>

fun alloc_regions ::
  "('c, 'h, 'g, 'k) loader_env \<Rightarrow> nat \<Rightarrow> gh_sec_vm_fw_mem list \<Rightarrow> ('c, 'h, 'g, 'k, 'x) loader_state \<Rightarrow>
   (bool \<times> gh_sec_vm_fw_mem list) \<times> ('c, 'h, 'g, 'k, 'x) loader_state" where
  "alloc_regions env i [] s = ((True, []), s)"
| "alloc_regions env i (r # rs) s =
     (if fm_is_static r then (case alloc_regions env (i + 1) rs s of ((ok, rs), s) \<Rightarrow> ((ok, r # rs), s))
      else case le_dma env i of
        None \<Rightarrow> ((False, r # rs), s)
      | Some (virt, phys) \<Rightarrow>
          (case alloc_regions env (i + 1) rs (ld_map virt (replicate (unat (fm_size r)) 0) s) of
             ((ok, rs), s) \<Rightarrow> ((ok, r\<lparr>fm_virt := virt, fm_phys := phys\<rparr> # rs), s)))"

fun free_regions :: "bool \<Rightarrow> gh_sec_vm_fw_mem list \<Rightarrow> ('c, 'h, 'g, 'k, 'x) loader_state \<Rightarrow> (unit, ('c, 'h, 'g, 'k, 'x) loader_state) outcome" where
  "free_regions static [] s = Done () s"
| "free_regions static (r # rs) s =
     obind (if fm_is_static r = static then ld_unmap (fm_virt r) s else Done () s) (\<lambda>_. free_regions static rs)"

definition gh_sec_vm_loader_load_fw ::
  "('c, 'h, 'g, 'k) loader_env \<Rightarrow> ptr \<Rightarrow> ptr \<Rightarrow> ('c, 'h, 'g, 'k, 'x) loader_state \<Rightarrow> (int, ('c, 'h, 'g, 'k, 'x) loader_state) outcome" where
  "gh_sec_vm_loader_load_fw env q p s =
     (case ld_devs s q of
        None \<Rightarrow> Fault
      | Some d \<Rightarrow>
          (case alloc_regions env 0 (sv_fw_mem_regions d) s of
             ((ok, rs), s) \<Rightarrow>
               let d = d\<lparr>sv_fw_mem_regions := rs\<rparr>; s = ld_set_dev q d s; res = mn_res (ld_main s) in
               if \<not> ok then Done (- ENOMEM) s
               else (case gh_rm_vm_alloc_vmid (re_call (me_rs (le_main env))) (get_gh_vm_name (sv_vm_name d)) (sv_vmid d) (rs_tbl res, rs_rm res) of
                 Done (ret, vmid) (tbl, c) \<Rightarrow>
                   let d = d\<lparr>sv_vmid := vmid\<rparr>;
                       s = ld_set_dev q d (s\<lparr>ld_main := (ld_main s)\<lparr>mn_res := res\<lparr>rs_tbl := tbl, rs_rm := c\<rparr>\<rparr>\<rparr>) in
                   if ret < 0 then obind (free_regions False rs s) (\<lambda>_. Done ret)
                   else gh_vm_loader_sec_load env q p
                          (ld_upd_vm p (\<lambda>vm. vm\<lparr>vm_status := VM_STATUS_LOAD, vm_vmid := ucast vmid\<rparr>) s)
               | _ \<Rightarrow> Fault)))"

section \<open>Requests\<close>

text \<open>\<open>nm\<close> is the string in the array user space passes, whose last character is overwritten with NUL.\<close>

definition gh_vm_ioctl_set_fw_name ::
  "('c, 'h, 'g, 'k) loader_env \<Rightarrow> ptr \<Rightarrow> string \<Rightarrow> ('c, 'h, 'g, 'k, 'x) loader_state \<Rightarrow> (int, ('c, 'h, 'g, 'k, 'x) loader_state) outcome" where
  "gh_vm_ioctl_set_fw_name env p nm s =
     (if \<not> le_from env then Done (- EFAULT) s
      else let nm = fw_name_buf nm in
        ld_with_vm p s (\<lambda>vm.
          if vm_fw_name vm \<noteq> '''' then Done (- EEXIST) s
          else case get_sec_vm_dev_by_name nm s of
            None \<Rightarrow> Done (- EINVAL) s
          | Some q \<Rightarrow>
              (case ld_devs s q of
                 None \<Rightarrow> Fault
               | Some d \<Rightarrow>
                   obind (gh_sec_vm_loader_load_fw env q p (s\<lparr>ld_log := ld_log s @ [Cleanup_Ramdump (sv_vmid d)]\<rparr>)) (\<lambda>ret s.
                     if ret \<noteq> 0 then Done ret s
                     else let s = ld_upd_vm p (vm_fw_name_update (\<lambda>_. nm)) s in
                       Done ret (s\<lparr>ld_main := log_event (Uevent_Create p) (ld_main s)\<rparr>)))))"

definition gh_vm_ioctl_get_fw_name ::
  "('c, 'h, 'g, 'k) loader_env \<Rightarrow> ptr \<Rightarrow> ('c, 'h, 'g, 'k, 'x) loader_state \<Rightarrow> (int \<times> string option, ('c, 'h, 'g, 'k, 'x) loader_state) outcome" where
  "gh_vm_ioctl_get_fw_name env p s =
     ld_with_vm p s (\<lambda>vm. Done (if le_to env then (0, Some (fw_name_buf (vm_fw_name vm))) else (- EFAULT, None)) s)"

definition gh_vm_ioctl_get_mem_count :: "ptr \<Rightarrow> ('c, 'h, 'g, 'k, 'x) loader_state \<Rightarrow> (int, ('c, 'h, 'g, 'k, 'x) loader_state) outcome" where
  "gh_vm_ioctl_get_mem_count p s =
     ld_with_vm p s (\<lambda>vm.
       case get_sec_vm_dev_by_name (vm_fw_name vm) s of
         None \<Rightarrow> Done (- EINVAL) s
       | Some q \<Rightarrow> (case ld_devs s q of None \<Rightarrow> Fault | Some d \<Rightarrow> Done (uint (of_nat (length (sv_fw_mem_regions d)) :: u32)) s))"

text \<open>The result with the region's address, size and file descriptor.\<close>

definition gh_vm_ioctl_get_mem_region ::
  "('c, 'h, 'g, 'k) loader_env \<Rightarrow> ptr \<Rightarrow> u8 \<Rightarrow> ('c, 'h, 'g, 'k, 'x) loader_state \<Rightarrow>
   (int \<times> (u64 \<times> u64 \<times> int) option, ('c, 'h, 'g, 'k, 'x) loader_state) outcome" where
  "gh_vm_ioctl_get_mem_region env p idx s =
     (if \<not> le_from env then Done (- EFAULT, None) s
      else ld_with_vm p s (\<lambda>vm.
        case get_sec_vm_dev_by_name (vm_fw_name vm) s of
          None \<Rightarrow> Done (- EINVAL, None) s
        | Some q \<Rightarrow>
            (case ld_devs s q of
               None \<Rightarrow> Fault
             | Some d \<Rightarrow>
                 (case nth_opt (sv_fw_mem_regions d) (unat idx) of
                    None \<Rightarrow> Done (- EINVAL, None) s
                  | Some r \<Rightarrow>
                      if le_fd env < 0 \<or> \<not> le_getfile env then Done (- EFAULT, None) s
                      else let s = s\<lparr>ld_files := (ld_files s)(le_fd env \<mapsto> (q, unat idx))\<rparr> in
                        Done (if le_to env then (0, Some (fm_phys r, fm_size r, le_fd env)) else (- EFAULT, None)) s))))"

section \<open>Files of memory regions\<close>

text \<open>The file refers to the region of the device without holding the device. \<open>remap\<close> is what
  \<^verbatim>\<open>io_remap_pfn_range\<close> returns.\<close>

definition file_region :: "int \<Rightarrow> ('c, 'h, 'g, 'k, 'x) loader_state \<Rightarrow> (gh_sec_vm_fw_mem, ('c, 'h, 'g, 'k, 'x) loader_state) outcome" where
  "file_region fd s =
     (case ld_files s fd of
        None \<Rightarrow> Fault
      | Some (q, i) \<Rightarrow>
          (case ld_devs s q of
             None \<Rightarrow> Fault
           | Some d \<Rightarrow> (case nth_opt (sv_fw_mem_regions d) i of None \<Rightarrow> Fault | Some r \<Rightarrow> Done r s)))"

definition gh_vm_mem_mmap :: "int \<Rightarrow> u64 \<Rightarrow> int \<Rightarrow> ('c, 'h, 'g, 'k, 'x) loader_state \<Rightarrow> (int, ('c, 'h, 'g, 'k, 'x) loader_state) outcome" where
  "gh_vm_mem_mmap fd mmap_size remap s =
     obind (file_region fd s) (\<lambda>r. Done (if mmap_size \<noteq> fm_size r then - EINVAL else if remap \<noteq> 0 then - EAGAIN else 0))"

text \<open>The result and the new position, for a region of \<open>sz\<close> bytes; \<^verbatim>\<open>loff_t\<close> and \<^verbatim>\<open>ssize_t\<close> are signed 64-bit integers.\<close>

definition gh_vm_mem_llseek :: "int \<Rightarrow> nat \<Rightarrow> int \<Rightarrow> int \<Rightarrow> int \<times> int" where
  "gh_vm_mem_llseek sz whence offset f_pos =
     (let wrap = (\<lambda>x. sint (word_of_int x :: u64)) in
      if sz = 0 \<or> 2 < whence then (- EINVAL, f_pos)
      else let new_pos = (if whence = 1 then wrap (f_pos + offset) else if whence = 2 then wrap (sz + offset) else offset) in
        if new_pos < 0 \<or> sz < new_pos then (- EINVAL, f_pos) else (new_pos, new_pos))"

section \<open>Taking the memory back\<close>

text \<open>The results for the shared regions are overwritten by the one for the memory of the VM.\<close>

definition gh_secure_vm_loader_reclaim_fw ::
  "('c, 'h, 'g, 'k) loader_env \<Rightarrow> ptr \<Rightarrow> ('c, 'h, 'g, 'k, 'x) loader_state \<Rightarrow> (int, ('c, 'h, 'g, 'k, 'x) loader_state) outcome" where
  "gh_secure_vm_loader_reclaim_fw env p s =
     ld_with_vm p s (\<lambda>vm.
       case get_sec_vm_dev_by_name (vm_fw_name vm) s of
         None \<Rightarrow> Done (- EINVAL) s
       | Some q \<Rightarrow>
           (case ld_devs s q of
              None \<Rightarrow> Fault
            | Some d \<Rightarrow>
                let rs = sv_fw_mem_regions d; junk = me_junk (le_main env); call = re_call (me_rs (le_main env)); scm = le_scm env in
                obind (ld_rm (\<lambda>c. Done () (fold (\<lambda>sh c. snd (gh_reclaim_shmem junk call (le_kz env) scm vm sh c)) (sv_sh_mem_regions d) c)) s) (\<lambda>_ s.
                  if rs \<noteq> [] \<and> \<not> le_kz env then Fault
                  else obind (ld_rm (\<lambda>c. case gh_reclaim_mem junk call scm vm (mem_parcels rs) (sv_system_vm d) c of (ret, c) \<Rightarrow> Done ret c) s) (\<lambda>ret s.
                    if ret \<noteq> 0 then Done ret s
                    else obind (free_regions False rs s) (\<lambda>_ s.
                      Done 0 (if \<forall>r\<in>set rs. fm_is_static r then s\<lparr>ld_log := ld_log s @ [Collect_Ramdump q]\<rparr> else s))))))"

section \<open>Probing\<close>

text \<open>
  The device tree: \<open>Cma\<close> is a region without \<^verbatim>\<open>no-map\<close>, with the results of
  \<^verbatim>\<open>of_reserved_mem_device_init_by_idx\<close> and \<^verbatim>\<open>of_reserved_mem_lookup\<close>; \<open>No_Map\<close> one with it, with the results of
  \<^verbatim>\<open>of_address_to_resource\<close> and \<^verbatim>\<open>memremap\<close> (the bytes at that address).
\<close>

datatype region_node = Cma int "u64 option" | No_Map "int + u64 \<times> u64" "(u64 \<times> u8 list) option"

text \<open>A list of VMs: the number of elements, the results for the numbers and for the permissions.\<close>

type_synonym vmids_node = "int \<times> (int + u32 list) \<times> (int + u32 list)"

record shared_node =
  sn_dst :: "vmids_node option"
  sn_src :: "vmids_node option"
  sn_label :: "int + u32"
  sn_is_shared :: bool
  sn_res :: "int + u64 \<times> u64"

record loader_node =
  ln_pas_id :: "int + u32"
  ln_no_shutdown :: bool
  ln_vmid :: "int + u32"
  ln_mem_count :: int
  ln_dma_mask :: int
  ln_region :: "nat \<Rightarrow> region_node option"
  ln_shared :: "(int \<times> (nat \<Rightarrow> shared_node option)) option"
  ln_fw_name :: "int + string"
  ln_fw_index :: "int + u32"
  ln_virtio :: "vb_node option list"

text \<open>A region that cannot be set up leaves the mappings of the regions before it.\<close>

fun probe_regions ::
  "region_node option list \<Rightarrow> ('c, 'h, 'g, 'k, 'x) loader_state \<Rightarrow> (int + gh_sec_vm_fw_mem list) \<times> ('c, 'h, 'g, 'k, 'x) loader_state" where
  "probe_regions [] s = (Inr [], s)"
| "probe_regions (n # ns) s =
     (let more = (\<lambda>r s. case probe_regions ns s of (Inl e, s) \<Rightarrow> (Inl e, s) | (Inr rs, s) \<Rightarrow> (Inr (r # rs), s)) in
      case n of
        None \<Rightarrow> (Inl (- EINVAL), s)
      | Some (Cma ret rmem) \<Rightarrow>
          if ret \<noteq> 0 then (Inl ret, s)
          else (case rmem of
            None \<Rightarrow> (Inl (- EINVAL), s)
          | Some sz \<Rightarrow> more \<lparr>fm_phys = 0, fm_virt = 0, fm_size = sz, fm_is_static = False\<rparr> s)
      | Some (No_Map res virt) \<Rightarrow>
          (case res of
             Inl e \<Rightarrow> (Inl e, s)
           | Inr (phys, sz) \<Rightarrow>
               (case virt of
                  None \<Rightarrow> (Inl (- ENOMEM), s)
                | Some (v, b) \<Rightarrow> more \<lparr>fm_phys = phys, fm_virt = v, fm_size = sz, fm_is_static = True\<rparr> (ld_map v b s))))"

text \<open>A negative count is a huge unsigned one, for which \<^verbatim>\<open>devm_kcalloc\<close> fails.\<close>

definition gh_vm_loader_mem_probe ::
  "bool \<Rightarrow> loader_node \<Rightarrow> ('c, 'h, 'g, 'k, 'x) loader_state \<Rightarrow> (int + gh_sec_vm_fw_mem list) \<times> ('c, 'h, 'g, 'k, 'x) loader_state" where
  "gh_vm_loader_mem_probe kz n s =
     (if ln_mem_count n = 0 then (Inl (- EINVAL), s)
      else if \<not> kz \<or> ln_mem_count n < 0 then (Inl (- ENOMEM), s)
      else if ln_dma_mask n \<noteq> 0 then (Inl (ln_dma_mask n), s)
      else probe_regions (map (ln_region n) [0..<nat (ln_mem_count n)]) s)"

abbreviation (input) GH_MAX_VMIDS :: int where "GH_MAX_VMIDS \<equiv> 16"

definition probe_vmids :: "vmids_node option \<Rightarrow> int + (u32 \<times> u32) list" where
  "probe_vmids v =
     (case v of
        None \<Rightarrow> Inr []
      | Some (count, vmids, perms) \<Rightarrow>
          if count = 0 \<or> GH_MAX_VMIDS < count then Inl (- EINVAL)
          else (case vmids of Inl e \<Rightarrow> Inl e | Inr vs \<Rightarrow> (case perms of Inl e \<Rightarrow> Inl e | Inr ps \<Rightarrow> Inr (zip vs ps))))"

definition probe_shared :: "shared_node \<Rightarrow> int + gh_shmem" where
  "probe_shared n =
     (case probe_vmids (sn_dst n) of
        Inl e \<Rightarrow> Inl e
      | Inr dst \<Rightarrow>
          (case probe_vmids (sn_src n) of
             Inl e \<Rightarrow> Inl e
           | Inr src \<Rightarrow>
               (case sn_label n of
                  Inl e \<Rightarrow> Inl e
                | Inr label \<Rightarrow>
                    (case sn_res n of
                       Inl e \<Rightarrow> Inl e
                     | Inr (base, sz) \<Rightarrow>
                         Inr \<lparr>sh_base = base, sh_size = sz, sh_src = src, sh_dst = dst, sh_gunyah_label = label,
                              sh_is_shared = sn_is_shared n, sh_shmem_handle = 0\<rparr>))))"

fun probe_shareds :: "shared_node option list \<Rightarrow> int + gh_shmem list" where
  "probe_shareds [] = Inr []"
| "probe_shareds (n # ns) =
     (case n of
        None \<Rightarrow> Inl (- EINVAL)
      | Some n \<Rightarrow>
          (case probe_shared n of
             Inl e \<Rightarrow> Inl e
           | Inr sh \<Rightarrow> (case probe_shareds ns of Inl e \<Rightarrow> Inl e | Inr shs \<Rightarrow> Inr (sh # shs))))"

definition gh_vm_shared_mem_probe :: "bool \<Rightarrow> loader_node \<Rightarrow> int + gh_shmem list" where
  "gh_vm_shared_mem_probe kz n =
     (case ln_shared n of
        None \<Rightarrow> Inr []
      | Some (count, node) \<Rightarrow>
          if count = 0 then Inl (- EINVAL)
          else if \<not> kz \<or> count < 0 then Inl (- ENOMEM)
          else probe_shareds (map node [0..<nat count]))"

text \<open>The checks that follow the memory: the name, the index and the virtio devices.\<close>

definition probe_checks ::
  "bool \<Rightarrow> loader_node \<Rightarrow> gh_sec_vm_fw_mem list \<Rightarrow> ('c, 'h, 'g, 'k, 'x) loader_state \<Rightarrow>
   (int + string \<times> u32, ('c, 'h, 'g, 'k, 'x) loader_state) outcome" where
  "probe_checks kz n rs s =
     (case ln_fw_name n of
        Inl e \<Rightarrow> Done (Inl e) s
      | Inr nm \<Rightarrow>
          (case ln_fw_index n of
             Inl e \<Rightarrow> Done (Inl e) s
           | Inr i \<Rightarrow>
               if length rs \<le> unat i then Done (Inl (- EINVAL)) s
               else if get_gh_vm_name nm = GH_VM_MAX then Done (Inl (- EINVAL)) s
               else if get_sec_vm_dev_by_name nm s \<noteq> None then Done (Inl (- EINVAL)) s
               else (case gh_parse_virtio_properties kz (ln_virtio n) nm (ld_virtio s) of
                 Done ret v \<Rightarrow> Done (if ret \<noteq> 0 then Inl ret else Inr (nm, i)) (s\<lparr>ld_virtio := v\<rparr>)
               | Blocked v \<Rightarrow> Blocked (s\<lparr>ld_virtio := v\<rparr>)
               | Fault \<Rightarrow> Fault)))"

definition gh_secure_vm_loader_probe ::
  "bool \<Rightarrow> loader_node \<Rightarrow> ('c, 'h, 'g, 'k, 'x) loader_state \<Rightarrow> (int, ('c, 'h, 'g, 'k, 'x) loader_state) outcome" where
  "gh_secure_vm_loader_probe kz n s =
     (if \<not> kz then Done (- ENOMEM) s
      else case ln_pas_id n of
        Inl e \<Rightarrow> Done e s
      | Inr pas_id \<Rightarrow>
          (case ln_vmid n of
             Inl e \<Rightarrow> Done e s
           | Inr vmid \<Rightarrow>
               (case gh_vm_loader_mem_probe kz n s of
                  (Inl e, s) \<Rightarrow> Done e s
                | (Inr rs, s) \<Rightarrow>
                    (case gh_vm_shared_mem_probe kz n of
                       Inl e \<Rightarrow> Done e s
                     | Inr shs \<Rightarrow>
                         obind (probe_checks kz n rs s) (\<lambda>r s.
                           case r of
                             Inl e \<Rightarrow> obind (free_regions True rs s) (\<lambda>_. Done e)
                           | Inr (nm, i) \<Rightarrow>
                               let q = ld_next s;
                                   d = \<lparr>sv_vm_name = nm, sv_system_vm = ln_no_shutdown n, sv_fw_mem_regions = rs, sv_pas_id = pas_id,
                                        sv_vmid = vmid, sv_fw_index = i, sv_sh_mem_regions = shs\<rparr> in
                               Done 0 (ld_set_dev q d (s\<lparr>ld_list := q # ld_list s, ld_next := q + 1\<rparr>)))))))"

text \<open>The device's memory is freed when it is gone; files of its regions still refer to it.\<close>

definition gh_secure_vm_loader_remove :: "ptr \<Rightarrow> ('c, 'h, 'g, 'k, 'x) loader_state \<Rightarrow> (int, ('c, 'h, 'g, 'k, 'x) loader_state) outcome" where
  "gh_secure_vm_loader_remove q s =
     (case ld_devs s q of
        None \<Rightarrow> Fault
      | Some d \<Rightarrow>
          obind (free_regions True (sv_fw_mem_regions d) (s\<lparr>ld_list := remove1 q (ld_list s)\<rparr>)) (\<lambda>_ s.
            case gh_virtio_backend_remove (sv_vm_name d) (ld_virtio s) of
              (ret, v) \<Rightarrow> Done ret (s\<lparr>ld_virtio := v, ld_devs := (ld_devs s)(q := None)\<rparr>)))"

end
