(* ===== verification/Sec_Loader_Correct.thy ===== *)
theory Sec_Loader_Correct
  imports Sec_Loader Vm_Main_Correct Virtio_Share
begin

text \<open>
  Properties of the loader of secure VMs: where the metadata of an image is placed, seeking in a
  memory region, the list of devices, taking the memory back, and what happens when a load fails.
\<close>

section \<open>Metadata\<close>

lemma unat_u64_u32: "unat (ucast (x :: u32) :: u64) = unat x"
proof -
  have "unat x < 2 ^ 64" using unsigned_less [of x, where ?'a = nat] by simp
  then show ?thesis by (simp add: unsigned_ucast_eq take_bit_nat_eq_self)
qed

definition seg_end :: "elf32_phdr \<Rightarrow> nat" where
  "seg_end ph = unat (p_paddr ph) + unat (p_memsz ph)"

text \<open>The segments of an image lie below 4 GB, one after the other: a higher address means no lower end.\<close>

definition image_ordered :: "elf32_phdr list \<Rightarrow> bool" where
  "image_ordered phs \<longleftrightarrow> (\<exists>ph\<in>set phs. 0 < p_paddr ph) \<and> (\<forall>ph\<in>set phs. seg_end ph < 2 ^ 32) \<and>
     (\<forall>a\<in>set phs. \<forall>b\<in>set phs. p_paddr a \<le> p_paddr b \<longrightarrow> seg_end a \<le> seg_end b)"

lemma image_extent_max:
  assumes "image_extent phs im = Some im'"
  shows "im_max_paddr im \<le> im_max_paddr im' \<and> (\<forall>ph\<in>set phs. p_paddr ph \<le> im_max_paddr im') \<and>
    (im_max_paddr im' = im_max_paddr im \<and> im_end im' = im_end im \<or>
     (\<exists>ph\<in>set phs. p_paddr ph = im_max_paddr im' \<and> im_end im' = ucast (p_paddr ph + p_memsz ph)))"
  using assms
proof (induction phs arbitrary: im)
  case (Cons ph phs)
  let ?im = "im\<lparr>im_relocatable := (im_relocatable im \<or> p_flags ph AND QCOM_MDT_RELOCATABLE \<noteq> 0)\<rparr>"
  let ?up = "if im_max_paddr ?im < p_paddr ph then ?im\<lparr>im_end := ucast (p_paddr ph + p_memsz ph), im_max_paddr := p_paddr ph\<rparr> else ?im"
  have "image_extent phs (?up\<lparr>im_size := im_size ?up + ucast (p_memsz ph)\<rparr>) = Some im'"
    using Cons.prems by (simp add: Let_def split: if_splits)
  from Cons.IH [OF this] show ?case by (auto split: if_splits)
qed simp

lemma image_extent_total: "\<exists>im'. image_extent phs im = Some im'"
proof (induction phs arbitrary: im)
  case (Cons ph phs)
  have "\<not> U64_MAX - ucast (p_paddr ph) < ucast (p_memsz ph)"
  proof -
    have "unat (ucast (p_paddr ph) :: u64) = unat (p_paddr ph)" "unat (ucast (p_memsz ph) :: u64) = unat (p_memsz ph)"
      by (simp_all add: unat_u64_u32)
    moreover have "unat (p_paddr ph) < 2 ^ 32" "unat (p_memsz ph) < 2 ^ 32" using unsigned_less [of "p_paddr ph", where ?'a = nat] unsigned_less [of "p_memsz ph", where ?'a = nat] by simp_all
    moreover have "unat (U64_MAX - ucast (p_paddr ph)) = unat U64_MAX - unat (ucast (p_paddr ph) :: u64)"
      using calculation by (intro unat_sub) (simp add: word_le_nat_alt)
    ultimately show ?thesis by (simp add: word_less_nat_alt)
  qed
  then show ?case using Cons.IH by (simp add: Let_def)
qed simp

lemma image_extent_covers:
  assumes "image_extent phs im = Some im'" "image_ordered phs" "im_max_paddr im = 0" "ph \<in> set phs"
  shows "seg_end ph \<le> unat (im_end im')"
proof -
  have "im_max_paddr im' \<noteq> 0"
  proof -
    obtain x where x: "x \<in> set phs" "0 < p_paddr x" using assms(2) by (auto simp: image_ordered_def)
    then have "p_paddr x \<le> im_max_paddr im'" using image_extent_max [OF assms(1)] by blast
    then show ?thesis using x(2) by (auto simp: word_less_nat_alt word_le_nat_alt)
  qed
  then obtain m where m: "m \<in> set phs" "p_paddr m = im_max_paddr im'" "im_end im' = ucast (p_paddr m + p_memsz m)"
    using image_extent_max [OF assms(1)] assms(3) by auto
  have "p_paddr ph \<le> p_paddr m" using image_extent_max [OF assms(1)] m(2) assms(4) by auto
  then have "seg_end ph \<le> seg_end m" using assms(2,4) m(1) by (auto simp: image_ordered_def)
  moreover have "unat (im_end im') = seg_end m"
  proof -
    have "seg_end m < 2 ^ 32" using assms(2) m(1) by (auto simp: image_ordered_def)
    then have "unat (p_paddr m + p_memsz m) = seg_end m" unfolding seg_end_def by (intro unat_add_lem [THEN iffD1]) simp
    then show ?thesis unfolding m(3) by (simp add: unat_u64_u32)
  qed
  ultimately show ?thesis by simp
qed

lemma image_extent_relocatable:
  "image_extent phs im = Some im' \<Longrightarrow>
     im_relocatable im' \<longleftrightarrow> im_relocatable im \<or> (\<exists>ph\<in>set phs. p_flags ph AND QCOM_MDT_RELOCATABLE \<noteq> 0)"
  by (induction phs arbitrary: im) (auto simp: Let_def split: if_splits)

lemma word_room:
  fixes a b c :: u64
  assumes "\<not> U64_MAX - b < a" "\<not> c < a + b"
  shows "unat (c - b) = unat c - unat b" "unat b \<le> unat c"
proof -
  have le: "b \<le> U64_MAX" using unsigned_less [of b, where ?'a = nat] by (simp add: word_le_nat_alt)
  have "unat (U64_MAX - b) = unat U64_MAX - unat b" using le by (rule unat_sub)
  then have "unat a + unat b < 2 ^ 64" using assms(1) le by (simp add: word_less_nat_alt word_le_nat_alt)
  then have "unat (a + b) = unat a + unat b" by (intro unat_add_lem [THEN iffD1]) simp
  then show "unat b \<le> unat c" using assms(2) by (simp add: word_less_nat_alt)
  then show "unat (c - b) = unat c - unat b" by (intro unat_sub) (simp add: word_le_nat_alt)
qed

lemma word_sum_fits:
  fixes a b :: u64
  assumes "\<not> U64_MAX - b < a"
  shows "unat (a + b) = unat a + unat b"
proof -
  have le: "b \<le> U64_MAX" using unsigned_less [of b, where ?'a = nat] by (simp add: word_le_nat_alt)
  have "unat (U64_MAX - b) = unat U64_MAX - unat b" using le by (rule unat_sub)
  then have "unat a + unat b < 2 ^ 64" using assms le by (simp add: word_less_nat_alt word_le_nat_alt)
  then show ?thesis by (intro unat_add_lem [THEN iffD1]) simp
qed

text \<open>C18: Placing the metadata of an image is memory safe and does not overwrite the image. For an
  image whose program headers are inside its metadata, \<^verbatim>\<open>gh_sec_load_metadata\<close> always returns; either it
  refuses and leaves the memory of the region alone (unless the metadata fills the region), or it writes exactly the bytes of the metadata
  at the returned offset, inside the region, and, when the segments lie below 4 GB in order, behind
  the end of every segment.\<close>

theorem gh_sec_load_metadata_placed:
  assumes "phdrs mdata = Some phs" "length mem = unat (fm_size r)" "length mdata < 2 ^ 64"
  shows "\<exists>off mem'. gh_sec_load_metadata junk r mdata mem = Done off mem' \<and> (off = 0 \<longrightarrow> mem' = mem \<or> PAGE_ROUND_UP (of_nat (length mdata)) = fm_size r) \<and>
    (off \<noteq> 0 \<longrightarrow> unat off + length mdata \<le> length mem \<and>
       mem' = take (unat off) mem @ mdata @ drop (unat off + length mdata) mem \<and>
       (image_ordered phs \<longrightarrow> (\<forall>ph\<in>set phs.
          seg_end ph \<le> unat (if \<exists>ph\<in>set phs. p_flags ph AND QCOM_MDT_RELOCATABLE \<noteq> 0 then 0 else fm_phys r) + unat off)))"
proof -
  let ?act = "of_nat (length mdata) :: u64"
  let ?sz = "PAGE_ROUND_UP ?act" and ?off = "fm_size r - PAGE_ROUND_UP ?act"
  have act: "unat ?act = length mdata" using assms(3) by (simp add: unat_of_nat)
  obtain im where im: "image_extent phs \<lparr>im_relocatable = False, im_max_paddr = 0, im_end = junk, im_size = 0\<rparr> = Some im"
    using image_extent_total by blast
  let ?start = "if im_relocatable im then 0 else fm_phys r"
  show ?thesis
  proof (cases "?sz < ?act \<or> U64_MAX - ?sz < im_size im \<or> fm_size r < im_size im + ?sz \<or>
      fm_size r < ?off \<or> U64_MAX - ?off < ?start \<or> U64_MAX - ?off < fm_virt r \<or> \<not> im_end im \<le> ?start + ?off")
    case True
    then have "gh_sec_load_metadata junk r mdata mem = Done 0 mem"
      using assms(1) im unfolding gh_sec_load_metadata_def by (auto simp: Let_def)
    then show ?thesis by simp
  next
    case False
    then have ok: "\<not> ?sz < ?act" "\<not> U64_MAX - ?sz < im_size im" "\<not> fm_size r < im_size im + ?sz" "\<not> U64_MAX - ?off < ?start"
      "im_end im \<le> ?start + ?off" by blast+
    have room: "unat ?off = unat (fm_size r) - unat ?sz" "unat ?sz \<le> unat (fm_size r)" using word_room [OF ok(2,3)] by blast+
    have "length mdata \<le> unat ?sz" using ok(1) act by (simp add: word_less_nat_alt)
    then have fits: "unat ?off + length mdata \<le> length mem" using room assms(2) by linarith
    then have "gh_sec_load_metadata junk r mdata mem = Done ?off (take (unat ?off) mem @ mdata @ drop (unat ?off + length mdata) mem)"
      using False assms(1) im unfolding gh_sec_load_metadata_def by (simp add: Let_def mem_write_def)
    moreover have "seg_end ph \<le> unat ?start + unat ?off" if "image_ordered phs" "ph \<in> set phs" for ph
      using image_extent_covers [OF im that(1) _ that(2)] ok(5) word_sum_fits [OF ok(4)] by (simp add: word_le_nat_alt)
    moreover have "im_relocatable im \<longleftrightarrow> (\<exists>ph\<in>set phs. p_flags ph AND QCOM_MDT_RELOCATABLE \<noteq> 0)" using image_extent_relocatable [OF im] by simp
    ultimately show ?thesis using fits by auto
  qed
qed

definition demo_metadata :: "u8 list" where
  "demo_metadata = replicate 44 0 @ [1, 0] @ replicate 18 0 @ [0, 0x10, 0, 0, 0, 0, 0, 0, 0, 1, 0, 0, 0, 0, 0, 0, 0, 0, 0, 0]"

theorem gh_sec_load_metadata_placed_witness:
  "\<exists>off mem'. gh_sec_load_metadata 0 \<lparr>fm_phys = 0, fm_virt = 0x10000, fm_size = 0x3000, fm_is_static = True\<rparr> demo_metadata (replicate 0x3000 0) = Done off mem' \<and>
     (off \<noteq> 0 \<longrightarrow> unat off + 84 \<le> 0x3000)"
proof -
  let ?r = "\<lparr>fm_phys = 0, fm_virt = 0x10000, fm_size = 0x3000, fm_is_static = True\<rparr>"
  have len: "length demo_metadata = 84" "e_phnum demo_metadata = 1" by (simp_all add: demo_metadata_def e_phnum_def)
  then have "phdrs demo_metadata = Some [phdr_at demo_metadata 0]" by (simp add: phdrs_def)
  then show ?thesis using gh_sec_load_metadata_placed [of demo_metadata _ "replicate 0x3000 0" ?r 0] len by force
qed

section \<open>Seeking\<close>

lemma sint_wrap:
  assumes "- (2 ^ 63) \<le> x" "x < 2 ^ 64"
  shows "sint (word_of_int x :: u64) = (if x < 2 ^ 63 then x else x - 2 ^ 64)"
proof -
  have "sint (word_of_int x :: u64) = take_bit 64 (x + 2 ^ 63) - 2 ^ 63"
    by (simp add: signed_of_int signed_take_bit_eq_take_bit_shift)
  also have "\<dots> = (x + 2 ^ 63) mod 2 ^ 64 - 2 ^ 63" by (simp add: take_bit_eq_mod)
  also have "(x + 2 ^ 63) mod 2 ^ 64 = (if x < 2 ^ 63 then x + 2 ^ 63 else x + 2 ^ 63 - 2 ^ 64)"
  proof (cases "x < 2 ^ 63")
    case False
    then have "(x + 2 ^ 63) mod 2 ^ 64 = (x + 2 ^ 63 - 2 ^ 64) mod 2 ^ 64" by (metis minus_mod_self2)
    then show ?thesis using assms False by simp
  qed (use assms in simp)
  finally show ?thesis by simp
qed

text \<open>Seeking in the file of a memory region follows the mathematical position although it is
  computed with signed 64-bit integers: the request is accepted exactly when the position relative
  to the start, the current position or the end lies inside the region (its end included), and a
  refused request leaves the position as it was.\<close>

theorem gh_vm_mem_llseek_spec:
  assumes "0 \<le> pos" "pos \<le> sz" "sz < 2 ^ 63" "- (2 ^ 63) \<le> off" "off < 2 ^ 63"
  shows "gh_vm_mem_llseek sz whence off pos =
    (let target = (case whence of 0 \<Rightarrow> off | Suc 0 \<Rightarrow> pos + off | _ \<Rightarrow> sz + off) in
     if 0 < sz \<and> whence \<le> 2 \<and> 0 \<le> target \<and> target \<le> sz then (target, target) else (- EINVAL, pos))"
proof -
  consider "whence = 0" | "whence = 1" | "whence = 2" | "2 < whence" by linarith
  then show ?thesis
  proof cases
    case 2
    then show ?thesis using assms sint_wrap [of "pos + off"] by (auto simp: gh_vm_mem_llseek_def Let_def)
  next
    case 3
    then show ?thesis using assms sint_wrap [of "sz + off"] by (auto simp: gh_vm_mem_llseek_def Let_def)
  qed (use assms in \<open>auto simp: gh_vm_mem_llseek_def Let_def\<close>)
qed

theorem gh_vm_mem_llseek_spec_witness:
  "gh_vm_mem_llseek 0x1000 1 (-4) 8 = (4, 4) \<and> gh_vm_mem_llseek 0x1000 2 1 8 = (- EINVAL, 8) \<and>
   gh_vm_mem_llseek 0x7FFFFFFFFFFFFFFF 2 0x7FFFFFFFFFFFFFFF 8 = (- EINVAL, 8)"
  using gh_vm_mem_llseek_spec [of 8 "0x1000" "-4" 1] gh_vm_mem_llseek_spec [of 8 "0x1000" 1 2]
    gh_vm_mem_llseek_spec [of 8 "0x7FFFFFFFFFFFFFFF" "0x7FFFFFFFFFFFFFFF" 2]
  by (simp add: Let_def numeral_2_eq_2)

section \<open>The list of devices\<close>

text \<open>What of a device never changes, and the part of the state that only probing and removing change.\<close>

definition shape :: "gh_sec_vm_dev \<Rightarrow> string \<times> u32 \<times> nat" where
  "shape d = (sv_vm_name d, sv_fw_index d, length (sv_fw_mem_regions d))"

definition ld_shape :: "('c, 'h, 'g, 'k, 'x) loader_state \<Rightarrow> ptr list \<times> ptr \<times> (ptr \<Rightarrow> (string \<times> u32 \<times> nat) option)" where
  "ld_shape s = (ld_list s, ld_next s, \<lambda>q. map_option shape (ld_devs s q))"

definition ld_keeps :: "('c, 'h, 'g, 'k, 'x) loader_state \<Rightarrow> ('a, ('c, 'h, 'g, 'k, 'x) loader_state) outcome \<Rightarrow> bool" where
  "ld_keeps s m \<longleftrightarrow> (\<forall>a t. m = Done a t \<longrightarrow> ld_shape t = ld_shape s)"

lemma ld_keeps_simps [simp]: "ld_keeps s (Done a t) \<longleftrightarrow> ld_shape t = ld_shape s" "ld_keeps s (Blocked t)" "ld_keeps s Fault"
  by (simp_all add: ld_keeps_def)

lemma ld_keeps_obind:
  assumes "ld_keeps s m" "\<And>a t. m = Done a t \<Longrightarrow> ld_shape t = ld_shape s \<Longrightarrow> ld_keeps s (f a t)"
  shows "ld_keeps s (obind m f)"
  using assms by (cases m) auto

lemma ld_shape_simps [simp]:
  "ld_shape (s\<lparr>ld_main := m\<rparr>) = ld_shape s" "ld_shape (ld_upd_vm p f s) = ld_shape s" "ld_shape (ld_map v b s) = ld_shape s"
  "ld_shape (s\<lparr>ld_log := l\<rparr>) = ld_shape s" "ld_shape (s\<lparr>ld_files := fs\<rparr>) = ld_shape s" "ld_shape (s\<lparr>ld_maps := ms\<rparr>) = ld_shape s"
  "ld_shape (s\<lparr>ld_virtio := vb\<rparr>) = ld_shape s"
  by (simp_all add: ld_shape_def ld_upd_vm_def ld_map_def)

lemma ld_shape_set_dev: "ld_devs s q = Some d \<Longrightarrow> shape d' = shape d \<Longrightarrow> ld_shape (ld_set_dev q d' s) = ld_shape s"
  by (auto simp: ld_shape_def ld_set_dev_def fun_eq_iff)

lemma ld_shape_dev:
  assumes "ld_shape t = ld_shape s" "ld_devs s q = Some d"
  shows "\<exists>d'. ld_devs t q = Some d' \<and> shape d' = shape d"
proof -
  have "snd (snd (ld_shape t)) q = snd (snd (ld_shape s)) q" using assms(1) by simp
  then show ?thesis using assms(2) by (simp add: ld_shape_def)
qed

lemma ld_rm_keeps: "ld_keeps s (ld_rm f s)"
  by (cases "f (rs_rm (mn_res (ld_main s)))") (simp_all add: ld_rm_def)

lemma ld_with_vm_keeps: "(\<And>vm. ld_keeps s (f vm)) \<Longrightarrow> ld_keeps s (ld_with_vm p t f)"
  by (simp add: ld_with_vm_def with_vm_def split: option.splits)

lemma provide_shmems_keeps: "ld_keeps s (provide_shmems env vm shs ret s)"
proof (induction shs arbitrary: ret s)
  case (Cons sh shs)
  show ?case unfolding provide_shmems.simps
  proof (rule ld_keeps_obind [OF ld_rm_keeps], goal_cases)
    case (1 a t)
    have "ld_keeps t (provide_shmems env vm shs r t)" for r by (rule Cons)
    then show ?case using 1(2) by (auto simp: ld_keeps_def obind_Done_iff split: prod.splits)
  qed
qed simp

lemma ld_keeps_shift: "ld_shape t = ld_shape s \<Longrightarrow> ld_keeps t m \<Longrightarrow> ld_keeps s m"
  by (simp add: ld_keeps_def)

lemma free_regions_keeps: "ld_keeps s (free_regions b rs s)"
proof (induction rs arbitrary: s)
  case (Cons r rs)
  show ?case unfolding free_regions.simps
  proof (rule ld_keeps_obind)
    show "ld_keeps s (if fm_is_static r = b then ld_unmap (fm_virt r) s else Done () s)" by (simp add: ld_unmap_def)
  qed (rule ld_keeps_shift [OF _ Cons])
qed simp

lemma alloc_regions_keeps: "alloc_regions env i rs s = ((ok, rs'), t) \<Longrightarrow> ld_shape t = ld_shape s \<and> length rs' = length rs \<and> ld_devs t = ld_devs s"
proof (induction rs arbitrary: i s rs')
  case (Cons r rs)
  then show ?case by (fastforce simp: ld_map_def [of _ _ s] ld_shape_def split: if_splits option.splits prod.splits)
qed simp

lemma sec_load_provide_keeps:
  assumes "ld_devs s q = Some d"
  shows "ld_keeps s (sec_load_provide env q d off n p s)"
  unfolding sec_load_provide_def
proof (rule ld_with_vm_keeps, goal_cases)
  case (1 vm)
  have dev: "ld_shape (ld_set_dev q (d\<lparr>sv_sh_mem_regions := shs\<rparr>) t) = ld_shape s" if t: "ld_shape t = ld_shape s" for t shs
  proof -
    obtain d' where "ld_devs t q = Some d'" "shape d' = shape d" using ld_shape_dev [OF t assms] by blast
    then show ?thesis using ld_shape_set_dev [of t q d' "d\<lparr>sv_sh_mem_regions := shs\<rparr>"] t by (simp add: shape_def)
  qed
  have conf: "ld_keeps t (map_outcome id (\<lambda>m. t\<lparr>ld_main := m\<rparr>) c)" for t c by (cases c) simp_all
  have shm: "ld_keeps s (obind (provide_shmems env vm shs r t) (\<lambda>(ret, shs) t. Done ret (ld_set_dev q (d\<lparr>sv_sh_mem_regions := shs\<rparr>) t)))"
    if t: "ld_shape t = ld_shape s" for vm shs r t
    by (rule ld_keeps_obind [OF ld_keeps_shift [OF t provide_shmems_keeps]]) (auto simp: dev split: prod.splits)
  show ?case
    by (auto intro!: ld_keeps_obind [OF ld_rm_keeps] ld_keeps_obind [OF ld_keeps_shift [OF _ conf]] ld_with_vm_keeps shm simp: Let_def split: prod.splits)
qed

lemma gh_vm_loader_sec_load_keeps: "ld_keeps s (gh_vm_loader_sec_load env q p s)"
proof -
  have prov: "ld_keeps s (sec_load_provide env q d off n p (ld_map v b s))" if "ld_devs s q = Some d" for d off n v b
    by (rule ld_keeps_shift [of "ld_map v b s"]) (use sec_load_provide_keeps [of "ld_map v b s" q d] that in \<open>simp_all add: ld_map_def [of v b s]\<close>)
  show ?thesis unfolding gh_vm_loader_sec_load_def by (simp add: Let_def prov split: option.split sum.split outcome.split prod.split)
qed

lemma gh_sec_vm_loader_load_fw_keeps: "ld_keeps s (gh_sec_vm_loader_load_fw env q p s)"
proof (cases "ld_devs s q")
  case (Some d)
  obtain ok rs t where a: "alloc_regions env 0 (sv_fw_mem_regions d) s = ((ok, rs), t)" by (metis prod.collapse)
  note k = alloc_regions_keeps [OF a]
  let ?d = "d\<lparr>sv_fw_mem_regions := rs\<rparr>" and ?res = "mn_res (ld_main t)"
  have t: "ld_shape (ld_set_dev q ?d t) = ld_shape s" using k Some ld_shape_set_dev [of t q d ?d] by (simp add: shape_def)
  have u: "ld_shape (ld_set_dev q (?d\<lparr>sv_vmid := v\<rparr>) (ld_set_dev q ?d t\<lparr>ld_main := m\<rparr>)) = ld_shape s" for v m
    using t ld_shape_set_dev [of "ld_set_dev q ?d t\<lparr>ld_main := m\<rparr>" q ?d "?d\<lparr>sv_vmid := v\<rparr>"] by (simp add: shape_def ld_set_dev_def [of q ?d])
  have main: "ld_main (ld_set_dev q ?d t) = ld_main t" by (simp add: ld_set_dev_def)
  show ?thesis
  proof (cases "gh_rm_vm_alloc_vmid (re_call (me_rs (le_main env))) (get_gh_vm_name (sv_vm_name d)) (sv_vmid d) (rs_tbl ?res, rs_rm ?res)")
    case (Done r st)
    obtain ret v tbl c where r: "r = (ret, v)" "st = (tbl, c)" by (cases r; cases st) blast
    let ?u = "ld_set_dev q (?d\<lparr>sv_vmid := v\<rparr>) (ld_set_dev q ?d t\<lparr>ld_main := (ld_main t)\<lparr>mn_res := ?res\<lparr>rs_tbl := tbl, rs_rm := c\<rparr>\<rparr>\<rparr>)"
    have "ld_keeps s (obind (free_regions False rs ?u) (\<lambda>_. Done ret))"
      by (rule ld_keeps_obind [OF ld_keeps_shift [OF u free_regions_keeps]]) simp
    moreover have "ld_keeps s (gh_vm_loader_sec_load env q p (ld_upd_vm p f ?u))" for f
      by (rule ld_keeps_shift [OF _ gh_vm_loader_sec_load_keeps]) (simp add: u)
    ultimately show ?thesis using Some a Done t unfolding gh_sec_vm_loader_load_fw_def r by (simp add: Let_def main)
  qed (use Some a t in \<open>simp_all add: gh_sec_vm_loader_load_fw_def Let_def main\<close>)
qed (simp add: gh_sec_vm_loader_load_fw_def)

lemma gh_vm_ioctl_set_fw_name_keeps: "ld_keeps s (gh_vm_ioctl_set_fw_name env p nm s)"
proof -
  have load: "ld_keeps s (gh_sec_vm_loader_load_fw env q p (s\<lparr>ld_log := l\<rparr>))" for q l
    by (rule ld_keeps_shift [OF _ gh_sec_vm_loader_load_fw_keeps]) simp
  show ?thesis unfolding gh_vm_ioctl_set_fw_name_def
    by (auto simp: Let_def intro!: ld_with_vm_keeps ld_keeps_obind [OF load] split: option.split)
qed

lemma gh_secure_vm_loader_reclaim_fw_keeps: "ld_keeps s (gh_secure_vm_loader_reclaim_fw env p s)"
proof -
  have free: "ld_keeps s (free_regions b rs t)" if "ld_shape t = ld_shape s" for b rs t by (rule ld_keeps_shift [OF that free_regions_keeps])
  show ?thesis unfolding gh_secure_vm_loader_reclaim_fw_def
    by (auto simp: Let_def intro!: ld_with_vm_keeps ld_keeps_obind [OF ld_rm_keeps] ld_keeps_obind [OF ld_keeps_shift [OF _ ld_rm_keeps]]
        ld_keeps_obind [OF free] split: option.split)
qed

lemma gh_vm_ioctl_get_mem_region_keeps: "ld_keeps s (gh_vm_ioctl_get_mem_region env p i s)"
  unfolding gh_vm_ioctl_get_mem_region_def by (auto simp: Let_def intro!: ld_with_vm_keeps split: option.split)

text \<open>Devices have different supported names and an index of an existing region; the list holds exactly the devices.\<close>

definition shape_wf :: "ptr list \<times> ptr \<times> (ptr \<Rightarrow> (string \<times> u32 \<times> nat) option) \<Rightarrow> bool" where
  "shape_wf = (\<lambda>(l, n, f). distinct l \<and> (\<forall>q. q \<in> set l \<longleftrightarrow> f q \<noteq> None) \<and> (\<forall>q\<in>set l. q < n) \<and>
     (\<forall>q nm i k. f q = Some (nm, i, k) \<longrightarrow> unat i < k \<and> get_gh_vm_name nm \<noteq> GH_VM_MAX) \<and>
     (\<forall>q q' nm i k i' k'. f q = Some (nm, i, k) \<longrightarrow> f q' = Some (nm, i', k') \<longrightarrow> q = q'))"

abbreviation ld_wf :: "('c, 'h, 'g, 'k, 'x) loader_state \<Rightarrow> bool" where
  "ld_wf s \<equiv> shape_wf (ld_shape s)"

lemma ld_wf_iff:
  "ld_wf s \<longleftrightarrow> distinct (ld_list s) \<and> (\<forall>q. q \<in> set (ld_list s) \<longleftrightarrow> ld_devs s q \<noteq> None) \<and> (\<forall>q\<in>set (ld_list s). q < ld_next s) \<and>
     (\<forall>q d. ld_devs s q = Some d \<longrightarrow> unat (sv_fw_index d) < length (sv_fw_mem_regions d) \<and> get_gh_vm_name (sv_vm_name d) \<noteq> GH_VM_MAX) \<and>
     (\<forall>q q' d d'. ld_devs s q = Some d \<longrightarrow> ld_devs s q' = Some d' \<longrightarrow> sv_vm_name d = sv_vm_name d' \<longrightarrow> q = q')"
proof -
  have none: "map_option shape (ld_devs s q) = None \<longleftrightarrow> ld_devs s q = None" for q by simp
  have some: "map_option shape (ld_devs s q) = Some (nm, i, k) \<longleftrightarrow>
      (\<exists>d. ld_devs s q = Some d \<and> nm = sv_vm_name d \<and> i = sv_fw_index d \<and> k = length (sv_fw_mem_regions d))" for q nm i k
    by (auto simp: shape_def)
  show ?thesis unfolding shape_wf_def ld_shape_def prod.case none some by (intro conj_cong refl iffI) blast+
qed

lemma ld_wf_lookup:
  assumes "ld_wf s"
  shows "get_sec_vm_dev_by_name nm s = Some q \<longleftrightarrow> (\<exists>d. ld_devs s q = Some d \<and> sv_vm_name d = nm)"
proof
  assume "get_sec_vm_dev_by_name nm s = Some q"
  then show "\<exists>d. ld_devs s q = Some d \<and> sv_vm_name d = nm"
    by (auto simp: get_sec_vm_dev_by_name_def find_Some_iff split: option.splits)
next
  assume "\<exists>d. ld_devs s q = Some d \<and> sv_vm_name d = nm"
  then obtain d where d: "ld_devs s q = Some d" "sv_vm_name d = nm" by blast
  then have "q \<in> set (ld_list s)" using assms by (auto simp: ld_wf_iff)
  then have "get_sec_vm_dev_by_name nm s \<noteq> None" using d by (auto simp: get_sec_vm_dev_by_name_def find_None_iff)
  then obtain q' where q': "get_sec_vm_dev_by_name nm s = Some q'" by blast
  then obtain d' where d': "ld_devs s q' = Some d'" "sv_vm_name d' = nm"
    by (auto simp: get_sec_vm_dev_by_name_def find_Some_iff split: option.splits)
  have "q = q'" using assms d d' unfolding ld_wf_iff by blast
  then show "get_sec_vm_dev_by_name nm s = Some q" using q' by simp
qed

lemma probe_regions_keeps: "probe_regions ns s = (r, t) \<Longrightarrow> ld_shape t = ld_shape s"
proof (induction ns arbitrary: s r)
  case (Cons n ns)
  show ?case using Cons.prems
    by (auto simp: Let_def dest!: Cons.IH split: option.splits region_node.splits sum.splits prod.splits if_splits)
qed simp

lemma gh_vm_loader_mem_probe_keeps: "gh_vm_loader_mem_probe kz n s = (r, t) \<Longrightarrow> ld_shape t = ld_shape s"
  by (auto simp: gh_vm_loader_mem_probe_def dest: probe_regions_keeps split: if_splits)

lemma probe_checks_shape:
  assumes "probe_checks kz n rs s = Done r t"
  shows "ld_shape t = ld_shape s \<and>
    (\<forall>nm i. r = Inr (nm, i) \<longrightarrow> ln_fw_name n = Inr nm \<and> unat i < length rs \<and> get_gh_vm_name nm \<noteq> GH_VM_MAX \<and> get_sec_vm_dev_by_name nm s = None)"
  using assms by (auto simp: probe_checks_def split: sum.splits if_splits outcome.splits)

text \<open>A probe leaves the devices alone, or adds one whose name was not there.\<close>

lemma probe_shape:
  assumes "gh_secure_vm_loader_probe kz n s = Done ret t"
  shows "ld_shape t = ld_shape s \<or>
    (ret = 0 \<and> (\<exists>u nm i k d. ln_fw_name n = Inr nm \<and> ld_shape u = ld_shape s \<and> get_sec_vm_dev_by_name nm u = None \<and> unat i < k \<and>
       get_gh_vm_name nm \<noteq> GH_VM_MAX \<and> shape d = (nm, i, k) \<and> t = ld_set_dev (ld_next u) d (u\<lparr>ld_list := ld_next u # ld_list u, ld_next := ld_next u + 1\<rparr>)))"
proof (cases "\<exists>pas vmid rs shs s1. kz \<and> ln_pas_id n = Inr pas \<and> ln_vmid n = Inr vmid \<and> gh_vm_loader_mem_probe kz n s = (Inr rs, s1) \<and>
    gh_vm_shared_mem_probe kz n = Inr shs")
  case False
  then show ?thesis using assms gh_vm_loader_mem_probe_keeps [of kz n s]
    by (auto simp: gh_secure_vm_loader_probe_def split: if_splits sum.splits prod.splits)
next
  case True
  then obtain pas vmid rs shs s1 where p: "kz" "ln_pas_id n = Inr pas" "ln_vmid n = Inr vmid" "gh_vm_loader_mem_probe kz n s = (Inr rs, s1)"
    "gh_vm_shared_mem_probe kz n = Inr shs" by blast
  obtain r u where r: "probe_checks kz n rs s1 = Done r u"
    using assms p unfolding gh_secure_vm_loader_probe_def by (auto simp: obind_Done_iff)
  have u: "ld_shape u = ld_shape s" using probe_checks_shape [OF r] gh_vm_loader_mem_probe_keeps [OF p(4)] by simp
  show ?thesis
  proof (cases r)
    case (Inl e)
    then show ?thesis using assms p r u free_regions_keeps [of u True rs] unfolding gh_secure_vm_loader_probe_def by (auto simp: obind_Done_iff ld_keeps_def)
  next
    case (Inr x)
    obtain nm i where x: "x = (nm, i)" by (cases x)
    let ?d = "\<lparr>sv_vm_name = nm, sv_system_vm = ln_no_shutdown n, sv_fw_mem_regions = rs, sv_pas_id = pas, sv_vmid = vmid, sv_fw_index = i, sv_sh_mem_regions = shs\<rparr>"
    have "get_sec_vm_dev_by_name nm u = get_sec_vm_dev_by_name nm s1"
      using r Inr x by (auto simp: probe_checks_def get_sec_vm_dev_by_name_def split: sum.splits if_splits outcome.splits)
    moreover have "t = ld_set_dev (ld_next u) ?d (u\<lparr>ld_list := ld_next u # ld_list u, ld_next := ld_next u + 1\<rparr>)" "ret = 0"
      using assms p r Inr x unfolding gh_secure_vm_loader_probe_def by (simp_all add: Let_def)
    moreover have "shape ?d = (nm, i, length rs)" by (simp add: shape_def)
    moreover have "ln_fw_name n = Inr nm" "unat i < length rs" "get_gh_vm_name nm \<noteq> GH_VM_MAX" "get_sec_vm_dev_by_name nm s1 = None"
      using probe_checks_shape [OF r] Inr x by simp_all
    ultimately show ?thesis using u
      by (intro disjI2 conjI exI [of _ u] exI [of _ nm] exI [of _ i] exI [of _ "length rs"] exI [of _ ?d]) simp_all
  qed
qed

lemma probe_wf:
  assumes "ld_wf s" "gh_secure_vm_loader_probe kz n s = Done ret t"
  shows "ld_wf t"
proof (cases "ld_shape t = ld_shape s")
  case False
  then obtain u nm i k d where u: "ld_shape u = ld_shape s" "get_sec_vm_dev_by_name nm u = None" "unat i < k" "get_gh_vm_name nm \<noteq> GH_VM_MAX"
    "shape d = (nm, i, k)" "t = ld_set_dev (ld_next u) d (u\<lparr>ld_list := ld_next u # ld_list u, ld_next := ld_next u + 1\<rparr>)"
    using probe_shape [OF assms(2)] by blast
  have wf: "ld_wf u" using assms(1) u(1) by simp
  then have new: "ld_devs u (ld_next u) = None" "ld_next u \<notin> set (ld_list u)" unfolding ld_wf_iff by (meson less_irrefl)+
  have names: "sv_vm_name e \<noteq> nm" if "ld_devs u q = Some e" for q e using ld_wf_lookup [OF wf, of nm q] that u(2) by auto
  have d: "sv_vm_name d = nm" "unat (sv_fw_index d) < length (sv_fw_mem_regions d)" using u(3,5) by (auto simp: shape_def)
  show ?thesis unfolding ld_wf_iff u(6) using wf new names d u(4)
    by (simp add: ld_wf_iff ld_set_dev_def) (metis less_Suc_eq)
qed (use assms in simp)

lemma remove_shape:
  assumes "gh_secure_vm_loader_remove q s = Done ret t"
  shows "ld_list t = remove1 q (ld_list s) \<and> ld_next t = ld_next s \<and> (\<forall>p. map_option shape (ld_devs t p) = (if p = q then None else map_option shape (ld_devs s p)))"
proof -
  obtain d u where d: "ld_devs s q = Some d" "free_regions True (sv_fw_mem_regions d) (s\<lparr>ld_list := remove1 q (ld_list s)\<rparr>) = Done () u"
    "ld_list t = ld_list u" "ld_next t = ld_next u" "ld_devs t = (ld_devs u)(q := None)"
    using assms by (auto simp: gh_secure_vm_loader_remove_def obind_Done_iff gh_virtio_backend_remove_def split: option.splits)
  have "ld_shape u = ld_shape (s\<lparr>ld_list := remove1 q (ld_list s)\<rparr>)" using free_regions_keeps [of "s\<lparr>ld_list := remove1 q (ld_list s)\<rparr>"] d(2) by (metis ld_keeps_def)
  then show ?thesis using d by (auto simp: ld_shape_def dest: fun_cong)
qed

lemma remove_wf:
  assumes "ld_wf s" "gh_secure_vm_loader_remove q s = Done ret t"
  shows "ld_wf t"
proof -
  have "ld_shape t = (remove1 q (ld_list s), ld_next s, (\<lambda>p. map_option shape (ld_devs s p))(q := None))"
    using remove_shape [OF assms(2)] by (auto simp: ld_shape_def fun_eq_iff)
  moreover have "shape_wf (l, n, f) \<Longrightarrow> shape_wf (remove1 q l, n, f(q := None))" for l n f
    by (auto simp: shape_wf_def)
  ultimately show ?thesis using assms(1) by (simp add: ld_shape_def [of s])
qed

inductive loader_reachable :: "('c, 'h, 'g, 'k, 'x) loader_state \<Rightarrow> bool" where
  start: "ld_list s = [] \<Longrightarrow> ld_devs s = (\<lambda>_. None) \<Longrightarrow> loader_reachable s"
| probe: "loader_reachable s \<Longrightarrow> gh_secure_vm_loader_probe kz n s = Done r t \<Longrightarrow> loader_reachable t"
| remove: "loader_reachable s \<Longrightarrow> gh_secure_vm_loader_remove q s = Done r t \<Longrightarrow> loader_reachable t"
| set_fw_name: "loader_reachable s \<Longrightarrow> gh_vm_ioctl_set_fw_name env p nm s = Done r t \<Longrightarrow> loader_reachable t"
| get_mem_region: "loader_reachable s \<Longrightarrow> gh_vm_ioctl_get_mem_region env p i s = Done r t \<Longrightarrow> loader_reachable t"
| reclaim: "loader_reachable s \<Longrightarrow> gh_secure_vm_loader_reclaim_fw env p s = Done r t \<Longrightarrow> loader_reachable t"
| elsewhere: "loader_reachable s \<Longrightarrow> loader_reachable (s\<lparr>ld_main := m, ld_virtio := v\<rparr>)"

lemma loader_reachable_wf: "loader_reachable s \<Longrightarrow> ld_wf s"
proof (induction rule: loader_reachable.induct)
  case (probe s kz n r t)
  then show ?case using probe_wf by blast
next
  case (remove s q r t)
  then show ?case using remove_wf by blast
next
  case (set_fw_name s env p nm r t)
  then show ?case using gh_vm_ioctl_set_fw_name_keeps [of s env p nm] by simp
next
  case (get_mem_region s env p i r t)
  then show ?case using gh_vm_ioctl_get_mem_region_keeps [of s env p i] by simp
next
  case (reclaim s env p r t)
  then show ?case using gh_secure_vm_loader_reclaim_fw_keeps [of s env p] by simp
qed (simp_all add: ld_wf_iff)

text \<open>C20: The loader's devices are well typed in every state that probing, removing, loading,
  reclaiming and the requests of user space can reach: a name belongs to at most one device and the
  lookup by name finds it, the name is one the Resource Manager knows, and the index of the
  firmware region names an existing region. A probe that adds a device makes it the one found
  under its name, which was free before; removing it makes the name free again.\<close>

theorem gh_secure_vm_loader_devices_typed:
  assumes "loader_reachable s"
  shows "(\<forall>nm q. get_sec_vm_dev_by_name nm s = Some q \<longleftrightarrow> (\<exists>d. ld_devs s q = Some d \<and> sv_vm_name d = nm)) \<and>
    (\<forall>q d. ld_devs s q = Some d \<longrightarrow> unat (sv_fw_index d) < length (sv_fw_mem_regions d) \<and> get_gh_vm_name (sv_vm_name d) < GH_VM_MAX) \<and>
    (\<forall>kz n t nm. gh_secure_vm_loader_probe kz n s = Done 0 t \<and> ln_fw_name n = Inr nm \<and> ld_list t \<noteq> ld_list s \<longrightarrow>
       get_sec_vm_dev_by_name nm s = None \<and>
       (\<exists>q. get_sec_vm_dev_by_name nm t = Some q \<and>
          (\<forall>r u. gh_secure_vm_loader_remove q t = Done r u \<longrightarrow> get_sec_vm_dev_by_name nm u = None \<and> ld_list u = ld_list s)))"
proof -
  note wf = loader_reachable_wf [OF assms]
  have known: "get_gh_vm_name nm < GH_VM_MAX \<longleftrightarrow> get_gh_vm_name nm \<noteq> GH_VM_MAX" for nm
    by (auto simp: get_gh_vm_name_def fw_name_to_vm_name_def)
  have "get_sec_vm_dev_by_name nm s = None \<and>
       (\<exists>q. get_sec_vm_dev_by_name nm t = Some q \<and>
          (\<forall>r u. gh_secure_vm_loader_remove q t = Done r u \<longrightarrow> get_sec_vm_dev_by_name nm u = None \<and> ld_list u = ld_list s))"
    if p: "gh_secure_vm_loader_probe kz n s = Done 0 t" "ln_fw_name n = Inr nm" "ld_list t \<noteq> ld_list s" for kz n t nm
  proof -
    obtain v i k d where v: "ld_shape v = ld_shape s" "get_sec_vm_dev_by_name nm v = None" "shape d = (nm, i, k)"
      "t = ld_set_dev (ld_next v) d (v\<lparr>ld_list := ld_next v # ld_list v, ld_next := ld_next v + 1\<rparr>)"
      using probe_shape [OF p(1)] p(2,3) by (auto simp: ld_shape_def)
    have lists: "ld_list v = ld_list s" "ld_next v = ld_next s" using v(1) by (simp_all add: ld_shape_def)
    have wfv: "ld_wf v" and wft: "ld_wf t" using wf v(1) probe_wf [OF wf p(1)] by simp_all
    have free: "get_sec_vm_dev_by_name nm s = None"
    proof (rule ccontr)
      assume "get_sec_vm_dev_by_name nm s \<noteq> None"
      then obtain q e where e: "ld_devs s q = Some e" "sv_vm_name e = nm" using ld_wf_lookup [OF wf] by blast
      then obtain e' where "ld_devs v q = Some e'" "shape e' = shape e" using ld_shape_dev [OF v(1)] by blast
      then show False using ld_wf_lookup [OF wfv, of nm q] e v(2) by (auto simp: shape_def)
    qed
    have dev: "ld_devs t (ld_next v) = Some d" "sv_vm_name d = nm" using v(3,4) by (simp_all add: ld_set_dev_def shape_def)
    then have found: "get_sec_vm_dev_by_name nm t = Some (ld_next v)" using ld_wf_lookup [OF wft] by blast
    have "get_sec_vm_dev_by_name nm u = None \<and> ld_list u = ld_list s" if r: "gh_secure_vm_loader_remove (ld_next v) t = Done r u" for r u
    proof -
      note sh = remove_shape [OF r]
      have "ld_list u = ld_list s" using sh v(4) lists by (simp add: ld_set_dev_def)
      moreover have "get_sec_vm_dev_by_name nm u = None"
      proof (rule ccontr)
        assume "get_sec_vm_dev_by_name nm u \<noteq> None"
        then obtain q e where e: "ld_devs u q = Some e" "sv_vm_name e = nm" using ld_wf_lookup [OF remove_wf [OF wft r]] by blast
        have "map_option shape (ld_devs u q) = (if q = ld_next v then None else map_option shape (ld_devs t q))" using sh by blast
        then obtain e' where "q \<noteq> ld_next v" "ld_devs t q = Some e'" "sv_vm_name e' = nm"
          using e by (cases "ld_devs t q") (auto simp: shape_def split: if_splits)
        then show False using ld_wf_lookup [OF wft, of nm q] found by auto
      qed
      ultimately show ?thesis by simp
    qed
    then show ?thesis using free found by blast
  qed
  moreover have "\<forall>q d. ld_devs s q = Some d \<longrightarrow> unat (sv_fw_index d) < length (sv_fw_mem_regions d) \<and> get_gh_vm_name (sv_vm_name d) < GH_VM_MAX"
    using wf unfolding ld_wf_iff known by blast
  ultimately show ?thesis using ld_wf_lookup [OF wf] by blast
qed

text \<open>An empty loader and a device with one region the loader maps itself.\<close>

definition ld_demo :: "('c, 'h, 'g, 'k) main_state \<Rightarrow> 'x vb_state \<Rightarrow> ('c, 'h, 'g, 'k, 'x) loader_state" where
  "ld_demo m v = \<lparr>ld_main = m, ld_virtio = v, ld_devs = (\<lambda>_. None), ld_list = [], ld_next = 0, ld_maps = (\<lambda>_. None), ld_files = (\<lambda>_. None), ld_log = []\<rparr>"

definition ld_demo_node :: loader_node where
  "ld_demo_node = \<lparr>ln_pas_id = Inr 28, ln_no_shutdown = False, ln_vmid = Inr 45, ln_mem_count = 1, ln_dma_mask = 0,
     ln_region = (\<lambda>_. Some (No_Map (Inr (0x8000, 4)) (Some (0x100000, [0, 0, 0, 0])))), ln_shared = None, ln_fw_name = Inr ''trustedvm'',
     ln_fw_index = Inr 0, ln_virtio = []\<rparr>"

theorem gh_secure_vm_loader_devices_typed_witness:
  "\<forall>d. \<exists>t. gh_secure_vm_loader_probe True ld_demo_node (ld_demo (main_empty (main_demo_res d)) (vb_empty ())) = Done 0 t \<and>
     get_sec_vm_dev_by_name ''trustedvm'' t = Some 0 \<and> (\<forall>q d. ld_devs t q = Some d \<longrightarrow> unat (sv_fw_index d) < length (sv_fw_mem_regions d))"
proof
  fix d
  define m and v where "m = main_empty (main_demo_res d)" and "v = vb_empty ()"
  have start: "loader_reachable (ld_demo m v)" by (rule loader_reachable.start) (simp_all add: ld_demo_def)
  obtain t where t: "gh_secure_vm_loader_probe True ld_demo_node (ld_demo m v) = Done 0 t" "ld_devs t 0 \<noteq> None" "sv_vm_name (the (ld_devs t 0)) = ''trustedvm''"
    by (simp add: gh_secure_vm_loader_probe_def ld_demo_node_def gh_vm_loader_mem_probe_def gh_vm_shared_mem_probe_def probe_checks_def get_gh_vm_name_def
        fw_name_to_vm_name_def get_sec_vm_dev_by_name_def ld_demo_def ld_map_def ld_set_dev_def)
  have r: "loader_reachable t" by (rule loader_reachable.probe [OF start t(1)])
  show "\<exists>t. gh_secure_vm_loader_probe True ld_demo_node (ld_demo (main_empty (main_demo_res d)) (vb_empty ())) = Done 0 t \<and>
     get_sec_vm_dev_by_name ''trustedvm'' t = Some 0 \<and> (\<forall>q d. ld_devs t q = Some d \<longrightarrow> unat (sv_fw_index d) < length (sv_fw_mem_regions d))"
    using t gh_secure_vm_loader_devices_typed [OF r] by (auto simp: m_def v_def)
qed

section \<open>Loading a device twice\<close>

definition dma_regions :: "gh_sec_vm_fw_mem list \<Rightarrow> gh_sec_vm_fw_mem list" where
  "dma_regions rs = filter (\<lambda>r. \<not> fm_is_static r) rs"

lemma dma_regions_simps [simp]:
  "dma_regions [] = []" "dma_regions (r # rs) = (if fm_is_static r then dma_regions rs else r # dma_regions rs)"
  by (simp_all add: dma_regions_def)

definition only_maps :: "('c, 'h, 'g, 'k, 'x) loader_state \<Rightarrow> ('c, 'h, 'g, 'k, 'x) loader_state \<Rightarrow> bool" where
  "only_maps s t \<longleftrightarrow> (\<exists>m. t = s\<lparr>ld_maps := m\<rparr>)"

lemma only_maps_simps [simp]: "only_maps s s" "only_maps s (s\<lparr>ld_maps := m\<rparr>)" "only_maps s (ld_map v b s)"
  by (auto simp: only_maps_def ld_map_def intro: exI [of _ "ld_maps s"])

lemma only_maps_trans: "only_maps s t \<Longrightarrow> only_maps t u \<Longrightarrow> only_maps s u"
  by (auto simp: only_maps_def)

lemma only_maps_fields: "only_maps s t \<Longrightarrow> ld_main t = ld_main s \<and> ld_devs t = ld_devs s \<and> ld_list t = ld_list s"
  by (auto simp: only_maps_def)

text \<open>The addresses that the environment gives for the regions from number \<open>i\<close> on are different.\<close>

definition dma_ok :: "('c, 'h, 'g, 'k) loader_env \<Rightarrow> nat \<Rightarrow> nat \<Rightarrow> bool" where
  "dma_ok env i n \<longleftrightarrow> (\<forall>j\<in>{i..<i + n}. le_dma env j \<noteq> None) \<and> inj_on (\<lambda>j. fst (the (le_dma env j))) {i..<i + n}"

lemma dma_ok_Suc: "dma_ok env i (Suc n) \<Longrightarrow> dma_ok env (Suc i) n \<and> (\<exists>v p. le_dma env i = Some (v, p) \<and> (\<forall>j\<in>{Suc i..<Suc i + n}. fst (the (le_dma env j)) \<noteq> v))"
proof -
  assume a: "dma_ok env i (Suc n)"
  then have "le_dma env i \<noteq> None" by (simp add: dma_ok_def)
  then obtain v p where v: "le_dma env i = Some (v, p)" by auto
  have "fst (the (le_dma env j)) \<noteq> v" if "j \<in> {Suc i..<Suc i + n}" for j
  proof
    assume "fst (the (le_dma env j)) = v"
    then have "fst (the (le_dma env j)) = fst (the (le_dma env i))" using v by simp
    moreover have "j \<in> {i..<i + Suc n}" "i \<in> {i..<i + Suc n}" using that by auto
    ultimately show False using a that inj_onD [of "\<lambda>j. fst (the (le_dma env j))" "{i..<i + Suc n}" j i] by (auto simp: dma_ok_def)
  qed
  moreover have "dma_ok env (Suc i) n" using a by (auto simp: dma_ok_def intro: inj_on_subset)
  ultimately show ?thesis using v by blast
qed

lemma alloc_regions_fresh:
  assumes "dma_ok env i (length rs)"
  shows "\<exists>rs' t. alloc_regions env i rs s = ((True, rs'), t) \<and> only_maps s t \<and> length rs' = length rs \<and>
    (dma_regions rs' = [] \<longleftrightarrow> dma_regions rs = []) \<and> distinct (map fm_virt (dma_regions rs')) \<and>
    (\<forall>r\<in>set (dma_regions rs'). ld_maps t (fm_virt r) \<noteq> None \<and> fm_virt r \<in> (\<lambda>j. fst (the (le_dma env j))) ` {i..<i + length rs}) \<and>
    (\<forall>v. v \<notin> (\<lambda>j. fst (the (le_dma env j))) ` {i..<i + length rs} \<longrightarrow> ld_maps t v = ld_maps s v)"
  using assms
proof (induction rs arbitrary: i s)
  case (Cons r rs)
  let ?A = "\<lambda>i n. (\<lambda>j. fst (the (le_dma env j))) ` {i..<i + n}"
  obtain v p where v: "dma_ok env (Suc i) (length rs)" "le_dma env i = Some (v, p)" "v \<notin> ?A (Suc i) (length rs)"
    using dma_ok_Suc [of env i "length rs"] Cons.prems by auto
  have "?A (Suc i) (length rs) \<subseteq> ?A i (length (r # rs))" by (rule image_mono) auto
  moreover have "v \<in> ?A i (length (r # rs))" by (rule image_eqI [of _ _ i]) (use v(2) in simp_all)
  ultimately have sub: "?A (Suc i) (length rs) \<subseteq> ?A i (length (r # rs))" "v \<in> ?A i (length (r # rs))" .
  let ?s = "if fm_is_static r then s else ld_map v (replicate (unat (fm_size r)) 0) s"
  obtain rs' t where t: "alloc_regions env (Suc i) rs ?s = ((True, rs'), t)" "only_maps ?s t" "length rs' = length rs"
    "dma_regions rs' = [] \<longleftrightarrow> dma_regions rs = []" "distinct (map fm_virt (dma_regions rs'))"
    "\<forall>r\<in>set (dma_regions rs'). ld_maps t (fm_virt r) \<noteq> None \<and> fm_virt r \<in> ?A (Suc i) (length rs)"
    "\<forall>v. v \<notin> ?A (Suc i) (length rs) \<longrightarrow> ld_maps t v = ld_maps ?s v"
    using Cons.IH [OF v(1), of ?s] by blast
  show ?case
  proof (cases "fm_is_static r")
    case True
    then show ?thesis using t sub by (intro exI [of _ "r # rs'"] exI [of _ t]) (auto simp del: image_iff)
  next
    case False
    have "ld_maps t v \<noteq> None" using t(7) v(3) False by (simp add: ld_map_def)
    moreover have "only_maps s t" using only_maps_trans [OF _ t(2), of s] False by simp
    moreover have "v \<notin> fm_virt ` set (dma_regions rs')" using t(6) v(3) by auto
    moreover have "ld_maps t w = ld_maps s w" if "w \<notin> ?A i (length (r # rs))" for w
    proof -
      have "w \<notin> ?A (Suc i) (length rs)" "w \<noteq> v" using that sub by blast+
      then show ?thesis using t(7) False by (simp add: ld_map_def)
    qed
    moreover have "\<forall>x\<in>set (dma_regions rs'). ld_maps t (fm_virt x) \<noteq> None \<and> fm_virt x \<in> ?A i (length (r # rs))" using t(6) sub(1) by blast
    moreover have "alloc_regions env i (r # rs) s = ((True, r\<lparr>fm_virt := v, fm_phys := p\<rparr> # rs'), t)" using t(1) v(2) False by simp
    ultimately show ?thesis using t(3,5) sub(2) False
      by (intro exI [of _ "r\<lparr>fm_virt := v, fm_phys := p\<rparr> # rs'"] exI [of _ t] conjI) (simp_all del: image_iff alloc_regions.simps)
  qed
qed simp

lemma free_dma_regions:
  assumes "distinct (map fm_virt (dma_regions rs))" "\<forall>r\<in>set (dma_regions rs). ld_maps s (fm_virt r) \<noteq> None"
  shows "\<exists>t. free_regions False rs s = Done () t \<and> only_maps s t \<and>
    (\<forall>v. ld_maps t v = (if v \<in> fm_virt ` set (dma_regions rs) then None else ld_maps s v))"
  using assms
proof (induction rs arbitrary: s)
  case (Cons r rs)
  show ?case
  proof (cases "fm_is_static r")
    case False
    let ?s = "s\<lparr>ld_maps := (ld_maps s)(fm_virt r := None)\<rparr>"
    have "fm_virt q \<noteq> fm_virt r" if "q \<in> set (dma_regions rs)" for q using Cons.prems(1) False that by (auto simp: image_iff)
    then have "\<forall>q\<in>set (dma_regions rs). ld_maps ?s (fm_virt q) \<noteq> None" using Cons.prems(2) False by simp
    moreover have "distinct (map fm_virt (dma_regions rs))" using Cons.prems(1) False by simp
    ultimately obtain t where t: "free_regions False rs ?s = Done () t" "only_maps ?s t"
      "\<forall>v. ld_maps t v = (if v \<in> fm_virt ` set (dma_regions rs) then None else ld_maps ?s v)" using Cons.IH by blast
    have "only_maps s t" using only_maps_trans [OF _ t(2), of s] by simp
    then show ?thesis using t Cons.prems(2) False by (intro exI [of _ t]) (simp add: ld_unmap_def)
  qed (use Cons in simp)
qed simp

lemma free_regions_stale:
  "dma_regions rs \<noteq> [] \<Longrightarrow> \<forall>r\<in>set (dma_regions rs). ld_maps s (fm_virt r) = None \<Longrightarrow> free_regions False rs s = Fault"
  by (induction rs) (auto simp: ld_unmap_def split: if_splits)

lemma ld_rm_state: "ld_rm (\<lambda>c. Done (f c) (g c)) s = Done a t \<Longrightarrow> ld_maps t = ld_maps s \<and> ld_devs t = ld_devs s"
  by (auto simp: ld_rm_def)

text \<open>A device whose allocated memory is gone cannot be reclaimed.\<close>

lemma reclaim_stale:
  assumes "mn_vms (ld_main s) p = Some vm" "get_sec_vm_dev_by_name (vm_fw_name vm) s = Some q" "ld_devs s q = Some d"
    and "dma_regions (sv_fw_mem_regions d) \<noteq> []" "\<forall>r\<in>set (dma_regions (sv_fw_mem_regions d)). ld_maps s (fm_virt r) = None"
  shows "gh_secure_vm_loader_reclaim_fw env p s = Fault \<or> (\<exists>ret t. gh_secure_vm_loader_reclaim_fw env p s = Done ret t \<and> ret \<noteq> 0)"
proof -
  let ?rs = "sv_fw_mem_regions d" and ?junk = "me_junk (le_main env)" and ?call = "re_call (me_rs (le_main env))"
  have ne: "?rs \<noteq> []" using assms(4) by auto
  obtain s1 where s1: "ld_rm (\<lambda>c. Done () (fold (\<lambda>sh c. snd (gh_reclaim_shmem ?junk ?call (le_kz env) (le_scm env) vm sh c)) (sv_sh_mem_regions d) c)) s = Done () s1"
    "ld_maps s1 = ld_maps s" by (simp add: ld_rm_def)
  obtain ret s2 where s2: "ld_rm (\<lambda>c. case gh_reclaim_mem ?junk ?call (le_scm env) vm (mem_parcels ?rs) (sv_system_vm d) c of (ret, c) \<Rightarrow> Done ret c) s1 = Done ret s2"
    "ld_maps s2 = ld_maps s1"
    by (cases "gh_reclaim_mem ?junk ?call (le_scm env) vm (mem_parcels ?rs) (sv_system_vm d) (rs_rm (mn_res (ld_main s1)))") (simp add: ld_rm_def)
  have "free_regions False ?rs s2 = Fault" using free_regions_stale [of ?rs s2] assms(4,5) s1(2) s2(2) by simp
  then show ?thesis using assms(1-3) ne s1(1) s2(1)
    unfolding gh_secure_vm_loader_reclaim_fw_def by (simp add: ld_with_vm_def with_vm_def Let_def)
qed

lemma alloc_vmid_taken:
  assumes "k < length (fst st)" "vp_vmid (fst st ! k) \<noteq> GH_VMID_INVAL" "k \<le> GH_VM_MAX"
  shows "gh_rm_vm_alloc_vmid call k vmid st = Done (- EINVAL, vmid) st"
  using assms by (simp add: gh_rm_vm_alloc_vmid_def)

text \<open>A VM's firmware must not be requested twice. When a second VM object asks for the firmware
  of a device that is already loaded, the request fails with \<^verbatim>\<open>-EINVAL\<close> because the VM has its
  number already; but the device's regions then name freshly allocated memory that has been freed
  again, so the memory of the VM that runs can no longer be taken back: the reclaim either fails or
  frees memory that is not allocated.\<close>

theorem gh_vm_ioctl_set_fw_name_twice:
  assumes "mn_vms (ld_main s) p = Some vm" "vm_fw_name vm = nm" "mn_vms (ld_main s) p' = Some vm'" "vm_fw_name vm' = ''''" "length nm < GH_VM_FW_NAME_MAX"
    and "get_sec_vm_dev_by_name nm s = Some q" "ld_devs s q = Some d" "dma_regions (sv_fw_mem_regions d) \<noteq> []"
    and "le_from env" "dma_ok env 0 (length (sv_fw_mem_regions d))"
    and "get_gh_vm_name (sv_vm_name d) < length (rs_tbl (mn_res (ld_main s)))"
    and "vp_vmid (rs_tbl (mn_res (ld_main s)) ! get_gh_vm_name (sv_vm_name d)) \<noteq> GH_VMID_INVAL"
  shows "\<exists>t. gh_vm_ioctl_set_fw_name env p' nm s = Done (- EINVAL) t \<and>
    (\<forall>env'. gh_secure_vm_loader_reclaim_fw env' p t = Fault \<or> (\<exists>ret u. gh_secure_vm_loader_reclaim_fw env' p t = Done ret u \<and> ret \<noteq> 0))"
proof -
  let ?s = "s\<lparr>ld_log := ld_log s @ [Cleanup_Ramdump (sv_vmid d)]\<rparr>" and ?res = "mn_res (ld_main s)"
  obtain rs t where t: "alloc_regions env 0 (sv_fw_mem_regions d) ?s = ((True, rs), t)" "only_maps ?s t" "dma_regions rs \<noteq> []"
    "distinct (map fm_virt (dma_regions rs))" "\<forall>r\<in>set (dma_regions rs). ld_maps t (fm_virt r) \<noteq> None"
    using alloc_regions_fresh [OF assms(10), of ?s] assms(8) by blast
  have main: "ld_main t = ld_main s" "ld_devs t = ld_devs s" "ld_list t = ld_list s" using only_maps_fields [OF t(2)] by simp_all
  let ?d = "d\<lparr>sv_fw_mem_regions := rs\<rparr>"
  define t1 where "t1 = ld_set_dev q ?d (ld_set_dev q ?d t\<lparr>ld_main := ld_main s\<rparr>)"
  have t1: "ld_main t1 = ld_main s" "ld_devs t1 = (ld_devs s)(q \<mapsto> ?d)" "ld_maps t1 = ld_maps t" "ld_list t1 = ld_list s"
    using main by (simp_all add: t1_def ld_set_dev_def)
  have upd: "ld_main s\<lparr>mn_res := ?res\<lparr>rs_tbl := rs_tbl ?res, rs_rm := rs_rm ?res\<rparr>\<rparr> = ld_main s" by simp
  have vmid: "gh_rm_vm_alloc_vmid call (get_gh_vm_name (sv_vm_name d)) (sv_vmid d) (rs_tbl ?res, rs_rm ?res) =
      Done (- EINVAL, sv_vmid d) (rs_tbl ?res, rs_rm ?res)" for call
    using assms(11,12) by (intro alloc_vmid_taken) (auto simp: get_gh_vm_name_def fw_name_to_vm_name_def)
  obtain u where u: "free_regions False rs t1 = Done () u" "only_maps t1 u" "\<forall>r\<in>set (dma_regions rs). ld_maps u (fm_virt r) = None"
    using free_dma_regions [OF t(4), of t1] t(5) t1(3) by auto
  have load: "gh_sec_vm_loader_load_fw env q p' ?s = Done (- EINVAL) u"
    using assms(7) t(1) vmid u(1) main unfolding gh_sec_vm_loader_load_fw_def by (simp add: Let_def ld_set_dev_def t1_def)
  have name: "fw_name_buf nm = nm" using assms(5) by (simp add: fw_name_buf_def)
  have run: "gh_vm_ioctl_set_fw_name env p' nm s = Done (- EINVAL) u"
    using assms load name by (simp add: gh_vm_ioctl_set_fw_name_def ld_with_vm_def with_vm_def)
  have u': "ld_main u = ld_main s" "ld_devs u q = Some ?d" "ld_list u = ld_list s" "ld_devs u = (ld_devs s)(q \<mapsto> ?d)"
    using only_maps_fields [OF u(2)] t1 by simp_all
  have "(case ((ld_devs s)(q \<mapsto> ?d)) x of None \<Rightarrow> False | Some d \<Rightarrow> sv_vm_name d = nm) = (case ld_devs s x of None \<Rightarrow> False | Some d \<Rightarrow> sv_vm_name d = nm)" for x
    using assms(7) by simp
  then have "get_sec_vm_dev_by_name nm u = Some q" using assms(6) u'(3,4) by (simp add: get_sec_vm_dev_by_name_def)
  then have "gh_secure_vm_loader_reclaim_fw env' p u = Fault \<or> (\<exists>ret v. gh_secure_vm_loader_reclaim_fw env' p u = Done ret v \<and> ret \<noteq> 0)" for env'
    using reclaim_stale [of u p vm q ?d env'] assms(1,2) u'(1,2) u(3) t(3) by simp
  then show ?thesis using run by blast
qed

definition ld_demo_env :: "(unit, unit, unit, unit) loader_env" where
  "ld_demo_env = \<lparr>le_main = main_demo_env 3, le_from = True, le_to = True, le_request = (\<lambda>_. 0), le_metadata = Inr demo_metadata,
     le_mdt_load = (\<lambda>m. (0, m)), le_image_end = 0, le_kz = True, le_kr = True, le_dma = (\<lambda>i. Some (of_nat i * 0x10000 + 0x100000, 0x8000)),
     le_fd = 7, le_getfile = True, le_gap = [], le_scm = (\<lambda>_ _ _ _ c. (0, c))\<rparr>"

definition ld_demo_dev :: gh_sec_vm_dev where
  "ld_demo_dev = \<lparr>sv_vm_name = ''trustedvm'', sv_system_vm = False,
     sv_fw_mem_regions = [\<lparr>fm_phys = 0x8000, fm_virt = 0x90000, fm_size = 0x1000, fm_is_static = False\<rparr>], sv_pas_id = 28, sv_vmid = 45,
     sv_fw_index = 0, sv_sh_mem_regions = []\<rparr>"

definition ld_demo_loaded :: "u16 \<Rightarrow> unit dbl_state \<Rightarrow> (unit, unit, unit, unit, unit) loader_state" where
  "ld_demo_loaded vmid d = (ld_demo ((main_empty ((main_demo_res d)\<lparr>rs_tbl := replicate 8 (vm_prop_zero\<lparr>vp_vmid := vmid\<rparr>)\<rparr>))
       \<lparr>mn_vms := [1 \<mapsto> new_vm\<lparr>vm_fw_name := ''trustedvm''\<rparr>, 2 \<mapsto> new_vm]\<rparr>) (vb_empty ()))
     \<lparr>ld_devs := [0 \<mapsto> ld_demo_dev], ld_list := [0], ld_maps := [0x90000 \<mapsto> replicate 0x1000 0]\<rparr>"

theorem gh_vm_ioctl_set_fw_name_twice_witness:
  "\<forall>d. \<exists>t. gh_vm_ioctl_set_fw_name ld_demo_env 2 ''trustedvm'' (ld_demo_loaded 45 d) = Done (- EINVAL) t \<and>
     (gh_secure_vm_loader_reclaim_fw ld_demo_env 1 t = Fault \<or> (\<exists>ret u. gh_secure_vm_loader_reclaim_fw ld_demo_env 1 t = Done ret u \<and> ret \<noteq> 0))"
proof
  fix d
  let ?s = "ld_demo_loaded 45 d"
  have vms: "mn_vms (ld_main ?s) 1 = Some (new_vm\<lparr>vm_fw_name := ''trustedvm''\<rparr>)" "mn_vms (ld_main ?s) 2 = Some new_vm"
    "vm_fw_name (new_vm\<lparr>vm_fw_name := ''trustedvm''\<rparr>) = ''trustedvm''" "vm_fw_name new_vm = ''''" "length ''trustedvm'' < GH_VM_FW_NAME_MAX"
    by (simp_all add: ld_demo_loaded_def ld_demo_def new_vm_def)
  have dev: "get_sec_vm_dev_by_name ''trustedvm'' ?s = Some 0" "ld_devs ?s 0 = Some ld_demo_dev" "dma_regions (sv_fw_mem_regions ld_demo_dev) \<noteq> []"
    by (simp_all add: ld_demo_loaded_def ld_demo_def get_sec_vm_dev_by_name_def ld_demo_dev_def)
  have env: "le_from ld_demo_env" "dma_ok ld_demo_env 0 (length (sv_fw_mem_regions ld_demo_dev))"
    by (simp_all add: ld_demo_env_def dma_ok_def ld_demo_dev_def)
  have "get_gh_vm_name (sv_vm_name ld_demo_dev) = 2" by (simp add: ld_demo_dev_def get_gh_vm_name_def fw_name_to_vm_name_def)
  then have "get_gh_vm_name (sv_vm_name ld_demo_dev) < length (rs_tbl (mn_res (ld_main ?s)))"
    "vp_vmid (rs_tbl (mn_res (ld_main ?s)) ! get_gh_vm_name (sv_vm_name ld_demo_dev)) \<noteq> GH_VMID_INVAL"
    by (simp_all add: ld_demo_loaded_def ld_demo_def main_empty_def)
  then show "\<exists>t. gh_vm_ioctl_set_fw_name ld_demo_env 2 ''trustedvm'' ?s = Done (- EINVAL) t \<and>
     (gh_secure_vm_loader_reclaim_fw ld_demo_env 1 t = Fault \<or> (\<exists>ret u. gh_secure_vm_loader_reclaim_fw ld_demo_env 1 t = Done ret u \<and> ret \<noteq> 0))"
    using gh_vm_ioctl_set_fw_name_twice [OF vms(1,3,2,4,5) dev env] by blast
qed

section \<open>A load that fails and one that is undone\<close>

text \<open>An image whose metadata does not fit into its region is reported as loaded. For a device
  with static regions, once the VM has its number, the request to load the firmware returns 0 and
  names the VM after it, although no memory was given to the VM, nothing was configured and the VM
  stays in the state of being loaded.\<close>

theorem gh_vm_ioctl_set_fw_name_misfit:
  assumes "mn_vms (ld_main s) p = Some vm" "vm_fw_name vm = ''''" "length nm < GH_VM_FW_NAME_MAX" "le_from env"
    and "get_sec_vm_dev_by_name nm s = Some q" "ld_devs s q = Some d" "dma_regions (sv_fw_mem_regions d) = []"
    and "gh_rm_vm_alloc_vmid (re_call (me_rs (le_main env))) (get_gh_vm_name (sv_vm_name d)) (sv_vmid d)
           (rs_tbl (mn_res (ld_main s)), rs_rm (mn_res (ld_main s))) = Done (0, vmid) (tbl, c)"
    and "le_request env (fw_name_buf (sv_vm_name d @ ''.mdt'')) = 0" "le_metadata env = Inr mdata"
    and "nth_opt (sv_fw_mem_regions d) (unat (sv_fw_index d)) = Some r" "ld_maps s (fm_virt r) = Some mem"
    and "gh_sec_load_metadata (le_image_end env) r mdata mem = Done 0 mem"
  shows "\<exists>t vm'. gh_vm_ioctl_set_fw_name env p nm s = Done 0 t \<and> mn_vms (ld_main t) p = Some vm' \<and> vm_fw_name vm' = nm \<and>
    vm_status vm' = VM_STATUS_LOAD \<and> vm_is_secure_vm vm' = vm_is_secure_vm vm \<and> rs_rm (mn_res (ld_main t)) = c \<and> ld_maps t = ld_maps s"
proof -
  have static: "alloc_regions env i rs u = ((True, rs), u)" if "dma_regions rs = []" for i rs and u :: "('a, 'b, 'c, 'd, 'e) loader_state"
    using that by (induction rs arbitrary: i) (auto split: if_splits)
  have name: "fw_name_buf nm = nm" using assms(3) by (simp add: fw_name_buf_def)
  let ?vm = "vm\<lparr>vm_status := VM_STATUS_LOAD, vm_vmid := ucast vmid\<rparr>"
  let ?s = "s\<lparr>ld_log := ld_log s @ [Cleanup_Ramdump (sv_vmid d)]\<rparr>"
  define u where "u = ld_upd_vm p (\<lambda>vm. vm\<lparr>vm_status := VM_STATUS_LOAD, vm_vmid := ucast vmid\<rparr>)
      (ld_set_dev q (d\<lparr>sv_vmid := vmid\<rparr>) ((ld_set_dev q d ?s)\<lparr>ld_main := (ld_main s)\<lparr>mn_res := (mn_res (ld_main s))\<lparr>rs_tbl := tbl, rs_rm := c\<rparr>\<rparr>\<rparr>))"
  have main: "ld_main (ld_set_dev q d ?s) = ld_main s" by (simp add: ld_set_dev_def)
  have dev: "ld_devs u q = Some (d\<lparr>sv_vmid := vmid\<rparr>)" "ld_maps u = ld_maps s" by (simp_all add: u_def ld_set_dev_def ld_upd_vm_def)
  have sec: "gh_vm_loader_sec_load env q p u = Done 0 u"
    using assms(9-13) dev by (simp add: gh_vm_loader_sec_load_def)
  have load: "gh_sec_vm_loader_load_fw env q p (s\<lparr>ld_log := ld_log s @ [Cleanup_Ramdump (sv_vmid d)]\<rparr>) = Done 0 u"
    using assms(6,8) static [OF assms(7)] sec unfolding gh_sec_vm_loader_load_fw_def
    by (simp add: Let_def u_def main)
  have vm': "mn_vms (ld_main u) p = Some ?vm" "rs_rm (mn_res (ld_main u)) = c"
    using assms(1) by (simp_all add: u_def ld_upd_vm_def ld_set_dev_def upd_vm_def)
  let ?t = "(ld_upd_vm p (vm_fw_name_update (\<lambda>_. nm)) u)\<lparr>ld_main := log_event (Uevent_Create p) (ld_main (ld_upd_vm p (vm_fw_name_update (\<lambda>_. nm)) u))\<rparr>"
  have "gh_vm_ioctl_set_fw_name env p nm s = Done 0 ?t"
    using assms(1,2,4-6) load name by (simp add: gh_vm_ioctl_set_fw_name_def ld_with_vm_def with_vm_def Let_def)
  then show ?thesis using vm' dev(2) by (intro exI [of _ ?t]) (simp add: ld_upd_vm_def upd_vm_def log_event_def)
qed

definition ld_demo_small :: "unit dbl_state \<Rightarrow> (unit, unit, unit, unit, unit) loader_state" where
  "ld_demo_small d = (ld_demo_loaded GH_VMID_INVAL d)
     \<lparr>ld_devs := [0 \<mapsto> ld_demo_dev\<lparr>sv_fw_mem_regions := [\<lparr>fm_phys = 0x8000, fm_virt = 0x90000, fm_size = 4, fm_is_static = True\<rparr>]\<rparr>],
      ld_maps := [0x90000 \<mapsto> [0, 0, 0, 0]]\<rparr>"

theorem gh_vm_ioctl_set_fw_name_misfit_witness:
  "\<forall>d. \<exists>t vm. gh_vm_ioctl_set_fw_name (ld_demo_env\<lparr>le_main := (main_demo_env 3)\<lparr>me_rs := (me_rs (main_demo_env 3))\<lparr>re_call := (\<lambda>_ _ c. ((Some 0, Inr (Some (le32 45), 4)), c))\<rparr>\<rparr>\<rparr>)
       2 ''trustedvm'' (ld_demo_small d) = Done 0 t \<and> mn_vms (ld_main t) 2 = Some vm \<and> vm_fw_name vm = ''trustedvm'' \<and> vm_status vm = VM_STATUS_LOAD"
proof
  fix d
  let ?s = "ld_demo_small d"
  let ?e = "ld_demo_env\<lparr>le_main := (main_demo_env 3)\<lparr>me_rs := (me_rs (main_demo_env 3))\<lparr>re_call := (\<lambda>_ _ c. ((Some 0, Inr (Some (le32 45), 4)), c))\<rparr>\<rparr>\<rparr>"
  let ?r = "\<lparr>fm_phys = 0x8000, fm_virt = 0x90000, fm_size = 4, fm_is_static = True\<rparr>"
  let ?d = "ld_demo_dev\<lparr>sv_fw_mem_regions := [?r]\<rparr>"
  have s: "mn_vms (ld_main ?s) 2 = Some new_vm" "vm_fw_name new_vm = ''''" "length ''trustedvm'' < GH_VM_FW_NAME_MAX" "le_from ?e"
    "get_sec_vm_dev_by_name ''trustedvm'' ?s = Some 0" "ld_devs ?s 0 = Some ?d" "dma_regions (sv_fw_mem_regions ?d) = []"
    by (simp_all add: ld_demo_small_def ld_demo_loaded_def ld_demo_def new_vm_def ld_demo_env_def get_sec_vm_dev_by_name_def ld_demo_dev_def)
  have k: "get_gh_vm_name (sv_vm_name ?d) = 2" by (simp add: ld_demo_dev_def get_gh_vm_name_def fw_name_to_vm_name_def)
  obtain tbl where v: "gh_rm_vm_alloc_vmid (re_call (me_rs (le_main ?e))) (get_gh_vm_name (sv_vm_name ?d)) (sv_vmid ?d)
      (rs_tbl (mn_res (ld_main ?s)), rs_rm (mn_res (ld_main ?s))) = Done (0, 45) (tbl, ())"
    unfolding k using of_le32_le32 [of 45 "[]"] by (simp add: gh_rm_vm_alloc_vmid_def ld_demo_small_def ld_demo_loaded_def ld_demo_def main_empty_def main_demo_res_def
        gh_update_vm_prop_table_def vm_prop_zero_def Let_def)
  have e: "le_request ?e (fw_name_buf (sv_vm_name ?d @ ''.mdt'')) = 0" "le_metadata ?e = Inr demo_metadata"
    "nth_opt (sv_fw_mem_regions ?d) (unat (sv_fw_index ?d)) = Some ?r" "ld_maps ?s (fm_virt ?r) = Some [0, 0, 0, 0]"
    by (simp_all add: ld_demo_env_def nth_opt_def ld_demo_dev_def ld_demo_small_def)
  have len: "length demo_metadata = 84" "e_phnum demo_metadata = 1" by (simp_all add: demo_metadata_def e_phnum_def)
  have "PAGE_ROUND_UP 84 = 4096" by (simp add: PAGE_ROUND_UP_def)
  moreover have "phdrs demo_metadata = Some [\<lparr>p_paddr = 0x1000, p_memsz = 0x100, p_flags = 0\<rparr>]"
    using len by (simp add: phdrs_def phdr_at_def demo_metadata_def Let_def)
  ultimately have misfit: "gh_sec_load_metadata (le_image_end ?e) ?r demo_metadata [0, 0, 0, 0] = Done 0 [0, 0, 0, 0]"
    using len by (simp add: gh_sec_load_metadata_def ld_demo_env_def Let_def)
  show "\<exists>t vm. gh_vm_ioctl_set_fw_name ?e 2 ''trustedvm'' ?s = Done 0 t \<and> mn_vms (ld_main t) 2 = Some vm \<and> vm_fw_name vm = ''trustedvm'' \<and> vm_status vm = VM_STATUS_LOAD"
    using gh_vm_ioctl_set_fw_name_misfit [OF s v e misfit] by blast
qed

definition rm_of :: "('c, 'h, 'g, 'k, 'x) loader_state \<Rightarrow> 'c" where
  "rm_of s = rs_rm (mn_res (ld_main s))"


text \<open>The same system with the ownership of memory as the state of the Resource Manager.\<close>

definition ld_own_state :: "(u64 \<Rightarrow> u64) \<Rightarrow> unit dbl_state \<Rightarrow> (u64 \<Rightarrow> u64, unit, unit, unit, unit) loader_state" where
  "ld_own_state f d = (ld_demo ((main_empty \<lparr>rs_rm = f, rs_tbl = replicate 8 vm_prop_zero, rs_msgq = msgq_init (), rs_dbl = d,
     rs_irq = \<lparr>gh_rm_free_virq_idr = [], irq_hwirq = Map.empty\<rparr>, rs_ext = sched_demo [], gh_rm_core_initialized = False,
     gh_rm_base_virq = 0, gh_rm_msgq_desc = Null, rs_recv_task = False, rs_status_nb = False, rs_svm_work = False,
     gh_virtio_mmio_fn = None, gh_wdog_manage_fn = None, gh_vcpu_affinity_set_fn = None, gh_vcpu_affinity_reset_fn = None,
     gh_vpm_grp_set_fn = None, gh_vpm_grp_reset_fn = None, gh_all_res_populated_fn = None\<rparr>)
       \<lparr>mn_vms := [1 \<mapsto> new_vm\<lparr>vm_fw_name := ''trustedvm'', vm_vmid := 45\<rparr>]\<rparr>) (vb_empty ()))
     \<lparr>ld_devs := [0 \<mapsto> ld_demo_dev], ld_list := [0], ld_maps := [0x90000 \<mapsto> replicate 0x1000 0]\<rparr>"

definition ld_own_env :: "(u64 \<Rightarrow> u64, unit, unit, unit) loader_env" where
  "ld_own_env = \<lparr>le_main = \<lparr>me_rs = \<lparr>re_call = (\<lambda>mid req c. ((None, Inl (- EIO)), c)), re_kz = (\<lambda>_. True), re_mq_kz = (\<lambda>_. True), re_rq = (\<lambda>_. 0),
       re_cm = (\<lambda>_. 0), re_spin = 0, re_step = (\<lambda>s. s)\<rparr>,
     me_kz = True, me_fd = 3, me_getfile = 0, me_register_nb = 0, me_junk = 1, me_junk_n = 0, me_steps = (\<lambda>_. []), me_run_steps = [],
     me_vcpu_hcall = (\<lambda>c x y z h. ((0, 0), h)), me_vcpu_iters = []\<rparr>,
     le_from = True, le_to = True, le_request = (\<lambda>_. 0), le_metadata = Inr [], le_mdt_load = (\<lambda>m. (0, m)), le_image_end = 0, le_kz = True, le_kr = True,
     le_dma = (\<lambda>i. None), le_fd = 7, le_getfile = True, le_gap = [], le_scm = mem_demo_scm\<rparr>"


end
