(* ===== verification/Console.thy ===== *)
theory Console
  imports Rm_Vm
begin

text \<open>
  The console driver (\<^verbatim>\<open>drivers/tty/hvc/hvc_gunyah.c\<close>): one terminal per VM name with a fifo for each
  direction, over the console commands and the VM table. \<open>hc_tbl\<close> is the VM table and \<open>hc_rm\<close> the
  state behind \<^verbatim>\<open>gh_rm_call\<close>. The calls into the generic hvc layer (\<^verbatim>\<open>hvc_poll\<close>, \<^verbatim>\<open>hvc_kick\<close>) only wake its
  thread and have no effect here; \<^verbatim>\<open>CONFIG_HVC_GUNYAH_CONSOLE\<close> is the argument \<open>printk\<close>.
\<close>

section \<open>State\<close>

abbreviation (input) FIFO_SIZE :: nat where "FIFO_SIZE \<equiv> 1024"
abbreviation (input) GH_HVC_WRITE_MSG_SIZE :: nat where "GH_HVC_WRITE_MSG_SIZE \<equiv> 228"
abbreviation (input) HVC_GH_VTERM_COOKIE :: int where "HVC_GH_VTERM_COOKIE \<equiv> 0x474E5948"

record gh_hvc_prv =
  hv_hvc :: bool
  hv_get_fifo :: "u8 list"
  hv_put_fifo :: "u8 list"
  hv_put_work :: bool

record 'c hvc_state =
  gh_hvc_data :: "gh_hvc_prv list"
  hc_tbl :: vm_table
  hc_core :: bool
  hc_rm :: 'c
  hc_nb :: bool

definition gh_vm_name_to_vtermno :: "nat \<Rightarrow> u32" where
  "gh_vm_name_to_vtermno vmname = word_of_int (int vmname + HVC_GH_VTERM_COOKIE)"

definition vtermno_to_gh_vm_name :: "u32 \<Rightarrow> int" where
  "vtermno_to_gh_vm_name vtermno = sint (vtermno - word_of_int HVC_GH_VTERM_COOKIE)"

text \<open>\<^verbatim>\<open>kfifo_in\<close> takes what fits, \<^verbatim>\<open>kfifo_out\<close> gives what is there.\<close>

definition fifo_in :: "u8 list \<Rightarrow> u8 list \<Rightarrow> nat \<times> u8 list" where
  "fifo_in f xs = (let n = min (length xs) (FIFO_SIZE - length f) in (n, f @ take n xs))"

definition fifo_out :: "nat \<Rightarrow> u8 list \<Rightarrow> u8 list \<times> u8 list" where
  "fifo_out n f = (take n f, drop n f)"

definition prv :: "nat \<Rightarrow> 'c hvc_state \<Rightarrow> gh_hvc_prv option" where
  "prv i s = (if i < length (gh_hvc_data s) then Some (gh_hvc_data s ! i) else None)"

definition set_prv :: "nat \<Rightarrow> gh_hvc_prv \<Rightarrow> 'c hvc_state \<Rightarrow> 'c hvc_state" where
  "set_prv i p s = s\<lparr>gh_hvc_data := (gh_hvc_data s)[i := p]\<rparr>"

definition with_prv :: "nat \<Rightarrow> 'c hvc_state \<Rightarrow> (gh_hvc_prv \<Rightarrow> ('a, 'c hvc_state) outcome) \<Rightarrow> ('a, 'c hvc_state) outcome" where
  "with_prv i s f = (case prv i s of None \<Rightarrow> Fault | Some p \<Rightarrow> f p)"

definition hvc_get_vmid :: "nat \<Rightarrow> 'c hvc_state \<Rightarrow> (int \<times> gh_vmid_t option, 'c hvc_state) outcome" where
  "hvc_get_vmid i s = map_outcome id (\<lambda>t. s\<lparr>hc_tbl := t\<rparr>) (gh_rm_get_vmid (hc_core s) i (hc_tbl s))"

definition hvc_rm :: "('c \<Rightarrow> int \<times> 'c) \<Rightarrow> 'c hvc_state \<Rightarrow> int \<times> 'c hvc_state" where
  "hvc_rm f s = (case f (hc_rm s) of (ret, c) \<Rightarrow> (ret, s\<lparr>hc_rm := c\<rparr>))"

section \<open>Characters from a VM\<close>

abbreviation (input) NOTIFY_DONE :: int where "NOTIFY_DONE \<equiv> 0"
abbreviation (input) NOTIFY_OK :: int where "NOTIFY_OK \<equiv> 1"

text \<open>The payload is the VM's number, the number of bytes and the bytes; reading past its end is \<^term>\<open>Fault\<close>.\<close>

definition gh_hvc_notify_console_chars :: "u32 \<Rightarrow> u8 list \<Rightarrow> 'c hvc_state \<Rightarrow> (int, 'c hvc_state) outcome" where
  "gh_hvc_notify_console_chars cmd msg s =
     (if cmd \<noteq> GH_RM_NOTIF_VM_CONSOLE_CHARS then Done NOTIFY_DONE s
      else if length msg < 4 then Fault
      else let vmid = of_le16 msg; num_bytes = unat (of_le16 (drop 2 msg)) in
        case gh_rm_get_vm_name vmid (hc_tbl s) of
          (ret, None) \<Rightarrow> Done NOTIFY_OK s
        | (ret, Some vm_name) \<Rightarrow>
            with_prv vm_name s (\<lambda>p.
              case fifo_in (hv_get_fifo p) (take num_bytes (drop 4 msg)) of
                (n, f) \<Rightarrow> if length msg < 4 + min num_bytes (FIFO_SIZE - length (hv_get_fifo p)) then Fault
                          else Done NOTIFY_OK (set_prv vm_name (p\<lparr>hv_get_fifo := f\<rparr>) s)))"

section \<open>Characters to a VM\<close>

text \<open>The loop of \<^verbatim>\<open>gh_hvc_put_work_fn\<close>: what is left in the fifo and the state behind the calls. Each
  iteration takes at most one message; a failed write loses it.\<close>

function put_loop :: "'c rm_caller \<Rightarrow> bool \<Rightarrow> gh_vmid_t \<Rightarrow> u8 list \<Rightarrow> 'c \<Rightarrow> u8 list \<times> 'c" where
  "put_loop call kz vmid f c =
     (if f = [] then ([], c)
      else case fifo_out GH_HVC_WRITE_MSG_SIZE f of
        (buf, f) \<Rightarrow> (case gh_rm_console_write call kz vmid buf c of
           (ret, c) \<Rightarrow> if ret \<noteq> 0 then (f, c) else put_loop call kz vmid f c))"
  by pat_completeness auto
termination
  by (relation "measure (\<lambda>(_, _, _, f, _). length f)") (auto simp: fifo_out_def)

declare put_loop.simps [simp del]

definition gh_hvc_put_work_fn :: "'c rm_caller \<Rightarrow> bool \<Rightarrow> nat \<Rightarrow> 'c hvc_state \<Rightarrow> (unit, 'c hvc_state) outcome" where
  "gh_hvc_put_work_fn call kz i s =
     obind (hvc_get_vmid i s) (\<lambda>(ret, vmid) s.
       case vmid of
         None \<Rightarrow> Done () s
       | Some vmid \<Rightarrow>
           with_prv i s (\<lambda>p. case put_loop call kz vmid (hv_put_fifo p) (hc_rm s) of
             (f, c) \<Rightarrow> Done () (set_prv i (p\<lparr>hv_put_fifo := f\<rparr>) (s\<lparr>hc_rm := c\<rparr>))))"

text \<open>The work queue takes the work off the queue before it runs it.\<close>

definition hvc_run_work :: "'c rm_caller \<Rightarrow> bool \<Rightarrow> nat \<Rightarrow> 'c hvc_state \<Rightarrow> (unit, 'c hvc_state) outcome" where
  "hvc_run_work call kz i s =
     with_prv i s (\<lambda>p. if hv_put_work p then gh_hvc_put_work_fn call kz i (set_prv i (p\<lparr>hv_put_work := False\<rparr>) s) else Done () s)"

definition gh_hvc_get_chars :: "u32 \<Rightarrow> nat \<Rightarrow> 'c hvc_state \<Rightarrow> (int \<times> u8 list, 'c hvc_state) outcome" where
  "gh_hvc_get_chars vtermno count s =
     (let vm_name = vtermno_to_gh_vm_name vtermno in
      if vm_name < 0 \<or> int GH_VM_MAX \<le> vm_name then Done (- EINVAL, []) s
      else with_prv (nat vm_name) s (\<lambda>p.
        case fifo_out count (hv_get_fifo p) of (buf, f) \<Rightarrow> Done (int (length buf), buf) (set_prv (nat vm_name) (p\<lparr>hv_get_fifo := f\<rparr>) s)))"

definition gh_hvc_put_chars :: "u32 \<Rightarrow> u8 list \<Rightarrow> 'c hvc_state \<Rightarrow> (int, 'c hvc_state) outcome" where
  "gh_hvc_put_chars vtermno buf s =
     (let vm_name = vtermno_to_gh_vm_name vtermno in
      if vm_name < 0 \<or> int GH_VM_MAX \<le> vm_name then Done (- EINVAL) s
      else with_prv (nat vm_name) s (\<lambda>p.
        case fifo_in (hv_put_fifo p) buf of
          (n, f) \<Rightarrow> Done (int n) (set_prv (nat vm_name) (p\<lparr>hv_put_fifo := f, hv_put_work := (hv_put_work p \<or> 0 < n)\<rparr>) s)))"

text \<open>\<^verbatim>\<open>cancel_work_sync\<close> followed by a run of the work in this context when it was queued.\<close>

definition hvc_flush_work :: "'c rm_caller \<Rightarrow> bool \<Rightarrow> nat \<Rightarrow> 'c hvc_state \<Rightarrow> (unit, 'c hvc_state) outcome" where
  "hvc_flush_work call kz i s = hvc_run_work call kz i s"

definition gh_hvc_flush :: "'c rm_caller \<Rightarrow> bool \<Rightarrow> u32 \<Rightarrow> bool \<Rightarrow> 'c hvc_state \<Rightarrow> (int, 'c hvc_state) outcome" where
  "gh_hvc_flush call kz vtermno wait s =
     (let vm_name = vtermno_to_gh_vm_name vtermno in
      if \<not> wait then Done 0 s
      else if vm_name < 0 \<or> int GH_VM_MAX \<le> vm_name then Done (- EINVAL) s
      else obind (hvc_get_vmid (nat vm_name) s) (\<lambda>(ret, vmid) s.
        case vmid of
          None \<Rightarrow> Done ret s
        | Some vmid \<Rightarrow>
            obind (hvc_flush_work call kz (nat vm_name) s) (\<lambda>_ s.
              case hvc_rm (gh_rm_console_flush call vmid) s of (ret, s) \<Rightarrow> Done ret s)))"

section \<open>Opening and closing\<close>

definition gh_hvc_notify_add :: "'c rm_caller \<Rightarrow> bool \<Rightarrow> nat \<Rightarrow> 'c hvc_state \<Rightarrow> (int, 'c hvc_state) outcome" where
  "gh_hvc_notify_add call printk vm_name s =
     (if printk \<and> vm_name = GH_SELF_VM then Done 0 s
      else obind (hvc_get_vmid vm_name s) (\<lambda>(ret, vmid) s.
        case vmid of
          None \<Rightarrow> Done ret s
        | Some vmid \<Rightarrow> (case hvc_rm (gh_rm_console_open call vmid) s of (ret, s) \<Rightarrow> Done ret s)))"

definition gh_hvc_notify_del :: "'c rm_caller \<Rightarrow> bool \<Rightarrow> bool \<Rightarrow> int \<Rightarrow> 'c hvc_state \<Rightarrow> (unit, 'c hvc_state) outcome" where
  "gh_hvc_notify_del call kz printk vm_name s =
     (if vm_name < 0 \<or> int GH_VM_MAX \<le> vm_name \<or> printk \<and> vm_name = 0 then Done () s
      else let i = nat vm_name in
        obind (hvc_flush_work call kz i s) (\<lambda>_ s.
          obind (hvc_get_vmid i s) (\<lambda>(ret, vmid) s.
            case vmid of
              None \<Rightarrow> Done () s
            | Some vmid \<Rightarrow>
                let s = snd (hvc_rm (gh_rm_console_close call vmid) s) in
                with_prv i s (\<lambda>p. Done () (set_prv i (p\<lparr>hv_get_fifo := []\<rparr>) s)))))"

section \<open>Start and end of the module\<close>

definition new_prv :: gh_hvc_prv where
  "new_prv = \<lparr>hv_hvc = False, hv_get_fifo = [], hv_put_fifo = [], hv_put_work = False\<rparr>"

text \<open>\<open>inst\<close> is the result of \<^verbatim>\<open>hvc_instantiate\<close>; the result is not used by the caller.\<close>

definition hvc_gh_console_init :: "'c rm_caller \<Rightarrow> bool \<Rightarrow> int \<Rightarrow> 'c hvc_state \<Rightarrow> int \<times> 'c hvc_state" where
  "hvc_gh_console_init call printk inst s =
     (if \<not> printk then (0, s)
      else case hvc_rm (gh_rm_console_open call 0) s of
        (ret, s) \<Rightarrow> if ret \<noteq> 0 then (ret, s) else (if inst < 0 then - ENODEV else 0, s))"

text \<open>\<open>alloc i\<close> is the result of \<^verbatim>\<open>hvc_alloc\<close> for terminal \<open>i\<close>, \<open>reg\<close> of \<^verbatim>\<open>gh_rm_register_notifier\<close>. A terminal that
  could not be allocated keeps the error pointer; the ones before it are removed.\<close>

fun alloc_terms :: "(nat \<Rightarrow> int) \<Rightarrow> nat list \<Rightarrow> 'c hvc_state \<Rightarrow> int \<times> 'c hvc_state" where
  "alloc_terms alloc [] s = (0, s)"
| "alloc_terms alloc (i # is) s =
     (let s = set_prv i ((gh_hvc_data s ! i)\<lparr>hv_hvc := True\<rparr>) s in
      if alloc i \<noteq> 0 then (alloc i, s\<lparr>gh_hvc_data := map (hv_hvc_update (\<lambda>_. False)) (take i (gh_hvc_data s)) @ drop i (gh_hvc_data s)\<rparr>)
      else alloc_terms alloc is s)"

definition hvc_gh_init :: "'c rm_caller \<Rightarrow> bool \<Rightarrow> int \<Rightarrow> (nat \<Rightarrow> int) \<Rightarrow> int \<Rightarrow> 'c hvc_state \<Rightarrow> int \<times> 'c hvc_state" where
  "hvc_gh_init call printk inst alloc reg s =
     (let s = s\<lparr>gh_hvc_data := replicate GH_VM_MAX new_prv\<rparr>;
          s = snd (hvc_gh_console_init call printk inst s) in
      case alloc_terms alloc [0..<GH_VM_MAX] s of
        (ret, s) \<Rightarrow>
          if ret \<noteq> 0 then (ret, s)
          else if reg \<noteq> 0 then (reg, s\<lparr>gh_hvc_data := map (hv_hvc_update (\<lambda>_. False)) (gh_hvc_data s)\<rparr>)
          else (0, s\<lparr>hc_nb := True\<rparr>))"

definition hvc_gh_exit :: "'c hvc_state \<Rightarrow> 'c hvc_state" where
  "hvc_gh_exit s = s\<lparr>hc_nb := False, gh_hvc_data := map (hv_hvc_update (\<lambda>_. False)) (gh_hvc_data s)\<rparr>"

end
