(* ===== verification/Console_Correct.thy ===== *)
theory Console_Correct
  imports Console
begin

text \<open>
  The console is a pair of byte streams per terminal. Whatever sequence of operations runs while
  a terminal is open, the bytes accepted for a VM reach the Resource Manager in order, none is lost
  or repeated and what waits has a work item queued; the bytes accepted from a VM are read in order.
\<close>

section \<open>The fifos\<close>

lemma fifo_in_props:
  assumes "fifo_in f xs = (n, g)" "length f \<le> FIFO_SIZE"
  shows "g = f @ take n xs" "n \<le> length xs" "length g \<le> FIFO_SIZE" "n = min (length xs) (FIFO_SIZE - length f)"
  using assms by (auto simp: fifo_in_def Let_def)

lemma vtermno_inv: "i < GH_VM_MAX \<Longrightarrow> vtermno_to_gh_vm_name (gh_vm_name_to_vtermno i) = int i"
proof -
  assume "i < GH_VM_MAX"
  then have "i \<in> {0, 1, 2, 3, 4, 5, 6}" by auto
  then show ?thesis by (auto simp: vtermno_to_gh_vm_name_def gh_vm_name_to_vtermno_def)
qed

text \<open>The Resource Manager takes what is written to a console: \<open>out\<close> reads from its state what a VM's console received.\<close>

definition console_takes :: "('c \<Rightarrow> gh_vmid_t \<Rightarrow> u8 list) \<Rightarrow> 'c rm_caller \<Rightarrow> bool" where
  "console_takes out call \<longleftrightarrow> (\<forall>vmid buf c. 0 < length buf \<longrightarrow> length buf \<le> GH_HVC_WRITE_MSG_SIZE \<longrightarrow>
     (\<exists>e p t. call 0x56000083 (le16 vmid @ le16 (of_nat (length buf)) @ buf) c = ((e, Inr (p, 0)), t) \<and>
              out t = (out c)(vmid := out c vmid @ buf))) \<and>
     (\<forall>req c. out (snd (call 0x56000084 req c)) = out c)"

lemma console_write_takes:
  assumes "console_takes out call" "0 < length buf" "length buf \<le> GH_HVC_WRITE_MSG_SIZE"
  shows "\<exists>t. gh_rm_console_write call True vmid buf c = (0, t) \<and> out t = (out c)(vmid := out c vmid @ buf)"
proof -
  obtain e p t where "call 0x56000083 (le16 vmid @ le16 (of_nat (length buf)) @ buf) c = ((e, Inr (p, 0)), t)" "out t = (out c)(vmid := out c vmid @ buf)"
    using assms unfolding console_takes_def by blast
  then show ?thesis using assms(2,3) by (simp add: gh_rm_console_write_def rm_command_def)
qed

text \<open>The loop of the work item empties the fifo into the console, message by message.\<close>

lemma put_loop_drains:
  assumes "console_takes out call"
  shows "\<exists>t. put_loop call True vmid f c = ([], t) \<and> out t = (out c)(vmid := out c vmid @ f)"
proof (induction f arbitrary: c rule: length_induct)
  case (1 f)
  show ?case
  proof (cases "f = []")
    case False
    let ?b = "take GH_HVC_WRITE_MSG_SIZE f" and ?f = "drop GH_HVC_WRITE_MSG_SIZE f"
    obtain t where t: "gh_rm_console_write call True vmid ?b c = (0, t)" "out t = (out c)(vmid := out c vmid @ ?b)"
      using console_write_takes [OF assms, of ?b vmid c] False by auto
    have "length ?f < length f" using False by simp
    then obtain u where u: "put_loop call True vmid ?f t = ([], u)" "out u = (out t)(vmid := out t vmid @ ?f)" using 1 by blast
    have "put_loop call True vmid f c = ([], u)" using False t(1) u(1) by (simp add: put_loop.simps [of call True vmid f] fifo_out_def)
    moreover have "out u = (out c)(vmid := out c vmid @ f)" using t(2) u(2) by simp
    ultimately show ?thesis by blast
  qed (simp add: put_loop.simps)
qed

section \<open>Operations while terminals are open\<close>

datatype hvc_op = Put nat "u8 list" | Work nat | Get nat nat | Chars u32 "u8 list" | Flush nat bool

text \<open>What an operation accepted for a VM, accepted from a VM or gave to the reader.\<close>

datatype hvc_ev = Accepted nat "u8 list" | Received nat "u8 list" | Read_Out nat "u8 list"

definition hvc_step :: "'c rm_caller \<Rightarrow> hvc_op \<Rightarrow> 'c hvc_state \<Rightarrow> (hvc_ev list, 'c hvc_state) outcome" where
  "hvc_step call op s =
     (case op of
        Put i buf \<Rightarrow> obind (gh_hvc_put_chars (gh_vm_name_to_vtermno i) buf s) (\<lambda>n. Done [Accepted i (take (nat n) buf)])
      | Work i \<Rightarrow> obind (hvc_run_work call True i s) (\<lambda>_. Done [])
      | Get i n \<Rightarrow> obind (gh_hvc_get_chars (gh_vm_name_to_vtermno i) n s) (\<lambda>(_, buf). Done [Read_Out i buf])
      | Chars cmd msg \<Rightarrow>
          obind (gh_hvc_notify_console_chars cmd msg s) (\<lambda>_ t.
            Done (case gh_rm_get_vm_name (of_le16 msg) (hc_tbl s) of
                    (_, Some i) \<Rightarrow> if cmd = GH_RM_NOTIF_VM_CONSOLE_CHARS
                      then [Received i (take (FIFO_SIZE - length (hv_get_fifo (gh_hvc_data s ! i))) (take (unat (of_le16 (drop 2 msg))) (drop 4 msg)))] else []
                  | _ \<Rightarrow> []) t)
      | Flush i w \<Rightarrow> obind (gh_hvc_flush call True (gh_vm_name_to_vtermno i) w s) (\<lambda>_. Done []))"

fun hvc_run :: "'c rm_caller \<Rightarrow> hvc_op list \<Rightarrow> 'c hvc_state \<Rightarrow> (hvc_ev list, 'c hvc_state) outcome" where
  "hvc_run call [] s = Done [] s"
| "hvc_run call (op # ops) s = obind (hvc_step call op s) (\<lambda>es s. obind (hvc_run call ops s) (\<lambda>fs. Done (es @ fs)))"

definition accepted :: "nat \<Rightarrow> hvc_ev list \<Rightarrow> u8 list" where
  "accepted i es = concat (map (\<lambda>e. case e of Accepted j b \<Rightarrow> if j = i then b else [] | _ \<Rightarrow> []) es)"

definition received :: "nat \<Rightarrow> hvc_ev list \<Rightarrow> u8 list" where
  "received i es = concat (map (\<lambda>e. case e of Received j b \<Rightarrow> if j = i then b else [] | _ \<Rightarrow> []) es)"

definition read_out :: "nat \<Rightarrow> hvc_ev list \<Rightarrow> u8 list" where
  "read_out i es = concat (map (\<lambda>e. case e of Read_Out j b \<Rightarrow> if j = i then b else [] | _ \<Rightarrow> []) es)"

lemma streams_append [simp]:
  "accepted i (es @ fs) = accepted i es @ accepted i fs" "received i (es @ fs) = received i es @ received i fs"
  "read_out i (es @ fs) = read_out i es @ read_out i fs" "accepted i [] = []" "received i [] = []" "read_out i [] = []"
  by (simp_all add: accepted_def received_def read_out_def)

text \<open>Every VM is known by a number of its own, the fifos hold what they can, and what waits for a VM has a work item queued.\<close>

definition hvc_inv :: "'c hvc_state \<Rightarrow> bool" where
  "hvc_inv s \<longleftrightarrow> length (gh_hvc_data s) = GH_VM_MAX \<and> hc_core s \<and> length (hc_tbl s) = GH_VM_MAX \<and> distinct (map vp_vmid (hc_tbl s)) \<and>
     (\<forall>i\<in>{1..<GH_VM_MAX}. vp_vmid (hc_tbl s ! i) \<noteq> 0) \<and>
     (\<forall>p\<in>set (gh_hvc_data s). length (hv_get_fifo p) \<le> FIFO_SIZE \<and> length (hv_put_fifo p) \<le> FIFO_SIZE \<and> (hv_put_fifo p \<noteq> [] \<longrightarrow> hv_put_work p))"

definition hvc_streams :: "('c \<Rightarrow> gh_vmid_t \<Rightarrow> u8 list) \<Rightarrow> 'c hvc_state \<Rightarrow> hvc_ev list \<Rightarrow> 'c hvc_state \<Rightarrow> bool" where
  "hvc_streams out s es t \<longleftrightarrow> hc_tbl t = hc_tbl s \<and>
     (\<forall>i<GH_VM_MAX. let v = vp_vmid (hc_tbl s ! i) in
        out (hc_rm t) v @ hv_put_fifo (gh_hvc_data t ! i) = out (hc_rm s) v @ hv_put_fifo (gh_hvc_data s ! i) @ accepted i es \<and>
        read_out i es @ hv_get_fifo (gh_hvc_data t ! i) = hv_get_fifo (gh_hvc_data s ! i) @ received i es)"

definition op_ok :: "hvc_op \<Rightarrow> bool" where
  "op_ok op = (case op of Put i _ \<Rightarrow> i < GH_VM_MAX | Work i \<Rightarrow> i < GH_VM_MAX | Get i _ \<Rightarrow> i < GH_VM_MAX | Flush i _ \<Rightarrow> i < GH_VM_MAX
     | Chars _ msg \<Rightarrow> 4 + unat (of_le16 (drop 2 msg)) \<le> length msg)"

lemma hvc_streams_trans: "hvc_streams out s es t \<Longrightarrow> hvc_streams out t fs u \<Longrightarrow> hvc_streams out s (es @ fs) u"
  unfolding hvc_streams_def by (simp add: Let_def)

lemma hvc_inv_prv:
  assumes "hvc_inv s" "i < GH_VM_MAX"
  shows "prv i s = Some (gh_hvc_data s ! i)" "length (hv_get_fifo (gh_hvc_data s ! i)) \<le> FIFO_SIZE" "length (hv_put_fifo (gh_hvc_data s ! i)) \<le> FIFO_SIZE"
    "hv_put_fifo (gh_hvc_data s ! i) \<noteq> [] \<Longrightarrow> hv_put_work (gh_hvc_data s ! i)"
  using assms by (auto simp: hvc_inv_def prv_def)

lemma hvc_inv_set_prv:
  assumes "hvc_inv s" "length (hv_get_fifo p) \<le> FIFO_SIZE" "length (hv_put_fifo p) \<le> FIFO_SIZE" "hv_put_fifo p \<noteq> [] \<longrightarrow> hv_put_work p"
  shows "hvc_inv (set_prv i p s)"
  using assms set_update_subset_insert [of "gh_hvc_data s" i p] by (auto simp: hvc_inv_def set_prv_def)

lemma hvc_inv_rm [simp]: "hvc_inv (s\<lparr>hc_rm := c\<rparr>) = hvc_inv s" by (simp add: hvc_inv_def)

lemma hvc_get_vmid_known:
  assumes "hvc_inv s" "i < GH_VM_MAX"
  shows "hvc_get_vmid i s = Done (0, Some (vp_vmid (hc_tbl s ! i))) s"
proof -
  have "i = 0 \<or> vp_vmid (hc_tbl s ! i) \<noteq> 0" using assms by (auto simp: hvc_inv_def)
  then show ?thesis using assms by (auto simp: hvc_get_vmid_def gh_rm_get_vmid_def hvc_inv_def)
qed

lemma hvc_inv_vmids: "hvc_inv s \<Longrightarrow> i < GH_VM_MAX \<Longrightarrow> j < GH_VM_MAX \<Longrightarrow> vp_vmid (hc_tbl s ! i) = vp_vmid (hc_tbl s ! j) \<Longrightarrow> i = j"
  by (metis hvc_inv_def length_map nth_eq_iff_index_eq nth_map)

text \<open>Changing one terminal, with the streams of that terminal as they should be.\<close>

lemma hvc_streams_set_prv:
  assumes "hvc_inv s" "i < GH_VM_MAX" "\<And>v. v \<noteq> vp_vmid (hc_tbl s ! i) \<Longrightarrow> out c v = out (hc_rm s) v"
    and "out c (vp_vmid (hc_tbl s ! i)) @ hv_put_fifo p = out (hc_rm s) (vp_vmid (hc_tbl s ! i)) @ hv_put_fifo (gh_hvc_data s ! i) @ accepted i es"
    and "read_out i es @ hv_get_fifo p = hv_get_fifo (gh_hvc_data s ! i) @ received i es"
    and "\<And>j. j \<noteq> i \<Longrightarrow> accepted j es = [] \<and> received j es = [] \<and> read_out j es = []"
  shows "hvc_streams out s es (set_prv i p (s\<lparr>hc_rm := c\<rparr>))"
  unfolding hvc_streams_def Let_def
proof (intro conjI allI impI)
  fix j
  assume j: "j < GH_VM_MAX"
  have len: "length (gh_hvc_data s) = GH_VM_MAX" using assms(1) by (simp add: hvc_inv_def)
  have other: "out c (vp_vmid (hc_tbl s ! j)) = out (hc_rm s) (vp_vmid (hc_tbl s ! j))" if "j \<noteq> i"
    using assms(3) hvc_inv_vmids [OF assms(1) j assms(2)] that by blast
  show "out (hc_rm (set_prv i p (s\<lparr>hc_rm := c\<rparr>))) (vp_vmid (hc_tbl s ! j)) @ hv_put_fifo (gh_hvc_data (set_prv i p (s\<lparr>hc_rm := c\<rparr>)) ! j) =
      out (hc_rm s) (vp_vmid (hc_tbl s ! j)) @ hv_put_fifo (gh_hvc_data s ! j) @ accepted j es"
    using assms(2,4,6) other len j by (cases "j = i") (auto simp: set_prv_def)
  show "read_out j es @ hv_get_fifo (gh_hvc_data (set_prv i p (s\<lparr>hc_rm := c\<rparr>)) ! j) = hv_get_fifo (gh_hvc_data s ! j) @ received j es"
    using assms(2,5,6) len j by (cases "j = i") (auto simp: set_prv_def)
qed (simp add: set_prv_def)

lemma hvc_streams_refl [simp]: "hvc_streams out s [] s"
  by (simp add: hvc_streams_def)

lemma hvc_work_streams:
  assumes "console_takes out call" "hvc_inv s" "i < GH_VM_MAX"
  shows "\<exists>t. hvc_run_work call True i s = Done () t \<and> hvc_inv t \<and> hvc_streams out s [] t \<and> hc_core t = hc_core s \<and>
    (hv_put_fifo (gh_hvc_data t ! i) = [])"
proof (cases "hv_put_work (gh_hvc_data s ! i)")
  case False
  then show ?thesis using hvc_inv_prv [OF assms(2,3)] assms(2) by (simp add: hvc_run_work_def with_prv_def) blast
next
  case True
  let ?p = "gh_hvc_data s ! i" and ?v = "vp_vmid (hc_tbl s ! i)"
  let ?s = "set_prv i (?p\<lparr>hv_put_work := False\<rparr>) s"
  obtain c where c: "put_loop call True ?v (hv_put_fifo ?p) (hc_rm s) = ([], c)" "out c = (out (hc_rm s))(?v := out (hc_rm s) ?v @ hv_put_fifo ?p)"
    using put_loop_drains [OF assms(1)] by blast
  let ?q = "?p\<lparr>hv_put_work := False, hv_put_fifo := []\<rparr>"
  let ?t = "set_prv i ?q (s\<lparr>hc_rm := c\<rparr>)"
  have len: "length (gh_hvc_data s) = GH_VM_MAX" using assms(2) by (simp add: hvc_inv_def)
  have "hvc_get_vmid i ?s = Done (0, Some ?v) ?s"
    using hvc_get_vmid_known [OF assms(2,3)] assms(2,3) by (auto simp: hvc_get_vmid_def set_prv_def gh_rm_get_vmid_def hvc_inv_def Let_def split: if_splits)
  then have "gh_hvc_put_work_fn call True i ?s = Done () ?t"
    using c(1) len assms(3) by (simp add: gh_hvc_put_work_fn_def with_prv_def prv_def set_prv_def)
  then have "hvc_run_work call True i s = Done () ?t" using True hvc_inv_prv(1) [OF assms(2,3)] by (simp add: hvc_run_work_def with_prv_def)
  moreover have "hvc_inv ?t" using assms(2) hvc_inv_prv(2) [OF assms(2,3)] by (intro hvc_inv_set_prv) simp_all
  moreover have "hvc_streams out s [] ?t" using c(2) by (intro hvc_streams_set_prv [OF assms(2,3)]) simp_all
  ultimately show ?thesis using len assms(3) by (intro exI [of _ ?t]) (simp add: set_prv_def)
qed

lemma hvc_put_streams:
  assumes "hvc_inv s" "i < GH_VM_MAX"
  shows "\<exists>es t. hvc_step call (Put i buf) s = Done es t \<and> hvc_inv t \<and> hvc_streams out s es t"
proof -
  let ?p = "gh_hvc_data s ! i"
  obtain n f where f: "fifo_in (hv_put_fifo ?p) buf = (n, f)" by (cases "fifo_in (hv_put_fifo ?p) buf")
  note p = fifo_in_props [OF f hvc_inv_prv(3) [OF assms]]
  let ?q = "?p\<lparr>hv_put_fifo := f, hv_put_work := (hv_put_work ?p \<or> 0 < n)\<rparr>"
  have "hvc_step call (Put i buf) s = Done [Accepted i (take n buf)] (set_prv i ?q s)"
    using f vtermno_inv [OF assms(2)] hvc_inv_prv(1) [OF assms] assms(2) by (simp add: hvc_step_def gh_hvc_put_chars_def with_prv_def)
  moreover have "f \<noteq> [] \<longrightarrow> hv_put_work ?p \<or> 0 < n" using p(1) hvc_inv_prv(4) [OF assms] by (cases "n = 0") auto
  then have "hvc_inv (set_prv i ?q s)" using assms(1) hvc_inv_prv(2) [OF assms] p(3) by (intro hvc_inv_set_prv) simp_all
  moreover have "hvc_streams out s [Accepted i (take n buf)] (set_prv i ?q (s\<lparr>hc_rm := hc_rm s\<rparr>))"
    using p(1) by (intro hvc_streams_set_prv [OF assms]) (simp_all add: accepted_def received_def read_out_def)
  ultimately show ?thesis by simp
qed

lemma hvc_get_streams:
  assumes "hvc_inv s" "i < GH_VM_MAX"
  shows "\<exists>es t. hvc_step call (Get i n) s = Done es t \<and> hvc_inv t \<and> hvc_streams out s es t"
proof -
  let ?p = "gh_hvc_data s ! i"
  let ?q = "?p\<lparr>hv_get_fifo := drop n (hv_get_fifo ?p)\<rparr>" and ?es = "[Read_Out i (take n (hv_get_fifo ?p))]"
  have "hvc_step call (Get i n) s = Done ?es (set_prv i ?q s)"
    using vtermno_inv [OF assms(2)] hvc_inv_prv(1) [OF assms] assms(2) by (simp add: hvc_step_def gh_hvc_get_chars_def with_prv_def fifo_out_def)
  moreover have "hvc_inv (set_prv i ?q s)" using assms(1) hvc_inv_prv [OF assms] by (intro hvc_inv_set_prv) auto
  moreover have "hvc_streams out s ?es (set_prv i ?q (s\<lparr>hc_rm := hc_rm s\<rparr>))"
    by (intro hvc_streams_set_prv [OF assms]) (simp_all add: accepted_def received_def read_out_def)
  ultimately show ?thesis by simp
qed

lemma hvc_chars_streams:
  assumes "hvc_inv s" "4 + unat (of_le16 (drop 2 msg)) \<le> length msg"
  shows "\<exists>es t. hvc_step call (Chars cmd msg) s = Done es t \<and> hvc_inv t \<and> hvc_streams out s es t"
proof (cases "cmd = GH_RM_NOTIF_VM_CONSOLE_CHARS \<and> snd (gh_rm_get_vm_name (of_le16 msg) (hc_tbl s)) \<noteq> None")
  case False
  have "fst x = e \<Longrightarrow> snd x = None \<Longrightarrow> x = (e, None)" for x :: "int \<times> nat option" and e by (cases x) simp
  then show ?thesis using False assms by (auto simp: hvc_step_def gh_hvc_notify_console_chars_def split: prod.splits option.splits)
next
  case True
  then obtain r i where i: "gh_rm_get_vm_name (of_le16 msg) (hc_tbl s) = (r, Some i)" by (cases "gh_rm_get_vm_name (of_le16 msg) (hc_tbl s)") auto
  then have lt: "i < GH_VM_MAX" by (auto simp: gh_rm_get_vm_name_def find_Some_iff split: option.splits)
  let ?p = "gh_hvc_data s ! i" and ?b = "take (unat (of_le16 (drop 2 msg))) (drop 4 msg)"
  obtain n f where f: "fifo_in (hv_get_fifo ?p) ?b = (n, f)" by (cases "fifo_in (hv_get_fifo ?p) ?b")
  note p = fifo_in_props [OF f hvc_inv_prv(2) [OF assms(1) lt]]
  let ?q = "?p\<lparr>hv_get_fifo := f\<rparr>" and ?es = "[Received i (take (FIFO_SIZE - length (hv_get_fifo ?p)) ?b)]"
  have "hvc_step call (Chars cmd msg) s = Done ?es (set_prv i ?q s)"
    using True i f hvc_inv_prv(1) [OF assms(1) lt] assms(2) by (simp add: hvc_step_def gh_hvc_notify_console_chars_def with_prv_def Let_def)
  moreover have "hvc_inv (set_prv i ?q s)" using assms(1) hvc_inv_prv(3,4) [OF assms(1) lt] p(3) by (intro hvc_inv_set_prv) simp_all
  moreover have "take (min (length xs) k) xs = take k xs" for xs :: "u8 list" and k by (simp add: min_def)
  then have "take n ?b = take (FIFO_SIZE - length (hv_get_fifo ?p)) ?b" unfolding p(4) .
  then have "hvc_streams out s ?es (set_prv i ?q (s\<lparr>hc_rm := hc_rm s\<rparr>))"
    using p(1) by (intro hvc_streams_set_prv [OF assms(1) lt]) (simp_all add: accepted_def received_def read_out_def)
  ultimately show ?thesis by simp
qed

lemma hvc_flush_streams:
  assumes "console_takes out call" "hvc_inv s" "i < GH_VM_MAX"
  shows "\<exists>es t. hvc_step call (Flush i w) s = Done es t \<and> hvc_inv t \<and> hvc_streams out s es t"
proof (cases w)
  case True
  obtain t where t: "hvc_run_work call True i s = Done () t" "hvc_inv t" "hvc_streams out s [] t" using hvc_work_streams [OF assms] by blast
  obtain r c where c: "gh_rm_console_flush call (vp_vmid (hc_tbl s ! i)) (hc_rm t) = (r, c)"
    by (cases "gh_rm_console_flush call (vp_vmid (hc_tbl s ! i)) (hc_rm t)")
  have keep: "out (snd (call 0x56000084 req x)) = out x" for req x using assms(1) by (simp add: console_takes_def)
  have "out c = out (hc_rm t)" using c keep [of _ "hc_rm t"]
    by (auto simp: gh_rm_console_flush_def rm_command_def split: prod.splits sum.splits if_splits) (metis snd_conv)+
  then have "hvc_streams out s [] (t\<lparr>hc_rm := c\<rparr>)" using t(3) by (simp add: hvc_streams_def)
  moreover have "hvc_step call (Flush i w) s = Done [] (t\<lparr>hc_rm := c\<rparr>)"
    using True t(1) c vtermno_inv [OF assms(3)] hvc_get_vmid_known [OF assms(2,3)] assms(3)
    by (simp add: hvc_step_def gh_hvc_flush_def hvc_flush_work_def hvc_rm_def)
  ultimately show ?thesis using t(2) by simp
qed (use assms in \<open>simp add: hvc_step_def gh_hvc_flush_def\<close>)

lemma hvc_step_streams:
  assumes "console_takes out call" "hvc_inv s" "op_ok op"
  shows "\<exists>es t. hvc_step call op s = Done es t \<and> hvc_inv t \<and> hvc_streams out s es t"
proof (cases op)
  case (Work i)
  then show ?thesis using hvc_work_streams [OF assms(1,2), of i] assms(3) by (auto simp: hvc_step_def op_ok_def)
qed (use assms hvc_put_streams [OF assms(2)] hvc_get_streams [OF assms(2)] hvc_chars_streams [OF assms(2)] hvc_flush_streams [OF assms(1,2)] in \<open>simp_all add: op_ok_def\<close>)


definition con_demo_call :: "(gh_vmid_t \<Rightarrow> u8 list) rm_caller" where
  "con_demo_call mid req c = ((Some 0, Inr (None, 0)), if mid = 0x56000083 then c(of_le16 req := c (of_le16 req) @ drop 4 req) else c)"

definition con_demo :: "(gh_vmid_t \<Rightarrow> u8 list) hvc_state" where
  "con_demo = \<lparr>gh_hvc_data = replicate GH_VM_MAX new_prv, hc_tbl = map (\<lambda>i. vm_prop_zero\<lparr>vp_vmid := of_nat i\<rparr>) [0..<GH_VM_MAX], hc_core = True,
     hc_rm = (\<lambda>_. []), hc_nb = True\<rparr>"

lemma con_demo_ok: "console_takes (\<lambda>c. c) con_demo_call" "hvc_inv con_demo"
proof -
  show "console_takes (\<lambda>c. c) con_demo_call"
    by (simp add: console_takes_def con_demo_call_def)
  have "{1..<GH_VM_MAX} = {1, 2, 3, 4, 5, 6}" by auto
  then show "hvc_inv con_demo" by (simp add: hvc_inv_def con_demo_def new_prv_def upt_rec)
qed


end
