(* ===== verification/Udmabuf.thy ===== *)
theory Udmabuf
  imports Gunyah_Prelude
begin

text \<open>
  Exporting guest memory as a dma-buf (\<^verbatim>\<open>hyp-udmabuf/hyp_udmabuf.c\<close>). The arrays of regions and the
  buffer objects live in heaps; freeing or using a freed one is \<^term>\<open>Fault\<close>. A file descriptor maps
  to the dma-buf it holds; closing it drops the last reference and releases the buffer.
\<close>

section \<open>State\<close>

record guest_mem_region =
  gr_addr :: u64
  gr_len :: u64

record udmabuf =
  ub_dmabuf_fd :: int
  ub_size :: u64
  ub_nregions :: u32
  ub_list :: "ptr option"

text \<open>A dma-buf is its private object and the size it was exported with; a scatter list the page, the
  length and the offset of each region.\<close>

record ud_state =
  ud_lists :: "ptr \<Rightarrow> guest_mem_region list option"
  ud_ubufs :: "ptr \<Rightarrow> udmabuf option"
  ud_bufs :: "ptr \<Rightarrow> (ptr \<times> u64) option"
  ud_fds :: "int \<Rightarrow> ptr option"
  ud_sgts :: "ptr \<Rightarrow> (u64 \<times> u64 \<times> u64) list option"
  ud_next :: ptr

record hyp_udmabuf_create =
  hc_fd :: int
  hc_size :: u64
  hc_count :: u32
  hc_flags :: u32

text \<open>
  What the environment decides: the copies from and to user space (\<open>ud_from\<close> is the request, \<open>ud_regions\<close> the regions
  that follow it), allocations, \<^verbatim>\<open>dma_buf_export\<close> (0 or the error) and \<^verbatim>\<open>dma_buf_fd\<close>.
\<close>

record ud_env =
  ud_from :: "hyp_udmabuf_create option"
  ud_regions :: "guest_mem_region list option"
  ud_to :: bool
  ud_kz_list :: bool
  ud_kz_ubuf :: bool
  ud_export :: int
  ud_fd :: int

abbreviation (input) ENOTTY :: int where "ENOTTY \<equiv> 25"
abbreviation (input) list_limit :: nat where "list_limit \<equiv> 0x400000"
abbreviation (input) PAGE_MASK_BITS :: u64 where "PAGE_MASK_BITS \<equiv> 0xFFF"

definition kvfree :: "ptr option \<Rightarrow> ud_state \<Rightarrow> (unit, ud_state) outcome" where
  "kvfree l s =
     (case l of
        None \<Rightarrow> Done () s
      | Some p \<Rightarrow> if ud_lists s p = None then Fault else Done () (s\<lparr>ud_lists := (ud_lists s)(p := None)\<rparr>))"

section \<open>Releasing\<close>

definition hyp_udmabuf_release :: "ptr \<Rightarrow> ud_state \<Rightarrow> (unit, ud_state) outcome" where
  "hyp_udmabuf_release u s =
     (case ud_ubufs s u of
        None \<Rightarrow> Fault
      | Some ub \<Rightarrow> obind (kvfree (ub_list ub) s) (\<lambda>_ s. Done () (s\<lparr>ud_ubufs := (ud_ubufs s)(u := None)\<rparr>)))"

text \<open>\<^verbatim>\<open>dma_buf_put\<close> of the only reference.\<close>

definition dma_buf_put :: "ptr \<Rightarrow> ud_state \<Rightarrow> (unit, ud_state) outcome" where
  "dma_buf_put b s =
     (case ud_bufs s b of
        None \<Rightarrow> Fault
      | Some (u, sz) \<Rightarrow> hyp_udmabuf_release u (s\<lparr>ud_bufs := (ud_bufs s)(b := None)\<rparr>))"

definition ud_close :: "int \<Rightarrow> ud_state \<Rightarrow> (unit, ud_state) outcome" where
  "ud_close fd s =
     (case ud_fds s fd of None \<Rightarrow> Done () s | Some b \<Rightarrow> dma_buf_put b (s\<lparr>ud_fds := (ud_fds s)(fd := None)\<rparr>))"

section \<open>Mapping\<close>

text \<open>The loop of \<^verbatim>\<open>hyp_udmabuf_mmap\<close>: the ranges mapped, as address in the process, page frame and
  length, with the result. \<open>remap\<close> is \<^verbatim>\<open>remap_pfn_range\<close>.\<close>

fun mmap_regions ::
  "(u64 \<Rightarrow> u64 \<Rightarrow> u64 \<Rightarrow> int) \<Rightarrow> u64 \<Rightarrow> u64 \<Rightarrow> guest_mem_region list \<Rightarrow> int \<times> (u64 \<times> u64 \<times> u64) list" where
  "mmap_regions remap vm_end start [] = (0, [])"
| "mmap_regions remap vm_end start (r # rs) =
     (if vm_end - start < gr_len r \<and> \<not> start < vm_end then (- EINVAL, [])
      else let len = (if vm_end - start < gr_len r then vm_end - start else gr_len r);
               pfn = drop_bit 12 (gr_addr r);
               ret = remap start pfn len in
        if ret < 0 then (ret, [])
        else case mmap_regions remap vm_end (start + len) rs of (ret, ms) \<Rightarrow> (ret, (start, pfn, len) # ms))"

definition hyp_udmabuf_mmap ::
  "(u64 \<Rightarrow> u64 \<Rightarrow> u64 \<Rightarrow> int) \<Rightarrow> ptr \<Rightarrow> u64 \<Rightarrow> u64 \<Rightarrow> ud_state \<Rightarrow> (int \<times> (u64 \<times> u64 \<times> u64) list, ud_state) outcome" where
  "hyp_udmabuf_mmap remap b vm_start vm_end s =
     (case ud_bufs s b of
        None \<Rightarrow> Fault
      | Some (u, sz) \<Rightarrow>
          (case ud_ubufs s u of
             None \<Rightarrow> Fault
           | Some ub \<Rightarrow>
               if ub_nregions ub = 0 then Done (- EINVAL, []) s
               else (case ub_list ub of
                 None \<Rightarrow> Fault
               | Some l \<Rightarrow>
                   (case ud_lists s l of
                      None \<Rightarrow> Fault
                    | Some rs \<Rightarrow> if length rs < unat (ub_nregions ub) then Fault
                                 else Done (mmap_regions remap vm_end vm_start (take (unat (ub_nregions ub)) rs)) s))))"

text \<open>\<open>kz\<close> says whether the table and its entries can be allocated (the error of \<^verbatim>\<open>sg_alloc_table\<close>
  is \<^verbatim>\<open>-ENOMEM\<close> too), \<open>map_ret\<close> is the result of \<^verbatim>\<open>dma_map_sgtable\<close>.\<close>

definition sg_entries :: "guest_mem_region list \<Rightarrow> (u64 \<times> u64 \<times> u64) list" where
  "sg_entries rs = map (\<lambda>r. (drop_bit 12 (gr_addr r), gr_len r, gr_addr r AND PAGE_MASK_BITS)) rs"

definition hyp_udmabuf_get_sgt :: "bool \<Rightarrow> int \<Rightarrow> ptr \<Rightarrow> ud_state \<Rightarrow> (int + ptr, ud_state) outcome" where
  "hyp_udmabuf_get_sgt kz map_ret b s =
     (case ud_bufs s b of
        None \<Rightarrow> Fault
      | Some (u, sz) \<Rightarrow>
          (case ud_ubufs s u of
             None \<Rightarrow> Fault
           | Some ub \<Rightarrow>
               if \<not> kz then Done (Inl (- ENOMEM)) s
               else (case ub_list ub of
                 None \<Rightarrow> Fault
               | Some l \<Rightarrow>
                   (case ud_lists s l of
                      None \<Rightarrow> Fault
                    | Some rs \<Rightarrow>
                        if length rs < unat (ub_nregions ub) then Fault
                        else if map_ret < 0 then Done (Inl map_ret) s
                        else Done (Inr (ud_next s)) (s\<lparr>ud_sgts := (ud_sgts s)(ud_next s \<mapsto> sg_entries (take (unat (ub_nregions ub)) rs)), ud_next := ud_next s + 1\<rparr>)))))"

definition hyp_udmabuf_put_sgt :: "ptr \<Rightarrow> ud_state \<Rightarrow> (unit, ud_state) outcome" where
  "hyp_udmabuf_put_sgt t s = (if ud_sgts s t = None then Fault else Done () (s\<lparr>ud_sgts := (ud_sgts s)(t := None)\<rparr>))"

definition hyp_udmabuf_map :: "bool \<Rightarrow> int \<Rightarrow> ptr \<Rightarrow> ud_state \<Rightarrow> (int + ptr, ud_state) outcome" where
  "hyp_udmabuf_map kz map_ret dmabuf s = hyp_udmabuf_get_sgt kz map_ret dmabuf s"

definition hyp_udmabuf_unmap :: "ptr \<Rightarrow> ud_state \<Rightarrow> (unit, ud_state) outcome" where
  "hyp_udmabuf_unmap sgt s = hyp_udmabuf_put_sgt sgt s"

section \<open>Creating\<close>

definition PAGE_ALIGNED :: "u64 \<Rightarrow> bool" where
  "PAGE_ALIGNED x \<longleftrightarrow> x AND PAGE_MASK_BITS = 0"

definition PAGE_ALIGN :: "u64 \<Rightarrow> u64" where
  "PAGE_ALIGN x = (x + PAGE_MASK_BITS) AND NOT PAGE_MASK_BITS"

text \<open>The sum of the lengths, at 64 bits, or nothing for a region that is not aligned; the last one may
  have any length.\<close>

fun guest_size :: "guest_mem_region list \<Rightarrow> u64 \<Rightarrow> u64 option" where
  "guest_size [] sz = Some sz"
| "guest_size (r # rs) sz =
     (if PAGE_ALIGNED (gr_addr r) \<and> (PAGE_ALIGNED (gr_len r) \<or> rs = []) then guest_size rs (sz + gr_len r) else None)"

text \<open>The result and the request with its answer.\<close>

definition hyp_udmabuf_create_buf :: "ud_env \<Rightarrow> hyp_udmabuf_create \<Rightarrow> ptr \<Rightarrow> ud_state \<Rightarrow> (int \<times> hyp_udmabuf_create, ud_state) outcome" where
  "hyp_udmabuf_create_buf env head l s =
     (if hc_flags head \<noteq> 0 \<and> hc_flags head \<noteq> 1 \<and> hc_flags head \<noteq> 2 then Done (- EINVAL, head) s
      else if \<not> ud_kz_ubuf env then Done (- ENOMEM, head) s
      else case ud_lists s l of
        None \<Rightarrow> Fault
      | Some rs \<Rightarrow>
          let head = head\<lparr>hc_fd := - 1, hc_size := 0\<rparr> in
          if length rs < unat (hc_count head) then Fault
          else (case guest_size (take (unat (hc_count head)) rs) 0 of
            None \<Rightarrow> Done (- EINVAL, head) s
          | Some sz \<Rightarrow>
              if ud_export env < 0 then Done (ud_export env, head) s
              else let u = ud_next s; b = ud_next s + 1;
                       ub = \<lparr>ub_dmabuf_fd = 0, ub_size = 0, ub_nregions = hc_count head, ub_list = Some l\<rparr>;
                       s = s\<lparr>ud_next := ud_next s + 2, ud_bufs := (ud_bufs s)(b \<mapsto> (u, PAGE_ALIGN sz))\<rparr> in
                if ud_fd env < 0
                then obind (dma_buf_put b (s\<lparr>ud_ubufs := (ud_ubufs s)(u \<mapsto> ub\<lparr>ub_list := None\<rparr>)\<rparr>)) (\<lambda>_. Done (ud_fd env, head))
                else Done (0, head\<lparr>hc_size := sz, hc_fd := ud_fd env\<rparr>)
                       (s\<lparr>ud_ubufs := (ud_ubufs s)(u \<mapsto> ub\<lparr>ub_size := sz, ub_dmabuf_fd := ud_fd env\<rparr>),
                          ud_fds := (ud_fds s)(ud_fd env \<mapsto> b)\<rparr>)))"

text \<open>The result and, when it is 0, the answer for user space. The regions are freed on every failure,
  also when the answer cannot be copied although the dma-buf exists.\<close>

definition hyp_udmabuf_ioctl_create :: "ud_env \<Rightarrow> ud_state \<Rightarrow> (int \<times> hyp_udmabuf_create option, ud_state) outcome" where
  "hyp_udmabuf_ioctl_create env s =
     (case ud_from env of
        None \<Rightarrow> Done (- EFAULT, None) s
      | Some head \<Rightarrow>
          if hc_count head = 0 \<or> list_limit < unat (hc_count head) then Done (- EINVAL, None) s
          else if \<not> ud_kz_list env then Done (- ENOMEM, None) s
          else let l = ud_next s;
                   fail = (\<lambda>ret s. obind (kvfree (Some l) s) (\<lambda>_. Done (ret, None)));
                   alloc = (\<lambda>rs. s\<lparr>ud_next := l + 1, ud_lists := (ud_lists s)(l \<mapsto> rs)\<rparr>) in
            (case ud_regions env of
               None \<Rightarrow> fail (- EFAULT) (alloc (replicate (unat (hc_count head)) \<lparr>gr_addr = 0, gr_len = 0\<rparr>))
             | Some rs \<Rightarrow>
                 obind (hyp_udmabuf_create_buf env head l (alloc (take (unat (hc_count head)) rs))) (\<lambda>(ret, head) s.
                   if ret \<noteq> 0 then fail ret s
                   else if ud_to env then Done (0, Some head) s
                   else fail (- EFAULT) s)))"

definition hyp_udmabuf_ioctl :: "ud_env \<Rightarrow> bool \<Rightarrow> ud_state \<Rightarrow> (int \<times> hyp_udmabuf_create option, ud_state) outcome" where
  "hyp_udmabuf_ioctl env is_create s = (if is_create then hyp_udmabuf_ioctl_create env s else Done (- ENOTTY, None) s)"

section \<open>Module start\<close>

text \<open>\<open>reg\<close> and \<open>dma_mask\<close> are the results of \<^verbatim>\<open>misc_register\<close> and \<^verbatim>\<open>dma_coerce_mask_and_coherent\<close>; the result and whether the
  device is registered.\<close>

definition hyp_udmabuf_init :: "int \<Rightarrow> int \<Rightarrow> int \<times> bool" where
  "hyp_udmabuf_init reg dma_mask = (if reg < 0 then (reg, False) else if dma_mask < 0 then (dma_mask, False) else (0, True))"

definition hyp_udmabuf_exit :: "bool \<Rightarrow> bool" where
  "hyp_udmabuf_exit registered = False"

end
