(* ===== verification/Udmabuf_Correct.thy ===== *)
theory Udmabuf_Correct
  imports Udmabuf
begin

text \<open>
  Properties of exported guest memory: what a creation leaves behind in every case, what a mapping
  of the buffer covers, and what happens when the answer cannot be copied to user space.
\<close>

section \<open>Life of a buffer\<close>

definition ud_heaps :: "ud_state \<Rightarrow> (ptr \<Rightarrow> guest_mem_region list option) \<times> (ptr \<Rightarrow> udmabuf option) \<times> (ptr \<Rightarrow> (ptr \<times> u64) option) \<times> (int \<Rightarrow> ptr option)
     \<times> (ptr \<Rightarrow> (u64 \<times> u64 \<times> u64) list option)" where
  "ud_heaps s = (ud_lists s, ud_ubufs s, ud_bufs s, ud_fds s, ud_sgts s)"

definition ud_fresh :: "ud_env \<Rightarrow> ud_state \<Rightarrow> bool" where
  "ud_fresh env s \<longleftrightarrow> (\<forall>p\<ge>ud_next s. ud_lists s p = None \<and> ud_ubufs s p = None \<and> ud_bufs s p = None \<and> ud_sgts s p = None) \<and> ud_fds s (ud_fd env) = None"

text \<open>A request with its regions, one for each counted.\<close>

definition ud_request :: "ud_env \<Rightarrow> hyp_udmabuf_create \<Rightarrow> guest_mem_region list \<Rightarrow> bool" where
  "ud_request env head rs \<longleftrightarrow> ud_from env = Some head \<and> ud_regions env = Some rs \<and> length rs = unat (hc_count head)"

text \<open>When the request is accepted: by its mode, its number of regions, their alignment and the environment.\<close>

definition ud_accepted :: "ud_env \<Rightarrow> hyp_udmabuf_create \<Rightarrow> guest_mem_region list \<Rightarrow> bool" where
  "ud_accepted env head rs \<longleftrightarrow> rs \<noteq> [] \<and> length rs \<le> list_limit \<and> ud_kz_list env \<and> ud_kz_ubuf env \<and> unat (hc_flags head) \<le> 2 \<and>
     0 \<le> ud_export env \<and> 0 \<le> ud_fd env \<and> (\<forall>r\<in>set rs. PAGE_ALIGNED (gr_addr r)) \<and> (\<forall>r\<in>set (butlast rs). PAGE_ALIGNED (gr_len r))"

lemma guest_size_Some:
  "guest_size rs sz = (if (\<forall>r\<in>set rs. PAGE_ALIGNED (gr_addr r)) \<and> (\<forall>r\<in>set (butlast rs). PAGE_ALIGNED (gr_len r))
     then Some (sz + sum_list (map gr_len rs)) else None)"
  by (induction rs arbitrary: sz) (auto simp: add.assoc)

text \<open>The state after a successful creation: the regions, the object, the dma-buf and its descriptor.\<close>

definition ud_created :: "ud_env \<Rightarrow> guest_mem_region list \<Rightarrow> u32 \<Rightarrow> ud_state \<Rightarrow> ud_state" where
  "ud_created env rs n s =
     (let l = ud_next s; u = l + 1; b = l + 2; sz = sum_list (map gr_len rs) in
      s\<lparr>ud_next := l + 3, ud_lists := (ud_lists s)(l \<mapsto> rs),
        ud_ubufs := (ud_ubufs s)(u \<mapsto> \<lparr>ub_dmabuf_fd = ud_fd env, ub_size = sz, ub_nregions = n, ub_list = Some l\<rparr>),
        ud_bufs := (ud_bufs s)(b \<mapsto> (u, PAGE_ALIGN sz)), ud_fds := (ud_fds s)(ud_fd env \<mapsto> b)\<rparr>)"

lemma flags_le2: "(x :: u32) = 0 \<or> x = 1 \<or> x = 2 \<longleftrightarrow> unat x \<le> 2"
proof
  assume "unat x \<le> 2"
  then have "unat x = 0 \<or> unat x = 1 \<or> unat x = 2" by linarith
  then show "x = 0 \<or> x = 1 \<or> x = 2" by (auto simp: word_unat_eq_iff)
qed auto

lemma create_buf_ok:
  assumes "ud_accepted env head rs" "length rs = unat (hc_count head)"
  shows "hyp_udmabuf_create_buf env head (ud_next s) (s\<lparr>ud_next := ud_next s + 1, ud_lists := (ud_lists s)(ud_next s \<mapsto> rs)\<rparr>) =
    Done (0, head\<lparr>hc_size := sum_list (map gr_len rs), hc_fd := ud_fd env\<rparr>) (ud_created env rs (hc_count head) s)"
proof -
  have flags: "\<not> (hc_flags head \<noteq> 0 \<and> hc_flags head \<noteq> 1 \<and> hc_flags head \<noteq> 2)" using flags_le2 [of "hc_flags head"] assms(1) by (auto simp: ud_accepted_def)
  have "guest_size rs 0 = Some (sum_list (map gr_len rs))" using assms(1) by (simp add: guest_size_Some ud_accepted_def)
  then show ?thesis using flags assms unfolding hyp_udmabuf_create_buf_def by (simp add: ud_accepted_def ud_created_def Let_def)
qed

lemma create_buf_fails:
  assumes "ud_fresh env s" "\<not> ud_accepted env head rs" "length rs = unat (hc_count head)" "rs \<noteq> []" "length rs \<le> list_limit" "ud_kz_list env"
    and "s1 = s\<lparr>ud_next := ud_next s + 1, ud_lists := (ud_lists s)(ud_next s \<mapsto> rs)\<rparr>"
  shows "\<exists>ret h t. hyp_udmabuf_create_buf env head (ud_next s) s1 = Done (ret, h) t \<and> ret \<noteq> 0 \<and> ud_heaps t = ud_heaps s1"
proof -
  let ?aligned = "(\<forall>r\<in>set rs. PAGE_ALIGNED (gr_addr r)) \<and> (\<forall>r\<in>set (butlast rs). PAGE_ALIGNED (gr_len r))"
  have list: "ud_lists s1 (ud_next s) = Some rs" using assms(7) by simp
  consider "\<not> unat (hc_flags head) \<le> 2" | "unat (hc_flags head) \<le> 2" "\<not> ud_kz_ubuf env" | "unat (hc_flags head) \<le> 2" "ud_kz_ubuf env" "\<not> ?aligned"
    | "unat (hc_flags head) \<le> 2" "ud_kz_ubuf env" ?aligned "ud_export env < 0"
    | "unat (hc_flags head) \<le> 2" "ud_kz_ubuf env" ?aligned "0 \<le> ud_export env" "ud_fd env < 0"
    using assms(2,4-6) unfolding ud_accepted_def by linarith
  then show ?thesis
  proof cases
    case 5
    have "ud_ubufs s (Suc (ud_next s)) = None" "ud_bufs s (Suc (Suc (ud_next s))) = None" using assms(1) by (simp_all add: ud_fresh_def)
    then show ?thesis using 5 list assms(3,7) flags_le2 [of "hc_flags head"]
      by (auto simp: hyp_udmabuf_create_buf_def guest_size_Some Let_def dma_buf_put_def hyp_udmabuf_release_def kvfree_def ud_heaps_def fun_upd_idem)
  qed (use list assms(3) flags_le2 [of "hc_flags head"] in \<open>auto simp: hyp_udmabuf_create_buf_def guest_size_Some Let_def\<close>)
qed

text \<open>The ranges that cover the regions one after the other.\<close>

fun cover :: "u64 \<Rightarrow> guest_mem_region list \<Rightarrow> (u64 \<times> u64 \<times> u64) list" where
  "cover start [] = []"
| "cover start (r # rs) = (start, drop_bit 12 (gr_addr r), gr_len r) # cover (start + gr_len r) rs"

lemma mmap_regions_cover:
  assumes "\<forall>a p n. 0 \<le> remap a p n" "sum_list (map (unat \<circ> gr_len) rs) < 2 ^ 64"
  shows "mmap_regions remap (start + sum_list (map gr_len rs)) start rs = (0, cover start rs)"
  using assms(2)
proof (induction rs arbitrary: start)
  case (Cons r rs)
  have sum: "unat (sum_list (map gr_len rs)) = sum_list (map (unat \<circ> gr_len) rs)" if "sum_list (map (unat \<circ> gr_len) rs) < 2 ^ 64" for rs
    using that
  proof (induction rs)
    case (Cons r rs)
    have "unat (gr_len r) + unat (sum_list (map gr_len rs)) < 2 ^ 64" using Cons by simp
    then have "unat (gr_len r + sum_list (map gr_len rs)) = unat (gr_len r) + unat (sum_list (map gr_len rs))" by (intro unat_add_lem [THEN iffD1]) simp
    then show ?case using Cons by simp
  qed simp
  have "unat (gr_len r) \<le> unat (sum_list (map gr_len (r # rs)))" unfolding sum [OF Cons.prems] by simp
  then have "\<not> start + sum_list (map gr_len (r # rs)) - start < gr_len r" by (simp add: word_less_nat_alt)
  moreover have "mmap_regions remap (start + gr_len r + sum_list (map gr_len rs)) (start + gr_len r) rs = (0, cover (start + gr_len r) rs)"
    using Cons by simp
  moreover have "0 \<le> remap start (drop_bit 12 (gr_addr r)) (gr_len r)" using assms(1) by blast
  ultimately show ?case by (simp add: Let_def add.assoc)
qed simp

lemma ud_create_accepted:
  assumes "ud_request env head rs" "ud_accepted env head rs"
  shows "hyp_udmabuf_ioctl_create env s =
    (let t = ud_created env rs (hc_count head) s in
     if ud_to env then Done (0, Some (head\<lparr>hc_size := sum_list (map gr_len rs), hc_fd := ud_fd env\<rparr>)) t
     else Done (- EFAULT, None) (t\<lparr>ud_lists := (ud_lists t)(ud_next s := None)\<rparr>))"
proof -
  have n: "hc_count head \<noteq> 0" "unat (hc_count head) \<le> list_limit" "ud_kz_list env"
    using assms by (auto simp: ud_request_def ud_accepted_def)
  have l: "ud_lists (ud_created env rs (hc_count head) s) (ud_next s) = Some rs" by (simp add: ud_created_def Let_def)
  show ?thesis using assms n l create_buf_ok [OF assms(2), of s]
    by (simp add: hyp_udmabuf_ioctl_create_def ud_request_def Let_def kvfree_def)
qed

lemma ud_created_at:
  "ud_fds (ud_created env rs n s) (ud_fd env) = Some (ud_next s + 2)"
  "ud_bufs (ud_created env rs n s) (ud_next s + 2) = Some (ud_next s + 1, PAGE_ALIGN (sum_list (map gr_len rs)))"
  "ud_ubufs (ud_created env rs n s) (ud_next s + 1) =
     Some \<lparr>ub_dmabuf_fd = ud_fd env, ub_size = sum_list (map gr_len rs), ub_nregions = n, ub_list = Some (ud_next s)\<rparr>"
  "ud_lists (ud_created env rs n s) (ud_next s) = Some rs"
  by (simp_all add: ud_created_def Let_def)


definition ud_demo :: ud_state where
  "ud_demo = \<lparr>ud_lists = Map.empty, ud_ubufs = Map.empty, ud_bufs = Map.empty, ud_fds = Map.empty, ud_sgts = Map.empty, ud_next = 0\<rparr>"

definition ud_demo_head :: hyp_udmabuf_create where
  "ud_demo_head = \<lparr>hc_fd = 0, hc_size = 0, hc_count = 2, hc_flags = 2\<rparr>"

definition ud_demo_regions :: "guest_mem_region list" where
  "ud_demo_regions = [\<lparr>gr_addr = 0x8000, gr_len = 0x2000\<rparr>, \<lparr>gr_addr = 0x4000, gr_len = 0x10\<rparr>]"

definition ud_demo_env :: "bool \<Rightarrow> ud_env" where
  "ud_demo_env to = \<lparr>ud_from = Some ud_demo_head, ud_regions = Some ud_demo_regions, ud_to = to, ud_kz_list = True, ud_kz_ubuf = True, ud_export = 0, ud_fd = 5\<rparr>"

lemma ud_demo_ok:
  "ud_fresh (ud_demo_env to) ud_demo" "ud_request (ud_demo_env to) ud_demo_head ud_demo_regions" "ud_accepted (ud_demo_env to) ud_demo_head ud_demo_regions"
  by (simp_all add: ud_fresh_def ud_demo_def ud_request_def ud_demo_env_def ud_demo_head_def ud_demo_regions_def ud_accepted_def PAGE_ALIGNED_def)


text \<open>C37: When the answer to an accepted request cannot be copied to user space, the request fails with
  \<^verbatim>\<open>-EFAULT\<close> but the dma-buf stays open with its regions freed: mapping it reads freed memory and
  closing it frees the regions a second time.\<close>

theorem hyp_udmabuf_copy_failure_double_free:
  assumes "ud_request env head rs" "ud_accepted env head rs" "\<not> ud_to env"
  shows "\<exists>t b. hyp_udmabuf_ioctl_create env s = Done (- EFAULT, None) t \<and> ud_fds t (ud_fd env) = Some b \<and>
    ud_close (ud_fd env) t = Fault \<and> (\<forall>remap start vm_end. hyp_udmabuf_mmap remap b start vm_end t = Fault)"
proof -
  let ?t = "(ud_created env rs (hc_count head) s)\<lparr>ud_lists := (ud_lists (ud_created env rs (hc_count head) s))(ud_next s := None)\<rparr>"
  have run: "hyp_udmabuf_ioctl_create env s = Done (- EFAULT, None) ?t"
    using ud_create_accepted [OF assms(1,2), of s] assms(3) by (simp add: Let_def)
  have n: "hc_count head \<noteq> 0" using assms(1,2) by (auto simp: ud_request_def ud_accepted_def)
  note at = ud_created_at [of env rs "hc_count head" s]
  have "ud_close (ud_fd env) ?t = Fault" using at by (simp add: ud_close_def dma_buf_put_def hyp_udmabuf_release_def kvfree_def)
  moreover have "hyp_udmabuf_mmap remap (ud_next s + 2) start vm_end ?t = Fault" for remap start vm_end
    using at n by (simp add: hyp_udmabuf_mmap_def)
  ultimately show ?thesis using run at(1) by (intro exI [of _ ?t] exI [of _ "ud_next s + 2"]) simp
qed

theorem hyp_udmabuf_copy_failure_double_free_witness:
  "\<exists>t. hyp_udmabuf_ioctl_create (ud_demo_env False) ud_demo = Done (- EFAULT, None) t \<and> ud_close 5 t = Fault"
proof -
  have "\<not> ud_to (ud_demo_env False)" "ud_fd (ud_demo_env False) = 5" by (simp_all add: ud_demo_env_def)
  then show ?thesis using hyp_udmabuf_copy_failure_double_free [OF ud_demo_ok(2,3), of False ud_demo] by auto
qed

end
