(* ===== verification/Gvm_Dump.thy ===== *)
theory Gvm_Dump
  imports Gunyah_Prelude
begin

text \<open>
  Collecting the memory of a VM that has ended (\<^verbatim>\<open>drivers/virt/gunyah/gvm_dump_debugfs.c\<close>). A context holds
  the memory regions of one VM; its debugfs directory offers one file per region and two text
  files. \<open>ds_mem\<close> is the physical memory, from the start of a region to its bytes; \<open>ds_maps\<close> the
  mappings that exist, by context and region. The lock of a context is held while a region's file
  is open: whoever waits for it is \<^term>\<open>Blocked\<close>. Using a mapping, an array element or a list entry that
  is not there is \<^term>\<open>Fault\<close>. \<open>sanitize\<close> is \<^verbatim>\<open>CONFIG_QCOM_SANITIZE_GVM_MEMORY\<close>.
\<close>

section \<open>State\<close>

record gvm_ramdump_ctx =
  gd_vmid :: int
  gd_num_mem_regions :: int
  gd_start_addr :: "u64 list"
  gd_size :: "u64 list"
  gd_mapped_addr :: "u64 option list"
  gd_dir :: bool
  gd_locked :: bool

record dump_state =
  ds_ctxs :: "ptr \<Rightarrow> gvm_ramdump_ctx option"
  gvm_ramdump_list :: "ptr list"
  is_gvm_ramdump_enabled :: bool
  ds_enable_dentry :: bool
  ds_mem :: "u64 \<Rightarrow> u8 list"
  ds_maps :: "(ptr \<times> nat) set"
  ds_next :: ptr

definition with_ctx :: "ptr \<Rightarrow> dump_state \<Rightarrow> (gvm_ramdump_ctx \<Rightarrow> ('a, dump_state) outcome) \<Rightarrow> ('a, dump_state) outcome" where
  "with_ctx c s f = (case ds_ctxs s c of None \<Rightarrow> Fault | Some x \<Rightarrow> f x)"

definition set_ctx :: "ptr \<Rightarrow> gvm_ramdump_ctx \<Rightarrow> dump_state \<Rightarrow> dump_state" where
  "set_ctx c x s = s\<lparr>ds_ctxs := (ds_ctxs s)(c \<mapsto> x)\<rparr>"

text \<open>Regions of a context as far as its arrays reach.\<close>

definition ctx_region :: "gvm_ramdump_ctx \<Rightarrow> nat \<Rightarrow> (u64 \<times> u64) option" where
  "ctx_region x i = (if i < length (gd_start_addr x) \<and> i < length (gd_size x) \<and> i < length (gd_mapped_addr x) then Some (gd_start_addr x ! i, gd_size x ! i) else None)"

section \<open>Cleaning up\<close>

text \<open>\<open>remap\<close> says whether \<^verbatim>\<open>memremap\<close> succeeds.\<close>

fun sanitize_regions :: "(nat \<Rightarrow> bool) \<Rightarrow> ptr \<Rightarrow> nat list \<Rightarrow> dump_state \<Rightarrow> (unit, dump_state) outcome" where
  "sanitize_regions remap c [] s = Done () s"
| "sanitize_regions remap c (i # is) s =
     with_ctx c s (\<lambda>x.
       case ctx_region x i of
         None \<Rightarrow> Fault
       | Some (start, sz) \<Rightarrow>
           sanitize_regions remap c is
             ((set_ctx c (x\<lparr>gd_mapped_addr := (gd_mapped_addr x)[i := (if remap i then Some start else None)]\<rparr>) s)
                \<lparr>ds_mem := (if remap i then (ds_mem s)(start := replicate (unat sz) 0) else ds_mem s)\<rparr>))"

definition sanitize_gvm_region :: "bool \<Rightarrow> (nat \<Rightarrow> bool) \<Rightarrow> ptr \<Rightarrow> dump_state \<Rightarrow> (unit, dump_state) outcome" where
  "sanitize_gvm_region sanitize remap c s =
     (if \<not> sanitize then Done () s
      else with_ctx c s (\<lambda>x. if gd_locked x then Blocked s else sanitize_regions remap c [0..<nat (gd_num_mem_regions x)] s))"

definition cleanup_single_gvm :: "ptr \<Rightarrow> dump_state \<Rightarrow> (unit, dump_state) outcome" where
  "cleanup_single_gvm c s =
     with_ctx c s (\<lambda>x.
       if gd_locked x then Blocked s
       else if c \<notin> set (gvm_ramdump_list s) then Fault
       else Done () ((set_ctx c (x\<lparr>gd_dir := False\<rparr>) s)\<lparr>gvm_ramdump_list := remove1 c (gvm_ramdump_list s)\<rparr>))"

fun cleanup_ctxs :: "(int \<Rightarrow> bool) \<Rightarrow> bool \<Rightarrow> (nat \<Rightarrow> bool) \<Rightarrow> ptr list \<Rightarrow> dump_state \<Rightarrow> (unit, dump_state) outcome" where
  "cleanup_ctxs P sanitize remap [] s = Done () s"
| "cleanup_ctxs P sanitize remap (c # cs) s =
     with_ctx c s (\<lambda>x.
       obind (if P (gd_vmid x) then obind (sanitize_gvm_region sanitize remap c s) (\<lambda>_. cleanup_single_gvm c) else Done () s)
         (\<lambda>_. cleanup_ctxs P sanitize remap cs))"

definition cleanup_gvm_ramdump_ctx :: "bool \<Rightarrow> (nat \<Rightarrow> bool) \<Rightarrow> int \<Rightarrow> dump_state \<Rightarrow> (unit, dump_state) outcome" where
  "cleanup_gvm_ramdump_ctx sanitize remap gvm_id s = cleanup_ctxs (\<lambda>v. gvm_id = v) sanitize remap (gvm_ramdump_list s) s"

definition cleanup_gvm_ramdump_list :: "dump_state \<Rightarrow> (unit, dump_state) outcome" where
  "cleanup_gvm_ramdump_list s =
     obind (cleanup_ctxs (\<lambda>_. True) False (\<lambda>_. False) (gvm_ramdump_list s) s) (\<lambda>_ s. Done () (s\<lparr>ds_enable_dentry := False\<rparr>))"

section \<open>Names and numbers\<close>

text \<open>The digits of a number, and what \<^verbatim>\<open>%d\<close>, \<^verbatim>\<open>%lu\<close> and \<^verbatim>\<open>%lx\<close> print.\<close>

definition digit :: "nat \<Rightarrow> char" where
  "digit d = (if d < 10 then char_of (48 + d) else char_of (87 + d))"

function print_nat :: "nat \<Rightarrow> nat \<Rightarrow> string" where
  "print_nat base n = (if base < 2 \<or> n < base then [digit n] else print_nat base (n div base) @ [digit (n mod base)])"
  by pat_completeness auto
termination
  by (relation "measure snd") (auto intro: div_less_dividend)

declare print_nat.simps [simp del]

definition region_file :: "nat \<Rightarrow> string" where
  "region_file idx = ''VMDDRCS'' @ print_nat 10 idx @ ''.bin''"

text \<open>The number of a file is the digit in front of the first dot.\<close>

definition get_ramdump_id :: "string \<Rightarrow> int \<Rightarrow> int" where
  "get_ramdump_id d_iname num_mem_regions =
     (let name = takeWhile (\<lambda>c. c \<noteq> CHR ''.'') d_iname in
      if length name = length d_iname \<or> name = [] then - EINVAL
      else let c = of_char (last name) :: nat in
        if c < 48 \<or> 57 < c then - EINVAL
        else if num_mem_regions \<le> int (c - 48) then - EINVAL else int (c - 48))"

section \<open>Files of regions\<close>

abbreviation (input) ENOENT :: int where "ENOENT \<equiv> 2"

text \<open>A file that no longer exists cannot be opened.\<close>

definition gvm_debugfs_open :: "bool \<Rightarrow> ptr \<Rightarrow> string \<Rightarrow> dump_state \<Rightarrow> (int, dump_state) outcome" where
  "gvm_debugfs_open remap c name s =
     with_ctx c s (\<lambda>x.
       let ramdump_id = get_ramdump_id name (gd_num_mem_regions x); i = nat ramdump_id;
           fail = (\<lambda>s. obind (cleanup_single_gvm c s) (\<lambda>_. Done (- EFAULT))) in
       if \<not> gd_dir x then Done (- ENOENT) s
       else if ramdump_id < 0 then fail s
       else if gd_locked x then Blocked s
       else case ctx_region x i of
         None \<Rightarrow> Fault
       | Some (start, sz) \<Rightarrow>
           if remap
           then Done 0 ((set_ctx c (x\<lparr>gd_locked := True, gd_mapped_addr := (gd_mapped_addr x)[i := Some start]\<rparr>) s)\<lparr>ds_maps := insert (c, i) (ds_maps s)\<rparr>)
           else fail (set_ctx c (x\<lparr>gd_mapped_addr := (gd_mapped_addr x)[i := None]\<rparr>) s))"

text \<open>\<^verbatim>\<open>simple_read_from_buffer\<close>; \<open>to\<close> says whether the copy to user space succeeds.\<close>

definition simple_read :: "bool \<Rightarrow> nat \<Rightarrow> nat \<Rightarrow> 'a list \<Rightarrow> int \<times> 'a list" where
  "simple_read to count pos buf = (let b = take count (drop pos buf) in if b \<noteq> [] \<and> \<not> to then (- EFAULT, []) else (int (length b), b))"

definition gvm_debugfs_read :: "bool \<Rightarrow> ptr \<Rightarrow> string \<Rightarrow> nat \<Rightarrow> nat \<Rightarrow> dump_state \<Rightarrow> (int \<times> u8 list, dump_state) outcome" where
  "gvm_debugfs_read to c name count pos s =
     with_ctx c s (\<lambda>x.
       let ramdump_id = get_ramdump_id name (gd_num_mem_regions x); i = nat ramdump_id in
       if ramdump_id < 0 then Done (- 1, []) s
       else case ctx_region x i of
         None \<Rightarrow> Fault
       | Some (start, sz) \<Rightarrow>
           (case gd_mapped_addr x ! i of
              None \<Rightarrow> Fault
            | Some a \<Rightarrow>
                if (c, i) \<notin> ds_maps s then Fault
                else let (ret, b) = simple_read to count pos (take (unat sz) (ds_mem s a)) in
                  Done (if ret < 0 then (- 1, []) else (ret, b)) s))"

definition gvm_debugfs_release :: "ptr \<Rightarrow> string \<Rightarrow> dump_state \<Rightarrow> (int, dump_state) outcome" where
  "gvm_debugfs_release c name s =
     with_ctx c s (\<lambda>x.
       let ramdump_id = get_ramdump_id name (gd_num_mem_regions x); i = nat ramdump_id in
       if ramdump_id < 0 then Done (- 1) s
       else case ctx_region x i of
         None \<Rightarrow> Fault
       | Some _ \<Rightarrow>
           if gd_mapped_addr x ! i \<noteq> None \<and> (c, i) \<notin> ds_maps s then Fault
           else Done 0 ((set_ctx c (x\<lparr>gd_locked := False\<rparr>) s)\<lparr>ds_maps := ds_maps s - {(c, i)}\<rparr>))"

section \<open>Text files\<close>

abbreviation (input) DUMP_INFO_BUFFER_SIZE :: nat where "DUMP_INFO_BUFFER_SIZE \<equiv> 512"

definition TAB :: char where "TAB = CHR 0x09"
definition NL :: char where "NL = CHR 0x0A"

text \<open>\<^verbatim>\<open>strlcat\<close> at the end of the text and \<^verbatim>\<open>snprintf\<close> at an offset keep a NUL at the end of the buffer.\<close>

definition strlcat :: "string \<Rightarrow> string \<Rightarrow> string" where
  "strlcat t x = take (DUMP_INFO_BUFFER_SIZE - 1) (t @ x)"

definition snprintf_at :: "nat \<Rightarrow> string \<Rightarrow> string \<Rightarrow> string" where
  "snprintf_at off t x = take off t @ take (DUMP_INFO_BUFFER_SIZE - 1 - off) x"

text \<open>One line: the text and the length the code keeps; nothing when the code gives up.\<close>

definition info_line :: "nat \<Rightarrow> u64 \<Rightarrow> u64 \<Rightarrow> string \<times> nat \<Rightarrow> (string \<times> nat) option" where
  "info_line idx start sz = (\<lambda>(t, cur).
     let pref = ''1'' @ [TAB, TAB]; reg = ''DDR'' @ [TAB, TAB];
         addr = ''0x'' @ print_nat 16 (unat start) @ [TAB]; len = print_nat 10 (unat sz) @ [TAB];
         file = region_file idx @ [NL] in
     if DUMP_INFO_BUFFER_SIZE \<le> cur + length pref then None
     else let t = strlcat t pref; cur = cur + length pref;
              t = snprintf_at cur t addr; cur = cur + length addr in
       if DUMP_INFO_BUFFER_SIZE \<le> cur then None
       else let t = snprintf_at cur t len; cur = cur + length len in
         if DUMP_INFO_BUFFER_SIZE \<le> cur + length reg then None
         else let t = strlcat t reg; cur = cur + length reg;
                  t = snprintf_at cur t file in Some (t, cur + length file))"

fun info_lines :: "nat \<Rightarrow> (u64 \<times> u64) list \<Rightarrow> string \<times> nat \<Rightarrow> (string \<times> nat) option" where
  "info_lines idx [] st = Some st"
| "info_lines idx ((start, sz) # rs) st = (case info_line idx start sz st of None \<Rightarrow> None | Some st \<Rightarrow> info_lines (idx + 1) rs st)"

definition info_header :: string where
  "info_header = ''pref'' @ [TAB, TAB] @ ''base'' @ [TAB, TAB] @ ''length'' @ [TAB, TAB] @ ''region'' @ [TAB, TAB] @ ''file name'' @ [TAB, TAB, NL]"

definition info_dots :: string where
  "info_dots = replicate 74 CHR ''-'' @ [NL]"

definition buf512 :: "string \<Rightarrow> string" where
  "buf512 t = take DUMP_INFO_BUFFER_SIZE (t @ replicate DUMP_INFO_BUFFER_SIZE (CHR 0x00))"

text \<open>Regions beyond the arrays are read out of bounds.\<close>

definition ctx_regions :: "gvm_ramdump_ctx \<Rightarrow> (u64 \<times> u64) list option" where
  "ctx_regions x =
     (if nat (gd_num_mem_regions x) \<le> length (gd_start_addr x) \<and> nat (gd_num_mem_regions x) \<le> length (gd_size x)
      then Some (take (nat (gd_num_mem_regions x)) (zip (gd_start_addr x) (gd_size x))) else None)"

definition dump_info_read :: "bool \<Rightarrow> ptr \<Rightarrow> nat \<Rightarrow> nat \<Rightarrow> dump_state \<Rightarrow> (int \<times> string, dump_state) outcome" where
  "dump_info_read to c count pos s =
     with_ctx c s (\<lambda>x.
       case ctx_regions x of
         None \<Rightarrow> Fault
       | Some rs \<Rightarrow>
           (case info_lines 0 rs (strlcat (strlcat '''' info_header) info_dots, length info_header + length info_dots) of
              None \<Rightarrow> Done (- 1, []) s
            | Some (t, _) \<Rightarrow> (case simple_read to count pos (buf512 t) of (ret, b) \<Rightarrow> Done (if ret < 0 then (- 1, []) else (ret, b)) s)))"

definition cmm_line :: "nat \<Rightarrow> u64 \<Rightarrow> string \<times> nat \<Rightarrow> (string \<times> nat) option" where
  "cmm_line idx start = (\<lambda>(t, cur).
     let cmd = ''d.load.binary ''; cmd_2 = ''/noclear'' @ [NL];
         file = region_file idx @ '' ''; addr = ''0x'' @ print_nat 16 (unat start) @ '' '' in
     if DUMP_INFO_BUFFER_SIZE \<le> cur + length cmd then None
     else let t = strlcat t cmd; cur = cur + length cmd;
              t = snprintf_at cur t file; cur = cur + length file in
       if DUMP_INFO_BUFFER_SIZE \<le> cur then None
       else let t = snprintf_at cur t addr; cur = cur + length addr in
         if DUMP_INFO_BUFFER_SIZE \<le> cur then None
         else Some (strlcat t cmd_2, cur + length cmd_2))"

fun cmm_lines :: "nat \<Rightarrow> (u64 \<times> u64) list \<Rightarrow> string \<times> nat \<Rightarrow> (string \<times> nat) option" where
  "cmm_lines idx [] st = Some st"
| "cmm_lines idx ((start, sz) # rs) st = (case cmm_line idx start st of None \<Rightarrow> None | Some st \<Rightarrow> cmm_lines (idx + 1) rs st)"

definition load_cmm_read :: "bool \<Rightarrow> ptr \<Rightarrow> nat \<Rightarrow> nat \<Rightarrow> dump_state \<Rightarrow> (int \<times> string, dump_state) outcome" where
  "load_cmm_read to c count pos s =
     with_ctx c s (\<lambda>x.
       case ctx_regions x of
         None \<Rightarrow> Fault
       | Some rs \<Rightarrow>
           (case cmm_lines 0 rs ('''', 0) of
              None \<Rightarrow> Done (- 1, []) s
            | Some (t, _) \<Rightarrow> (case simple_read to count pos (buf512 t) of (ret, b) \<Rightarrow> Done (if ret < 0 then (- 1, []) else (ret, b)) s)))"

section \<open>Collecting\<close>

text \<open>The device tree: \<open>dn_region i\<close> is the address and size of region \<open>i\<close>, if it can be read.\<close>

record dump_node =
  dn_enable :: bool
  dn_vmid :: "int option"
  dn_count :: int
  dn_region :: "nat \<Rightarrow> (u64 \<times> u64) option"
  dn_fw_name :: "int + string"

text \<open>Each array has one element: the second region is written past its end.\<close>

fun read_regions :: "dump_node \<Rightarrow> nat list \<Rightarrow> gvm_ramdump_ctx \<Rightarrow> dump_state \<Rightarrow> (int \<times> gvm_ramdump_ctx, dump_state) outcome" where
  "read_regions n [] x s = Done (0, x) s"
| "read_regions n (i # is) x s =
     (case dn_region n i of
        None \<Rightarrow> Done (- EINVAL, x) s
      | Some (start, sz) \<Rightarrow>
          if length (gd_start_addr x) \<le> i then Fault
          else read_regions n is (x\<lparr>gd_start_addr := (gd_start_addr x)[i := start], gd_size := (gd_size x)[i := sz]\<rparr>) s)"

definition get_gvm_resource :: "bool \<Rightarrow> dump_node \<Rightarrow> gvm_ramdump_ctx \<Rightarrow> dump_state \<Rightarrow> (int \<times> gvm_ramdump_ctx, dump_state) outcome" where
  "get_gvm_resource kz n x s =
     (if \<not> dn_enable n then Done (- EINVAL, x) s
      else case dn_vmid n of
        None \<Rightarrow> Done (- EINVAL, x) s
      | Some vmid \<Rightarrow>
          let x = x\<lparr>gd_vmid := vmid, gd_num_mem_regions := dn_count n\<rparr> in
          if dn_count n = 0 then Done (- EINVAL, x) s
          else if \<not> kz then Done (- ENOMEM, x) s
          else read_regions n [0..<nat (dn_count n)] (x\<lparr>gd_start_addr := [0], gd_size := [0], gd_mapped_addr := [None]\<rparr>) s)"

text \<open>\<open>dir\<close> says whether \<^verbatim>\<open>debugfs_create_dir\<close> succeeds.\<close>

definition create_gvm_ramdump_debugfs :: "bool \<Rightarrow> bool \<Rightarrow> dump_node \<Rightarrow> dump_state \<Rightarrow> (int, dump_state) outcome" where
  "create_gvm_ramdump_debugfs kz dir n s =
     (if \<not> kz then Done (- ENOMEM) s
      else obind (get_gvm_resource kz n \<lparr>gd_vmid = 0, gd_num_mem_regions = 0, gd_start_addr = [], gd_size = [], gd_mapped_addr = [],
                                         gd_dir = False, gd_locked = False\<rparr> s) (\<lambda>(ret, x) s.
        if ret \<noteq> 0 then Done ret s
        else case dn_fw_name n of
          Inl e \<Rightarrow> Done e s
        | Inr nm \<Rightarrow>
            if \<not> dir then Done (- EINVAL) s
            else let c = ds_next s in
              Done 0 ((set_ctx c (x\<lparr>gd_dir := True\<rparr>) s)\<lparr>ds_next := c + 1, gvm_ramdump_list := c # gvm_ramdump_list s\<rparr>)))"

definition collect_gvm_ramdump :: "bool \<Rightarrow> bool \<Rightarrow> dump_node \<Rightarrow> dump_state \<Rightarrow> (int, dump_state) outcome" where
  "collect_gvm_ramdump kz dir n s = (if is_gvm_ramdump_enabled s then create_gvm_ramdump_debugfs kz dir n s else Done 0 s)"

text \<open>\<open>parse\<close> is what \<^verbatim>\<open>kstrtobool_from_user\<close> reads.\<close>

definition gvm_debugfs_enable_ramdump_write :: "bool option \<Rightarrow> nat \<Rightarrow> dump_state \<Rightarrow> int \<times> dump_state" where
  "gvm_debugfs_enable_ramdump_write parse count s =
     (case parse of None \<Rightarrow> (- EINVAL, s) | Some b \<Rightarrow> (int count, s\<lparr>is_gvm_ramdump_enabled := b\<rparr>))"

definition gvm_debugfs_enable_ramdump_read :: "bool \<Rightarrow> nat \<Rightarrow> nat \<Rightarrow> dump_state \<Rightarrow> int \<times> string" where
  "gvm_debugfs_enable_ramdump_read to count pos s =
     simple_read to count pos (print_nat 10 (if is_gvm_ramdump_enabled s then 1 else 0) @ [NL])"

definition enable_gvm_ramdump_debugfs :: "bool \<Rightarrow> dump_state \<Rightarrow> int \<times> dump_state" where
  "enable_gvm_ramdump_debugfs file s = (if \<not> file then (- EINVAL, s\<lparr>ds_enable_dentry := False\<rparr>) else (0, s\<lparr>ds_enable_dentry := True\<rparr>))"

end
