(* ===== verification/Gvm_Dump_Correct.thy ===== *)
theory Gvm_Dump_Correct
  imports Gvm_Dump
begin

text \<open>
  Properties of the dump of guest memory: which region a file stands for, what the text files say,
  and the life of a dump from its collection to its removal.
\<close>

section \<open>Names of files\<close>

lemma print_nat_digits: "set (print_nat 10 n) \<subseteq> digit ` {0..<10}"
  by (induction "10 :: nat" n rule: print_nat.induct) (subst print_nat.simps, auto)

lemma print_nat_last: "last (print_nat 10 n) = digit (n mod 10)" "print_nat 10 n \<noteq> []"
  by (subst print_nat.simps, simp)+

lemma digit_code: "d < 10 \<Longrightarrow> of_char (digit d) = 48 + d"
  by (simp add: digit_def)

lemma digit_no_dot: "d < 10 \<Longrightarrow> digit d \<noteq> CHR ''.''"
proof
  assume d: "d < 10" and "digit d = CHR ''.''"
  then have "48 + d = (of_char (CHR ''.'') :: nat)" using digit_code [OF d] by metis
  then show False by simp
qed

lemma region_file_stem: "takeWhile (\<lambda>c. c \<noteq> CHR ''.'') (region_file i) = ''VMDDRCS'' @ print_nat 10 i"
proof -
  have "c \<noteq> CHR ''.''" if c: "c \<in> set (print_nat 10 i)" for c
  proof -
    obtain d where "d < 10" "c = digit d" using c print_nat_digits [of i] by auto
    then show ?thesis using digit_no_dot by simp
  qed
  then have "\<forall>c\<in>set (''VMDDRCS'' @ print_nat 10 i). c \<noteq> CHR ''.''" by auto
  then show ?thesis unfolding region_file_def by (simp add: takeWhile_append2)
qed

text \<open>The number the driver reads from the name of a region's file.\<close>

lemma get_ramdump_id_file: "get_ramdump_id (region_file i) n = (if n \<le> int (i mod 10) then - EINVAL else int (i mod 10))"
proof -
  have "(of_char (last (''VMDDRCS'' @ print_nat 10 i)) :: nat) = 48 + i mod 10" using print_nat_last [of i] digit_code [of "i mod 10"] by simp
  moreover have "length (region_file i) \<noteq> length (''VMDDRCS'' @ print_nat 10 i)" by (simp add: region_file_def)
  moreover have "i mod 10 < 10" by simp
  ultimately show ?thesis unfolding get_ramdump_id_def region_file_stem Let_def by (auto simp del: last_append)
qed

section \<open>The table of contents\<close>

definition info_text :: "nat \<Rightarrow> u64 \<times> u64 \<Rightarrow> string" where
  "info_text idx r = ''1'' @ [TAB, TAB] @ ''0x'' @ print_nat 16 (unat (fst r)) @ [TAB] @ print_nat 10 (unat (snd r)) @ [TAB] @
     ''DDR'' @ [TAB, TAB] @ region_file idx @ [NL]"

fun info_texts :: "nat \<Rightarrow> (u64 \<times> u64) list \<Rightarrow> string" where
  "info_texts idx [] = ''''"
| "info_texts idx (r # rs) = info_text idx r @ info_texts (idx + 1) rs"

lemma strlcat_fits: "length t + length x < DUMP_INFO_BUFFER_SIZE \<Longrightarrow> strlcat t x = t @ x"
  by (simp add: strlcat_def)

lemma snprintf_fits: "length t + length x < DUMP_INFO_BUFFER_SIZE \<Longrightarrow> snprintf_at (length t) t x = t @ x"
  by (simp add: snprintf_at_def)

lemma info_line_fits:
  assumes "length t + length (info_text idx (start, sz)) < DUMP_INFO_BUFFER_SIZE"
  shows "info_line idx start sz (t, length t) = Some (t @ info_text idx (start, sz), length t + length (info_text idx (start, sz)))"
proof -
  define pref reg addr len fname where defs: "pref = ''1'' @ [TAB, TAB]" "reg = ''DDR'' @ [TAB, TAB]" "addr = ''0x'' @ print_nat 16 (unat start) @ [TAB]"
    "len = print_nat 10 (unat sz) @ [TAB]" "fname = region_file idx @ [NL]"
  have whole: "info_text idx (start, sz) = pref @ addr @ len @ reg @ fname" by (simp add: info_text_def defs)
  have fit: "length t + length pref + length addr + length len + length reg + length fname < DUMP_INFO_BUFFER_SIZE" using assms unfolding whole by simp
  have steps: "strlcat t pref = t @ pref" "snprintf_at (length t + length pref) (t @ pref) addr = t @ pref @ addr"
    "snprintf_at (length t + length pref + length addr) (t @ pref @ addr) len = t @ pref @ addr @ len"
    "strlcat (t @ pref @ addr @ len) reg = t @ pref @ addr @ len @ reg"
    "snprintf_at (length t + length pref + length addr + length len + length reg) (t @ pref @ addr @ len @ reg) fname = t @ pref @ addr @ len @ reg @ fname"
    using fit strlcat_fits [of t pref] snprintf_fits [of "t @ pref" addr] snprintf_fits [of "t @ pref @ addr" len] strlcat_fits [of "t @ pref @ addr @ len" reg]
      snprintf_fits [of "t @ pref @ addr @ len @ reg" fname] by (simp_all add: add.assoc)
  have "info_line idx start sz (t, length t) = Some (t @ pref @ addr @ len @ reg @ fname, length t + length pref + length addr + length len + length reg + length fname)"
    unfolding info_line_def prod.case defs [symmetric] Let_def using fit steps by simp
  then show ?thesis unfolding whole by (simp add: add.assoc)
qed

lemma info_lines_fits:
  "length t + length (info_texts idx rs) < DUMP_INFO_BUFFER_SIZE \<Longrightarrow>
     info_lines idx rs (t, length t) = Some (t @ info_texts idx rs, length t + length (info_texts idx rs))"
proof (induction rs arbitrary: idx t)
  case (Cons r rs)
  obtain start sz where r: "r = (start, sz)" by (cases r)
  have "info_line idx start sz (t, length t) = Some (t @ info_text idx r, length (t @ info_text idx r))"
    using info_line_fits [of t idx start sz] Cons.prems r by simp
  then show ?case using Cons.IH [of "t @ info_text idx r" "idx + 1"] Cons.prems r by (simp add: add.assoc)
qed simp

text \<open>The texts of one region fit whatever its address and size are.\<close>

lemma print_nat_length: "2 \<le> base \<Longrightarrow> n < base ^ k \<Longrightarrow> 0 < k \<Longrightarrow> length (print_nat base n) \<le> k"
proof (induction k arbitrary: n)
  case (Suc k)
  show ?case
  proof (cases "n < base")
    case True
    then show ?thesis by (subst print_nat.simps) simp
  next
    case False
    then have "0 < k" using Suc.prems by (cases k) auto
    moreover have "n div base < base ^ k" using Suc.prems by (intro less_mult_imp_div_less) (simp add: mult.commute)
    ultimately have "length (print_nat base (n div base)) \<le> k" using Suc.IH Suc.prems(1) by blast
    then show ?thesis using False Suc.prems(1) by (subst print_nat.simps) simp
  qed
qed simp

lemma print_u64_length: "length (print_nat 16 (unat (a :: u64))) \<le> 16" "length (print_nat 10 (unat (a :: u64))) \<le> 20"
proof -
  have a: "unat a < 2 ^ 64" using unsigned_less [of a, where ?'a = nat] by simp
  show "length (print_nat 16 (unat a)) \<le> 16" by (rule print_nat_length) (use a in simp_all)
  show "length (print_nat 10 (unat a)) \<le> 20" by (rule print_nat_length) (use a in simp_all)
qed

lemma info_start: "strlcat (strlcat '''' info_header) info_dots = info_header @ info_dots" "length info_header + length info_dots = 115"
  by (simp_all add: strlcat_def info_header_def info_dots_def)

lemma info_one_region: "info_lines 0 [r] (info_header @ info_dots, 115) = Some (info_header @ info_dots @ info_text 0 r, 115 + length (info_text 0 r))"
proof -
  have "length (info_text 0 r) \<le> 61"
    using print_u64_length(1) [of "fst r"] print_u64_length(2) [of "snd r"] by (simp add: info_text_def region_file_def print_nat.simps)
  then show ?thesis using info_lines_fits [of "info_header @ info_dots" 0 "[r]"] info_start(2) by simp
qed

lemma simple_read_ok: "simple_read True count pos buf = (int (length (take count (drop pos buf))), take count (drop pos buf))"
  by (simp add: simple_read_def Let_def)

section \<open>The life of a dump\<close>

definition one_region :: "dump_node \<Rightarrow> int \<Rightarrow> u64 \<Rightarrow> u64 \<Rightarrow> bool" where
  "one_region n vmid start sz \<longleftrightarrow> dn_enable n \<and> dn_vmid n = Some vmid \<and> dn_count n = 1 \<and> dn_region n 0 = Some (start, sz) \<and> \<not> isl (dn_fw_name n)"

definition dump_ctx :: "int \<Rightarrow> u64 \<Rightarrow> u64 \<Rightarrow> bool \<Rightarrow> u64 option \<Rightarrow> bool \<Rightarrow> gvm_ramdump_ctx" where
  "dump_ctx vmid start sz dir mapped locked =
     \<lparr>gd_vmid = vmid, gd_num_mem_regions = 1, gd_start_addr = [start], gd_size = [sz], gd_mapped_addr = [mapped], gd_dir = dir, gd_locked = locked\<rparr>"

lemma dump_ctx_sel [simp]:
  "gd_vmid (dump_ctx v a z d m l) = v" "gd_num_mem_regions (dump_ctx v a z d m l) = 1" "gd_start_addr (dump_ctx v a z d m l) = [a]"
  "gd_size (dump_ctx v a z d m l) = [z]" "gd_mapped_addr (dump_ctx v a z d m l) = [m]" "gd_dir (dump_ctx v a z d m l) = d" "gd_locked (dump_ctx v a z d m l) = l"
  "(dump_ctx v a z d m l)\<lparr>gd_dir := d'\<rparr> = dump_ctx v a z d' m l" "(dump_ctx v a z d m l)\<lparr>gd_locked := l'\<rparr> = dump_ctx v a z d m l'"
  "(dump_ctx v a z d m l)\<lparr>gd_mapped_addr := [m']\<rparr> = dump_ctx v a z d m' l" "(dump_ctx v a z d m l)\<lparr>gd_locked := l', gd_mapped_addr := [m']\<rparr> = dump_ctx v a z d m' l'"
  by (simp_all add: dump_ctx_def)

lemma region_file_0 [simp]: "get_ramdump_id (region_file 0) 1 = 0"
  by (simp add: get_ramdump_id_file)

lemma collect_one_region:
  assumes "one_region n v a z" "is_gvm_ramdump_enabled s"
  shows "collect_gvm_ramdump True True n s = Done 0 ((set_ctx (ds_next s) (dump_ctx v a z True None False) s)\<lparr>ds_next := ds_next s + 1, gvm_ramdump_list := ds_next s # gvm_ramdump_list s\<rparr>)"
  using assms unfolding one_region_def collect_gvm_ramdump_def create_gvm_ramdump_debugfs_def get_gvm_resource_def
  by (cases "dn_fw_name n") (auto simp: Let_def dump_ctx_def)

lemma open_one_region:
  assumes "ds_ctxs s c = Some (dump_ctx v a z True m False)"
  shows "gvm_debugfs_open True c (region_file 0) s = Done 0 ((set_ctx c (dump_ctx v a z True (Some a) True) s)\<lparr>ds_maps := insert (c, 0) (ds_maps s)\<rparr>)"
  using assms by (simp add: gvm_debugfs_open_def with_ctx_def ctx_region_def Let_def)

lemma read_one_region:
  assumes "ds_ctxs s c = Some (dump_ctx v a z d (Some a) l)" "(c, 0) \<in> ds_maps s"
  shows "gvm_debugfs_read True c (region_file 0) count pos s =
     Done (int (length (take count (drop pos (take (unat z) (ds_mem s a))))), take count (drop pos (take (unat z) (ds_mem s a)))) s"
  using assms by (simp add: gvm_debugfs_read_def with_ctx_def ctx_region_def Let_def simple_read_ok)

lemma release_one_region:
  assumes "ds_ctxs s c = Some (dump_ctx v a z d m l)" "(c, 0) \<in> ds_maps s"
  shows "gvm_debugfs_release c (region_file 0) s = Done 0 ((set_ctx c (dump_ctx v a z d m False) s)\<lparr>ds_maps := ds_maps s - {(c, 0)}\<rparr>)"
  using assms by (simp add: gvm_debugfs_release_def with_ctx_def ctx_region_def Let_def)

lemma info_one_ctx:
  assumes "ds_ctxs s c = Some (dump_ctx v a z d m l)"
  shows "dump_info_read True c DUMP_INFO_BUFFER_SIZE 0 s = Done (512, buf512 (info_header @ info_dots @ info_text 0 (a, z))) s"
proof -
  have "length (buf512 t) = 512" for t by (simp add: buf512_def)
  then show ?thesis using assms by (simp add: dump_info_read_def with_ctx_def ctx_regions_def info_start info_one_region simple_read_ok del: info_lines.simps)
qed

text \<open>The context at the head of the list is cleaned, the others belong to other VMs.\<close>

lemma cleanup_others:
  assumes "\<And>c. c \<in> set cs \<Longrightarrow> \<exists>x. ds_ctxs s c = Some x \<and> gd_vmid x \<noteq> v"
  shows "cleanup_ctxs (\<lambda>u. v = u) sanitize remap cs s = Done () s"
  using assms by (induction cs) (fastforce simp: with_ctx_def)+

lemma cleanup_head:
  assumes c: "ds_ctxs s c = Some (dump_ctx v a z True m False)" "gvm_ramdump_list s = c # cs"
    and others: "\<And>d. d \<in> set cs \<Longrightarrow> d \<noteq> c \<and> (\<exists>x. ds_ctxs s d = Some x \<and> gd_vmid x \<noteq> v)"
  shows "cleanup_gvm_ramdump_ctx True (\<lambda>_. True) v s =
     Done () ((set_ctx c (dump_ctx v a z False (Some a) False) s)\<lparr>ds_mem := (ds_mem s)(a := replicate (unat z) 0), gvm_ramdump_list := cs\<rparr>)"
proof -
  let ?t = "s\<lparr>ds_mem := (ds_mem s)(a := replicate (unat z) 0), ds_ctxs := (ds_ctxs s)(c \<mapsto> dump_ctx v a z False (Some a) False), gvm_ramdump_list := cs\<rparr>"
  have "cleanup_ctxs (\<lambda>u. v = u) True (\<lambda>_. True) cs ?t = Done () ?t"
    by (rule cleanup_others) (use others in \<open>simp add: set_ctx_def\<close>)
  then show ?thesis using c
    by (simp add: cleanup_gvm_ramdump_ctx_def sanitize_gvm_region_def cleanup_single_gvm_def with_ctx_def ctx_region_def set_ctx_def)
qed

lemma cleanup_while_open:
  assumes "ds_ctxs s c = Some (dump_ctx v a z d m True)" "gvm_ramdump_list s = c # cs"
  shows "cleanup_gvm_ramdump_ctx sanitize remap v s = Blocked s"
  using assms by (simp add: cleanup_gvm_ramdump_ctx_def sanitize_gvm_region_def cleanup_single_gvm_def with_ctx_def)

definition fresh_dump :: "int \<Rightarrow> dump_state \<Rightarrow> bool" where
  "fresh_dump v s \<longleftrightarrow> (ds_next s, 0) \<notin> ds_maps s \<and>
     (\<forall>c\<in>set (gvm_ramdump_list s). c \<noteq> ds_next s \<and> (case ds_ctxs s c of None \<Rightarrow> False | Some x \<Rightarrow> gd_vmid x \<noteq> v))"

text \<open>C25: the life of a dump. Collecting the dump of a VM with one memory region makes its
directory; the table of contents gives the address, the size and the file of the region, whatever
they are. The file opens and reads back exactly the bytes of the region, at any offset and for any
count. While it is open a second open and the cleanup of the VM wait. After the release, the cleanup
clears the region, removes the files and leaves the list and the mappings as before the dump.\<close>

theorem gvm_dump_life_cycle:
  assumes node: "one_region n v a z" and on: "is_gvm_ramdump_enabled s" and fresh: "fresh_dump v s"
  shows "\<exists>s1 s2 s3 s4. collect_gvm_ramdump True True n s = Done 0 s1
     \<and> dump_info_read True (ds_next s) DUMP_INFO_BUFFER_SIZE 0 s1 = Done (512, buf512 (info_header @ info_dots @ info_text 0 (a, z))) s1
     \<and> gvm_debugfs_open True (ds_next s) (region_file 0) s1 = Done 0 s2
     \<and> (\<forall>count pos. let b = take count (drop pos (take (unat z) (ds_mem s a))) in
          gvm_debugfs_read True (ds_next s) (region_file 0) count pos s2 = Done (int (length b), b) s2)
     \<and> gvm_debugfs_open True (ds_next s) (region_file 0) s2 = Blocked s2
     \<and> cleanup_gvm_ramdump_ctx True (\<lambda>_. True) v s2 = Blocked s2
     \<and> gvm_debugfs_release (ds_next s) (region_file 0) s2 = Done 0 s3
     \<and> cleanup_gvm_ramdump_ctx True (\<lambda>_. True) v s3 = Done () s4
     \<and> gvm_ramdump_list s4 = gvm_ramdump_list s \<and> ds_maps s4 = ds_maps s
     \<and> ds_mem s4 = (ds_mem s)(a := replicate (unat z) 0)
     \<and> gvm_debugfs_open True (ds_next s) (region_file 0) s4 = Done (- ENOENT) s4"
proof -
  define c where "c = ds_next s"
  define s1 where "s1 = (set_ctx c (dump_ctx v a z True None False) s)\<lparr>ds_next := c + 1, gvm_ramdump_list := c # gvm_ramdump_list s\<rparr>"
  define s2 where "s2 = (set_ctx c (dump_ctx v a z True (Some a) True) s1)\<lparr>ds_maps := insert (c, 0) (ds_maps s1)\<rparr>"
  define s3 where "s3 = (set_ctx c (dump_ctx v a z True (Some a) False) s2)\<lparr>ds_maps := ds_maps s2 - {(c, 0)}\<rparr>"
  define s4 where "s4 = (set_ctx c (dump_ctx v a z False (Some a) False) s3)\<lparr>ds_mem := (ds_mem s3)(a := replicate (unat z) 0), gvm_ramdump_list := gvm_ramdump_list s\<rparr>"
  note defs = s1_def s2_def s3_def s4_def set_ctx_def
  have ctx: "ds_ctxs s1 c = Some (dump_ctx v a z True None False)" "ds_ctxs s2 c = Some (dump_ctx v a z True (Some a) True)"
    "ds_ctxs s3 c = Some (dump_ctx v a z True (Some a) False)" "ds_ctxs s4 c = Some (dump_ctx v a z False (Some a) False)" by (simp_all add: defs)
  have maps: "(c, 0) \<in> ds_maps s2" and mem: "ds_mem s2 a = ds_mem s a"
    and lists: "gvm_ramdump_list s2 = c # gvm_ramdump_list s" "gvm_ramdump_list s3 = c # gvm_ramdump_list s" by (simp_all add: defs)
  have clean: "cleanup_gvm_ramdump_ctx True (\<lambda>_. True) v s3 = Done () s4" unfolding s4_def
    by (rule cleanup_head [OF ctx(3) lists(2)]) (use fresh in \<open>auto simp: fresh_dump_def defs c_def split: option.splits\<close>)
  have rest: "gvm_ramdump_list s4 = gvm_ramdump_list s" "ds_maps s4 = ds_maps s" "ds_mem s4 = (ds_mem s)(a := replicate (unat z) 0)"
    using fresh by (auto simp: fresh_dump_def defs c_def)
  have "gvm_debugfs_open True c (region_file 0) s2 = Blocked s2" "gvm_debugfs_open True c (region_file 0) s4 = Done (- ENOENT) s4"
    using ctx by (simp_all add: gvm_debugfs_open_def with_ctx_def Let_def)
  then show ?thesis
    using collect_one_region [OF node on] info_one_ctx [OF ctx(1)] open_one_region [OF ctx(1)] read_one_region [OF ctx(2) maps]
      cleanup_while_open [OF ctx(2) lists(1)] release_one_region [OF ctx(2) maps] clean rest mem
    unfolding c_def [symmetric] s1_def [symmetric] s2_def [symmetric] s3_def [symmetric] Let_def by metis
qed

definition sample_node :: dump_node where
  "sample_node = \<lparr>dn_enable = True, dn_vmid = Some 45, dn_count = 1, dn_region = (\<lambda>_. Some (0xE0000000, 3)), dn_fw_name = Inr ''trustedvm''\<rparr>"

definition sample_dump :: dump_state where
  "sample_dump = \<lparr>ds_ctxs = Map.empty, gvm_ramdump_list = [], is_gvm_ramdump_enabled = True, ds_enable_dentry = True,
     ds_mem = (\<lambda>_. [1, 2, 3]), ds_maps = {}, ds_next = 1\<rparr>"

lemma sample_dump_ok: "one_region sample_node 45 0xE0000000 3" "is_gvm_ramdump_enabled sample_dump" "fresh_dump 45 sample_dump" "ds_next sample_dump = 1"
  by (simp_all add: one_region_def sample_node_def sample_dump_def fresh_dump_def)

theorem gvm_dump_life_cycle_witness:
  "\<exists>s1 s2 s3 s4. collect_gvm_ramdump True True sample_node sample_dump = Done 0 s1 \<and> gvm_debugfs_open True 1 (region_file 0) s1 = Done 0 s2
     \<and> gvm_debugfs_read True 1 (region_file 0) 2 1 s2 = Done (2, [2, 3]) s2
     \<and> gvm_debugfs_release 1 (region_file 0) s2 = Done 0 s3 \<and> cleanup_gvm_ramdump_ctx True (\<lambda>_. True) 45 s3 = Done () s4
     \<and> gvm_ramdump_list s4 = [] \<and> ds_mem s4 0xE0000000 = [0, 0, 0]"
proof -
  have three: "replicate (unat (3 :: u64)) (0 :: u8) = [0, 0, 0]"
  proof -
    have "unat (3 :: u64) = Suc (Suc (Suc 0))" by simp
    then show ?thesis by (simp only: replicate.simps)
  qed
  have mem: "take 2 (drop 1 (take (unat (3 :: u64)) (ds_mem sample_dump 0xE0000000))) = [2, 3]" "gvm_ramdump_list sample_dump = []"
    by (simp_all add: sample_dump_def)
  obtain s1 s2 s3 s4 where s: "collect_gvm_ramdump True True sample_node sample_dump = Done 0 s1" "gvm_debugfs_open True 1 (region_file 0) s1 = Done 0 s2"
    "\<forall>count pos. let b = take count (drop pos (take (unat (3 :: u64)) (ds_mem sample_dump 0xE0000000))) in
       gvm_debugfs_read True 1 (region_file 0) count pos s2 = Done (int (length b), b) s2"
    "gvm_debugfs_release 1 (region_file 0) s2 = Done 0 s3" "cleanup_gvm_ramdump_ctx True (\<lambda>_. True) 45 s3 = Done () s4" "gvm_ramdump_list s4 = gvm_ramdump_list sample_dump"
    "ds_mem s4 = (ds_mem sample_dump)(0xE0000000 := replicate (unat (3 :: u64)) 0)"
    using gvm_dump_life_cycle [OF sample_dump_ok(1-3)] unfolding sample_dump_ok(4) by blast
  have "gvm_debugfs_read True 1 (region_file 0) 2 1 s2 = Done (2, [2, 3]) s2" using s(3) [rule_format, of 2 1] unfolding mem(1) Let_def by simp
  moreover have "ds_mem s4 0xE0000000 = [0, 0, 0]" using s(7) unfolding three by simp
  ultimately show ?thesis using s mem(2) by auto
qed

text \<open>the arrays of a context have room for one region. A device tree with two or more regions
that can be read makes the collection write past their end.\<close>

theorem collect_gvm_ramdump_overruns:
  assumes "dn_enable n" and "dn_vmid n = Some v" and "2 \<le> dn_count n" and "dn_region n 0 \<noteq> None" and "dn_region n 1 \<noteq> None" and "is_gvm_ramdump_enabled s"
  shows "collect_gvm_ramdump True dir n s = Fault"
proof -
  obtain k where k: "nat (dn_count n) = Suc (Suc k)" using assms(3) by (cases "nat (dn_count n)"; cases "nat (dn_count n) - 1") auto
  have split: "[0..<nat (dn_count n)] = 0 # 1 # [2..<nat (dn_count n)]" unfolding k by (simp add: upt_rec numeral_2_eq_2 del: upt_Suc)
  show ?thesis using assms unfolding collect_gvm_ramdump_def create_gvm_ramdump_debugfs_def get_gvm_resource_def split
    by (auto simp: Let_def)
qed

theorem collect_gvm_ramdump_overruns_witness: "collect_gvm_ramdump True True (sample_node\<lparr>dn_count := 2\<rparr>) sample_dump = Fault"
  by (rule collect_gvm_ramdump_overruns [of "sample_node\<lparr>dn_count := 2\<rparr>" 45]) (simp_all add: sample_node_def sample_dump_def)

end
