(* ===== verification/Virt_Wdt.thy ===== *)
theory Virt_Wdt
  imports Gh_Errno
begin

text \<open>
  The virtual watchdog (\<^verbatim>\<open>drivers/virt/gunyah/gh_virt_wdt.c\<close>): the operations the watchdog core calls,
  each a hypercall. The parameter \<open>smc\<close> is the hypervisor, from a function number and arguments to the
  registers \<open>a0\<close>, \<open>a1\<close> and \<open>a2\<close>; \<open>enabled\<close> is the field the watchdog core keeps in
  \<^verbatim>\<open>struct msm_watchdog_data\<close>.
\<close>

section \<open>Calls\<close>

record arm_smccc_res =
  a0 :: u64
  a1 :: u64
  a2 :: u64

type_synonym 'h smccc = "u32 \<Rightarrow> u64 list \<Rightarrow> 'h \<Rightarrow> arm_smccc_res \<times> 'h"

text \<open>\<^verbatim>\<open>ARM_SMCCC_CALL_VAL\<close> of a fast 32-bit call to the vendor hypervisor.\<close>

definition smccc_hyp_call :: "u16 \<Rightarrow> u32" where
  "smccc_hyp_call fn = push_bit 31 1 OR push_bit 24 6 OR ucast fn"

definition VIRT_WDT_CONTROL :: u32 where "VIRT_WDT_CONTROL = smccc_hyp_call 5"
definition VIRT_WDT_STATUS :: u32 where "VIRT_WDT_STATUS = smccc_hyp_call 6"
definition VIRT_WDT_PET :: u32 where "VIRT_WDT_PET = smccc_hyp_call 7"
definition VIRT_WDT_SET_TIME :: u32 where "VIRT_WDT_SET_TIME = smccc_hyp_call 8"
abbreviation (input) VIRT_WDT_NO_CHANGE :: u16 where "VIRT_WDT_NO_CHANGE \<equiv> 0xFFFF"

definition gh_wdt_call :: "'h smccc \<Rightarrow> u32 \<Rightarrow> u32 \<Rightarrow> u16 \<Rightarrow> u16 \<Rightarrow> 'h \<Rightarrow> arm_smccc_res \<times> 'h" where
  "gh_wdt_call smc smc_id arg1 arg2 arg3 =
     (if smc_id = VIRT_WDT_SET_TIME then smc smc_id [ucast arg2, ucast arg3] else smc smc_id [ucast arg1])"

text \<open>\<^verbatim>\<open>hret = res.a0\<close> keeps the low half as a signed number.\<close>

definition wdt_ret :: "arm_smccc_res \<times> 'h \<Rightarrow> int \<times> 'h" where
  "wdt_ret = (\<lambda>(res, h). (gh_remap_error (sint (ucast (a0 res) :: u32)), h))"

section \<open>Operations\<close>

definition gh_set_wdt_bark :: "'h smccc \<Rightarrow> u32 \<Rightarrow> 'h \<Rightarrow> int \<times> 'h" where
  "gh_set_wdt_bark smc time h = (let bark_time = ucast time in wdt_ret (gh_wdt_call smc VIRT_WDT_SET_TIME 0 bark_time VIRT_WDT_NO_CHANGE h))"

definition gh_set_wdt_bite :: "'h smccc \<Rightarrow> u32 \<Rightarrow> 'h \<Rightarrow> int \<times> 'h" where
  "gh_set_wdt_bite smc time h = (let bite_time = ucast time in wdt_ret (gh_wdt_call smc VIRT_WDT_SET_TIME 0 VIRT_WDT_NO_CHANGE bite_time h))"

definition gh_reset_wdt :: "'h smccc \<Rightarrow> 'h \<Rightarrow> int \<times> 'h" where
  "gh_reset_wdt smc h = wdt_ret (gh_wdt_call smc VIRT_WDT_PET 0 0 0 h)"

definition gh_enable_wdt :: "'h smccc \<Rightarrow> bool \<Rightarrow> 'h \<Rightarrow> int \<times> 'h" where
  "gh_enable_wdt smc enabled h = (if enabled then (0, h) else wdt_ret (gh_wdt_call smc VIRT_WDT_CONTROL 3 0 0 h))"

definition gh_disable_wdt :: "'h smccc \<Rightarrow> bool \<Rightarrow> 'h \<Rightarrow> int \<times> 'h" where
  "gh_disable_wdt smc enabled h = (if \<not> enabled then (0, h) else wdt_ret (gh_wdt_call smc VIRT_WDT_CONTROL 2 0 0 h))"

text \<open>What is printed: the control bit, the time since the last pet and the expired bit.\<close>

definition gh_show_wdt_status :: "'h smccc \<Rightarrow> 'h \<Rightarrow> (int \<times> (bool \<times> u64 \<times> bool) option) \<times> 'h" where
  "gh_show_wdt_status smc h =
     (case gh_wdt_call smc VIRT_WDT_STATUS 0 0 0 h of
        (res, h) \<Rightarrow>
          let ret = fst (wdt_ret (res, h)) in
          ((ret, if sint (ucast (a0 res) :: u32) \<noteq> 0 then None else Some (bit (a1 res) 0, a2 res, bit (a1 res) 31)), h))"

text \<open>\<open>reg\<close> is the result of \<^verbatim>\<open>qcom_wdt_register\<close>.\<close>

definition gh_wdt_probe :: "bool \<Rightarrow> int \<Rightarrow> int" where
  "gh_wdt_probe kz reg = (if \<not> kz then - ENOMEM else reg)"

section \<open>Against the hypervisor's contract\<close>

text \<open>What the driver's comments say of the hypervisor: a time of \<open>0xFFFF\<close> leaves that time alone;
  bit 1 of the control word is reserved and must be set; it is an error to enable an enabled watchdog
  and to disable a disabled one.\<close>

record vwdog =
  vw_enabled :: bool
  vw_bark :: u16
  vw_bite :: u16

definition vwdog_times :: "u16 \<Rightarrow> u16 \<Rightarrow> vwdog \<Rightarrow> vwdog" where
  "vwdog_times x y v = v\<lparr>vw_bark := (if x = VIRT_WDT_NO_CHANGE then vw_bark v else x), vw_bite := (if y = VIRT_WDT_NO_CHANGE then vw_bite v else y)\<rparr>"

definition vwdog_contract :: "'h smccc \<Rightarrow> ('h \<Rightarrow> vwdog) \<Rightarrow> bool" where
  "vwdog_contract smc w \<longleftrightarrow>
     (\<forall>h (x :: u16) (y :: u16). let (res, h') = smc VIRT_WDT_SET_TIME [ucast x, ucast y] h in a0 res = 0 \<and> w h' = vwdog_times x y (w h))
   \<and> (\<forall>h ctl. let (res, h') = smc VIRT_WDT_CONTROL [ctl] h in
        if \<not> bit ctl 1 \<or> bit ctl 0 = vw_enabled (w h) then ucast (a0 res) \<noteq> (0 :: u32) \<and> w h' = w h
        else a0 res = 0 \<and> w h' = (w h)\<lparr>vw_enabled := bit ctl 0\<rparr>)"

lemma wdt_ids: "VIRT_WDT_CONTROL \<noteq> VIRT_WDT_SET_TIME"
  by (simp add: VIRT_WDT_CONTROL_def VIRT_WDT_SET_TIME_def smccc_hyp_call_def)

lemma set_time_contract:
  assumes "vwdog_contract smc w"
  shows "\<exists>h'. wdt_ret (gh_wdt_call smc VIRT_WDT_SET_TIME 0 x y h) = (0, h') \<and> w h' = vwdog_times x y (w h)"
proof -
  obtain res h' where r: "smc VIRT_WDT_SET_TIME [ucast x, ucast y] h = (res, h')" by (rule prod.exhaust)
  have "let (res, h') = smc VIRT_WDT_SET_TIME [ucast x, ucast y] h in a0 res = 0 \<and> w h' = vwdog_times x y (w h)"
    using assms unfolding vwdog_contract_def by blast
  then show ?thesis using r by (simp add: gh_wdt_call_def wdt_ret_def)
qed

lemma control_contract:
  assumes "vwdog_contract smc w" and "bit (ucast ctl :: u64) 1" and "bit (ucast ctl :: u64) 0 \<noteq> vw_enabled (w h)"
  shows "\<exists>h'. wdt_ret (gh_wdt_call smc VIRT_WDT_CONTROL ctl 0 0 h) = (0, h') \<and> w h' = (w h)\<lparr>vw_enabled := bit (ucast ctl :: u64) 0\<rparr>"
proof -
  define c :: u64 where "c = ucast ctl"
  obtain res h' where r: "smc VIRT_WDT_CONTROL [c] h = (res, h')" by (rule prod.exhaust)
  have "let (res, h') = smc VIRT_WDT_CONTROL [c] h in
      if \<not> bit c 1 \<or> bit c 0 = vw_enabled (w h) then ucast (a0 res) \<noteq> (0 :: u32) \<and> w h' = w h else a0 res = 0 \<and> w h' = (w h)\<lparr>vw_enabled := bit c 0\<rparr>"
    using assms(1) unfolding vwdog_contract_def by blast
  then show ?thesis using r wdt_ids assms(2,3) unfolding c_def [symmetric] gh_wdt_call_def wdt_ret_def by simp
qed


text \<open>A hypervisor that keeps the contract.\<close>

definition sample_smc :: "vwdog smccc" where
  "sample_smc fn args h =
     (let ok = \<lparr>a0 = 0, a1 = 0, a2 = 0\<rparr>; busy = \<lparr>a0 = 31, a1 = 0, a2 = 0\<rparr> in
      if fn = VIRT_WDT_SET_TIME then
        (ok, vwdog_times (ucast (args ! 0)) (ucast (args ! 1)) h)
      else if fn = VIRT_WDT_CONTROL then
        (if \<not> bit (args ! 0) 1 \<or> bit (args ! 0) 0 = vw_enabled h then (busy, h) else (ok, h\<lparr>vw_enabled := bit (args ! 0) 0\<rparr>))
      else (ok, h))"

lemma sample_smc_contract: "vwdog_contract sample_smc id"
proof -
  have "(ucast (ucast x :: u64) :: u16) = x" for x :: u16 by (rule bit_word_eqI) (simp add: bit_simps)
  then show ?thesis unfolding vwdog_contract_def sample_smc_def by (simp add: wdt_ids Let_def)
qed


end
