(* ===== verification/Guest_Pops.thy ===== *)
theory Guest_Pops
  imports Rm_Vm
begin

text \<open>
  The power operations of a guest (\<^verbatim>\<open>drivers/virt/gunyah/gh_guest_pops.c\<close>): a stop request of the primary VM
  becomes a press of the power key or a panic, and the status of the guest is reported to the
  Resource Manager. The input device and the kobject are library objects; what matters of them
  is their life: \<^verbatim>\<open>input_unregister_device\<close> drops the last reference of a device, and using a
  device or a kobject that is not there is \<^term>\<open>Fault\<close>. A panic never returns: \<^term>\<open>Blocked\<close>. \<open>gp_rm\<close> is the
  state behind \<^verbatim>\<open>gh_rm_call\<close>.
\<close>

section \<open>State\<close>

datatype input_dev = Input_Allocated | Input_Registered | Input_Freed

datatype pops_event = Power_Key bool | Input_Sync | Msleep nat | Panic

record 'c pops_state =
  gh_vm_poff_input :: "input_dev option"
  gp_nb :: bool
  gh_guest_kobj :: bool
  gp_group :: bool
  gp_events :: "pops_event list"
  gp_rm :: 'c

abbreviation (input) SHUTDOWN_DELAY_MS :: nat where "SHUTDOWN_DELAY_MS \<equiv> 1000"
abbreviation (input) RESTART_DELAY_MS :: nat where "RESTART_DELAY_MS \<equiv> 500"
abbreviation (input) GH_VM_STOP_SHUTDOWN :: u32 where "GH_VM_STOP_SHUTDOWN \<equiv> 0"
abbreviation (input) GH_VM_STOP_RESTART :: u32 where "GH_VM_STOP_RESTART \<equiv> 1"
abbreviation (input) GH_VM_STOP_CRASH :: u32 where "GH_VM_STOP_CRASH \<equiv> 2"
abbreviation (input) GH_RM_OS_STATUS_BOOT :: u8 where "GH_RM_OS_STATUS_BOOT \<equiv> 2"
abbreviation (input) GH_RM_APP_STATUS_TUI_SERVICE_BOOT :: u16 where "GH_RM_APP_STATUS_TUI_SERVICE_BOOT \<equiv> 1"
abbreviation (input) NOTIFY_DONE :: int where "NOTIFY_DONE \<equiv> 0"

definition pops_log :: "pops_event list \<Rightarrow> 'c pops_state \<Rightarrow> 'c pops_state" where
  "pops_log es s = s\<lparr>gp_events := gp_events s @ es\<rparr>"

section \<open>Requests to stop\<close>

definition gh_guest_pops_handle_stop_shutdown :: "u32 \<Rightarrow> 'c pops_state \<Rightarrow> (int, 'c pops_state) outcome" where
  "gh_guest_pops_handle_stop_shutdown stop_reason s =
     (if gh_vm_poff_input s \<in> {None, Some Input_Freed} then Fault
      else let delay = (if stop_reason = GH_VM_STOP_SHUTDOWN then [Msleep SHUTDOWN_DELAY_MS]
                        else if stop_reason = GH_VM_STOP_RESTART then [Msleep RESTART_DELAY_MS] else []) in
        Done 0 (pops_log ([Power_Key True, Input_Sync] @ delay @ [Power_Key False, Input_Sync]) s))"

definition gh_guest_pops_handle_stop_crash :: "'c pops_state \<Rightarrow> (int, 'c pops_state) outcome" where
  "gh_guest_pops_handle_stop_crash s = Blocked (pops_log [Panic] s)"

definition gh_guest_pops_vm_shutdown :: "u32 \<Rightarrow> 'c pops_state \<Rightarrow> (int, 'c pops_state) outcome" where
  "gh_guest_pops_vm_shutdown stop_reason s =
     (if stop_reason = GH_VM_STOP_SHUTDOWN then gh_guest_pops_handle_stop_shutdown stop_reason s
      else if stop_reason = GH_VM_STOP_CRASH then gh_guest_pops_handle_stop_crash s
      else if stop_reason = GH_VM_STOP_RESTART then gh_guest_pops_handle_stop_shutdown stop_reason s
      else Done 0 s)"

definition gh_guest_pops_rm_notifer_fn :: "u32 \<Rightarrow> u8 list \<Rightarrow> 'c pops_state \<Rightarrow> (int, 'c pops_state) outcome" where
  "gh_guest_pops_rm_notifer_fn cmd payload s =
     (if cmd \<noteq> GH_RM_NOTIF_VM_SHUTDOWN then Done NOTIFY_DONE s
      else if length payload < 4 then Fault
      else gh_guest_pops_vm_shutdown (of_le32 payload) s)"

section \<open>The input device\<close>

definition input_unregister_device :: "'c pops_state \<Rightarrow> (unit, 'c pops_state) outcome" where
  "input_unregister_device s = (if gh_vm_poff_input s = Some Input_Registered then Done () (s\<lparr>gh_vm_poff_input := Some Input_Freed\<rparr>) else Fault)"

definition input_free_device :: "'c pops_state \<Rightarrow> (unit, 'c pops_state) outcome" where
  "input_free_device s =
     (case gh_vm_poff_input s of
        None \<Rightarrow> Done () s
      | Some Input_Allocated \<Rightarrow> Done () (s\<lparr>gh_vm_poff_input := Some Input_Freed\<rparr>)
      | Some _ \<Rightarrow> Fault)"

text \<open>What the library calls return.\<close>

record pops_env =
  pe_alloc :: bool
  pe_register :: int
  pe_notifier :: int
  pe_kobj_add :: int
  pe_kobj_named :: bool
  pe_group :: int
  pe_kz :: bool

definition gh_guest_pops_init_poff :: "pops_env \<Rightarrow> 'c pops_state \<Rightarrow> (int, 'c pops_state) outcome" where
  "gh_guest_pops_init_poff e s =
     (if \<not> pe_alloc e then Done (- ENOMEM) (s\<lparr>gh_vm_poff_input := None\<rparr>)
      else let s = s\<lparr>gh_vm_poff_input := Some Input_Allocated\<rparr> in
        if pe_register e \<noteq> 0 then obind (input_free_device s) (\<lambda>_. Done (pe_register e))
        else let s = s\<lparr>gh_vm_poff_input := Some Input_Registered\<rparr> in
          if pe_notifier e \<noteq> 0 then obind (input_unregister_device s) (\<lambda>_ s. obind (input_free_device s) (\<lambda>_. Done (pe_notifier e)))
          else Done 0 (s\<lparr>gp_nb := True\<rparr>))"

definition gh_guest_pops_exit_poff :: "'c pops_state \<Rightarrow> (unit, 'c pops_state) outcome" where
  "gh_guest_pops_exit_poff s = obind (input_unregister_device (s\<lparr>gp_nb := False\<rparr>)) (\<lambda>_. input_free_device)"

section \<open>Status in sysfs\<close>

text \<open>\<open>parse\<close> is what \<^verbatim>\<open>kstrtou16\<close> reads.\<close>

definition gh_guest_set_app_status :: "'c rm_caller \<Rightarrow> bool \<Rightarrow> u16 option \<Rightarrow> nat \<Rightarrow> 'c pops_state \<Rightarrow> int \<times> 'c pops_state" where
  "gh_guest_set_app_status call kz parse count s =
     (case parse of
        None \<Rightarrow> (- EINVAL, s)
      | Some app_status \<Rightarrow>
          if app_status \<noteq> GH_RM_APP_STATUS_TUI_SERVICE_BOOT then (- EINVAL, s)
          else case gh_rm_vm_set_app_status call kz app_status (gp_rm s) of
            (ret, c) \<Rightarrow> (if ret \<noteq> 0 then - EINVAL else int count, s\<lparr>gp_rm := c\<rparr>))"

text \<open>\<^verbatim>\<open>kobject_del\<close>, \<^verbatim>\<open>kobject_put\<close> and the clearing of the kobject.\<close>

definition kobj_drop :: "'c pops_state \<Rightarrow> (unit, 'c pops_state) outcome" where
  "kobj_drop s = (if gh_guest_kobj s then Done () (s\<lparr>gh_guest_kobj := False\<rparr>) else Fault)"

definition gh_guest_sysfs_init :: "pops_env \<Rightarrow> 'c pops_state \<Rightarrow> (int, 'c pops_state) outcome" where
  "gh_guest_sysfs_init e s =
     (let s = s\<lparr>gh_guest_kobj := True\<rparr> in
      if pe_kobj_add e \<noteq> 0 then (if pe_kobj_named e then obind (kobj_drop s) (\<lambda>_. Done (- ENOMEM)) else Done (- ENOMEM) s)
      else if pe_group e \<noteq> 0 then obind (kobj_drop s) (\<lambda>_. Done (pe_group e))
      else Done 0 (s\<lparr>gp_group := True\<rparr>))"

definition gh_guest_sysfs_cleanup :: "'c pops_state \<Rightarrow> (unit, 'c pops_state) outcome" where
  "gh_guest_sysfs_cleanup s = kobj_drop (s\<lparr>gp_group := False\<rparr>)"

section \<open>The module\<close>

definition gh_guest_pops_init :: "'c rm_caller \<Rightarrow> pops_env \<Rightarrow> 'c pops_state \<Rightarrow> (int, 'c pops_state) outcome" where
  "gh_guest_pops_init call e s =
     obind (gh_guest_pops_init_poff e s) (\<lambda>ret s.
       if ret \<noteq> 0 then Done 0 s
       else obind (gh_guest_sysfs_init e s) (\<lambda>ret s.
         if ret \<noteq> 0 then obind (gh_guest_pops_exit_poff s) (\<lambda>_. Done 0)
         else case gh_rm_vm_set_os_status call (pe_kz e) GH_RM_OS_STATUS_BOOT (gp_rm s) of
           (ret, c) \<Rightarrow>
             let s = s\<lparr>gp_rm := c\<rparr> in
             if ret \<noteq> 0 then obind (gh_guest_pops_exit_poff s) (\<lambda>_ s. obind (gh_guest_sysfs_cleanup s) (\<lambda>_. Done 0))
             else Done 0 s))"

definition gh_guest_pops_exit :: "'c pops_state \<Rightarrow> (unit, 'c pops_state) outcome" where
  "gh_guest_pops_exit s = obind (gh_guest_pops_exit_poff s) (\<lambda>_. gh_guest_sysfs_cleanup)"

section \<open>Properties\<close>

text \<open>Leaving frees the input device twice, from any state.\<close>

lemma exit_poff_faults: "gh_guest_pops_exit_poff s = Fault"
  by (simp add: gh_guest_pops_exit_poff_def input_unregister_device_def input_free_device_def)

lemma init_poff_cases:
  "gh_guest_pops_init_poff e s =
     (if \<not> pe_alloc e then Done (- ENOMEM) (s\<lparr>gh_vm_poff_input := None\<rparr>)
      else if pe_register e \<noteq> 0 then Done (pe_register e) (s\<lparr>gh_vm_poff_input := Some Input_Freed\<rparr>)
      else if pe_notifier e \<noteq> 0 then Fault
      else Done 0 (s\<lparr>gh_vm_poff_input := Some Input_Registered, gp_nb := True\<rparr>))"
  by (simp add: gh_guest_pops_init_poff_def input_free_device_def input_unregister_device_def Let_def)

lemma sysfs_init_cases:
  "gh_guest_sysfs_init e s =
     (if pe_kobj_add e \<noteq> 0 then Done (- ENOMEM) (s\<lparr>gh_guest_kobj := \<not> pe_kobj_named e\<rparr>)
      else if pe_group e \<noteq> 0 then Done (pe_group e) (s\<lparr>gh_guest_kobj := False\<rparr>)
      else Done 0 (s\<lparr>gh_guest_kobj := True, gp_group := True\<rparr>))"
  by (simp add: gh_guest_sysfs_init_def kobj_drop_def Let_def)


definition sample_pops_env :: pops_env where
  "sample_pops_env = \<lparr>pe_alloc = True, pe_register = 0, pe_notifier = - EEXIST, pe_kobj_add = 0, pe_kobj_named = True, pe_group = 0, pe_kz = True\<rparr>"

definition sample_pops :: "unit pops_state" where
  "sample_pops = \<lparr>gh_vm_poff_input = None, gp_nb = False, gh_guest_kobj = False, gp_group = False, gp_events = [], gp_rm = ()\<rparr>"


end
