(* ===== verification/Hcall.thy ===== *)
theory Hcall
  imports Gunyah_Prelude
begin

text \<open>
  The wrappers of the hypercalls (\<^verbatim>\<open>arch/arm64/include/asm/gunyah/hcall.h\<close> and \<^verbatim>\<open>drivers/virt/gunyah/hcall_*.h\<close>, \<^verbatim>\<open>gh_proxy_sched.h\<close>):
  which function number and registers each passes and what it reads from the answer. The instruction
  itself is the parameter \<open>hvc\<close>, from the immediate and the registers \<^verbatim>\<open>x0\<close>-\<^verbatim>\<open>x7\<close> to the registers after it;
  it works on the state \<open>'h\<close>, which also holds the memory that pointers in registers refer to. A
  result that is only stored on success is an option.
\<close>

section \<open>The instruction\<close>

record gh_hcall_args =
  arg0 :: u64
  arg1 :: u64
  arg2 :: u64
  arg3 :: u64
  arg4 :: u64
  arg5 :: u64
  arg6 :: u64
  arg7 :: u64

record gh_hcall_resp =
  resp0 :: u64
  resp1 :: u64
  resp2 :: u64
  resp3 :: u64
  resp4 :: u64
  resp5 :: u64
  resp6 :: u64
  resp7 :: u64

type_synonym gh_hcall_fnid_t = u16
type_synonym 'h hvc = "gh_hcall_fnid_t \<Rightarrow> gh_hcall_args \<Rightarrow> 'h \<Rightarrow> gh_hcall_resp \<times> 'h"

text \<open>An initialiser \<^verbatim>\<open>{ a, b, ... }\<close>: the members that are not named are 0.\<close>

definition hcall_args :: "u64 list \<Rightarrow> gh_hcall_args" where
  "hcall_args xs =
     (let x = (\<lambda>i. if i < length xs then xs ! i else 0) in
      \<lparr>arg0 = x 0, arg1 = x 1, arg2 = x 2, arg3 = x 3, arg4 = x 4, arg5 = x 5, arg6 = x 6, arg7 = x 7\<rparr>)"

text \<open>The result is \<^verbatim>\<open>x0\<close> as an \<^verbatim>\<open>int\<close>.\<close>

definition gh_hcall :: "'h hvc \<Rightarrow> gh_hcall_fnid_t \<Rightarrow> gh_hcall_args \<Rightarrow> 'h \<Rightarrow> (int \<times> gh_hcall_resp) \<times> 'h" where
  "gh_hcall hvc hcall_num args h = (case hvc hcall_num args h of (r, h) \<Rightarrow> ((sint (ucast (resp0 r) :: u32), r), h))"

text \<open>A wrapper without results, and one that reads them with \<open>f\<close> on success.\<close>

definition hcall_ret :: "'h hvc \<Rightarrow> gh_hcall_fnid_t \<Rightarrow> u64 list \<Rightarrow> 'h \<Rightarrow> int \<times> 'h" where
  "hcall_ret hvc n xs h = (case gh_hcall hvc n (hcall_args xs) h of ((ret, r), h) \<Rightarrow> (ret, h))"

definition hcall_get :: "(gh_hcall_resp \<Rightarrow> 'a) \<Rightarrow> 'h hvc \<Rightarrow> gh_hcall_fnid_t \<Rightarrow> u64 list \<Rightarrow> 'h \<Rightarrow> (int \<times> 'a option) \<times> 'h" where
  "hcall_get f hvc n xs h =
     (case gh_hcall hvc n (hcall_args xs) h of ((ret, r), h) \<Rightarrow> ((ret, if ret = 0 then Some (f r) else None), h))"

section \<open>Control\<close>

definition gh_hcall_hyp_identify :: "'h hvc \<Rightarrow> 'h \<Rightarrow> (int \<times> u64 \<times> u64 \<times> u64 \<times> u64) \<times> 'h" where
  "gh_hcall_hyp_identify hvc h =
     (case gh_hcall hvc 0x6000 (hcall_args [0]) h of ((ret, r), h) \<Rightarrow> ((0, resp0 r, resp1 r, resp2 r, resp3 r), h))"

definition gh_hcall_trace_update_class_flags :: "'h hvc \<Rightarrow> u64 \<Rightarrow> u64 \<Rightarrow> 'h \<Rightarrow> (int \<times> u64 option) \<times> 'h" where
  "gh_hcall_trace_update_class_flags hvc set_flags clear_flags = hcall_get resp1 hvc 0x603f [set_flags, clear_flags, 0]"

section \<open>Doorbells\<close>

definition gh_hcall_dbl_bind :: "'h hvc \<Rightarrow> gh_capid_t \<Rightarrow> gh_capid_t \<Rightarrow> gh_virq_handle_t \<Rightarrow> 'h \<Rightarrow> int \<times> 'h" where
  "gh_hcall_dbl_bind hvc dbl_capid vic_capid virq_info = hcall_ret hvc 0x6010 [dbl_capid, vic_capid, ucast virq_info]"

definition gh_hcall_dbl_unbind :: "'h hvc \<Rightarrow> gh_capid_t \<Rightarrow> 'h \<Rightarrow> int \<times> 'h" where
  "gh_hcall_dbl_unbind hvc dbl_capid = hcall_ret hvc 0x6011 [dbl_capid]"

definition gh_hcall_dbl_send :: "'h hvc \<Rightarrow> gh_capid_t \<Rightarrow> u64 \<Rightarrow> 'h \<Rightarrow> (int \<times> u64 option) \<times> 'h" where
  "gh_hcall_dbl_send hvc dbl_capid new_flags = hcall_get resp1 hvc 0x6012 [dbl_capid, new_flags]"

definition gh_hcall_dbl_recv :: "'h hvc \<Rightarrow> gh_capid_t \<Rightarrow> u64 \<Rightarrow> 'h \<Rightarrow> (int \<times> u64 option) \<times> 'h" where
  "gh_hcall_dbl_recv hvc dbl_capid clear_flags = hcall_get resp1 hvc 0x6013 [dbl_capid, clear_flags]"

definition gh_hcall_dbl_reset :: "'h hvc \<Rightarrow> gh_capid_t \<Rightarrow> 'h \<Rightarrow> int \<times> 'h" where
  "gh_hcall_dbl_reset hvc dbl_capid = hcall_ret hvc 0x6014 [dbl_capid]"

definition gh_hcall_dbl_mask :: "'h hvc \<Rightarrow> gh_capid_t \<Rightarrow> u64 \<Rightarrow> u64 \<Rightarrow> 'h \<Rightarrow> int \<times> 'h" where
  "gh_hcall_dbl_mask hvc dbl_capid enable_mask ack_mask = hcall_ret hvc 0x6015 [dbl_capid, enable_mask, ack_mask]"

section \<open>Message queues\<close>

definition gh_hcall_msgq_bind_send :: "'h hvc \<Rightarrow> gh_capid_t \<Rightarrow> gh_capid_t \<Rightarrow> gh_virq_handle_t \<Rightarrow> 'h \<Rightarrow> int \<times> 'h" where
  "gh_hcall_msgq_bind_send hvc msgq_capid vic_capid virq_info = hcall_ret hvc 0x6017 [msgq_capid, vic_capid, ucast virq_info]"

definition gh_hcall_msgq_bind_recv :: "'h hvc \<Rightarrow> gh_capid_t \<Rightarrow> gh_capid_t \<Rightarrow> gh_virq_handle_t \<Rightarrow> 'h \<Rightarrow> int \<times> 'h" where
  "gh_hcall_msgq_bind_recv hvc msgq_capid vic_capid virq_info = hcall_ret hvc 0x6018 [msgq_capid, vic_capid, ucast virq_info]"

definition gh_hcall_msgq_unbind_send :: "'h hvc \<Rightarrow> gh_capid_t \<Rightarrow> 'h \<Rightarrow> int \<times> 'h" where
  "gh_hcall_msgq_unbind_send hvc msgq_capid = hcall_ret hvc 0x6019 [msgq_capid]"

definition gh_hcall_msgq_unbind_recv :: "'h hvc \<Rightarrow> gh_capid_t \<Rightarrow> 'h \<Rightarrow> int \<times> 'h" where
  "gh_hcall_msgq_unbind_recv hvc msgq_capid = hcall_ret hvc 0x601A [msgq_capid]"

definition gh_hcall_msgq_send :: "'h hvc \<Rightarrow> gh_capid_t \<Rightarrow> u64 \<Rightarrow> u64 \<Rightarrow> u64 \<Rightarrow> 'h \<Rightarrow> (int \<times> bool option) \<times> 'h" where
  "gh_hcall_msgq_send hvc msgq_capid sz data send_flags = hcall_get (\<lambda>r. resp1 r \<noteq> 0) hvc 0x601B [msgq_capid, sz, data, send_flags]"

definition gh_hcall_msgq_recv :: "'h hvc \<Rightarrow> gh_capid_t \<Rightarrow> u64 \<Rightarrow> u64 \<Rightarrow> 'h \<Rightarrow> (int \<times> (u64 \<times> bool) option) \<times> 'h" where
  "gh_hcall_msgq_recv hvc msgq_capid buffer max_size = hcall_get (\<lambda>r. (resp1 r, resp2 r \<noteq> 0)) hvc 0x601C [msgq_capid, buffer, max_size]"

definition gh_hcall_msgq_flush :: "'h hvc \<Rightarrow> gh_capid_t \<Rightarrow> 'h \<Rightarrow> int \<times> 'h" where
  "gh_hcall_msgq_flush hvc msgq_capid = hcall_ret hvc 0x601D [msgq_capid]"

definition gh_hcall_msgq_configure_send :: "'h hvc \<Rightarrow> gh_capid_t \<Rightarrow> int \<Rightarrow> int \<Rightarrow> 'h \<Rightarrow> int \<times> 'h" where
  "gh_hcall_msgq_configure_send hvc msgq_capid not_full_threshold not_full_delay =
     hcall_ret hvc 0x601F [msgq_capid, word_of_int not_full_threshold, word_of_int not_full_delay, - 1]"

definition gh_hcall_msgq_configure_recv :: "'h hvc \<Rightarrow> gh_capid_t \<Rightarrow> int \<Rightarrow> int \<Rightarrow> 'h \<Rightarrow> int \<times> 'h" where
  "gh_hcall_msgq_configure_recv hvc msgq_capid not_empty_threshold not_empty_delay =
     hcall_ret hvc 0x6020 [msgq_capid, word_of_int not_empty_threshold, word_of_int not_empty_delay, - 1]"

section \<open>Virtio\<close>

definition gh_hcall_virtio_mmio_backend_assert_virq :: "'h hvc \<Rightarrow> gh_capid_t \<Rightarrow> u64 \<Rightarrow> 'h \<Rightarrow> int \<times> 'h" where
  "gh_hcall_virtio_mmio_backend_assert_virq hvc capid int_status = hcall_ret hvc 0x604e [capid, int_status, 0]"

definition gh_hcall_virtio_mmio_backend_set_dev_features :: "'h hvc \<Rightarrow> gh_capid_t \<Rightarrow> u64 \<Rightarrow> u64 \<Rightarrow> 'h \<Rightarrow> int \<times> 'h" where
  "gh_hcall_virtio_mmio_backend_set_dev_features hvc capid features_sel features = hcall_ret hvc 0x604f [capid, features_sel, features, 0]"

definition gh_hcall_virtio_mmio_backend_set_queue_num_max :: "'h hvc \<Rightarrow> gh_capid_t \<Rightarrow> u64 \<Rightarrow> u64 \<Rightarrow> 'h \<Rightarrow> int \<times> 'h" where
  "gh_hcall_virtio_mmio_backend_set_queue_num_max hvc capid queue_sel queue_num_max = hcall_ret hvc 0x6050 [capid, queue_sel, queue_num_max, 0]"

definition gh_hcall_virtio_mmio_backend_get_drv_features :: "'h hvc \<Rightarrow> gh_capid_t \<Rightarrow> u64 \<Rightarrow> 'h \<Rightarrow> (int \<times> u64 option) \<times> 'h" where
  "gh_hcall_virtio_mmio_backend_get_drv_features hvc capid features_sel = hcall_get resp1 hvc 0x6051 [capid, features_sel, 0]"

record gh_hcall_virtio_queue_info =
  queue_num :: u64
  queue_ready :: u64
  queue_desc :: u64
  queue_driver :: u64
  queue_device :: u64

definition gh_hcall_virtio_mmio_backend_get_queue_info ::
  "'h hvc \<Rightarrow> gh_capid_t \<Rightarrow> u64 \<Rightarrow> 'h \<Rightarrow> (int \<times> gh_hcall_virtio_queue_info option) \<times> 'h" where
  "gh_hcall_virtio_mmio_backend_get_queue_info hvc capid queue_sel =
     hcall_get (\<lambda>r. \<lparr>queue_num = resp1 r, queue_ready = resp2 r, queue_desc = resp3 r, queue_driver = resp4 r, queue_device = resp5 r\<rparr>)
       hvc 0x6052 [capid, queue_sel, 0]"

text \<open>The data and the event.\<close>

definition gh_hcall_virtio_mmio_backend_get_event :: "'h hvc \<Rightarrow> gh_capid_t \<Rightarrow> 'h \<Rightarrow> (int \<times> (u64 \<times> u64) option) \<times> 'h" where
  "gh_hcall_virtio_mmio_backend_get_event hvc capid = hcall_get (\<lambda>r. (resp1 r, resp2 r)) hvc 0x6053 [capid, 0]"

definition gh_hcall_virtio_mmio_backend_ack_reset :: "'h hvc \<Rightarrow> gh_capid_t \<Rightarrow> 'h \<Rightarrow> int \<times> 'h" where
  "gh_hcall_virtio_mmio_backend_ack_reset hvc capid = hcall_ret hvc 0x6054 [capid, 0]"

definition gh_hcall_virtio_mmio_backend_input_configure :: "'h hvc \<Rightarrow> gh_capid_t \<Rightarrow> u64 \<Rightarrow> u64 \<Rightarrow> u64 \<Rightarrow> u64 \<Rightarrow> 'h \<Rightarrow> int \<times> 'h" where
  "gh_hcall_virtio_mmio_backend_input_configure hvc capid device_id prop_bits num_ev_types num_abs_axes =
     hcall_ret hvc 0x605E [capid, device_id, prop_bits, num_ev_types, num_abs_axes, 0]"

definition gh_hcall_virtio_mmio_backend_input_set_data :: "'h hvc \<Rightarrow> gh_capid_t \<Rightarrow> u64 \<Rightarrow> u64 \<Rightarrow> u64 \<Rightarrow> u64 \<Rightarrow> 'h \<Rightarrow> int \<times> 'h" where
  "gh_hcall_virtio_mmio_backend_input_set_data hvc capid sel subsel sz data =
     hcall_ret hvc 0x605F [capid, sel, subsel, sz, data, 0]"

section \<open>Virtual CPUs\<close>

text \<open>The wrappers of \<^verbatim>\<open>gh_proxy_sched.h\<close>; the answer is read whether the call succeeds or not.\<close>

definition gh_hcall_wdog_manage :: "'h hvc \<Rightarrow> gh_capid_t \<Rightarrow> u16 \<Rightarrow> 'h \<Rightarrow> int \<times> 'h" where
  "gh_hcall_wdog_manage hvc wdog_capid operation = hcall_ret hvc 0x6063 [wdog_capid, ucast operation]"

record gh_hcall_vcpu_run_resp =
  vr_ret :: int
  vr_vcpu_state :: u64
  vr_vcpu_suspend_state :: u64
  vr_state_data_0 :: u64
  vr_state_data_1 :: u64
  vr_state_data_2 :: u64

definition gh_hcall_vcpu_run :: "'h hvc \<Rightarrow> gh_capid_t \<Rightarrow> u64 \<Rightarrow> u64 \<Rightarrow> u64 \<Rightarrow> 'h \<Rightarrow> (int \<times> gh_hcall_vcpu_run_resp) \<times> 'h" where
  "gh_hcall_vcpu_run hvc vcpu_capid resume_data_0 resume_data_1 resume_data_2 h =
     (case gh_hcall hvc 0x6065 (hcall_args [vcpu_capid, resume_data_0, resume_data_1, resume_data_2, 0]) h of
        ((ret, r), h) \<Rightarrow> ((ret, \<lparr>vr_ret = ret, vr_vcpu_state = resp1 r, vr_vcpu_suspend_state = resp2 r,
                                  vr_state_data_0 = resp3 r, vr_state_data_1 = resp4 r, vr_state_data_2 = resp5 r\<rparr>), h))"

definition gh_hcall_vpm_group_get_state :: "'h hvc \<Rightarrow> gh_capid_t \<Rightarrow> 'h \<Rightarrow> (int \<times> u64) \<times> 'h" where
  "gh_hcall_vpm_group_get_state hvc vpmg_capid h =
     (case gh_hcall hvc 0x6045 (hcall_args [vpmg_capid, 0]) h of ((ret, r), h) \<Rightarrow> ((ret, resp1 r), h))"

lemmas virtio_wrappers =
  gh_hcall_virtio_mmio_backend_assert_virq_def
  gh_hcall_virtio_mmio_backend_set_dev_features_def
  gh_hcall_virtio_mmio_backend_set_queue_num_max_def
  gh_hcall_virtio_mmio_backend_get_drv_features_def
  gh_hcall_virtio_mmio_backend_get_queue_info_def
  gh_hcall_virtio_mmio_backend_get_event_def
  gh_hcall_virtio_mmio_backend_ack_reset_def
  gh_hcall_virtio_mmio_backend_input_configure_def
  gh_hcall_virtio_mmio_backend_input_set_data_def

end
