(* ===== verification/Hcall_Drivers.thy ===== *)
theory Hcall_Drivers
  imports Hcall Msgq_IO Doorbell_IO Virtio_Backend Proxy_Sched
begin

text \<open>
  The drivers down to the registers: the hypercalls that the models of the message queue, doorbell and
  virtio drivers take as parameters, built from the wrappers of \<^verbatim>\<open>hcall_*.h\<close>. Buffers are passed by address;
  \<open>gm_put\<close> and \<open>gm_get\<close> write and read the memory the hypervisor sees.
\<close>

section \<open>The wrappers as the drivers use them\<close>

record 'h guest_ram =
  gm_put :: "u64 \<Rightarrow> u8 list \<Rightarrow> 'h \<Rightarrow> 'h"
  gm_get :: "u64 \<Rightarrow> nat \<Rightarrow> 'h \<Rightarrow> u8 list"

text \<open>\<^verbatim>\<open>struct gh_hcall_msgq_send_resp resp = {}\<close>: what is not stored is false, 0 or empty.\<close>

definition msgq_hcall_of :: "'h hvc \<Rightarrow> 'h guest_ram \<Rightarrow> u64 \<Rightarrow> 'h msgq_hcall" where
  "msgq_hcall_of hvc ram a =
     \<lparr>hc_msgq_send = (\<lambda>c b f h.
        case gh_hcall_msgq_send hvc c (of_nat (length b)) a f (gm_put ram a b h) of
          ((ret, out), h) \<Rightarrow> ((ret, out = Some True), h)),
      hc_msgq_recv = (\<lambda>c m h.
        case gh_hcall_msgq_recv hvc c a (of_nat m) h of
          ((ret, None), h) \<Rightarrow> ((ret, [], False), h)
        | ((ret, Some (sz, not_empty)), h) \<Rightarrow> ((ret, gm_get ram a (unat sz) h, not_empty), h))\<rparr>"

definition dbl_hcall_of :: "'h hvc \<Rightarrow> 'h dbl_hcall" where
  "dbl_hcall_of hvc =
     \<lparr>hc_dbl_recv = (\<lambda>c f h. case gh_hcall_dbl_recv hvc c f h of ((ret, out), h) \<Rightarrow> ((ret, case out of None \<Rightarrow> 0 | Some v \<Rightarrow> v), h)),
      hc_dbl_mask = gh_hcall_dbl_mask hvc,
      hc_dbl_send = (\<lambda>c f h. case gh_hcall_dbl_send hvc c f h of ((ret, out), h) \<Rightarrow> ((ret, case out of None \<Rightarrow> 0 | Some v \<Rightarrow> v), h)),
      hc_dbl_reset = gh_hcall_dbl_reset hvc\<rparr>"

text \<open>What the scheduler uses of running a vCPU: the result and the state of the vCPU.\<close>

definition vcpu_hcall_of :: "'h hvc \<Rightarrow> 'h vcpu_hcall" where
  "vcpu_hcall_of hvc c r0 r1 r2 h = (case gh_hcall_vcpu_run hvc c r0 r1 r2 h of ((ret, resp), h) \<Rightarrow> ((ret, vr_vcpu_state resp), h))"

text \<open>The answer registers in the order in which the virtio backend reads them; none when the call fails.\<close>

definition no_regs :: "int \<times> 'h \<Rightarrow> (int \<times> u64 list) \<times> 'h" where
  "no_regs = (\<lambda>(ret, h). ((ret, []), h))"

definition some_regs :: "('a \<Rightarrow> u64 list) \<Rightarrow> (int \<times> 'a option) \<times> 'h \<Rightarrow> (int \<times> u64 list) \<times> 'h" where
  "some_regs f = (\<lambda>((ret, out), h). ((ret, case out of None \<Rightarrow> [] | Some x \<Rightarrow> f x), h))"

fun vb_hcall_of :: "'h hvc \<Rightarrow> 'h guest_ram \<Rightarrow> u64 \<Rightarrow> vb_hcall \<Rightarrow> 'h \<Rightarrow> (int \<times> u64 list) \<times> 'h" where
  "vb_hcall_of hvc ram a (Assert_Virq c st) h = no_regs (gh_hcall_virtio_mmio_backend_assert_virq hvc c st h)"
| "vb_hcall_of hvc ram a (Set_Dev_Features c sel f) h = no_regs (gh_hcall_virtio_mmio_backend_set_dev_features hvc c (ucast sel) (ucast f) h)"
| "vb_hcall_of hvc ram a (Set_Queue_Num_Max c sel n) h = no_regs (gh_hcall_virtio_mmio_backend_set_queue_num_max hvc c (ucast sel) (ucast n) h)"
| "vb_hcall_of hvc ram a (Get_Drv_Features c sel) h = some_regs (\<lambda>x. [x]) (gh_hcall_virtio_mmio_backend_get_drv_features hvc c (ucast sel) h)"
| "vb_hcall_of hvc ram a (Get_Queue_Info c sel) h =
     some_regs (\<lambda>q. [queue_num q, queue_ready q, queue_desc q, queue_driver q, queue_device q]) (gh_hcall_virtio_mmio_backend_get_queue_info hvc c (ucast sel) h)"
| "vb_hcall_of hvc ram a (Get_Event c) h = some_regs (\<lambda>(x, y). [x, y]) (gh_hcall_virtio_mmio_backend_get_event hvc c h)"
| "vb_hcall_of hvc ram a (Ack_Reset c) h = no_regs (gh_hcall_virtio_mmio_backend_ack_reset hvc c h)"
| "vb_hcall_of hvc ram a (Input_Configure c dev props evs axes) h =
     no_regs (gh_hcall_virtio_mmio_backend_input_configure hvc c dev (ucast props) (ucast evs) (ucast axes) h)"
| "vb_hcall_of hvc ram a (Input_Set_Data c sel subsel sz payload) h =
     no_regs (gh_hcall_virtio_mmio_backend_input_set_data hvc c (ucast sel) (ucast subsel) (ucast sz) a (gm_put ram a payload h))"

section \<open>Sending a message\<close>

text \<open>The hypervisor's side of a message queue: a send that returns 0 has taken the bytes the
  registers name, any other has taken none; memory reads back what was written, and writing it
  sends nothing.\<close>

definition hvc_send_logs :: "'h hvc \<Rightarrow> 'h guest_ram \<Rightarrow> ('h \<Rightarrow> (gh_capid_t \<times> u8 list \<times> u64) list) \<Rightarrow> bool" where
  "hvc_send_logs hvc ram sent \<longleftrightarrow>
     (\<forall>x h. sent (snd (hvc 0x601B x h)) =
        (if (ucast (resp0 (fst (hvc 0x601B x h))) :: u32) = 0 then sent h @ [(arg0 x, gm_get ram (arg2 x) (unat (arg1 x)) h, arg3 x)] else sent h))
   \<and> (\<forall>a b h. gm_get ram a (length b) (gm_put ram a b h) = b \<and> sent (gm_put ram a b h) = sent h)"

lemma hcall_ret_0 [simp]: "sint (x :: u32) = 0 \<longleftrightarrow> x = 0"
  by (rule signed_eq_0_iff)

lemma msgq_hcall_of_logs:
  assumes "hvc_send_logs hvc ram sent"
  shows "hv_send_logs (msgq_hcall_of hvc ram a) sent"
  unfolding hv_send_logs_def
proof (intro allI impI)
  fix c f h and b :: "u8 list"
  assume "length b \<le> GH_MSGQ_MAX_MSG_SIZE_BYTES"
  then have len: "unat (of_nat (length b) :: u64) = length b" by (simp add: unsigned_of_nat take_bit_nat_eq_self)
  let ?x = "hcall_args [c, of_nat (length b), a, f]"
  have x: "arg0 ?x = c" "arg1 ?x = of_nat (length b)" "arg2 ?x = a" "arg3 ?x = f" by (simp_all add: hcall_args_def)
  obtain r h' where r: "hvc 0x601B ?x (gm_put ram a b h) = (r, h')" by (rule prod.exhaust)
  have "sent h' = (if (ucast (resp0 r) :: u32) = 0 then sent h @ [(c, b, f)] else sent h)"
    using assms r len unfolding hvc_send_logs_def by (metis fst_conv snd_conv x)
  then show "case hc_msgq_send (msgq_hcall_of hvc ram a) c b f h of ((ret, nf), h') \<Rightarrow> sent h' = (if ret = GH_ERROR_OK then sent h @ [(c, b, f)] else sent h)"
    using r by (simp add: msgq_hcall_of_def gh_hcall_msgq_send_def hcall_get_def gh_hcall_def)
qed

text \<open>C24: sending a message, from the caller of \<^verbatim>\<open>gh_msgq_send\<close> to the registers. Over the wrapper of the
hypercall, a send that returns 0 put exactly the first \<open>n\<close> bytes of the buffer in front of the
hypervisor once, with the capability of the queue and the flags the hypervisor may see; any other
result and a task still asleep sent nothing, and no freed memory is touched.\<close>

theorem gh_msgq_send_to_registers:
  assumes "msgq_wf s" and "mq_descs s d = Some dd" and "hvc_send_logs hvc ram sent"
    and "\<forall>x. Env x \<in> set es \<longrightarrow> msgq_event_quiet sent x"
  shows "outcome_spec
    (\<lambda>r t. msgq_wf t \<and> msgq_code r \<and>
       sent (mq_hyp t) = sent (mq_hyp s) @
         (if r = 0 then [(mq_tx_cap_id (the (mq_caps t (the (mqd_cap_table dd)))), take n (the buff), flags AND GH_MSGQ_HVC_FLAGS_MASK)] else []))
    (\<lambda>t. sent (mq_hyp t) = sent (mq_hyp s))
    (gh_msgq_send (msgq_hcall_of hvc ram a) (Some d) buff n flags s es)"
proof -
  obtain p where p: "mqd_cap_table dd = Some p" "msgq_attached d p s" by (rule msgq_wf_desc [OF assms(1,2)])
  show ?thesis
    using gh_msgq_send_log [OF p(2) assms(2) p(1) msgq_hcall_of_logs [OF assms(3)] assms(4), of n buff flags a] p(1)
    by (cases "gh_msgq_send (msgq_hcall_of hvc ram a) (Some d) buff n flags s es") (auto simp: msgq_attached_def)
qed

text \<open>A hypervisor with one buffer of memory and a queue.\<close>

type_synonym reg_hyp = "u8 list \<times> (gh_capid_t \<times> u8 list \<times> u64) list"

definition reg_ram :: "reg_hyp guest_ram" where
  "reg_ram = \<lparr>gm_put = \<lambda>a b h. (b, snd h), gm_get = \<lambda>a n h. take n (fst h)\<rparr>"

definition resp_of :: "u64 list \<Rightarrow> gh_hcall_resp" where
  "resp_of xs =
     \<lparr>resp0 = reg xs 0, resp1 = reg xs 1, resp2 = reg xs 2, resp3 = reg xs 3, resp4 = reg xs 4, resp5 = reg xs 5, resp6 = reg xs 6, resp7 = reg xs 7\<rparr>"

definition reg_hvc :: "reg_hyp hvc" where
  "reg_hvc n x h = (if n = 0x601B then (resp_of [0, 1], (fst h, snd h @ [(arg0 x, take (unat (arg1 x)) (fst h), arg3 x)])) else (resp_of [1], h))"

lemma reg_hvc_logs: "hvc_send_logs reg_hvc reg_ram snd"
  by (simp add: hvc_send_logs_def reg_hvc_def reg_ram_def resp_of_def reg_def)

definition reg_msgq :: "reg_hyp msgq_state" where
  "reg_msgq = (msgq_init ([], []))\<lparr>mq_caps := mq_caps msgq_demo_state, mq_descs := mq_descs msgq_demo_state, mq_cap_list := [1], mq_next := 3\<rparr>"

theorem gh_msgq_send_to_registers_witness:
  "\<exists>t. gh_msgq_send (msgq_hcall_of reg_hvc reg_ram 0x1000) (Some 2) (Some [5, 6, 7]) 2 1 reg_msgq [] = Done 0 t \<and> snd (mq_hyp t) = [(7, [5, 6], 1)]"
proof -
  have wf: "msgq_wf reg_msgq"
    by (rule msgq_wfI) (auto simp: reg_msgq_def msgq_demo_state_def msgq_init_def msgq_entry_ok_def msgq_desc_ok_def split: if_splits)
  have d: "mq_descs reg_msgq 2 = Some \<lparr>mqd_label = 3, mqd_cap_table = Some 1\<rparr>" "snd (mq_hyp reg_msgq) = []"
    by (simp_all add: reg_msgq_def msgq_demo_state_def msgq_init_def)
  obtain t where t: "gh_msgq_send (msgq_hcall_of reg_hvc reg_ram 0x1000) (Some 2) (Some [5, 6, 7]) 2 1 reg_msgq [] = Done 0 t" "mq_tx_cap_id (the (mq_caps t 1)) = 7"
    by (simp add: gh_msgq_send_def gh_msgq_send_loop.simps gh_msgq_send_locked_def tx_cap_known_def tx_ready_def msgq_hcall_of_def reg_msgq_def msgq_demo_state_def
        msgq_init_def has_flag_def gh_hcall_msgq_send_def hcall_get_def gh_hcall_def reg_hvc_def resp_of_def reg_def)
  then show ?thesis using gh_msgq_send_to_registers [OF wf d(1) reg_hvc_logs, of "[]" 2 "Some [5, 6, 7]" 1 "0x1000"] d(2) by simp
qed

section \<open>The virtio calls\<close>

text \<open>The hypervisor's side: the call the registers stand for, with the reserved registers 0.\<close>

definition args_zero :: "nat \<Rightarrow> gh_hcall_args \<Rightarrow> bool" where
  "args_zero n x \<longleftrightarrow> (\<forall>y\<in>set (drop n [arg0 x, arg1 x, arg2 x, arg3 x, arg4 x, arg5 x, arg6 x, arg7 x]). y = 0)"

definition vb_decode :: "'h guest_ram \<Rightarrow> gh_hcall_fnid_t \<Rightarrow> gh_hcall_args \<Rightarrow> 'h \<Rightarrow> vb_hcall option" where
  "vb_decode ram n x h =
     (if n = 0x604e \<and> args_zero 2 x then Some (Assert_Virq (arg0 x) (arg1 x))
      else if n = 0x604f \<and> args_zero 3 x then Some (Set_Dev_Features (arg0 x) (ucast (arg1 x)) (ucast (arg2 x)))
      else if n = 0x6050 \<and> args_zero 3 x then Some (Set_Queue_Num_Max (arg0 x) (ucast (arg1 x)) (ucast (arg2 x)))
      else if n = 0x6051 \<and> args_zero 2 x then Some (Get_Drv_Features (arg0 x) (ucast (arg1 x)))
      else if n = 0x6052 \<and> args_zero 2 x then Some (Get_Queue_Info (arg0 x) (ucast (arg1 x)))
      else if n = 0x6053 \<and> args_zero 1 x then Some (Get_Event (arg0 x))
      else if n = 0x6054 \<and> args_zero 1 x then Some (Ack_Reset (arg0 x))
      else if n = 0x605E \<and> args_zero 5 x then Some (Input_Configure (arg0 x) (arg1 x) (ucast (arg2 x)) (ucast (arg3 x)) (ucast (arg4 x)))
      else if n = 0x605F \<and> args_zero 5 x
        then Some (Input_Set_Data (arg0 x) (ucast (arg1 x)) (ucast (arg2 x)) (ucast (arg3 x)) (gm_get ram (arg4 x) (unat (arg3 x)) h))
      else None)"

definition hvc_of :: "'h guest_ram \<Rightarrow> (vb_hcall \<Rightarrow> 'h \<Rightarrow> (int \<times> u64 list) \<times> 'h) \<Rightarrow> 'h hvc" where
  "hvc_of ram spec n x h =
     (case vb_decode ram n x h of
        None \<Rightarrow> (resp_of [1], h)
      | Some c \<Rightarrow> (case spec c h of ((ret, rs), h) \<Rightarrow> (resp_of (word_of_int ret # rs), h)))"

definition ram_law :: "'h guest_ram \<Rightarrow> bool" where
  "ram_law ram \<longleftrightarrow> (\<forall>a b h. gm_get ram a (length b) (gm_put ram a b h) = b)"

text \<open>The state the hypervisor sees, how many results a call has, and calls whose data has the length they state.\<close>

fun vb_call_state :: "'h guest_ram \<Rightarrow> u64 \<Rightarrow> vb_hcall \<Rightarrow> 'h \<Rightarrow> 'h" where
  "vb_call_state ram a (Input_Set_Data c sel subsel sz payload) h = gm_put ram a payload h"
| "vb_call_state ram a call h = h"

fun vb_call_outs :: "vb_hcall \<Rightarrow> nat" where
  "vb_call_outs (Get_Drv_Features c sel) = 1"
| "vb_call_outs (Get_Queue_Info c sel) = 5"
| "vb_call_outs (Get_Event c) = 2"
| "vb_call_outs call = 0"

fun vb_call_ok :: "vb_hcall \<Rightarrow> bool" where
  "vb_call_ok (Input_Set_Data c sel subsel sz payload) \<longleftrightarrow> length payload = unat sz"
| "vb_call_ok call \<longleftrightarrow> True"

lemma ucast_down_up [simp]: "(ucast (ucast (x :: u32) :: u64) :: u32) = x" "(ucast (ucast (y :: u8) :: u64) :: u8) = y"
  by (rule bit_word_eqI, simp add: bit_simps)+

lemma unat_up_u8 [simp]: "unat (ucast (y :: u8) :: u64) = unat y"
  by (simp add: unsigned_ucast_eq take_bit_nat_eq_self unsigned_less order.strict_trans2 [OF unsigned_less])

lemma int_result: "- (2 ^ 31) \<le> ret \<Longrightarrow> ret < 2 ^ 31 \<Longrightarrow> sint (ucast (word_of_int ret :: u64) :: u32) = ret"
proof -
  assume r: "- (2 ^ 31) \<le> ret" "ret < 2 ^ 31"
  have "(ucast (word_of_int ret :: u64) :: u32) = word_of_int ret" by (rule bit_word_eqI) (simp add: bit_simps)
  then show ?thesis using r by (simp add: signed_of_int signed_take_bit_int_eq_self_iff)
qed

lemma resp_of_Cons:
  "resp_of (x # rs) = \<lparr>resp0 = x, resp1 = reg rs 0, resp2 = reg rs 1, resp3 = reg rs 2, resp4 = reg rs 3, resp5 = reg rs 4, resp6 = reg rs 5, resp7 = reg rs 6\<rparr>"
  by (simp add: resp_of_def reg_def)

lemma upt_outs: "[0..<1] = [0 :: nat]" "[0..<2] = [0, 1 :: nat]" "[0..<5] = [0, 1, 2, 3, 4 :: nat]"
  by (simp_all add: upt_rec)

text \<open>C27: the virtio calls in registers. Any behaviour \<open>spec\<close> of the virtio calls whose results are 32-bit
numbers can be put behind the \<^verbatim>\<open>hvc\<close> instruction: the wrappers then give the backend exactly the
results of that behaviour, on success with all its registers, on failure with none. No two calls
share registers, no argument is cut off, and the reserved registers are 0.\<close>

theorem vb_hcall_registers_roundtrip:
  assumes "ram_law ram" and "vb_call_ok call"
    and "\<forall>ret rs h'. spec call (vb_call_state ram a call h) = ((ret, rs), h') \<longrightarrow> - (2 ^ 31) \<le> ret \<and> ret < 2 ^ 31"
  shows "vb_hcall_of (hvc_of ram spec) ram a call h =
     (case spec call (vb_call_state ram a call h) of ((ret, rs), h') \<Rightarrow> ((ret, if ret = 0 then map (reg rs) [0..<vb_call_outs call] else []), h'))"
proof -
  obtain ret rs h' where r: "spec call (vb_call_state ram a call h) = ((ret, rs), h')" by (metis surj_pair)
  have ret: "sint (ucast (word_of_int ret :: u64) :: u32) = ret" using int_result [of ret] assms(3) [rule_format, OF r] by blast
  have ram: "gm_get ram a (unat sz) (gm_put ram a p h) = p" if "length p = unat sz" for p and sz :: u8 and h
    using assms(1) that unfolding ram_law_def by metis
  note defs = virtio_wrappers hvc_of_def vb_decode_def args_zero_def hcall_args_def hcall_ret_def hcall_get_def gh_hcall_def no_regs_def some_regs_def resp_of_Cons
  show ?thesis using r ret assms(2) by (cases call) (simp_all add: defs ram upt_outs)
qed

definition reg_spec :: "vb_hcall \<Rightarrow> reg_hyp \<Rightarrow> (int \<times> u64 list) \<times> reg_hyp" where
  "reg_spec c h = (case c of Get_Queue_Info cap sel \<Rightarrow> ((0, [cap, ucast sel, 3, 4, 5]), h) | _ \<Rightarrow> ((- 1, []), h))"

theorem vb_hcall_registers_roundtrip_witness:
  "vb_hcall_of (hvc_of reg_ram reg_spec) reg_ram 0x1000 (Get_Queue_Info 9 2) ([], []) = ((0, [9, 2, 3, 4, 5]), ([], []))"
proof -
  have "ram_law reg_ram" by (simp add: ram_law_def reg_ram_def)
  then show ?thesis using vb_hcall_registers_roundtrip [of reg_ram "Get_Queue_Info 9 2" reg_spec "0x1000" "([], [])"]
    by (simp add: reg_spec_def reg_def upt_rec)
qed

section \<open>Doorbells\<close>

text \<open>The flags of a doorbell behind the registers give the flags the doorbell driver relies on.\<close>

definition hvc_dbl_spec :: "'h hvc \<Rightarrow> ('h \<Rightarrow> gh_capid_t \<Rightarrow> u64) \<Rightarrow> bool" where
  "hvc_dbl_spec hvc bell \<longleftrightarrow>
     (\<forall>x h. let (r, h') = hvc 0x6012 x h in (ucast (resp0 r) :: u32) = 0 \<longrightarrow> resp1 r = bell h (arg0 x) \<and> bell h' (arg0 x) = bell h (arg0 x) OR arg1 x)
   \<and> (\<forall>x h. let (r, h') = hvc 0x6013 x h in (ucast (resp0 r) :: u32) = 0 \<longrightarrow> resp1 r = bell h (arg0 x) \<and> bell h' (arg0 x) = bell h (arg0 x) AND NOT (arg1 x))"

lemma dbl_hcall_of_spec:
  assumes "hvc_dbl_spec hvc bell"
  shows "hv_dbl_spec (dbl_hcall_of hvc) bell"
  unfolding hv_dbl_spec_def
proof (intro allI conjI)
  fix c v h
  let ?x = "hcall_args [c, v]"
  have x: "arg0 ?x = c" "arg1 ?x = v" by (simp_all add: hcall_args_def)
  obtain r h1 where r: "hvc 0x6012 ?x h = (r, h1)" by (rule prod.exhaust)
  obtain q h2 where q: "hvc 0x6013 ?x h = (q, h2)" by (rule prod.exhaust)
  have "(ucast (resp0 r) :: u32) = 0 \<longrightarrow> resp1 r = bell h c \<and> bell h1 c = bell h c OR v"
    using assms [unfolded hvc_dbl_spec_def, THEN conjunct1, rule_format, of ?x h] r x by simp
  then show "case hc_dbl_send (dbl_hcall_of hvc) c v h of ((ret, old), h') \<Rightarrow> ret = GH_ERROR_OK \<longrightarrow> old = bell h c \<and> bell h' c = bell h c OR v"
    using r by (simp add: dbl_hcall_of_def gh_hcall_dbl_send_def hcall_get_def gh_hcall_def)
  have "(ucast (resp0 q) :: u32) = 0 \<longrightarrow> resp1 q = bell h c \<and> bell h2 c = bell h c AND NOT v"
    using assms [unfolded hvc_dbl_spec_def, THEN conjunct2, rule_format, of ?x h] q x by simp
  then show "case hc_dbl_recv (dbl_hcall_of hvc) c v h of ((ret, old), h') \<Rightarrow> ret = GH_ERROR_OK \<longrightarrow> old = bell h c \<and> bell h' c = bell h c AND NOT v"
    using q by (simp add: dbl_hcall_of_def gh_hcall_dbl_recv_def hcall_get_def gh_hcall_def)
qed

end
