(* ===== verification/Rm_Payload.thy ===== *)
theory Rm_Payload
  imports Rm_Mem_Correct
begin

text \<open>
  The packed structures of the Resource Manager protocol (\<^verbatim>\<open>drivers/virt/gunyah/gh_rm_drv_private.h\<close>). A structure is a
  record with its members in order; \<open>_bytes\<close> is its layout in memory and \<open>_of\<close> what a reader of that memory
  sees. Structures with equal members share a record, those with one word are words. A flexible
  array member is not part of the record. Signed members are words.
\<close>

section \<open>Packed structures\<close>

text \<open>What a packed structure promises: a fixed width, and that it can be read back in front of anything.\<close>

locale packed =
  fixes bytes :: "'a \<Rightarrow> u8 list"
    and of_bytes :: "u8 list \<Rightarrow> 'a"
    and width :: nat
  assumes length_bytes: "length (bytes x) = width"
    and of_bytes_append: "of_bytes (bytes x @ r) = x"
begin

lemma of_bytes_bytes: "of_bytes (bytes x) = x"
  using of_bytes_append [of x "[]"] by simp

lemma bytes_inject: "bytes x @ r = bytes y @ s \<longleftrightarrow> x = y \<and> r = s"
  using of_bytes_append length_bytes by (metis append_eq_append_conv)

lemma drop_bytes: "drop width (bytes x @ r) = r"
  using length_bytes [of x] by simp

lemma length_array: "length (concat (map bytes xs)) = width * length xs"
  by (induction xs) (simp_all add: length_bytes)

end

text \<open>An array of structures.\<close>

fun unpack :: "nat \<Rightarrow> (u8 list \<Rightarrow> 'a) \<Rightarrow> nat \<Rightarrow> u8 list \<Rightarrow> 'a list" where
  "unpack w f 0 bs = []"
| "unpack w f (Suc n) bs = f bs # unpack w f n (drop w bs)"

context packed
begin

lemma unpack_array: "unpack width of_bytes (length xs) (concat (map bytes xs) @ r) = xs"
  by (induction xs) (simp_all add: of_bytes_append length_bytes)

end

text \<open>Three bytes: a bit field of 24 bits behind one of 8.\<close>

type_synonym u24 = "24 word"

definition le24 :: "u24 \<Rightarrow> u8 list" where
  "le24 w = [ucast w, ucast (drop_bit 8 w), ucast (drop_bit 16 w)]"

definition of_le24 :: "u8 list \<Rightarrow> u24" where
  "of_le24 bs = ucast (bs ! 0) OR push_bit 8 (ucast (bs ! 1)) OR push_bit 16 (ucast (bs ! 2))"

lemma length_le24 [simp]: "length (le24 w) = 3"
  by (simp add: le24_def)

lemma of_le24_le24 [simp]: "of_le24 (le24 w @ r) = w"
proof -
  have "bit (of_le24 (le24 w @ r)) n = bit w n" if "n < 24" for n
  proof -
    have "n < 8 \<or> 8 \<le> n \<and> n < 16 \<or> 16 \<le> n" by arith
    with that show ?thesis by (elim disjE) (auto simp: of_le24_def le24_def bit_simps)
  qed
  then show ?thesis by (auto intro: bit_word_eqI)
qed

lemma le24_0 [simp]: "le24 0 = [0, 0, 0]"
  by (simp add: le24_def)

section \<open>The structures\<close>

record gh_vm_allocate_req_payload =
  va_vmid :: u16
  va_reserved :: u16

definition va_bytes :: "gh_vm_allocate_req_payload \<Rightarrow> u8 list" where
  "va_bytes x = le16 (va_vmid x) @ le16 (va_reserved x)"

definition va_of :: "u8 list \<Rightarrow> gh_vm_allocate_req_payload" where
  "va_of b = \<lparr>va_vmid = of_le16 b, va_reserved = of_le16 (drop 2 b)\<rparr>"

interpretation va: packed va_bytes va_of 4
  by unfold_locales (simp_all add: va_bytes_def va_of_def)

type_synonym gh_vm_deallocate_req_payload = gh_vm_allocate_req_payload
type_synonym gh_vm_init_req_payload = gh_vm_allocate_req_payload
type_synonym gh_vm_start_req_payload = gh_vm_allocate_req_payload
type_synonym gh_vm_reset_req_payload = gh_vm_allocate_req_payload
type_synonym gh_vm_get_state_req_payload = gh_vm_allocate_req_payload
type_synonym gh_vm_console_common_req_payload = gh_vm_allocate_req_payload
type_synonym gh_vm_get_id_req_payload = gh_vm_allocate_req_payload
type_synonym gh_vm_get_hyp_res_req_payload = gh_vm_allocate_req_payload
type_synonym gh_vm_lookup_resp_entry = gh_vm_allocate_req_payload

record gh_vm_config_image_req_payload =
  ci_vmid :: u16
  ci_auth_mech :: u16
  ci_mem_handle :: u32
  ci_image_offset_low :: u32
  ci_image_offset_high :: u32
  ci_image_size_low :: u32
  ci_image_size_high :: u32
  ci_dtb_offset_low :: u32
  ci_dtb_offset_high :: u32
  ci_dtb_size_low :: u32
  ci_dtb_size_high :: u32

definition ci_bytes :: "gh_vm_config_image_req_payload \<Rightarrow> u8 list" where
  "ci_bytes x = le16 (ci_vmid x) @ le16 (ci_auth_mech x) @ le32 (ci_mem_handle x) @ le32 (ci_image_offset_low x) @ le32 (ci_image_offset_high x) @ le32 (ci_image_size_low x) @ le32 (ci_image_size_high x) @ le32 (ci_dtb_offset_low x) @ le32 (ci_dtb_offset_high x) @ le32 (ci_dtb_size_low x) @ le32 (ci_dtb_size_high x)"

definition ci_of :: "u8 list \<Rightarrow> gh_vm_config_image_req_payload" where
  "ci_of b = \<lparr>ci_vmid = of_le16 b, ci_auth_mech = of_le16 (drop 2 b), ci_mem_handle = of_le32 (drop 4 b), ci_image_offset_low =
      of_le32 (drop 8 b), ci_image_offset_high = of_le32 (drop 12 b), ci_image_size_low = of_le32 (drop 16 b),
      ci_image_size_high = of_le32 (drop 20 b), ci_dtb_offset_low = of_le32 (drop 24 b), ci_dtb_offset_high = of_le32 (drop 28
      b), ci_dtb_size_low = of_le32 (drop 32 b), ci_dtb_size_high = of_le32 (drop 36 b)\<rparr>"

interpretation ci: packed ci_bytes ci_of 40
  by unfold_locales (simp_all add: ci_bytes_def ci_of_def)

record gh_vm_auth_image_req_payload_hdr =
  ah_vmid :: u16
  ah_num_auth_params :: u16

definition ah_bytes :: "gh_vm_auth_image_req_payload_hdr \<Rightarrow> u8 list" where
  "ah_bytes x = le16 (ah_vmid x) @ le16 (ah_num_auth_params x)"

definition ah_of :: "u8 list \<Rightarrow> gh_vm_auth_image_req_payload_hdr" where
  "ah_of b = \<lparr>ah_vmid = of_le16 b, ah_num_auth_params = of_le16 (drop 2 b)\<rparr>"

interpretation ah: packed ah_bytes ah_of 4
  by unfold_locales (simp_all add: ah_bytes_def ah_of_def)

record gh_vm_stop_req_payload =
  so_vmid :: u16
  so_flags :: u8
  so_reserved :: u8
  so_stop_reason :: u32

definition so_bytes :: "gh_vm_stop_req_payload \<Rightarrow> u8 list" where
  "so_bytes x = le16 (so_vmid x) @ [so_flags x] @ [so_reserved x] @ le32 (so_stop_reason x)"

definition so_of :: "u8 list \<Rightarrow> gh_vm_stop_req_payload" where
  "so_of b = \<lparr>so_vmid = of_le16 b, so_flags = hd (drop 2 b), so_reserved = hd (drop 3 b), so_stop_reason = of_le32 (drop 4 b)\<rparr>"

interpretation so: packed so_bytes so_of 8
  by unfold_locales (simp_all add: so_bytes_def so_of_def)

record gh_vm_set_status_req_payload =
  sp_vm_status :: u8
  sp_os_status :: u8
  sp_app_status :: u16

definition sp_bytes :: "gh_vm_set_status_req_payload \<Rightarrow> u8 list" where
  "sp_bytes x = [sp_vm_status x] @ [sp_os_status x] @ le16 (sp_app_status x)"

definition sp_of :: "u8 list \<Rightarrow> gh_vm_set_status_req_payload" where
  "sp_of b = \<lparr>sp_vm_status = hd b, sp_os_status = hd (drop 1 b), sp_app_status = of_le16 (drop 2 b)\<rparr>"

interpretation sp: packed sp_bytes sp_of 4
  by unfold_locales (simp_all add: sp_bytes_def sp_of_def)

type_synonym gh_vm_get_state_resp_payload = gh_vm_set_status_req_payload

record gh_vm_console_write_req_payload =
  cw_vmid :: u16
  cw_num_bytes :: u16

definition cw_bytes :: "gh_vm_console_write_req_payload \<Rightarrow> u8 list" where
  "cw_bytes x = le16 (cw_vmid x) @ le16 (cw_num_bytes x)"

definition cw_of :: "u8 list \<Rightarrow> gh_vm_console_write_req_payload" where
  "cw_of b = \<lparr>cw_vmid = of_le16 b, cw_num_bytes = of_le16 (drop 2 b)\<rparr>"

interpretation cw: packed cw_bytes cw_of 4
  by unfold_locales (simp_all add: cw_bytes_def cw_of_def)

record gh_vm_lookup_char_req_payload =
  lc_size :: u16
  lc_reserved :: u16

definition lc_bytes :: "gh_vm_lookup_char_req_payload \<Rightarrow> u8 list" where
  "lc_bytes x = le16 (lc_size x) @ le16 (lc_reserved x)"

definition lc_of :: "u8 list \<Rightarrow> gh_vm_lookup_char_req_payload" where
  "lc_of b = \<lparr>lc_size = of_le16 b, lc_reserved = of_le16 (drop 2 b)\<rparr>"

interpretation lc: packed lc_bytes lc_of 4
  by unfold_locales (simp_all add: lc_bytes_def lc_of_def)

record gh_vm_set_time_base_req_payload =
  tb_vmid :: u16
  tb_reserved0 :: u8
  tb_reserved1 :: u8
  tb_time_base_low :: u32
  tb_time_base_high :: u32
  tb_arch_timer_ref_low :: u32
  tb_arch_timer_ref_high :: u32

definition tb_bytes :: "gh_vm_set_time_base_req_payload \<Rightarrow> u8 list" where
  "tb_bytes x = le16 (tb_vmid x) @ [tb_reserved0 x] @ [tb_reserved1 x] @ le32 (tb_time_base_low x) @ le32 (tb_time_base_high x) @ le32 (tb_arch_timer_ref_low x) @ le32 (tb_arch_timer_ref_high x)"

definition tb_of :: "u8 list \<Rightarrow> gh_vm_set_time_base_req_payload" where
  "tb_of b = \<lparr>tb_vmid = of_le16 b, tb_reserved0 = hd (drop 2 b), tb_reserved1 = hd (drop 3 b), tb_time_base_low = of_le32 (drop 4 b),
      tb_time_base_high = of_le32 (drop 8 b), tb_arch_timer_ref_low = of_le32 (drop 12 b), tb_arch_timer_ref_high = of_le32
      (drop 16 b)\<rparr>"

interpretation tb: packed tb_bytes tb_of 20
  by unfold_locales (simp_all add: tb_bytes_def tb_of_def)

record gh_vm_irq_accept_req_payload =
  ir_virq_handle :: u32
  ir_virq :: u32

definition ir_bytes :: "gh_vm_irq_accept_req_payload \<Rightarrow> u8 list" where
  "ir_bytes x = le32 (ir_virq_handle x) @ le32 (ir_virq x)"

definition ir_of :: "u8 list \<Rightarrow> gh_vm_irq_accept_req_payload" where
  "ir_of b = \<lparr>ir_virq_handle = of_le32 b, ir_virq = of_le32 (drop 4 b)\<rparr>"

interpretation ir: packed ir_bytes ir_of 8
  by unfold_locales (simp_all add: ir_bytes_def ir_of_def)

record gh_vm_irq_lend_req_payload =
  le_vmid :: u16
  le_reserved :: u16
  le_virq :: u32
  le_label :: u32

definition le_bytes :: "gh_vm_irq_lend_req_payload \<Rightarrow> u8 list" where
  "le_bytes x = le16 (le_vmid x) @ le16 (le_reserved x) @ le32 (le_virq x) @ le32 (le_label x)"

definition le_of :: "u8 list \<Rightarrow> gh_vm_irq_lend_req_payload" where
  "le_of b = \<lparr>le_vmid = of_le16 b, le_reserved = of_le16 (drop 2 b), le_virq = of_le32 (drop 4 b), le_label = of_le32 (drop 8 b)\<rparr>"

interpretation le: packed le_bytes le_of 12
  by unfold_locales (simp_all add: le_bytes_def le_of_def)

record gh_vm_irq_notify_req_payload =
  no_virq :: u32
  no_flags :: u8
  no_reserved0 :: u8
  no_reserved1 :: u16

definition no_bytes :: "gh_vm_irq_notify_req_payload \<Rightarrow> u8 list" where
  "no_bytes x = le32 (no_virq x) @ [no_flags x] @ [no_reserved0 x] @ le16 (no_reserved1 x)"

definition no_of :: "u8 list \<Rightarrow> gh_vm_irq_notify_req_payload" where
  "no_of b = \<lparr>no_virq = of_le32 b, no_flags = hd (drop 4 b), no_reserved0 = hd (drop 5 b), no_reserved1 = of_le16 (drop 6 b)\<rparr>"

interpretation no: packed no_bytes no_of 8
  by unfold_locales (simp_all add: no_bytes_def no_of_def)

record gh_mem_qcom_lookup_sgl_req_payload_hdr =
  lh_mem_type :: u8
  lh_reserved :: u24
  lh_label :: u32

definition lh_bytes :: "gh_mem_qcom_lookup_sgl_req_payload_hdr \<Rightarrow> u8 list" where
  "lh_bytes x = [lh_mem_type x] @ le24 (lh_reserved x) @ le32 (lh_label x)"

definition lh_of :: "u8 list \<Rightarrow> gh_mem_qcom_lookup_sgl_req_payload_hdr" where
  "lh_of b = \<lparr>lh_mem_type = hd b, lh_reserved = of_le24 (drop 1 b), lh_label = of_le32 (drop 4 b)\<rparr>"

interpretation lh: packed lh_bytes lh_of 8
  by unfold_locales (simp_all add: lh_bytes_def lh_of_def)

record gh_mem_release_req_payload =
  rl_memparcel_handle :: u32
  rl_flags :: u8
  rl_reserved :: u24

definition rl_bytes :: "gh_mem_release_req_payload \<Rightarrow> u8 list" where
  "rl_bytes x = le32 (rl_memparcel_handle x) @ [rl_flags x] @ le24 (rl_reserved x)"

definition rl_of :: "u8 list \<Rightarrow> gh_mem_release_req_payload" where
  "rl_of b = \<lparr>rl_memparcel_handle = of_le32 b, rl_flags = hd (drop 4 b), rl_reserved = of_le24 (drop 5 b)\<rparr>"

interpretation rl: packed rl_bytes rl_of 8
  by unfold_locales (simp_all add: rl_bytes_def rl_of_def)

record gh_mem_accept_req_payload_hdr =
  ac_memparcel_handle :: u32
  ac_mem_type :: u8
  ac_trans_type :: u8
  ac_flags :: u8
  ac_reserved1 :: u8
  ac_validate_label :: u32

definition ac_bytes :: "gh_mem_accept_req_payload_hdr \<Rightarrow> u8 list" where
  "ac_bytes x = le32 (ac_memparcel_handle x) @ [ac_mem_type x] @ [ac_trans_type x] @ [ac_flags x] @ [ac_reserved1 x] @ le32 (ac_validate_label x)"

definition ac_of :: "u8 list \<Rightarrow> gh_mem_accept_req_payload_hdr" where
  "ac_of b = \<lparr>ac_memparcel_handle = of_le32 b, ac_mem_type = hd (drop 4 b), ac_trans_type = hd (drop 5 b), ac_flags = hd (drop 6 b),
      ac_reserved1 = hd (drop 7 b), ac_validate_label = of_le32 (drop 8 b)\<rparr>"

interpretation ac: packed ac_bytes ac_of 12
  by unfold_locales (simp_all add: ac_bytes_def ac_of_def)

record gh_mem_accept_resp_payload =
  ar_n_sgl_entries :: u16
  ar_flags :: u8
  ar_reserved :: u8

definition ar_bytes :: "gh_mem_accept_resp_payload \<Rightarrow> u8 list" where
  "ar_bytes x = le16 (ar_n_sgl_entries x) @ [ar_flags x] @ [ar_reserved x]"

definition ar_of :: "u8 list \<Rightarrow> gh_mem_accept_resp_payload" where
  "ar_of b = \<lparr>ar_n_sgl_entries = of_le16 b, ar_flags = hd (drop 2 b), ar_reserved = hd (drop 3 b)\<rparr>"

interpretation ar: packed ar_bytes ar_of 4
  by unfold_locales (simp_all add: ar_bytes_def ar_of_def)

record gh_mem_share_req_payload_hdr =
  sh_mem_type :: u8
  sh_reserved1 :: u8
  sh_flags :: u8
  sh_reserved2 :: u8
  sh_label :: u32

definition sh_bytes :: "gh_mem_share_req_payload_hdr \<Rightarrow> u8 list" where
  "sh_bytes x = [sh_mem_type x] @ [sh_reserved1 x] @ [sh_flags x] @ [sh_reserved2 x] @ le32 (sh_label x)"

definition sh_of :: "u8 list \<Rightarrow> gh_mem_share_req_payload_hdr" where
  "sh_of b = \<lparr>sh_mem_type = hd b, sh_reserved1 = hd (drop 1 b), sh_flags = hd (drop 2 b), sh_reserved2 = hd (drop 3 b), sh_label =
      of_le32 (drop 4 b)\<rparr>"

interpretation sh: packed sh_bytes sh_of 8
  by unfold_locales (simp_all add: sh_bytes_def sh_of_def)

record gh_mem_append_req_payload_hdr =
  ap_memparcel_handle :: u32
  ap_flags :: u8
  ap_reserved :: u24

definition ap_bytes :: "gh_mem_append_req_payload_hdr \<Rightarrow> u8 list" where
  "ap_bytes x = le32 (ap_memparcel_handle x) @ [ap_flags x] @ le24 (ap_reserved x)"

definition ap_of :: "u8 list \<Rightarrow> gh_mem_append_req_payload_hdr" where
  "ap_of b = \<lparr>ap_memparcel_handle = of_le32 b, ap_flags = hd (drop 4 b), ap_reserved = of_le24 (drop 5 b)\<rparr>"

interpretation ap: packed ap_bytes ap_of 8
  by unfold_locales (simp_all add: ap_bytes_def ap_of_def)

record gh_mem_notify_req_payload =
  mn_memparcel_handle :: u32
  mn_flags :: u8
  mn_reserved1 :: u24
  mn_mem_info_tag :: u32

definition mn_bytes :: "gh_mem_notify_req_payload \<Rightarrow> u8 list" where
  "mn_bytes x = le32 (mn_memparcel_handle x) @ [mn_flags x] @ le24 (mn_reserved1 x) @ le32 (mn_mem_info_tag x)"

definition mn_of :: "u8 list \<Rightarrow> gh_mem_notify_req_payload" where
  "mn_of b = \<lparr>mn_memparcel_handle = of_le32 b, mn_flags = hd (drop 4 b), mn_reserved1 = of_le24 (drop 5 b), mn_mem_info_tag = of_le32
      (drop 8 b)\<rparr>"

interpretation mn: packed mn_bytes mn_of 12
  by unfold_locales (simp_all add: mn_bytes_def mn_of_def)

record gh_minidump_get_info_resp_payload =
  md_slot_num :: u16
  md_reserved :: u16

definition md_bytes :: "gh_minidump_get_info_resp_payload \<Rightarrow> u8 list" where
  "md_bytes x = le16 (md_slot_num x) @ le16 (md_reserved x)"

definition md_of :: "u8 list \<Rightarrow> gh_minidump_get_info_resp_payload" where
  "md_of b = \<lparr>md_slot_num = of_le16 b, md_reserved = of_le16 (drop 2 b)\<rparr>"

interpretation md: packed md_bytes md_of 4
  by unfold_locales (simp_all add: md_bytes_def md_of_def)

type_synonym gh_minidump_register_range_resp_payload = gh_minidump_get_info_resp_payload
type_synonym gh_minidump_deregister_slot_req_payload = gh_minidump_get_info_resp_payload

record gh_minidump_register_range_req_hdr =
  mh_base_ipa :: u64
  mh_region_size :: u64
  mh_name_size :: u8
  mh_name_offset :: u8
  mh_reserved :: u16

definition mh_bytes :: "gh_minidump_register_range_req_hdr \<Rightarrow> u8 list" where
  "mh_bytes x = le64_pair (mh_base_ipa x) @ le64_pair (mh_region_size x) @ [mh_name_size x] @ [mh_name_offset x] @ le16 (mh_reserved x)"

definition mh_of :: "u8 list \<Rightarrow> gh_minidump_register_range_req_hdr" where
  "mh_of b = \<lparr>mh_base_ipa = of_le64 b, mh_region_size = of_le64 (drop 8 b), mh_name_size = hd (drop 16 b), mh_name_offset = hd (drop
      17 b), mh_reserved = of_le16 (drop 18 b)\<rparr>"

interpretation mh: packed mh_bytes mh_of 20
  by unfold_locales (simp_all add: mh_bytes_def mh_of_def)

text \<open>Structures of one word.\<close>

type_synonym gh_vm_allocate_resp_payload = u32
type_synonym gh_vm_start_resp_payload = u32
type_synonym gh_vm_irq_accept_resp_payload = u32
type_synonym gh_vm_irq_lend_resp_payload = u32
type_synonym gh_vm_irq_release_req_payload = u32
type_synonym gh_vm_irq_reclaim_req_payload = u32
type_synonym gh_mem_qcom_lookup_sgl_resp_payload = u32
type_synonym gh_mem_share_resp_payload = u32
type_synonym gh_minidump_get_info_req_payload = u32

end
