(* ===== verification/Rm_Request.thy ===== *)
theory Rm_Request
  imports Rm_Payload Rm_Vm_Correct
begin

text \<open>
  The requests of the Resource Manager protocol as a reader sees them: their message numbers
  (\<^verbatim>\<open>gh_rm_drv_private.h\<close>), their layout over the packed structures, and the parser that takes them apart
  again. Every command of \<^theory_text>\<open>Rm_Vm\<close> and \<^theory_text>\<open>Rm_Mem\<close> is shown to send the request it is named after.
\<close>

section \<open>Descriptors\<close>

type_synonym gh_acl_entry = "u16 \<times> u8"
type_synonym gh_mem_attr_entry = "u16 \<times> u16"
type_synonym gh_vm_auth_param_entry = "u32 \<times> u32"

definition acl_bytes :: "gh_acl_entry \<Rightarrow> u8 list" where
  "acl_bytes = (\<lambda>(vmid, perms). le16 vmid @ [perms, 0])"

definition acl_of :: "u8 list \<Rightarrow> gh_acl_entry" where
  "acl_of b = (of_le16 b, hd (drop 2 b))"

interpretation acl: packed acl_bytes acl_of 4
  by unfold_locales (auto simp: acl_bytes_def acl_of_def)

definition attr_bytes :: "gh_mem_attr_entry \<Rightarrow> u8 list" where
  "attr_bytes = (\<lambda>(attr, vmid). le16 attr @ le16 vmid)"

definition attr_of :: "u8 list \<Rightarrow> gh_mem_attr_entry" where
  "attr_of b = (of_le16 b, of_le16 (drop 2 b))"

interpretation attr: packed attr_bytes attr_of 4
  by unfold_locales (auto simp: attr_bytes_def attr_of_def)

definition auth_bytes :: "gh_vm_auth_param_entry \<Rightarrow> u8 list" where
  "auth_bytes = (\<lambda>(ty, v). le32 ty @ le32 v)"

definition auth_of :: "u8 list \<Rightarrow> gh_vm_auth_param_entry" where
  "auth_of b = (of_le32 b, of_le32 (drop 4 b))"

interpretation auth: packed auth_bytes auth_of 8
  by unfold_locales (auto simp: auth_bytes_def auth_of_def)

text \<open>A VM number with its padding, in the lists of VMs to notify.\<close>

definition vmid_bytes :: "gh_vmid_t \<Rightarrow> u8 list" where
  "vmid_bytes v = le16 v @ [0, 0]"

interpretation vmid: packed vmid_bytes of_le16 4
  by unfold_locales (simp_all add: vmid_bytes_def)

text \<open>The three descriptors behind the header of a memory request.\<close>

record mem_descs =
  de_acl :: gh_acl_desc
  de_sgl :: gh_sgl_desc
  de_sgl_reserved :: u16
  de_attr :: gh_mem_attr_desc

definition descs_bytes :: "mem_descs \<Rightarrow> u8 list" where
  "descs_bytes d =
     le32 (of_nat (length (de_acl d))) @ concat (map acl_bytes (de_acl d)) @
     le16 (of_nat (length (de_sgl d))) @ le16 (de_sgl_reserved d) @ sgl_bytes (de_sgl d) @
     le16 (of_nat (length (de_attr d))) @ [0, 0] @ concat (map attr_bytes (de_attr d))"

definition descs_of :: "u8 list \<Rightarrow> mem_descs" where
  "descs_of a =
     (let n = unat (of_le32 a); g = drop (4 + 4 * n) a; k = unat (of_le16 g); t = drop (4 + 16 * k) g in
      \<lparr>de_acl = unpack 4 acl_of n (drop 4 a), de_sgl = sgl_take k (drop 4 g), de_sgl_reserved = of_le16 (drop 2 g),
       de_attr = unpack 4 attr_of (unat (of_le16 t)) (drop 4 t)\<rparr>)"

definition descs_ok :: "mem_descs \<Rightarrow> bool" where
  "descs_ok d \<longleftrightarrow> length (de_acl d) < 2 ^ 32 \<and> length (de_sgl d) < 2 ^ 16 \<and> length (de_attr d) < 2 ^ 16"

lemma descs_of_bytes:
  assumes "descs_ok d"
  shows "descs_of (descs_bytes d) = d"
proof -
  have n: "unat (of_nat (length (de_acl d)) :: u32) = length (de_acl d)" "unat (of_nat (length (de_sgl d)) :: u16) = length (de_sgl d)"
    "unat (of_nat (length (de_attr d)) :: u16) = length (de_attr d)"
    using assms by (simp_all add: descs_ok_def unat_of_nat_u16 unat_of_nat_u32)
  define t where "t = le16 (of_nat (length (de_attr d))) @ [0, 0] @ concat (map attr_bytes (de_attr d))"
  define g where "g = le16 (of_nat (length (de_sgl d))) @ le16 (de_sgl_reserved d) @ sgl_bytes (de_sgl d) @ t"
  define a where "a = le32 (of_nat (length (de_acl d))) @ concat (map acl_bytes (de_acl d)) @ g"
  have a: "drop (4 + 4 * length (de_acl d)) a = g" "unpack 4 acl_of (length (de_acl d)) (drop 4 a) = de_acl d" "of_le32 a = of_nat (length (de_acl d))"
    by (simp_all add: a_def acl.length_array acl.unpack_array)
  have g: "drop (4 + 16 * length (de_sgl d)) g = t" "sgl_take (length (de_sgl d)) (drop 4 g) = de_sgl d" "of_le16 g = of_nat (length (de_sgl d))"
    "of_le16 (drop 2 g) = de_sgl_reserved d"
    by (simp_all add: g_def sgl_take_bytes)
  have t: "unpack 4 attr_of (length (de_attr d)) (drop 4 t) = de_attr d" "of_le16 t = of_nat (length (de_attr d))"
    using attr.unpack_array [of "de_attr d" "[]"] by (simp_all add: t_def)
  have "descs_bytes d = a" by (simp add: descs_bytes_def a_def g_def t_def)
  then show ?thesis by (simp add: descs_of_def Let_def a g t n del: drop_drop)
qed

text \<open>What the helpers of \<^theory_text>\<open>Rm_Mem\<close> write is this layout.\<close>

lemma populate_descs:
  assumes "length (desc sgl) \<le> GH_RM_MEM_MAX_SGL_ENTRIES"
  shows "gh_rm_populate_acl_desc acl @ gh_rm_populate_sgl_desc sgl r @ gh_rm_populate_mem_attr_desc attrs =
    descs_bytes \<lparr>de_acl = desc acl, de_sgl = desc sgl, de_sgl_reserved = r, de_attr = desc attrs\<rparr>"
  using assms by (simp add: gh_rm_populate_acl_desc_def gh_rm_populate_sgl_desc_def gh_rm_populate_mem_attr_desc_def descs_bytes_def acl_bytes_def attr_bytes_def Let_def)

section \<open>Requests\<close>

datatype rm_request =
    Mem_Donate gh_mem_share_req_payload_hdr mem_descs
  | Mem_Accept gh_mem_accept_req_payload_hdr mem_descs
  | Mem_Lend gh_mem_share_req_payload_hdr mem_descs
  | Mem_Share gh_mem_share_req_payload_hdr mem_descs
  | Mem_Release gh_mem_release_req_payload
  | Mem_Reclaim gh_mem_release_req_payload
  | Mem_Notify gh_mem_notify_req_payload "gh_vmid_t list option"
  | Mem_Append gh_mem_append_req_payload_hdr u16 gh_sgl_desc
  | Mem_Qcom_Lookup_Sgl gh_mem_qcom_lookup_sgl_req_payload_hdr mem_descs
  | Vm_Allocate gh_vm_allocate_req_payload
  | Vm_Deallocate gh_vm_deallocate_req_payload
  | Vm_Start gh_vm_start_req_payload
  | Vm_Stop gh_vm_stop_req_payload
  | Vm_Reset gh_vm_reset_req_payload
  | Vm_Config_Image gh_vm_config_image_req_payload
  | Vm_Auth_Image gh_vmid_t "gh_vm_auth_param_entry list"
  | Vm_Init gh_vm_init_req_payload
  | Vm_Get_Id gh_vm_get_id_req_payload
  | Vm_Lookup_Uri gh_vm_lookup_char_req_payload "u8 list"
  | Vm_Lookup_Guid "u8 list"
  | Vm_Lookup_Name gh_vm_lookup_char_req_payload "u8 list"
  | Vm_Get_State gh_vm_get_state_req_payload
  | Vm_Get_Hyp_Resources gh_vm_get_hyp_res_req_payload
  | Vm_Set_Time_Base gh_vm_set_time_base_req_payload
  | Minidump_Get_Info gh_minidump_get_info_req_payload
  | Minidump_Register_Range gh_minidump_register_range_req_hdr "u8 list"
  | Minidump_Deregister_Slot gh_minidump_deregister_slot_req_payload
  | Vm_Irq_Accept gh_vm_irq_accept_req_payload
  | Vm_Irq_Lend gh_vm_irq_lend_req_payload
  | Vm_Irq_Release gh_vm_irq_release_req_payload
  | Vm_Irq_Reclaim gh_vm_irq_reclaim_req_payload
  | Vm_Irq_Notify gh_vm_irq_notify_req_payload "gh_vmid_t list option"
  | Vm_Set_Status gh_vm_set_status_req_payload
  | Vm_Console_Open gh_vm_console_common_req_payload
  | Vm_Console_Close gh_vm_console_common_req_payload
  | Vm_Console_Write gh_vm_console_write_req_payload "u8 list"
  | Vm_Console_Flush gh_vm_console_common_req_payload

fun rm_request_id :: "rm_request \<Rightarrow> u32" where
  "rm_request_id (Mem_Donate h d) = 0x51000010"
| "rm_request_id (Mem_Accept h d) = 0x51000011"
| "rm_request_id (Mem_Lend h d) = 0x51000012"
| "rm_request_id (Mem_Share h d) = 0x51000013"
| "rm_request_id (Mem_Release p) = 0x51000014"
| "rm_request_id (Mem_Reclaim p) = 0x51000015"
| "rm_request_id (Mem_Notify p vs) = 0x51000017"
| "rm_request_id (Mem_Append h r l) = 0x51000018"
| "rm_request_id (Mem_Qcom_Lookup_Sgl h d) = 0x5100001A"
| "rm_request_id (Vm_Allocate p) = 0x56000001"
| "rm_request_id (Vm_Deallocate p) = 0x56000002"
| "rm_request_id (Vm_Start p) = 0x56000004"
| "rm_request_id (Vm_Stop p) = 0x56000005"
| "rm_request_id (Vm_Reset p) = 0x56000006"
| "rm_request_id (Vm_Config_Image p) = 0x56000009"
| "rm_request_id (Vm_Auth_Image v es) = 0x5600000A"
| "rm_request_id (Vm_Init p) = 0x5600000B"
| "rm_request_id (Vm_Get_Id p) = 0x56000010"
| "rm_request_id (Vm_Lookup_Uri p d) = 0x56000011"
| "rm_request_id (Vm_Lookup_Guid d) = 0x56000012"
| "rm_request_id (Vm_Lookup_Name p d) = 0x56000013"
| "rm_request_id (Vm_Get_State p) = 0x56000017"
| "rm_request_id (Vm_Get_Hyp_Resources p) = 0x56000020"
| "rm_request_id (Vm_Set_Time_Base p) = 0x56000030"
| "rm_request_id (Minidump_Get_Info p) = 0x56000040"
| "rm_request_id (Minidump_Register_Range h n) = 0x56000041"
| "rm_request_id (Minidump_Deregister_Slot p) = 0x56000042"
| "rm_request_id (Vm_Irq_Accept p) = 0x56000050"
| "rm_request_id (Vm_Irq_Lend p) = 0x56000051"
| "rm_request_id (Vm_Irq_Release p) = 0x56000052"
| "rm_request_id (Vm_Irq_Reclaim p) = 0x56000053"
| "rm_request_id (Vm_Irq_Notify p vs) = 0x56000054"
| "rm_request_id (Vm_Set_Status p) = 0x56000080"
| "rm_request_id (Vm_Console_Open p) = 0x56000081"
| "rm_request_id (Vm_Console_Close p) = 0x56000082"
| "rm_request_id (Vm_Console_Write p d) = 0x56000083"
| "rm_request_id (Vm_Console_Flush p) = 0x56000084"

text \<open>\<^verbatim>\<open>optional[0]\<close> of a notification: nothing, or a list of VMs.\<close>

definition vmids_bytes :: "gh_vmid_t list option \<Rightarrow> u8 list" where
  "vmids_bytes vs = (case vs of None \<Rightarrow> [] | Some l \<Rightarrow> le16 (of_nat (length l)) @ [0, 0] @ concat (map vmid_bytes l))"

definition vmids_of :: "u8 list \<Rightarrow> gh_vmid_t list option" where
  "vmids_of b = (if b = [] then None else Some (unpack 4 of_le16 (unat (of_le16 b)) (drop 4 b)))"

lemma vmids_of_bytes: "length (desc vs) < 2 ^ 16 \<Longrightarrow> vmids_of (vmids_bytes vs) = vs"
  using vmid.unpack_array [of "desc vs" "[]"]
  by (cases vs) (auto simp: vmids_of_def vmids_bytes_def desc_def unat_of_nat_u16)

fun rm_request_bytes :: "rm_request \<Rightarrow> u8 list" where
  "rm_request_bytes (Mem_Donate h d) = sh_bytes h @ descs_bytes d"
| "rm_request_bytes (Mem_Accept h d) = ac_bytes h @ descs_bytes d"
| "rm_request_bytes (Mem_Lend h d) = sh_bytes h @ descs_bytes d"
| "rm_request_bytes (Mem_Share h d) = sh_bytes h @ descs_bytes d"
| "rm_request_bytes (Mem_Release p) = rl_bytes p"
| "rm_request_bytes (Mem_Reclaim p) = rl_bytes p"
| "rm_request_bytes (Mem_Notify p vs) = mn_bytes p @ vmids_bytes vs"
| "rm_request_bytes (Mem_Append h r l) = ap_bytes h @ le16 (of_nat (length l)) @ le16 r @ sgl_bytes l"
| "rm_request_bytes (Mem_Qcom_Lookup_Sgl h d) = lh_bytes h @ descs_bytes d"
| "rm_request_bytes (Vm_Allocate p) = va_bytes p"
| "rm_request_bytes (Vm_Deallocate p) = va_bytes p"
| "rm_request_bytes (Vm_Start p) = va_bytes p"
| "rm_request_bytes (Vm_Stop p) = so_bytes p"
| "rm_request_bytes (Vm_Reset p) = va_bytes p"
| "rm_request_bytes (Vm_Config_Image p) = ci_bytes p"
| "rm_request_bytes (Vm_Auth_Image v es) = ah_bytes \<lparr>ah_vmid = v, ah_num_auth_params = of_nat (length es)\<rparr> @ concat (map auth_bytes es)"
| "rm_request_bytes (Vm_Init p) = va_bytes p"
| "rm_request_bytes (Vm_Get_Id p) = va_bytes p"
| "rm_request_bytes (Vm_Lookup_Uri p d) = lc_bytes p @ d"
| "rm_request_bytes (Vm_Lookup_Guid d) = d"
| "rm_request_bytes (Vm_Lookup_Name p d) = lc_bytes p @ d"
| "rm_request_bytes (Vm_Get_State p) = va_bytes p"
| "rm_request_bytes (Vm_Get_Hyp_Resources p) = va_bytes p"
| "rm_request_bytes (Vm_Set_Time_Base p) = tb_bytes p"
| "rm_request_bytes (Minidump_Get_Info p) = le32 p"
| "rm_request_bytes (Minidump_Register_Range h n) = mh_bytes h @ n"
| "rm_request_bytes (Minidump_Deregister_Slot p) = md_bytes p"
| "rm_request_bytes (Vm_Irq_Accept p) = ir_bytes p"
| "rm_request_bytes (Vm_Irq_Lend p) = le_bytes p"
| "rm_request_bytes (Vm_Irq_Release p) = le32 p"
| "rm_request_bytes (Vm_Irq_Reclaim p) = le32 p"
| "rm_request_bytes (Vm_Irq_Notify p vs) = no_bytes p @ vmids_bytes vs"
| "rm_request_bytes (Vm_Set_Status p) = sp_bytes p"
| "rm_request_bytes (Vm_Console_Open p) = va_bytes p"
| "rm_request_bytes (Vm_Console_Close p) = va_bytes p"
| "rm_request_bytes (Vm_Console_Write p d) = cw_bytes p @ d"
| "rm_request_bytes (Vm_Console_Flush p) = va_bytes p"

text \<open>Lists whose length fits the field that counts them.\<close>

fun rm_request_ok :: "rm_request \<Rightarrow> bool" where
  "rm_request_ok (Mem_Donate h d) \<longleftrightarrow> descs_ok d"
| "rm_request_ok (Mem_Accept h d) \<longleftrightarrow> descs_ok d"
| "rm_request_ok (Mem_Lend h d) \<longleftrightarrow> descs_ok d"
| "rm_request_ok (Mem_Share h d) \<longleftrightarrow> descs_ok d"
| "rm_request_ok (Mem_Qcom_Lookup_Sgl h d) \<longleftrightarrow> descs_ok d"
| "rm_request_ok (Mem_Notify p vs) \<longleftrightarrow> length (desc vs) < 2 ^ 16"
| "rm_request_ok (Vm_Irq_Notify p vs) \<longleftrightarrow> length (desc vs) < 2 ^ 16"
| "rm_request_ok (Mem_Append h r l) \<longleftrightarrow> length l < 2 ^ 16"
| "rm_request_ok (Vm_Auth_Image v es) \<longleftrightarrow> length es < 2 ^ 16"
| "rm_request_ok _ \<longleftrightarrow> True"

text \<open>The fields of a message, and the requests whose layout is exactly the message.\<close>

definition rm_fields :: "u32 \<Rightarrow> u8 list \<Rightarrow> rm_request option" where
  "rm_fields m b =
     (if m = 0x51000010 then Some (Mem_Donate (sh_of b) (descs_of (drop 8 b)))
      else if m = 0x51000011 then Some (Mem_Accept (ac_of b) (descs_of (drop 12 b)))
      else if m = 0x51000012 then Some (Mem_Lend (sh_of b) (descs_of (drop 8 b)))
      else if m = 0x51000013 then Some (Mem_Share (sh_of b) (descs_of (drop 8 b)))
      else if m = 0x51000014 then Some (Mem_Release (rl_of b))
      else if m = 0x51000015 then Some (Mem_Reclaim (rl_of b))
      else if m = 0x51000017 then Some (Mem_Notify (mn_of b) (vmids_of (drop 12 b)))
      else if m = 0x51000018 then Some (Mem_Append (ap_of b) (of_le16 (drop 10 b)) (sgl_take (unat (of_le16 (drop 8 b))) (drop 12 b)))
      else if m = 0x5100001A then Some (Mem_Qcom_Lookup_Sgl (lh_of b) (descs_of (drop 8 b)))
      else if m = 0x56000001 then Some (Vm_Allocate (va_of b))
      else if m = 0x56000002 then Some (Vm_Deallocate (va_of b))
      else if m = 0x56000004 then Some (Vm_Start (va_of b))
      else if m = 0x56000005 then Some (Vm_Stop (so_of b))
      else if m = 0x56000006 then Some (Vm_Reset (va_of b))
      else if m = 0x56000009 then Some (Vm_Config_Image (ci_of b))
      else if m = 0x5600000A then Some (Vm_Auth_Image (ah_vmid (ah_of b)) (unpack 8 auth_of (unat (ah_num_auth_params (ah_of b))) (drop 4 b)))
      else if m = 0x5600000B then Some (Vm_Init (va_of b))
      else if m = 0x56000010 then Some (Vm_Get_Id (va_of b))
      else if m = 0x56000011 then Some (Vm_Lookup_Uri (lc_of b) (drop 4 b))
      else if m = 0x56000012 then Some (Vm_Lookup_Guid b)
      else if m = 0x56000013 then Some (Vm_Lookup_Name (lc_of b) (drop 4 b))
      else if m = 0x56000017 then Some (Vm_Get_State (va_of b))
      else if m = 0x56000020 then Some (Vm_Get_Hyp_Resources (va_of b))
      else if m = 0x56000030 then Some (Vm_Set_Time_Base (tb_of b))
      else if m = 0x56000040 then Some (Minidump_Get_Info (of_le32 b))
      else if m = 0x56000041 then Some (Minidump_Register_Range (mh_of b) (drop 20 b))
      else if m = 0x56000042 then Some (Minidump_Deregister_Slot (md_of b))
      else if m = 0x56000050 then Some (Vm_Irq_Accept (ir_of b))
      else if m = 0x56000051 then Some (Vm_Irq_Lend (le_of b))
      else if m = 0x56000052 then Some (Vm_Irq_Release (of_le32 b))
      else if m = 0x56000053 then Some (Vm_Irq_Reclaim (of_le32 b))
      else if m = 0x56000054 then Some (Vm_Irq_Notify (no_of b) (vmids_of (drop 8 b)))
      else if m = 0x56000080 then Some (Vm_Set_Status (sp_of b))
      else if m = 0x56000081 then Some (Vm_Console_Open (va_of b))
      else if m = 0x56000082 then Some (Vm_Console_Close (va_of b))
      else if m = 0x56000083 then Some (Vm_Console_Write (cw_of b) (drop 4 b))
      else if m = 0x56000084 then Some (Vm_Console_Flush (va_of b))
      else None)"

definition rm_parse :: "u32 \<Rightarrow> u8 list \<Rightarrow> rm_request option" where
  "rm_parse m b = (case rm_fields m b of None \<Rightarrow> None | Some r \<Rightarrow> if rm_request_bytes r = b then Some r else None)"

lemmas packed_read =
  va.of_bytes_bytes so.of_bytes_bytes ci.of_bytes_bytes tb.of_bytes_bytes md.of_bytes_bytes ir.of_bytes_bytes le.of_bytes_bytes sp.of_bytes_bytes rl.of_bytes_bytes
  ah.of_bytes_append lc.of_bytes_append cw.of_bytes_append no.of_bytes_append mn.of_bytes_append mh.of_bytes_append
  sh.of_bytes_append ac.of_bytes_append lh.of_bytes_append ap.of_bytes_append

lemmas packed_width =
  ah.length_bytes lc.length_bytes cw.length_bytes no.length_bytes mn.length_bytes mh.length_bytes sh.length_bytes ac.length_bytes lh.length_bytes ap.length_bytes

lemma of_le32_alone [simp]: "of_le32 (le32 w) = w"
  using of_le32_le32 [of w "[]"] by simp

lemma rm_fields_bytes:
  assumes "rm_request_ok r"
  shows "rm_fields (rm_request_id r) (rm_request_bytes r) = Some r"
  using assms auth.unpack_array [where r = "[]"] sgl_take_bytes [where r = "[]"]
  by (cases r) (simp_all add: rm_fields_def packed_read packed_width descs_of_bytes vmids_of_bytes unat_of_nat_u16)

section \<open>What the commands send\<close>

text \<open>A caller that keeps the requests it passed on, parsed.\<close>

definition listen :: "'s rm_caller \<Rightarrow> ('s \<times> rm_request option list) rm_caller" where
  "listen call m q st = (case call m q (fst st) of (r, s) \<Rightarrow> (r, (s, snd st @ [rm_parse m q])))"

abbreviation (input) heard :: "'a \<times> 's \<times> rm_request option list \<Rightarrow> rm_request option list" where
  "heard r \<equiv> snd (snd r)"

lemma heard_helpers:
  "snd (snd (rm_command (listen call) m q st)) = snd st @ [rm_parse m q]"
  "snd (snd (rm_query (listen call) m q st)) = snd st @ [rm_parse m q]"
  "snd (snd (rm_command_raw junk (listen call) m q st)) = snd st @ [rm_parse m q]"
  "snd (snd (rm_sized_call (listen call) m q n st)) = snd st @ [rm_parse m q]"
  "snd (snd (rm_unchecked junk (listen call) m q st)) = snd st @ [rm_parse m q]"
  by (auto simp: rm_command_def rm_query_def rm_command_raw_def rm_sized_call_def rm_unchecked_def listen_def Let_def split: prod.splits sum.splits option.splits)

lemma rm_parse_request: "rm_request_ok r \<Longrightarrow> rm_request_id r = m \<Longrightarrow> rm_request_bytes r = q \<Longrightarrow> rm_parse m q = Some r"
  using rm_fields_bytes [of r] by (auto simp: rm_parse_def)

text \<open>A request of a VM number and nothing else.\<close>

abbreviation (input) vm_only :: "gh_vmid_t \<Rightarrow> gh_vm_allocate_req_payload" where
  "vm_only v \<equiv> \<lparr>va_vmid = v, va_reserved = 0\<rparr>"

lemma vm_only_bytes: "va_bytes (vm_only v) = le16 v @ [0, 0]"
  by (simp add: va_bytes_def le16_def)

lemma rm_parse_vm_only:
  "rm_parse 0x56000002 (le16 v @ [0, 0]) = Some (Vm_Deallocate (vm_only v))" "rm_parse 0x56000004 (le16 v @ [0, 0]) = Some (Vm_Start (vm_only v))"
  "rm_parse 0x56000006 (le16 v @ [0, 0]) = Some (Vm_Reset (vm_only v))" "rm_parse 0x5600000B (le16 v @ [0, 0]) = Some (Vm_Init (vm_only v))"
  "rm_parse 0x56000081 (le16 v @ [0, 0]) = Some (Vm_Console_Open (vm_only v))" "rm_parse 0x56000082 (le16 v @ [0, 0]) = Some (Vm_Console_Close (vm_only v))"
  "rm_parse 0x56000084 (le16 v @ [0, 0]) = Some (Vm_Console_Flush (vm_only v))" "rm_parse 0x56000020 (le16 v @ [0, 0]) = Some (Vm_Get_Hyp_Resources (vm_only v))"
  "rm_parse 0x56000017 (le16 v @ [0, 0]) = Some (Vm_Get_State (vm_only v))"
  by (rule rm_parse_request; simp add: vm_only_bytes)+

lemma config_image_bytes:
  "ci_bytes \<lparr>ci_vmid = v, ci_auth_mech = am, ci_mem_handle = h, ci_image_offset_low = ucast io, ci_image_offset_high = ucast (drop_bit 32 io),
     ci_image_size_low = ucast is, ci_image_size_high = ucast (drop_bit 32 is), ci_dtb_offset_low = ucast bo, ci_dtb_offset_high = ucast (drop_bit 32 bo),
     ci_dtb_size_low = ucast bs, ci_dtb_size_high = ucast (drop_bit 32 bs)\<rparr> =
   le16 v @ le16 am @ le32 h @ le64_pair io @ le64_pair is @ le64_pair bo @ le64_pair bs"
  by (simp add: ci_bytes_def le64_pair_def)

lemma rm_parse_fixed:
  "rm_parse 0x56000005 (le16 v @ [fl, 0] @ le32 reason) = Some (Vm_Stop \<lparr>so_vmid = v, so_flags = fl, so_reserved = 0, so_stop_reason = reason\<rparr>)"
  "rm_parse 0x56000080 ([a, b] @ le16 c) = Some (Vm_Set_Status \<lparr>sp_vm_status = a, sp_os_status = b, sp_app_status = c\<rparr>)"
  "rm_parse 0x56000051 (le16 v @ [0, 0] @ le32 q @ le32 lb) = Some (Vm_Irq_Lend \<lparr>le_vmid = v, le_reserved = 0, le_virq = q, le_label = lb\<rparr>)"
  "rm_parse 0x56000050 (le32 h @ le32 q) = Some (Vm_Irq_Accept \<lparr>ir_virq_handle = h, ir_virq = q\<rparr>)"
  "rm_parse 0x56000052 (le32 h) = Some (Vm_Irq_Release h)" "rm_parse 0x56000053 (le32 h) = Some (Vm_Irq_Reclaim h)"
  "rm_parse 0x56000040 (le32 h) = Some (Minidump_Get_Info h)"
  "rm_parse 0x56000042 (le16 sl @ [0, 0]) = Some (Minidump_Deregister_Slot \<lparr>md_slot_num = sl, md_reserved = 0\<rparr>)"
  "rm_parse 0x56000030 (le16 v @ [0, 0] @ le64_pair ts @ le64_pair qt) =
     Some (Vm_Set_Time_Base \<lparr>tb_vmid = v, tb_reserved0 = 0, tb_reserved1 = 0, tb_time_base_low = ucast ts, tb_time_base_high = ucast (drop_bit 32 ts),
       tb_arch_timer_ref_low = ucast qt, tb_arch_timer_ref_high = ucast (drop_bit 32 qt)\<rparr>)"
  by (rule rm_parse_request; simp add: so_bytes_def sp_bytes_def le_bytes_def ir_bytes_def md_bytes_def tb_bytes_def le64_pair_def le16_def)+

lemma rm_parse_lists:
  "length es < 2 ^ 16 \<Longrightarrow> rm_parse 0x5600000A (le16 v @ le16 (of_nat (length es)) @ concat (map (\<lambda>(ty, v). le32 ty @ le32 v) es)) = Some (Vm_Auth_Image v es)"
  "rm_parse 0x56000083 (le16 v @ le16 n @ buf) = Some (Vm_Console_Write \<lparr>cw_vmid = v, cw_num_bytes = n\<rparr> buf)"
  by (rule rm_parse_request; simp add: ah_bytes_def auth_bytes_def cw_bytes_def)+

lemma rm_parse_config_image:
  "rm_parse 0x56000009 (le16 v @ le16 am @ le32 h @ le64_pair io @ le64_pair is @ le64_pair bo @ le64_pair bs) =
   Some (Vm_Config_Image \<lparr>ci_vmid = v, ci_auth_mech = am, ci_mem_handle = h, ci_image_offset_low = ucast io, ci_image_offset_high = ucast (drop_bit 32 io),
     ci_image_size_low = ucast is, ci_image_size_high = ucast (drop_bit 32 is), ci_dtb_offset_low = ucast bo, ci_dtb_offset_high = ucast (drop_bit 32 bo),
     ci_dtb_size_low = ucast bs, ci_dtb_size_high = ucast (drop_bit 32 bs)\<rparr>)"
  by (rule rm_parse_request) (simp_all add: config_image_bytes)

lemma listen_query:
  obtains r t where "rm_query (listen call) m q (s, l) = (r, t, l @ [rm_parse m q])"
  using heard_helpers(2) [of call m q "(s, l)"] by (cases "rm_query (listen call) m q (s, l)") auto

lemma query_heard:
  "heard (gh_rm_vm_get_status (listen call) kz v (s, l)) = l @ [rm_parse 0x56000017 (le16 v @ [0, 0])]"
  "heard (gh_rm_vm_get_hyp_res (listen call) kz v True (s, l)) = l @ [rm_parse 0x56000020 (le16 v @ [0, 0])]"
  "heard (gh_rm_vm_irq_lend (listen call) v q lb (s, l)) = l @ [rm_parse 0x56000051 (le16 v @ [0, 0] @ le32 q @ le32 lb)]"
  "- 1 \<le> virq \<Longrightarrow> heard (gh_rm_vm_irq_accept (listen call) h virq (s, l)) = l @ [rm_parse 0x56000050 (le32 h @ le32 (word_of_int virq))]"
proof -
  show "heard (gh_rm_vm_get_status (listen call) kz v (s, l)) = l @ [rm_parse 0x56000017 (le16 v @ [0, 0])]"
    by (rule listen_query [of call "0x56000017" "le16 v @ [0, 0]" s l]) (auto simp: gh_rm_vm_get_status_def split: sum.splits)
  show "heard (gh_rm_vm_get_hyp_res (listen call) kz v True (s, l)) = l @ [rm_parse 0x56000020 (le16 v @ [0, 0])]"
    by (rule listen_query [of call "0x56000020" "le16 v @ [0, 0]" s l]) (auto simp: gh_rm_vm_get_hyp_res_def Let_def split: sum.splits)
  show "heard (gh_rm_vm_irq_lend (listen call) v q lb (s, l)) = l @ [rm_parse 0x56000051 (le16 v @ [0, 0] @ le32 q @ le32 lb)]"
    by (rule listen_query [of call "0x56000051" "le16 v @ [0, 0] @ le32 q @ le32 lb" s l]) (auto simp: gh_rm_vm_irq_lend_def split: sum.splits)
  show "heard (gh_rm_vm_irq_accept (listen call) h virq (s, l)) = l @ [rm_parse 0x56000050 (le32 h @ le32 (word_of_int virq))]" if "- 1 \<le> virq"
    by (rule listen_query [of call "0x56000050" "le32 h @ le32 (word_of_int virq)" s l]) (use that in \<open>auto simp: gh_rm_vm_irq_accept_def split: sum.splits\<close>)
qed

text \<open>The commands that look at the answer of the call themselves.\<close>

lemma raw_heard:
  "heard (gh_rm_vm_start jn (listen call) v (s, l)) = l @ [rm_parse 0x56000004 (le16 v @ [0, 0])]"
  "snd (snd (snd (gh_rm_vm_dealloc_vmid j (listen call) v (tbl, s, l)))) = l @ [rm_parse 0x56000002 (le16 v @ [0, 0])]"
  "heard (gh_rm_vm_set_time_base jn (listen call) ts qt v (s, l)) = l @ [rm_parse 0x56000030 (le16 v @ [0, 0] @ le64_pair ts @ le64_pair qt)]"
  by (auto simp: gh_rm_vm_start_def gh_rm_vm_dealloc_vmid_def gh_rm_vm_set_time_base_def listen_def Let_def split: prod.splits sum.splits)

lemma sized_heard:
  "heard (gh_rm_minidump_get_info (listen call) (s, l)) = l @ [rm_parse 0x56000040 (le32 0)]"
  "heard (gh_rm_minidump_deregister_slot (listen call) sl (s, l)) = l @ [rm_parse 0x56000042 (le16 sl @ [0, 0])]"
  using heard_helpers(4) [of call "0x56000040" "le32 0" 4 "(s, l)"] heard_helpers(4) [of call "0x56000042" "le16 sl @ [0, 0]" 0 "(s, l)"]
  by (auto simp: gh_rm_minidump_get_info_def gh_rm_minidump_deregister_slot_def slot_of_resp_def split: prod.splits sum.splits)

lemmas command_heard =
  gh_rm_vm_init_def gh_rm_vm_reset_def gh_rm_vm_stop_def gh_rm_vm_config_image_def gh_rm_vm_auth_image_def gh_rm_vm_set_status_def
  gh_rm_vm_irq_release_def gh_rm_vm_irq_reclaim_def gh_rm_console_open_def gh_rm_console_close_def gh_rm_console_flush_def gh_rm_console_write_def
  heard_helpers rm_parse_vm_only rm_parse_fixed rm_parse_lists rm_parse_config_image query_heard raw_heard sized_heard

lemma irq_notify_heard:
  assumes "length vs < 2 ^ 16" and "fl = GH_VM_IRQ_NOTIFY_FLAGS_LENT \<or> vs = []" and "fl \<in> {GH_VM_IRQ_NOTIFY_FLAGS_LENT, GH_VM_IRQ_NOTIFY_FLAGS_RELEASED, GH_VM_IRQ_NOTIFY_FLAGS_ACCEPTED}"
  shows "heard (gh_rm_vm_irq_notify (listen call) True vs fl h (s, l)) =
    l @ [Some (Vm_Irq_Notify \<lparr>no_virq = h, no_flags = ucast fl, no_reserved0 = 0, no_reserved1 = 0\<rparr> (if fl = GH_VM_IRQ_NOTIFY_FLAGS_LENT then Some vs else None))]"
proof -
  let ?r = "Vm_Irq_Notify \<lparr>no_virq = h, no_flags = ucast fl, no_reserved0 = 0, no_reserved1 = 0\<rparr> (if fl = GH_VM_IRQ_NOTIFY_FLAGS_LENT then Some vs else None)"
  have lent: "fl AND GH_VM_IRQ_NOTIFY_FLAGS_LENT \<noteq> 0 \<longleftrightarrow> fl = GH_VM_IRQ_NOTIFY_FLAGS_LENT" using assms(3) by auto
  have "rm_parse 0x56000054 (le32 h @ [ucast fl, 0, 0, 0] @ (if fl AND GH_VM_IRQ_NOTIFY_FLAGS_LENT \<noteq> 0
      then le16 (of_nat (length vs)) @ [0, 0] @ concat (map (\<lambda>v. le16 v @ [0, 0]) vs) else [])) = Some ?r"
    unfolding lent using assms(1) by (intro rm_parse_request) (auto simp: desc_def no_bytes_def vmids_bytes_def vmid_bytes_def [abs_def] le16_def)
  then show ?thesis using assms lent unfolding gh_rm_vm_irq_notify_def by (auto simp: heard_helpers)
qed



section \<open>What the memory commands send\<close>

lemma le24_of_le24: "length b = 3 \<Longrightarrow> le24 (of_le24 b) = b"
proof (intro nth_equalityI)
  fix i assume "length b = 3" "i < length (le24 (of_le24 b))"
  then have "i = 0 \<or> i = 1 \<or> i = 2" by auto
  then show "le24 (of_le24 b) ! i = b ! i"
    by (elim disjE; intro bit_word_eqI) (auto simp: le24_def of_le24_def bit_simps dest: bit_imp_le_length)
qed simp

text \<open>A memory request is its header and its descriptors.\<close>

lemma mem_request_bytes:
  assumes "mem_req_hdr_size fn = Some (length hdr)" and "length (desc sgl) \<le> 512"
  shows "mem_request True fn (length (desc acl)) (length (desc sgl)) (length (desc attrs)) hdr acl sgl r attrs =
    Some (Inr (hdr @ descs_bytes \<lparr>de_acl = desc acl, de_sgl = desc sgl, de_sgl_reserved = r, de_attr = desc attrs\<rparr>))"
  using mem_request_exact [OF assms(1), of acl sgl attrs r] assms(2) populate_descs [OF assms(2), of acl r attrs] by (simp add: min_def)

abbreviation (input) mem_hdr :: "u8 \<Rightarrow> u8 \<Rightarrow> u32 \<Rightarrow> gh_mem_share_req_payload_hdr" where
  "mem_hdr ty fl lb \<equiv> \<lparr>sh_mem_type = ty, sh_reserved1 = 0, sh_flags = fl, sh_reserved2 = 0, sh_label = lb\<rparr>"

abbreviation (input) mem_parts :: "gh_acl_desc \<Rightarrow> gh_sgl_desc \<Rightarrow> gh_mem_attr_desc option \<Rightarrow> mem_descs" where
  "mem_parts acl sgl attrs \<equiv> \<lparr>de_acl = acl, de_sgl = sgl, de_sgl_reserved = 0, de_attr = desc attrs\<rparr>"

text \<open>A parcel whose list of pages fits one request.\<close>

definition small_parcel :: "gh_acl_desc \<Rightarrow> gh_sgl_desc \<Rightarrow> gh_mem_attr_desc option \<Rightarrow> bool" where
  "small_parcel acl sgl attrs \<longleftrightarrow> acl \<noteq> [] \<and> length acl < 2 ^ 16 \<and> sgl \<noteq> [] \<and> length sgl \<le> 512 \<and> attrs \<noteq> Some [] \<and> length (desc attrs) < 2 ^ 16"

lemma small_parcel_parse:
  assumes "small_parcel acl sgl attrs"
  shows "rm_parse MEM_SHARE (([ty, 0, fl, 0] @ le32 lb) @ descs_bytes (mem_parts acl sgl attrs)) = Some (Mem_Share (mem_hdr ty fl lb) (mem_parts acl sgl attrs))"
    "rm_parse MEM_LEND (([ty, 0, fl, 0] @ le32 lb) @ descs_bytes (mem_parts acl sgl attrs)) = Some (Mem_Lend (mem_hdr ty fl lb) (mem_parts acl sgl attrs))"
    "rm_parse MEM_DONATE (([ty, 0, fl, 0] @ le32 lb) @ descs_bytes (mem_parts acl sgl attrs)) = Some (Mem_Donate (mem_hdr ty fl lb) (mem_parts acl sgl attrs))"
    "rm_parse MEM_QCOM_LOOKUP_SGL (([ty, 0, 0, 0] @ le32 lb) @ descs_bytes (mem_parts acl sgl attrs)) =
       Some (Mem_Qcom_Lookup_Sgl \<lparr>lh_mem_type = ty, lh_reserved = 0, lh_label = lb\<rparr> (mem_parts acl sgl attrs))"
  using assms by (auto intro!: rm_parse_request simp: small_parcel_def descs_ok_def sh_bytes_def lh_bytes_def)

lemma listen_sized:
  obtains r t where "rm_sized_call (listen call) m q n (s, l) = (r, t, l @ [rm_parse m q])"
  using heard_helpers(4) [of call m q n "(s, l)"] by (cases "rm_sized_call (listen call) m q n (s, l)") auto

lemma share_append_loop_done: "length sgl \<le> idx \<Longrightarrow> share_append_loop gap call kz h sgl idx s = (0, s)"
  by (simp add: share_append_loop.simps)

lemma share_lend_heard:
  assumes "small_parcel acl sgl attrs" "mem_type_ok ty" "\<not> bad_flags fl 1" and fn: "mem_req_hdr_size fn = Some 8"
  shows "\<exists>r t. gh_rm_mem_share_lend_helper junk gap (listen call) True fn ty fl lb (Some acl) (Some sgl) attrs (s, l) =
    Done r (t, l @ [rm_parse fn (([ty, 0, fl, 0] @ le32 lb) @ descs_bytes (mem_parts acl sgl attrs))])"
proof -
  let ?q = "([ty, 0, fl, 0] @ le32 lb) @ descs_bytes (mem_parts acl sgl attrs)"
  obtain r t where c: "rm_sized_call (listen call) fn ?q 4 (s, l) = (r, t, l @ [rm_parse fn ?q])" by (rule listen_sized)
  have u: "unat (of_nat (length acl) :: u16) = length acl" using assms(1) by (simp add: small_parcel_def unat_of_nat_u16)
  have "mem_request True fn (length acl) (length sgl) (length (desc attrs)) ([ty, 0, fl, 0] @ le32 lb) (Some acl) (Some sgl) 0 attrs = Some (Inr ?q)"
    using mem_request_bytes [of fn "[ty, 0, fl, 0] @ le32 lb" "Some sgl" "Some acl" attrs 0] fn assms(1) by (simp add: desc_def small_parcel_def)
  with c u assms show ?thesis
    unfolding gh_rm_mem_share_lend_helper_def
    by (auto simp: small_parcel_def desc_def [of "Some x" for x] Let_def share_append_loop_done simp del: append.simps append_assoc split: sum.splits)
qed

lemma lookup_heard:
  assumes "small_parcel acl sgl attrs" "mem_type_ok ty"
  shows "\<exists>r t. gh_rm_mem_qcom_lookup_sgl (listen call) True ty lb (Some acl) (Some sgl) attrs True (s, l) =
    Done r (t, l @ [rm_parse MEM_QCOM_LOOKUP_SGL (([ty, 0, 0, 0] @ le32 lb) @ descs_bytes (mem_parts acl sgl attrs))])"
proof -
  let ?q = "([ty, 0, 0, 0] @ le32 lb) @ descs_bytes (mem_parts acl sgl attrs)"
  obtain r t where c: "rm_sized_call (listen call) MEM_QCOM_LOOKUP_SGL ?q 4 (s, l) = (r, t, l @ [rm_parse MEM_QCOM_LOOKUP_SGL ?q])" by (rule listen_sized)
  have "mem_request True MEM_QCOM_LOOKUP_SGL (length acl) (length sgl) (length (desc attrs)) ([ty, 0, 0, 0] @ le32 lb) (Some acl) (Some sgl) 0 attrs = Some (Inr ?q)"
    using mem_request_bytes [of MEM_QCOM_LOOKUP_SGL "[ty, 0, 0, 0] @ le32 lb" "Some sgl" "Some acl" attrs 0] assms(1)
    by (simp add: desc_def small_parcel_def mem_req_hdr_size_def)
  with c assms show ?thesis
    unfolding gh_rm_mem_qcom_lookup_sgl_def
    by (auto simp: small_parcel_def desc_def [of "Some x" for x] simp del: append.simps append_assoc split: sum.splits)
qed

lemma release_heard:
  assumes "\<not> bad_flags fl 1"
  shows "heard (gh_rm_mem_release junk (listen call) h fl (s, l)) = l @ [Some (Mem_Release \<lparr>rl_memparcel_handle = h, rl_flags = fl, rl_reserved = 0\<rparr>)]"
    "heard (gh_rm_mem_reclaim junk (listen call) h fl (s, l)) = l @ [Some (Mem_Reclaim \<lparr>rl_memparcel_handle = h, rl_flags = fl, rl_reserved = 0\<rparr>)]"
  using assms by (auto simp: gh_rm_mem_release_def gh_rm_mem_reclaim_def gh_rm_mem_release_helper_def heard_helpers rl_bytes_def intro!: rm_parse_request)

lemma append_heard:
  assumes "\<not> bad_flags fl 1" "length sgl \<le> 512" "length gap = 5"
  shows "heard (gh_rm_mem_append gap (listen call) True h fl sgl (s, l)) =
    l @ [Some (Mem_Append \<lparr>ap_memparcel_handle = h, ap_flags = fl, ap_reserved = of_le24 (take 3 gap)\<rparr> (of_le16 (drop 3 gap)) sgl)]"
proof -
  let ?q = "le32 h @ [fl] @ take 3 gap @ le16 (of_nat (length sgl)) @ take 2 (drop 3 gap) @ sgl_bytes sgl"
  obtain r t where c: "rm_sized_call (listen call) MEM_APPEND ?q 0 (s, l) = (r, t, l @ [rm_parse MEM_APPEND ?q])" by (rule listen_sized)
  have "rm_parse MEM_APPEND ?q = Some (Mem_Append \<lparr>ap_memparcel_handle = h, ap_flags = fl, ap_reserved = of_le24 (take 3 gap)\<rparr> (of_le16 (drop 3 gap)) sgl)"
    using assms by (intro rm_parse_request) (simp_all add: ap_bytes_def le24_of_le24 le16_of_le16)
  with c assms show ?thesis by (auto simp: gh_rm_mem_append_def simp del: append.simps append_assoc split: sum.splits)
qed

lemma notify_heard:
  assumes "vs \<noteq> []" "length vs < 2 ^ 16" "fl = 2 \<or> fl = 4"
  shows "heard (gh_rm_mem_notify junk (listen call) True h 1 tag (Some vs) (s, l)) =
      l @ [Some (Mem_Notify \<lparr>mn_memparcel_handle = h, mn_flags = 1, mn_reserved1 = 0, mn_mem_info_tag = tag\<rparr> (Some vs))]"
    "heard (gh_rm_mem_notify junk (listen call) True h fl tag None (s, l)) =
      l @ [Some (Mem_Notify \<lparr>mn_memparcel_handle = h, mn_flags = fl, mn_reserved1 = 0, mn_mem_info_tag = tag\<rparr> None)]"
proof -
  have w: "hweight8 1 = 1" "hweight8 2 = 1" "hweight8 4 = 1" by code_simp+
  show "heard (gh_rm_mem_notify junk (listen call) True h 1 tag (Some vs) (s, l)) =
      l @ [Some (Mem_Notify \<lparr>mn_memparcel_handle = h, mn_flags = 1, mn_reserved1 = 0, mn_mem_info_tag = tag\<rparr> (Some vs))]"
    using assms w
    by (auto simp: gh_rm_mem_notify_def bad_flags_def desc_def heard_helpers mn_bytes_def vmids_bytes_def vmid_bytes_def [abs_def] intro!: rm_parse_request)
  show "heard (gh_rm_mem_notify junk (listen call) True h fl tag None (s, l)) =
      l @ [Some (Mem_Notify \<lparr>mn_memparcel_handle = h, mn_flags = fl, mn_reserved1 = 0, mn_mem_info_tag = tag\<rparr> None)]"
    using assms(3) w
    by (elim disjE) (auto simp: gh_rm_mem_notify_def bad_flags_def desc_def heard_helpers mn_bytes_def vmids_bytes_def intro!: rm_parse_request)
qed

lemma register_range_heard:
  assumes "2 \<le> length gap"
  shows "heard (gh_rm_minidump_register_range gap (listen call) True ipa sz (Some nm) (s, l)) =
    l @ [Some (Minidump_Register_Range \<lparr>mh_base_ipa = ipa, mh_region_size = sz, mh_name_size = of_nat (length nm), mh_name_offset = 28,
      mh_reserved = of_le16 (take 2 gap)\<rparr> nm)]"
proof -
  let ?q = "le64_pair ipa @ le64_pair sz @ [of_nat (length nm), 28] @ take 2 gap @ nm"
  obtain r t where c: "rm_sized_call (listen call) 0x56000041 ?q 4 (s, l) = (r, t, l @ [rm_parse 0x56000041 ?q])" by (rule listen_sized)
  have "rm_parse 0x56000041 ?q = Some (Minidump_Register_Range \<lparr>mh_base_ipa = ipa, mh_region_size = sz, mh_name_size = of_nat (length nm), mh_name_offset = 28,
      mh_reserved = of_le16 (take 2 gap)\<rparr> nm)"
    using assms by (intro rm_parse_request) (simp_all add: mh_bytes_def le16_of_le16)
  with c show ?thesis by (auto simp: gh_rm_minidump_register_range_def slot_of_resp_def simp del: append.simps append_assoc split: sum.splits)
qed

text \<open>C29: what the memory parcel commands send. For a parcel whose list of pages fits one request, sharing,
lending, donating and looking up make one call, and its bytes, written through the headers and the
three descriptors of variable length one behind the other, are taken apart as the request of that
name with the type, flags, label, access list, page list and attributes of the caller. The same
holds for releasing, reclaiming, appending, the three notifications and the registration of a
minidump range; in an append and in a minidump range the reserved fields are whatever the
allocation held.\<close>

theorem rm_mem_commands_requests:
  assumes "small_parcel acl sgl attrs" and "mem_type_ok ty" and "\<not> bad_flags fl 1" and "length gap = 5"
    and "vs \<noteq> []" and "length vs < 2 ^ 16" and "nf = 2 \<or> nf = 4"
  shows "(\<exists>r t. gh_rm_mem_share junk gap (listen call) True ty fl lb (Some acl) (Some sgl) attrs (s, l) =
        Done r (t, l @ [Some (Mem_Share (mem_hdr ty fl lb) (mem_parts acl sgl attrs))]))
    \<and> (\<exists>r t. gh_rm_mem_lend junk gap (listen call) True ty fl lb (Some acl) (Some sgl) attrs (s, l) =
        Done r (t, l @ [Some (Mem_Lend (mem_hdr ty fl lb) (mem_parts acl sgl attrs))]))
    \<and> (\<exists>r t. gh_rm_mem_donate junk gap (listen call) True ty fl lb (Some [(v, if ty = 0 then 7 else 6)]) (Some sgl) attrs (s, l) =
        Done r (t, l @ [Some (Mem_Donate (mem_hdr ty fl lb) (mem_parts [(v, if ty = 0 then 7 else 6)] sgl attrs))]))
    \<and> (\<exists>r t. gh_rm_mem_qcom_lookup_sgl (listen call) True ty lb (Some acl) (Some sgl) attrs True (s, l) =
        Done r (t, l @ [Some (Mem_Qcom_Lookup_Sgl \<lparr>lh_mem_type = ty, lh_reserved = 0, lh_label = lb\<rparr> (mem_parts acl sgl attrs))]))
    \<and> heard (gh_rm_mem_release junk (listen call) h fl (s, l)) = l @ [Some (Mem_Release \<lparr>rl_memparcel_handle = h, rl_flags = fl, rl_reserved = 0\<rparr>)]
    \<and> heard (gh_rm_mem_reclaim junk (listen call) h fl (s, l)) = l @ [Some (Mem_Reclaim \<lparr>rl_memparcel_handle = h, rl_flags = fl, rl_reserved = 0\<rparr>)]
    \<and> heard (gh_rm_mem_append gap (listen call) True h fl sgl (s, l)) =
        l @ [Some (Mem_Append \<lparr>ap_memparcel_handle = h, ap_flags = fl, ap_reserved = of_le24 (take 3 gap)\<rparr> (of_le16 (drop 3 gap)) sgl)]
    \<and> heard (gh_rm_mem_notify junk (listen call) True h 1 tag (Some vs) (s, l)) =
        l @ [Some (Mem_Notify \<lparr>mn_memparcel_handle = h, mn_flags = 1, mn_reserved1 = 0, mn_mem_info_tag = tag\<rparr> (Some vs))]
    \<and> heard (gh_rm_mem_notify junk (listen call) True h nf tag None (s, l)) =
        l @ [Some (Mem_Notify \<lparr>mn_memparcel_handle = h, mn_flags = nf, mn_reserved1 = 0, mn_mem_info_tag = tag\<rparr> None)]
    \<and> heard (gh_rm_minidump_register_range gap (listen call) True ipa sz (Some nm) (s, l)) =
        l @ [Some (Minidump_Register_Range \<lparr>mh_base_ipa = ipa, mh_region_size = sz, mh_name_size = of_nat (length nm), mh_name_offset = 28,
          mh_reserved = of_le16 (take 2 gap)\<rparr> nm)]"
proof (intro conjI)
  let ?a = "[(v, if ty = 0 then 7 else 6)] :: gh_acl_desc"
  have one: "small_parcel ?a sgl attrs" using assms(1) by (simp add: small_parcel_def)
  have "gh_rm_mem_donate junk gap (listen call) True ty fl lb (Some ?a) (Some sgl) attrs (s, l) =
      gh_rm_mem_share_lend_helper junk gap (listen call) True MEM_DONATE ty fl lb (Some ?a) (Some sgl) attrs (s, l)"
    by (simp add: gh_rm_mem_donate_def)
  then show "\<exists>r t. gh_rm_mem_donate junk gap (listen call) True ty fl lb (Some ?a) (Some sgl) attrs (s, l) =
      Done r (t, l @ [Some (Mem_Donate (mem_hdr ty fl lb) (mem_parts ?a sgl attrs))])"
    using share_lend_heard [OF one assms(2,3), of MEM_DONATE] by (simp add: mem_req_hdr_size_def small_parcel_parse [OF one] del: append.simps append_assoc split del: if_split)
qed (use assms share_lend_heard [OF assms(1-3), of MEM_SHARE] share_lend_heard [OF assms(1-3), of MEM_LEND] lookup_heard [OF assms(1,2)] in
     \<open>simp_all add: gh_rm_mem_share_def gh_rm_mem_lend_def mem_req_hdr_size_def small_parcel_parse release_heard append_heard notify_heard register_range_heard
        small_parcel_def [of acl sgl attrs] del: append.simps append_assoc\<close>)

theorem rm_mem_commands_requests_witness:
  "snd (snd (gh_rm_mem_notify 0 (listen (\<lambda>m q s. ((Some 0, Inr (None, 0)), s))) True 9 1 5 (Some [45]) ((), []))) =
     [Some (Mem_Notify \<lparr>mn_memparcel_handle = 9, mn_flags = 1, mn_reserved1 = 0, mn_mem_info_tag = 5\<rparr> (Some [45]))] \<and>
   (\<exists>r t. gh_rm_mem_share 0 [0, 0, 0, 0, 0] (listen (\<lambda>m q s. ((Some 0, Inr (None, 0)), s))) True 0 0 3 (Some [(45, 7)]) (Some [(0x1000, 0x2000)]) None ((), []) =
     Done r (t, [Some (Mem_Share \<lparr>sh_mem_type = 0, sh_reserved1 = 0, sh_flags = 0, sh_reserved2 = 0, sh_label = 3\<rparr>
       \<lparr>de_acl = [(45, 7)], de_sgl = [(0x1000, 0x2000)], de_sgl_reserved = 0, de_attr = []\<rparr>)]))"
  using rm_mem_commands_requests [where acl = "[(45, 7)]" and sgl = "[(0x1000, 0x2000)]" and attrs = None and ty = 0 and fl = 0 and gap = "[0, 0, 0, 0, 0]"
      and vs = "[45]" and nf = 2 and junk = 0 and lb = 3 and h = 9 and tag = 5 and s = "()" and l = "[]" and call = "\<lambda>m q s. ((Some 0, Inr (None, 0)), s)"]
  by (simp add: small_parcel_def mem_type_ok_def bad_flags_def desc_def)

end
