(* ===== verification/Rm_Notif.thy ===== *)
theory Rm_Notif
  imports Rm_Payload
begin

text \<open>
  The notifications of the Resource Manager (\<^verbatim>\<open>include/linux/gunyah/gh_rm_drv.h\<close>): their packed structures, and a reference
  definition of the messages that are notifications, against which the checks of
  \<^verbatim>\<open>gh_rm_validate_notif\<close> are exact.
\<close>

section \<open>Structures that every memory holds\<close>

text \<open>A structure without invalid contents: any bytes of its width are one.\<close>

locale packed_total = packed +
  assumes bytes_of_bytes: "length b = width \<Longrightarrow> bytes (of_bytes b) = b"
    and of_bytes_take: "width \<le> length b \<Longrightarrow> of_bytes b = of_bytes (take width b)"
begin

lemma bytes_of_take: "width \<le> length b \<Longrightarrow> bytes (of_bytes b) @ drop width b = b"
  using bytes_of_bytes [of "take width b"] of_bytes_take [of b] append_take_drop_id [of width b] by simp

end

lemma le16_Cons [simp]: "le16 (of_le16 (a # b # r)) = [a, b]"
  using le16_of_le16 [of "[a, b]"] by simp

lemma le32_Cons [simp]: "le32 (of_le32 (a # b # c # d # r)) = [a, b, c, d]"
proof -
  have "ucast (of_le32 (a # b # c # d # r)) = a" "ucast (drop_bit 8 (of_le32 (a # b # c # d # r))) = b"
    "ucast (drop_bit 16 (of_le32 (a # b # c # d # r))) = c" "ucast (drop_bit 24 (of_le32 (a # b # c # d # r))) = d"
    by (simp_all, (rule bit_word_eqI, auto simp: bit_simps dest: bit_imp_le_length)+)
  then show ?thesis by (simp add: le32_def)
qed

text \<open>Only the bytes of the field matter.\<close>

lemma of_le_Cons:
  "of_le16 (a # b # r) = of_le16 (a # b # s)" "of_le32 (a # b # c # d # r) = of_le32 (a # b # c # d # s)"
  by simp_all

text \<open>A list that is long enough, entry by entry.\<close>

lemma Suc_le_length: "Suc n \<le> length b \<longleftrightarrow> (\<exists>x y. b = x # y \<and> n \<le> length y)"
  by (cases b) auto

lemmas length_cases = eval_nat_numeral length_Suc_conv Suc_le_length

section \<open>The structures\<close>

record gh_rm_notif_vm_status_payload =
  ns_vmid :: u16
  ns_reserved :: u16
  ns_vm_status :: u8
  ns_os_status :: u8
  ns_app_status :: u16

definition ns_bytes :: "gh_rm_notif_vm_status_payload \<Rightarrow> u8 list" where
  "ns_bytes x = le16 (ns_vmid x) @ le16 (ns_reserved x) @ [ns_vm_status x] @ [ns_os_status x] @ le16 (ns_app_status x)"

definition ns_of :: "u8 list \<Rightarrow> gh_rm_notif_vm_status_payload" where
  "ns_of b = \<lparr>ns_vmid = of_le16 b, ns_reserved = of_le16 (drop 2 b), ns_vm_status = hd (drop 4 b), ns_os_status = hd (drop 5 b),
     ns_app_status = of_le16 (drop 6 b)\<rparr>"

interpretation ns: packed_total ns_bytes ns_of 8
  by unfold_locales (auto simp: ns_bytes_def ns_of_def length_cases intro!: of_le_Cons simp del: of_le16.simps of_le32.simps)

record gh_rm_notif_vm_exited_payload =
  nx_vmid :: u16
  nx_exit_type :: u16
  nx_exit_reason_size :: u32

definition nx_bytes :: "gh_rm_notif_vm_exited_payload \<Rightarrow> u8 list" where
  "nx_bytes x = le16 (nx_vmid x) @ le16 (nx_exit_type x) @ le32 (nx_exit_reason_size x)"

definition nx_of :: "u8 list \<Rightarrow> gh_rm_notif_vm_exited_payload" where
  "nx_of b = \<lparr>nx_vmid = of_le16 b, nx_exit_type = of_le16 (drop 2 b), nx_exit_reason_size = of_le32 (drop 4 b)\<rparr>"

interpretation nx: packed_total nx_bytes nx_of 8
  by unfold_locales (auto simp: nx_bytes_def nx_of_def length_cases intro!: of_le_Cons simp del: of_le16.simps of_le32.simps)

record gh_vm_exit_reason_vm_exit =
  xr_exit_flags :: u16
  xr_exit_code :: u8
  xr_reserved :: u8

definition xr_bytes :: "gh_vm_exit_reason_vm_exit \<Rightarrow> u8 list" where
  "xr_bytes x = le16 (xr_exit_flags x) @ [xr_exit_code x] @ [xr_reserved x]"

definition xr_of :: "u8 list \<Rightarrow> gh_vm_exit_reason_vm_exit" where
  "xr_of b = \<lparr>xr_exit_flags = of_le16 b, xr_exit_code = hd (drop 2 b), xr_reserved = hd (drop 3 b)\<rparr>"

interpretation xr: packed_total xr_bytes xr_of 4
  by unfold_locales (auto simp: xr_bytes_def xr_of_def length_cases intro!: of_le_Cons simp del: of_le16.simps of_le32.simps)

record gh_rm_notif_vm_irq_lent_payload =
  nl_owner_vmid :: u16
  nl_reserved :: u16
  nl_virq_handle :: u32
  nl_virq_label :: u32

definition nl_bytes :: "gh_rm_notif_vm_irq_lent_payload \<Rightarrow> u8 list" where
  "nl_bytes x = le16 (nl_owner_vmid x) @ le16 (nl_reserved x) @ le32 (nl_virq_handle x) @ le32 (nl_virq_label x)"

definition nl_of :: "u8 list \<Rightarrow> gh_rm_notif_vm_irq_lent_payload" where
  "nl_of b = \<lparr>nl_owner_vmid = of_le16 b, nl_reserved = of_le16 (drop 2 b), nl_virq_handle = of_le32 (drop 4 b), nl_virq_label =
     of_le32 (drop 8 b)\<rparr>"

interpretation nl: packed_total nl_bytes nl_of 12
  by unfold_locales (auto simp: nl_bytes_def nl_of_def length_cases intro!: of_le_Cons simp del: of_le16.simps of_le32.simps)

record gh_rm_notif_mem_shared_payload =
  nm_mem_handle :: u32
  nm_mem_type :: u8
  nm_trans_type :: u8
  nm_flags :: u8
  nm_reserved1 :: u8
  nm_owner_vmid :: u16
  nm_reserved2 :: u16
  nm_label :: u32
  nm_mem_info_tag :: u32

definition nm_bytes :: "gh_rm_notif_mem_shared_payload \<Rightarrow> u8 list" where
  "nm_bytes x = le32 (nm_mem_handle x) @ [nm_mem_type x] @ [nm_trans_type x] @ [nm_flags x] @ [nm_reserved1 x] @ le16 (nm_owner_vmid x) @ le16 (nm_reserved2 x) @ le32 (nm_label x) @ le32 (nm_mem_info_tag x)"

definition nm_of :: "u8 list \<Rightarrow> gh_rm_notif_mem_shared_payload" where
  "nm_of b = \<lparr>nm_mem_handle = of_le32 b, nm_mem_type = hd (drop 4 b), nm_trans_type = hd (drop 5 b), nm_flags = hd (drop 6 b),
     nm_reserved1 = hd (drop 7 b), nm_owner_vmid = of_le16 (drop 8 b), nm_reserved2 = of_le16 (drop 10 b), nm_label = of_le32
     (drop 12 b), nm_mem_info_tag = of_le32 (drop 16 b)\<rparr>"

interpretation nm: packed_total nm_bytes nm_of 20
  by unfold_locales (auto simp: nm_bytes_def nm_of_def length_cases intro!: of_le_Cons simp del: of_le16.simps of_le32.simps)

record gh_rm_notif_mem_released_payload =
  nr_mem_handle :: u32
  nr_participant_vmid :: u16
  nr_reserved :: u16
  nr_mem_info_tag :: u32

definition nr_bytes :: "gh_rm_notif_mem_released_payload \<Rightarrow> u8 list" where
  "nr_bytes x = le32 (nr_mem_handle x) @ le16 (nr_participant_vmid x) @ le16 (nr_reserved x) @ le32 (nr_mem_info_tag x)"

definition nr_of :: "u8 list \<Rightarrow> gh_rm_notif_mem_released_payload" where
  "nr_of b = \<lparr>nr_mem_handle = of_le32 b, nr_participant_vmid = of_le16 (drop 4 b), nr_reserved = of_le16 (drop 6 b), nr_mem_info_tag =
     of_le32 (drop 8 b)\<rparr>"

interpretation nr: packed_total nr_bytes nr_of 12
  by unfold_locales (auto simp: nr_bytes_def nr_of_def length_cases intro!: of_le_Cons simp del: of_le16.simps of_le32.simps)

type_synonym gh_rm_notif_mem_accepted_payload = gh_rm_notif_mem_released_payload

record gh_rm_notif_vm_console_chars =
  nc_vmid :: u16
  nc_num_bytes :: u16

definition nc_bytes :: "gh_rm_notif_vm_console_chars \<Rightarrow> u8 list" where
  "nc_bytes x = le16 (nc_vmid x) @ le16 (nc_num_bytes x)"

definition nc_of :: "u8 list \<Rightarrow> gh_rm_notif_vm_console_chars" where
  "nc_of b = \<lparr>nc_vmid = of_le16 b, nc_num_bytes = of_le16 (drop 2 b)\<rparr>"

interpretation nc: packed_total nc_bytes nc_of 4
  by unfold_locales (auto simp: nc_bytes_def nc_of_def length_cases intro!: of_le_Cons simp del: of_le16.simps of_le32.simps)

text \<open>Structures of one word.\<close>

type_synonym gh_rm_notif_vm_shutdown_payload = u32
type_synonym gh_rm_notif_vm_irq_released_payload = u32
type_synonym gh_rm_notif_vm_irq_accepted_payload = u32

interpretation le32: packed_total le32 of_le32 4
  by unfold_locales (auto simp: length_cases intro!: of_le_Cons simp del: of_le16.simps of_le32.simps)

section \<open>Notifications\<close>

datatype rm_notif =
    Msg_Vm_Status gh_rm_notif_vm_status_payload
  | Msg_Vm_Exited gh_rm_notif_vm_exited_payload "u8 list"
  | Msg_Vm_Shutdown gh_rm_notif_vm_shutdown_payload
  | Msg_Vm_Irq_Lent gh_rm_notif_vm_irq_lent_payload
  | Msg_Vm_Irq_Released gh_rm_notif_vm_irq_released_payload
  | Msg_Vm_Irq_Accepted gh_rm_notif_vm_irq_accepted_payload
  | Msg_Mem_Shared gh_rm_notif_mem_shared_payload "u8 list"
  | Msg_Mem_Released gh_rm_notif_mem_released_payload
  | Msg_Mem_Accepted gh_rm_notif_mem_accepted_payload
  | Msg_Vm_Console_Chars gh_rm_notif_vm_console_chars "u8 list"

fun rm_notif_id :: "rm_notif \<Rightarrow> u32" where
  "rm_notif_id (Msg_Mem_Shared p r) = 0x51100011"
| "rm_notif_id (Msg_Mem_Released p) = 0x51100012"
| "rm_notif_id (Msg_Mem_Accepted p) = 0x51100013"
| "rm_notif_id (Msg_Vm_Exited p r) = 0x56100001"
| "rm_notif_id (Msg_Vm_Shutdown p) = 0x56100002"
| "rm_notif_id (Msg_Vm_Status p) = 0x56100008"
| "rm_notif_id (Msg_Vm_Irq_Lent p) = 0x56100011"
| "rm_notif_id (Msg_Vm_Irq_Released p) = 0x56100012"
| "rm_notif_id (Msg_Vm_Irq_Accepted p) = 0x56100013"
| "rm_notif_id (Msg_Vm_Console_Chars p r) = 0x56100080"

fun rm_notif_bytes :: "rm_notif \<Rightarrow> u8 list" where
  "rm_notif_bytes (Msg_Mem_Shared p r) = nm_bytes p @ r"
| "rm_notif_bytes (Msg_Mem_Released p) = nr_bytes p"
| "rm_notif_bytes (Msg_Mem_Accepted p) = nr_bytes p"
| "rm_notif_bytes (Msg_Vm_Exited p r) = nx_bytes p @ r"
| "rm_notif_bytes (Msg_Vm_Shutdown p) = le32 p"
| "rm_notif_bytes (Msg_Vm_Status p) = ns_bytes p"
| "rm_notif_bytes (Msg_Vm_Irq_Lent p) = nl_bytes p"
| "rm_notif_bytes (Msg_Vm_Irq_Released p) = le32 p"
| "rm_notif_bytes (Msg_Vm_Irq_Accepted p) = le32 p"
| "rm_notif_bytes (Msg_Vm_Console_Chars p r) = nc_bytes p @ r"

text \<open>The exit types of a VM that carry a reason carry four bytes of it (a structure
  \<^verbatim>\<open>gh_vm_exit_reason_vm_exit\<close> or the word of a second system reset); console output has the announced
  length.\<close>

fun rm_notif_ok :: "rm_notif \<Rightarrow> bool" where
  "rm_notif_ok (Msg_Vm_Exited p r) \<longleftrightarrow> nx_exit_type p \<in> {0, 3} \<and> length r = 4 \<or> nx_exit_type p \<in> {1, 2, 4, 5, 6, 7}"
| "rm_notif_ok (Msg_Vm_Console_Chars p r) \<longleftrightarrow> length r = unat (nc_num_bytes p)"
| "rm_notif_ok _ \<longleftrightarrow> True"

text \<open>The notification as the handlers of every architecture see it.\<close>

fun rm_notif_generic :: "rm_notif \<Rightarrow> rm_notif" where
  "rm_notif_generic (Msg_Vm_Exited p r) = Msg_Vm_Exited (if nx_exit_type p = 3 then p\<lparr>nx_exit_type := 2\<rparr> else p) r"
| "rm_notif_generic m = m"

lemmas notif_lengths [simp] = ns.length_bytes nx.length_bytes nl.length_bytes nm.length_bytes nr.length_bytes nc.length_bytes

lemma vm_exited_type_bytes [simp]: "vm_exited_type (nx_bytes p @ r) = nx_exit_type p"
  by (simp add: vm_exited_type_def nx_bytes_def)

lemma set_vm_exited_type_bytes [simp]: "set_vm_exited_type x (nx_bytes p @ r) = nx_bytes (p\<lparr>nx_exit_type := x\<rparr>) @ r"
  by (simp add: set_vm_exited_type_def nx_bytes_def)

lemma nx_same_type: "nx_exit_type p = x \<Longrightarrow> p\<lparr>nx_exit_type := x\<rparr> = p"
  by (cases p) simp

text \<open>The checks on the bytes of a notification, and that nothing else passes them.\<close>

lemma rm_notif_check_bytes:
  "rm_notif_check (rm_notif_id m) (rm_notif_bytes m) (length (rm_notif_bytes m)) = (if rm_notif_ok m then Some (rm_notif_bytes (rm_notif_generic m)) else None)"
proof (cases m)
  case (Msg_Vm_Exited p r)
  then show ?thesis
    by (auto simp: rm_notif_check_def gh_rm_validate_vm_exited_notif_def gh_arch_validate_vm_exited_notif_def nx_same_type)
next
  case (Msg_Vm_Console_Chars p r)
  moreover have "of_le16 (drop 2 (nc_bytes p @ r)) = nc_num_bytes p" by (simp add: nc_bytes_def)
  ultimately show ?thesis by (auto simp: rm_notif_check_def)
qed (simp_all add: rm_notif_check_def)

lemma rm_notif_check_cover:
  assumes "rm_notif_check n p (length p) \<noteq> None"
  shows "\<exists>m. rm_notif_id m = n \<and> rm_notif_bytes m = p"
proof -
  have "n \<in> {0x56100001, 0x51100011, 0x56100080} \<and> rm_notif_min n \<le> length p \<or>
    n \<in> {0x56100008, 0x56100002, 0x56100011, 0x56100012, 0x56100013, 0x51100012, 0x51100013} \<and> length p = rm_notif_min n"
    using assms by (auto simp: rm_notif_check_def rm_notif_min_def gh_rm_validate_vm_exited_notif_def split: if_splits prod.splits)
  then consider (ex) "n = 0x56100001" "8 \<le> length p" | (sh) "n = 0x51100011" "20 \<le> length p" | (co) "n = 0x56100080" "4 \<le> length p"
    | (st) "n = 0x56100008" "length p = 8" | (sd) "n = 0x56100002" "length p = 4" | (le) "n = 0x56100011" "length p = 12"
    | (re) "n = 0x56100012" "length p = 4" | (ac) "n = 0x56100013" "length p = 4" | (mr) "n = 0x51100012" "length p = 12" | (ma) "n = 0x51100013" "length p = 12"
    by (auto simp: rm_notif_min_def)
  then show ?thesis
  proof cases
    case ex then show ?thesis by (intro exI [of _ "Msg_Vm_Exited (nx_of p) (drop 8 p)"]) (simp add: nx.bytes_of_take)
  next
    case sh then show ?thesis by (intro exI [of _ "Msg_Mem_Shared (nm_of p) (drop 20 p)"]) (simp add: nm.bytes_of_take)
  next
    case co then show ?thesis by (intro exI [of _ "Msg_Vm_Console_Chars (nc_of p) (drop 4 p)"]) (simp add: nc.bytes_of_take)
  next
    case st then show ?thesis by (intro exI [of _ "Msg_Vm_Status (ns_of p)"]) (simp add: ns.bytes_of_bytes)
  next
    case sd then show ?thesis by (intro exI [of _ "Msg_Vm_Shutdown (of_le32 p)"]) (simp add: le32.bytes_of_bytes)
  next
    case le then show ?thesis by (intro exI [of _ "Msg_Vm_Irq_Lent (nl_of p)"]) (simp add: nl.bytes_of_bytes)
  next
    case re then show ?thesis by (intro exI [of _ "Msg_Vm_Irq_Released (of_le32 p)"]) (simp add: le32.bytes_of_bytes)
  next
    case ac then show ?thesis by (intro exI [of _ "Msg_Vm_Irq_Accepted (of_le32 p)"]) (simp add: le32.bytes_of_bytes)
  next
    case mr then show ?thesis by (intro exI [of _ "Msg_Mem_Released (nr_of p)"]) (simp add: nr.bytes_of_bytes)
  next
    case ma then show ?thesis by (intro exI [of _ "Msg_Mem_Accepted (nr_of p)"]) (simp add: nr.bytes_of_bytes)
  qed
qed

lemma rm_notif_bytes_inject:
  assumes "rm_notif_id m = rm_notif_id m'" "rm_notif_bytes m = rm_notif_bytes m'"
  shows "m = m'"
  using assms nx.bytes_inject nm.bytes_inject nc.bytes_inject
  by (cases m; cases m') (auto dest: arg_cong [where f = ns_of] arg_cong [where f = nl_of] arg_cong [where f = nr_of] arg_cong [where f = of_le32]
      simp: ns.of_bytes_bytes nl.of_bytes_bytes nr.of_bytes_bytes le32.of_bytes_bytes)

text \<open>C36: the validation of notifications accepts exactly the notifications. A message passes the checks
if and only if its bytes are one of the ten notifications with valid contents; that notification is
unique, and the handlers get its bytes unchanged, except that the second kind of system reset
is turned into the first.\<close>

theorem rm_notif_check_exact:
  "(rm_notif_check n p (length p) = Some p') =
     (\<exists>!m. rm_notif_ok m \<and> rm_notif_id m = n \<and> rm_notif_bytes m = p \<and> rm_notif_bytes (rm_notif_generic m) = p')"
proof
  assume c: "rm_notif_check n p (length p) = Some p'"
  then obtain m where m: "rm_notif_id m = n" "rm_notif_bytes m = p" using rm_notif_check_cover by blast
  with c rm_notif_check_bytes [of m] have "rm_notif_ok m" "rm_notif_bytes (rm_notif_generic m) = p'" by (auto split: if_splits)
  with m show "\<exists>!m. rm_notif_ok m \<and> rm_notif_id m = n \<and> rm_notif_bytes m = p \<and> rm_notif_bytes (rm_notif_generic m) = p'"
    using rm_notif_bytes_inject by metis
next
  assume "\<exists>!m. rm_notif_ok m \<and> rm_notif_id m = n \<and> rm_notif_bytes m = p \<and> rm_notif_bytes (rm_notif_generic m) = p'"
  then obtain m where "rm_notif_ok m" "rm_notif_id m = n" "rm_notif_bytes m = p" "rm_notif_bytes (rm_notif_generic m) = p'" by blast
  then show "rm_notif_check n p (length p) = Some p'" using rm_notif_check_bytes [of m] by simp
qed

end
