(* ===== verification/Device.thy ===== *)
theory Device
  imports Sec_Loader Vm_Main_Correct
begin

text \<open>
  The device \<^verbatim>\<open>/dev/gunyah\<close> as programs see it: the requests of \<^verbatim>\<open>gh_main.c\<close> on the device, on the files of VMs
  and on those of vCPUs, over the VM objects, the loader of secure VMs and the virtio backend
  together. The calls into the loader and the backend while a VM is torn down are events of the
  model of VM objects.
\<close>

section \<open>Requests\<close>

definition ld_on_main ::
  "(('c, 'h, 'g, 'k) main_state \<Rightarrow> ('a, ('c, 'h, 'g, 'k) main_state) outcome) \<Rightarrow> ('c, 'h, 'g, 'k, 'x) loader_state \<Rightarrow>
   ('a, ('c, 'h, 'g, 'k, 'x) loader_state) outcome" where
  "ld_on_main f s = map_outcome id (\<lambda>m. s\<lparr>ld_main := m\<rparr>) (f (ld_main s))"

definition ld_on_virtio ::
  "('x vb_state \<Rightarrow> ('a, 'x vb_state) outcome) \<Rightarrow> ('c, 'h, 'g, 'k, 'x) loader_state \<Rightarrow> ('a, ('c, 'h, 'g, 'k, 'x) loader_state) outcome" where
  "ld_on_virtio f s = map_outcome id (\<lambda>v. s\<lparr>ld_virtio := v\<rparr>) (f (ld_virtio s))"

datatype vm_cmd = GH_CREATE_VCPU u32 | GH_VM_SET_FW_NAME string | GH_VM_GET_FW_NAME | GH_VM_GET_VCPU_COUNT
  | GH_VM_GET_MEM_COUNT | GH_VM_GET_MEM_REGION u8 | GH_VIRTIO_CMD vb_cmd

text \<open>What a request stores for its caller.\<close>

datatype vm_reply = No_Reply | Reply_Name string | Reply_Region "u64 \<times> u64 \<times> int" | Reply_Virtio vb_out

text \<open>The environment of a request: the loader's, which holds the one of VM objects, and the virtio backend's.\<close>

record ('c, 'h, 'g, 'k, 'x) dev_env =
  de_loader :: "('c, 'h, 'g, 'k) loader_env"
  de_virtio :: "'x vb_env"

abbreviation de_main where "de_main env \<equiv> le_main (de_loader env)"

definition gh_vm_ioctl ::
  "('c, 'h, 'g, 'k, 'x) dev_env \<Rightarrow> ptr \<Rightarrow> vm_cmd \<Rightarrow> ('c, 'h, 'g, 'k, 'x) loader_state \<Rightarrow> (int \<times> vm_reply, ('c, 'h, 'g, 'k, 'x) loader_state) outcome" where
  "gh_vm_ioctl env p cmd s =
     (case cmd of
        GH_CREATE_VCPU vid \<Rightarrow> obind (ld_on_main (gh_vm_ioctl_create_vcpu (de_main env) p vid) s) (\<lambda>ret. Done (ret, No_Reply))
      | GH_VM_SET_FW_NAME nm \<Rightarrow> obind (gh_vm_ioctl_set_fw_name (de_loader env) p nm s) (\<lambda>ret. Done (ret, No_Reply))
      | GH_VM_GET_FW_NAME \<Rightarrow>
          obind (gh_vm_ioctl_get_fw_name (de_loader env) p s) (\<lambda>(ret, nm). Done (ret, case nm of None \<Rightarrow> No_Reply | Some n \<Rightarrow> Reply_Name n))
      | GH_VM_GET_VCPU_COUNT \<Rightarrow> ld_with_vm p s (\<lambda>vm. Done (gh_vm_ioctl_get_vcpu_count vm, No_Reply) s)
      | GH_VM_GET_MEM_COUNT \<Rightarrow> obind (gh_vm_ioctl_get_mem_count p s) (\<lambda>ret. Done (ret, No_Reply))
      | GH_VM_GET_MEM_REGION idx \<Rightarrow>
          obind (gh_vm_ioctl_get_mem_region (de_loader env) p idx s) (\<lambda>(ret, r). Done (ret, case r of None \<Rightarrow> No_Reply | Some x \<Rightarrow> Reply_Region x))
      | GH_VIRTIO_CMD c \<Rightarrow>
          ld_with_vm p s (\<lambda>vm. obind (ld_on_virtio (gh_virtio_backend_ioctl (de_virtio env) (vm_fw_name vm) c) s) (\<lambda>(ret, out). Done (ret, Reply_Virtio out))))"

text \<open>\<open>mmap_size\<close> is the size of the area of the process, \<open>remap\<close> what \<^verbatim>\<open>io_remap_pfn_range\<close> returns.\<close>

definition gh_vm_mmap :: "ptr \<Rightarrow> u64 \<Rightarrow> int \<Rightarrow> ('c, 'h, 'g, 'k, 'x) loader_state \<Rightarrow> (int, ('c, 'h, 'g, 'k, 'x) loader_state) outcome" where
  "gh_vm_mmap p mmap_size remap s = ld_with_vm p s (\<lambda>vm. ld_on_virtio (gh_virtio_backend_mmap (vm_fw_name vm) mmap_size remap) s)"

datatype dev_cmd = GH_CREATE_VM | GH_VM_WAIT_FOR_EXIT string | GH_DEV_OTHER

text \<open>The result, and the exit reason for the caller that waits.\<close>

definition gh_dev_ioctl ::
  "('c, 'h, 'g, 'k, 'x) dev_env \<Rightarrow> dev_cmd \<Rightarrow> ('c, 'h, 'g, 'k, 'x) loader_state \<Rightarrow> (int \<times> u32 option, ('c, 'h, 'g, 'k, 'x) loader_state) outcome" where
  "gh_dev_ioctl env cmd s =
     (case cmd of
        GH_CREATE_VM \<Rightarrow> obind (ld_on_main (gh_dev_ioctl_create_vm (de_main env)) s) (\<lambda>ret. Done (ret, None))
      | GH_VM_WAIT_FOR_EXIT nm \<Rightarrow> ld_on_main (gh_dev_ioctl_wait_for_exit (de_main env) (le_from (de_loader env)) (le_to (de_loader env)) nm) s
      | GH_DEV_OTHER \<Rightarrow> Done (- EINVAL, None) s)"

section \<open>System calls\<close>

text \<open>What programs and the Resource Manager do. The system finds the object of a file descriptor and refuses a
  descriptor that is not open or of another kind.\<close>

datatype dev_op = Dev_Ioctl dev_cmd | Vm_Ioctl int vm_cmd | Vm_Mmap int u64 int | Vcpu_Ioctl int bool | Close_File int | Notify_Vm ptr vm_rm_notif

definition dev_do ::
  "('c, 'h, 'g, 'k, 'x) dev_env \<Rightarrow> dev_op \<Rightarrow> ('c, 'h, 'g, 'k, 'x) loader_state \<Rightarrow> (unit, ('c, 'h, 'g, 'k, 'x) loader_state) outcome" where
  "dev_do env opn s =
     (case opn of
        Dev_Ioctl cmd \<Rightarrow> obind (gh_dev_ioctl env cmd s) (\<lambda>_. Done ())
      | Vm_Ioctl fd cmd \<Rightarrow> (case mn_files (ld_main s) fd of Some (VmFile p) \<Rightarrow> obind (gh_vm_ioctl env p cmd s) (\<lambda>_. Done ()) | _ \<Rightarrow> Done () s)
      | Vm_Mmap fd sz remap \<Rightarrow> (case mn_files (ld_main s) fd of Some (VmFile p) \<Rightarrow> obind (gh_vm_mmap p sz remap s) (\<lambda>_. Done ()) | _ \<Rightarrow> Done () s)
      | Vcpu_Ioctl fd run \<Rightarrow>
          (case mn_files (ld_main s) fd of Some (VcpuFile q) \<Rightarrow> obind (ld_on_main (gh_vcpu_ioctl (de_main env) q run) s) (\<lambda>_. Done ()) | _ \<Rightarrow> Done () s)
      | Close_File fd \<Rightarrow> obind (ld_on_main (main_do (de_main env) (Close fd)) s) (\<lambda>_. Done ())
      | Notify_Vm p n \<Rightarrow> obind (ld_on_main (main_do (de_main env) (Notify p n)) s) (\<lambda>_. Done ()))"

fun dev_run where
  "dev_run [] s = Done () s"
| "dev_run ((env, opn) # r) s = obind (dev_do env opn s) (\<lambda>_. dev_run r)"

fun dev_fds_unused where
  "dev_fds_unused [] s \<longleftrightarrow> True"
| "dev_fds_unused ((env, opn) # r) s \<longleftrightarrow> fd_unused (de_main env) (ld_main s) \<and> (case dev_do env opn s of Done _ t \<Rightarrow> dev_fds_unused r t | _ \<Rightarrow> True)"

section \<open>What the loader keeps of the VM objects\<close>

text \<open>The part of the state the life of the objects depends on: everything but the fields of a VM that
  describe what runs in it.\<close>

definition obj_view where
  "obj_view (s :: ('c, 'h, 'g, 'k) main_state) = (mn_vm_list s, mn_rm_nbs s, mn_vcpus s, mn_next s, mn_files s,
     \<lambda>p. map_option (\<lambda>vm. (vm_vcpus vm, vm_users_count vm)) (mn_vms s p))"

lemma main_inv_obj:
  assumes "obj_view t = obj_view s"
  shows "main_inv ex t = main_inv ex s"
proof -
  have fs: "mn_vm_list t = mn_vm_list s" "mn_rm_nbs t = mn_rm_nbs s" "mn_vcpus t = mn_vcpus s" "mn_next t = mn_next s" "mn_files t = mn_files s"
    using assms by (auto simp: obj_view_def)
  have v: "map_option (\<lambda>vm. (vm_vcpus vm, vm_users_count vm)) (mn_vms t p) = map_option (\<lambda>vm. (vm_vcpus vm, vm_users_count vm)) (mn_vms s p)" for p
    using assms by (auto simp: obj_view_def dest: fun_cong)
  have n: "mn_vms t p = None \<longleftrightarrow> mn_vms s p = None" for p using v [of p] by auto
  have rf: "refs t = refs s" "file_vm t = file_vm s" by (auto simp: refs_def file_vm_def fs fun_eq_iff split: vm_file.splits)
  have "(\<forall>vm. mn_vms t p = Some vm \<longrightarrow> vcpus_ok vc p vm \<and> vm_users_count vm = c \<and> Q) =
        (\<forall>vm. mn_vms s p = Some vm \<longrightarrow> vcpus_ok vc p vm \<and> vm_users_count vm = c \<and> Q)" for p vc c Q
    using v [of p] by (cases "mn_vms t p"; cases "mn_vms s p") (auto simp: vcpus_ok_def)
  then show ?thesis unfolding main_inv_def fs rf n by simp
qed

definition obj_kept where
  "obj_kept R (s :: ('c, 'h, 'g, 'k) main_state) (t :: ('c, 'h, 'g, 'k) main_state) \<longleftrightarrow> obj_view t = obj_view s \<and> R (mn_res t)"

lemma obj_kept_trans: "obj_kept R s t \<Longrightarrow> obj_kept R t u \<Longrightarrow> obj_kept R s u"
  by (simp add: obj_kept_def)

lemma obj_kept_ok: "obj_kept R s t \<Longrightarrow> main_ok R ex s \<Longrightarrow> main_ok R ex t"
  by (simp add: obj_kept_def main_ok_def main_inv_obj [of t s])

lemma obj_view_of_view: "heap_view t = heap_view s \<Longrightarrow> obj_view t = obj_view s"
  by (auto simp: heap_view_def obj_view_def fun_eq_iff map_option_case split: option.splits) (metis option.distinct(1))

lemma obj_view_upd:
  assumes "\<And>vm. mn_vms s p = Some vm \<Longrightarrow> vm_vcpus (f vm) = vm_vcpus vm \<and> vm_users_count (f vm) = vm_users_count vm"
  shows "obj_view (upd_vm p f s) = obj_view s"
  using assms by (auto simp: obj_view_def upd_vm_def fun_eq_iff map_option_case split: option.splits)

lemma obj_view_simps [simp]:
  "obj_view (s\<lparr>mn_res := r\<rparr>) = obj_view s" "obj_view (log_event e s) = obj_view s"
  by (simp_all add: obj_view_def log_event_def)

definition populate_safe where
  "populate_safe R env \<longleftrightarrow> (\<forall>r vmid nm. R r \<longrightarrow> outcome_inv R (gh_rm_populate_hyp_res (me_rs env) vmid nm r))"

lemma obj_kept_refl: "R (mn_res s) \<Longrightarrow> obj_kept R s s"
  by (simp add: obj_kept_def)

lemma obj_kept_res: "obj_kept R s t \<Longrightarrow> R (mn_res t)"
  by (simp add: obj_kept_def)

lemma view_obj_kept: "view_kept R s t \<Longrightarrow> obj_kept R s t"
  using obj_view_of_view [of t s] by (simp add: view_kept_def obj_kept_def)

lemma keeps_obj: "keeps R s m \<Longrightarrow> outcome_inv (obj_kept R s) m"
  using view_obj_kept [of R s] by (cases m) auto

lemma outcome_inv_mono: "outcome_inv P m \<Longrightarrow> (\<And>t. P t \<Longrightarrow> Q t) \<Longrightarrow> outcome_inv Q m"
  by (cases m) auto

lemma outcome_inv_True [simp]: "outcome_inv (\<lambda>_. True) m"
  by (cases m) auto

lemma obj_kept_obind:
  assumes "outcome_inv (obj_kept R s) m" and "\<And>a t. obj_kept R s t \<Longrightarrow> outcome_inv (obj_kept R t) (f a t)"
  shows "outcome_inv (obj_kept R s) (obind m f)"
proof (rule outcome_inv_obind [OF assms(1)])
  fix a t assume t: "obj_kept R s t"
  show "outcome_inv (obj_kept R s) (f a t)" using assms(2) [OF t] obj_kept_trans [OF t] by (rule outcome_inv_mono)
qed

lemma obj_kept_shift: "obj_kept R s t \<Longrightarrow> outcome_inv (obj_kept R t) m \<Longrightarrow> outcome_inv (obj_kept R s) m"
  using obj_kept_trans [of R s t] by (cases m) auto

lemma obj_kept_upd:
  assumes "\<And>vm. mn_vms t p = Some vm \<Longrightarrow> vm_vcpus (f vm) = vm_vcpus vm \<and> vm_users_count (f vm) = vm_users_count vm"
  shows "obj_kept R s (upd_vm p f t) = obj_kept R s t"
  by (simp add: obj_kept_def obj_view_upd [OF assms])

lemma on_rm_kept:
  assumes "backend_safe R env" and "obj_kept R s t" and "on_rm f t = (a, u)"
  shows "obj_kept R s u"
  using obj_kept_trans [OF assms(2) view_obj_kept [OF keeps_on_rm [OF assms(1) obj_kept_res [OF assms(2)] assms(3)]]] .

lemma on_res_kept: "populate_safe R env \<Longrightarrow> R (mn_res s) \<Longrightarrow> outcome_inv (obj_kept R s) (on_res (gh_rm_populate_hyp_res (me_rs env) vmid nm) s)"
  by (auto simp: on_res_def outcome_inv_map populate_safe_def obj_kept_def)

lemma nr_vcpus_kept:
  assumes "backend_safe R env" and "R (mn_res s)"
  shows "outcome_inv (obj_kept R s) (on_sched (gh_get_nr_vcpus vmid) s)"
proof -
  have "outcome_spec (\<lambda>_. sched_ok) sched_ok (gh_get_nr_vcpus vmid (rs_ext (mn_res s)))"
    using sched_okI [OF assms] by (auto simp: gh_get_nr_vcpus_def sched_ok_def Let_def)
  then show ?thesis by (intro keeps_obj keeps_on_sched [OF assms])
qed

text \<open>The end of \<^verbatim>\<open>gh_vm_configure\<close>, once the image is authenticated.\<close>

lemma configure_end_kept:
  assumes b: "backend_safe R env" "populate_safe R env" and R: "R (mn_res s)"
  shows "outcome_inv (obj_kept R s) (obind (wait_event (status_is p VM_STATUS_READY) (me_steps env 3) s) (\<lambda>_ s.
     obind (on_res (gh_rm_populate_hyp_res (me_rs env) vmid fw_name) s) (\<lambda>ret s.
       if ret < 0 then Done ret s
       else if sec
       then obind (on_sched (gh_get_nr_vcpus vmid) s) (\<lambda>n s. Done ret (upd_vm p (vm_allowed_vcpus_update (\<lambda>_. if n = 0 then 1 else of_nat n)) s))
       else Done ret s)))"
proof (intro obj_kept_obind)
  show "outcome_inv (obj_kept R s) (wait_event (status_is p VM_STATUS_READY) (me_steps env 3) s)"
    using b(1) R by (intro keeps_obj keeps_wait) (simp_all add: backend_safe_def)
  fix a t assume "obj_kept R s t"
  then show "outcome_inv (obj_kept R t) (on_res (gh_rm_populate_hyp_res (me_rs env) vmid fw_name) t)" by (intro on_res_kept [OF b(2)] obj_kept_res)
next
  fix a t u and ret :: int assume "obj_kept R t u"
  then have u: "R (mn_res u)" by (rule obj_kept_res)
  have "outcome_inv (obj_kept R u) (obind (on_sched (gh_get_nr_vcpus vmid) u) (\<lambda>n s. Done ret (upd_vm p (vm_allowed_vcpus_update (\<lambda>_. if n = 0 then 1 else of_nat n)) s)))"
    by (rule obj_kept_obind [OF nr_vcpus_kept [OF b(1) u]]) (simp add: obj_kept_upd obj_kept_refl obj_kept_res)
  then show "outcome_inv (obj_kept R u) (if ret < 0 then Done ret u else if sec
       then obind (on_sched (gh_get_nr_vcpus vmid) u) (\<lambda>n s. Done ret (upd_vm p (vm_allowed_vcpus_update (\<lambda>_. if n = 0 then 1 else of_nat n)) s))
       else Done ret u)"
    using u by (simp add: obj_kept_refl)
qed

lemma configure_kept:
  assumes b: "backend_safe R env" "populate_safe R env" and R: "R (mn_res s)"
  shows "outcome_inv (obj_kept R s) (gh_vm_configure env kr auth_mech io is bo bs pas_id fw_name p s)"
proof (cases "mn_vms s p")
  case (Some vm)
  let ?call = "re_call (me_rs env)"
  obtain r1 s1 where 1: "on_rm (gh_rm_vm_config_image ?call (vm_vmid vm) auth_mech (vm_mem_handle vm) io is bo bs) s = (r1, s1)" by (metis prod.collapse)
  let ?s1 = "upd_vm p (vm_status_update (\<lambda>_. VM_STATUS_AUTH)) s1"
  obtain r2 s2 where 2: "on_rm (gh_rm_vm_auth_image ?call kr (vm_vmid vm) [(0, pas_id)]) ?s1 = (r2, s2)" by (metis prod.collapse)
  let ?s2 = "upd_vm p (vm_status_update (\<lambda>_. VM_STATUS_INIT)) s2"
  obtain r3 s3 where 3: "on_rm (gh_rm_vm_init ?call (vm_vmid vm)) ?s2 = (r3, s3)" by (metis prod.collapse)
  have k1: "obj_kept R s s1" by (rule on_rm_kept [OF b(1) obj_kept_refl [of R s, OF R] 1])
  then have k1': "obj_kept R s ?s1" by (simp add: obj_kept_upd)
  then have k2: "obj_kept R s s2" by (rule on_rm_kept [OF b(1) _ 2])
  then have k2': "obj_kept R s ?s2" by (simp add: obj_kept_upd)
  then have k3: "obj_kept R s s3" by (rule on_rm_kept [OF b(1) _ 3])
  show ?thesis
    unfolding gh_vm_configure_def with_vm_def Some option.case Let_def 1 prod.case 2 3
    using k1 k1' k2 k2' k3 R obj_kept_shift [OF k3 configure_end_kept [OF b obj_kept_res [OF k3]]] by (simp add: obj_kept_refl)
qed (simp add: gh_vm_configure_def with_vm_def)

abbreviation ld_kept :: "_ \<Rightarrow> ('c, 'h, 'g, 'k, 'x) loader_state \<Rightarrow> ('c, 'h, 'g, 'k, 'x) loader_state \<Rightarrow> bool" where
  "ld_kept R s t \<equiv> obj_kept R (ld_main s) (ld_main t)"

lemma ld_kept_obind:
  assumes "outcome_inv (ld_kept R s) m" and "\<And>a t. m = Done a t \<Longrightarrow> ld_kept R s t \<Longrightarrow> outcome_inv (ld_kept R t) (f a t)"
  shows "outcome_inv (ld_kept R s) (obind m f)"
proof (cases m)
  case (Done a t)
  with assms(1) have t: "ld_kept R s t" by simp
  show ?thesis using assms(2) [OF Done t] obj_kept_trans [OF t] Done by (cases "f a t") auto
qed (use assms(1) in auto)

lemma ld_kept_shift: "ld_kept R s t \<Longrightarrow> outcome_inv (ld_kept R t) m \<Longrightarrow> outcome_inv (ld_kept R s) m"
  using obj_kept_trans [of R "ld_main s" "ld_main t"] by (cases m) auto

lemma ld_rm_kept:
  assumes "backend_safe R env" and "R (mn_res (ld_main s))"
  shows "outcome_inv (ld_kept R s) (ld_rm f s)"
proof -
  have "R (mn_res (ld_main s)\<lparr>rs_rm := c\<rparr>)" for c using assms by (simp add: backend_safe_def)
  then show ?thesis by (cases "f (rs_rm (mn_res (ld_main s)))") (simp_all add: ld_rm_def obj_kept_def)
qed

lemma provide_shmems_kept:
  assumes "backend_safe R (le_main env)" and "R (mn_res (ld_main s))"
  shows "outcome_inv (ld_kept R s) (provide_shmems env vm shs ret s)"
  using assms(2)
proof (induction shs arbitrary: ret s)
  case (Cons sh shs)
  have "outcome_inv (ld_kept R t) (if ret \<noteq> 0 then Done (ret, sh # shs) t else obind (provide_shmems env vm shs ret t) (\<lambda>(ret, shs). Done (ret, sh # shs)))"
    if "ld_kept R s t" for ret sh t
    using Cons.IH [OF obj_kept_res [OF that]] obj_kept_res [OF that]
    by (auto intro!: ld_kept_obind simp: obj_kept_refl obj_kept_res split: prod.splits)
  then show ?case using ld_rm_kept [OF assms(1) Cons.prems] by (auto intro!: ld_kept_obind split: prod.splits)
qed (simp add: obj_kept_refl)

lemma alloc_regions_main: "ld_main (snd (alloc_regions env i rs s)) = ld_main s"
proof (induction rs arbitrary: i s)
  case (Cons r rs)
  show ?case
  proof (cases "fm_is_static r")
    case True
    then show ?thesis using Cons [of "i + 1" s] by (cases "alloc_regions env (i + 1) rs s") auto
  next
    case False
    then show ?thesis using Cons [of "i + 1" "ld_map (fst (the (le_dma env i))) (replicate (unat (fm_size r)) 0) s"]
      by (cases "alloc_regions env (i + 1) rs (ld_map (fst (the (le_dma env i))) (replicate (unat (fm_size r)) 0) s)")
        (auto simp: ld_map_def split: option.splits)
  qed
qed simp

lemma free_regions_kept: "R (mn_res (ld_main s)) \<Longrightarrow> outcome_inv (ld_kept R s) (free_regions b rs s)"
proof (induction rs arbitrary: s)
  case (Cons r rs)
  have "outcome_inv (ld_kept R s) (if fm_is_static r = b then ld_unmap (fm_virt r) s else Done () s)"
    using Cons.prems by (auto simp: ld_unmap_def obj_kept_def)
  then show ?case unfolding free_regions.simps by (rule ld_kept_obind) (blast intro: Cons.IH dest: obj_kept_res)
qed (simp add: obj_kept_refl)

lemma gh_provide_mem_vm:
  "gh_provide_mem junk gap call kz kr scm vm ps sys c = Done (ret, vm') c' \<Longrightarrow> vm_vcpus vm' = vm_vcpus vm \<and> vm_users_count vm' = vm_users_count vm"
  by (auto simp: gh_provide_mem_def Let_def obind_iffs split: if_split_asm prod.split_asm) (auto split: sum.split_asm if_split_asm prod.split_asm)

lemma sec_load_provide_kept:
  assumes b: "backend_safe R (le_main env)" "populate_safe R (le_main env)" and R: "R (mn_res (ld_main s))"
  shows "outcome_inv (ld_kept R s) (sec_load_provide env q d off n p s)"
proof (cases "mn_vms (ld_main s) p")
  case (Some vm)
  let ?prov = "gh_provide_mem (me_junk (le_main env)) (le_gap env) (re_call (me_rs (le_main env))) (le_kz env) (le_kr env) (le_scm env) vm
    (mem_parcels (sv_fw_mem_regions d)) (sv_system_vm d)"
  have shm: "outcome_inv (ld_kept R t) (ld_with_vm p t (\<lambda>vm. obind (provide_shmems env vm (sv_sh_mem_regions d) ret t)
      (\<lambda>(ret, shs) s. Done ret (ld_set_dev q (d\<lparr>sv_sh_mem_regions := shs\<rparr>) s))))" if "R (mn_res (ld_main t))" for ret and t :: "('a, 'b, 'c, 'd, 'e) loader_state"
    using provide_shmems_kept [OF b(1) that]
    by (auto simp: ld_with_vm_def with_vm_def ld_set_dev_def obj_kept_refl obj_kept_res intro!: ld_kept_obind split: option.splits prod.splits)
  have conf: "outcome_inv (ld_kept R t) (obind (map_outcome id (\<lambda>m. t\<lparr>ld_main := m\<rparr>)
      (gh_vm_configure (le_main env) (le_kr env) 1 off n 0 0 (sv_pas_id d) (Some (char_bytes (sv_vm_name d))) p (ld_main t)))
      (\<lambda>ret s. ld_with_vm p s (\<lambda>vm. obind (provide_shmems env vm (sv_sh_mem_regions d) ret s)
        (\<lambda>(ret, shs) s. Done ret (ld_set_dev q (d\<lparr>sv_sh_mem_regions := shs\<rparr>) s)))))" if "R (mn_res (ld_main t))" for t :: "('a, 'b, 'c, 'd, 'e) loader_state"
  proof (rule ld_kept_obind)
    show "outcome_inv (ld_kept R t) (map_outcome id (\<lambda>m. t\<lparr>ld_main := m\<rparr>)
        (gh_vm_configure (le_main env) (le_kr env) 1 off n 0 0 (sv_pas_id d) (Some (char_bytes (sv_vm_name d))) p (ld_main t)))"
      using configure_kept [OF b that] by (simp add: outcome_inv_map)
  qed (auto dest: obj_kept_res intro: shm)
  have "outcome_inv (ld_kept R s) (obind (ld_rm ?prov s) (\<lambda>(ret, vm) s.
      let s = ld_upd_vm p (\<lambda>_. vm) s in
      if ret \<noteq> 0 then Done ret s
      else let s = ld_upd_vm p (vm_is_secure_vm_update (\<lambda>_. True)) s in
        obind (map_outcome id (\<lambda>m. s\<lparr>ld_main := m\<rparr>)
          (gh_vm_configure (le_main env) (le_kr env) 1 off n 0 0 (sv_pas_id d) (Some (char_bytes (sv_vm_name d))) p (ld_main s)))
          (\<lambda>ret s. ld_with_vm p s (\<lambda>vm. obind (provide_shmems env vm (sv_sh_mem_regions d) ret s)
            (\<lambda>(ret, shs) s. Done ret (ld_set_dev q (d\<lparr>sv_sh_mem_regions := shs\<rparr>) s))))))"
  proof (rule ld_kept_obind [OF ld_rm_kept [OF b(1) R]], goal_cases)
    case (1 a t)
    obtain ret vm' where a: "a = (ret, vm')" by (cases a)
    obtain c where c: "?prov (rs_rm (mn_res (ld_main s))) = Done (ret, vm') c" and t: "mn_vms (ld_main t) p = Some vm"
      using 1(1) Some unfolding a ld_rm_def by (cases "?prov (rs_rm (mn_res (ld_main s)))") auto
    from c have vm': "vm_vcpus vm' = vm_vcpus vm \<and> vm_users_count vm' = vm_users_count vm" by (rule gh_provide_mem_vm)
    have Rt: "R (mn_res (ld_main t))" using 1(2) by (rule obj_kept_res)
    let ?t = "ld_upd_vm p (\<lambda>_. vm') t"
    let ?u = "ld_upd_vm p (vm_is_secure_vm_update (\<lambda>_. True)) ?t"
    have "ld_kept R t ?t" using Rt t vm' obj_view_upd [of "ld_main t" p "\<lambda>_. vm'"] by (simp add: ld_upd_vm_def obj_kept_def)
    moreover have "ld_kept R t ?u" using calculation by (simp add: ld_upd_vm_def obj_kept_upd)
    ultimately show ?case using ld_kept_shift [OF _ conf [of ?u]] obj_kept_res [of R _ "ld_main ?u"] unfolding a Let_def prod.case by auto
  qed
  then show ?thesis using Some R by (simp add: sec_load_provide_def ld_with_vm_def [of p s] with_vm_def)
qed (simp add: sec_load_provide_def ld_with_vm_def with_vm_def)

lemma sec_load_kept:
  assumes b: "backend_safe R (le_main env)" "populate_safe R (le_main env)" and R: "R (mn_res (ld_main s))"
  shows "outcome_inv (ld_kept R s) (gh_vm_loader_sec_load env q p s)"
proof -
  have "outcome_inv (ld_kept R s) (sec_load_provide env q d off n p (ld_map v mem s))" for d off n v mem
    using ld_kept_shift [OF _ sec_load_provide_kept [OF b, of "ld_map v mem s" q d off n p]] R by (simp add: ld_map_def obj_kept_refl)
  then show ?thesis using R
    by (auto simp: gh_vm_loader_sec_load_def Let_def ld_map_def obj_kept_refl split: option.splits sum.splits outcome.splits prod.splits)
qed

lemma load_fw_kept:
  assumes b: "backend_safe R (le_main env)" "populate_safe R (le_main env)" and R: "R (mn_res (ld_main s))"
  shows "outcome_inv (ld_kept R s) (gh_sec_vm_loader_load_fw env q p s)"
proof (cases "ld_devs s q")
  case (Some d)
  obtain ok rs t where t: "alloc_regions env 0 (sv_fw_mem_regions d) s = ((ok, rs), t)" by (metis prod.collapse)
  have m: "ld_main t = ld_main s" using alloc_regions_main [of env 0 "sv_fw_mem_regions d" s] t by simp
  have Rt: "R ((mn_res (ld_main s))\<lparr>rs_tbl := a, rs_rm := c\<rparr>)" for a c using b(1) R unfolding backend_safe_def by blast
  have fin: "outcome_inv (ld_kept R s) (obind (free_regions False rs u) (\<lambda>_. Done ret))" if "ld_kept R s u" for u and ret :: int
    using ld_kept_shift [OF that free_regions_kept [of R u, OF obj_kept_res [OF that]]]
    by (rule ld_kept_obind) (simp add: obj_kept_refl obj_kept_res)
  have load: "outcome_inv (ld_kept R s) (gh_vm_loader_sec_load env q p (ld_upd_vm p (\<lambda>vm. vm\<lparr>vm_status := VM_STATUS_LOAD, vm_vmid := v\<rparr>) u))"
    if "ld_kept R s u" for u v
  proof -
    let ?u = "ld_upd_vm p (\<lambda>vm. vm\<lparr>vm_status := VM_STATUS_LOAD, vm_vmid := v\<rparr>) u"
    have k: "ld_kept R s ?u" using that by (simp add: ld_upd_vm_def obj_kept_upd)
    then have "R (mn_res (ld_main ?u))" by (rule obj_kept_res)
    then show ?thesis by (intro ld_kept_shift [OF k] sec_load_kept [OF b])
  qed
  show ?thesis
    using R Rt fin load
    by (auto simp: gh_sec_vm_loader_load_fw_def Some t Let_def ld_set_dev_def m obj_kept_def split: outcome.splits prod.splits)
qed (simp add: gh_sec_vm_loader_load_fw_def)

lemma set_fw_name_kept:
  assumes b: "backend_safe R (le_main env)" "populate_safe R (le_main env)" and R: "R (mn_res (ld_main s))"
  shows "outcome_inv (ld_kept R s) (gh_vm_ioctl_set_fw_name env p nm s)"
proof -
  have "outcome_inv (ld_kept R s) (obind (gh_sec_vm_loader_load_fw env q p (s\<lparr>ld_log := l\<rparr>)) (\<lambda>ret s.
      if ret \<noteq> 0 then Done ret s
      else let s = ld_upd_vm p (vm_fw_name_update (\<lambda>_. n)) s in Done ret (s\<lparr>ld_main := log_event (Uevent_Create p) (ld_main s)\<rparr>)))" for q l n
  proof (rule ld_kept_obind)
    show "outcome_inv (ld_kept R s) (gh_sec_vm_loader_load_fw env q p (s\<lparr>ld_log := l\<rparr>))"
      using ld_kept_shift [OF _ load_fw_kept [OF b, of "s\<lparr>ld_log := l\<rparr>"]] R by (simp add: obj_kept_refl)
  next
    fix ret t assume "ld_kept R s t"
    then have "R (mn_res (ld_main t))" by (rule obj_kept_res)
    then show "outcome_inv (ld_kept R t) (if ret \<noteq> 0 then Done ret t
      else let s = ld_upd_vm p (vm_fw_name_update (\<lambda>_. n)) t in Done ret (s\<lparr>ld_main := log_event (Uevent_Create p) (ld_main s)\<rparr>))"
      using obj_view_upd [of "ld_main t" p "vm_fw_name_update (\<lambda>_. n)"] by (simp add: Let_def ld_upd_vm_def obj_kept_def)
  qed
  then show ?thesis using R
    by (auto simp: gh_vm_ioctl_set_fw_name_def Let_def ld_with_vm_def with_vm_def obj_kept_refl split: option.splits)
qed

lemma queries_kept:
  assumes R: "R (mn_res (ld_main s))"
  shows "outcome_inv (ld_kept R s) (gh_vm_ioctl_get_fw_name env p s)" "outcome_inv (ld_kept R s) (gh_vm_ioctl_get_mem_count p s)"
    "outcome_inv (ld_kept R s) (gh_vm_ioctl_get_mem_region env p i s)" "outcome_inv (ld_kept R s) (ld_on_virtio f s)"
    "outcome_inv (ld_kept R s) (gh_vm_mmap p sz remap s)"
  using R by (auto simp: gh_vm_ioctl_get_fw_name_def gh_vm_ioctl_get_mem_count_def gh_vm_ioctl_get_mem_region_def gh_vm_mmap_def ld_on_virtio_def
      ld_with_vm_def with_vm_def obj_kept_refl outcome_inv_map Let_def split: option.splits)

section \<open>Sequences of system calls\<close>

text \<open>What a system call leaves behind when it returns.\<close>

fun device_ok where
  "device_ok R (Done a t) = main_ok R None (ld_main t)"
| "device_ok R (Blocked t) = True"
| "device_ok R Fault = True"

lemma device_ok_obind [simp]: "device_ok R (obind m (\<lambda>a. Done (f a))) = device_ok R m"
  by (cases m) auto

lemma device_ok_kept: "main_ok R None (ld_main s) \<Longrightarrow> outcome_inv (ld_kept R s) m \<Longrightarrow> device_ok R m"
  using obj_kept_ok [of R "ld_main s"] by (cases m) auto

lemma device_ok_main: "main_safe R (f (ld_main s)) \<Longrightarrow> device_ok R (ld_on_main f s)"
  by (cases "f (ld_main s)") (auto simp: ld_on_main_def)

lemma device_ok_with_vm: "main_ok R None (ld_main s) \<Longrightarrow> (\<And>vm. device_ok R (f vm)) \<Longrightarrow> device_ok R (ld_with_vm p s f)"
  by (auto simp: ld_with_vm_def with_vm_def split: option.splits)

lemma wait_for_exit_safe:
  assumes b: "backend_safe R env" and ok: "main_ok R None s"
  shows "main_safe R (gh_dev_ioctl_wait_for_exit env uc uo nm s)"
proof (cases "find_vm_by_name nm s")
  case (Some p)
  then have p: "mn_vms s p \<noteq> None" by (auto simp: find_vm_by_name_def find_vm_def find_Some_iff split: option.splits)
  have R: "R (mn_res s)" using ok by (simp add: main_ok_def)
  have "keeps R s (obind (wait_status_intr p VM_STATUS_EXITED (me_run_steps env) s) (\<lambda>ret s.
      if ret \<noteq> 0 then Done (ret, None) s
      else with_vm p s (\<lambda>vm. if \<not> uo then Done (- EFAULT, None) s else Done (0, Some (word_of_int (vm_exit_type vm))) s)))"
  proof (rule keeps_obind)
    show "keeps R s (wait_status_intr p VM_STATUS_EXITED (me_run_steps env) s)"
      using b R p by (intro keeps_wait_intr) (simp_all add: backend_safe_def)
    fix ret :: int and t assume t: "view_kept R s t"
    obtain vm where "mn_vms t p = Some vm" using view_kept_alive [OF t p] by auto
    then show "keeps R t (if ret \<noteq> 0 then Done (ret, None) t
      else with_vm p t (\<lambda>vm. if \<not> uo then Done (- EFAULT, None) t else Done (0, Some (word_of_int (vm_exit_type vm))) t))"
      using t by (auto simp: with_vm_def view_kept_def)
  qed
  then show ?thesis using main_safe_keeps [OF ok] ok by (auto simp: gh_dev_ioctl_wait_for_exit_def Some)
qed (use ok in \<open>simp add: gh_dev_ioctl_wait_for_exit_def\<close>)

lemma vm_ioctl_ok:
  assumes b: "backend_safe R (de_main env)" "populate_safe R (de_main env)" and ok: "main_ok R None (ld_main s)"
    and fd: "fd_unused (de_main env) (ld_main s)" and f: "mn_files (ld_main s) n = Some (VmFile p)"
  shows "device_ok R (gh_vm_ioctl env p cmd s)"
proof -
  have R: "R (mn_res (ld_main s))" using ok by (simp add: main_ok_def)
  note kept = device_ok_kept [OF ok queries_kept(1) [of R s, OF R]] device_ok_kept [OF ok queries_kept(2) [of R s, OF R]]
    device_ok_kept [OF ok queries_kept(3) [of R s, OF R]] device_ok_kept [OF ok queries_kept(4) [of R s, OF R]]
    device_ok_kept [OF ok set_fw_name_kept [OF b R]]
  have create: "main_safe R (gh_vm_ioctl_create_vcpu (de_main env) p vid (ld_main s))" for vid
    using main_do_safe [OF b(1) ok fd, of "Create_Vcpu n vid"] f by (simp add: main_do_def)
  show ?thesis
  proof (cases cmd)
    case (GH_CREATE_VCPU vid)
    then show ?thesis using device_ok_main [of R "gh_vm_ioctl_create_vcpu (de_main env) p vid" s, OF create] by (simp add: gh_vm_ioctl_def)
  qed (simp_all add: kept ok gh_vm_ioctl_def case_prod_beta' device_ok_with_vm)
qed

text \<open>The requests that are answered by the loader's and the backend's own objects.\<close>

fun foreign :: "dev_op \<Rightarrow> bool" where
  "foreign (Vm_Ioctl fd (GH_VM_SET_FW_NAME nm)) \<longleftrightarrow> True"
| "foreign (Vm_Ioctl fd (GH_VIRTIO_CMD c)) \<longleftrightarrow> True"
| "foreign (Vm_Mmap fd sz remap) \<longleftrightarrow> True"
| "foreign _ \<longleftrightarrow> False"

lemma ld_on_main_Fault: "ld_on_main f s = Fault \<longleftrightarrow> f (ld_main s) = Fault"
  by (cases "f (ld_main s)") (auto simp: ld_on_main_def)

lemma dev_do_main:
  assumes b: "backend_safe R (de_main env)" and ok: "main_ok R None (ld_main s)" and fd: "fd_unused (de_main env) (ld_main s)"
  shows "main_safe R (gh_dev_ioctl_create_vm (de_main env) (ld_main s))" "main_safe R (main_do (de_main env) opn (ld_main s))"
    "mn_files (ld_main s) n = Some (VcpuFile q) \<Longrightarrow> main_safe R (gh_vcpu_ioctl (de_main env) q run (ld_main s))"
    "mn_files (ld_main s) n = Some (VmFile p) \<Longrightarrow> main_safe R (gh_vm_ioctl_create_vcpu (de_main env) p vid (ld_main s))"
  using main_do_safe [OF b ok fd, of Open_Vm] main_do_safe [OF b ok fd, of opn] main_do_safe [OF b ok fd, of "Run_Vcpu n"]
    main_do_safe [OF b ok fd, of "Create_Vcpu n vid"] ok
  by (auto simp: main_do_def [of _ Open_Vm] main_do_def [of _ "Run_Vcpu n"] main_do_def [of _ "Create_Vcpu n vid"] gh_vcpu_ioctl_def)

lemma main_safe_not_Fault: "main_safe R m \<Longrightarrow> m \<noteq> Fault"
  by auto

lemma dev_do_ok:
  assumes b: "backend_safe R (de_main env)" "populate_safe R (de_main env)" and ok: "main_ok R None (ld_main s)"
    and fd: "fd_unused (de_main env) (ld_main s)"
  shows "device_ok R (dev_do env opn s)"
proof -
  note main = dev_do_main [OF b(1) ok fd]
  have R: "R (mn_res (ld_main s))" using ok by (simp add: main_ok_def)
  show ?thesis
  proof (cases opn)
    case (Dev_Ioctl cmd)
    show ?thesis
    proof (cases cmd)
      case (GH_VM_WAIT_FOR_EXIT nm)
      then show ?thesis unfolding dev_do_def Dev_Ioctl gh_dev_ioctl_def using wait_for_exit_safe [OF b(1) ok] by (simp add: device_ok_main)
    qed (use main(1) ok in \<open>simp_all add: dev_do_def Dev_Ioctl gh_dev_ioctl_def device_ok_main\<close>)
  next
    case (Vm_Ioctl n cmd)
    then show ?thesis using vm_ioctl_ok [OF b ok fd] ok by (auto simp: dev_do_def split: option.splits vm_file.splits)
  next
    case (Vm_Mmap n sz remap)
    then show ?thesis using device_ok_kept [OF ok queries_kept(5) [of R s, OF R]] ok by (auto simp: dev_do_def split: option.splits vm_file.splits)
  next
    case (Vcpu_Ioctl n run)
    then show ?thesis using main(3) [of n] ok
      by (cases "mn_files (ld_main s) n") (auto simp: dev_do_def device_ok_main split: vm_file.splits)
  next
    case (Close_File n)
    then show ?thesis using main(2) by (simp add: dev_do_def device_ok_main)
  next
    case (Notify_Vm p n)
    then show ?thesis using main(2) by (simp add: dev_do_def device_ok_main)
  qed
qed

lemma dev_do_no_fault:
  assumes b: "backend_safe R (de_main env)" and ok: "main_ok R None (ld_main s)" and fd: "fd_unused (de_main env) (ld_main s)" and n: "\<not> foreign opn"
  shows "dev_do env opn s \<noteq> Fault"
proof -
  note main = dev_do_main [OF b ok fd, THEN main_safe_not_Fault] wait_for_exit_safe [OF b ok, THEN main_safe_not_Fault]
  have alive: "mn_vms (ld_main s) p \<noteq> None" if "mn_files (ld_main s) k = Some (VmFile p)" for k p
    using main_inv_parts(5) [of None "ld_main s", OF _ that] ok by (auto simp: main_ok_def file_vm_def)
  have q: "ld_devs s x = None \<Longrightarrow> get_sec_vm_dev_by_name nm s \<noteq> Some x" for x nm
    by (auto simp: get_sec_vm_dev_by_name_def find_Some_iff split: option.splits)
  show ?thesis
  proof (cases opn)
    case (Dev_Ioctl cmd)
    then show ?thesis using main by (cases cmd) (auto simp: dev_do_def gh_dev_ioctl_def obind_iffs ld_on_main_Fault)
  next
    case (Vm_Ioctl k cmd)
    then show ?thesis using n main(4) [of k] alive [of k] q
      by (cases cmd) (auto simp: dev_do_def gh_vm_ioctl_def obind_iffs ld_on_main_Fault ld_with_vm_def with_vm_def gh_vm_ioctl_get_fw_name_def
          gh_vm_ioctl_get_mem_count_def gh_vm_ioctl_get_mem_region_def Let_def split: option.splits vm_file.splits if_splits)
  qed (use n main in \<open>auto simp: dev_do_def obind_iffs ld_on_main_Fault split: option.splits vm_file.splits\<close>)
qed

lemma dev_run_ok:
  assumes "\<forall>(env, opn)\<in>set ops. backend_safe R (de_main env) \<and> populate_safe R (de_main env)" and "main_ok R None (ld_main s)" and "dev_fds_unused ops s"
  shows "device_ok R (dev_run ops s)" "\<forall>(env, opn)\<in>set ops. \<not> foreign opn \<Longrightarrow> dev_run ops s \<noteq> Fault"
  using assms
proof (induction ops arbitrary: s)
  case (Cons eo ops)
  obtain env opn where eo: "eo = (env, opn)" by (cases eo)
  { case 1
    then have "device_ok R (dev_do env opn s)" by (intro dev_do_ok) (auto simp: eo)
    then show ?case using 1 Cons.IH(1) by (cases "dev_do env opn s") (auto simp: eo)
  next
    case 2
    then have "device_ok R (dev_do env opn s)" by (intro dev_do_ok) (auto simp: eo)
    moreover have "dev_do env opn s \<noteq> Fault" using 2 by (intro dev_do_no_fault) (auto simp: eo)
    ultimately show ?case using 2 Cons.IH(2) by (cases "dev_do env opn s") (auto simp: eo) }
qed simp_all


definition dev_demo_env :: "(unit, unit, unit, unit) loader_env \<Rightarrow> 'x vb_env \<Rightarrow> int \<Rightarrow> (unit, unit, unit, unit, 'x) dev_env" where
  "dev_demo_env L V fd = \<lparr>de_loader = L\<lparr>le_main := main_demo_env fd\<rparr>, de_virtio = V\<rparr>"

lemma dev_demo_safe: "populate_safe (\<lambda>r. sched_ok (rs_ext r)) (main_demo_env fd)"
  by (simp add: populate_safe_def main_demo_env_def gh_rm_populate_hyp_res_def gh_rm_vm_get_hyp_res_def rm_query_def)


end
