(* ===== verification/Spec2Isabelle.thy ===== *)
theory Spec2Isabelle
  imports Msgq_IO Doorbell_IO Rm_Transport Rm_Safety Irq_Map Rm_Vm_Correct Rm_Resources_Correct Irq_Lend_Correct
    Mem_Notifier Proxy_Sched_Correct Rm_Mem_Correct Vm_Memory_Correct Vm_Main_Correct Virtio_Share Sec_Loader_Correct
    Console_Correct Udmabuf_Correct Gvm_Dump_Correct Virt_Wdt Guest_Pops Hcall_Drivers
    Rm_Request Rm_Notif Device
begin

text \<open>
  A verification of the Linux drivers for the Gunyah hypervisor (\<^verbatim>\<open>drivers/virt/gunyah\<close>,
  \<^verbatim>\<open>arch/arm64/gunyah\<close>, \<^verbatim>\<open>drivers/tty/hvc\<close> and \<^verbatim>\<open>hyp-udmabuf\<close>).

  \<^bold>\<open>The program.\<close> A Linux VM talks to the hypervisor through hypercalls and interrupts. Two drivers
  wrap the hypervisor's communication primitives: message queues (\<^verbatim>\<open>gh_msgq.c\<close>) and doorbells
  (\<^verbatim>\<open>gh_dbl.c\<close>). Over one message queue the driver \<^verbatim>\<open>gh_rm_core.c\<close> speaks to the Resource Manager, a
  VM of its own that creates VMs and moves memory, interrupts and capabilities between them: it
  cuts requests into fragments, puts replies and notifications together again and wakes the
  caller. \<^verbatim>\<open>gh_rm_iface.c\<close> gives each command of the Resource Manager a C function. On top of these
  functions are interrupt lending (\<^verbatim>\<open>gh_irq_lend.c\<close>), memory notifications (\<^verbatim>\<open>gh_mem_notifier.c\<close>), the
  population of the message queue, doorbell, vCPU and virtio drivers with the capabilities of a VM
  (\<^verbatim>\<open>gh_rm_core.c\<close> again, through callback slots), the scheduler that runs the vCPUs of other VMs
  (\<^verbatim>\<open>gh_proxy_sched.c\<close>) and the device \<^verbatim>\<open>/dev/gunyah\<close>, through which user space creates, runs and
  destroys VMs (\<^verbatim>\<open>gh_main.c\<close>). The loader (\<^verbatim>\<open>gh_secure_vm_loader.c\<close>) puts the image of a secure VM into
  memory and gives that memory to the VM, the virtio backend (\<^verbatim>\<open>gh_secure_vm_virtio_backend.c\<close>) lets user
  space serve the devices of a VM, and \<^verbatim>\<open>gvm_dump_debugfs.c\<close> offers the memory of a VM that has ended.
  Smaller drivers are the console (\<^verbatim>\<open>hvc_gunyah.c\<close>), the export of guest memory (\<^verbatim>\<open>hyp_udmabuf.c\<close>) and,
  inside a guest, the watchdog (\<^verbatim>\<open>gh_virt_wdt.c\<close>) and the power operations (\<^verbatim>\<open>gh_guest_pops.c\<close>).

  \<^bold>\<open>How code becomes definitions.\<close> A structure is a record, an enumeration a datatype, an integer a
  word of its width where it may wrap around or is manipulated bitwise and an \<^typ>\<open>int\<close> where it is
  an error number. Objects that are allocated and freed live in heaps, maps from addresses to
  objects; using a freed object, a NULL or error pointer or an index past an array is the outcome
  \<^const>\<open>Fault\<close>. A function that may sleep or spin has the outcome \<^const>\<open>Blocked\<close> when it does not
  return, and \<^const>\<open>Done\<close> with its result and the new state when it does
  (\<^theory_text>\<open>Gunyah_Prelude\<close>). What other contexts do while a task sleeps is a list of events that is
  a parameter, so a theorem about all lists is one about all interleavings at the sleeping points.
  Hypercalls, allocations, \<^verbatim>\<open>request_irq\<close>, the device tree, \<^verbatim>\<open>qcom_scm_assign_mem\<close> and uninitialised
  variables are parameters too; what a theorem needs of them are its hypotheses. Locks are not
  states of the model: an operation that holds a lock throughout is one step.

  \<^bold>\<open>The theories.\<close>
  \<^item> \<^theory_text>\<open>Gunyah_Prelude\<close>: integers, outcomes, waiting, bytes, and the contract of exclusive
    registration (a locale). \<^theory_text>\<open>Gh_Errno\<close>: \<^verbatim>\<open>gh_errno.h\<close>.
  \<^item> \<^theory_text>\<open>Msgq\<close>, \<^theory_text>\<open>Msgq_Correct\<close>, \<^theory_text>\<open>Msgq_IO\<close>: \<^verbatim>\<open>gh_msgq.c\<close>. Registration is exclusive; a send that
    returns 0 was accepted by the hypervisor exactly once; no operation touches freed memory;
    non-blocking calls never sleep; population and reset are inverse, except that a failed
    population frees an entry in use.
  \<^item> \<^theory_text>\<open>Doorbell\<close>, \<^theory_text>\<open>Doorbell_Correct\<close>, \<^theory_text>\<open>Doorbell_IO\<close>: \<^verbatim>\<open>gh_dbl.c\<close>. The two directions share one
    descriptor; the same registration contract holds for each; a receiver reads what was rung.
  \<^item> \<^theory_text>\<open>Rm_Wire\<close>: message headers and the validation of notifications (also
    \<^verbatim>\<open>arch/arm64/gunyah/reset.c\<close>). \<^theory_text>\<open>Rm_Core\<close>: the transport and the receive task of
    \<^verbatim>\<open>gh_rm_core.c\<close>. \<^theory_text>\<open>Rm_Transport\<close>: a request is delivered as exactly its fragments, over every
    transport that keeps the contract of the locale \<^theory_text>\<open>rm_transport\<close>, which the message queue
    driver does. \<^theory_text>\<open>Rm_Reassembly\<close>, \<^theory_text>\<open>Rm_Call\<close>: replies and notifications are put together whole.
    \<^theory_text>\<open>Rm_Safety\<close>: the invariant of the receive task, and the messages that crash it.
  \<^item> \<^theory_text>\<open>Irq_Map\<close>: \<^verbatim>\<open>arch/arm64/gunyah/irq.c\<close>. \<^theory_text>\<open>Rm_Vm\<close>, \<^theory_text>\<open>Rm_Vm_Correct\<close>: the table of VMs and the VM,
    interrupt and console commands of \<^verbatim>\<open>gh_rm_iface.c\<close>. \<^theory_text>\<open>Rm_Mem\<close>, \<^theory_text>\<open>Rm_Mem_Correct\<close>: its memory
    parcel, time base and minidump commands; a list of pages is sent in pieces that cover it,
    accepted pieces are gathered.
  \<^item> \<^theory_text>\<open>Rm_Payload\<close>: the packed structures of \<^verbatim>\<open>gh_rm_drv_private.h\<close>; what a structure in memory promises is the
    locale \<^theory_text>\<open>packed\<close>, interpreted for each. \<^theory_text>\<open>Rm_Request\<close>: the requests of the protocol and a reader of
    them; every command sends the request it is named after, with the arguments of its caller in the
    fields. \<^theory_text>\<open>Rm_Notif\<close>: the notifications of \<^verbatim>\<open>gh_rm_drv.h\<close> (the locale \<^theory_text>\<open>packed_total\<close>); the validation
    of the receive task lets exactly these through.
  \<^item> \<^theory_text>\<open>Rm_Resources\<close>, \<^theory_text>\<open>Rm_Resources_Correct\<close>: populating a VM's resources, composed of the models
    of message queues, doorbells and interrupts; the seven callback slots keep one contract (the
    locale \<^theory_text>\<open>callback_slot\<close>); probing.
  \<^item> \<^theory_text>\<open>Irq_Lend\<close>, \<^theory_text>\<open>Irq_Lend_Correct\<close>: \<^verbatim>\<open>gh_irq_lend.c\<close> as a transition system with its invariant,
    and a whole loan between two VMs. \<^theory_text>\<open>Mem_Notifier\<close>: \<^verbatim>\<open>gh_mem_notifier.c\<close>.
  \<^item> \<^theory_text>\<open>Proxy_Sched\<close>, \<^theory_text>\<open>Proxy_Sched_Correct\<close>: \<^verbatim>\<open>gh_proxy_sched.c\<close>; registering and removing a VM is a
    round trip, the watchdog hypercalls of a running vCPU alternate.
  \<^item> \<^theory_text>\<open>Vm_Memory\<close>, \<^theory_text>\<open>Vm_Memory_Correct\<close>: the memory of a VM (\<^verbatim>\<open>gh_main.c\<close>). \<^theory_text>\<open>Vm_Main\<close>,
    \<^theory_text>\<open>Vm_Main_Correct\<close>: the VM and vCPU objects of \<^verbatim>\<open>gh_main.c\<close>, over the Resource Manager,
    resource and scheduler models: an object lives exactly as long as an open file refers to it.
  \<^item> \<^theory_text>\<open>Virtio_Backend\<close>: \<^verbatim>\<open>gh_secure_vm_virtio_backend.c\<close>, with every request of user space.
    \<^theory_text>\<open>Virtio_Events\<close>: references to eventfds and the device interrupt; \<^theory_text>\<open>Virtio_Exit\<close>: references to
    devices, the end of a VM, configuration data; \<^theory_text>\<open>Virtio_Share\<close>: who owns the shared buffers.
  \<^item> \<^theory_text>\<open>Sec_Loader\<close>, \<^theory_text>\<open>Sec_Loader_Correct\<close>: \<^verbatim>\<open>gh_secure_vm_loader.c\<close>, over the models of VM memory, VM objects
    and the virtio backend; where the metadata of an image lands, the table of devices, the way
    back of the memory. \<^theory_text>\<open>Device\<close>: the system calls on \<^verbatim>\<open>/dev/gunyah\<close> over all three; the life of the objects
    under everything programs can ask for.
  \<^item> \<^theory_text>\<open>Console\<close>, \<^theory_text>\<open>Console_Correct\<close>: \<^verbatim>\<open>hvc_gunyah.c\<close>; every terminal refines a pair of byte queues.
    \<^theory_text>\<open>Udmabuf\<close>, \<^theory_text>\<open>Udmabuf_Correct\<close>: \<^verbatim>\<open>hyp_udmabuf.c\<close>; \<^theory_text>\<open>Gvm_Dump\<close>, \<^theory_text>\<open>Gvm_Dump_Correct\<close>:
    \<^verbatim>\<open>gvm_dump_debugfs.c\<close>; each with the life of its objects from creation to release.
  \<^item> \<^theory_text>\<open>Virt_Wdt\<close>: \<^verbatim>\<open>gh_virt_wdt.c\<close> against the hypervisor's contract. \<^theory_text>\<open>Guest_Pops\<close>: \<^verbatim>\<open>gh_guest_pops.c\<close>, from
    start to exit.
  \<^item> \<^theory_text>\<open>Hcall\<close>: the wrappers of the hypercalls, their function numbers and registers.
    \<^theory_text>\<open>Hcall_Drivers\<close>: the message queue, doorbell and virtio drivers over them, down to the registers.

  \<^bold>\<open>Bounds.\<close> Loops over lists and arrays are structural recursion. Five loops go on for as long as
  their environment makes them: the retry on \<^verbatim>\<open>-EAGAIN\<close> while resources are populated and the loop
  that accepts the fragments of a parcel have a bound on the number of attempts, and so has the
  virtio interrupt, which fetches events until none is pending (a console message takes bytes from
  a fifo, so its loop ends by itself); the loop that runs a vCPU and the
  loops that send and receive a message or wait for a virtio event consume the list of what happens
  in each iteration. Running out of either is \<^const>\<open>Blocked\<close>. The theorems that such a call returns give a bound
  or list that is enough; those that it does not return hold for every bound.

  \<^bold>\<open>Not modelled.\<close> The instruction behind a hypercall, firmware and dma allocation, dma-buf, debugfs, the
  hvc layer, the input layer and the device tree are outside this repository and parameters of the
  models. The loader calls the dump of guest memory, which is logged there and modelled on its own.
  Trace events, debug output, the timing of wakeup sources and functions that only free memory have
  no effect in the models; the request numbers and structures of \<^verbatim>\<open>include/uapi/linux/gunyah.h\<close> are the
  constructors of the request datatypes.
\<close>

end
